(* ===== verification/Prelude.thy ===== *)
theory Prelude
  imports Main "HOL-Library.List_Lexorder" "HOL-Library.Char_ord" "HOL-Library.Sublist"
begin

text \<open>
  What every component of the model shares: the collections of simplification rules, the Go string
  operations the program calls (package strings, on the bytes of a string), decimal printing and
  reading (package strconv), Go errors as values of a datatype (packages errors, fmt, context),
  association lists with Go's map semantics, and the interface of a state machine with an
  invariant, which the breaker, the rate limiter and the deployment lifecycle interpret.

  A Go string is a list of bytes, and so is a value of type \<open>string\<close> here (a char is one byte).
  Machine ints that cannot wrap in the program (counters, lengths, times in nanoseconds) are
  \<open>int\<close> or \<open>nat\<close>; where the width matters the component says so.
\<close>

section \<open>Collections\<close>

named_theorems go_defs \<open>definitions unfolded by evaluation proofs\<close>
named_theorems go_err \<open>facts on error values\<close>

type_synonym gotime = int \<comment> \<open>nanoseconds; 0 is the zero time\<close>

section \<open>Strings\<close>

definition has_prefix :: "string \<Rightarrow> string \<Rightarrow> bool" where
  "has_prefix s p \<longleftrightarrow> take (length p) s = p"

definition has_suffix :: "string \<Rightarrow> string \<Rightarrow> bool" where
  "has_suffix s p \<longleftrightarrow> length p \<le> length s \<and> drop (length s - length p) s = p"

definition trim_prefix :: "string \<Rightarrow> string \<Rightarrow> string" where
  "trim_prefix s p = (if has_prefix s p then drop (length p) s else s)"

definition trim_suffix :: "string \<Rightarrow> string \<Rightarrow> string" where
  "trim_suffix s p = (if has_suffix s p then take (length s - length p) s else s)"

fun index_byte :: "string \<Rightarrow> char \<Rightarrow> nat option" where
  "index_byte [] c = None"
| "index_byte (x # xs) c = (if x = c then Some 0 else map_option Suc (index_byte xs c))"

definition last_index_byte :: "string \<Rightarrow> char \<Rightarrow> nat option" where
  "last_index_byte s c = map_option (\<lambda>i. length s - 1 - i) (index_byte (rev s) c)"

fun contains_str :: "string \<Rightarrow> string \<Rightarrow> bool" where
  "contains_str [] p \<longleftrightarrow> p = []"
| "contains_str (x # xs) p \<longleftrightarrow> has_prefix (x # xs) p \<or> contains_str xs p"

text \<open>strings.Split with a one-byte separator: at least one part, always.\<close>

fun split_on :: "char \<Rightarrow> string \<Rightarrow> string list" where
  "split_on c [] = [[]]"
| "split_on c (x # xs) =
     (if x = c then [] # split_on c xs
      else case split_on c xs of [] \<Rightarrow> [[x]] | p # ps \<Rightarrow> (x # p) # ps)"

text \<open>strings.SplitN(s, sep, 2): the part before the first separator, and the rest when there is one.\<close>

definition cut :: "char \<Rightarrow> string \<Rightarrow> string \<times> string option" where
  "cut c s = (case index_byte s c of None \<Rightarrow> (s, None) | Some i \<Rightarrow> (take i s, Some (drop (Suc i) s)))"

fun join_with :: "string \<Rightarrow> string list \<Rightarrow> string" where
  "join_with sep [] = []"
| "join_with sep [x] = x"
| "join_with sep (x # y # ys) = x @ sep @ join_with sep (y # ys)"

definition trim_left_set :: "string \<Rightarrow> string \<Rightarrow> string" where
  "trim_left_set cs s = dropWhile (\<lambda>c. c \<in> set cs) s"

definition trim_right_set :: "string \<Rightarrow> string \<Rightarrow> string" where
  "trim_right_set cs s = rev (dropWhile (\<lambda>c. c \<in> set cs) (rev s))"

text \<open>strings.TrimSpace: the white space of package unicode, as the byte sequences that encode it.\<close>

definition space_seqs :: "string list" where
  "space_seqs =
     [[CHR 0x09], [CHR 0x0A], [CHR 0x0B], [CHR 0x0C], [CHR 0x0D], [CHR 0x20],
      [CHR 0xC2, CHR 0x85], [CHR 0xC2, CHR 0xA0], [CHR 0xE1, CHR 0x9A, CHR 0x80],
      [CHR 0xE2, CHR 0x80, CHR 0x80], [CHR 0xE2, CHR 0x80, CHR 0x81], [CHR 0xE2, CHR 0x80, CHR 0x82],
      [CHR 0xE2, CHR 0x80, CHR 0x83], [CHR 0xE2, CHR 0x80, CHR 0x84], [CHR 0xE2, CHR 0x80, CHR 0x85],
      [CHR 0xE2, CHR 0x80, CHR 0x86], [CHR 0xE2, CHR 0x80, CHR 0x87], [CHR 0xE2, CHR 0x80, CHR 0x88],
      [CHR 0xE2, CHR 0x80, CHR 0x89], [CHR 0xE2, CHR 0x80, CHR 0x8A], [CHR 0xE2, CHR 0x80, CHR 0xA8],
      [CHR 0xE2, CHR 0x80, CHR 0xA9], [CHR 0xE2, CHR 0x80, CHR 0xAF], [CHR 0xE2, CHR 0x81, CHR 0x9F],
      [CHR 0xE3, CHR 0x80, CHR 0x80]]"

fun strip_one :: "string list \<Rightarrow> string \<Rightarrow> string option" where
  "strip_one [] s = None"
| "strip_one (p # ps) s =
     (if p \<noteq> [] \<and> has_prefix s p then Some (drop (length p) s) else strip_one ps s)"

lemma strip_one_shorter: "strip_one ps s = Some r \<Longrightarrow> length r < length s"
proof (induction ps)
  case (Cons p ps)
  show ?case
  proof (cases "p \<noteq> [] \<and> has_prefix s p")
    case True
    then have "s \<noteq> []" by (auto simp: has_prefix_def)
    with True Cons.prems show ?thesis by auto
  next
    case False
    with Cons show ?thesis by (auto split: if_splits)
  qed
qed simp

function trim_seqs :: "string list \<Rightarrow> string \<Rightarrow> string" where
  "trim_seqs ps s = (case strip_one ps s of None \<Rightarrow> s | Some r \<Rightarrow> trim_seqs ps r)"
  by pat_completeness auto
termination by (relation "measure (length \<circ> snd)") (auto simp: strip_one_shorter)

declare trim_seqs.simps [simp del]

definition trim_space :: "string \<Rightarrow> string" where
  "trim_space s = rev (trim_seqs (map rev space_seqs) (rev (trim_seqs space_seqs s)))"

text \<open>strings.ToLower and ToUpper on ASCII input, which is what the program passes them
  (role names, environment keys, media types); other bytes are left as they are.\<close>

definition lower_char :: "char \<Rightarrow> char" where
  "lower_char c = (if CHR ''A'' \<le> c \<and> c \<le> CHR ''Z'' then char_of (of_char c + 32 :: nat) else c)"

definition upper_char :: "char \<Rightarrow> char" where
  "upper_char c = (if CHR ''a'' \<le> c \<and> c \<le> CHR ''z'' then char_of (of_char c - 32 :: nat) else c)"

definition to_lower :: "string \<Rightarrow> string" where "to_lower s = List.map lower_char s"
definition to_upper :: "string \<Rightarrow> string" where "to_upper s = List.map upper_char s"

definition is_digit_char :: "char \<Rightarrow> bool" where
  "is_digit_char c \<longleftrightarrow> CHR ''0'' \<le> c \<and> c \<le> CHR ''9''"

definition is_ascii_letter :: "char \<Rightarrow> bool" where
  "is_ascii_letter c \<longleftrightarrow> (CHR ''a'' \<le> c \<and> c \<le> CHR ''z'') \<or> (CHR ''A'' \<le> c \<and> c \<le> CHR ''Z'')"

text \<open>The verb %q on the printable text the program quotes: the text between double quotes.\<close>

definition quoted :: "string \<Rightarrow> string" where
  "quoted s = CHR 0x22 # s @ [CHR 0x22]"

subsection \<open>Facts on strings\<close>

lemma has_prefix_iff: "has_prefix s p \<longleftrightarrow> (\<exists>r. s = p @ r)"
proof
  assume "has_prefix s p"
  then have "s = p @ drop (length p) s"
    by (metis append_take_drop_id has_prefix_def)
  then show "\<exists>r. s = p @ r" by blast
qed (auto simp: has_prefix_def)

lemma has_prefix_append [simp]: "has_prefix (p @ r) p"
  by (simp add: has_prefix_def)

lemma has_prefix_empty [simp]: "has_prefix s []"
  by (simp add: has_prefix_def)

lemma has_prefix_Cons [simp]: "has_prefix (x # xs) (y # ys) \<longleftrightarrow> x = y \<and> has_prefix xs ys"
  by (auto simp: has_prefix_def)

lemma has_prefix_Nil [simp]: "has_prefix [] p \<longleftrightarrow> p = []"
  by (auto simp: has_prefix_def)

lemma has_suffix_iff: "has_suffix s p \<longleftrightarrow> (\<exists>r. s = r @ p)"
proof
  assume "has_suffix s p"
  then have "s = take (length s - length p) s @ p"
    by (metis append_take_drop_id has_suffix_def)
  then show "\<exists>r. s = r @ p" by blast
qed (auto simp: has_suffix_def)

lemma trim_prefix_append [simp]: "trim_prefix (p @ r) p = r"
  by (simp add: trim_prefix_def)

lemma index_byte_None: "index_byte s c = None \<longleftrightarrow> c \<notin> set s"
  by (induction s) auto

lemma index_byte_Some:
  "index_byte s c = Some i \<Longrightarrow> i < length s \<and> s ! i = c \<and> c \<notin> set (take i s)"
  by (induction s arbitrary: i) (auto split: if_splits)

lemma index_byte_append:
  "c \<notin> set p \<Longrightarrow> index_byte (p @ c # r) c = Some (length p)"
  by (induction p) auto

lemma cut_append: "c \<notin> set p \<Longrightarrow> cut c (p @ c # r) = (p, Some r)"
  by (simp add: cut_def index_byte_append)

lemma cut_none: "c \<notin> set s \<Longrightarrow> cut c s = (s, None)"
  using index_byte_None[of s c] by (simp add: cut_def)

lemma cut_Some: "cut c s = (p, Some r) \<Longrightarrow> s = p @ c # r \<and> c \<notin> set p"
  by (auto simp: cut_def split: option.splits dest!: index_byte_Some
      intro: id_take_nth_drop[THEN trans])

lemma cut_None: "cut c s = (p, None) \<Longrightarrow> p = s \<and> c \<notin> set s"
  by (auto simp: cut_def index_byte_None split: option.splits)

lemma split_on_nonempty [simp]: "split_on c s \<noteq> []"
  by (induction s) (auto split: list.splits)

lemma split_on_no_sep: "c \<notin> set s \<Longrightarrow> split_on c s = [s]"
  by (induction s) auto

lemma split_on_append:
  "c \<notin> set p \<Longrightarrow> split_on c (p @ c # r) = p # split_on c r"
  by (induction p) auto

lemma split_on_parts: "p \<in> set (split_on c s) \<Longrightarrow> c \<notin> set p"
  by (induction s arbitrary: p) (auto split: if_splits list.splits)

lemma join_split: "join_with [c] (split_on c s) = s"
proof (induction s)
  case (Cons x xs)
  obtain p ps where "split_on c xs = p # ps" by (cases "split_on c xs") auto
  with Cons show ?case by (cases ps) auto
qed simp

lemma split_join:
  "ps \<noteq> [] \<Longrightarrow> (\<forall>p \<in> set ps. c \<notin> set p) \<Longrightarrow> split_on c (join_with [c] ps) = ps"
proof (induction ps rule: induct_list012)
  case (2 x) then show ?case by (simp add: split_on_no_sep)
next
  case (3 x y zs) then show ?case by (simp add: split_on_append)
qed simp

lemma trim_left_set_idem [simp]: "trim_left_set cs (trim_left_set cs s) = trim_left_set cs s"
  by (simp add: trim_left_set_def)

lemma trim_left_set_id: "s = [] \<or> hd s \<notin> set cs \<Longrightarrow> trim_left_set cs s = s"
  by (cases s) (auto simp: trim_left_set_def)

lemma trim_right_set_id: "s = [] \<or> last s \<notin> set cs \<Longrightarrow> trim_right_set cs s = s"
  by (cases s rule: rev_cases) (auto simp: trim_right_set_def)

lemma trim_seqs_id: "strip_one ps s = None \<Longrightarrow> trim_seqs ps s = s"
  by (subst trim_seqs.simps) simp

lemma trim_seqs_stop: "strip_one ps (trim_seqs ps s) = None"
  by (induction ps s rule: trim_seqs.induct, subst trim_seqs.simps)
     (auto split: option.splits intro: trim_seqs.simps[THEN subst])

lemma trim_seqs_idem [simp]: "trim_seqs ps (trim_seqs ps s) = trim_seqs ps s"
  by (rule trim_seqs_id) (rule trim_seqs_stop)

lemma strip_one_None: "strip_one ps s = None \<longleftrightarrow> (\<forall>p \<in> set ps. p = [] \<or> \<not> has_prefix s p)"
  by (induction ps) auto

lemma strip_one_suffix: "strip_one ps s = Some r \<Longrightarrow> \<exists>p. s = p @ r"
  by (induction ps) (auto split: if_splits intro: append_take_drop_id[symmetric])

lemma trim_seqs_suffix: "\<exists>p. s = p @ trim_seqs ps s"
proof (induction ps s rule: trim_seqs.induct)
  case (1 ps s)
  show ?case
  proof (cases "strip_one ps s")
    case None
    then show ?thesis by (simp add: trim_seqs_id)
  next
    case (Some r)
    with 1 obtain q where "r = q @ trim_seqs ps r" by blast
    moreover obtain p where "s = p @ r" using Some strip_one_suffix by blast
    moreover have "trim_seqs ps s = trim_seqs ps r" using Some by (subst trim_seqs.simps) simp
    ultimately show ?thesis by (metis append.assoc)
  qed
qed

lemma trim_space_infix: "\<exists>p q. s = p @ trim_space s @ q"
proof -
  obtain p where p: "s = p @ trim_seqs space_seqs s" using trim_seqs_suffix by blast
  obtain q where "rev (trim_seqs space_seqs s)
      = q @ trim_seqs (List.map rev space_seqs) (rev (trim_seqs space_seqs s))"
    using trim_seqs_suffix by blast
  then have "trim_seqs space_seqs s = trim_space s @ rev q"
    by (metis rev_append rev_rev_ident trim_space_def)
  with p show ?thesis by metis
qed

text \<open>A string whose first and last bytes are neither ASCII white space nor part of a multi-byte
  space is its own trim.\<close>

definition plain_char :: "char \<Rightarrow> bool" where
  "plain_char c \<longleftrightarrow> (of_char c :: nat) > 0x20 \<and> (of_char c :: nat) < 0x80"

lemma space_seqs_not_plain:
  "\<forall>p \<in> set space_seqs. \<not> plain_char (hd p)" "\<forall>p \<in> set space_seqs. \<not> plain_char (last p)"
  by code_simp+

lemma has_prefix_hd: "has_prefix s p \<Longrightarrow> p \<noteq> [] \<Longrightarrow> hd p = hd s"
  by (auto simp: has_prefix_iff)

lemma trim_space_plain:
  assumes "s \<noteq> []" "plain_char (hd s)" "plain_char (last s)"
  shows "trim_space s = s"
proof -
  have 1: "strip_one space_seqs s = None"
    using assms space_seqs_not_plain(1) by (auto simp: strip_one_None dest!: has_prefix_hd)
  have 2: "strip_one (List.map rev space_seqs) (rev s) = None"
    using assms space_seqs_not_plain(2)
    by (auto simp: strip_one_None hd_rev dest!: has_prefix_hd)
  show ?thesis using trim_seqs_id[OF 1] trim_seqs_id[OF 2] by (simp add: trim_space_def)
qed

lemma trim_space_Nil [simp]: "trim_space [] = []"
  using trim_space_infix[of "[]"] by simp

section \<open>Decimal numbers\<close>

text \<open>strconv.Itoa and the verb %d, and strconv.Atoi (sign, digits, range of a 64-bit int).\<close>

definition digit_char :: "nat \<Rightarrow> char" where "digit_char d = char_of (48 + d)"
definition char_digit :: "char \<Rightarrow> nat" where "char_digit c = of_char c - 48"

fun dec_nat :: "nat \<Rightarrow> string" where
  "dec_nat n = (if n < 10 then [digit_char n] else dec_nat (n div 10) @ [digit_char (n mod 10)])"

declare dec_nat.simps [simp del]

definition dec_int :: "int \<Rightarrow> string" where
  "dec_int i = (if i < 0 then CHR ''-'' # dec_nat (nat (- i)) else dec_nat (nat i))"

definition dec_value :: "string \<Rightarrow> nat" where
  "dec_value s = foldl (\<lambda>a c. a * 10 + char_digit c) 0 s"

definition max_int64 :: int where "max_int64 = 9223372036854775807"

definition atoi :: "string \<Rightarrow> int option" where
  "atoi s =
     (let neg = (s \<noteq> [] \<and> hd s = CHR ''-'');
          ds = (if s \<noteq> [] \<and> (hd s = CHR ''-'' \<or> hd s = CHR ''+'') then tl s else s)
      in if ds = [] \<or> \<not> list_all is_digit_char ds then None
         else let v = (if neg then - int (dec_value ds) else int (dec_value ds))
              in if - max_int64 - 1 \<le> v \<and> v \<le> max_int64 then Some v else None)"

lemma of_char_digit: "d < 10 \<Longrightarrow> (of_char (digit_char d) :: nat) = 48 + d"
  by (simp add: digit_char_def)

lemma digit_char_props:
  "d < 10 \<Longrightarrow> is_digit_char (digit_char d)"
  "d < 10 \<Longrightarrow> char_digit (digit_char d) = d"
  by (simp_all add: is_digit_char_def less_eq_char_def of_char_digit char_digit_def)

lemma dec_nat_digits: "list_all is_digit_char (dec_nat n)"
  by (induction n rule: dec_nat.induct) (subst dec_nat.simps, auto simp: digit_char_props)

lemma dec_nat_nonempty [simp]: "dec_nat n \<noteq> []"
  by (subst dec_nat.simps) auto

lemma dec_value_snoc [simp]: "dec_value (s @ [c]) = dec_value s * 10 + char_digit c"
  by (simp add: dec_value_def)

lemma dec_value_Nil [simp]: "dec_value [] = 0"
  by (simp add: dec_value_def)

lemma dec_value_dec_nat [simp]: "dec_value (dec_nat n) = n"
proof (induction n rule: dec_nat.induct)
  case (1 n)
  show ?case
  proof (cases "n < 10")
    case True
    then have "dec_nat n = [] @ [digit_char n]" by (simp add: dec_nat.simps)
    then have "dec_value (dec_nat n) = char_digit (digit_char n)"
      by (simp only: dec_value_snoc) simp
    then show ?thesis using True by (simp add: digit_char_props)
  next
    case False
    then show ?thesis using 1 by (subst dec_nat.simps) (simp add: digit_char_props)
  qed
qed

lemma digit_not_sign: "is_digit_char c \<Longrightarrow> c \<noteq> CHR ''-'' \<and> c \<noteq> CHR ''+''"
  by (auto simp: is_digit_char_def less_eq_char_def)

lemma atoi_dec_int:
  assumes "- max_int64 - 1 \<le> i" "i \<le> max_int64"
  shows "atoi (dec_int i) = Some i"
proof (cases "i < 0")
  case True
  then show ?thesis using assms by (simp add: atoi_def dec_int_def dec_nat_digits Let_def)
next
  case False
  have "hd (dec_nat (nat i)) \<noteq> CHR ''-'' \<and> hd (dec_nat (nat i)) \<noteq> CHR ''+''"
    using dec_nat_digits[of "nat i"] by (cases "dec_nat (nat i)") (auto dest: digit_not_sign)
  with False show ?thesis using assms by (simp add: atoi_def dec_int_def dec_nat_digits Let_def)
qed

lemma dec_nat_inj: "dec_nat a = dec_nat b \<Longrightarrow> a = b"
  by (metis dec_value_dec_nat)

section \<open>Errors\<close>

text \<open>
  A Go error is a value. \<open>ErrText\<close> is errors.New or fmt.Errorf without %w; \<open>ErrWrap\<close> is
  fmt.Errorf("prefix%w"); \<open>ErrCanceled\<close> and \<open>ErrDeadline\<close> are the sentinels of package context,
  \<open>ErrNotExist\<close> the one of package os; \<open>ErrDocker\<close> is an error of the Docker client with the class the
  containerd errdefs predicates read; \<open>ErrGit\<close> one of the go-git sentinels that
  gitutil.IsPermanentCloneError knows; \<open>ErrPermanent\<close> is the marker of package retry.
\<close>

datatype docker_class = NotFound | Unauthorized | PermissionDenied | OtherClass
datatype git_class = AuthenticationRequired | AuthorizationFailed | RepositoryNotFound | ReferenceNotFound

datatype gerr =
    ErrText string
  | ErrCanceled
  | ErrDeadline
  | ErrNotExist
  | ErrNoRows
  | ErrDocker docker_class string
  | ErrGit git_class
  | ErrWrap string gerr
  | ErrPermanent gerr

type_synonym 'a res = "gerr + 'a"

fun err_msg :: "gerr \<Rightarrow> string" where
  "err_msg (ErrText s) = s"
| "err_msg ErrCanceled = ''context canceled''"
| "err_msg ErrDeadline = ''context deadline exceeded''"
| "err_msg ErrNotExist = ''file does not exist''"
| "err_msg ErrNoRows = ''sql: no rows in result set''"
| "err_msg (ErrDocker c s) = s"
| "err_msg (ErrGit AuthenticationRequired) = ''authentication required''"
| "err_msg (ErrGit AuthorizationFailed) = ''authorization failed''"
| "err_msg (ErrGit RepositoryNotFound) = ''repository not found''"
| "err_msg (ErrGit ReferenceNotFound) = ''reference not found''"
| "err_msg (ErrWrap p e) = p @ err_msg e"
| "err_msg (ErrPermanent e) = err_msg e"

text \<open>errors.Is against a sentinel: the end of the chain of wrapped errors.\<close>

fun err_root :: "gerr \<Rightarrow> gerr" where
  "err_root (ErrWrap p e) = err_root e"
| "err_root (ErrPermanent e) = err_root e"
| "err_root e = e"

text \<open>errors.As against *permanent: the first marker of the chain, giving the error it holds.\<close>

fun err_as_permanent :: "gerr \<Rightarrow> gerr option" where
  "err_as_permanent (ErrPermanent e) = Some e"
| "err_as_permanent (ErrWrap p e) = err_as_permanent e"
| "err_as_permanent _ = None"

fun docker_class_of :: "gerr \<Rightarrow> docker_class option" where
  "docker_class_of (ErrDocker c s) = Some c"
| "docker_class_of (ErrWrap p e) = docker_class_of e"
| "docker_class_of (ErrPermanent e) = docker_class_of e"
| "docker_class_of _ = None"

definition is_ctx_err :: "gerr \<Rightarrow> bool" where
  "is_ctx_err e \<longleftrightarrow> err_root e = ErrCanceled \<or> err_root e = ErrDeadline"

lemma err_root_wrap [simp]: "is_ctx_err (ErrWrap p e) = is_ctx_err e"
  by (simp add: is_ctx_err_def)

lemma err_root_atomic: "err_root (err_root e) = err_root e"
  by (induction e) auto

lemma err_as_permanent_root: "err_as_permanent e = Some p \<Longrightarrow> err_root p = err_root e"
  by (induction e) auto

section \<open>Machines and invariants\<close>

text \<open>
  A component with a state is a step function over its operations. The interface promises that every
  admissible operation keeps the invariant; its client lemma is that any admissible run does. The components
  interpret it on their own operations.
\<close>

fun run_ops :: "('op \<Rightarrow> 's \<Rightarrow> 's) \<Rightarrow> 'op list \<Rightarrow> 's \<Rightarrow> 's" where
  "run_ops step [] s = s"
| "run_ops step (a # as) s = run_ops step as (step a s)"

lemma run_ops_append: "run_ops step (as @ bs) s = run_ops step bs (run_ops step as s)"
  by (induction as arbitrary: s) auto

locale invariant_machine =
  fixes step :: "'op \<Rightarrow> 's \<Rightarrow> 's"
    and ok :: "'s \<Rightarrow> 'op \<Rightarrow> bool"
    and inv :: "'s \<Rightarrow> bool"
  assumes step_inv: "inv s \<Longrightarrow> ok s a \<Longrightarrow> inv (step a s)"
begin

fun admissible :: "'op list \<Rightarrow> 's \<Rightarrow> bool" where
  "admissible [] s \<longleftrightarrow> True"
| "admissible (a # as) s \<longleftrightarrow> ok s a \<and> admissible as (step a s)"

lemma run_inv: "inv s \<Longrightarrow> admissible as s \<Longrightarrow> inv (run_ops step as s)"
  by (induction as arbitrary: s) (auto intro: step_inv)

lemma run_inv_ops:
  assumes "\<And>s a. a \<in> set as \<Longrightarrow> ok s a" "inv s"
  shows "inv (run_ops step as s)"
  using assms by (induction as arbitrary: s) (auto intro: step_inv)

lemma run_inv_all:
  assumes "\<And>s a. ok s a" "inv s"
  shows "inv (run_ops step as s)"
  using assms(2) by (induction as arbitrary: s) (auto intro: step_inv assms(1))

end

text \<open>A machine that refines another: an abstraction of the state under which every operation commutes.\<close>

locale refinement =
  fixes cstep :: "'op \<Rightarrow> 'c \<Rightarrow> 'c"
    and astep :: "'op \<Rightarrow> 'a \<Rightarrow> 'a"
    and abs :: "'c \<Rightarrow> 'a"
    and cinv :: "'c \<Rightarrow> bool"
  assumes commutes: "cinv c \<Longrightarrow> abs (cstep a c) = astep a (abs c)"
    and keeps: "cinv c \<Longrightarrow> cinv (cstep a c)"
begin

lemma run_refines: "cinv c \<Longrightarrow> abs (run_ops cstep as c) = run_ops astep as (abs c)"
  by (induction as arbitrary: c) (auto simp: commutes keeps)

end

end
