(* ===== verification/Codec.thy ===== *)
theory Codec
  imports Prelude
begin

text \<open>
  The two text encodings of the standard library the program stores and compares: hexadecimal (encoding/hex) and
  base64 with padding (base64.StdEncoding). The interface promises that decoding gives back what was encoded and
  that an encoded text holds characters of the alphabet only; both encodings provide it.
\<close>

section \<open>The interface\<close>

locale codec =
  fixes enc :: "string \<Rightarrow> string"
    and dec :: "string \<Rightarrow> string option"
    and alphabet :: "char \<Rightarrow> bool"
  assumes dec_enc: "dec (enc s) = Some s"
    and enc_alphabet: "list_all alphabet (enc s)"
begin

lemma enc_inj: "enc s = enc t \<Longrightarrow> s = t"
  by (metis dec_enc option.inject)

lemma enc_avoids: "\<not> alphabet c \<Longrightarrow> c \<notin> set (enc s)"
  using enc_alphabet[of s] by (auto simp: list_all_iff)

lemma enc_no_cut: "\<not> alphabet c \<Longrightarrow> cut c (enc s @ c # r) = (enc s, Some r)"
  by (simp add: cut_append enc_avoids)

end

section \<open>Hexadecimal\<close>

definition hex_digit :: "nat \<Rightarrow> char" where
  "hex_digit n = (if n < 10 then char_of (48 + n) else char_of (87 + n))"

definition hex_value :: "char \<Rightarrow> nat option" where
  "hex_value c =
     (if CHR ''0'' \<le> c \<and> c \<le> CHR ''9'' then Some (of_char c - 48)
      else if CHR ''a'' \<le> c \<and> c \<le> CHR ''f'' then Some (of_char c - 87)
      else if CHR ''A'' \<le> c \<and> c \<le> CHR ''F'' then Some (of_char c - 55)
      else None)"

definition hex_encode :: "string \<Rightarrow> string" where
  "hex_encode s = concat (List.map (\<lambda>c. [hex_digit (of_char c div 16), hex_digit (of_char c mod 16)]) s)"

fun hex_decode :: "string \<Rightarrow> string option" where
  "hex_decode [] = Some []"
| "hex_decode [x] = None"
| "hex_decode (x # y # s) =
     (case (hex_value x, hex_value y, hex_decode s) of
        (Some h, Some l, Some r) \<Rightarrow> Some (char_of (16 * h + l) # r)
      | _ \<Rightarrow> None)"

definition hex_char :: "char \<Rightarrow> bool" where
  "hex_char c \<longleftrightarrow> is_digit_char c \<or> (CHR ''a'' \<le> c \<and> c \<le> CHR ''f'')"

lemma hex_table: "\<forall>n \<in> set [0..<16]. hex_value (hex_digit n) = Some n \<and> hex_char (hex_digit n)"
  by (simp add: upt_rec hex_value_def hex_digit_def hex_char_def is_digit_char_def less_eq_char_def)

lemma hex_table_at: "n < 16 \<Longrightarrow> hex_value (hex_digit n) = Some n" "n < 16 \<Longrightarrow> hex_char (hex_digit n)"
  using hex_table by auto

lemma of_char_lt: "(of_char (c::char) :: nat) < 256"
  by (metis mod_less_divisor of_char_mod_256 zero_less_numeral)

lemma of_char_div: "0 < k \<Longrightarrow> 256 \<le> k * m \<Longrightarrow> (of_char (c::char) :: nat) div k < m"
  using less_le_trans[OF of_char_lt[of c]] by (intro less_mult_imp_div_less) (simp add: mult.commute)

lemma of_char_split: "(of_char (c::char) :: nat) div 16 < 16"
  by (rule of_char_div) simp_all

lemma hex_decode_encode: "hex_decode (hex_encode s) = Some s"
  by (induction s) (simp_all add: hex_encode_def hex_table_at of_char_split)

lemma hex_encode_chars: "list_all hex_char (hex_encode s)"
  by (induction s) (simp_all add: hex_encode_def hex_table_at of_char_split)

lemma hex_encode_length [simp]: "length (hex_encode s) = 2 * length s"
  by (induction s) (simp_all add: hex_encode_def)

interpretation hex: codec hex_encode hex_decode hex_char
  by unfold_locales (rule hex_decode_encode, rule hex_encode_chars)

section \<open>Base64\<close>

definition b64_digit :: "nat \<Rightarrow> char" where
  "b64_digit n =
     (if n < 26 then char_of (65 + n) else if n < 52 then char_of (97 + (n - 26))
      else if n < 62 then char_of (48 + (n - 52)) else if n = 62 then CHR ''+'' else CHR ''/'')"

definition b64_value :: "char \<Rightarrow> nat option" where
  "b64_value c =
     (if CHR ''A'' \<le> c \<and> c \<le> CHR ''Z'' then Some (of_char c - 65)
      else if CHR ''a'' \<le> c \<and> c \<le> CHR ''z'' then Some (of_char c - 97 + 26)
      else if CHR ''0'' \<le> c \<and> c \<le> CHR ''9'' then Some (of_char c - 48 + 52)
      else if c = CHR ''+'' then Some 62 else if c = CHR ''/'' then Some 63 else None)"

fun b64_encode :: "string \<Rightarrow> string" where
  "b64_encode [] = []"
| "b64_encode [x] =
     (let n = of_char x :: nat in [b64_digit (n div 4), b64_digit (n mod 4 * 16), CHR ''='', CHR ''=''])"
| "b64_encode [x, y] =
     (let n = of_char x * 256 + of_char y :: nat
      in [b64_digit (n div 1024), b64_digit (n div 16 mod 64), b64_digit (n mod 16 * 4), CHR ''=''])"
| "b64_encode (x # y # z # r) =
     (let n = of_char x * 65536 + of_char y * 256 + of_char z :: nat
      in b64_digit (n div 262144) # b64_digit (n div 4096 mod 64) # b64_digit (n div 64 mod 64)
         # b64_digit (n mod 64) # b64_encode r)"

fun b64_quads :: "string \<Rightarrow> string option" where
  "b64_quads [] = Some []"
| "b64_quads (a # b # c # d # r) =
     (case (b64_value a, b64_value b) of
        (Some va, Some vb) \<Rightarrow>
          (if c = CHR ''='' then
             (if d = CHR ''='' \<and> r = [] then Some [char_of ((va * 64 + vb) div 16)] else None)
           else case b64_value c of
             None \<Rightarrow> None
           | Some vc \<Rightarrow>
             (if d = CHR ''='' then
                (if r = [] then
                   (let n = (va * 4096 + vb * 64 + vc) div 4 in Some [char_of (n div 256), char_of n])
                 else None)
              else case (b64_value d, b64_quads r) of
                (Some vd, Some s) \<Rightarrow>
                  (let n = ((va * 64 + vb) * 64 + vc) * 64 + vd
                   in Some (char_of (n div 65536) # char_of (n div 256) # char_of n # s))
              | _ \<Rightarrow> None))
      | _ \<Rightarrow> None)"
| "b64_quads _ = None"

text \<open>The decoder skips line ends.\<close>

definition b64_decode :: "string \<Rightarrow> string option" where
  "b64_decode s = b64_quads (filter (\<lambda>c. c \<noteq> CHR 0x0A \<and> c \<noteq> CHR 0x0D) s)"

definition b64_char :: "char \<Rightarrow> bool" where
  "b64_char c \<longleftrightarrow> b64_value c \<noteq> None \<or> c = CHR ''=''"

lemma b64_table: "\<forall>n \<in> set [0..<64]. b64_value (b64_digit n) = Some n"
  by (simp add: upt_rec b64_value_def b64_digit_def less_eq_char_def)

lemma b64_value_pad: "b64_value CHR ''='' = None"
  by (simp add: b64_value_def less_eq_char_def)

lemma b64_table_at:
  "n < 64 \<Longrightarrow> b64_value (b64_digit n) = Some n"
  "n < 64 \<Longrightarrow> b64_digit n \<noteq> CHR ''=''"
proof -
  show v: "b64_value (b64_digit n) = Some n" if "n < 64" using that b64_table by simp
  show "b64_digit n \<noteq> CHR ''=''" if "n < 64" using v[OF that] b64_value_pad by force
qed

lemma b64_digit_char: "n < 64 \<Longrightarrow> b64_char (b64_digit n)"
  by (simp add: b64_char_def b64_table_at)

lemma b64_pad_char: "b64_char CHR ''=''"
  by (simp add: b64_char_def)

lemma two_bytes_div: "((of_char x :: nat) * 256 + of_char y) div 1024 < 64"
  using of_char_lt[of x] of_char_lt[of y] by (intro less_mult_imp_div_less) linarith

lemma three_bytes_div: "((of_char x :: nat) * 65536 + of_char y * 256 + of_char z) div 262144 < 64"
  using of_char_lt[of x] of_char_lt[of y] of_char_lt[of z] by (intro less_mult_imp_div_less) linarith

lemma b64_encode_chars: "list_all b64_char (b64_encode s)"
  by (induction s rule: b64_encode.induct)
     (simp_all add: Let_def b64_digit_char b64_pad_char of_char_div two_bytes_div three_bytes_div)

lemma b64_char_no_eol: "b64_char c \<Longrightarrow> c \<noteq> CHR 0x0A \<and> c \<noteq> CHR 0x0D"
  by (auto simp: b64_char_def b64_value_def less_eq_char_def)

lemma b64_filter: "filter (\<lambda>c. c \<noteq> CHR 0x0A \<and> c \<noteq> CHR 0x0D) (b64_encode s) = b64_encode s"
  using b64_encode_chars[of s] b64_char_no_eol by (intro filter_True) (auto simp: list_all_iff)

lemma recombine4: "((n div 262144 * 64 + n div 4096 mod 64) * 64 + n div 64 mod 64) * 64 + n mod 64 = (n::nat)"
proof -
  have "n div 262144 = n div 4096 div 64" "n div 4096 = n div 64 div 64" by (simp_all flip: div_mult2_eq)
  then have "n div 262144 * 64 + n div 4096 mod 64 = n div 4096" "n div 4096 * 64 + n div 64 mod 64 = n div 64"
    by simp_all
  then show ?thesis by simp
qed

lemma recombine3: "(n div 1024 * 4096 + n div 16 mod 64 * 64 + n mod 16 * 4) div 4 = (n::nat)"
proof -
  have "n div 1024 = n div 16 div 64" by (simp flip: div_mult2_eq)
  then have "n div 1024 * 64 + n div 16 mod 64 = n div 16" by simp
  moreover have "a * 64 + b = c \<Longrightarrow> a * 4096 + b * 64 + d * 4 = (c * 16 + d) * 4" for a b c d :: nat by simp
  ultimately have "n div 1024 * 4096 + n div 16 mod 64 * 64 + n mod 16 * 4 = (n div 16 * 16 + n mod 16) * 4" by blast
  also have "\<dots> = n * 4" by simp
  finally show ?thesis by simp
qed

lemma recombine2: "(n div 4 * 64 + n mod 4 * 16) div 16 = (n::nat)"
proof -
  have "a * 64 + b * 16 = (a * 4 + b) * 16" for a b :: nat by simp
  then have "n div 4 * 64 + n mod 4 * 16 = (n div 4 * 4 + n mod 4) * 16" .
  also have "\<dots> = n * 16" by simp
  finally show ?thesis by simp
qed

lemma char_of_low: "(char_of (256 * k + of_char (c::char) :: nat) :: char) = c"
proof -
  have "char_of (256 * k + of_char c :: nat) = char_of ((256 * k + of_char c :: nat) mod 256)"
    by (simp only: char_of_mod_256)
  also have "\<dots> = c" by simp
  finally show ?thesis .
qed

lemma byte_div: "((a::nat) * 256 + of_char (c::char)) div 256 = a"
  using of_char_lt[of c] by simp

lemma three_bytes_parts:
  "((of_char x :: nat) * 65536 + of_char y * 256 + of_char z) div 256 = of_char x * 256 + of_char y"
  "((of_char x :: nat) * 65536 + of_char y * 256 + of_char z) div 65536 = of_char x"
proof -
  have n: "(of_char x :: nat) * 65536 + of_char y * 256 + of_char z = (of_char x * 256 + of_char y) * 256 + of_char z"
    by simp
  show 1: "((of_char x :: nat) * 65536 + of_char y * 256 + of_char z) div 256 = of_char x * 256 + of_char y"
    unfolding n by (rule byte_div)
  have "(of_char x * 65536 + of_char y * 256 + of_char z :: nat) div 65536
      = (of_char x * 65536 + of_char y * 256 + of_char z) div 256 div 256"
    by (simp flip: div_mult2_eq)
  also have "\<dots> = of_char x" unfolding 1 by (rule byte_div)
  finally show "((of_char x :: nat) * 65536 + of_char y * 256 + of_char z) div 65536 = of_char x" .
qed

lemma b64_quad_values:
  assumes "b64_value a = Some va" "b64_value b = Some vb" "b64_value c = Some vc" "b64_value d = Some vd"
    "c \<noteq> CHR ''=''" "d \<noteq> CHR ''=''"
  shows "b64_quads (a # b # c # d # r) =
    map_option (\<lambda>s. char_of ((((va * 64 + vb) * 64 + vc) * 64 + vd) div 65536)
      # char_of ((((va * 64 + vb) * 64 + vc) * 64 + vd) div 256)
      # char_of (((va * 64 + vb) * 64 + vc) * 64 + vd) # s) (b64_quads r)"
  using assms by (cases "b64_quads r") (simp_all add: Let_def)

lemma b64_quad_step:
  assumes "n div 262144 < 64"
  shows "b64_quads (b64_digit (n div 262144) # b64_digit (n div 4096 mod 64) # b64_digit (n div 64 mod 64)
      # b64_digit (n mod 64) # r) =
    map_option (\<lambda>s. char_of (n div 65536) # char_of (n div 256) # char_of n # s) (b64_quads r)"
  using b64_quad_values[of "b64_digit (n div 262144)" "n div 262144" "b64_digit (n div 4096 mod 64)" "n div 4096 mod 64"
      "b64_digit (n div 64 mod 64)" "n div 64 mod 64" "b64_digit (n mod 64)" "n mod 64" r]
  unfolding recombine4 using assms by (simp add: b64_table_at del: b64_quads.simps)

lemma b64_quads_encode: "b64_quads (b64_encode s) = Some s"
proof (induction s rule: b64_encode.induct)
  case (2 x)
  have "(of_char x :: nat) div 4 < 64" by (rule of_char_div) simp_all
  moreover have "k mod 4 * 16 < (64::nat)" for k using mod_less_divisor[of 4 k] by linarith
  ultimately show ?case by (simp add: Let_def b64_table_at recombine2)
next
  case (3 x y)
  let ?n = "of_char x * 256 + of_char y :: nat"
  have "k mod 16 * 4 < (64::nat)" for k using mod_less_divisor[of 16 k] by linarith
  then have lt: "?n mod 16 * 4 < 64" .
  have "?n div 256 = of_char x" using of_char_lt[of y] by simp
  then have "(char_of (?n div 256) :: char) = x" "(char_of ?n :: char) = y"
    using char_of_low[of "of_char x" y] by (simp_all add: mult.commute)
  then show ?case using lt two_bytes_div[of x y]
    by (simp add: Let_def b64_table_at recombine3 del: char_of_mod_256)
next
  case (4 x y z r)
  let ?n = "of_char x * 65536 + of_char y * 256 + of_char z :: nat"
  have "?n div 256 = of_char x * 256 + of_char y" "?n div 65536 = of_char x"
    by (rule three_bytes_parts)+
  then have "(char_of (?n div 65536) :: char) = x" "(char_of (?n div 256) :: char) = y" "(char_of ?n :: char) = z"
    using char_of_low[of "of_char x" y] char_of_low[of "of_char x * 256 + of_char y" z]
    by (simp_all add: mult.commute algebra_simps)
  then show ?case using 4 b64_quad_step[OF three_bytes_div[of x y z], of "b64_encode r"]
    by (simp add: Let_def del: b64_quads.simps)
qed simp

lemma b64_decode_encode: "b64_decode (b64_encode s) = Some s"
  by (simp add: b64_decode_def b64_filter b64_quads_encode)

interpretation b64: codec b64_encode b64_decode b64_char
  by unfold_locales (rule b64_decode_encode, rule b64_encode_chars)

end
