(* ===== verification/Utf8.thy ===== *)
theory Utf8
  imports Prelude
begin

text \<open>
  The range loop of Go over a string: it decodes UTF-8 and yields one rune per step, U+FFFD with width one for
  a byte that starts no valid encoding. \<open>runes\<close> is the list of the runes such a loop sees.
\<close>

definition byte :: "char \<Rightarrow> nat" where "byte c = of_char c"

definition cont_byte :: "char \<Rightarrow> bool" where
  "cont_byte c \<longleftrightarrow> 0x80 \<le> byte c \<and> byte c \<le> 0xBF"

definition in_range :: "nat \<Rightarrow> nat \<Rightarrow> char \<Rightarrow> bool" where
  "in_range lo hi c \<longleftrightarrow> lo \<le> byte c \<and> byte c \<le> hi"

definition RuneError :: nat where "RuneError = 0xFFFD"

text \<open>utf8.DecodeRuneInString on a non-empty string: the rune and its width.\<close>

fun decode2 :: "nat \<Rightarrow> string \<Rightarrow> nat \<times> nat" where
  "decode2 b0 (c1 # r) = (if cont_byte c1 then ((b0 - 0xC0) * 64 + (byte c1 - 0x80), 2) else (RuneError, 1))"
| "decode2 b0 _ = (RuneError, 1)"

fun decode3 :: "nat \<Rightarrow> string \<Rightarrow> nat \<times> nat" where
  "decode3 b0 (c1 # c2 # r) =
     (let lo = (if b0 = 0xE0 then 0xA0 else 0x80); hi = (if b0 = 0xED then 0x9F else 0xBF) in
      if in_range lo hi c1 \<and> cont_byte c2
      then ((b0 - 0xE0) * 4096 + (byte c1 - 0x80) * 64 + (byte c2 - 0x80), 3) else (RuneError, 1))"
| "decode3 b0 _ = (RuneError, 1)"

fun decode4 :: "nat \<Rightarrow> string \<Rightarrow> nat \<times> nat" where
  "decode4 b0 (c1 # c2 # c3 # r) =
     (let lo = (if b0 = 0xF0 then 0x90 else 0x80); hi = (if b0 = 0xF4 then 0x8F else 0xBF) in
      if in_range lo hi c1 \<and> cont_byte c2 \<and> cont_byte c3
      then ((b0 - 0xF0) * 262144 + (byte c1 - 0x80) * 4096 + (byte c2 - 0x80) * 64 + (byte c3 - 0x80), 4)
      else (RuneError, 1))"
| "decode4 b0 _ = (RuneError, 1)"

fun decode_rune :: "string \<Rightarrow> nat \<times> nat" where
  "decode_rune [] = (RuneError, 1)"
| "decode_rune (c # r) =
     (let b = byte c in
      if b < 0x80 then (b, 1)
      else if 0xC2 \<le> b \<and> b \<le> 0xDF then decode2 b r
      else if 0xE0 \<le> b \<and> b \<le> 0xEF then decode3 b r
      else if 0xF0 \<le> b \<and> b \<le> 0xF4 then decode4 b r
      else (RuneError, 1))"

lemma decode_width_pos: "0 < snd (decode_rune s)"
proof -
  have "0 < snd (decode2 b r)" "0 < snd (decode3 b r)" "0 < snd (decode4 b r)" for b r
    by (cases "(b, r)" rule: decode2.cases, auto) (cases "(b, r)" rule: decode3.cases, auto simp: Let_def,
        cases "(b, r)" rule: decode4.cases, auto simp: Let_def)
  then show ?thesis by (cases s) (auto simp: Let_def)
qed

function runes :: "string \<Rightarrow> nat list" where
  "runes s = (if s = [] then [] else fst (decode_rune s) # runes (drop (snd (decode_rune s)) s))"
  by pat_completeness auto
termination
  using decode_width_pos by (relation "measure length") (auto simp: diff_less)

declare runes.simps [simp del]

lemma runes_Nil [simp]: "runes [] = []"
  by (simp add: runes.simps)

lemma runes_ascii_Cons [simp]: "byte c < 0x80 \<Longrightarrow> runes (c # s) = byte c # runes s"
  by (subst runes.simps) (simp add: Let_def)

lemma runes_ascii: "\<forall>c \<in> set s. byte c < 0x80 \<Longrightarrow> runes s = List.map byte s"
  by (induction s) auto

lemma decode_non_ascii: "0x80 \<le> byte c \<Longrightarrow> 0x80 \<le> fst (decode_rune (c # s))"
proof -
  assume b: "0x80 \<le> byte c"
  have 2: "0x80 \<le> fst (decode2 b r)" if "0xC2 \<le> b" for b r
    using that by (cases "(b, r)" rule: decode2.cases) (auto simp: RuneError_def)
  have 3: "0x80 \<le> fst (decode3 b r)" if "0xE0 \<le> b" for b r
  proof (cases "(b, r)" rule: decode3.cases)
    case (1 b0 c1 c2 r)
    show ?thesis
    proof (cases "b0 = 0xE0")
      case True
      then show ?thesis using 1 by (auto simp: RuneError_def Let_def in_range_def)
    next
      case False
      then have "0xE1 \<le> b0" using that 1 by auto
      then have "4096 \<le> (b0 - 0xE0) * 4096" by simp
      then show ?thesis using 1 by (auto simp: RuneError_def Let_def)
    qed
  qed (auto simp: RuneError_def)
  have 4: "0x80 \<le> fst (decode4 b r)" if "0xF0 \<le> b" for b r
  proof (cases "(b, r)" rule: decode4.cases)
    case (1 b0 c1 c2 c3 r)
    show ?thesis
    proof (cases "b0 = 0xF0")
      case True
      then show ?thesis using 1 by (auto simp: RuneError_def Let_def in_range_def)
    next
      case False
      then have "0xF1 \<le> b0" using that 1 by auto
      then have "262144 \<le> (b0 - 0xF0) * 262144" by simp
      then show ?thesis using 1 by (auto simp: RuneError_def Let_def)
    qed
  qed (auto simp: RuneError_def)
  show ?thesis using b 2 3 4 by (auto simp: Let_def RuneError_def)
qed

text \<open>A loop that accepts ASCII runes only accepts exactly the strings whose bytes it accepts.\<close>

lemma runes_all_ascii:
  assumes "\<And>r. P r \<Longrightarrow> r < 0x80"
  shows "list_all P (runes s) \<longleftrightarrow> list_all (\<lambda>c. P (byte c)) s"
proof (induction s)
  case (Cons c s)
  show ?case
  proof (cases "byte c < 0x80")
    case False
    then have "\<not> P (fst (decode_rune (c # s)))" "\<not> P (byte c)"
      using assms[of "fst (decode_rune (c # s))"] assms[of "byte c"] decode_non_ascii[of c s] by force+
    then show ?thesis by (subst runes.simps) (simp del: decode_rune.simps)
  qed (simp add: Cons)
qed simp

end
