(* ===== verification/Middleware.thy ===== *)
theory Middleware
  imports Codec Utf8 Complex_Main
begin

text \<open>
  internal/middleware: the token-bucket rate limiter (ratelimit.go), the webhook signature check
  (webhook_signature.go), request identifiers (request_id.go), HSTS (hsts.go) and the security headers
  (security_headers.go).

  The limiter's float64 tokens are rational numbers here, so its arithmetic is exact; times are in
  nanoseconds and the two readings of the clock in one request, one when the bucket is made and one when it is refilled,
  are two arguments. HMAC-SHA256 is an argument of the signature check.
\<close>

section \<open>Rate limiting\<close>

record bucket =
  tokens :: rat
  lastRefill :: gotime

record rate_limiter =
  rps :: rat
  capacity :: rat
  buckets :: "string \<Rightarrow> bucket option"

definition NewRateLimit :: "rat \<Rightarrow> int \<Rightarrow> rate_limiter option" where
  "NewRateLimit r burst =
     (if r \<le> 0 then None
      else let b = (if burst < 1 then 1 else burst)
           in Some \<lparr>rps = r, capacity = of_int b, buckets = (\<lambda>_. None)\<rparr>)"

definition bucketFor :: "gotime \<Rightarrow> string \<Rightarrow> rate_limiter \<Rightarrow> bucket \<times> rate_limiter" where
  "bucketFor now key rl = (case buckets rl key of
      Some b \<Rightarrow> (b, rl)
    | None \<Rightarrow> (let b = \<lparr>tokens = capacity rl, lastRefill = now\<rparr>
               in (b, rl\<lparr>buckets := (buckets rl)(key \<mapsto> b)\<rparr>)))"

definition elapsed_seconds :: "gotime \<Rightarrow> gotime \<Rightarrow> rat" where
  "elapsed_seconds now since = of_int (now - since) / 1000000000"

definition refill :: "rate_limiter \<Rightarrow> gotime \<Rightarrow> bucket \<Rightarrow> bucket" where
  "refill rl now b =
     (let elapsed = elapsed_seconds now (lastRefill b) in
      if elapsed > 0
      then let t = tokens b + elapsed * rps rl
           in \<lparr>tokens = (if t > capacity rl then capacity rl else t), lastRefill = now\<rparr>
      else b)"

text \<open>allow: the clock reads t0 when it makes the bucket and t1 when it refills it.\<close>

definition rl_allow :: "gotime \<Rightarrow> gotime \<Rightarrow> string \<Rightarrow> rate_limiter \<Rightarrow> (bool \<times> int) \<times> rate_limiter" where
  "rl_allow t0 t1 key rl0 =
     (let (b0, rl) = bucketFor t0 key rl0;
          b = refill rl t1 b0
      in if tokens b \<ge> 1
         then ((True, 0), rl\<lparr>buckets := (buckets rl)(key \<mapsto> b\<lparr>tokens := tokens b - 1\<rparr>)\<rparr>)
         else ((False, \<lfloor>1000000000 * (1 - tokens b) / rps rl\<rfloor>), rl\<lparr>buckets := (buckets rl)(key \<mapsto> b)\<rparr>))"

definition retry_after_seconds :: "int \<Rightarrow> int" where
  "retry_after_seconds retry = (let seconds = \<lceil>(of_int retry :: rat) / 1000000000\<rceil> in if seconds < 1 then 1 else seconds)"

datatype rate_result = RatePass | RateReject int

text \<open>The middleware: an absent limiter and a request without a key pass, a refusal is 429 with Retry-After.\<close>

definition rate_limit :: "gotime \<Rightarrow> gotime \<Rightarrow> string \<Rightarrow> rate_limiter option \<Rightarrow> rate_result \<times> rate_limiter option" where
  "rate_limit t0 t1 key m = (case m of
      None \<Rightarrow> (RatePass, None)
    | Some rl \<Rightarrow>
        if key = [] then (RatePass, Some rl)
        else (case rl_allow t0 t1 key rl of
                ((True, _), rl') \<Rightarrow> (RatePass, Some rl')
              | ((False, retry), rl') \<Rightarrow> (RateReject (retry_after_seconds retry), Some rl')))"

subsection \<open>The bucket of one key\<close>

definition the_bucket :: "gotime \<Rightarrow> string \<Rightarrow> rate_limiter \<Rightarrow> bucket" where
  "the_bucket now key rl = fst (bucketFor now key rl)"

definition take_token :: "bucket \<Rightarrow> bucket" where
  "take_token b = (if tokens b \<ge> 1 then b\<lparr>tokens := tokens b - 1\<rparr> else b)"

lemma rl_allow_bucket:
  "fst (fst (rl_allow t0 t1 key rl)) \<longleftrightarrow> tokens (refill rl t1 (the_bucket t0 key rl)) \<ge> 1"
  "buckets (snd (rl_allow t0 t1 key rl)) =
     (buckets rl)(key \<mapsto> take_token (refill rl t1 (the_bucket t0 key rl)))"
  "rps (snd (rl_allow t0 t1 key rl)) = rps rl"
  "capacity (snd (rl_allow t0 t1 key rl)) = capacity rl"
  by (cases "buckets rl key";
      simp add: rl_allow_def bucketFor_def the_bucket_def take_token_def refill_def Let_def)+

definition bucket_ok :: "rate_limiter \<Rightarrow> bucket \<Rightarrow> bool" where
  "bucket_ok rl b \<longleftrightarrow> 0 \<le> tokens b \<and> tokens b \<le> capacity rl"

definition rl_inv :: "rate_limiter \<Rightarrow> bool" where
  "rl_inv rl \<longleftrightarrow> 0 < rps rl \<and> 1 \<le> capacity rl \<and> (\<forall>k b. buckets rl k = Some b \<longrightarrow> bucket_ok rl b)"

datatype rl_op = RlRequest gotime gotime string

fun rl_step :: "rl_op \<Rightarrow> rate_limiter \<Rightarrow> rate_limiter" where
  "rl_step (RlRequest t0 t1 k) rl = snd (rl_allow t0 t1 k rl)"

lemma refill_ok:
  assumes "rl_inv rl" "bucket_ok rl b"
  shows "bucket_ok rl (refill rl t b)"
proof -
  have "0 \<le> elapsed_seconds t (lastRefill b) * rps rl" if "elapsed_seconds t (lastRefill b) > 0"
    using that assms(1) by (simp add: rl_inv_def)
  then show ?thesis using assms by (auto simp: bucket_ok_def refill_def rl_inv_def Let_def)
qed

lemma the_bucket_ok: "rl_inv rl \<Longrightarrow> bucket_ok rl (the_bucket t k rl)"
  by (auto simp: rl_inv_def bucket_ok_def the_bucket_def bucketFor_def Let_def split: option.splits)

lemma rl_step_inv: "rl_inv rl \<Longrightarrow> rl_inv (rl_step a rl)"
proof (cases a)
  case (RlRequest t0 t1 k)
  assume inv: "rl_inv rl"
  have "bucket_ok rl (take_token (refill rl t1 (the_bucket t0 k rl)))"
    using refill_ok[OF inv the_bucket_ok[OF inv], of t1 t0 k] by (auto simp: take_token_def bucket_ok_def)
  then show ?thesis
    using inv by (auto simp: RlRequest rl_inv_def rl_allow_bucket bucket_ok_def)
qed

interpretation rate_machine: invariant_machine rl_step "\<lambda>_ _. True" rl_inv
  by unfold_locales (rule rl_step_inv)

lemma NewRateLimit_inv: "NewRateLimit r burst = Some rl \<Longrightarrow> rl_inv rl"
  by (auto simp: NewRateLimit_def rl_inv_def Let_def split: if_splits)

subsection \<open>The rate\<close>

text \<open>The requests of a key that a run lets through.\<close>

fun grants :: "string \<Rightarrow> rl_op list \<Rightarrow> rate_limiter \<Rightarrow> nat" where
  "grants k [] rl = 0"
| "grants k (RlRequest t0 t1 k' # as) rl =
     (if k' = k \<and> fst (fst (rl_allow t0 t1 k rl)) then 1 else 0) + grants k as (snd (rl_allow t0 t1 k' rl))"

fun op_within :: "gotime \<Rightarrow> gotime \<Rightarrow> rl_op \<Rightarrow> bool" where
  "op_within a b (RlRequest t0 t1 k) \<longleftrightarrow> a \<le> t0 \<and> t0 \<le> b \<and> a \<le> t1 \<and> t1 \<le> b"

definition span_tokens :: "rate_limiter \<Rightarrow> gotime \<Rightarrow> gotime \<Rightarrow> rat" where
  "span_tokens rl a b = rps rl * elapsed_seconds b a"

lemma span_add: "span_tokens rl a b + span_tokens rl b c = span_tokens rl a c"
  by (simp add: span_tokens_def elapsed_seconds_def diff_divide_distrib[symmetric] flip: distrib_left add_divide_distrib of_int_add)

lemma span_nonneg: "rl_inv rl \<Longrightarrow> a \<le> b \<Longrightarrow> 0 \<le> span_tokens rl a b"
  by (simp add: span_tokens_def elapsed_seconds_def rl_inv_def)

text \<open>The tokens of a bucket and those the rest of a window that ends at e can still bring.\<close>

definition potential :: "rate_limiter \<Rightarrow> gotime \<Rightarrow> bucket \<Rightarrow> rat" where
  "potential rl e b = tokens b + max 0 (span_tokens rl (lastRefill b) e)"

lemma refill_potential:
  assumes "rl_inv rl" "t \<le> e"
  shows "potential rl e (refill rl t b) \<le> potential rl e b"
proof (cases "elapsed_seconds t (lastRefill b) > 0")
  case True
  then have lt: "lastRefill b < t" by (simp add: elapsed_seconds_def)
  have "tokens (refill rl t b) \<le> tokens b + span_tokens rl (lastRefill b) t" "lastRefill (refill rl t b) = t"
    using True by (auto simp: refill_def span_tokens_def Let_def mult.commute)
  moreover have "0 \<le> span_tokens rl t e" "0 \<le> span_tokens rl (lastRefill b) e"
    using span_nonneg[OF assms(1)] assms(2) lt by simp_all
  ultimately show ?thesis using span_add[of rl "lastRefill b" t e] by (simp add: potential_def)
qed (simp add: refill_def)

lemma take_potential:
  "bucket_ok rl b \<Longrightarrow> (if tokens b \<ge> 1 then 1 else 0) + potential rl e (take_token b) \<le> potential rl e b"
  by (simp add: take_token_def potential_def)

lemma potential_nonneg: "bucket_ok rl b \<Longrightarrow> 0 \<le> potential rl e b"
  by (simp add: potential_def bucket_ok_def)

lemma potential_allow [simp]: "potential (snd (rl_allow t0 t1 k rl)) e b = potential rl e b"
  by (simp add: potential_def span_tokens_def rl_allow_bucket)

lemma grants_potential:
  assumes "rl_inv rl" "buckets rl k = Some b" "\<forall>a \<in> set as. op_within s e a"
  shows "of_nat (grants k as rl) \<le> potential rl e b"
  using assms
proof (induction as arbitrary: rl b)
  case Nil
  then show ?case using potential_nonneg[of rl b e] by (auto simp: rl_inv_def)
next
  case (Cons op as)
  obtain t0 t1 k' where op: "op = RlRequest t0 t1 k'" by (cases op)
  let ?rl' = "snd (rl_allow t0 t1 k' rl)"
  have inv': "rl_inv ?rl'" using rl_step_inv[OF Cons.prems(1), of op] by (simp add: op)
  show ?case
  proof (cases "k' = k")
    case False
    then have "buckets ?rl' k = Some b" using Cons.prems(2) by (simp add: rl_allow_bucket)
    from Cons.IH[OF inv' this] Cons.prems(3) False show ?thesis
      by (simp add: op rl_allow_bucket)
  next
    case True
    have tb: "the_bucket t0 k rl = b" using Cons.prems(2) by (simp add: the_bucket_def bucketFor_def)
    let ?r = "refill rl t1 b"
    have okb: "bucket_ok rl b" using Cons.prems(1,2) by (auto simp: rl_inv_def)
    have ok: "bucket_ok rl ?r" by (rule refill_ok[OF Cons.prems(1) okb])
    have "of_nat (grants k as ?rl') \<le> potential ?rl' e (take_token ?r)"
      using True Cons.prems(3) by (intro Cons.IH inv') (simp_all add: rl_allow_bucket tb)
    then have IH: "of_nat (grants k as ?rl') \<le> potential rl e (take_token ?r)" by simp
    have "potential rl e ?r \<le> potential rl e b"
      using Cons.prems(1,3) by (intro refill_potential) (simp_all add: op)
    with IH take_potential[OF ok, of e] show ?thesis
      using True by (simp add: op rl_allow_bucket tb split: if_splits)
  qed
qed

lemma fresh_potential:
  assumes "rl_inv rl" "s \<le> t0" "t0 \<le> e" "s \<le> t1" "t1 \<le> e"
  shows "potential rl e (refill rl t1 (the_bucket t0 k rl)) \<le> capacity rl + span_tokens rl s e"
proof -
  let ?b = "the_bucket t0 k rl"
  have ok: "bucket_ok rl ?b" by (rule the_bucket_ok[OF assms(1)])
  have se: "0 \<le> span_tokens rl s e" using assms by (intro span_nonneg) simp_all
  have late: "potential rl e c \<le> capacity rl + span_tokens rl s e"
    if "bucket_ok rl c" "s \<le> lastRefill c" for c
    using that span_add[of rl s "lastRefill c" e] span_nonneg[OF assms(1) that(2)] se
    by (auto simp: potential_def bucket_ok_def max_def)
  show ?thesis
  proof (cases "s \<le> lastRefill ?b")
    case True
    then show ?thesis using refill_potential[OF assms(1,5), of ?b] late[OF ok] by linarith
  next
    case False
    then have "lastRefill (refill rl t1 ?b) = t1" using assms(4) by (simp add: refill_def elapsed_seconds_def Let_def)
    then show ?thesis using late[OF refill_ok[OF assms(1) ok, of t1]] assms(4) by simp
  qed
qed

lemma grants_window:
  assumes "rl_inv rl" "s \<le> e" "\<forall>a \<in> set as. op_within s e a"
  shows "of_nat (grants k as rl) \<le> capacity rl + span_tokens rl s e"
  using assms
proof (induction as arbitrary: rl)
  case Nil
  then show ?case using span_nonneg[of rl s e] by (simp add: rl_inv_def)
next
  case (Cons op as)
  obtain t0 t1 k' where op: "op = RlRequest t0 t1 k'" by (cases op)
  let ?rl' = "snd (rl_allow t0 t1 k' rl)"
  have inv': "rl_inv ?rl'" using rl_step_inv[OF Cons.prems(1), of op] by (simp add: op)
  show ?case
  proof (cases "k' = k")
    case False
    with Cons.IH[OF inv' Cons.prems(2)] Cons.prems(3) show ?thesis
      by (simp add: op rl_allow_bucket span_tokens_def)
  next
    case True
    let ?r = "refill rl t1 (the_bucket t0 k rl)"
    have ok: "bucket_ok rl ?r" by (rule refill_ok[OF Cons.prems(1) the_bucket_ok[OF Cons.prems(1)]])
    have "of_nat (grants k as ?rl') \<le> potential ?rl' e (take_token ?r)"
      using True Cons.prems(3) by (intro grants_potential[where s = s] inv') (simp_all add: rl_allow_bucket)
    then have "of_nat (grants k as ?rl') \<le> potential rl e (take_token ?r)" by simp
    moreover have "potential rl e ?r \<le> capacity rl + span_tokens rl s e"
      using Cons.prems by (intro fresh_potential) (simp_all add: op)
    ultimately show ?thesis
      using True take_potential[OF ok, of e] by (simp add: op rl_allow_bucket split: if_splits)
  qed
qed

text \<open>The rate is bounded: from any reachable state of the limiter and for any interleaving of requests of any
  keys inside a window of time, the number of requests of one key it lets through is at most the burst capacity
  plus the refill rate times the length of the window in seconds.\<close>

theorem rate_limit_bound:
  assumes "NewRateLimit r burst = Some rl0" "s \<le> e" "\<forall>a \<in> set as. op_within s e a"
  shows "of_nat (grants k as (run_ops rl_step before rl0)) \<le> max 1 (of_int burst) + r * (of_int (e - s) / 1000000000)"
proof -
  let ?rl = "run_ops rl_step before rl0"
  have inv: "rl_inv ?rl" using NewRateLimit_inv[OF assms(1)] by (simp add: rate_machine.run_inv_all)
  have conf: "rps (run_ops rl_step os rl) = rps rl \<and> capacity (run_ops rl_step os rl) = capacity rl" for os rl
  proof (induction os arbitrary: rl)
    case (Cons op os) then show ?case by (cases op) (simp add: rl_allow_bucket)
  qed simp
  have "rps ?rl = r" "capacity ?rl = max 1 (of_int burst)"
    using conf[of before rl0] assms(1) by (auto simp: NewRateLimit_def Let_def max_def split: if_splits)
  then show ?thesis using grants_window[OF inv assms(2,3), of k] by (simp add: span_tokens_def elapsed_seconds_def)
qed

lemma rate_limit_bound_witness:
  "grants ''k'' [RlRequest 0 0 ''k'', RlRequest 1 1 ''k'', RlRequest 2 2 ''k'']
     \<lparr>rps = 1, capacity = 2, buckets = (\<lambda>_. None)\<rparr> \<le> 2"
proof -
  have "of_nat (grants ''k'' [RlRequest 0 0 ''k'', RlRequest 1 1 ''k'', RlRequest 2 2 ''k'']
      (run_ops rl_step [] \<lparr>rps = 1, capacity = 2, buckets = (\<lambda>_. None)\<rparr>)) \<le> max 1 (of_int 2) + 1 * (of_int (2 - 0) / 1000000000 :: rat)"
    by (rule rate_limit_bound[of 1 2]) (simp_all add: NewRateLimit_def)
  then have "(of_nat (grants ''k'' [RlRequest 0 0 ''k'', RlRequest 1 1 ''k'', RlRequest 2 2 ''k'']
      \<lparr>rps = 1, capacity = 2, buckets = (\<lambda>_. None)\<rparr>) :: rat) < of_nat 3" by simp
  then show ?thesis by (simp only: of_nat_less_iff)
qed

lemma retry_after_positive: "1 \<le> retry_after_seconds d"
  by (simp add: retry_after_seconds_def Let_def)

section \<open>Webhook signatures\<close>

definition webhookSignaturePrefix :: string where "webhookSignaturePrefix = ''sha256=''"
definition maxWebhookBodyBytes :: nat where "maxWebhookBodyBytes = 2 ^ 20"

datatype webhook_result =
    HookPass string \<comment> \<open>the body the wrapped handler reads\<close>
  | HookReject nat string \<comment> \<open>status, and the reason that only logs and metrics see\<close>

text \<open>The body is the whole of the request body; \<open>hmac\<close> is HMAC-SHA256 of a key and a message. Without a secret
  the middleware is the identity.\<close>

definition webhook_signature :: "(string \<Rightarrow> string \<Rightarrow> string) \<Rightarrow> string \<Rightarrow> string \<Rightarrow> string \<Rightarrow> webhook_result" where
  "webhook_signature hmac secret header0 body =
     (if secret = [] then HookPass body
      else
        let header = trim_space header0 in
        if \<not> has_prefix header webhookSignaturePrefix then HookReject 401 ''missing_or_malformed_header''
        else
          (case hex_decode (trim_prefix header webhookSignaturePrefix) of
             None \<Rightarrow> HookReject 401 ''malformed_signature''
           | Some got \<Rightarrow>
             if length got \<noteq> 32 then HookReject 401 ''malformed_signature''
             else if length body > maxWebhookBodyBytes then HookReject 413 ''request body too large''
             else if got \<noteq> hmac secret body then HookReject 401 ''hmac_mismatch''
             else HookPass body))"

text \<open>With a secret set, a webhook request is let through exactly when its header, trimmed, is sha256= and a
  hexadecimal text of the HMAC of the very body the handler will read, and that body is at most 1 MiB; the handler
  gets that body unchanged.\<close>

theorem webhook_pass_iff:
  assumes "secret \<noteq> []" "length (hmac secret body) = 32"
  shows "webhook_signature hmac secret header body = HookPass b \<longleftrightarrow>
     b = body \<and> length body \<le> 2 ^ 20 \<and>
     (\<exists>h. trim_space header = ''sha256='' @ h \<and> hex_decode h = Some (hmac secret body))"
  using assms
  by (auto simp: webhook_signature_def webhookSignaturePrefix_def maxWebhookBodyBytes_def Let_def
      has_prefix_iff trim_prefix_def split: option.splits if_splits)

definition demo_hmac :: "string \<Rightarrow> string \<Rightarrow> string" where
  "demo_hmac k b = take 32 (k @ b @ replicate 32 CHR ''0'')"

lemma webhook_pass_iff_witness:
  "webhook_signature demo_hmac ''s'' ''sha256=00'' ''body'' \<noteq> HookPass ''body''"
proof -
  have l: "length (demo_hmac ''s'' ''body'') = 32" by (simp add: demo_hmac_def)
  have t: "trim_space ''sha256=00'' = ''sha256=00''"
    by (intro trim_space_plain) (simp_all add: plain_char_def)
  have "hex_decode ''00'' \<noteq> Some (demo_hmac ''s'' ''body'')"
  proof
    assume "hex_decode ''00'' = Some (demo_hmac ''s'' ''body'')"
    moreover have "hex_decode ''00'' = Some r \<Longrightarrow> length r = 1" for r by (auto split: option.splits)
    ultimately have "length (demo_hmac ''s'' ''body'') = 1" by blast
    with l show False by simp
  qed
  then show ?thesis using webhook_pass_iff[of "''s''" demo_hmac "''body''" "''sha256=00''" "''body''"] l t by auto
qed

text \<open>A sender that signs the body it sends is let through.\<close>

lemma webhook_signed_passes:
  assumes "secret \<noteq> []" "length (hmac secret body) = 32" "length body \<le> 2 ^ 20"
  shows "webhook_signature hmac secret (''sha256='' @ hex_encode (hmac secret body)) body = HookPass body"
proof -
  have ne: "hex_encode (hmac secret body) \<noteq> []" using assms(2) hex_encode_length[of "hmac secret body"] by force
  have "hex_char c \<Longrightarrow> plain_char c" for c
    by (auto simp: hex_char_def is_digit_char_def plain_char_def less_eq_char_def)
  moreover have "hex_char (last (hex_encode (hmac secret body)))"
    using hex_encode_chars[of "hmac secret body"] ne by (auto simp: list_all_iff)
  ultimately have "trim_space (''sha256='' @ hex_encode (hmac secret body)) = ''sha256='' @ hex_encode (hmac secret body)"
    using ne by (intro trim_space_plain) (simp_all add: plain_char_def)
  then show ?thesis
    using assms by (simp add: webhook_pass_iff hex_decode_encode)
qed

section \<open>Request identifiers\<close>

definition valid_id_rune :: "nat \<Rightarrow> bool" where
  "valid_id_rune c \<longleftrightarrow> (0x61 \<le> c \<and> c \<le> 0x7A) \<or> (0x41 \<le> c \<and> c \<le> 0x5A) \<or> (0x30 \<le> c \<and> c \<le> 0x39)
     \<or> c = 0x2D \<or> c = 0x5F"

definition isValidRequestID :: "string \<Rightarrow> bool" where
  "isValidRequestID i \<longleftrightarrow> \<not> (length i = 0 \<or> length i > 128) \<and> list_all valid_id_rune (runes i)"

definition generateRequestID :: "string option \<Rightarrow> string" where
  "generateRequestID random = (case random of None \<Rightarrow> ''unknown'' | Some b \<Rightarrow> hex_encode b)"

definition request_id :: "string \<Rightarrow> string option \<Rightarrow> string" where
  "request_id header random = (if header = [] \<or> \<not> isValidRequestID header then generateRequestID random else header)"

lemma valid_id_bytes: "list_all valid_id_rune (runes i) \<longleftrightarrow> list_all (\<lambda>c. valid_id_rune (byte c)) i"
  by (rule runes_all_ascii) (auto simp: valid_id_rune_def)

text \<open>The request identifier that goes into the context, the log lines and the response header is never empty,
  is at most 128 bytes long and is built from ASCII letters, digits, hyphens and underscores only, so a caller cannot
  inject anything into the log through it, whatever header it sends.\<close>

theorem request_id_safe:
  assumes "\<And>b. random = Some b \<Longrightarrow> length b = 8"
  shows "0 < length (request_id header random) \<and> length (request_id header random) \<le> 128
    \<and> list_all (\<lambda>c. valid_id_rune (byte c)) (request_id header random)"
proof (cases "header = [] \<or> \<not> isValidRequestID header")
  case False
  then show ?thesis by (simp add: request_id_def isValidRequestID_def valid_id_bytes)
next
  case True
  then have eq: "request_id header random = generateRequestID random" by (simp add: request_id_def)
  show ?thesis
  proof (cases random)
    case None
    show ?thesis unfolding eq by (simp add: generateRequestID_def None valid_id_rune_def byte_def)
  next
    case (Some b)
    have "hex_char c \<Longrightarrow> valid_id_rune (byte c)" for c
      by (auto simp: hex_char_def is_digit_char_def valid_id_rune_def byte_def less_eq_char_def)
    then have "list_all (\<lambda>c. valid_id_rune (byte c)) (hex_encode b)"
      using hex_encode_chars[of b] by (auto simp: list_all_iff)
    moreover have "length (hex_encode b) = 16" using assms[OF Some] by simp
    moreover have "request_id header random = hex_encode b" unfolding eq by (simp add: generateRequestID_def Some)
    ultimately show ?thesis by (simp del: length_greater_0_conv hex_encode_length)
  qed
qed

lemma request_id_safe_witness:
  "list_all (\<lambda>c. valid_id_rune (byte c)) (request_id [CHR 0x0A] (Some ''abcdefgh''))"
  using request_id_safe[of "Some ''abcdefgh''" "[CHR 0x0A]"] by simp

section \<open>Response headers\<close>

definition hsts_header :: "int \<Rightarrow> (string \<times> string) option" where
  "hsts_header maxAgeSeconds =
     (if maxAgeSeconds \<le> 0 then None else Some (''Strict-Transport-Security'', ''max-age='' @ dec_int maxAgeSeconds))"

definition security_headers :: "string \<Rightarrow> (string \<times> string) list" where
  "security_headers csp =
     [(''X-Content-Type-Options'', ''nosniff''), (''X-Frame-Options'', ''DENY''), (''Referrer-Policy'', ''no-referrer'')]
     @ (if csp \<noteq> [] then [(''Content-Security-Policy'', csp)] else [])"

end
