(* ===== verification/Interpolate.thy ===== *)
theory Interpolate
  imports Prelude
begin

text \<open>
  internal/compose/interpolate.go: substitution of $VAR and ${VAR...} in a compose file. The two regular
  expressions are read as the recognisers they denote: \<open>next_token\<close> finds the leftmost match of tokenPattern at a
  position, \<open>split_braced\<close> the submatches of bracedPattern. The variables are a partial map.

  The specification is a template, a list of pieces as the documentation of the package lists them, with its
  meaning; the main lemma is that Expand of a written template is that meaning.
\<close>

definition name_start :: "char \<Rightarrow> bool" where
  "name_start c \<longleftrightarrow> is_ascii_letter c \<or> c = CHR ''_''"

definition name_char :: "char \<Rightarrow> bool" where
  "name_char c \<longleftrightarrow> name_start c \<or> is_digit_char c"

datatype token = TDollar | TBraced string | TBare string | TChar char

definition next_token :: "char \<Rightarrow> string \<Rightarrow> token \<times> string" where
  "next_token c s =
     (if c \<noteq> CHR ''$'' then (TChar c, s)
      else case s of
        [] \<Rightarrow> (TChar c, s)
      | d # r \<Rightarrow>
        (if d = CHR ''$'' then (TDollar, r)
         else if d = CHR ''{'' then
           (case index_byte r CHR ''}'' of
              Some i \<Rightarrow> (TBraced (take i r), drop (Suc i) r)
            | None \<Rightarrow> (TChar c, s))
         else if name_start d then (TBare (takeWhile name_char s), dropWhile name_char s)
         else (TChar c, s)))"

lemma next_token_shorter: "length (snd (next_token c s)) \<le> length s"
  by (auto simp: next_token_def length_dropWhile_le le_SucI split: list.splits option.splits)

text \<open>The submatches of bracedPattern: name, colon, operator, argument; None when it does not match.\<close>

definition split_braced :: "string \<Rightarrow> (string \<times> bool \<times> char option \<times> string) option" where
  "split_braced inner =
     (if inner = [] \<or> \<not> name_start (hd inner) then None
      else
        let name = takeWhile name_char inner; rest = dropWhile name_char inner;
            colon = (rest \<noteq> [] \<and> hd rest = CHR '':''); rest' = (if colon then tl rest else rest)
        in if rest = [] then Some (name, False, None, [])
           else if rest' \<noteq> [] \<and> hd rest' \<in> {CHR ''-'', CHR ''?'', CHR ''+''}
           then Some (name, colon, Some (hd rest'), tl rest')
           else None)"

definition expandBraced :: "string \<Rightarrow> (string \<rightharpoonup> string) \<Rightarrow> string res" where
  "expandBraced inner vars =
     (case split_braced inner of
        None \<Rightarrow> Inl (ErrText (''invalid interpolation ${'' @ inner @ ''}: not a valid variable reference''))
      | Some (name, colon, op, arg) \<Rightarrow>
        (let isSet = (vars name \<noteq> None); val = (case vars name of Some v \<Rightarrow> v | None \<Rightarrow> []);
             unsetOrEmpty = (\<not> isSet \<or> (colon \<and> val = [])); unsetOnly = (\<not> isSet)
         in case op of
              None \<Rightarrow> Inr val
            | Some c \<Rightarrow>
              if c = CHR ''-'' then
                (if (colon \<and> unsetOrEmpty) \<or> (\<not> colon \<and> unsetOnly) then Inr arg else Inr val)
              else if c = CHR ''?'' then
                (if (colon \<and> unsetOrEmpty) \<or> (\<not> colon \<and> unsetOnly)
                 then (let msg0 = trim_space arg; msg = (if msg0 = [] then ''variable is required'' else msg0)
                       in Inl (ErrText (name @ '': '' @ msg)))
                 else Inr val)
              else if c = CHR ''+'' then
                (if (colon \<and> isSet \<and> val \<noteq> []) \<or> (\<not> colon \<and> isSet) then Inr arg else Inr [])
              else Inl (ErrText (''invalid interpolation ${'' @ inner @ ''}: unknown modifier '' @ quoted [c]))))"

definition replace_token :: "token \<Rightarrow> (string \<rightharpoonup> string) \<Rightarrow> string res" where
  "replace_token t vars = (case t of
      TDollar \<Rightarrow> Inr ''$''
    | TBraced inner \<Rightarrow> expandBraced inner vars
    | TBare name \<Rightarrow> Inr (case vars name of Some v \<Rightarrow> v | None \<Rightarrow> [])
    | TChar c \<Rightarrow> Inr [c])"

text \<open>ReplaceAllStringFunc with its closure: the text built so far and the first error seen.\<close>

function expand_loop :: "string \<Rightarrow> (string \<rightharpoonup> string) \<Rightarrow> string \<Rightarrow> gerr option \<Rightarrow> string \<times> gerr option" where
  "expand_loop [] vars out firstErr = (out, firstErr)"
| "expand_loop (c # s) vars out firstErr =
     (let (t, rest) = next_token c s in
      case replace_token t vars of
        Inr v \<Rightarrow> expand_loop rest vars (out @ v) firstErr
      | Inl e \<Rightarrow> expand_loop rest vars out (if firstErr = None then Some e else firstErr))"
  by pat_completeness auto
termination
proof (relation "measure (\<lambda>(s, _, _, _). length s)")
  fix c s vars out firstErr x t rest e
  assume "x = next_token c s" "(t, rest) = x" "replace_token t vars = Inl e"
  then show "((rest, vars, out, if firstErr = None then Some e else firstErr), c # s, vars, out, firstErr)
      \<in> measure (\<lambda>(s, _, _, _). length s)"
    using next_token_shorter[of c s] by (auto simp: less_Suc_eq_le dest: sym)
next
  fix c s vars out firstErr x t rest v
  assume "x = next_token c s" "(t, rest) = x" "replace_token t vars = Inr v"
  then show "((rest, vars, out @ v, firstErr), c # s, vars, out, firstErr) \<in> measure (\<lambda>(s, _, _, _). length s)"
    using next_token_shorter[of c s] by (auto simp: less_Suc_eq_le dest: sym)
qed simp

definition Expand :: "string \<Rightarrow> (string \<rightharpoonup> string) \<Rightarrow> string res" where
  "Expand s vars = (case expand_loop s vars [] None of (out, Some e) \<Rightarrow> Inl e | (out, None) \<Rightarrow> Inr out)"

section \<open>Templates\<close>

datatype modifier = OrDefault string | OrError string | IfSet string

datatype piece =
    PText string
  | PDollar
  | PBare string
  | PBraced string "(bool \<times> modifier) option"

definition valid_name :: "string \<Rightarrow> bool" where
  "valid_name n \<longleftrightarrow> n \<noteq> [] \<and> name_start (hd n) \<and> list_all name_char n"

fun render_modifier :: "(bool \<times> modifier) option \<Rightarrow> string" where
  "render_modifier None = []"
| "render_modifier (Some (colon, OrDefault a)) = (if colon then '':'' else []) @ CHR ''-'' # a"
| "render_modifier (Some (colon, OrError a)) = (if colon then '':'' else []) @ CHR ''?'' # a"
| "render_modifier (Some (colon, IfSet a)) = (if colon then '':'' else []) @ CHR ''+'' # a"

fun render_piece :: "piece \<Rightarrow> string" where
  "render_piece (PText s) = s"
| "render_piece PDollar = ''$$''"
| "render_piece (PBare n) = CHR ''$'' # n"
| "render_piece (PBraced n m) = ''${'' @ n @ render_modifier m @ ''}''"

definition render_template :: "piece list \<Rightarrow> string" where
  "render_template ps = concat (List.map render_piece ps)"

fun modifier_arg :: "(bool \<times> modifier) option \<Rightarrow> string" where
  "modifier_arg None = []"
| "modifier_arg (Some (c, OrDefault a)) = a"
| "modifier_arg (Some (c, OrError a)) = a"
| "modifier_arg (Some (c, IfSet a)) = a"

fun wf_piece :: "piece \<Rightarrow> bool" where
  "wf_piece (PText s) \<longleftrightarrow> CHR ''$'' \<notin> set s"
| "wf_piece PDollar \<longleftrightarrow> True"
| "wf_piece (PBare n) \<longleftrightarrow> valid_name n"
| "wf_piece (PBraced n m) \<longleftrightarrow> valid_name n \<and> CHR ''}'' \<notin> set (modifier_arg m) \<and> CHR ''$'' \<notin> set (modifier_arg m)"

text \<open>A bare reference ends where no name character follows.\<close>

fun wf_template :: "piece list \<Rightarrow> bool" where
  "wf_template [] \<longleftrightarrow> True"
| "wf_template (p # ps) \<longleftrightarrow> wf_piece p \<and> wf_template ps \<and>
     (case p of PBare n \<Rightarrow> render_template ps = [] \<or> \<not> name_char (hd (render_template ps)) | _ \<Rightarrow> True)"

definition missing :: "(string \<rightharpoonup> string) \<Rightarrow> bool \<Rightarrow> string \<Rightarrow> bool" where
  "missing vars colon n \<longleftrightarrow> vars n = None \<or> (colon \<and> vars n = Some [])"

definition value_or_empty :: "(string \<rightharpoonup> string) \<Rightarrow> string \<Rightarrow> string" where
  "value_or_empty vars n = (case vars n of Some v \<Rightarrow> v | None \<Rightarrow> [])"

fun eval_piece :: "(string \<rightharpoonup> string) \<Rightarrow> piece \<Rightarrow> string res" where
  "eval_piece vars (PText s) = Inr s"
| "eval_piece vars PDollar = Inr ''$''"
| "eval_piece vars (PBare n) = Inr (value_or_empty vars n)"
| "eval_piece vars (PBraced n None) = Inr (value_or_empty vars n)"
| "eval_piece vars (PBraced n (Some (c, OrDefault d))) = Inr (if missing vars c n then d else value_or_empty vars n)"
| "eval_piece vars (PBraced n (Some (c, IfSet a))) = Inr (if missing vars c n then [] else a)"
| "eval_piece vars (PBraced n (Some (c, OrError msg))) =
     (if missing vars c n
      then Inl (ErrText (n @ '': '' @ (if trim_space msg = [] then ''variable is required'' else trim_space msg)))
      else Inr (value_or_empty vars n))"

fun eval_template :: "(string \<rightharpoonup> string) \<Rightarrow> piece list \<Rightarrow> string res" where
  "eval_template vars [] = Inr []"
| "eval_template vars (p # ps) =
     (case eval_piece vars p of
        Inl e \<Rightarrow> Inl e
      | Inr v \<Rightarrow> (case eval_template vars ps of Inl e \<Rightarrow> Inl e | Inr w \<Rightarrow> Inr (v @ w)))"

lemma error_sticks: "snd (expand_loop s vars out (Some e)) = Some e"
proof (induction s arbitrary: out rule: length_induct)
  case (1 s)
  show ?case
  proof (cases s)
    case (Cons c r)
    obtain t rest where t: "next_token c r = (t, rest)" by fastforce
    then have "length rest < length s" using next_token_shorter[of c r] Cons by (simp add: le_imp_less_Suc)
    then show ?thesis using 1 Cons t by (cases "replace_token t vars") simp_all
  qed simp
qed

lemma next_token_other: "CHR ''$'' \<noteq> c \<Longrightarrow> next_token c s = (TChar c, s)"
  by (auto simp: next_token_def)

lemma name_char_not:
  "\<not> name_char CHR '':''" "\<not> name_char CHR ''-''" "\<not> name_char CHR ''?''" "\<not> name_char CHR ''+''"
  "\<not> name_char CHR ''}''" "\<not> name_start CHR ''$''" "\<not> name_start CHR ''{''"
  by (simp_all add: name_char_def name_start_def is_ascii_letter_def is_digit_char_def less_eq_char_def)

lemma takeWhile_name: "list_all name_char n \<Longrightarrow> r = [] \<or> \<not> name_char (hd r) \<Longrightarrow> takeWhile name_char (n @ r) = n"
  by (induction n) (cases r; simp)+

lemma dropWhile_name: "list_all name_char n \<Longrightarrow> r = [] \<or> \<not> name_char (hd r) \<Longrightarrow> dropWhile name_char (n @ r) = r"
  by (induction n) (cases r; simp)+

lemma next_token_bare:
  assumes "valid_name n" "r = [] \<or> \<not> name_char (hd r)"
  shows "next_token CHR ''$'' (n @ r) = (TBare n, r)"
proof -
  obtain d n' where n: "n = d # n'" "name_start d" using assms(1) by (cases n) (auto simp: valid_name_def)
  then have "d \<noteq> CHR ''$''" "d \<noteq> CHR ''{''" using name_char_not by auto
  moreover have "takeWhile name_char (d # n' @ r) = d # n'" "dropWhile name_char (d # n' @ r) = r"
    using takeWhile_name[of "d # n'" r] dropWhile_name[of "d # n'" r] assms by (auto simp: valid_name_def n)
  ultimately show ?thesis using n by (simp add: next_token_def)
qed

lemma render_modifier_plain:
  "CHR ''}'' \<notin> set (modifier_arg m) \<Longrightarrow> CHR ''}'' \<notin> set (render_modifier m)"
  by (cases m rule: render_modifier.cases) auto

lemma valid_name_brace: "valid_name n \<Longrightarrow> CHR ''}'' \<notin> set n"
  using name_char_not by (auto simp: valid_name_def list_all_iff)

lemma next_token_braced:
  assumes "valid_name n" "CHR ''}'' \<notin> set (modifier_arg m)"
  shows "next_token CHR ''$'' (CHR ''{'' # n @ render_modifier m @ CHR ''}'' # r) = (TBraced (n @ render_modifier m), r)"
proof -
  have "index_byte ((n @ render_modifier m) @ CHR ''}'' # r) CHR ''}'' = Some (length (n @ render_modifier m))"
    using assms render_modifier_plain valid_name_brace by (intro index_byte_append) auto
  then show ?thesis by (simp add: next_token_def)
qed

lemma split_braced_render:
  assumes "valid_name n"
  shows "split_braced (n @ render_modifier m) = Some (n, (case m of Some (c, _) \<Rightarrow> c | None \<Rightarrow> False),
     (case m of None \<Rightarrow> None | Some (_, OrDefault _) \<Rightarrow> Some CHR ''-'' | Some (_, OrError _) \<Rightarrow> Some CHR ''?''
       | Some (_, IfSet _) \<Rightarrow> Some CHR ''+''), modifier_arg m)"
proof -
  have h: "render_modifier m = [] \<or> \<not> name_char (hd (render_modifier m))"
    by (cases m rule: render_modifier.cases) (auto simp: name_char_not)
  have n: "n \<noteq> []" "name_start (hd n)" "list_all name_char n" using assms by (simp_all add: valid_name_def)
  have gen: "split_braced (n @ r) =
      (let colon = (r \<noteq> [] \<and> hd r = CHR '':''); r' = (if colon then tl r else r)
       in if r = [] then Some (n, False, None, [])
          else if r' \<noteq> [] \<and> hd r' \<in> {CHR ''-'', CHR ''?'', CHR ''+''} then Some (n, colon, Some (hd r'), tl r')
          else None)" if "r = [] \<or> \<not> name_char (hd r)" for r
    using n takeWhile_name[OF n(3) that] dropWhile_name[OF n(3) that] by (simp add: split_braced_def)
  show ?thesis
    unfolding gen[OF h] by (cases m rule: render_modifier.cases) (auto simp: Let_def)
qed

lemma expandBraced_render:
  assumes "valid_name n"
  shows "expandBraced (n @ render_modifier m) vars = eval_piece vars (PBraced n m)"
  unfolding expandBraced_def split_braced_render[OF assms]
  by (cases m rule: render_modifier.cases; cases "vars n") (auto simp: missing_def value_or_empty_def Let_def)

lemma expand_text:
  "CHR ''$'' \<notin> set s \<Longrightarrow> expand_loop (s @ r) vars out fe = expand_loop r vars (out @ s) fe"
  by (induction s arbitrary: out) (auto simp: next_token_other replace_token_def)

lemma expand_piece:
  assumes "wf_piece p" "case p of PBare n \<Rightarrow> r = [] \<or> \<not> name_char (hd r) | _ \<Rightarrow> True"
  shows "expand_loop (render_piece p @ r) vars out fe =
    (case eval_piece vars p of
       Inr v \<Rightarrow> expand_loop r vars (out @ v) fe
     | Inl e \<Rightarrow> expand_loop r vars out (if fe = None then Some e else fe))"
proof (cases p)
  case (PText s)
  then show ?thesis using assms expand_text by simp
next
  case PDollar
  then show ?thesis by (simp add: next_token_def replace_token_def)
next
  case (PBare n)
  then show ?thesis using assms by (simp add: next_token_bare replace_token_def value_or_empty_def)
next
  case (PBraced n m)
  then show ?thesis using assms
    by (simp add: next_token_braced replace_token_def expandBraced_render del: eval_piece.simps)
qed

lemma expand_template:
  assumes "wf_template ps"
  shows "case eval_template vars ps of
      Inr w \<Rightarrow> expand_loop (render_template ps) vars out None = (out @ w, None)
    | Inl e \<Rightarrow> snd (expand_loop (render_template ps) vars out None) = Some e"
  using assms
proof (induction ps arbitrary: out)
  case (Cons p ps)
  have step: "expand_loop (render_template (p # ps)) vars out None =
    (case eval_piece vars p of
       Inr v \<Rightarrow> expand_loop (render_template ps) vars (out @ v) None
     | Inl e \<Rightarrow> expand_loop (render_template ps) vars out (Some e))"
    using expand_piece[of p "render_template ps" vars out None] Cons.prems
    by (simp add: render_template_def split: sum.splits)
  show ?case
  proof (cases "eval_piece vars p")
    case (Inl e)
    then show ?thesis by (simp add: step error_sticks)
  next
    case (Inr v)
    then show ?thesis using Cons.IH[of "out @ v"] Cons.prems by (simp add: step split: sum.splits)
  qed
qed (simp add: render_template_def)

text \<open>C32. Expand computes the documented meaning of every form: on a text written from text without a dollar sign,
  $$, $NAME, ${NAME} and ${NAME[:]-arg}, ${NAME[:]?arg}, ${NAME[:]+arg} pieces, their arguments literal text without a
  dollar sign or a closing brace, the result is the concatenation of the pieces' values, a colon making an empty value
  count as missing, and the first required variable that is missing, from the left, is the error. (Docker Compose also
  expands arguments; Expand does not, as the lemma on nested defaults below shows.)\<close>

theorem expand_meaning:
  assumes "wf_template ps"
  shows "Expand (render_template ps) vars = eval_template vars ps"
  using expand_template[OF assms, of vars "[]"]
  by (cases "expand_loop (render_template ps) vars [] None") (auto simp: Expand_def split: sum.splits)

lemma expand_meaning_witness:
  "Expand (render_template [PText ''a='', PBraced ''A'' (Some (True, OrDefault ''x'')), PDollar, PBare ''B''])
     [''A'' \<mapsto> [], ''B'' \<mapsto> ''v''] = Inr ''a=x$v''"
proof -
  have "wf_template [PText ''a='', PBraced ''A'' (Some (True, OrDefault ''x'')), PDollar, PBare ''B'']"
    by code_simp
  from expand_meaning[OF this] show ?thesis by (simp add: missing_def value_or_empty_def)
qed

text \<open>A text without a dollar sign is left as it is, and a nested default ends at the first closing brace.\<close>

lemma expand_no_dollar: "CHR ''$'' \<notin> set s \<Longrightarrow> Expand s vars = Inr s"
  using expand_text[of s "[]" vars "[]" None] by (simp add: Expand_def)

lemma expand_nested_default:
  "Expand ''${A:-${B}}'' Map.empty = Inr ''${B}''"
  by code_simp

end
