(* ===== verification/Dotenv.thy ===== *)
theory Dotenv
  imports Utf8
begin

text \<open>
  internal/compose/dotenv.go: the parser of .env files. The text is cut into lines as bufio.Scanner cuts it
  (a trailing carriage return dropped, a line of 1 MiB or more refused), and the map is a function from keys.
  The letters and digits of package unicode beyond ASCII are an argument, a pair of predicates on code points.

  The lemmas show that a file written with double quotes reads back as the assignments it was written from, that
  every key read is valid, and how the forms of a value behave.
\<close>

section \<open>Values\<close>

abbreviation dquote :: char where "dquote \<equiv> CHR 0x22"
abbreviation squote :: char where "squote \<equiv> CHR 0x27"
abbreviation backslash :: char where "backslash \<equiv> CHR 0x5C"

definition blanks :: string where "blanks = [CHR 0x20, CHR 0x09]"

fun unescape :: "char \<Rightarrow> string" where
  "unescape c = (if c = CHR ''n'' then [CHR 0x0A] else if c = CHR ''r'' then [CHR 0x0D]
     else if c = CHR ''t'' then [CHR 0x09] else if c = backslash then [backslash]
     else if c = dquote then [dquote] else [backslash, c])"

definition check_rest :: "string \<Rightarrow> string \<Rightarrow> string res" where
  "check_rest rest v =
     (let r = trim_space rest in
      if r \<noteq> [] \<and> \<not> has_prefix r ''#'' then Inl (ErrText (''unexpected text after closing quote: '' @ quoted r))
      else Inr v)"

text \<open>The loop of parseDoubleQuoted from the byte after the opening quote; \<open>b\<close> is the builder.\<close>

fun double_loop :: "string \<Rightarrow> bool \<Rightarrow> string \<Rightarrow> string res" where
  "double_loop b escape [] = Inl (ErrText ''unterminated double-quoted string'')"
| "double_loop b True (c # s) = double_loop (b @ unescape c) False s"
| "double_loop b False (c # s) =
     (if c = backslash then double_loop b True s
      else if c = dquote then check_rest s b
      else double_loop (b @ [c]) False s)"

definition parseDoubleQuoted :: "string \<Rightarrow> string res" where
  "parseDoubleQuoted s = double_loop [] False (drop 1 s)"

definition parseSingleQuoted :: "string \<Rightarrow> string res" where
  "parseSingleQuoted s =
     (case index_byte (drop 1 s) squote of
        None \<Rightarrow> Inl (ErrText ''unterminated single-quoted string'')
      | Some e \<Rightarrow> check_rest (drop (Suc (Suc e)) s) (take e (drop 1 s)))"

fun strip_comment :: "string \<Rightarrow> string" where
  "strip_comment (a # c # s) =
     (if (a = CHR 0x20 \<or> a = CHR 0x09) \<and> c = CHR ''#'' then [] else a # strip_comment (c # s))"
| "strip_comment s = s"

definition parseUnquoted :: "string \<Rightarrow> string" where
  "parseUnquoted s = trim_right_set blanks (trim_left_set blanks (strip_comment s))"

definition parseValue :: "string \<Rightarrow> string res" where
  "parseValue s0 =
     (case trim_left_set blanks s0 of
        [] \<Rightarrow> Inr []
      | c # s \<Rightarrow> if c = dquote then parseDoubleQuoted (c # s)
                 else if c = squote then parseSingleQuoted (c # s)
                 else Inr (parseUnquoted (c # s)))"

section \<open>Keys\<close>

record unicode =
  uni_letter :: "nat \<Rightarrow> bool"
  uni_digit :: "nat \<Rightarrow> bool"

definition IsLetter :: "unicode \<Rightarrow> nat \<Rightarrow> bool" where
  "IsLetter u r \<longleftrightarrow> (if r < 0x80 then (0x41 \<le> r \<and> r \<le> 0x5A) \<or> (0x61 \<le> r \<and> r \<le> 0x7A) else uni_letter u r)"

definition IsDigit :: "unicode \<Rightarrow> nat \<Rightarrow> bool" where
  "IsDigit u r \<longleftrightarrow> (if r < 0x80 then 0x30 \<le> r \<and> r \<le> 0x39 else uni_digit u r)"

definition isValidKey :: "unicode \<Rightarrow> string \<Rightarrow> bool" where
  "isValidKey u k \<longleftrightarrow> k \<noteq> [] \<and>
     (case runes k of [] \<Rightarrow> True
      | r # rs \<Rightarrow> (r = 0x5F \<or> IsLetter u r) \<and> list_all (\<lambda>r. r = 0x5F \<or> IsLetter u r \<or> IsDigit u r) rs)"

section \<open>Lines\<close>

text \<open>bufio.ScanLines: the lines of the text without their end, no last empty line, a trailing CR dropped.\<close>

definition scan_lines :: "string \<Rightarrow> string list" where
  "scan_lines s = (let ls = split_on (CHR 0x0A) s in if last ls = [] then butlast ls else ls)"

definition drop_cr :: "string \<Rightarrow> string" where
  "drop_cr l = (if l \<noteq> [] \<and> last l = CHR 0x0D then butlast l else l)"

definition max_line :: nat where "max_line = 1024 * 1024"

definition fmtDotEnvError :: "string \<Rightarrow> nat \<Rightarrow> string \<Rightarrow> gerr" where
  "fmtDotEnvError path line msg =
     (if path = [] then ErrText (''dotenv line '' @ dec_nat line @ '': '' @ msg)
      else ErrText (path @ '':'' @ dec_nat line @ '': '' @ msg))"

text \<open>One turn of the loop of parseDotEnv: nothing for a blank or comment line, an assignment otherwise.\<close>

definition parse_line :: "unicode \<Rightarrow> string \<Rightarrow> nat \<Rightarrow> string \<Rightarrow> (string \<times> string) option res" where
  "parse_line u path lineNum raw =
     (let line0 = trim_left_set blanks raw in
      if line0 = [] \<or> has_prefix line0 ''#'' then Inr None
      else
        let line = (if has_prefix line0 ''export '' then trim_left_set blanks (trim_prefix line0 ''export '') else line0)
        in case index_byte line CHR ''='' of
             None \<Rightarrow> Inl (fmtDotEnvError path lineNum ''expected KEY=VALUE'')
           | Some eq \<Rightarrow>
             if eq = 0 then Inl (fmtDotEnvError path lineNum ''expected KEY=VALUE'')
             else
               let key = trim_space (take eq line) in
               if \<not> isValidKey u key then Inl (fmtDotEnvError path lineNum (''invalid key '' @ quoted key))
               else (case parseValue (drop (Suc eq) line) of
                       Inl err \<Rightarrow> Inl (fmtDotEnvError path lineNum (err_msg err))
                     | Inr value \<Rightarrow> Inr (Some (key, value))))"

fun parse_lines :: "unicode \<Rightarrow> string \<Rightarrow> nat \<Rightarrow> string list \<Rightarrow> (string \<rightharpoonup> string) \<Rightarrow> (string \<rightharpoonup> string) res" where
  "parse_lines u path n [] vars = Inr vars"
| "parse_lines u path n (l # ls) vars =
     (if length l \<ge> max_line then Inl (ErrWrap (''read '' @ path @ '': '') (ErrText ''bufio.Scanner: token too long''))
      else case parse_line u path (Suc n) (drop_cr l) of
        Inl e \<Rightarrow> Inl e
      | Inr None \<Rightarrow> parse_lines u path (Suc n) ls vars
      | Inr (Some (key, value)) \<Rightarrow> parse_lines u path (Suc n) ls (vars(key \<mapsto> value)))"

definition parseDotEnv :: "unicode \<Rightarrow> string \<Rightarrow> string \<Rightarrow> (string \<rightharpoonup> string) res" where
  "parseDotEnv u r path = parse_lines u path 0 (scan_lines r) Map.empty"

definition ParseDotEnv :: "unicode \<Rightarrow> string \<Rightarrow> (string \<rightharpoonup> string) res" where
  "ParseDotEnv u r = parseDotEnv u r []"

text \<open>LoadDotEnv: the file system answers with the content or an error; a missing file is no error and no map.\<close>

definition LoadDotEnv :: "unicode \<Rightarrow> (string \<Rightarrow> string res) \<Rightarrow> string \<Rightarrow> (string \<rightharpoonup> string) option res" where
  "LoadDotEnv u open_file path =
     (case open_file path of
        Inl err \<Rightarrow> if err_root err = ErrNotExist then Inr None else Inl (ErrWrap (''open '' @ path @ '': '') err)
      | Inr content \<Rightarrow> (case parseDotEnv u content path of Inl e \<Rightarrow> Inl e | Inr m \<Rightarrow> Inr (Some m)))"

section \<open>Writing a file\<close>

text \<open>The specification the parser is read against: an assignment written with double quotes and escapes.\<close>

fun escape_char :: "char \<Rightarrow> string" where
  "escape_char c = (if c = CHR 0x0A then [backslash, CHR ''n''] else if c = CHR 0x0D then [backslash, CHR ''r'']
     else if c = CHR 0x09 then [backslash, CHR ''t''] else if c = backslash then [backslash, backslash]
     else if c = dquote then [backslash, dquote] else [c])"

definition escape_value :: "string \<Rightarrow> string" where "escape_value v = concat (List.map escape_char v)"

definition render_line :: "string \<times> string \<Rightarrow> string" where
  "render_line kv = fst kv @ CHR ''='' # dquote # escape_value (snd kv) @ [dquote]"

definition render_env :: "(string \<times> string) list \<Rightarrow> string" where
  "render_env kvs = concat (List.map (\<lambda>kv. render_line kv @ [CHR 0x0A]) kvs)"

definition key_start :: "char \<Rightarrow> bool" where
  "key_start c \<longleftrightarrow> c = CHR ''_'' \<or> is_ascii_letter c"

definition key_char :: "char \<Rightarrow> bool" where
  "key_char c \<longleftrightarrow> key_start c \<or> is_digit_char c"

definition ascii_key :: "string \<Rightarrow> bool" where
  "ascii_key k \<longleftrightarrow> k \<noteq> [] \<and> key_start (hd k) \<and> list_all key_char k"

lemma unescape_escape: "double_loop b False (escape_char c @ s) = double_loop (b @ [c]) False s"
  by simp

lemma double_loop_escaped:
  "double_loop b False (escape_value v @ dquote # r) = check_rest r (b @ v)"
proof (induction v arbitrary: b)
  case (Cons c v)
  have "double_loop b False (escape_value (c # v) @ dquote # r)
      = double_loop b False (escape_char c @ (escape_value v @ dquote # r))"
    by (simp add: escape_value_def)
  also have "\<dots> = check_rest r (b @ c # v)"
    using Cons[of "b @ [c]"] by (simp only: unescape_escape) simp
  finally show ?case .
qed (simp add: escape_value_def)

lemma key_char_props:
  assumes "key_char c"
  shows "plain_char c" "c \<notin> set blanks" "c \<noteq> CHR ''='' \<and> c \<noteq> CHR ''#'' \<and> c \<noteq> CHR 0x0A \<and> c \<noteq> CHR 0x20"
    "byte c < 0x80" "byte c = 0x5F \<or> IsLetter u (byte c) \<or> IsDigit u (byte c)"
  using assms
  by (auto simp: key_char_def key_start_def is_ascii_letter_def is_digit_char_def less_eq_char_def
      plain_char_def blanks_def byte_def IsLetter_def IsDigit_def)

lemma key_start_letter: "key_start c \<Longrightarrow> byte c = 0x5F \<or> IsLetter u (byte c)"
  by (auto simp: key_start_def is_ascii_letter_def less_eq_char_def byte_def IsLetter_def)

lemma ascii_key_props:
  assumes "ascii_key k"
  shows "isValidKey u k" "trim_space k = k" "CHR ''='' \<notin> set k" "CHR 0x0A \<notin> set k" "CHR 0x20 \<notin> set k"
    "k \<noteq> []" "hd k \<notin> set blanks" "hd k \<noteq> CHR ''#''"
proof -
  have k: "k \<noteq> []" "list_all key_char k" using assms by (simp_all add: ascii_key_def)
  then have all: "\<And>c. c \<in> set k \<Longrightarrow> key_char c" by (auto simp: list_all_iff)
  have "runes k = List.map byte k" using all key_char_props(4) by (intro runes_ascii) blast
  then show "isValidKey u k"
    using assms all key_char_props(5)[of _ u] key_start_letter[of "hd k" u]
    by (cases k) (auto simp: isValidKey_def ascii_key_def list_all_iff)
  show "trim_space k = k" using k all key_char_props(1) by (intro trim_space_plain) auto
  show "CHR ''='' \<notin> set k" "CHR 0x0A \<notin> set k" "CHR 0x20 \<notin> set k" using all key_char_props(3) by blast+
  show "k \<noteq> []" by (rule k(1))
  show "hd k \<notin> set blanks" "hd k \<noteq> CHR ''#''" using k all key_char_props(2,3)[of "hd k"] by auto
qed

lemma not_export:
  assumes "CHR 0x20 \<notin> set k"
  shows "\<not> has_prefix (k @ CHR ''='' # t) ''export ''"
proof
  assume "has_prefix (k @ CHR ''='' # t) ''export ''"
  then obtain r where r: "k @ CHR ''='' # t = ''export '' @ r" by (auto simp: has_prefix_iff)
  then obtain us where "(k = ''export '' @ us) \<or> (''export '' = k @ us \<and> us @ r = CHR ''='' # t)"
    unfolding append_eq_append_conv2 by metis
  then show False
  proof
    assume *: "''export '' = k @ us \<and> us @ r = CHR ''='' # t"
    show False
    proof (cases us)
      case Nil
      then have "k = ''export ''" using * by simp
      then show False using assms by simp
    next
      case (Cons u us')
      then have "CHR ''='' \<in> set (k @ us)" using * by simp
      then have "CHR ''='' \<in> set ''export ''" using * by metis
      then show False by simp
    qed
  qed (use assms in auto)
qed

lemma parse_rendered_line:
  assumes "ascii_key k"
  shows "parse_line u path n (render_line (k, v)) = Inr (Some (k, v))"
proof -
  note ak = ascii_key_props[OF assms]
  have 1: "trim_left_set blanks (render_line (k, v)) = render_line (k, v)"
    using ak by (intro trim_left_set_id) (simp add: render_line_def)
  have 2: "\<not> has_prefix (render_line (k, v)) ''#''" "render_line (k, v) \<noteq> []"
    using ak by (cases k; auto simp: render_line_def)+
  have 3: "\<not> has_prefix (render_line (k, v)) ''export ''"
    using not_export[OF ak(5)] by (simp add: render_line_def)
  have 4: "index_byte (render_line (k, v)) CHR ''='' = Some (length k)"
    using ak by (simp add: render_line_def index_byte_append)
  have 5: "parseValue (dquote # escape_value v @ [dquote]) = Inr v"
    using double_loop_escaped[of "[]" v "[]"]
    by (simp add: parseValue_def trim_left_set_def blanks_def parseDoubleQuoted_def check_rest_def)
  show ?thesis using 1 2 3 4 5 ak by (simp add: parse_line_def Let_def) (simp add: render_line_def)
qed

lemma escape_no_newline: "CHR 0x0A \<notin> set (escape_value v)"
  by (induction v) (auto simp: escape_value_def)

lemma split_lines:
  "\<forall>l \<in> set ls. c \<notin> set l \<Longrightarrow> split_on c (concat (List.map (\<lambda>l. l @ [c]) ls)) = ls @ [[]]"
  by (induction ls) (auto simp: split_on_append)

lemma scan_rendered:
  assumes "\<forall>kv \<in> set kvs. ascii_key (fst kv)"
  shows "scan_lines (render_env kvs) = List.map render_line kvs"
proof -
  have "\<forall>l \<in> set (List.map render_line kvs). CHR 0x0A \<notin> set l"
    using assms ascii_key_props(4) escape_no_newline by (auto simp: render_line_def)
  from split_lines[OF this] show ?thesis by (simp add: scan_lines_def render_env_def comp_def)
qed

lemma parse_rendered_lines:
  assumes "\<forall>kv \<in> set kvs. ascii_key (fst kv) \<and> length (render_line kv) < max_line"
  shows "parse_lines u path n (List.map render_line kvs) m = Inr (m ++ map_of (rev kvs))"
  using assms
proof (induction kvs arbitrary: n m)
  case (Cons kv kvs)
  obtain k v where kv: "kv = (k, v)" by fastforce
  have "drop_cr (render_line (k, v)) = render_line (k, v)" by (simp add: drop_cr_def render_line_def)
  then show ?case using Cons parse_rendered_line[of k u path "Suc n" v]
    by (simp add: kv map_add_assoc[symmetric] map_add_upds not_le)
qed simp

text \<open>Round trip: a .env file that assigns values to valid ASCII keys, each value between double quotes with its
  newlines, returns, tabs, quotes and backslashes escaped, reads back as exactly those assignments, for values of any
  bytes, the last assignment of a key winning, as long as every line stays below the scanner's limit of 1 MiB.\<close>

theorem dotenv_roundtrip:
  assumes "\<forall>kv \<in> set kvs. ascii_key (fst kv) \<and> length (render_line kv) < max_line"
  shows "parseDotEnv u (render_env kvs) path = Inr (map_of (rev kvs))"
  using scan_rendered[of kvs] parse_rendered_lines[OF assms] assms by (simp add: parseDotEnv_def)

definition demo_unicode :: unicode where
  "demo_unicode = \<lparr>uni_letter = (\<lambda>_. False), uni_digit = (\<lambda>_. False)\<rparr>"

lemma dotenv_roundtrip_witness:
  "parseDotEnv demo_unicode (render_env [(''A'', ''x''), (''B_1'', [CHR 0x0A, dquote]), (''A'', ''y'')]) []
     = Inr (map_of [(''A'', ''y''), (''B_1'', [CHR 0x0A, dquote]), (''A'', ''x'')])"
proof -
  have "ascii_key ''A''" "ascii_key ''B_1''" by code_simp+
  then have "\<forall>kv \<in> set [(''A'', ''x''), (''B_1'', [CHR 0x0A, dquote]), (''A'', ''y'')].
      ascii_key (fst kv) \<and> length (render_line kv) < max_line"
    by (simp add: render_line_def escape_value_def max_line_def)
  from dotenv_roundtrip[OF this] show ?thesis by simp
qed

lemma parse_line_key: "parse_line u path n l = Inr (Some (k, v)) \<Longrightarrow> isValidKey u k"
  by (auto simp: parse_line_def Let_def split: if_splits option.splits sum.splits)

lemma parse_lines_keys:
  "parse_lines u path n ls m = Inr m' \<Longrightarrow> \<forall>k \<in> dom m. isValidKey u k \<Longrightarrow> \<forall>k \<in> dom m'. isValidKey u k"
proof (induction ls arbitrary: n m)
  case (Cons l ls)
  then have long: "\<not> length l \<ge> max_line" by (auto split: if_splits)
  consider e where "parse_line u path (Suc n) (drop_cr l) = Inl e"
    | "parse_line u path (Suc n) (drop_cr l) = Inr None"
    | k v where "parse_line u path (Suc n) (drop_cr l) = Inr (Some (k, v))"
    by (metis old.sum.exhaust option.exhaust surj_pair)
  then show ?case
  proof cases
    case 1
    then show ?thesis using Cons.prems(1) long by simp
  next
    case 2
    then show ?thesis using Cons.prems long Cons.IH[of "Suc n" m] by simp
  next
    case 3
    then have "isValidKey u k" by (rule parse_line_key)
    then have "\<forall>k' \<in> dom (m(k \<mapsto> v)). isValidKey u k'" using Cons.prems(2) by simp
    moreover have "parse_lines u path (Suc n) ls (m(k \<mapsto> v)) = Inr m'"
      using 3 Cons.prems(1) long by simp
    ultimately show ?thesis using Cons.IH by blast
  qed
qed simp

text \<open>Every key of a parsed .env file is valid, it is not empty, starts with a letter or an underscore and holds
  letters, digits and underscores only, whatever the text.\<close>

theorem dotenv_keys_valid:
  assumes "parseDotEnv u r path = Inr m" "m k = Some v"
  shows "isValidKey u k"
  using parse_lines_keys[of u path 0 "scan_lines r" Map.empty m] assms by (auto simp: parseDotEnv_def)

lemma dotenv_keys_valid_witness:
  "isValidKey demo_unicode ''AB''"
proof -
  have ak: "ascii_key ''AB''" by code_simp
  then have 1: "\<forall>kv \<in> set [(''AB'', ''x'')]. ascii_key (fst kv)"
    and 2: "\<forall>kv \<in> set [(''AB'', ''x'')]. ascii_key (fst kv) \<and> length (render_line kv) < max_line"
    by (simp_all add: render_line_def escape_value_def max_line_def)
  have "parseDotEnv demo_unicode (render_env [(''AB'', ''x'')]) [] = Inr (map_of (rev [(''AB'', ''x'')]))"
    unfolding parseDotEnv_def scan_rendered[OF 1] parse_rendered_lines[OF 2] by simp
  then show ?thesis by (rule dotenv_keys_valid[of demo_unicode _ "[]" _ "''AB''" "''x''"]) simp
qed

text \<open>An unquoted value whose text after the equals sign is only a comment keeps the comment: the leading blanks
  are trimmed before the comment is looked for.\<close>

lemma empty_value_with_comment: "parseValue '' # c'' = Inr ''# c''"
  by code_simp

lemma dotenv_missing_file:
  "open_file path = Inl ErrNotExist \<Longrightarrow> LoadDotEnv u open_file path = Inr None"
  by (simp add: LoadDotEnv_def)

end
