(* ===== verification/Retry.thy ===== *)
theory Retry
  imports Prelude
begin

text \<open>
  internal/retry/retry.go and internal/gitutil/errors.go: bounded retries with exponential backoff.

  The world is a state of type 's that the operation, the timer and the random source read and change. They are
  arguments: \<open>fn\<close> is the operation (an error, or None for nil), the record \<open>retry_env\<close> holds ctx.Err(), the
  select on ctx.Done() and the timer (True when the context won) and rand.Int63n. The loop is structural in the
  attempts left. The backoff is computed in float64 by the code; the numbers it holds are integers below 2^53 for
  every delay under 104 days, so the model computes them exactly.
\<close>

record retry_policy =
  MaxAttempts :: int
  BaseDelay :: int
  MaxDelay :: int

record 's retry_env =
  ctx_err :: "'s \<Rightarrow> gerr option"
  sleep_done :: "int \<Rightarrow> 's \<Rightarrow> bool \<times> 's"
  int63n :: "int \<Rightarrow> 's \<Rightarrow> int \<times> 's"

definition Permanent :: "gerr option \<Rightarrow> gerr option" where
  "Permanent err = (case err of None \<Rightarrow> None | Some e \<Rightarrow> Some (ErrPermanent e))"

definition backoff_cap :: "retry_policy \<Rightarrow> int \<Rightarrow> int" where
  "backoff_cap p attempt =
     (let capped = BaseDelay p * 2 ^ nat (attempt - 1)
      in if MaxDelay p > 0 \<and> capped > MaxDelay p then MaxDelay p else capped)"

definition backoffDuration :: "'s retry_env \<Rightarrow> retry_policy \<Rightarrow> int \<Rightarrow> 's \<Rightarrow> int \<times> 's" where
  "backoffDuration env p attempt s =
     (if BaseDelay p \<le> 0 then (0, s)
      else let capped = backoff_cap p attempt
           in if capped \<le> 0 then (0, s) else int63n env (capped + 1) s)"

text \<open>The loop of Do: \<open>left\<close> attempts remain, the next one has number \<open>attempt\<close>.\<close>

fun retry_loop :: "'s retry_env \<Rightarrow> retry_policy \<Rightarrow> ('s \<Rightarrow> gerr option \<times> 's) \<Rightarrow>
    nat \<Rightarrow> int \<Rightarrow> gerr option \<Rightarrow> 's \<Rightarrow> gerr option \<times> 's" where
  "retry_loop env p fn 0 attempt lastErr s = (lastErr, s)"
| "retry_loop env p fn (Suc left) attempt lastErr s =
     (case ctx_err env s of
        Some ctxErr \<Rightarrow> (case lastErr of Some e \<Rightarrow> (Some e, s) | None \<Rightarrow> (Some ctxErr, s))
      | None \<Rightarrow>
        (case fn s of
           (None, s1) \<Rightarrow> (None, s1)
         | (Some e, s1) \<Rightarrow>
           (case err_as_permanent e of
              Some pe \<Rightarrow> (Some pe, s1)
            | None \<Rightarrow>
              if is_ctx_err e then (Some e, s1)
              else if left = 0 then (Some e, s1)
              else (let (delay, s2) = backoffDuration env p attempt s1;
                        (cancelled, s3) = sleep_done env delay s2
                    in if cancelled then (Some e, s3)
                       else retry_loop env p fn left (attempt + 1) (Some e) s3))))"

definition retry_attempts :: "retry_policy \<Rightarrow> nat" where
  "retry_attempts p = nat (if MaxAttempts p < 1 then 1 else MaxAttempts p)"

definition retry_do :: "'s retry_env \<Rightarrow> retry_policy \<Rightarrow> ('s \<Rightarrow> gerr option \<times> 's) \<Rightarrow> 's \<Rightarrow> gerr option \<times> 's" where
  "retry_do env p fn s = retry_loop env p fn (retry_attempts p) 1 None s"

text \<open>gitutil.IsPermanentCloneError: errors.Is against the four sentinels of go-git.\<close>

fun is_git_sentinel :: "gerr \<Rightarrow> bool" where
  "is_git_sentinel (ErrGit c) = True"
| "is_git_sentinel _ = False"

definition IsPermanentCloneError :: "gerr \<Rightarrow> bool" where
  "IsPermanentCloneError e = is_git_sentinel (err_root e)"

section \<open>What the loop promises\<close>

definition transient :: "gerr option \<Rightarrow> bool" where
  "transient r \<longleftrightarrow> (\<exists>e. r = Some e \<and> err_as_permanent e = None \<and> \<not> is_ctx_err e)"

definition unmark :: "gerr option \<Rightarrow> gerr option" where
  "unmark r = (case r of None \<Rightarrow> None
     | Some e \<Rightarrow> (case err_as_permanent e of Some pe \<Rightarrow> Some pe | None \<Rightarrow> Some e))"

text \<open>A counter of the calls of the operation: every call adds one, waiting and drawing leave it alone.\<close>

definition counts_calls :: "'s retry_env \<Rightarrow> ('s \<Rightarrow> gerr option \<times> 's) \<Rightarrow> ('s \<Rightarrow> nat) \<Rightarrow> bool" where
  "counts_calls env fn cnt \<longleftrightarrow>
     (\<forall>s. cnt (snd (fn s)) = Suc (cnt s)) \<and> (\<forall>d s. cnt (snd (sleep_done env d s)) = cnt s)
     \<and> (\<forall>n s. cnt (snd (int63n env n s)) = cnt s)"

definition uncancelled :: "'s retry_env \<Rightarrow> bool" where
  "uncancelled env \<longleftrightarrow> (\<forall>s. ctx_err env s = None) \<and> (\<forall>d s. \<not> fst (sleep_done env d s))"

lemma backoff_count:
  "counts_calls env fn cnt \<Longrightarrow> cnt (snd (backoffDuration env p a s)) = cnt s"
  by (simp add: counts_calls_def backoffDuration_def Let_def)

lemma backoff_result_state:
  "backoffDuration env p a s = (d, s') \<Longrightarrow> counts_calls env fn cnt \<Longrightarrow> cnt s' = cnt s"
  by (metis backoff_count snd_conv)

lemma retry_loop_bound:
  "counts_calls env fn cnt \<Longrightarrow> retry_loop env p fn n a le s = (r, s') \<Longrightarrow> cnt s' \<le> cnt s + n"
proof (induction n arbitrary: a le s)
  case (Suc n)
  obtain r1 s1 where fn: "fn s = (r1, s1)" by fastforce
  then have s1: "cnt s1 = Suc (cnt s)" using Suc.prems(1) by (metis counts_calls_def snd_conv)
  obtain d s2 where bo: "backoffDuration env p a s1 = (d, s2)" by fastforce
  obtain c s3 where sl: "sleep_done env d s2 = (c, s3)" by fastforce
  have s3: "cnt s3 = Suc (cnt s)"
    using Suc.prems(1) s1 sl backoff_result_state[OF bo Suc.prems(1)]
    by (metis counts_calls_def snd_conv)
  show ?case
    using Suc.prems(2) s1 s3 Suc.IH[OF Suc.prems(1), of "a + 1" r1 s3]
    by (auto simp: fn bo sl split: option.splits if_splits)
qed simp

lemma retry_loop_exact:
  assumes "counts_calls env fn cnt" "uncancelled env" "\<And>s. fst (fn s) = out (cnt s)"
  shows "retry_loop env p fn (Suc n) a le s = (r, s') \<Longrightarrow>
    \<exists>k. k \<le> n \<and> cnt s' = cnt s + Suc k \<and> (\<forall>i < k. transient (out (cnt s + i)))
      \<and> (k < n \<longrightarrow> \<not> transient (out (cnt s + k))) \<and> r = unmark (out (cnt s + k))"
proof (induction n arbitrary: a le s)
  case 0
  obtain r1 s1 where fn: "fn s = (r1, s1)" by fastforce
  with assms have "cnt s1 = Suc (cnt s)" "r1 = out (cnt s)" by (metis counts_calls_def snd_conv fst_conv)+
  with 0 fn assms(2) show ?case
    by (auto simp: uncancelled_def unmark_def split: option.splits if_splits)
next
  case (Suc n)
  obtain r1 s1 where fn: "fn s = (r1, s1)" by fastforce
  with assms have s1: "cnt s1 = Suc (cnt s)" and r1: "r1 = out (cnt s)" by (metis counts_calls_def snd_conv fst_conv)+
  show ?case
  proof (cases "transient (out (cnt s))")
    case False
    then have "r = unmark (out (cnt s))" "s' = s1"
      using Suc.prems fn r1 assms(2)
      by (auto simp: uncancelled_def unmark_def transient_def split: option.splits if_splits)
    then show ?thesis using s1 False by (intro exI[of _ 0]) simp
  next
    case True
    then obtain e where e: "out (cnt s) = Some e" "err_as_permanent e = None" "\<not> is_ctx_err e"
      by (auto simp: transient_def)
    obtain d s2 where bo: "backoffDuration env p a s1 = (d, s2)" by fastforce
    obtain c s3 where sl: "sleep_done env d s2 = (c, s3)" by fastforce
    have c: "\<not> c" using assms(2) sl by (metis uncancelled_def fst_conv)
    have s3: "cnt s3 = Suc (cnt s)"
      using assms(1) s1 sl backoff_result_state[OF bo assms(1)] by (metis counts_calls_def snd_conv)
    have "retry_loop env p fn (Suc n) (a + 1) (Some e) s3 = (r, s')"
      using Suc.prems fn r1 e assms(2) bo sl c by (subst (asm) retry_loop.simps) (simp add: uncancelled_def)
    from Suc.IH[OF this] obtain k where k: "k \<le> n" "cnt s' = cnt s3 + Suc k"
      "\<forall>i<k. transient (out (cnt s3 + i))" "k < n \<longrightarrow> \<not> transient (out (cnt s3 + k))"
      "r = unmark (out (cnt s3 + k))" by blast
    have "\<forall>i < Suc k. transient (out (cnt s + i))"
      using k(3) s3 True by (auto simp: less_Suc_eq_0_disj)
    then show ?thesis using k s3 by (intro exI[of _ "Suc k"]) simp
  qed
qed

text \<open>Do makes one call after another until a call succeeds, is marked permanent, fails with a context error, or
  the budget of max(1, MaxAttempts) calls is spent, and returns the error of the last call it made with its
  permanent marker removed: with a context that is never cancelled, the calls before the last were all transient
  failures, the last one ended the loop, and nothing else was called.\<close>

theorem retry_do_exact:
  assumes "counts_calls env fn cnt" "uncancelled env" "\<And>s. fst (fn s) = out (cnt s)"
    and "retry_do env p fn s = (r, s')"
  shows "\<exists>k < retry_attempts p. cnt s' = cnt s + Suc k
      \<and> (\<forall>i < k. transient (out (cnt s + i)))
      \<and> (Suc k < retry_attempts p \<longrightarrow> \<not> transient (out (cnt s + k)))
      \<and> r = unmark (out (cnt s + k))"
proof -
  obtain n where n: "retry_attempts p = Suc n"
    by (cases "retry_attempts p") (auto simp: retry_attempts_def split: if_splits)
  from retry_loop_exact[OF assms(1-3), of p n 1 None s r s'] assms(4)
  show ?thesis by (auto simp: retry_do_def n less_Suc_eq_le)
qed

definition demo_retry_env :: "nat retry_env" where
  "demo_retry_env = \<lparr>ctx_err = (\<lambda>_. None), sleep_done = (\<lambda>d s. (False, s)), int63n = (\<lambda>n s. (n - 1, s))\<rparr>"

definition demo_retry_fn :: "nat \<Rightarrow> gerr option \<times> nat" where
  "demo_retry_fn s = ((if s < 2 then Some (ErrText ''timeout'') else None), Suc s)"

lemma retry_do_exact_witness:
  "retry_do demo_retry_env \<lparr>MaxAttempts = 5, BaseDelay = 1, MaxDelay = 3\<rparr> demo_retry_fn 0 = (None, 3)"
proof -
  obtain r s' where d: "retry_do demo_retry_env \<lparr>MaxAttempts = 5, BaseDelay = 1, MaxDelay = 3\<rparr> demo_retry_fn 0 = (r, s')"
    by fastforce
  have 1: "counts_calls demo_retry_env demo_retry_fn id" "uncancelled demo_retry_env"
    by (simp_all add: counts_calls_def uncancelled_def demo_retry_env_def demo_retry_fn_def)
  have 2: "\<And>s. fst (demo_retry_fn s) = (\<lambda>n. if n < 2 then Some (ErrText ''timeout'') else None) (id s)"
    by (simp add: demo_retry_fn_def)
  obtain k where k: "k < (5::nat)" "s' = Suc k" "\<forall>i<k. transient (if i < 2 then Some (ErrText ''timeout'') else None)"
    "Suc k < (5::nat) \<longrightarrow> \<not> transient (if k < 2 then Some (ErrText ''timeout'') else None)"
    "r = unmark (if k < 2 then Some (ErrText ''timeout'') else None)"
    using retry_do_exact[OF 1 2 d] by (auto simp: retry_attempts_def)
  have tr: "transient (Some (ErrText ''timeout''))" by (simp add: transient_def is_ctx_err_def)
  have "\<not> 2 < k" using k(3) by (auto simp: transient_def)
  moreover have "\<not> k < 2" using k(1,4) tr by auto
  ultimately have "k = 2" by simp
  with k d show ?thesis by (simp add: unmark_def)
qed

text \<open>A call is never made after the budget is spent, whatever the context, the timer and the operation do:
  the number of calls of the operation is at most max(1, MaxAttempts).\<close>

theorem retry_do_bound:
  assumes "counts_calls env fn cnt" "retry_do env p fn s = (r, s')"
  shows "cnt s' \<le> cnt s + retry_attempts p"
  using retry_loop_bound[OF assms(1)] assms(2) by (simp add: retry_do_def)

lemma retry_do_bound_witness:
  "snd (retry_do demo_retry_env \<lparr>MaxAttempts = 2, BaseDelay = 0, MaxDelay = 0\<rparr> demo_retry_fn 0) \<le> 2"
  using retry_do_bound[of demo_retry_env demo_retry_fn id "\<lparr>MaxAttempts = 2, BaseDelay = 0, MaxDelay = 0\<rparr>" 0]
  by (cases "retry_do demo_retry_env \<lparr>MaxAttempts = 2, BaseDelay = 0, MaxDelay = 0\<rparr> demo_retry_fn 0")
     (simp add: counts_calls_def demo_retry_env_def demo_retry_fn_def retry_attempts_def)

lemma retry_do_cancelled:
  "ctx_err env s = Some e \<Longrightarrow> retry_do env p fn s = (Some e, s)"
  by (cases "retry_attempts p") (auto simp: retry_do_def retry_attempts_def split: if_splits)

lemma backoffDuration_bounds:
  assumes "\<And>n t. 0 < n \<Longrightarrow> 0 \<le> fst (int63n env n t) \<and> fst (int63n env n t) < n"
    and "0 \<le> MaxDelay p"
  shows "0 \<le> fst (backoffDuration env p a s)"
    and "fst (backoffDuration env p a s) \<le> max 0 (BaseDelay p) * 2 ^ nat (a - 1)"
    and "0 < MaxDelay p \<Longrightarrow> fst (backoffDuration env p a s) \<le> MaxDelay p"
  using assms(1)[of "backoff_cap p a + 1" s] assms(2)
  by (auto simp: backoffDuration_def backoff_cap_def Let_def not_le max_def)

end
