(* ===== verification/Models.thy ===== *)
theory Models
  imports Prelude
begin

text \<open>
  internal/store/models.go: the rows the server stores, and the constants of their status columns. A time is in
  nanoseconds with 0 the zero time; a pointer to a time is an option. Status, role and trigger columns stay strings, as
  in the code, where the database can hold any text.
\<close>

section \<open>Rows\<close>

record stack =
  st_id :: string
  st_name :: string
  RepoURL :: string
  RepoUsername :: string
  RepoToken :: string
  RepoBranch :: string
  ComposePath :: string
  ServiceFilter :: string
  AutoDeploy :: bool
  ReconcileInterval :: int
  st_status :: string
  HostID :: string
  RequiresApproval :: bool
  LastDeployedAt :: "gotime option"
  LastReconciledAt :: "gotime option"
  GitCommit :: string
  st_created :: gotime
  st_updated :: gotime
  DockerUsername :: string
  DockerPassword :: string
  DockerRegistry :: string
  SecretsHash :: string

record deployment =
  dp_id :: string
  dp_stack :: string
  dp_stack_name :: string
  dp_status :: string
  dp_trigger :: string
  dp_commit :: string
  dp_changes :: string
  dp_error :: string
  dp_started :: gotime
  dp_completed :: "gotime option"

record stack_registry =
  reg_stack :: string
  reg_server :: string
  reg_username :: string
  reg_password :: string
  reg_created :: gotime
  reg_updated :: gotime

record stack_secret =
  sec_stack :: string
  sec_name :: string
  sec_value :: string
  sec_created :: gotime
  sec_updated :: gotime

record docker_host =
  dh_id :: string
  dh_name :: string
  dh_endpoint :: string
  dh_tls_ca :: string
  dh_tls_cert :: string
  dh_tls_key :: string
  dh_created :: gotime
  dh_updated :: gotime

definition TLSEnabled :: "docker_host \<Rightarrow> bool" where
  "TLSEnabled h \<longleftrightarrow> dh_tls_ca h \<noteq> [] \<and> dh_tls_cert h \<noteq> [] \<and> dh_tls_key h \<noteq> []"

record api_key =
  ak_id :: string
  ak_name :: string
  ak_role :: string
  ak_hash :: string
  ak_grants :: "(string \<times> string) list" \<comment> \<open>stack id to role; a map, so its keys are distinct\<close>
  ak_created :: gotime
  ak_last_used :: "gotime option"
  ak_disabled :: bool

record managed_container =
  mc_id :: string
  mc_stack :: string
  mc_service :: string
  mc_container :: string
  mc_name :: string
  mc_image :: string
  mc_status :: string
  mc_created :: gotime

record audit_entry =
  ae_id :: string
  ae_timestamp :: gotime
  ae_actor :: string
  ae_remote :: string
  ae_request :: string
  ae_operation :: string
  ae_resource_type :: string
  ae_resource :: string
  ae_stack :: string
  ae_stack_name :: string
  ae_outcome :: string
  ae_error :: string
  ae_metadata :: "(string \<times> string) list"

record audit_filter =
  af_stack :: string
  af_stack_name :: string
  af_actor :: string
  af_operation :: string
  af_since :: gotime
  af_limit :: int

section \<open>Constants\<close>

definition StackStatusActive :: string where "StackStatusActive = ''active''"
definition StackStatusPaused :: string where "StackStatusPaused = ''paused''"
definition StackStatusDeploying :: string where "StackStatusDeploying = ''deploying''"
definition StackStatusError :: string where "StackStatusError = ''error''"

definition DeploymentPending :: string where "DeploymentPending = ''pending''"
definition DeploymentPendingApproval :: string where "DeploymentPendingApproval = ''pending_approval''"
definition DeploymentInProgress :: string where "DeploymentInProgress = ''in_progress''"
definition DeploymentCompleted :: string where "DeploymentCompleted = ''completed''"
definition DeploymentFailed :: string where "DeploymentFailed = ''failed''"
definition DeploymentRolledBack :: string where "DeploymentRolledBack = ''rolled_back''"
definition DeploymentRejected :: string where "DeploymentRejected = ''rejected''"

definition TriggerWebhook :: string where "TriggerWebhook = ''webhook''"
definition TriggerReconcile :: string where "TriggerReconcile = ''reconcile''"
definition TriggerManual :: string where "TriggerManual = ''manual''"

definition AuditOutcomeSuccess :: string where "AuditOutcomeSuccess = ''success''"
definition AuditOutcomeFailure :: string where "AuditOutcomeFailure = ''failure''"
definition AuditOutcomeInProgress :: string where "AuditOutcomeInProgress = ''in_progress''"

lemmas status_defs = StackStatusActive_def StackStatusPaused_def StackStatusDeploying_def StackStatusError_def
  DeploymentPending_def DeploymentPendingApproval_def DeploymentInProgress_def DeploymentCompleted_def
  DeploymentFailed_def DeploymentRolledBack_def DeploymentRejected_def

section \<open>Lists of fallible steps\<close>

text \<open>The loop over the rows of a result: the first error ends it.\<close>

fun traverse :: "('a \<Rightarrow> 'b res) \<Rightarrow> 'a list \<Rightarrow> 'b list res" where
  "traverse f [] = Inr []"
| "traverse f (x # xs) =
     (case f x of Inl e \<Rightarrow> Inl e
      | Inr y \<Rightarrow> (case traverse f xs of Inl e \<Rightarrow> Inl e | Inr ys \<Rightarrow> Inr (y # ys)))"

lemma traverse_Inr: "\<forall>x \<in> set xs. f x = Inr (g x) \<Longrightarrow> traverse f xs = Inr (List.map g xs)"
  by (induction xs) auto

lemma traverse_set: "traverse f xs = Inr ys \<Longrightarrow> y \<in> set ys \<Longrightarrow> \<exists>x \<in> set xs. f x = Inr y"
  by (induction xs arbitrary: ys) (auto split: sum.splits)

lemma traverse_Inl: "traverse f xs = Inl e \<Longrightarrow> \<exists>x \<in> set xs. f x = Inl e"
  by (induction xs) (auto split: sum.splits)

section \<open>Tables\<close>

text \<open>A table is the list of its rows in insertion order. The statements the store runs on a key: SELECT, UPDATE,
  DELETE and INSERT ... ON CONFLICT DO UPDATE, with the row a conflict leaves given by \<open>merge\<close>.\<close>

definition tbl_find :: "('r \<Rightarrow> 'k) \<Rightarrow> 'k \<Rightarrow> 'r list \<Rightarrow> 'r option" where
  "tbl_find key k rows = List.find (\<lambda>r. key r = k) rows"

definition tbl_update :: "('r \<Rightarrow> 'k) \<Rightarrow> 'k \<Rightarrow> ('r \<Rightarrow> 'r) \<Rightarrow> 'r list \<Rightarrow> 'r list" where
  "tbl_update key k f rows = List.map (\<lambda>r. if key r = k then f r else r) rows"

definition tbl_delete :: "('r \<Rightarrow> 'k) \<Rightarrow> 'k \<Rightarrow> 'r list \<Rightarrow> 'r list" where
  "tbl_delete key k rows = filter (\<lambda>r. key r \<noteq> k) rows"

definition tbl_upsert :: "('r \<Rightarrow> 'k) \<Rightarrow> ('r \<Rightarrow> 'r \<Rightarrow> 'r) \<Rightarrow> 'r \<Rightarrow> 'r list \<Rightarrow> 'r list" where
  "tbl_upsert key merge new rows =
     (if tbl_find key (key new) rows = None then rows @ [new]
      else tbl_update key (key new) (\<lambda>old. merge old new) rows)"

text \<open>The promise of a table with a key, and what a client gets from it.\<close>

locale keyed_table =
  fixes lookup :: "'k \<Rightarrow> 't \<Rightarrow> 'r option"
    and upsert :: "'r \<Rightarrow> 't \<Rightarrow> 't"
    and remove :: "'k \<Rightarrow> 't \<Rightarrow> 't"
    and key :: "'r \<Rightarrow> 'k"
    and merge :: "'r \<Rightarrow> 'r \<Rightarrow> 'r"
  assumes lookup_upsert: "lookup k (upsert r t) =
      (if k = key r then Some (case lookup k t of None \<Rightarrow> r | Some old \<Rightarrow> merge old r) else lookup k t)"
    and lookup_remove: "lookup k (remove k' t) = (if k = k' then None else lookup k t)"
    and merge_merge: "merge (merge old r) r' = merge old r'"
begin

lemma lookup_upsert_other: "k \<noteq> key r \<Longrightarrow> lookup k (upsert r t) = lookup k t"
  by (simp add: lookup_upsert)

lemma remove_upsert: "lookup k (upsert r (remove (key r) t)) = (if k = key r then Some r else lookup k t)"
  by (simp add: lookup_upsert lookup_remove)

lemma upsert_twice:
  "key r = key r' \<Longrightarrow> lookup (key r) t \<noteq> None \<Longrightarrow> lookup k (upsert r' (upsert r t)) = lookup k (upsert r' t)"
  by (auto simp: lookup_upsert merge_merge)

lemma upsert_commute:
  "key r \<noteq> key r' \<Longrightarrow> lookup k (upsert r' (upsert r t)) = lookup k (upsert r (upsert r' t))"
  by (simp add: lookup_upsert)

end

lemma tbl_find_append:
  "tbl_find key k (rows @ [r]) = (case tbl_find key k rows of Some x \<Rightarrow> Some x | None \<Rightarrow> if key r = k then Some r else None)"
  by (induction rows) (auto simp: tbl_find_def)

lemma tbl_find_update:
  assumes "\<And>r. key r = k' \<Longrightarrow> key (f r) = key r"
  shows "tbl_find key k (tbl_update key k' f rows) =
    (if k = k' then map_option f (tbl_find key k rows) else tbl_find key k rows)"
  using assms by (induction rows) (auto simp: tbl_find_def tbl_update_def)

lemma tbl_find_delete: "tbl_find key k (tbl_delete key k' rows) = (if k = k' then None else tbl_find key k rows)"
  by (induction rows) (auto simp: tbl_find_def tbl_delete_def)

lemma tbl_find_Some: "tbl_find key k rows = Some r \<Longrightarrow> r \<in> set rows \<and> key r = k"
  by (induction rows) (auto simp: tbl_find_def split: if_splits)

lemma tbl_find_None: "tbl_find key k rows = None \<longleftrightarrow> (\<forall>r \<in> set rows. key r \<noteq> k)"
  by (induction rows) (auto simp: tbl_find_def)

lemma tbl_upsert_keyed:
  assumes "\<And>old r. key old = key r \<Longrightarrow> key (merge old r) = key r"
    and "\<And>old r r'. merge (merge old r) r' = merge old r'"
  shows "keyed_table (tbl_find key) (tbl_upsert key merge) (tbl_delete key) key merge"
proof
  fix k r t
  show "tbl_find key k (tbl_upsert key merge r t) =
      (if k = key r then Some (case tbl_find key k t of None \<Rightarrow> r | Some old \<Rightarrow> merge old r) else tbl_find key k t)"
  proof (cases "tbl_find key (key r) t")
    case None
    then show ?thesis by (auto simp: tbl_upsert_def tbl_find_append split: option.splits)
  next
    case (Some old)
    have "tbl_find key k (tbl_update key (key r) (\<lambda>old. merge old r) t) =
        (if k = key r then map_option (\<lambda>old. merge old r) (tbl_find key k t) else tbl_find key k t)"
      using assms(1) by (intro tbl_find_update) simp
    with Some show ?thesis by (simp add: tbl_upsert_def)
  qed
qed (simp_all add: tbl_find_delete assms(2))

end
