(* ===== verification/Ciphers.thy ===== *)
theory Ciphers
  imports Codec
begin

text \<open>
  internal/secrets: encryption at rest (secrets.go) and the sources of the master key (vault.go).

  AES-256-GCM is not modelled: an authenticated cipher is a record with its seal and open functions, and
  \<open>aead_ok\<close> states the documented law that open inverts seal. The environment, the file system, the random source, the
  HTTP exchange with Vault and the JSON decoding of its answer are arguments.
\<close>

section \<open>The cipher\<close>

record aead =
  NonceSize :: nat
  Seal :: "string \<Rightarrow> string \<Rightarrow> string" \<comment> \<open>nonce, plaintext\<close>
  Open :: "string \<Rightarrow> string \<Rightarrow> string option" \<comment> \<open>nonce, ciphertext\<close>

type_synonym ciph = "aead option" \<comment> \<open>None is the nil cipher: encryption off\<close>

definition aead_ok :: "aead \<Rightarrow> bool" where
  "aead_ok a \<longleftrightarrow> (\<forall>n p. length n = NonceSize a \<longrightarrow> Open a n (Seal a n p) = Some p)"

definition CipherVersionV1 :: string where "CipherVersionV1 = ''v1''"
definition ErrNoKey :: gerr where "ErrNoKey = ErrText ''encryption disabled: no master key configured''"
definition ErrCiphertextInvalid :: gerr where "ErrCiphertextInvalid = ErrText ''ciphertext invalid or tampered''"

definition NewCipher :: "(string \<Rightarrow> aead) \<Rightarrow> string \<Rightarrow> ciph res" where
  "NewCipher newGCM key =
     (if length key = 0 then Inr None
      else if length key \<noteq> 32
      then Inl (ErrText (''encryption key must be 32 bytes (got '' @ dec_nat (length key)
             @ ''); generate one with `openssl rand -base64 32`''))
      else Inr (Some (newGCM key)))"

definition Enabled :: "ciph \<Rightarrow> bool" where "Enabled c \<longleftrightarrow> c \<noteq> None"

definition v1_prefix :: string where "v1_prefix = CipherVersionV1 @ '':''"

text \<open>Encrypt: the random nonce is an argument, None when the random source fails.\<close>

definition Encrypt :: "ciph \<Rightarrow> string option \<Rightarrow> string \<Rightarrow> string res" where
  "Encrypt c random plaintext =
     (case c of
        None \<Rightarrow> Inr plaintext
      | Some a \<Rightarrow>
        if plaintext = [] then Inr []
        else (case random of
                None \<Rightarrow> Inl (ErrWrap ''generate nonce: '' (ErrText ''random source''))
              | Some nonce \<Rightarrow>
                  Inr (CipherVersionV1 @ '':'' @ b64_encode nonce @ '':'' @ b64_encode (Seal a nonce plaintext))))"

text \<open>strings.SplitN(stored, ":", 3), as the second and third part when there are three.\<close>

definition split3 :: "string \<Rightarrow> (string \<times> string) option" where
  "split3 s = (case cut CHR '':'' s of
      (_, None) \<Rightarrow> None
    | (_, Some r) \<Rightarrow> (case cut CHR '':'' r of (_, None) \<Rightarrow> None | (b, Some c) \<Rightarrow> Some (b, c)))"

definition Decrypt :: "ciph \<Rightarrow> string \<Rightarrow> string res" where
  "Decrypt c stored =
     (if stored = [] then Inr []
      else if \<not> has_prefix stored v1_prefix then Inr stored
      else case c of
        None \<Rightarrow> Inl ErrNoKey
      | Some a \<Rightarrow>
        (case split3 stored of
           None \<Rightarrow> Inl ErrCiphertextInvalid
         | Some (p1, p2) \<Rightarrow>
           (case b64_decode p1 of
              None \<Rightarrow> Inl ErrCiphertextInvalid
            | Some nonce \<Rightarrow>
              if length nonce \<noteq> NonceSize a then Inl ErrCiphertextInvalid
              else (case b64_decode p2 of
                      None \<Rightarrow> Inl ErrCiphertextInvalid
                    | Some ct \<Rightarrow> (case Open a nonce ct of None \<Rightarrow> Inl ErrCiphertextInvalid | Some pt \<Rightarrow> Inr pt)))))"

definition IsPlaintext :: "string \<Rightarrow> bool" where
  "IsPlaintext stored \<longleftrightarrow> stored \<noteq> [] \<and> \<not> has_prefix stored v1_prefix"

lemmas v1_defs = v1_prefix_def CipherVersionV1_def

lemma b64_no_colon: "\<not> b64_char CHR '':''"
  by (simp add: b64_char_def b64_value_def less_eq_char_def)

lemma split3_v1: "split3 (''v1:'' @ b64_encode n @ CHR '':'' # ct) = Some (b64_encode n, ct)"
proof -
  have "cut CHR '':'' (''v1'' @ CHR '':'' # b64_encode n @ CHR '':'' # ct) = (''v1'', Some (b64_encode n @ CHR '':'' # ct))"
    by (rule cut_append) simp
  moreover have "cut CHR '':'' (b64_encode n @ CHR '':'' # ct) = (b64_encode n, Some ct)"
    by (rule b64.enc_no_cut) (rule b64_no_colon)
  ultimately show ?thesis by (simp add: split3_def)
qed

text \<open>C23. Round trip of encryption at rest: with a key, whatever text Encrypt stores for a plaintext, Decrypt gives the
  plaintext back, for every plaintext, the empty one and one that itself looks like a ciphertext included; a
  non-empty plaintext is never stored as it is, and what is stored counts as encrypted for the migration.\<close>

theorem encrypt_roundtrip:
  assumes "aead_ok a" "length nonce = NonceSize a"
  shows "\<exists>stored. Encrypt (Some a) (Some nonce) p = Inr stored \<and> Decrypt (Some a) stored = Inr p
     \<and> \<not> IsPlaintext stored \<and> (p \<noteq> [] \<longrightarrow> has_prefix stored ''v1:'')"
proof (cases "p = []")
  case True
  then show ?thesis by (simp add: Encrypt_def Decrypt_def IsPlaintext_def)
next
  case False
  let ?s = "''v1:'' @ b64_encode nonce @ CHR '':'' # b64_encode (Seal a nonce p)"
  have enc: "Encrypt (Some a) (Some nonce) p = Inr ?s" using False by (simp add: Encrypt_def CipherVersionV1_def)
  have pre: "has_prefix ?s ''v1:''" by simp
  have "split3 ?s = Some (b64_encode nonce, b64_encode (Seal a nonce p))" by (rule split3_v1)
  then have "Decrypt (Some a) ?s = Inr p"
    using assms pre by (simp add: Decrypt_def v1_defs b64_decode_encode aead_ok_def)
  with enc pre show ?thesis by (intro exI[of _ ?s]) (simp add: IsPlaintext_def v1_defs)
qed

text \<open>A cipher for the witnesses: it reverses the text and appends the nonce as a tag.\<close>

definition demo_aead :: aead where
  "demo_aead = \<lparr>NonceSize = 2, Seal = (\<lambda>n p. rev p @ n),
     Open = (\<lambda>n c. if has_suffix c n then Some (rev (take (length c - length n) c)) else None)\<rparr>"

lemma demo_aead_ok: "aead_ok demo_aead"
  by (simp add: aead_ok_def demo_aead_def has_suffix_def)

lemma encrypt_roundtrip_witness:
  "\<exists>stored. Encrypt (Some demo_aead) (Some ''ab'') ''v1:x'' = Inr stored \<and> Decrypt (Some demo_aead) stored = Inr ''v1:x''
     \<and> \<not> IsPlaintext stored"
  using encrypt_roundtrip[OF demo_aead_ok, of "''ab''" "''v1:x''"] by (auto simp: demo_aead_def)

text \<open>A failed decryption says nothing about its cause: a text that is refused starts with v1:, and with a key it
  is refused with the one error ErrCiphertextInvalid, whether its shape, its base64, its nonce or its tag is wrong;
  without a key every ciphertext row is refused with ErrNoKey. A text without the prefix is never refused.\<close>

theorem decrypt_uniform_error:
  assumes "Decrypt c stored = Inl e"
  shows "has_prefix stored ''v1:'' \<and> e = (if Enabled c then ErrCiphertextInvalid else ErrNoKey)"
  using assms by (auto simp: Decrypt_def Enabled_def v1_defs split: option.splits if_splits)

lemma decrypt_uniform_error_witness:
  "Decrypt (Some demo_aead) ''v1:!'' = Inl ErrCiphertextInvalid"
proof -
  have "isl (Decrypt (Some demo_aead) ''v1:!'')" by code_simp
  then obtain e where "Decrypt (Some demo_aead) ''v1:!'' = Inl e" by (auto simp: isl_def)
  then show ?thesis using decrypt_uniform_error[of "Some demo_aead" "''v1:!''" e] by (simp add: Enabled_def)
qed

lemma decrypt_legacy: "\<not> has_prefix stored ''v1:'' \<Longrightarrow> Decrypt c stored = Inr stored"
  by (auto simp: Decrypt_def v1_defs)

text \<open>With encryption off a text is stored as it is, and reads back exactly when it does not start with v1:.\<close>

lemma disabled_roundtrip:
  "Encrypt None r p = Inr p"
  "Decrypt None p = Inr p \<longleftrightarrow> \<not> has_prefix p ''v1:''"
  by (auto simp: Encrypt_def Decrypt_def v1_defs ErrNoKey_def)

section \<open>The master key\<close>

definition envKeyName :: string where "envKeyName = ''ACCELERO_ENCRYPTION_KEY''"
definition envKeyFileName :: string where "envKeyFileName = ''ACCELERO_ENCRYPTION_KEY_FILE''"
definition envKeyVaultName :: string where "envKeyVaultName = ''ACCELERO_ENCRYPTION_KEY_VAULT''"

record vault_config =
  vc_Addr :: string
  vc_Token :: string
  vc_TransitKey :: string
  vc_TransitMount :: string
  vc_Namespace :: string
  vc_WrappedKey :: string

definition vaultConfigFromEnv :: "(string \<Rightarrow> string) \<Rightarrow> vault_config option res" where
  "vaultConfigFromEnv getenv =
     (let wrapped = trim_space (getenv envKeyVaultName) in
      if wrapped = [] then Inr None
      else
        let mount = trim_space (getenv ''ACCELERO_VAULT_TRANSIT_MOUNT'');
            cfg = \<lparr>vc_Addr = trim_space (getenv ''VAULT_ADDR''), vc_Token = trim_space (getenv ''VAULT_TOKEN''),
              vc_TransitKey = trim_space (getenv ''ACCELERO_VAULT_TRANSIT_KEY''),
              vc_TransitMount = (if mount = [] then ''transit'' else mount),
              vc_Namespace = trim_space (getenv ''ACCELERO_VAULT_NAMESPACE''), vc_WrappedKey = wrapped\<rparr>;
            missing = (if vc_Addr cfg = [] then [''VAULT_ADDR''] else [])
              @ (if vc_Token cfg = [] then [''VAULT_TOKEN''] else [])
              @ (if vc_TransitKey cfg = [] then [''ACCELERO_VAULT_TRANSIT_KEY''] else [])
        in if missing \<noteq> []
           then Inl (ErrText (envKeyVaultName @ '' is set but '' @ join_with '', '' missing @ '' must also be set''))
           else Inr (Some cfg))"

text \<open>The exchange with Vault: the request, and an answer that is an error or a status code, a status text and
  a body. The two JSON decoders read the body; the first 1 MiB of it is read.\<close>

record vault_request =
  vr_url :: string
  vr_token :: string
  vr_namespace :: "string option"
  vr_ciphertext :: string

record vault_api =
  va_do :: "vault_request \<Rightarrow> (nat \<times> string \<times> string) res"
  va_errors :: "string \<Rightarrow> string list option"
  va_plaintext :: "string \<Rightarrow> string res"

definition UnwrapKeyWithVault :: "vault_api \<Rightarrow> vault_config \<Rightarrow> string res" where
  "UnwrapKeyWithVault api cfg =
     (let req = \<lparr>vr_url = trim_right_set ''/'' (vc_Addr cfg) @ ''/v1/'' @ vc_TransitMount cfg @ ''/decrypt/'' @ vc_TransitKey cfg,
            vr_token = vc_Token cfg,
            vr_namespace = (if vc_Namespace cfg \<noteq> [] then Some (vc_Namespace cfg) else None),
            vr_ciphertext = vc_WrappedKey cfg\<rparr>
      in case va_do api req of
           Inl err \<Rightarrow> Inl (ErrWrap ''vault: transit decrypt request failed: '' err)
         | Inr (code, status, body) \<Rightarrow>
           (let raw = take (2 ^ 20) body in
            if code \<noteq> 200 then
              (case va_errors api raw of
                 Some (e # es) \<Rightarrow>
                   Inl (ErrText (''vault: transit decrypt failed ('' @ status @ ''): '' @ join_with ''; '' (e # es)))
               | _ \<Rightarrow> Inl (ErrText (''vault: transit decrypt failed: '' @ status)))
            else (case va_plaintext api raw of
                    Inl err \<Rightarrow> Inl (ErrWrap ''vault: decode response: '' err)
                  | Inr pt \<Rightarrow>
                    if pt = [] then Inl (ErrText (''vault: transit decrypt returned no plaintext (is ''
                        @ quoted (vc_TransitKey cfg) @ '' a Transit key?)''))
                    else (case b64_decode pt of
                            None \<Rightarrow> Inl (ErrWrap ''vault: base64-decode unwrapped key: '' (ErrText ''illegal base64 data''))
                          | Some key \<Rightarrow> Inr key))))"

definition loadCipherFromVault :: "(string \<Rightarrow> aead) \<Rightarrow> vault_api \<Rightarrow> vault_config \<Rightarrow> ciph res" where
  "loadCipherFromVault newGCM api cfg =
     (case UnwrapKeyWithVault api cfg of Inl e \<Rightarrow> Inl e | Inr key \<Rightarrow> NewCipher newGCM key)"

definition loadCipherFromFile :: "(string \<Rightarrow> aead) \<Rightarrow> (string \<Rightarrow> string res) \<Rightarrow> string \<Rightarrow> ciph res" where
  "loadCipherFromFile newGCM readFile path =
     (case readFile path of
        Inl err \<Rightarrow> Inl (ErrWrap (envKeyFileName @ ''='' @ quoted path @ '': '') err)
      | Inr content \<Rightarrow>
        (let raw = trim_space content in
         if raw = [] then Inl (ErrText (envKeyFileName @ ''='' @ quoted path
              @ '': file is empty (expected base64-encoded 32-byte key)''))
         else (case b64_decode raw of
                 None \<Rightarrow> Inl (ErrWrap (envKeyFileName @ ''='' @ quoted path @ '': base64 decode: '') (ErrText ''illegal base64 data''))
               | Some key \<Rightarrow> NewCipher newGCM key)))"

definition LoadCipherFromEnv ::
  "(string \<Rightarrow> aead) \<Rightarrow> (string \<Rightarrow> string) \<Rightarrow> (string \<Rightarrow> string res) \<Rightarrow> vault_api \<Rightarrow> ciph res" where
  "LoadCipherFromEnv newGCM getenv readFile api =
     (let inl = trim_space (getenv envKeyName);
          filePath = trim_space (getenv envKeyFileName);
          vaultSelected = (trim_space (getenv envKeyVaultName) \<noteq> []);
          sources = length (filter id [inl \<noteq> [], filePath \<noteq> [], vaultSelected])
      in if sources > 1
         then Inl (ErrText (''set only one of '' @ envKeyName @ '', '' @ envKeyFileName @ '' or '' @ envKeyVaultName
                @ '', not several''))
         else case vaultConfigFromEnv getenv of
           Inl e \<Rightarrow> Inl e
         | Inr (Some cfg) \<Rightarrow> loadCipherFromVault newGCM api cfg
         | Inr None \<Rightarrow>
           if filePath \<noteq> [] then loadCipherFromFile newGCM readFile filePath
           else if inl = [] then Inr None
           else (case b64_decode inl of
                   None \<Rightarrow> Inl (ErrWrap (envKeyName @ '': base64 decode: '') (ErrText ''illegal base64 data''))
                 | Some key \<Rightarrow> NewCipher newGCM key))"

subsection \<open>Never silently off\<close>

lemma trim_space_last:
  assumes "trim_space s \<noteq> []"
  shows "last (trim_space s) \<noteq> CHR 0x0A \<and> last (trim_space s) \<noteq> CHR 0x0D"
proof -
  let ?t = "trim_seqs (List.map rev space_seqs) (rev (trim_seqs space_seqs s))"
  have t: "trim_space s = rev ?t" by (simp add: trim_space_def)
  obtain c r where cr: "?t = c # r" using assms unfolding t by (cases ?t) auto
  have "strip_one (List.map rev space_seqs) (c # r) = None" using trim_seqs_stop unfolding cr[symmetric] .
  then have "\<forall>p \<in> set (List.map rev space_seqs). p = [] \<or> \<not> has_prefix (c # r) p" by (simp only: strip_one_None)
  then have "c \<noteq> CHR 0x0A \<and> c \<noteq> CHR 0x0D" by (auto simp: space_seqs_def)
  then show ?thesis unfolding t cr by simp
qed

lemma b64_quads_empty: "b64_quads s = Some [] \<Longrightarrow> s = []"
  by (cases s rule: b64_quads.cases) (auto split: option.splits if_splits simp: Let_def)

lemma b64_decode_trimmed: "trim_space s \<noteq> [] \<Longrightarrow> b64_decode (trim_space s) \<noteq> Some []"
proof
  assume ne: "trim_space s \<noteq> []" and "b64_decode (trim_space s) = Some []"
  then have "filter (\<lambda>c. c \<noteq> CHR 0x0A \<and> c \<noteq> CHR 0x0D) (trim_space s) = []"
    by (simp add: b64_decode_def b64_quads_empty)
  then show False using trim_space_last[OF ne] last_in_set[OF ne] by (auto simp: filter_empty_conv)
qed

lemma NewCipher_on: "key \<noteq> [] \<Longrightarrow> NewCipher g key \<noteq> Inr None"
  by (simp add: NewCipher_def)

lemma trimmed_key: "b64_decode (trim_space s) = Some k \<Longrightarrow> NewCipher g k = Inr None \<Longrightarrow> trim_space s = []"
  using b64_decode_trimmed[of s] NewCipher_on[of k g] by blast

lemma vault_config_iff: "vaultConfigFromEnv getenv = Inr None \<longleftrightarrow> trim_space (getenv envKeyVaultName) = []"
  by (simp add: vaultConfigFromEnv_def Let_def)

lemma unwrap_nonempty:
  assumes "\<And>raw pt. va_plaintext api raw = Inr pt \<Longrightarrow> b64_decode pt = Some [] \<Longrightarrow> pt = []"
  shows "UnwrapKeyWithVault api cfg = Inr key \<Longrightarrow> key \<noteq> []"
  using assms
  by (auto simp: UnwrapKeyWithVault_def Let_def split: sum.splits prod.splits if_splits option.splits list.splits)

text \<open>Encryption is off only when no source of the master key is configured: if any of the three environment
  variables is set, loading the cipher gives a working cipher or an error, never the disabled one, so a malformed
  key, an empty key file or an unreachable Vault cannot make the server store plaintext; two sources at once are
  an error. (The Vault answer's plaintext, when not empty, is assumed to be the base64 of a non-empty key.)\<close>

theorem encryption_never_silently_off:
  assumes "\<And>raw pt. va_plaintext api raw = Inr pt \<Longrightarrow> b64_decode pt = Some [] \<Longrightarrow> pt = []"
  shows "LoadCipherFromEnv newGCM getenv readFile api = Inr None \<longleftrightarrow>
     trim_space (getenv envKeyName) = [] \<and> trim_space (getenv envKeyFileName) = [] \<and>
     trim_space (getenv envKeyVaultName) = []"
proof -
  have ff: "loadCipherFromFile newGCM readFile p \<noteq> Inr None" for p
    by (auto simp: loadCipherFromFile_def Let_def split: sum.splits option.splits dest: trimmed_key)
  have vault: "loadCipherFromVault newGCM api cfg \<noteq> Inr None" for cfg
    using unwrap_nonempty[OF assms] NewCipher_on by (auto simp: loadCipherFromVault_def split: sum.splits)
  show ?thesis
    using ff vault vault_config_iff[of getenv]
    by (auto simp: LoadCipherFromEnv_def Let_def split: sum.splits option.splits if_splits dest: trimmed_key)
qed

definition demo_vault :: vault_api where
  "demo_vault = \<lparr>va_do = (\<lambda>_. Inl ErrDeadline), va_errors = (\<lambda>_. None), va_plaintext = (\<lambda>_. Inl (ErrText ''json''))\<rparr>"

lemma encryption_never_silently_off_witness:
  "LoadCipherFromEnv (\<lambda>_. demo_aead) (\<lambda>v. if v = envKeyVaultName then ''vault:v1:abc'' else []) (\<lambda>_. Inl ErrNotExist) demo_vault
     \<noteq> Inr None"
proof -
  have "trim_space ''vault:v1:abc'' \<noteq> []" by code_simp
  then show ?thesis
    using encryption_never_silently_off[of demo_vault "\<lambda>_. demo_aead" "\<lambda>v. if v = envKeyVaultName then ''vault:v1:abc'' else []" "\<lambda>_. Inl ErrNotExist"]
    by (simp add: demo_vault_def)
qed

end
