(* ===== verification/Store.thy ===== *)
theory Store
  imports Models Ciphers
begin

text \<open>
  internal/store/sqlite.go: the SQLite store. The database is a record of tables, each a list of rows in insertion
  order; every method is its SQL statement read on them, with the encryption of the sensitive columns. The primary
  keys and UNIQUE constraints of the schema are checked by the inserts and updates; foreign keys are not, as the driver
  does not honour them (the comment in DeleteStack). Errors of the database itself (a full disk, a lock) are added by
  the callers, through a fault. Random nonces and the clock are arguments. A column that holds JSON of a string map is
  the map itself. Rows that tie in an ORDER BY keep their insertion order.
\<close>

record db =
  cipher :: ciph
  t_stacks :: "stack list"
  t_deployments :: "deployment list"
  t_containers :: "managed_container list"
  t_secrets :: "stack_secret list"
  t_registries :: "stack_registry list"
  t_hosts :: "docker_host list"
  t_keys :: "api_key list"
  t_audit :: "audit_entry list"

definition empty_db :: "ciph \<Rightarrow> db" where
  "empty_db c = \<lparr>cipher = c, t_stacks = [], t_deployments = [], t_containers = [], t_secrets = [], t_registries = [],
     t_hosts = [], t_keys = [], t_audit = []\<rparr>"

definition SetCipher :: "ciph \<Rightarrow> db \<Rightarrow> db" where "SetCipher c d = d\<lparr>cipher := c\<rparr>"

definition encryptField :: "db \<Rightarrow> string option \<Rightarrow> string \<Rightarrow> string res" where
  "encryptField d random plaintext = Encrypt (cipher d) random plaintext"

definition decryptField :: "db \<Rightarrow> string \<Rightarrow> string res" where
  "decryptField d stored = Decrypt (cipher d) stored"

definition unique_error :: "string \<Rightarrow> gerr" where
  "unique_error col = ErrText (''constraint failed: UNIQUE constraint failed: '' @ col)"

section \<open>Stacks\<close>

text \<open>The two sensitive columns of a stack, encrypted with two nonces.\<close>

definition encrypt_stack :: "db \<Rightarrow> string option \<Rightarrow> string option \<Rightarrow> stack \<Rightarrow> stack res" where
  "encrypt_stack d n1 n2 st =
     (case encryptField d n1 (RepoToken st) of
        Inl e \<Rightarrow> Inl (ErrWrap ''encrypt repo_token: '' e)
      | Inr encToken \<Rightarrow>
        (case encryptField d n2 (DockerPassword st) of
           Inl e \<Rightarrow> Inl (ErrWrap ''encrypt docker_password: '' e)
         | Inr encDockerPw \<Rightarrow> Inr (st\<lparr>RepoToken := encToken, DockerPassword := encDockerPw\<rparr>)))"

text \<open>The INSERT leaves last_deployed_at, last_reconciled_at and git_commit at their defaults.\<close>

definition CreateStack :: "string option \<Rightarrow> string option \<Rightarrow> stack \<Rightarrow> db \<Rightarrow> gerr option \<times> db" where
  "CreateStack n1 n2 st d =
     (case encrypt_stack d n1 n2 st of
        Inl e \<Rightarrow> (Some e, d)
      | Inr row \<Rightarrow>
        if \<exists>r \<in> set (t_stacks d). st_id r = st_id st then (Some (unique_error ''stacks.id''), d)
        else if \<exists>r \<in> set (t_stacks d). st_name r = st_name st then (Some (unique_error ''stacks.name''), d)
        else (None, d\<lparr>t_stacks := t_stacks d
                @ [row\<lparr>LastDeployedAt := None, LastReconciledAt := None, GitCommit := []\<rparr>]\<rparr>))"

definition scanStack :: "db \<Rightarrow> stack \<Rightarrow> stack res" where
  "scanStack d row =
     (case decryptField d (RepoToken row) of
        Inl e \<Rightarrow> Inl (ErrWrap (''decrypt repo_token for stack '' @ st_id row @ '': '') e)
      | Inr tok \<Rightarrow>
        (case decryptField d (DockerPassword row) of
           Inl e \<Rightarrow> Inl (ErrWrap (''decrypt docker_password for stack '' @ st_id row @ '': '') e)
         | Inr pw \<Rightarrow> Inr (row\<lparr>RepoToken := tok, DockerPassword := pw\<rparr>)))"

definition scan_one :: "('r \<Rightarrow> 'a res) \<Rightarrow> 'r option \<Rightarrow> 'a option res" where
  "scan_one scan row = (case row of None \<Rightarrow> Inr None | Some r \<Rightarrow> (case scan r of Inl e \<Rightarrow> Inl e | Inr x \<Rightarrow> Inr (Some x)))"

definition GetStack :: "string \<Rightarrow> db \<Rightarrow> stack option res" where
  "GetStack i d = scan_one (scanStack d) (tbl_find st_id i (t_stacks d))"

definition GetStackByName :: "string \<Rightarrow> db \<Rightarrow> stack option res" where
  "GetStackByName n d = scan_one (scanStack d) (tbl_find st_name n (t_stacks d))"

definition ListStacks :: "db \<Rightarrow> stack list res" where
  "ListStacks d = traverse (scanStack d) (sort_key st_name (t_stacks d))"

text \<open>UpdateStack sets updated_at on the caller's struct and writes every column but id and created_at.\<close>

definition UpdateStack :: "gotime \<Rightarrow> string option \<Rightarrow> string option \<Rightarrow> stack \<Rightarrow> db \<Rightarrow> gerr option \<times> db" where
  "UpdateStack now n1 n2 st0 d =
     (let st = st0\<lparr>st_updated := now\<rparr> in
      case encrypt_stack d n1 n2 st of
        Inl e \<Rightarrow> (Some e, d)
      | Inr row \<Rightarrow>
        if (\<exists>r \<in> set (t_stacks d). st_id r = st_id st) \<and>
           (\<exists>r \<in> set (t_stacks d). st_id r \<noteq> st_id st \<and> st_name r = st_name st)
        then (Some (unique_error ''stacks.name''), d)
        else (None, d\<lparr>t_stacks := tbl_update st_id (st_id st) (\<lambda>old. row\<lparr>st_created := st_created old\<rparr>) (t_stacks d)\<rparr>))"

definition DeleteStack :: "string \<Rightarrow> db \<Rightarrow> gerr option \<times> db" where
  "DeleteStack i d =
     (None, d\<lparr>t_secrets := filter (\<lambda>r. sec_stack r \<noteq> i) (t_secrets d),
              t_registries := filter (\<lambda>r. reg_stack r \<noteq> i) (t_registries d),
              t_stacks := tbl_delete st_id i (t_stacks d)\<rparr>)"

text \<open>SQLite's LIKE is case-insensitive on ASCII letters.\<close>

definition like_v1 :: "string \<Rightarrow> bool" where
  "like_v1 s \<longleftrightarrow> has_prefix (to_lower s) ''v1:''"

definition ListStacksNeedingEncryption :: "db \<Rightarrow> string list" where
  "ListStacksNeedingEncryption d =
     List.map st_id (filter (\<lambda>r. (RepoToken r \<noteq> [] \<and> \<not> like_v1 (RepoToken r)) \<or>
                            (DockerPassword r \<noteq> [] \<and> \<not> like_v1 (DockerPassword r))) (t_stacks d))"

section \<open>Deployments\<close>

definition CreateDeployment :: "deployment \<Rightarrow> db \<Rightarrow> gerr option \<times> db" where
  "CreateDeployment p d =
     (if \<exists>r \<in> set (t_deployments d). dp_id r = dp_id p then (Some (unique_error ''deployments.id''), d)
      else (None, d\<lparr>t_deployments := t_deployments d @ [p]\<rparr>))"

definition GetDeployment :: "string \<Rightarrow> db \<Rightarrow> deployment option" where
  "GetDeployment i d = tbl_find dp_id i (t_deployments d)"

definition newest_first :: "deployment list \<Rightarrow> deployment list" where
  "newest_first ps = sort_key (\<lambda>p. - dp_started p) ps"

definition ListDeployments :: "string \<Rightarrow> int \<Rightarrow> db \<Rightarrow> deployment list" where
  "ListDeployments stackID limit0 d =
     (let limit = (if limit0 \<le> 0 then 50 else limit0)
      in take (nat limit) (newest_first (filter (\<lambda>p. dp_stack p = stackID) (t_deployments d))))"

definition GetPendingApproval :: "string \<Rightarrow> db \<Rightarrow> deployment option" where
  "GetPendingApproval stackID d =
     (case newest_first (filter (\<lambda>p. dp_stack p = stackID \<and> dp_status p = DeploymentPendingApproval) (t_deployments d)) of
        [] \<Rightarrow> None | p # _ \<Rightarrow> Some p)"

definition ListPendingApprovals :: "db \<Rightarrow> deployment list" where
  "ListPendingApprovals d = sort_key dp_started (filter (\<lambda>p. dp_status p = DeploymentPendingApproval) (t_deployments d))"

definition UpdateDeployment :: "deployment \<Rightarrow> db \<Rightarrow> db" where
  "UpdateDeployment p d = d\<lparr>t_deployments := tbl_update dp_id (dp_id p)
     (\<lambda>old. old\<lparr>dp_status := dp_status p, dp_commit := dp_commit p, dp_changes := dp_changes p,
               dp_error := dp_error p, dp_completed := dp_completed p\<rparr>) (t_deployments d)\<rparr>"

definition cleanable :: "gotime \<Rightarrow> deployment \<Rightarrow> bool" where
  "cleanable cutoff p \<longleftrightarrow> dp_started p < cutoff \<and>
     dp_status p \<in> {DeploymentCompleted, DeploymentFailed, DeploymentRolledBack}"

definition CleanupOldDeployments :: "gotime \<Rightarrow> int \<Rightarrow> db \<Rightarrow> nat \<times> db" where
  "CleanupOldDeployments now maxAge d =
     (let cutoff = now - maxAge
      in (length (filter (cleanable cutoff) (t_deployments d)),
          d\<lparr>t_deployments := filter (\<lambda>p. \<not> cleanable cutoff p) (t_deployments d)\<rparr>))"

section \<open>Docker hosts\<close>

definition CreateDockerHost :: "string option \<Rightarrow> docker_host \<Rightarrow> db \<Rightarrow> gerr option \<times> db" where
  "CreateDockerHost n h d =
     (case encryptField d n (dh_tls_key h) of
        Inl e \<Rightarrow> (Some (ErrWrap ''encrypt tls_key: '' e), d)
      | Inr encKey \<Rightarrow>
        if \<exists>r \<in> set (t_hosts d). dh_id r = dh_id h then (Some (unique_error ''docker_hosts.id''), d)
        else if \<exists>r \<in> set (t_hosts d). dh_name r = dh_name h then (Some (unique_error ''docker_hosts.name''), d)
        else (None, d\<lparr>t_hosts := t_hosts d @ [h\<lparr>dh_tls_key := encKey\<rparr>]\<rparr>))"

definition scanDockerHost :: "db \<Rightarrow> docker_host \<Rightarrow> docker_host res" where
  "scanDockerHost d h =
     (case decryptField d (dh_tls_key h) of
        Inl e \<Rightarrow> Inl (ErrWrap (''decrypt tls_key for host '' @ dh_id h @ '': '') e)
      | Inr k \<Rightarrow> Inr (h\<lparr>dh_tls_key := k\<rparr>))"

definition GetDockerHost :: "string \<Rightarrow> db \<Rightarrow> docker_host option res" where
  "GetDockerHost i d = scan_one (scanDockerHost d) (tbl_find dh_id i (t_hosts d))"

definition GetDockerHostByName :: "string \<Rightarrow> db \<Rightarrow> docker_host option res" where
  "GetDockerHostByName n d = scan_one (scanDockerHost d) (tbl_find dh_name n (t_hosts d))"

definition ListDockerHosts :: "db \<Rightarrow> docker_host list res" where
  "ListDockerHosts d = traverse (scanDockerHost d) (sort_key dh_name (t_hosts d))"

definition DeleteDockerHost :: "string \<Rightarrow> db \<Rightarrow> bool \<times> db" where
  "DeleteDockerHost i d = (tbl_find dh_id i (t_hosts d) \<noteq> None, d\<lparr>t_hosts := tbl_delete dh_id i (t_hosts d)\<rparr>)"

definition CountStacksOnHost :: "string \<Rightarrow> db \<Rightarrow> nat" where
  "CountStacksOnHost hostID d = length (filter (\<lambda>s. HostID s = hostID) (t_stacks d))"

section \<open>API keys\<close>

definition CreateAPIKey :: "api_key \<Rightarrow> db \<Rightarrow> gerr option \<times> db" where
  "CreateAPIKey k d =
     (if \<exists>r \<in> set (t_keys d). ak_id r = ak_id k then (Some (unique_error ''api_keys.id''), d)
      else if \<exists>r \<in> set (t_keys d). ak_hash r = ak_hash k then (Some (unique_error ''api_keys.key_hash''), d)
      else (None, d\<lparr>t_keys := t_keys d @ [k]\<rparr>))"

definition GetAPIKeyByHash :: "string \<Rightarrow> db \<Rightarrow> api_key option" where
  "GetAPIKeyByHash h d = tbl_find ak_hash h (t_keys d)"

definition ListAPIKeys :: "db \<Rightarrow> api_key list" where
  "ListAPIKeys d = sort_key ak_created (t_keys d)"

definition DeleteAPIKey :: "string \<Rightarrow> db \<Rightarrow> bool \<times> db" where
  "DeleteAPIKey i d = (tbl_find ak_id i (t_keys d) \<noteq> None, d\<lparr>t_keys := tbl_delete ak_id i (t_keys d)\<rparr>)"

definition TouchAPIKey :: "string \<Rightarrow> gotime \<Rightarrow> db \<Rightarrow> db" where
  "TouchAPIKey i t d = d\<lparr>t_keys := tbl_update ak_id i (\<lambda>k. k\<lparr>ak_last_used := Some t\<rparr>) (t_keys d)\<rparr>"

section \<open>Managed containers\<close>

text \<open>INSERT OR REPLACE: a row with the same id goes and the new row comes last.\<close>

definition TrackContainer :: "managed_container \<Rightarrow> db \<Rightarrow> db" where
  "TrackContainer c d = d\<lparr>t_containers := tbl_delete mc_id (mc_id c) (t_containers d) @ [c]\<rparr>"

definition ListContainers :: "string \<Rightarrow> db \<Rightarrow> managed_container list" where
  "ListContainers stackID d =
     sort_key (\<lambda>c. - mc_created c) (filter (\<lambda>c. mc_stack c = stackID) (t_containers d))"

definition RemoveContainer :: "string \<Rightarrow> db \<Rightarrow> db" where
  "RemoveContainer containerID d = d\<lparr>t_containers := tbl_delete mc_container containerID (t_containers d)\<rparr>"

definition RemoveContainersByStack :: "string \<Rightarrow> db \<Rightarrow> db" where
  "RemoveContainersByStack stackID d = d\<lparr>t_containers := tbl_delete mc_stack stackID (t_containers d)\<rparr>"

section \<open>Secrets and registries\<close>

definition sec_key :: "stack_secret \<Rightarrow> string \<times> string" where "sec_key s = (sec_stack s, sec_name s)"
definition reg_key :: "stack_registry \<Rightarrow> string \<times> string" where "reg_key r = (reg_stack r, reg_server r)"

definition merge_secret :: "stack_secret \<Rightarrow> stack_secret \<Rightarrow> stack_secret" where
  "merge_secret old new = new\<lparr>sec_created := sec_created old\<rparr>"

definition merge_registry :: "stack_registry \<Rightarrow> stack_registry \<Rightarrow> stack_registry" where
  "merge_registry old new = new\<lparr>reg_created := reg_created old\<rparr>"

definition UpsertStackSecret :: "gotime \<Rightarrow> string option \<Rightarrow> stack_secret \<Rightarrow> db \<Rightarrow> gerr option \<times> db" where
  "UpsertStackSecret now n sec d =
     (case encryptField d n (sec_value sec) of
        Inl e \<Rightarrow> (Some (ErrWrap ''encrypt stack_secret value: '' e), d)
      | Inr encValue \<Rightarrow>
        (let row = sec\<lparr>sec_value := encValue, sec_created := (if sec_created sec = 0 then now else sec_created sec),
                       sec_updated := now\<rparr>
         in (None, d\<lparr>t_secrets := tbl_upsert sec_key merge_secret row (t_secrets d)\<rparr>)))"

definition scan_secret :: "db \<Rightarrow> stack_secret \<Rightarrow> stack_secret res" where
  "scan_secret d row =
     (case decryptField d (sec_value row) of
        Inl e \<Rightarrow> Inl (ErrWrap (''decrypt stack_secret value for '' @ sec_stack row @ ''/'' @ sec_name row @ '': '') e)
      | Inr plain \<Rightarrow> Inr (row\<lparr>sec_value := plain\<rparr>))"

definition ListStackSecrets :: "string \<Rightarrow> db \<Rightarrow> stack_secret list res" where
  "ListStackSecrets stackID d =
     traverse (scan_secret d) (sort_key sec_name (filter (\<lambda>r. sec_stack r = stackID) (t_secrets d)))"

definition DeleteStackSecret :: "string \<Rightarrow> string \<Rightarrow> db \<Rightarrow> bool \<times> db" where
  "DeleteStackSecret stackID name d =
     (tbl_find sec_key (stackID, name) (t_secrets d) \<noteq> None,
      d\<lparr>t_secrets := tbl_delete sec_key (stackID, name) (t_secrets d)\<rparr>)"

definition UpsertStackRegistry :: "gotime \<Rightarrow> string option \<Rightarrow> stack_registry \<Rightarrow> db \<Rightarrow> gerr option \<times> db" where
  "UpsertStackRegistry now n r d =
     (case encryptField d n (reg_password r) of
        Inl e \<Rightarrow> (Some (ErrWrap ''encrypt stack_registry password: '' e), d)
      | Inr encPassword \<Rightarrow>
        (let row = r\<lparr>reg_password := encPassword, reg_created := (if reg_created r = 0 then now else reg_created r),
                     reg_updated := now\<rparr>
         in (None, d\<lparr>t_registries := tbl_upsert reg_key merge_registry row (t_registries d)\<rparr>)))"

definition scan_registry :: "db \<Rightarrow> stack_registry \<Rightarrow> stack_registry res" where
  "scan_registry d row =
     (case decryptField d (reg_password row) of
        Inl e \<Rightarrow> Inl (ErrWrap (''decrypt stack_registry password for '' @ reg_stack row @ ''/'' @ reg_server row @ '': '') e)
      | Inr plain \<Rightarrow> Inr (row\<lparr>reg_password := plain\<rparr>))"

definition ListStackRegistries :: "string \<Rightarrow> db \<Rightarrow> stack_registry list res" where
  "ListStackRegistries stackID d =
     traverse (scan_registry d) (sort_key reg_server (filter (\<lambda>r. reg_stack r = stackID) (t_registries d)))"

definition DeleteStackRegistry :: "string \<Rightarrow> string \<Rightarrow> db \<Rightarrow> bool \<times> db" where
  "DeleteStackRegistry stackID server d =
     (tbl_find reg_key (stackID, server) (t_registries d) \<noteq> None,
      d\<lparr>t_registries := tbl_delete reg_key (stackID, server) (t_registries d)\<rparr>)"

section \<open>The audit log\<close>

definition maxAuditListLimit :: int where "maxAuditListLimit = 1000"

definition CreateAuditEntry :: "audit_entry \<Rightarrow> db \<Rightarrow> gerr option \<times> db" where
  "CreateAuditEntry e d =
     (if \<exists>r \<in> set (t_audit d). ae_id r = ae_id e then (Some (unique_error ''audit_entries.id''), d)
      else (None, d\<lparr>t_audit := t_audit d @ [e]\<rparr>))"

definition audit_matches :: "audit_filter \<Rightarrow> audit_entry \<Rightarrow> bool" where
  "audit_matches f e \<longleftrightarrow>
     (af_stack f = [] \<or> ae_stack e = af_stack f) \<and>
     (af_stack_name f = [] \<or> ae_stack_name e = af_stack_name f) \<and>
     (af_actor f = [] \<or> ae_actor e = af_actor f) \<and>
     (af_operation f = [] \<or> ae_operation e = af_operation f) \<and>
     (af_since f = 0 \<or> af_since f \<le> ae_timestamp e)"

definition audit_limit :: "int \<Rightarrow> int" where
  "audit_limit l =
     (let limit = (if l \<le> 0 then 100 else l) in if limit > maxAuditListLimit then maxAuditListLimit else limit)"

definition ListAuditEntries :: "audit_filter \<Rightarrow> db \<Rightarrow> audit_entry list" where
  "ListAuditEntries f d =
     take (nat (audit_limit (af_limit f))) (sort_key (\<lambda>e. - ae_timestamp e) (filter (audit_matches f) (t_audit d)))"

definition CleanupOldAuditEntries :: "gotime \<Rightarrow> int \<Rightarrow> db \<Rightarrow> nat \<times> db" where
  "CleanupOldAuditEntries now maxAge d =
     (if maxAge \<le> 0 then (0, d)
      else let cutoff = now - maxAge
           in (length (filter (\<lambda>e. ae_timestamp e < cutoff) (t_audit d)),
               d\<lparr>t_audit := filter (\<lambda>e. \<not> ae_timestamp e < cutoff) (t_audit d)\<rparr>))"

section \<open>The tables keep their promise\<close>

interpretation secrets_table: keyed_table "tbl_find sec_key" "tbl_upsert sec_key merge_secret" "tbl_delete sec_key"
    sec_key merge_secret
  by (rule tbl_upsert_keyed) (simp_all add: sec_key_def merge_secret_def)

interpretation registries_table: keyed_table "tbl_find reg_key" "tbl_upsert reg_key merge_registry" "tbl_delete reg_key"
    reg_key merge_registry
  by (rule tbl_upsert_keyed) (simp_all add: reg_key_def merge_registry_def)

section \<open>No credential is at rest in plaintext\<close>

text \<open>The sensitive columns of a database, and the statement that each is empty or ciphertext.\<close>

definition sensitive :: "db \<Rightarrow> string list" where
  "sensitive d = List.map RepoToken (t_stacks d) @ List.map DockerPassword (t_stacks d)
     @ List.map sec_value (t_secrets d) @ List.map reg_password (t_registries d) @ List.map dh_tls_key (t_hosts d)"

definition all_sensitive :: "(string \<Rightarrow> bool) \<Rightarrow> db \<Rightarrow> bool" where
  "all_sensitive P d \<longleftrightarrow> list_all P (sensitive d)"

definition sealed :: "string \<Rightarrow> bool" where
  "sealed s \<longleftrightarrow> \<not> IsPlaintext s"

definition readable :: "ciph \<Rightarrow> string \<Rightarrow> bool" where
  "readable c s \<longleftrightarrow> (case Decrypt c s of Inr p \<Rightarrow> True | Inl e \<Rightarrow> False)"

text \<open>The methods that change the database, as the operations of a run.\<close>

datatype db_op =
    OpCreateStack "string option" "string option" stack
  | OpUpdateStack gotime "string option" "string option" stack
  | OpDeleteStack string
  | OpCreateDeployment deployment
  | OpUpdateDeployment deployment
  | OpCleanupDeployments gotime int
  | OpCreateHost "string option" docker_host
  | OpDeleteHost string
  | OpCreateKey api_key
  | OpDeleteKey string
  | OpTouchKey string gotime
  | OpTrackContainer managed_container
  | OpRemoveContainer string
  | OpRemoveContainersByStack string
  | OpUpsertSecret gotime "string option" stack_secret
  | OpDeleteSecret string string
  | OpUpsertRegistry gotime "string option" stack_registry
  | OpDeleteRegistry string string
  | OpCreateAudit audit_entry
  | OpCleanupAudit gotime int

fun db_step :: "db_op \<Rightarrow> db \<Rightarrow> db" where
  "db_step (OpCreateStack n1 n2 s) d = snd (CreateStack n1 n2 s d)"
| "db_step (OpUpdateStack t n1 n2 s) d = snd (UpdateStack t n1 n2 s d)"
| "db_step (OpDeleteStack i) d = snd (DeleteStack i d)"
| "db_step (OpCreateDeployment p) d = snd (CreateDeployment p d)"
| "db_step (OpUpdateDeployment p) d = UpdateDeployment p d"
| "db_step (OpCleanupDeployments t a) d = snd (CleanupOldDeployments t a d)"
| "db_step (OpCreateHost n h) d = snd (CreateDockerHost n h d)"
| "db_step (OpDeleteHost i) d = snd (DeleteDockerHost i d)"
| "db_step (OpCreateKey k) d = snd (CreateAPIKey k d)"
| "db_step (OpDeleteKey i) d = snd (DeleteAPIKey i d)"
| "db_step (OpTouchKey i t) d = TouchAPIKey i t d"
| "db_step (OpTrackContainer c) d = TrackContainer c d"
| "db_step (OpRemoveContainer c) d = RemoveContainer c d"
| "db_step (OpRemoveContainersByStack s) d = RemoveContainersByStack s d"
| "db_step (OpUpsertSecret t n s) d = snd (UpsertStackSecret t n s d)"
| "db_step (OpDeleteSecret s n) d = snd (DeleteStackSecret s n d)"
| "db_step (OpUpsertRegistry t n r) d = snd (UpsertStackRegistry t n r d)"
| "db_step (OpDeleteRegistry s n) d = snd (DeleteStackRegistry s n d)"
| "db_step (OpCreateAudit e) d = snd (CreateAuditEntry e d)"
| "db_step (OpCleanupAudit t a) d = snd (CleanupOldAuditEntries t a d)"

text \<open>The nonces an operation draws.\<close>

fun op_nonces :: "db_op \<Rightarrow> string option list" where
  "op_nonces (OpCreateStack n1 n2 s) = [n1, n2]"
| "op_nonces (OpUpdateStack t n1 n2 s) = [n1, n2]"
| "op_nonces (OpCreateHost n h) = [n]"
| "op_nonces (OpUpsertSecret t n s) = [n]"
| "op_nonces (OpUpsertRegistry t n r) = [n]"
| "op_nonces _ = []"

lemma all_sensitive_iff:
  "all_sensitive P d \<longleftrightarrow>
       (\<forall>s \<in> set (t_stacks d). P (RepoToken s) \<and> P (DockerPassword s))
     \<and> (\<forall>s \<in> set (t_secrets d). P (sec_value s))
     \<and> (\<forall>r \<in> set (t_registries d). P (reg_password r))
     \<and> (\<forall>h \<in> set (t_hosts d). P (dh_tls_key h))"
  by (auto simp: all_sensitive_def sensitive_def list_all_iff)

lemma tbl_update_all:
  "\<forall>r \<in> set rows. P r \<Longrightarrow> (\<And>r. P r \<Longrightarrow> P (f r)) \<Longrightarrow> \<forall>r \<in> set (tbl_update key k f rows). P r"
  by (auto simp: tbl_update_def)

lemma tbl_upsert_all:
  "\<forall>r \<in> set rows. P r \<Longrightarrow> P new \<Longrightarrow> (\<And>old. P (merge old new)) \<Longrightarrow> \<forall>r \<in> set (tbl_upsert key merge new rows). P r"
  by (auto simp: tbl_upsert_def tbl_update_def)

lemma encrypt_stack_fields:
  assumes "encrypt_stack d n1 n2 st = Inr row"
  shows "encryptField d n1 (RepoToken st) = Inr (RepoToken row)"
    and "encryptField d n2 (DockerPassword st) = Inr (DockerPassword row)"
    and "row = st\<lparr>RepoToken := RepoToken row, DockerPassword := DockerPassword row\<rparr>"
  using assms by (auto simp: encrypt_stack_def split: sum.splits)

text \<open>Every operation keeps a property of the sensitive columns that every encrypted field has.\<close>

lemma db_step_sensitive:
  assumes "all_sensitive P d" "\<And>n p s. n \<in> set (op_nonces a) \<Longrightarrow> encryptField d n p = Inr s \<Longrightarrow> P s"
  shows "all_sensitive P (db_step a d)"
proof (cases a)
  case (OpCreateStack n1 n2 s)
  have "P (RepoToken row) \<and> P (DockerPassword row)" if "encrypt_stack d n1 n2 s = Inr row" for row
    using assms(2)[OF _ encrypt_stack_fields(1)[OF that]] assms(2)[OF _ encrypt_stack_fields(2)[OF that]]
    by (simp add: OpCreateStack)
  then show ?thesis
    using assms(1) by (auto simp: OpCreateStack all_sensitive_iff CreateStack_def split: sum.splits)
next
  case (OpUpdateStack t n1 n2 s)
  have "\<forall>r \<in> set (tbl_update st_id k (\<lambda>old. row\<lparr>st_created := st_created old\<rparr>) (t_stacks d)).
      P (RepoToken r) \<and> P (DockerPassword r)"
    if "encrypt_stack d n1 n2 (s\<lparr>st_updated := t\<rparr>) = Inr row" for row k
    using assms encrypt_stack_fields(1,2)[OF that] unfolding OpUpdateStack
    by (intro tbl_update_all) (auto simp: all_sensitive_iff)
  then show ?thesis
    using assms(1) by (auto simp: OpUpdateStack all_sensitive_iff UpdateStack_def Let_def split: sum.splits)
next
  case (OpUpsertSecret t n s)
  have "\<forall>r \<in> set (tbl_upsert sec_key merge_secret row (t_secrets d)). P (sec_value r)"
    if "encryptField d n (sec_value s) = Inr (sec_value row)" for row
    using assms that unfolding OpUpsertSecret
    by (intro tbl_upsert_all) (auto simp: all_sensitive_iff merge_secret_def)
  note new = this
  show ?thesis
  proof (cases "encryptField d n (sec_value s)")
    case (Inr v)
    then show ?thesis
      using assms(1) new[of "s\<lparr>sec_value := v, sec_created := (if sec_created s = 0 then t else sec_created s), sec_updated := t\<rparr>"]
      by (simp add: OpUpsertSecret all_sensitive_iff UpsertStackSecret_def)
  qed (use assms(1) in \<open>simp add: OpUpsertSecret UpsertStackSecret_def\<close>)
next
  case (OpUpsertRegistry t n r)
  have "\<forall>x \<in> set (tbl_upsert reg_key merge_registry row (t_registries d)). P (reg_password x)"
    if "encryptField d n (reg_password r) = Inr (reg_password row)" for row
    using assms that unfolding OpUpsertRegistry
    by (intro tbl_upsert_all) (auto simp: all_sensitive_iff merge_registry_def)
  note new = this
  show ?thesis
  proof (cases "encryptField d n (reg_password r)")
    case (Inr v)
    then show ?thesis
      using assms(1) new[of "r\<lparr>reg_password := v, reg_created := (if reg_created r = 0 then t else reg_created r), reg_updated := t\<rparr>"]
      by (simp add: OpUpsertRegistry all_sensitive_iff UpsertStackRegistry_def)
  qed (use assms(1) in \<open>simp add: OpUpsertRegistry UpsertStackRegistry_def\<close>)
next
  case (OpCreateHost n h)
  then show ?thesis
    using assms by (auto simp: all_sensitive_iff CreateDockerHost_def split: sum.splits)
qed (use assms(1) in \<open>auto simp: all_sensitive_iff DeleteStack_def CreateDeployment_def UpdateDeployment_def
      CleanupOldDeployments_def DeleteDockerHost_def CreateAPIKey_def DeleteAPIKey_def TouchAPIKey_def TrackContainer_def
      RemoveContainer_def RemoveContainersByStack_def DeleteStackSecret_def DeleteStackRegistry_def CreateAuditEntry_def
      CleanupOldAuditEntries_def tbl_delete_def Let_def\<close>)

lemma db_step_cipher: "cipher (db_step a d) = cipher d"
  by (cases a) (auto simp: CreateStack_def UpdateStack_def DeleteStack_def CreateDeployment_def UpdateDeployment_def
      CleanupOldDeployments_def CreateDockerHost_def DeleteDockerHost_def CreateAPIKey_def DeleteAPIKey_def TouchAPIKey_def
      TrackContainer_def RemoveContainer_def RemoveContainersByStack_def UpsertStackSecret_def DeleteStackSecret_def
      UpsertStackRegistry_def DeleteStackRegistry_def CreateAuditEntry_def CleanupOldAuditEntries_def Let_def
      split: sum.splits)

definition good_nonces :: "aead \<Rightarrow> db_op \<Rightarrow> bool" where
  "good_nonces a op \<longleftrightarrow> (\<forall>n. Some n \<in> set (op_nonces op) \<longrightarrow> length n = NonceSize a)"

lemma encrypt_good:
  assumes "aead_ok a" "length nonce = NonceSize a" "Encrypt (Some a) (Some nonce) p = Inr s"
  shows "sealed s \<and> Decrypt (Some a) s = Inr p"
proof -
  have "Encrypt (Some a) (Some nonce) p = Inr s \<longrightarrow> Decrypt (Some a) s = Inr p \<and> sealed s"
  proof (cases "p = []")
    case False
    let ?s = "''v1:'' @ b64_encode nonce @ CHR '':'' # b64_encode (Seal a nonce p)"
    have "split3 ?s = Some (b64_encode nonce, b64_encode (Seal a nonce p))" by (rule split3_v1)
    moreover have "has_prefix ?s ''v1:''" by simp
    ultimately show ?thesis using False assms(1,2)
      by (auto simp: Encrypt_def Decrypt_def v1_defs b64_decode_encode aead_ok_def sealed_def IsPlaintext_def)
  qed (simp add: Encrypt_def Decrypt_def sealed_def IsPlaintext_def)
  with assms(3) show ?thesis by blast
qed

definition db_inv :: "aead \<Rightarrow> db \<Rightarrow> bool" where
  "db_inv a d \<longleftrightarrow> cipher d = Some a \<and> all_sensitive (\<lambda>s. sealed s \<and> readable (Some a) s) d"

lemma encryptField_good:
  assumes "aead_ok a" "cipher d = Some a" "\<And>m. n = Some m \<Longrightarrow> length m = NonceSize a" "encryptField d n p = Inr s"
  shows "sealed s \<and> readable (Some a) s"
proof (cases n)
  case None
  then show ?thesis using assms(2,4)
    by (auto simp: encryptField_def Encrypt_def sealed_def IsPlaintext_def readable_def Decrypt_def split: if_splits)
next
  case (Some m)
  then show ?thesis using encrypt_good[OF assms(1), of m p s] assms by (simp add: encryptField_def readable_def)
qed

lemma op_field_good:
  assumes "encryptField d n p = Inr s" "n \<in> set (op_nonces op)" "good_nonces a op" "aead_ok a" "cipher d = Some a"
  shows "sealed s \<and> readable (Some a) s"
  using assms by (intro encryptField_good[of a d n p]) (auto simp: good_nonces_def)

interpretation store_machine: invariant_machine db_step "\<lambda>_ op. aead_ok a \<and> good_nonces a op" "db_inv a" for a
proof
  fix d op
  assume "db_inv a d" "aead_ok a \<and> good_nonces a op"
  then show "db_inv a (db_step op d)"
    unfolding db_inv_def db_step_cipher
    by (intro conjI db_step_sensitive) (auto dest: op_field_good)
qed

text \<open>C1. No credential is at rest in plaintext: starting from an empty database with a key, after any sequence of
  the store's methods the repository tokens, registry passwords, secret values and TLS keys it holds are all empty or
  ciphertext, and all of them decrypt with that key, so no read of a stack, secret, registry or host fails.\<close>

theorem store_sealed:
  assumes "aead_ok a" "\<forall>op \<in> set ops. good_nonces a op"
  shows "\<forall>s \<in> set (sensitive (run_ops db_step ops (empty_db (Some a)))). sealed s \<and> readable (Some a) s"
proof -
  have "db_inv a (empty_db (Some a))" by (simp add: db_inv_def all_sensitive_def sensitive_def empty_db_def)
  with assms have "db_inv a (run_ops db_step ops (empty_db (Some a)))"
    by (intro store_machine.run_inv_ops) auto
  then show ?thesis by (auto simp: db_inv_def all_sensitive_def list_all_iff)
qed

definition demo_secret :: stack_secret where
  "demo_secret = \<lparr>sec_stack = ''s1'', sec_name = ''TOKEN'', sec_value = ''hunter2'', sec_created = 0, sec_updated = 0\<rparr>"

lemma store_sealed_witness:
  "list_all (\<lambda>s. sealed s \<and> readable (Some demo_aead) s)
     (sensitive (run_ops db_step [OpUpsertSecret 5 (Some ''ab'') demo_secret] (empty_db (Some demo_aead))))"
  using store_sealed[OF demo_aead_ok, of "[OpUpsertSecret 5 (Some ''ab'') demo_secret]"]
  by (simp add: good_nonces_def demo_aead_def list_all_iff)

section \<open>Reading back what was written\<close>

lemma encryptField_some:
  assumes "aead_ok a" "cipher d = Some a" "length n = NonceSize a"
  shows "\<exists>s. encryptField d (Some n) p = Inr s \<and> Decrypt (Some a) s = Inr p"
proof -
  have "\<exists>s. Encrypt (Some a) (Some n) p = Inr s" by (simp add: Encrypt_def)
  then obtain s where "Encrypt (Some a) (Some n) p = Inr s" by blast
  with encrypt_good[OF assms(1,3) this] assms(2) show ?thesis by (auto simp: encryptField_def)
qed

lemma encrypt_stack_some:
  assumes "aead_ok a" "cipher d = Some a" "length n1 = NonceSize a" "length n2 = NonceSize a"
  shows "\<exists>t p. encrypt_stack d (Some n1) (Some n2) st = Inr (st\<lparr>RepoToken := t, DockerPassword := p\<rparr>)
     \<and> Decrypt (Some a) t = Inr (RepoToken st) \<and> Decrypt (Some a) p = Inr (DockerPassword st)"
proof -
  obtain t p where "encryptField d (Some n1) (RepoToken st) = Inr t" "Decrypt (Some a) t = Inr (RepoToken st)"
    "encryptField d (Some n2) (DockerPassword st) = Inr p" "Decrypt (Some a) p = Inr (DockerPassword st)"
    using encryptField_some[OF assms(1,2,3)] encryptField_some[OF assms(1,2,4)] by blast
  then show ?thesis by (intro exI[of _ t] exI[of _ p]) (simp add: encrypt_stack_def)
qed

text \<open>What UpdateStack writes, GetStack reads: with encryption on, after an update of a stack that exists the stack
  read back by id is the one written, credentials in plain, with the time of the update and the creation time it
  already had, and every other stack reads as before.\<close>

theorem update_get_stack:
  assumes "aead_ok a" "cipher d = Some a" "length n1 = NonceSize a" "length n2 = NonceSize a"
    and "tbl_find st_id (st_id st) (t_stacks d) = Some old"
    and "UpdateStack now (Some n1) (Some n2) st d = (None, d')"
  shows "GetStack (st_id st) d' = Inr (Some (st\<lparr>st_updated := now, st_created := st_created old\<rparr>))
     \<and> (\<forall>i. i \<noteq> st_id st \<longrightarrow> GetStack i d' = GetStack i d)"
proof -
  obtain t p where tp: "encrypt_stack d (Some n1) (Some n2) (st\<lparr>st_updated := now\<rparr>)
      = Inr (st\<lparr>st_updated := now, RepoToken := t, DockerPassword := p\<rparr>)"
    "Decrypt (Some a) t = Inr (RepoToken st)" "Decrypt (Some a) p = Inr (DockerPassword st)"
    using encrypt_stack_some[OF assms(1-4), of "st\<lparr>st_updated := now\<rparr>"] by auto
  let ?row = "\<lambda>old. st\<lparr>st_updated := now, RepoToken := t, DockerPassword := p, st_created := st_created old\<rparr>"
  have d': "d' = d\<lparr>t_stacks := tbl_update st_id (st_id st) ?row (t_stacks d)\<rparr>"
    using assms(6) by (simp add: UpdateStack_def tp(1) Let_def split: if_splits)
  have find: "tbl_find st_id i (t_stacks d') =
      (if i = st_id st then map_option ?row (tbl_find st_id i (t_stacks d)) else tbl_find st_id i (t_stacks d))" for i
    unfolding d' by (simp add: tbl_find_update)
  have df: "decryptField d' = decryptField d" by (simp add: fun_eq_iff decryptField_def d')
  have scan: "scanStack d' = scanStack d" unfolding scanStack_def df by (rule refl)
  have row: "scanStack d (?row old) = Inr (st\<lparr>st_updated := now, st_created := st_created old\<rparr>)"
    using assms(2) tp(2,3) by (simp add: scanStack_def decryptField_def)
  show ?thesis
    unfolding GetStack_def scan using assms(5) row by (simp add: find scan_one_def)
qed

definition demo_stack :: stack where
  "demo_stack = \<lparr>st_id = ''s1'', st_name = ''web'', RepoURL = ''https://git/x'', RepoUsername = [], RepoToken = ''tok'',
     RepoBranch = ''main'', ComposePath = ''docker-compose.yml'', ServiceFilter = [], AutoDeploy = True,
     ReconcileInterval = 60, st_status = StackStatusActive, HostID = [], RequiresApproval = False,
     LastDeployedAt = None, LastReconciledAt = None, GitCommit = [], st_created = 1, st_updated = 1,
     DockerUsername = [], DockerPassword = [], DockerRegistry = [], SecretsHash = []\<rparr>"

definition demo_db :: db where
  "demo_db = snd (CreateStack (Some ''ab'') (Some ''cd'') demo_stack (empty_db (Some demo_aead)))"

lemma update_get_stack_witness:
  "\<exists>d'. GetStack ''s1'' d' = Inr (Some (demo_stack\<lparr>st_status := StackStatusPaused, st_updated := 9\<rparr>))"
proof -
  let ?st = "demo_stack\<lparr>st_status := StackStatusPaused\<rparr>"
  have c: "cipher demo_db = Some demo_aead"
    by (simp add: demo_db_def CreateStack_def empty_db_def encrypt_stack_def encryptField_def Encrypt_def demo_stack_def)
  have f: "\<exists>old. tbl_find st_id ''s1'' (t_stacks demo_db) = Some old \<and> st_created old = 1 \<and> t_stacks demo_db = [old]
      \<and> st_id old = ''s1''"
    by (simp add: demo_db_def CreateStack_def empty_db_def encrypt_stack_def encryptField_def Encrypt_def demo_stack_def
        tbl_find_def)
  then obtain old where old: "tbl_find st_id ''s1'' (t_stacks demo_db) = Some old" "st_created old = 1"
    "t_stacks demo_db = [old]" "st_id old = ''s1''" by blast
  have u: "UpdateStack 9 (Some ''xy'') (Some ''zt'') ?st demo_db
      = (None, snd (UpdateStack 9 (Some ''xy'') (Some ''zt'') ?st demo_db))"
    using c old by (simp add: UpdateStack_def encrypt_stack_def encryptField_def Encrypt_def demo_stack_def)
  have "GetStack (st_id ?st) (snd (UpdateStack 9 (Some ''xy'') (Some ''zt'') ?st demo_db))
      = Inr (Some (?st\<lparr>st_updated := 9, st_created := st_created old\<rparr>))"
    using update_get_stack[OF demo_aead_ok c _ _ _ u] old by (simp add: demo_aead_def demo_stack_def)
  then show ?thesis using old by (intro exI) (simp add: demo_stack_def)
qed

section \<open>Secrets as a map\<close>

text \<open>The abstract view of a stack's secrets: a map from names to values in plain.\<close>

definition secret_view :: "string \<Rightarrow> db \<Rightarrow> string \<Rightarrow> string option" where
  "secret_view s d n = (case tbl_find sec_key (s, n) (t_secrets d) of
      None \<Rightarrow> None
    | Some r \<Rightarrow> (case decryptField d (sec_value r) of Inr v \<Rightarrow> Some v | Inl _ \<Rightarrow> None))"

lemma upsert_secret_view:
  assumes "aead_ok a" "cipher d = Some a" "length n = NonceSize a"
  shows "\<exists>d'. UpsertStackSecret now (Some n) sec d = (None, d')
     \<and> secret_view s d' = (if s = sec_stack sec then (secret_view s d)(sec_name sec \<mapsto> sec_value sec) else secret_view s d)"
proof -
  obtain v where v: "encryptField d (Some n) (sec_value sec) = Inr v" "Decrypt (Some a) v = Inr (sec_value sec)"
    using encryptField_some[OF assms] by blast
  let ?row = "sec\<lparr>sec_value := v, sec_created := (if sec_created sec = 0 then now else sec_created sec), sec_updated := now\<rparr>"
  have k: "sec_key ?row = (sec_stack sec, sec_name sec)" by (simp add: sec_key_def)
  have "UpsertStackSecret now (Some n) sec d = (None, d\<lparr>t_secrets := tbl_upsert sec_key merge_secret ?row (t_secrets d)\<rparr>)"
    by (simp add: UpsertStackSecret_def v(1))
  moreover have "secret_view s (d\<lparr>t_secrets := tbl_upsert sec_key merge_secret ?row (t_secrets d)\<rparr>) m =
      (if s = sec_stack sec \<and> m = sec_name sec then Some (sec_value sec) else secret_view s d m)" for m
    using v(2) assms(2)
    by (simp add: secret_view_def secrets_table.lookup_upsert k decryptField_def merge_secret_def split: option.split)
  ultimately show ?thesis by (intro exI conjI) (auto simp: fun_eq_iff)
qed

lemma decryptField_cong [simp]:
  "decryptField (d\<lparr>t_secrets := x\<rparr>) = decryptField d"
  "decryptField (d\<lparr>t_secrets := x, t_registries := y, t_stacks := z\<rparr>) = decryptField d"
  by (simp_all add: fun_eq_iff decryptField_def)

lemma delete_secret_view:
  "secret_view s (snd (DeleteStackSecret s' n d)) = (if s = s' then (secret_view s d)(n := None) else secret_view s d)"
  by (auto simp: fun_eq_iff secret_view_def DeleteStackSecret_def secrets_table.lookup_remove split: option.split)

lemma delete_stack_secret_view:
  "secret_view s (snd (DeleteStack s' d)) = (if s = s' then Map.empty else secret_view s d)"
proof -
  have "tbl_find sec_key (s, n) (filter (\<lambda>r. sec_stack r \<noteq> s') rows) =
      (if s = s' then None else tbl_find sec_key (s, n) rows)" for n rows
    by (induction rows) (auto simp: tbl_find_def sec_key_def)
  then show ?thesis by (auto simp: fun_eq_iff secret_view_def DeleteStack_def split: option.split)
qed

text \<open>C39. The secrets of a stack behave as a map: setting a secret sets its name to exactly the value given and leaves
  every other name and every other stack alone, deleting one unsets it, and deleting a stack unsets all of its
  secrets and nobody else's.\<close>

theorem secrets_are_a_map:
  assumes "aead_ok a" "cipher d = Some a" "length n = NonceSize a"
  shows "(\<exists>d'. UpsertStackSecret now (Some n) sec d = (None, d')
      \<and> secret_view s d' = (if s = sec_stack sec then (secret_view s d)(sec_name sec \<mapsto> sec_value sec) else secret_view s d))
    \<and> secret_view s (snd (DeleteStackSecret s' m d)) = (if s = s' then (secret_view s d)(m := None) else secret_view s d)
    \<and> secret_view s (snd (DeleteStack s' d)) = (if s = s' then Map.empty else secret_view s d)"
  using upsert_secret_view[OF assms, of now sec s] delete_secret_view delete_stack_secret_view by blast

lemma secrets_are_a_map_witness:
  "\<exists>d'. UpsertStackSecret 3 (Some ''ab'') demo_secret (empty_db (Some demo_aead)) = (None, d')
     \<and> secret_view ''s1'' d' ''TOKEN'' = Some ''hunter2''"
proof -
  have c: "cipher (empty_db (Some demo_aead)) = Some demo_aead" "length ''ab'' = NonceSize demo_aead"
    by (simp_all add: empty_db_def demo_aead_def)
  obtain d' where "UpsertStackSecret 3 (Some ''ab'') demo_secret (empty_db (Some demo_aead)) = (None, d')"
    "secret_view ''s1'' d' = (if ''s1'' = sec_stack demo_secret
       then (secret_view ''s1'' (empty_db (Some demo_aead)))(sec_name demo_secret \<mapsto> sec_value demo_secret)
       else secret_view ''s1'' (empty_db (Some demo_aead)))"
    using secrets_are_a_map[OF demo_aead_ok c, of 3 demo_secret "''s1''"] by blast
  then show ?thesis by (intro exI[of _ d']) (simp add: demo_secret_def)
qed

section \<open>Retention\<close>

lemma cleanup_keeps:
  "set (t_deployments (snd (CleanupOldDeployments now age d))) =
     {p \<in> set (t_deployments d). \<not> cleanable (now - age) p}"
  by (auto simp: CleanupOldDeployments_def Let_def)

lemma cleanup_keeps_approvals:
  "ListPendingApprovals (snd (CleanupOldDeployments now age d)) = ListPendingApprovals d"
proof -
  have "filter (\<lambda>p. dp_status p = DeploymentPendingApproval) (filter (\<lambda>p. \<not> cleanable c p) ps) =
      filter (\<lambda>p. dp_status p = DeploymentPendingApproval) ps" for c ps
    by (induction ps) (auto simp: cleanable_def status_defs)
  then show ?thesis by (simp add: ListPendingApprovals_def CleanupOldDeployments_def Let_def)
qed

lemma audit_list_props:
  "set (ListAuditEntries f d) \<subseteq> {e \<in> set (t_audit d). audit_matches f e}"
  "length (ListAuditEntries f d) \<le> 1000"
  "sorted (List.map (\<lambda>e. - ae_timestamp e) (ListAuditEntries f d))"
proof -
  show "set (ListAuditEntries f d) \<subseteq> {e \<in> set (t_audit d). audit_matches f e}"
    by (auto simp: ListAuditEntries_def dest: in_set_takeD)
  show "length (ListAuditEntries f d) \<le> 1000"
    by (auto simp: ListAuditEntries_def audit_limit_def maxAuditListLimit_def Let_def)
  have "sorted (List.map (\<lambda>e. - ae_timestamp e) (sort_key (\<lambda>e. - ae_timestamp e) xs))" for xs by simp
  then show "sorted (List.map (\<lambda>e. - ae_timestamp e) (ListAuditEntries f d))"
    unfolding ListAuditEntries_def take_map[symmetric] by (rule sorted_wrt_take)
qed

text \<open>The newest pending approval is one, and there is none exactly when no row of the stack is pending approval.\<close>

lemma GetPendingApproval_None:
  "GetPendingApproval s d = None \<longleftrightarrow>
     (\<forall>p \<in> set (t_deployments d). \<not> (dp_stack p = s \<and> dp_status p = DeploymentPendingApproval))"
proof -
  have e: "newest_first ps = [] \<longleftrightarrow> ps = []" for ps
    by (metis newest_first_def length_0_conv length_sort)
  have "GetPendingApproval s d = None \<longleftrightarrow>
      newest_first (filter (\<lambda>p. dp_stack p = s \<and> dp_status p = DeploymentPendingApproval) (t_deployments d)) = []"
    by (simp add: GetPendingApproval_def split: list.split)
  then show ?thesis by (simp add: e filter_empty_conv)
qed

text \<open>A plaintext credential that starts with an upper-case V1: counts as encrypted for the migration, though Decrypt
  treats it as plaintext.\<close>

lemma like_is_case_insensitive: "like_v1 ''V1:secret'' \<and> IsPlaintext ''V1:secret''"
  by code_simp

end
