(* ===== verification/Compose_Types.thy ===== *)
theory Compose_Types
  imports Prelude "HOL-Library.Multiset"
begin

text \<open>
  internal/service/types.go: the fields of a compose file the deployer reads, and the decoders of its short and long
  forms. The YAML library hands a decoder a function that tries to decode the node into a Go type; a decoder here
  takes the results of the attempts it makes, each a value or an error. A Go map that a loop ranges over comes as the
  list of its entries in the order of that iteration, which Go leaves open.
\<close>

section \<open>Data\<close>

record deploy_config =
  Replicas :: "int option"
  dc_mode :: string

record logging_config =
  lg_driver :: string
  lg_options :: "(string \<times> string) list"

record dependency_config =
  Condition :: string
  dep_required :: "bool option"
  dep_restart :: bool

type_synonym dependencies = "(string \<times> dependency_config) list"

record health_check =
  hc_test :: "string list"
  hc_interval :: string
  hc_timeout :: string
  hc_retries :: int
  hc_start_period :: string

record compose_service =
  cs_image :: string
  cs_environment :: "string list"
  cs_env_file :: "string list"
  cs_ports :: "string list"
  cs_volumes :: "string list"
  cs_command :: "string list"
  cs_entrypoint :: "string list"
  cs_working_dir :: string
  cs_user :: string
  cs_hostname :: string
  cs_domainname :: string
  cs_expose :: "string list"
  cs_labels :: "(string \<times> string) list"
  cs_healthcheck :: health_check
  cs_networks :: "string list"
  cs_depends_on :: dependencies
  cs_restart :: string
  cs_mem_limit :: string
  cs_cpu_limit :: string
  cs_dns :: "string list"
  cs_dns_search :: "string list"
  cs_extra_hosts :: "string list"
  cs_cap_add :: "string list"
  cs_cap_drop :: "string list"
  cs_privileged :: bool
  cs_tmpfs :: "(string \<times> string) list"
  cs_shm_size :: string
  cs_init :: "bool option"
  cs_stop_grace :: string
  cs_stop_signal :: string
  cs_pull_policy :: string
  cs_logging :: "logging_config option"
  cs_deploy :: deploy_config

definition empty_service :: compose_service where
  "empty_service = \<lparr>cs_image = [], cs_environment = [], cs_env_file = [], cs_ports = [], cs_volumes = [], cs_command = [],
     cs_entrypoint = [], cs_working_dir = [], cs_user = [], cs_hostname = [], cs_domainname = [], cs_expose = [],
     cs_labels = [], cs_healthcheck = \<lparr>hc_test = [], hc_interval = [], hc_timeout = [], hc_retries = 0, hc_start_period = []\<rparr>,
     cs_networks = [], cs_depends_on = [], cs_restart = [], cs_mem_limit = [], cs_cpu_limit = [], cs_dns = [],
     cs_dns_search = [], cs_extra_hosts = [], cs_cap_add = [], cs_cap_drop = [], cs_privileged = False, cs_tmpfs = [],
     cs_shm_size = [], cs_init = None, cs_stop_grace = [], cs_stop_signal = [], cs_pull_policy = [], cs_logging = None,
     cs_deploy = \<lparr>Replicas = None, dc_mode = []\<rparr>\<rparr>"

section \<open>Services\<close>

definition DesiredReplicas :: "compose_service \<Rightarrow> int" where
  "DesiredReplicas s = (case Replicas (cs_deploy s) of None \<Rightarrow> 1 | Some n \<Rightarrow> if n \<le> 0 then 1 else n)"

definition port_base :: "string \<Rightarrow> string" where
  "port_base p = (case index_byte p CHR ''/'' of Some i \<Rightarrow> take i p | None \<Rightarrow> p)"

definition HasStaticPublishedPort :: "compose_service \<Rightarrow> bool" where
  "HasStaticPublishedPort s \<longleftrightarrow> list_ex (\<lambda>p. CHR '':'' \<in> set (port_base p)) (cs_ports s)"

lemma DesiredReplicas_pos: "1 \<le> DesiredReplicas s"
  by (simp add: DesiredReplicas_def split: option.split)

section \<open>Decoders\<close>

text \<open>A value at a Go interface{}: the YAML library gives nil, strings, ints, maps or something else (with its type's name).\<close>

datatype any = ANull | AStr string | AInt int | AMap "(string \<times> any) list" | AOther string

record long_port =
  lp_target :: int
  lp_published :: "any option"
  lp_protocol :: string
  lp_host_ip :: string

fun any_type :: "any \<Rightarrow> string" where
  "any_type ANull = ''<nil>''"
| "any_type (AStr s) = ''string''"
| "any_type (AInt n) = ''int''"
| "any_type (AMap m) = ''map[interface {}]interface {}''"
| "any_type (AOther t) = t"

text \<open>The prefix toShortForm builds for the published port, or its error.\<close>

fun published_text :: "any option \<Rightarrow> string res" where
  "published_text None = Inr []"
| "published_text (Some (AInt n)) = Inr ((if n \<noteq> 0 then dec_int n else []) @ '':'')"
| "published_text (Some (AStr s)) = Inr (s @ '':'')"
| "published_text (Some v) = Inl (ErrText (''published must be int or string, got '' @ any_type v))"

definition toShortForm :: "long_port \<Rightarrow> string res" where
  "toShortForm l =
     (if lp_target l = 0 then Inl (ErrText ''target is required'')
      else case published_text (lp_published l) of
        Inl e \<Rightarrow> Inl e
      | Inr pub \<Rightarrow>
        if lp_host_ip l \<noteq> [] \<and> lp_published l = None then Inl (ErrText ''host_ip requires published to be set'')
        else Inr ((if lp_host_ip l \<noteq> [] then lp_host_ip l @ '':'' else []) @ pub @ dec_int (lp_target l)
                  @ (if lp_protocol l \<noteq> [] then ''/'' @ lp_protocol l else [])))"

definition long_port_of :: "(string \<times> any) list \<Rightarrow> long_port res" where
  "long_port_of v =
     (let str = (\<lambda>k. case map_of v k of Some (AStr s) \<Rightarrow> s | _ \<Rightarrow> []);
          lp = (\<lambda>t. \<lparr>lp_target = t, lp_published = (case map_of v ''published'' of Some ANull \<Rightarrow> None | q \<Rightarrow> q), lp_protocol = str ''protocol'', lp_host_ip = str ''host_ip''\<rparr>)
      in case map_of v ''target'' of
           None \<Rightarrow> Inr (lp 0)
         | Some (AInt n) \<Rightarrow> Inr (lp n)
         | Some t \<Rightarrow> Inl (ErrText (''ports: target must be int, got '' @ any_type t)))"

fun port_entry :: "any \<Rightarrow> string res" where
  "port_entry (AStr v) = Inr v"
| "port_entry (AInt n) = Inr (dec_int n)"
| "port_entry (AMap v) =
     (case long_port_of v of
        Inl e \<Rightarrow> Inl e
      | Inr lp \<Rightarrow> (case toShortForm lp of Inl e \<Rightarrow> Inl (ErrWrap ''ports: '' e) | Inr s \<Rightarrow> Inr s))"
| "port_entry x = Inl (ErrText (''ports entry must be a string, int, or map, got '' @ any_type x))"

fun ports_unmarshal_loop :: "any list \<Rightarrow> string list \<Rightarrow> string list res" where
  "ports_unmarshal_loop [] acc = Inr acc"
| "ports_unmarshal_loop (x # xs) acc =
     (case port_entry x of Inl e \<Rightarrow> Inl e | Inr s \<Rightarrow> ports_unmarshal_loop xs (acc @ [s]))"

definition ports_unmarshal :: "any list res \<Rightarrow> string list res" where
  "ports_unmarshal raw = (case raw of
      Inl e \<Rightarrow> Inl (ErrWrap ''ports must be a list: '' e)
    | Inr entries \<Rightarrow> ports_unmarshal_loop entries [])"

definition envvars_unmarshal :: "string list res \<Rightarrow> (string \<times> string) list res \<Rightarrow> string list res" where
  "envvars_unmarshal as_list as_map =
     (case as_list of Inr raw \<Rightarrow> Inr raw
      | Inl _ \<Rightarrow>
        (case as_map of Inr m \<Rightarrow> Inr (List.map (\<lambda>(k, v). k @ ''='' @ v) m)
         | Inl _ \<Rightarrow> Inl (ErrText ''failed to unmarshal environment variables'')))"

text \<open>strings.Fields on ASCII white space.\<close>

definition is_field_space :: "char \<Rightarrow> bool" where
  "is_field_space c \<longleftrightarrow> c \<in> {CHR 0x09, CHR 0x0A, CHR 0x0B, CHR 0x0C, CHR 0x0D, CHR 0x20}"

fun fields_loop :: "string \<Rightarrow> string \<Rightarrow> string list" where
  "fields_loop cur [] = (if cur = [] then [] else [cur])"
| "fields_loop cur (c # s) =
     (if is_field_space c then (if cur = [] then [] else [cur]) @ fields_loop [] s else fields_loop (cur @ [c]) s)"

definition fields :: "string \<Rightarrow> string list" where "fields s = fields_loop [] s"

definition command_unmarshal :: "string list res \<Rightarrow> string res \<Rightarrow> string list res" where
  "command_unmarshal as_list as_str =
     (case as_list of Inr l \<Rightarrow> Inr l
      | Inl _ \<Rightarrow> (case as_str of Inr s \<Rightarrow> Inr (fields s)
         | Inl _ \<Rightarrow> Inl (ErrText ''failed to unmarshal command/entrypoint: must be a string or list of strings'')))"

definition stringlist_unmarshal :: "string list res \<Rightarrow> string res \<Rightarrow> string list res" where
  "stringlist_unmarshal as_list as_str =
     (case as_list of Inr l \<Rightarrow> Inr l
      | Inl _ \<Rightarrow> (case as_str of Inr s \<Rightarrow> Inr (if s = [] then [] else [s])
         | Inl _ \<Rightarrow> Inl (ErrText ''failed to unmarshal string list'')))"

fun expose_entries :: "any list \<Rightarrow> string list res" where
  "expose_entries [] = Inr []"
| "expose_entries (v # vs) =
     (case (case v of AStr s \<Rightarrow> Inr s | AInt n \<Rightarrow> Inr (dec_int n)
                | _ \<Rightarrow> Inl (ErrText (''expose entry must be a string or int, got '' @ any_type v))) of
        Inl e \<Rightarrow> Inl e
      | Inr s \<Rightarrow> (case expose_entries vs of Inl e \<Rightarrow> Inl e | Inr ss \<Rightarrow> Inr (s # ss)))"

definition expose_unmarshal :: "any list res \<Rightarrow> string list res" where
  "expose_unmarshal raw = (case raw of Inl e \<Rightarrow> Inl (ErrWrap ''expose must be a list: '' e) | Inr l \<Rightarrow> expose_entries l)"

definition extra_hosts_unmarshal :: "string list res \<Rightarrow> (string \<times> string) list res \<Rightarrow> string list res" where
  "extra_hosts_unmarshal as_list as_map =
     (case as_list of Inr l \<Rightarrow> Inr l
      | Inl _ \<Rightarrow> (case as_map of Inr m \<Rightarrow> Inr (List.map (\<lambda>(h, i). h @ '':'' @ i) m)
         | Inl _ \<Rightarrow> Inl (ErrText ''extra_hosts must be a list of \"host:ip\" strings or a map'')))"

text \<open>tmpfs: the entries assigned to the map, in order.\<close>

definition tmpfs_unmarshal :: "string res \<Rightarrow> string list res \<Rightarrow> (string \<times> string) list res \<Rightarrow> (string \<times> string) list res" where
  "tmpfs_unmarshal as_str as_list as_map =
     (case as_str of
        Inr (c # s) \<Rightarrow> Inr [(c # s, [])]
      | _ \<Rightarrow> (case as_list of
                Inr l \<Rightarrow> Inr (List.map (\<lambda>p. (p, [])) l)
              | Inl _ \<Rightarrow> (case as_map of Inr m \<Rightarrow> Inr m
                  | Inl _ \<Rightarrow> Inl (ErrText ''tmpfs must be a string, list, or map''))))"

definition DependencyConditionStarted :: string where "DependencyConditionStarted = ''service_started''"
definition DependencyConditionHealthy :: string where "DependencyConditionHealthy = ''service_healthy''"
definition DependencyConditionCompletedOK :: string where "DependencyConditionCompletedOK = ''service_completed_successfully''"

text \<open>depends_on: one entry per name, the last of a repeated name.\<close>

definition dependencies_unmarshal :: "string list res \<Rightarrow> dependencies res \<Rightarrow> dependencies res" where
  "dependencies_unmarshal as_list as_map =
     (case as_list of
        Inr l \<Rightarrow> Inr (List.map (\<lambda>n. (n, \<lparr>Condition = DependencyConditionStarted, dep_required = None, dep_restart = False\<rparr>))
                      (remdups l))
      | Inl _ \<Rightarrow> (case as_map of
          Inr raw \<Rightarrow> Inr (List.map (\<lambda>(n, cfg). (n, if Condition cfg = [] then cfg\<lparr>Condition := DependencyConditionStarted\<rparr> else cfg)) raw)
        | Inl _ \<Rightarrow> Inl (ErrText ''depends_on must be a list of service names or a map of name -> config'')))"

section \<open>Names\<close>

text \<open>The insertion sort of Names: the inner loop moves the element at j down while its left neighbour is greater,
  the outer loop runs i from 1. The argument is the list of the keys in the order the map iteration gives them.\<close>

fun sift_down :: "nat \<Rightarrow> string list \<Rightarrow> string list" where
  "sift_down 0 xs = xs"
| "sift_down (Suc j) xs =
     (if xs ! j > xs ! Suc j then sift_down j (xs[j := xs ! Suc j, Suc j := xs ! j]) else xs)"

definition Names_loop :: "string list \<Rightarrow> string list" where
  "Names_loop names = foldl (\<lambda>xs i. sift_down i xs) names [1..<length names]"

definition Names :: "dependencies \<Rightarrow> string list" where
  "Names d = Names_loop (List.map fst d)"

lemma insort_snoc:
  "sorted (ys @ [y]) \<Longrightarrow> insort x (ys @ [y]) = (if x < y then insort x ys @ [y] else ys @ [y, x])"
proof -
  assume s: "sorted (ys @ [y])"
  let ?r = "if x < y then insort x ys @ [y] else ys @ [y, x]"
  have r: "sorted ?r" using s by (auto simp: sorted_append sorted_insort set_insort_key)
  have "sort ?r = insort x (ys @ [y])"
    using s by (intro properties_for_sort) (simp_all add: sorted_insort)
  from this sorted_sort_id[OF r] show ?thesis by (rule trans[OF sym])
qed

lemma sift_down_insort:
  "sorted (take j xs) \<Longrightarrow> j < length xs \<Longrightarrow>
     sift_down j xs = insort (xs ! j) (take j xs) @ drop (Suc j) xs"
proof (induction j arbitrary: xs)
  case 0
  then show ?case by (cases xs) auto
next
  case (Suc j)
  have t: "take (Suc j) xs = take j xs @ [xs ! j]" using Suc.prems(2) by (simp add: take_Suc_conv_app_nth)
  have s: "sorted (take j xs @ [xs ! j])" using Suc.prems(1) t by simp
  show ?case
  proof (cases "xs ! j > xs ! Suc j")
    case True
    let ?ys = "xs[j := xs ! Suc j, Suc j := xs ! j]"
    have "sorted (take j ?ys)" "?ys ! j = xs ! Suc j" "take j ?ys = take j xs"
      using s Suc.prems(2) by (simp_all add: sorted_append)
    moreover have "drop (Suc j) ?ys = xs ! j # drop (Suc (Suc j)) xs"
      using Suc.prems(2) by (subst Cons_nth_drop_Suc[symmetric]) simp_all
    ultimately have "sift_down j ?ys = insort (xs ! Suc j) (take j xs) @ xs ! j # drop (Suc (Suc j)) xs"
      using Suc.IH[of ?ys] Suc.prems(2) by simp
    then show ?thesis using True insort_snoc[OF s, of "xs ! Suc j"] t by simp
  next
    case False
    have "drop (Suc j) xs = xs ! Suc j # drop (Suc (Suc j)) xs" using Suc.prems(2) by (metis Cons_nth_drop_Suc)
    moreover have "xs = take j xs @ xs ! j # drop (Suc j) xs"
      using Suc.prems(2) by (intro id_take_nth_drop) simp
    ultimately have "xs = (take j xs @ [xs ! j, xs ! Suc j]) @ drop (Suc (Suc j)) xs" by simp
    then show ?thesis using False insort_snoc[OF s, of "xs ! Suc j"] t by simp
  qed
qed

lemma Names_loop_prefix:
  "1 \<le> k \<Longrightarrow> k \<le> length names \<Longrightarrow>
     (let xs = foldl (\<lambda>xs i. sift_down i xs) names [1..<k]
      in sorted (take k xs) \<and> mset xs = mset names \<and> length xs = length names)"
proof (induction k)
  case (Suc k)
  show ?case
  proof (cases "k = 0")
    case True
    then show ?thesis by (cases names) auto
  next
    case False
    let ?xs = "foldl (\<lambda>xs i. sift_down i xs) names [1..<k]"
    have IH: "sorted (take k ?xs)" "mset ?xs = mset names" "length ?xs = length names"
      using Suc False by (simp_all add: Let_def)
    have k: "k < length ?xs" using IH(3) Suc.prems(2) by simp
    have step: "sift_down k ?xs = insort (?xs ! k) (take k ?xs) @ drop (Suc k) ?xs"
      by (rule sift_down_insort[OF IH(1) k])
    have "mset (sift_down k ?xs) = mset (take k ?xs @ ?xs ! k # drop (Suc k) ?xs)" unfolding step by simp
    also have "\<dots> = mset ?xs" using id_take_nth_drop[OF k] by simp
    finally have m: "mset (sift_down k ?xs) = mset names" using IH(2) by simp
    have "sorted (take (Suc k) (sift_down k ?xs))"
      unfolding step using IH(1) k by (simp add: sorted_insort)
    then show ?thesis using m False mset_eq_length[OF m] by (simp add: Let_def)
  qed
qed simp

text \<open>Names returns the dependency names sorted, whatever order the map iteration gives them in: the in-place
  insertion sort is the sort of the library, so two iterations of the same map give the same list.\<close>

lemma Names_sorted:
  "Names d = sort (List.map fst d)"
proof (cases "d = []")
  case True
  then show ?thesis by (simp add: Names_def Names_loop_def)
next
  case False
  let ?n = "List.map fst d"
  have "sorted (take (length ?n) (Names_loop ?n)) \<and> mset (Names_loop ?n) = mset ?n \<and> length (Names_loop ?n) = length ?n"
  proof -
    have "1 \<le> length ?n" using False by (cases d) auto
    from Names_loop_prefix[OF this order_refl] show ?thesis by (simp only: Names_loop_def Let_def)
  qed
  then show ?thesis unfolding Names_def by (metis properties_for_sort take_all order_refl)
qed

lemma set_Names [simp]: "set (Names d) = fst ` set d"
  by (simp add: Names_sorted)

end
