(* ===== verification/Ports.thy ===== *)
theory Ports
  imports Compose_Types
begin

text \<open>
  internal/utils/utils.go: parsePortSpec and MapPorts, from the port strings of a compose file to Docker's port bindings
  and exposed ports, and mergeExposedPorts and parseDNSAddrs of internal/stack/deployer.go. The parsers of ports
  (Docker's ParsePort) and of IP addresses (netip.ParseAddr) are arguments, each a partial function; a port map is a
  function from ports to their bindings, a port set the set of its keys.
\<close>

section \<open>Port specifications\<close>

record port_spec =
  hostIP :: string
  hostPort :: string
  containerPort :: string
  ps_proto :: string

text \<open>The protocol suffix and what is before it: a tail that is not a number and has no colon or bracket.\<close>

definition split_proto :: "string \<Rightarrow> string \<times> string" where
  "split_proto s = (case last_index_byte s CHR ''/'' of
      None \<Rightarrow> (''tcp'', s)
    | Some i \<Rightarrow>
        let rest = drop (Suc i) s in
        if atoi rest = None \<and> rest \<noteq> [] \<and> \<not> list_ex (\<lambda>c. c \<in> set '':[]'') rest then (rest, take i s) else (''tcp'', s))"

definition too_many :: string where
  "too_many = ''too many '' @ [CHR 0x27, CHR '':'', CHR 0x27] @ '' separators''"

definition parsePortSpec :: "string \<Rightarrow> port_spec res" where
  "parsePortSpec s0 =
     (let (proto, s) = split_proto s0;
          mk = (\<lambda>ip hp cp. if cp = [] then Inl (ErrText ''missing container port'')
                 else Inr \<lparr>hostIP = ip, hostPort = hp, containerPort = cp, ps_proto = proto\<rparr>)
      in case split_on CHR '':'' s of
           [c] \<Rightarrow> mk [] [] c
         | [h, c] \<Rightarrow> mk [] h c
         | [i, h, c] \<Rightarrow> mk i h c
         | _ \<Rightarrow> Inl (ErrText too_many))"

text \<open>One round of the loop of MapPorts.\<close>

type_synonym ('p, 'a) port_maps = "('p \<Rightarrow> ('a \<times> string) list) \<times> 'p set"

definition map_port :: "(string \<Rightarrow> 'p option) \<Rightarrow> (string \<Rightarrow> 'a option) \<Rightarrow> 'a \<Rightarrow> ('p, 'a) port_maps \<Rightarrow> string \<Rightarrow> ('p, 'a) port_maps" where
  "map_port ParsePort ParseAddr defaultHostIP st raw =
     (case parsePortSpec raw of
        Inl _ \<Rightarrow> st
      | Inr spec \<Rightarrow>
        (case ParsePort (containerPort spec @ ''/'' @ ps_proto spec) of
           None \<Rightarrow> st
         | Some port \<Rightarrow>
           let st = (fst st, insert port (snd st)) in
           if hostPort spec = [] then st
           else case (if hostIP spec \<noteq> [] then ParseAddr (hostIP spec) else Some defaultHostIP) of
                  None \<Rightarrow> st
                | Some ip \<Rightarrow> ((fst st)(port := fst st port @ [(ip, hostPort spec)]), snd st)))"

definition MapPorts :: "(string \<Rightarrow> 'p option) \<Rightarrow> (string \<Rightarrow> 'a option) \<Rightarrow> 'a \<Rightarrow> string list \<Rightarrow> ('p, 'a) port_maps" where
  "MapPorts ParsePort ParseAddr defaultHostIP ports = foldl (map_port ParsePort ParseAddr defaultHostIP) (\<lambda>_. [], {}) ports"

definition mergeExposedPorts :: "(string \<Rightarrow> 'p option) \<Rightarrow> 'p set \<Rightarrow> string list \<Rightarrow> 'p set" where
  "mergeExposedPorts ParsePort exposed entries =
     foldl (\<lambda>ex raw. case ParsePort (if CHR ''/'' \<notin> set raw then raw @ ''/tcp'' else raw) of
                None \<Rightarrow> ex | Some port \<Rightarrow> insert port ex) exposed entries"

definition parseDNSAddrs :: "(string \<Rightarrow> 'a option) \<Rightarrow> string list \<Rightarrow> 'a list" where
  "parseDNSAddrs ParseAddr entries = List.map_filter (\<lambda>raw. ParseAddr (trim_space raw)) entries"

section \<open>Long and short forms\<close>

lemma last_index_byte_append:
  "c \<notin> set r \<Longrightarrow> last_index_byte (p @ c # r) c = Some (length p)"
  by (simp add: last_index_byte_def index_byte_append)

lemma last_index_byte_none: "c \<notin> set s \<Longrightarrow> last_index_byte s c = None"
  using index_byte_None[of "rev s" c] by (simp add: last_index_byte_def)

definition plain_proto :: "string \<Rightarrow> bool" where
  "plain_proto p \<longleftrightarrow> p \<noteq> [] \<and> atoi p = None \<and> CHR ''/'' \<notin> set p \<and> (\<forall>c \<in> set p. c \<notin> set '':[]'')"

lemma split_proto_some: "plain_proto p \<Longrightarrow> split_proto (s @ CHR ''/'' # p) = (p, s)"
  by (auto simp: split_proto_def plain_proto_def last_index_byte_append list_ex_iff)

lemma split_proto_none: "CHR ''/'' \<notin> set s \<Longrightarrow> split_proto s = (''tcp'', s)"
  by (simp add: split_proto_def last_index_byte_none)

lemma split_on_length: "length (split_on c s) = Suc (count_list s c)"
  by (induction s) (auto split: list.splits)

definition published_port :: "any option \<Rightarrow> string" where
  "published_port v = (case v of Some (AInt n) \<Rightarrow> if n = 0 then [] else dec_int n | Some (AStr s) \<Rightarrow> s | _ \<Rightarrow> [])"

lemma published_text_Inr:
  "published_text v = Inr t \<Longrightarrow> t = (if v = None then [] else published_port v @ '':'')"
  by (cases v rule: published_text.cases) (auto simp: published_port_def)

lemma toShortForm_shape:
  assumes "toShortForm l = Inr s"
  shows "lp_target l \<noteq> 0 \<and> (lp_host_ip l \<noteq> [] \<longrightarrow> lp_published l \<noteq> None)
    \<and> s = (if lp_host_ip l \<noteq> [] then lp_host_ip l @ '':'' else []) @
        (if lp_published l = None then [] else published_port (lp_published l) @ '':'') @ dec_int (lp_target l)
        @ (if lp_protocol l \<noteq> [] then ''/'' @ lp_protocol l else [])"
  using assms published_text_Inr[of "lp_published l"]
  by (auto simp: toShortForm_def split: sum.splits if_splits)

lemma dec_int_plain: "CHR '':'' \<notin> set (dec_int n)" "CHR ''/'' \<notin> set (dec_int n)" "dec_int n \<noteq> []"
proof -
  have "\<forall>c \<in> set (dec_nat k). is_digit_char c" for k using dec_nat_digits[of k] by (simp add: list_all_iff)
  moreover have "\<not> is_digit_char CHR '':''" "\<not> is_digit_char CHR ''/''"
    by (simp_all add: is_digit_char_def less_eq_char_def)
  ultimately show "CHR '':'' \<notin> set (dec_int n)" "CHR ''/'' \<notin> set (dec_int n)" "dec_int n \<noteq> []"
    by (auto simp: dec_int_def)
qed

definition no_seps :: "string \<Rightarrow> bool" where
  "no_seps s \<longleftrightarrow> CHR '':'' \<notin> set s \<and> CHR ''/'' \<notin> set s"

text \<open>The long form of a port means what it says: the short string toShortForm builds is parsed by parsePortSpec
  into the same host address, published port, container port and protocol (tcp when none is given), as long as the
  address and published port have no colon or slash and the protocol is a word.\<close>

theorem port_long_form_roundtrip:
  assumes "toShortForm l = Inr s" "no_seps (lp_host_ip l)" "no_seps (published_port (lp_published l))"
    "lp_protocol l = [] \<or> plain_proto (lp_protocol l)"
  shows "parsePortSpec s = Inr \<lparr>hostIP = lp_host_ip l, hostPort = published_port (lp_published l),
      containerPort = dec_int (lp_target l), ps_proto = (if lp_protocol l = [] then ''tcp'' else lp_protocol l)\<rparr>"
proof -
  define b where "b = (if lp_host_ip l \<noteq> [] then lp_host_ip l @ '':'' else []) @
        (if lp_published l = None then [] else published_port (lp_published l) @ '':'') @ dec_int (lp_target l)"
  have s: "s = b @ (if lp_protocol l \<noteq> [] then ''/'' @ lp_protocol l else [])"
    and sh: "lp_host_ip l \<noteq> [] \<longrightarrow> lp_published l \<noteq> None"
    using toShortForm_shape[OF assms(1)] by (simp_all add: b_def)
  have nb: "CHR ''/'' \<notin> set b" using assms(2,3) by (auto simp: b_def no_seps_def dec_int_plain)
  have "split_proto s = (if lp_protocol l = [] then ''tcp'' else lp_protocol l, b)"
    using assms(4) nb split_proto_some[of "lp_protocol l" b] split_proto_none[of b] by (auto simp: s)
  moreover have "split_on CHR '':'' b =
      (if lp_published l = None then [dec_int (lp_target l)]
       else if lp_host_ip l = [] then [published_port (lp_published l), dec_int (lp_target l)]
       else [lp_host_ip l, published_port (lp_published l), dec_int (lp_target l)])"
    using assms(2,3) sh by (auto simp: b_def no_seps_def split_on_append split_on_no_sep dec_int_plain)
  moreover have "lp_published l = None \<Longrightarrow> published_port (lp_published l) = []"
    by (simp add: published_port_def)
  ultimately show ?thesis using sh by (auto simp: parsePortSpec_def Let_def dec_int_plain)
qed

text \<open>Decimal digits, for evaluations.\<close>

lemma digits09:
  "digit_char 0 = CHR ''0''" "digit_char (Suc 0) = CHR ''1''" "digit_char 2 = CHR ''2''" "digit_char 3 = CHR ''3''"
  "digit_char 4 = CHR ''4''" "digit_char 5 = CHR ''5''" "digit_char 6 = CHR ''6''" "digit_char 7 = CHR ''7''"
  "digit_char 8 = CHR ''8''" "digit_char 9 = CHR ''9''"
  by code_simp+

definition demo_long_port :: long_port where
  "demo_long_port = \<lparr>lp_target = 80, lp_published = Some (AInt 8080), lp_protocol = ''udp'', lp_host_ip = ''127.0.0.1''\<rparr>"

lemma port_long_form_roundtrip_witness:
  "parsePortSpec ''127.0.0.1:8080:80/udp''
     = Inr \<lparr>hostIP = ''127.0.0.1'', hostPort = ''8080'', containerPort = ''80'', ps_proto = ''udp''\<rparr>"
proof -
  have 1: "toShortForm demo_long_port = Inr ''127.0.0.1:8080:80/udp''"
    by (simp add: toShortForm_def demo_long_port_def dec_int_def dec_nat.simps digits09)
  have 2: "no_seps (lp_host_ip demo_long_port)" "no_seps (published_port (lp_published demo_long_port))"
    "lp_protocol demo_long_port = [] \<or> plain_proto (lp_protocol demo_long_port)"
    by (simp_all add: demo_long_port_def no_seps_def published_port_def dec_int_def dec_nat.simps digits09
        plain_proto_def atoi_def Let_def is_digit_char_def less_eq_char_def)
  have 3: "published_port (lp_published demo_long_port) = ''8080''" "dec_int (lp_target demo_long_port) = ''80''"
    by (simp_all add: demo_long_port_def published_port_def dec_int_def dec_nat.simps digits09)
  from port_long_form_roundtrip[OF 1 2] 3 show ?thesis by (simp add: demo_long_port_def)
qed

text \<open>An IPv6 host address is accepted by the long form and then refused by the parser, so MapPorts skips the port.\<close>

lemma long_form_ipv6_dropped:
  "toShortForm \<lparr>lp_target = 80, lp_published = Some (AInt 8080), lp_protocol = [], lp_host_ip = ''::1''\<rparr>
     = Inr ''::1:8080:80'' \<and> parsePortSpec ''::1:8080:80'' = Inl (ErrText too_many)"
  by (simp add: toShortForm_def dec_int_def dec_nat.simps digits09 parsePortSpec_def split_proto_def
      last_index_byte_def)

section \<open>Bindings\<close>

text \<open>What one entry asks for: the exposed port and perhaps a binding.\<close>

definition port_request :: "(string \<Rightarrow> 'p option) \<Rightarrow> (string \<Rightarrow> 'a option) \<Rightarrow> 'a \<Rightarrow> string \<Rightarrow> ('p \<times> ('a \<times> string) list) option" where
  "port_request ParsePort ParseAddr dflt raw =
     (case parsePortSpec raw of Inl _ \<Rightarrow> None
      | Inr spec \<Rightarrow> (case ParsePort (containerPort spec @ ''/'' @ ps_proto spec) of None \<Rightarrow> None
        | Some port \<Rightarrow> Some (port,
            if hostPort spec = [] then []
            else case (if hostIP spec \<noteq> [] then ParseAddr (hostIP spec) else Some dflt) of
                   None \<Rightarrow> [] | Some ip \<Rightarrow> [(ip, hostPort spec)])))"

lemma map_port_request:
  "map_port P A dflt st raw = (case port_request P A dflt raw of
      None \<Rightarrow> st | Some (p, bs) \<Rightarrow> ((fst st)(p := fst st p @ bs), insert p (snd st)))"
  by (cases st) (auto simp: map_port_def port_request_def Let_def split: sum.split option.split)

lemma map_ports_meaning_aux:
  "fst (MapPorts P A dflt ports) p
     = concat (List.map (\<lambda>raw. case port_request P A dflt raw of
           Some (q, bs) \<Rightarrow> if q = p then bs else [] | None \<Rightarrow> []) ports)
   \<and> snd (MapPorts P A dflt ports) = {q. \<exists>raw bs. raw \<in> set ports \<and> port_request P A dflt raw = Some (q, bs)}"
proof -
  let ?f = "\<lambda>raw. case port_request P A dflt raw of Some (q, bs) \<Rightarrow> if q = p then bs else [] | None \<Rightarrow> []"
  have "fst (foldl (map_port P A dflt) st ports) p = fst st p @ concat (List.map ?f ports)
     \<and> snd (foldl (map_port P A dflt) st ports)
       = snd st \<union> {q. \<exists>raw bs. raw \<in> set ports \<and> port_request P A dflt raw = Some (q, bs)}" for st
  proof (induction ports arbitrary: st)
    case (Cons raw ports)
    show ?case
    proof (cases "port_request P A dflt raw")
      case None
      then show ?thesis using Cons[of st] by (auto simp: map_port_request)
    next
      case (Some qb)
      obtain q bs where "qb = (q, bs)" by (cases qb)
      then have m: "map_port P A dflt st raw = ((fst st)(q := fst st q @ bs), insert q (snd st))"
        and r: "port_request P A dflt raw = Some (q, bs)" using Some by (simp_all add: map_port_request)
      have "{q'. \<exists>raw' bs. raw' \<in> set (raw # ports) \<and> port_request P A dflt raw' = Some (q', bs)}
          = insert q {q'. \<exists>raw' bs. raw' \<in> set ports \<and> port_request P A dflt raw' = Some (q', bs)}"
        using r by auto
      then show ?thesis using Cons[of "map_port P A dflt st raw"] r by (simp add: m)
    qed
  qed simp
  from this[of "(\<lambda>_. [], {})"] show ?thesis by (simp add: MapPorts_def)
qed

text \<open>MapPorts binds what the entries ask for and nothing else: the bindings of a port are those of the entries
  that parse and name it, in the order of the file, and the exposed ports are the ports of the entries that parse; an
  entry that does not parse has no effect on the others.\<close>

theorem map_ports_meaning:
  "fst (MapPorts P A dflt ports) p
     = concat (List.map (\<lambda>raw. case port_request P A dflt raw of
           Some (q, bs) \<Rightarrow> if q = p then bs else [] | None \<Rightarrow> []) ports)
   \<and> snd (MapPorts P A dflt ports) = {q. \<exists>raw bs. raw \<in> set ports \<and> port_request P A dflt raw = Some (q, bs)}"
  by (rule map_ports_meaning_aux)

lemma split_proto_before: "snd (split_proto raw) = raw \<or> (\<exists>r. raw = snd (split_proto raw) @ r)"
  by (auto simp: split_proto_def Let_def split: option.split) (metis append_take_drop_id)+

lemma port_base_colon: "CHR ''/'' \<notin> set x \<Longrightarrow> CHR '':'' \<in> set (port_base (x @ CHR '':'' # y))"
proof (cases "index_byte (x @ CHR '':'' # y) CHR ''/''")
  case (Some i)
  assume x: "CHR ''/'' \<notin> set x"
  let ?r = "x @ CHR '':'' # y"
  have i: "i < length ?r" "?r ! i = CHR ''/''" using index_byte_Some[OF Some] by simp_all
  have "length x < i"
  proof (rule ccontr)
    assume "\<not> length x < i"
    then have "?r ! i \<in> set x \<or> ?r ! i = CHR '':''" by (cases "i = length x") (auto simp: nth_append)
    then show False using i(2) x by auto
  qed
  then have "take i ?r = x @ CHR '':'' # take (i - Suc (length x)) y"
    by (simp add: take_Cons')
  then show ?thesis using Some by (simp add: port_base_def)
qed (simp add: port_base_def)

lemma published_colon:
  assumes "parsePortSpec raw = Inr spec" "hostPort spec \<noteq> []" "CHR ''/'' \<notin> set (hostIP spec @ hostPort spec)"
  shows "CHR '':'' \<in> set (port_base raw)"
proof -
  obtain proto s where ps: "split_proto raw = (proto, s)" by fastforce
  have j: "s = join_with '':'' (split_on CHR '':'' s)" by (simp add: join_split)
  have "\<exists>x y. s = x @ CHR '':'' # y \<and> CHR ''/'' \<notin> set x"
    using assms j by (auto simp: parsePortSpec_def ps Let_def split: list.splits if_splits)
  moreover have "\<exists>r. raw = s @ r" using split_proto_before[of raw] ps by auto
  ultimately obtain x y r where "raw = x @ CHR '':'' # y @ r" "CHR ''/'' \<notin> set x" by auto
  then show ?thesis using port_base_colon by auto
qed

text \<open>The replica check sees every published port: a service for which HasStaticPublishedPort is false binds no
  host port in MapPorts, so replicas of it cannot collide. Only an entry with a slash before its colon, whose host port
  is not a port, is outside this.\<close>

theorem unpublished_binds_nothing:
  assumes "\<not> HasStaticPublishedPort svc"
    "\<forall>raw \<in> set (cs_ports svc). \<forall>spec. parsePortSpec raw = Inr spec \<longrightarrow> CHR ''/'' \<notin> set (hostIP spec @ hostPort spec)"
  shows "fst (MapPorts P A dflt (cs_ports svc)) p = []"
proof -
  have "bs = []" if "raw \<in> set (cs_ports svc)" "port_request P A dflt raw = Some (q, bs)" for raw q bs
  proof (cases "parsePortSpec raw")
    case (Inr spec)
    have "CHR '':'' \<notin> set (port_base raw)" using assms(1) that(1) by (auto simp: HasStaticPublishedPort_def list_ex_iff)
    then have "hostPort spec = []" using published_colon[OF Inr] assms(2) that(1) Inr by blast
    then show ?thesis using that(2) Inr by (auto simp: port_request_def split: option.splits)
  qed (use that(2) in \<open>simp add: port_request_def\<close>)
  then have "concat (List.map (\<lambda>raw. case port_request P A dflt raw of
      Some (q, bs) \<Rightarrow> if q = p then bs else [] | None \<Rightarrow> []) (cs_ports svc)) = []"
    by (auto split: option.split)
  then show ?thesis using map_ports_meaning_aux[of P A dflt "cs_ports svc" p] by simp
qed

lemma unpublished_binds_nothing_witness:
  "fst (MapPorts (\<lambda>s. Some s) (\<lambda>s. Some s) ''0.0.0.0'' [''80'', ''53/udp'']) ''80/tcp'' = []
   \<and> HasStaticPublishedPort (empty_service\<lparr>cs_ports := [''8080:80'']\<rparr>)"
proof -
  let ?svc = "empty_service\<lparr>cs_ports := [''80'', ''53/udp'']\<rparr>"
  have 1: "\<not> HasStaticPublishedPort ?svc" by code_simp
  have p: "parsePortSpec ''80'' = Inr \<lparr>hostIP = [], hostPort = [], containerPort = ''80'', ps_proto = ''tcp''\<rparr>"
    "parsePortSpec ''53/udp'' = Inr \<lparr>hostIP = [], hostPort = [], containerPort = ''53'', ps_proto = ''udp''\<rparr>"
    by code_simp+
  have 2: "\<forall>raw \<in> set (cs_ports ?svc). \<forall>spec. parsePortSpec raw = Inr spec
      \<longrightarrow> CHR ''/'' \<notin> set (hostIP spec @ hostPort spec)"
    using p by auto
  have 3: "HasStaticPublishedPort (empty_service\<lparr>cs_ports := [''8080:80'']\<rparr>)" by code_simp
  from unpublished_binds_nothing[OF 1 2, of "\<lambda>s. Some s" "\<lambda>s. Some s" "''0.0.0.0''" "''80/tcp''"] 3
  show ?thesis by simp
qed

end
