(* ===== verification/Paths.thy ===== *)
theory Paths
  imports Compose_Types
begin

text \<open>
  Paths: filepath.Clean, Join, Abs and Dir (package path/filepath on Unix, which package path shares), and what
  internal/stack/deployer.go does with them: the stack directories, the traversal checks of readComposeFile and
  rewriteBindMountPaths, the search for the .env file, and the names of volumes (resolveVolumeName, rewriteVolumeRefs).
  The working directory of the process is an argument.
\<close>

section \<open>Package filepath\<close>

text \<open>The components that Clean keeps; the first list is the result so far, reversed.\<close>

fun clean_comps :: "bool \<Rightarrow> string list \<Rightarrow> string list \<Rightarrow> string list" where
  "clean_comps rooted st [] = rev st"
| "clean_comps rooted st (c # cs) =
     (if c = [] \<or> c = ''.'' then clean_comps rooted st cs
      else if c = ''..'' then
        (if st \<noteq> [] \<and> hd st \<noteq> ''..'' then clean_comps rooted (tl st) cs
         else if rooted then clean_comps rooted st cs else clean_comps rooted (c # st) cs)
      else clean_comps rooted (c # st) cs)"

definition is_abs :: "string \<Rightarrow> bool" where "is_abs p \<longleftrightarrow> has_prefix p ''/''"

definition Clean :: "string \<Rightarrow> string" where
  "Clean p = (let cs = clean_comps (is_abs p) [] (split_on CHR ''/'' p) in
     if is_abs p then ''/'' @ join_with ''/'' cs else if cs = [] then ''.'' else join_with ''/'' cs)"

definition Join :: "string \<Rightarrow> string \<Rightarrow> string" where
  "Join a b = (if a \<noteq> [] then Clean (a @ ''/'' @ b) else if b \<noteq> [] then Clean b else [])"

definition Abs :: "string \<Rightarrow> string \<Rightarrow> string" where
  "Abs cwd p = (if is_abs p then Clean p else Join cwd p)"

definition Dir :: "string \<Rightarrow> string" where
  "Dir p = Clean (case last_index_byte p CHR ''/'' of Some i \<Rightarrow> take (Suc i) p | None \<Rightarrow> [])"

text \<open>The names a path walks through.\<close>

definition comps :: "string \<Rightarrow> string list" where
  "comps p = filter (\<lambda>c. c \<noteq> []) (split_on CHR ''/'' p)"

text \<open>A path at or below a directory: it walks through the directory's names, then only through real names, never
  through a dot or a dot-dot.\<close>

definition inside :: "string \<Rightarrow> string \<Rightarrow> bool" where
  "inside root p \<longleftrightarrow> is_abs p \<and> (\<exists>cs. comps p = comps root @ cs \<and> ''..'' \<notin> set (comps p) \<and> ''.'' \<notin> set (comps p))"

lemma split_on_concat: "split_on c (a @ c # r) = split_on c a @ split_on c r"
proof (induction a)
  case (Cons x a)
  obtain p ps where "split_on c a = p # ps" by (cases "split_on c a") auto
  with Cons show ?case by simp
qed simp

lemma comps_append: "comps (a @ CHR ''/'' # r) = comps a @ comps r"
  by (simp add: comps_def split_on_concat)

lemma is_abs_Cons: "is_abs p \<Longrightarrow> \<exists>q. p = CHR ''/'' # q"
  by (auto simp: is_abs_def has_prefix_iff)

definition good_comp :: "string \<Rightarrow> bool" where
  "good_comp c \<longleftrightarrow> c \<noteq> [] \<and> c \<noteq> ''.'' \<and> c \<noteq> ''..'' \<and> CHR ''/'' \<notin> set c"

lemma clean_comps_good:
  "list_all good_comp st \<Longrightarrow> list_all (\<lambda>c. CHR ''/'' \<notin> set c) cs \<Longrightarrow> list_all good_comp (clean_comps True st cs)"
proof (induction cs arbitrary: st)
  case (Cons c cs)
  have "list_all good_comp (tl st)" using Cons.prems(1) by (cases st) auto
  moreover have "good_comp c" if "c \<noteq> []" "c \<noteq> ''.''" "c \<noteq> ''..''" using that Cons.prems(2) by (simp add: good_comp_def)
  ultimately show ?case using Cons.IH Cons.prems by simp
qed simp

lemma clean_comps_plain:
  "''..'' \<notin> set cs \<Longrightarrow> clean_comps rooted st cs = rev st @ filter (\<lambda>c. c \<noteq> [] \<and> c \<noteq> ''.'') cs"
  by (induction cs arbitrary: st) auto

lemma comps_join: "\<forall>c \<in> set cs. good_comp c \<Longrightarrow> comps (CHR ''/'' # join_with ''/'' cs) = cs"
proof (cases "cs = []")
  case False
  assume g: "\<forall>c \<in> set cs. good_comp c"
  have "split_on CHR ''/'' (join_with ''/'' cs) = cs" using g False by (intro split_join) (auto simp: good_comp_def)
  then show ?thesis using g by (auto simp: comps_def good_comp_def intro!: filter_True)
qed (simp add: comps_def)

text \<open>A cleaned absolute path is absolute, and its names are those Clean kept.\<close>

lemma Clean_abs:
  assumes "is_abs p"
  shows "is_abs (Clean p)" "comps (Clean p) = clean_comps True [] (split_on CHR ''/'' p)"
    "\<forall>c \<in> set (comps (Clean p)). good_comp c"
proof -
  let ?cs = "clean_comps True [] (split_on CHR ''/'' p)"
  have "list_all good_comp ?cs" by (rule clean_comps_good) (auto simp: list_all_iff dest: split_on_parts)
  then have g: "\<forall>c \<in> set ?cs. good_comp c" by (simp add: list_all_iff)
  have e: "Clean p = CHR ''/'' # join_with ''/'' ?cs" using assms by (simp add: Clean_def Let_def)
  then show "is_abs (Clean p)" by (simp add: is_abs_def)
  show "comps (Clean p) = ?cs" unfolding e by (rule comps_join[OF g])
  then show "\<forall>c \<in> set (comps (Clean p)). good_comp c" using g by simp
qed

lemma is_abs_append [simp]: "is_abs p \<Longrightarrow> is_abs (p @ q)"
  by (auto simp: is_abs_def has_prefix_iff)

lemma Join_abs: "is_abs a \<Longrightarrow> Join a b = Clean (a @ CHR ''/'' # b)"
  by (auto simp: Join_def is_abs_def)

lemma Abs_abs: "is_abs cwd \<Longrightarrow> is_abs (Abs cwd p)"
  by (auto simp: Abs_def Join_abs Clean_abs)

lemma inside_prefix:
  assumes "is_abs p" "has_prefix (Clean p) (root @ ''/'') \<or> Clean p = root"
  shows "inside root (Clean p)"
proof -
  have "\<exists>cs. comps (Clean p) = comps root @ cs"
    using assms(2) by (auto simp: has_prefix_iff comps_append)
  then show ?thesis using Clean_abs[OF assms(1)] by (auto simp: inside_def good_comp_def)
qed

section \<open>Stack directories and the compose file\<close>

definition stackRepoDir :: "string \<Rightarrow> string \<Rightarrow> string" where
  "stackRepoDir stacksDir stackID = Join (Join stacksDir stackID) ''repo''"

text \<open>CleanupStackData: the directory it removes, if any.\<close>

definition CleanupStackData :: "string \<Rightarrow> string \<Rightarrow> string option" where
  "CleanupStackData stacksDir stackID = (if stacksDir = [] then None else Some (Join stacksDir stackID))"

text \<open>The beginning of readComposeFile: the file it reads, or the traversal error.\<close>

definition compose_target :: "string \<Rightarrow> string \<Rightarrow> string \<Rightarrow> string res" where
  "compose_target cwd repoDir path0 =
     (let composePath = (if path0 = [] then ''docker-compose.yaml'' else path0);
          absRepo = Abs cwd repoDir;
          absTarget = Abs cwd (Join absRepo composePath)
      in if \<not> has_prefix absTarget (absRepo @ ''/'') \<and> absTarget \<noteq> absRepo
         then Inl (ErrText (''compose path '' @ quoted composePath @ '' resolves outside repository (directory traversal blocked)''))
         else Inr absTarget)"

text \<open>loadComposeEnv: the first of the two candidates that LoadDotEnv finds, \<open>load\<close> giving None where there is no file.\<close>

fun first_env :: "(string \<Rightarrow> 'v option res) \<Rightarrow> string list \<Rightarrow> ('v option \<times> string) res" where
  "first_env load [] = Inr (None, [])"
| "first_env load (p # ps) =
     (case load p of Inl e \<Rightarrow> Inl (ErrWrap (''load .env '' @ p @ '': '') e)
      | Inr (Some vars) \<Rightarrow> Inr (Some vars, p)
      | Inr None \<Rightarrow> first_env load ps)"

definition loadComposeEnv :: "(string \<Rightarrow> 'v option res) \<Rightarrow> string \<Rightarrow> string \<Rightarrow> ('v option \<times> string) res" where
  "loadComposeEnv load repoDir composeFilePath =
     first_env load (remdups [Join (Dir composeFilePath) ''.env'', Join repoDir ''.env''])"

text \<open>readComposeFile: reading, interpolating and parsing are the file system, package compose and the YAML library.\<close>

definition readComposeFile ::
  "string \<Rightarrow> (string \<Rightarrow> string res) \<Rightarrow> (string \<Rightarrow> 'v option res) \<Rightarrow> (string \<Rightarrow> 'v option \<Rightarrow> string res)
     \<Rightarrow> (string \<Rightarrow> 'f res) \<Rightarrow> ('f \<Rightarrow> nat) \<Rightarrow> string \<Rightarrow> string \<Rightarrow> 'f res" where
  "readComposeFile cwd read_file load_env expand parse_yaml n_services repoDir composePath =
     (case compose_target cwd repoDir composePath of
        Inl e \<Rightarrow> Inl e
      | Inr absTarget \<Rightarrow>
     (case read_file absTarget of
        Inl e \<Rightarrow> Inl (ErrWrap (''failed to read compose file at '' @ absTarget @ '': '') e)
      | Inr data \<Rightarrow>
     (case loadComposeEnv load_env (Abs cwd repoDir) absTarget of
        Inl e \<Rightarrow> Inl e
      | Inr (vars, envPath) \<Rightarrow>
     (case expand data vars of
        Inl e \<Rightarrow> Inl (ErrWrap ''interpolate compose file: '' e)
      | Inr expanded \<Rightarrow>
     (case parse_yaml expanded of
        Inl e \<Rightarrow> Inl (ErrWrap ''failed to parse compose YAML: '' e)
      | Inr cf \<Rightarrow>
        if n_services cf = 0 then Inl (ErrText ''compose file contains no services'') else Inr cf)))))"

lemma compose_target_inside:
  assumes "is_abs cwd" "compose_target cwd repoDir path = Inr t"
  shows "inside (Abs cwd repoDir) t"
proof -
  let ?r = "Abs cwd repoDir"
  define cp where "cp = (if path = [] then ''docker-compose.yaml'' else path)"
  have a: "is_abs ?r" using assms(1) by (rule Abs_abs)
  let ?j = "Join ?r cp"
  have j: "is_abs ?j" using a by (simp add: Join_abs Clean_abs)
  then have "t = Clean ?j" "has_prefix t (?r @ ''/'') \<or> t = ?r"
    using assms(2) by (auto simp: compose_target_def Let_def Abs_def cp_def[symmetric] split: if_splits)
  then show ?thesis using inside_prefix[OF j] by simp
qed

lemma Clean_plain:
  assumes "is_abs p" "''..'' \<notin> set (comps p)" "''.'' \<notin> set (comps p)"
  shows "comps (Clean p) = comps p"
proof -
  have "''..'' \<notin> set (split_on CHR ''/'' p)" using assms(2) by (auto simp: comps_def)
  then have "comps (Clean p) = filter (\<lambda>c. c \<noteq> [] \<and> c \<noteq> ''.'') (split_on CHR ''/'' p)"
    by (simp add: Clean_abs(2)[OF assms(1)] clean_comps_plain)
  also have "\<dots> = filter (\<lambda>c. c \<noteq> ''.'') (comps p)" by (simp add: comps_def conj_commute)
  also have "\<dots> = comps p" using assms(3) by (auto intro: filter_True)
  finally show ?thesis .
qed

text \<open>A name below a directory that is itself a clean path.\<close>

lemma Join_name:
  assumes "is_abs a" "''..'' \<notin> set (comps a)" "''.'' \<notin> set (comps a)" "good_comp n"
  shows "comps (Join a n) = comps a @ [n] \<and> is_abs (Join a n)"
proof -
  have n: "comps n = [n]" using assms(4) by (simp add: comps_def good_comp_def split_on_no_sep)
  have "comps (Clean (a @ CHR ''/'' # n)) = comps (a @ CHR ''/'' # n)"
    using assms n by (intro Clean_plain) (auto simp: comps_append good_comp_def)
  then show ?thesis using assms(1) n by (simp add: Join_abs Clean_abs comps_append)
qed

lemma last_index_byte_Some:
  assumes "c \<in> set p"
  shows "\<exists>a r. p = a @ c # r \<and> c \<notin> set r \<and> last_index_byte p c = Some (length a)"
proof -
  obtain a r where p: "p = a @ c # r" "c \<notin> set r" using assms split_list_last by fastforce
  then have "last_index_byte p c = Some (length a)" by (simp add: last_index_byte_def index_byte_append)
  with p show ?thesis by blast
qed

lemma Dir_inside:
  assumes "inside root t" "comps t \<noteq> comps root"
  shows "inside root (Dir t)"
proof -
  obtain cs where t: "is_abs t" "comps t = comps root @ cs" "''..'' \<notin> set (comps t)" "''.'' \<notin> set (comps t)"
    using assms(1) by (auto simp: inside_def)
  have "cs \<noteq> []" using assms(2) t(2) by auto
  obtain q where "t = CHR ''/'' # q" using is_abs_Cons[OF t(1)] by blast
  then obtain a r where ar: "t = a @ CHR ''/'' # r" "CHR ''/'' \<notin> set r" "last_index_byte t CHR ''/'' = Some (length a)"
    using last_index_byte_Some[of "CHR ''/''" t] by auto
  have d: "Dir t = Clean (a @ ''/'')" using ar by (simp add: Dir_def)
  have abs: "is_abs (a @ ''/'')" using t(1) ar(1) by (cases a) (auto simp: is_abs_def)
  have ca: "comps (a @ ''/'') = comps a" using comps_append[of a "[]"] by (simp add: comps_def)
  have ct: "comps t = comps a @ comps r" using ar(1) by (simp add: comps_append)
  have "comps r = (if r = [] then [] else [r])" using ar(2) by (simp add: comps_def split_on_no_sep)
  then have "\<exists>cs'. comps a = comps root @ cs'"
    using ct t(2) \<open>cs \<noteq> []\<close> by (cases cs rule: rev_cases) (auto split: if_splits, metis+)
  moreover have "comps (Dir t) = comps a" unfolding d using Clean_plain[OF abs] t(3,4) ct ca by simp
  moreover have "is_abs (Dir t)" unfolding d using abs by (rule Clean_abs)
  ultimately show ?thesis using t(3,4) ct by (auto simp: inside_def)
qed

lemma Abs_Clean: "is_abs cwd \<Longrightarrow> \<exists>q. is_abs q \<and> Abs cwd p = Clean q"
  by (metis Abs_def Join_abs is_abs_append)

lemma Clean_comps_eq: "is_abs p \<Longrightarrow> Clean p = CHR ''/'' # join_with ''/'' (comps (Clean p))"
  by (simp only: Clean_abs(2)) (simp add: Clean_def Let_def)

lemma inside_Join:
  assumes "inside root a" "good_comp n" shows "inside root (Join a n)"
  using assms Join_name[of a n] by (auto simp: inside_def good_comp_def)

lemma first_env_cong: "(\<And>p. p \<in> set ps \<Longrightarrow> load p = load' p) \<Longrightarrow> first_env load ps = first_env load' ps"
  by (induction ps) (auto split: sum.split option.split)

lemma env_candidates_inside:
  assumes "inside r t" "comps t \<noteq> comps r" "inside r r" "p \<in> {Join (Dir t) ''.env'', Join r ''.env''}"
  shows "inside r p"
proof -
  have "good_comp ''.env''" by (simp add: good_comp_def)
  then show ?thesis using assms inside_Join[OF Dir_inside[OF assms(1,2)]] inside_Join[OF assms(3)] by auto
qed

text \<open>C26. No compose path leads out of the repository: reading a stack's compose file and its .env file depends only on the
  files at or below the cloned repository, along names that are neither dot nor dot-dot, whatever the stack's
  compose_path is. Two file systems that agree there, and on which the repository is a directory that cannot be read
  as a file, give the same result.\<close>

theorem compose_path_confined:
  assumes "is_abs cwd"
    "\<And>p. inside (Abs cwd repoDir) p \<Longrightarrow> read_file p = read_file' p \<and> load_env p = load_env' p"
    "read_file (Abs cwd repoDir) = Inl e"
  shows "readComposeFile cwd read_file load_env expand parse_yaml n_services repoDir composePath
       = readComposeFile cwd read_file' load_env' expand parse_yaml n_services repoDir composePath"
proof (cases "compose_target cwd repoDir composePath")
  case (Inr t)
  let ?r = "Abs cwd repoDir"
  obtain q where q: "is_abs q" "?r = Clean q" using Abs_Clean[OF assms(1)] by blast
  have rr: "inside ?r ?r" using Clean_abs[OF q(1)] q(2) by (auto simp: inside_def good_comp_def)
  have t: "inside ?r t" by (rule compose_target_inside[OF assms(1) Inr])
  obtain qt where qt: "is_abs qt" "t = Clean qt"
    using Inr Abs_Clean[OF assms(1)] by (auto simp: compose_target_def Let_def split: if_splits)
  have f: "read_file t = read_file' t" using assms(2)[OF t] by simp
  show ?thesis
  proof (cases "comps t = comps ?r")
    case True
    then have "t = ?r" using Clean_comps_eq[OF q(1)] Clean_comps_eq[OF qt(1)] q(2) qt(2) by simp
    then show ?thesis using Inr f[symmetric] assms(3) by (simp add: readComposeFile_def)
  next
    case False
    have "\<forall>p \<in> {Join (Dir t) ''.env'', Join ?r ''.env''}. load_env p = load_env' p"
      using env_candidates_inside[OF t False rr] assms(2) by blast
    then have "loadComposeEnv load_env ?r t = loadComposeEnv load_env' ?r t"
      unfolding loadComposeEnv_def by (intro first_env_cong) (auto simp del: remdups.simps)
    then show ?thesis using Inr f unfolding readComposeFile_def by (simp only: sum.case)
  qed
qed (simp add: readComposeFile_def)

definition demo_fs :: "string \<Rightarrow> string \<Rightarrow> string res" where
  "demo_fs other p = (if p = ''/d/s1/repo/app.yaml'' then Inr ''services'' else if is_abs p \<and> take 3 (comps p) = [''d'', ''s1'', ''repo'']
     then Inl ErrNotExist else Inr other)"

lemma compose_path_confined_witness:
  "readComposeFile ''/d'' (demo_fs ''secret'') (\<lambda>p. Inr (None :: unit option)) (\<lambda>d v. Inr d) Inr length ''/d/s1/repo'' ''../../etc''
     = readComposeFile ''/d'' (demo_fs ''other'') (\<lambda>p. Inr (None :: unit option)) (\<lambda>d v. Inr d) Inr length ''/d/s1/repo'' ''../../etc''
   \<and> readComposeFile ''/d'' (demo_fs ''secret'') (\<lambda>p. Inr (None :: unit option)) (\<lambda>d v. Inr d) Inr length ''/d/s1/repo'' ''app.yaml''
     = Inr ''services''"
proof -
  have r: "Abs ''/d'' ''/d/s1/repo'' = ''/d/s1/repo''" by code_simp
  have c: "comps ''/d/s1/repo'' = [''d'', ''s1'', ''repo'']" by code_simp
  have s: "demo_fs ''secret'' p = demo_fs ''other'' p" if "inside (Abs ''/d'' ''/d/s1/repo'') p" for p
    using that by (auto simp: demo_fs_def inside_def r c)
  have e: "demo_fs ''secret'' (Abs ''/d'' ''/d/s1/repo'') = Inl ErrNotExist" unfolding r by code_simp
  have w: "readComposeFile ''/d'' (demo_fs ''secret'') (\<lambda>p. Inr (None :: unit option)) (\<lambda>d v. Inr d) Inr length
      ''/d/s1/repo'' ''app.yaml'' = Inr ''services''" by code_simp
  have a: "is_abs ''/d''" by code_simp
  have "readComposeFile ''/d'' (demo_fs ''secret'') (\<lambda>p. Inr (None :: unit option)) (\<lambda>d v. Inr d) Inr length ''/d/s1/repo'' ''../../etc''
     = readComposeFile ''/d'' (demo_fs ''other'') (\<lambda>p. Inr (None :: unit option)) (\<lambda>d v. Inr d) Inr length ''/d/s1/repo'' ''../../etc''"
    by (rule compose_path_confined[where e = ErrNotExist]) (simp_all add: a e s)
  with w show ?thesis by blast
qed

section \<open>Bind mounts\<close>

definition is_volume_name :: "string \<Rightarrow> bool" where
  "is_volume_name src \<longleftrightarrow> \<not> list_ex (\<lambda>c. c = CHR ''/'' \<or> c = CHR ''.'') src \<and> \<not> has_prefix src ''~''"

definition rewrite_entry :: "string \<Rightarrow> string \<Rightarrow> string res" where
  "rewrite_entry absRepo entry =
     (case cut CHR '':'' entry of
        (_, None) \<Rightarrow> Inr entry
      | (src, Some rest) \<Rightarrow>
        if is_volume_name src then Inr entry
        else if has_prefix src ''/'' then Inr entry
        else let resolved = Clean (Join absRepo src) in
          if resolved \<noteq> absRepo \<and> \<not> has_prefix resolved (absRepo @ ''/'')
          then Inl (ErrText (''bind mount '' @ quoted src @ '' resolves outside repo directory (directory traversal blocked)''))
          else Inr (resolved @ '':'' @ rest))"

fun rewrite_entries :: "string \<Rightarrow> string list \<Rightarrow> string list \<Rightarrow> string list res" where
  "rewrite_entries absRepo [] out = Inr out"
| "rewrite_entries absRepo (entry # es) out =
     (case rewrite_entry absRepo entry of Inl e \<Rightarrow> Inl e | Inr x \<Rightarrow> rewrite_entries absRepo es (out @ [x]))"

definition rewriteBindMountPaths :: "string \<Rightarrow> string list \<Rightarrow> string \<Rightarrow> string list res" where
  "rewriteBindMountPaths cwd svcVolumes repoDir =
     (if svcVolumes = [] then Inr svcVolumes else rewrite_entries (Abs cwd repoDir) svcVolumes [])"

definition rewriteVolumeRefs :: "string list \<Rightarrow> (string \<times> string) list \<Rightarrow> string list" where
  "rewriteVolumeRefs svcVolumes nameMap =
     (if nameMap = [] then svcVolumes
      else List.map (\<lambda>entry. case cut CHR '':'' entry of
              (_, None) \<Rightarrow> entry
            | (src, Some rest) \<Rightarrow>
              if \<not> is_volume_name src then entry
              else case map_of nameMap src of Some resolved \<Rightarrow> resolved @ '':'' @ rest | None \<Rightarrow> entry) svcVolumes)"

text \<open>resolveVolumeName; the fields of a top-level volume.\<close>

record compose_volume =
  cv_driver :: string
  cv_driver_opts :: "(string \<times> string) list"
  External :: bool
  cv_name :: string
  cv_labels :: "(string \<times> string) list"

definition resolveVolumeName :: "string \<Rightarrow> string \<Rightarrow> compose_volume \<Rightarrow> string" where
  "resolveVolumeName stackName logicalName cfg =
     (if cv_name cfg \<noteq> [] then cv_name cfg
      else if External cfg then logicalName
      else ''accelero_'' @ stackName @ ''_'' @ logicalName)"

text \<open>What an entry of a service's volumes may become: unchanged when it has no source, an absolute source or the name of
  a volume; a path in the repository otherwise.\<close>

definition bind_ok :: "string \<Rightarrow> string \<Rightarrow> string \<Rightarrow> bool" where
  "bind_ok absRepo entry out =
     (case cut CHR '':'' entry of
        (_, None) \<Rightarrow> out = entry
      | (src, Some rest) \<Rightarrow>
          if is_volume_name src \<or> is_abs src then out = entry
          else (\<exists>path. out = path @ '':'' @ rest \<and> inside absRepo path))"

lemma rewrite_entry_ok:
  assumes "is_abs absRepo" "rewrite_entry absRepo entry = Inr out"
  shows "bind_ok absRepo entry out"
proof -
  have "inside absRepo (Clean (Join absRepo src))"
    if "Clean (Join absRepo src) = absRepo \<or> has_prefix (Clean (Join absRepo src)) (absRepo @ ''/'')" for src
    using that assms(1) by (intro inside_prefix) (auto simp: Join_abs Clean_abs)
  then show ?thesis using assms(2)
    by (auto simp: rewrite_entry_def bind_ok_def is_abs_def Let_def split: prod.splits option.splits if_splits)
qed

lemma rewrite_entries_ok:
  "is_abs absRepo \<Longrightarrow> rewrite_entries absRepo es acc = Inr out
     \<Longrightarrow> \<exists>outs. out = acc @ outs \<and> list_all2 (bind_ok absRepo) es outs"
proof (induction es arbitrary: acc)
  case (Cons e es)
  obtain x where x: "rewrite_entry absRepo e = Inr x" using Cons.prems(2) by (auto split: sum.splits)
  with Cons obtain outs where "out = (acc @ [x]) @ outs" "list_all2 (bind_ok absRepo) es outs" by fastforce
  then show ?case using rewrite_entry_ok[OF Cons.prems(1) x] by (intro exI[of _ "x # outs"]) simp
qed simp

text \<open>C28. Relative bind mounts stay in the repository: when rewriteBindMountPaths succeeds, each entry of a service's
  volumes becomes itself (no source, a volume name, an absolute source) or the same mount from a path at or below the
  cloned repository that contains no dot-dot.\<close>

theorem bind_mounts_confined:
  assumes "is_abs cwd" "rewriteBindMountPaths cwd vols repoDir = Inr outs"
  shows "list_all2 (bind_ok (Abs cwd repoDir)) vols outs"
  using assms rewrite_entries_ok[OF Abs_abs[OF assms(1)], of repoDir vols "[]"]
  by (auto simp: rewriteBindMountPaths_def split: if_splits)

lemma bind_mounts_confined_witness:
  "list_all2 (bind_ok (Abs ''/w'' ''/d/s1/repo'')) [''./conf:/etc/app:ro'', ''data:/data'', ''/etc/ssl:/ssl'']
     [''/d/s1/repo/conf:/etc/app:ro'', ''data:/data'', ''/etc/ssl:/ssl'']
   \<and> (case rewriteBindMountPaths ''/w'' [''../../x:/x''] ''/d/s1/repo'' of Inl e \<Rightarrow> True | Inr _ \<Rightarrow> False)"
proof -
  have 1: "is_abs ''/w''" by code_simp
  have 2: "rewriteBindMountPaths ''/w'' [''./conf:/etc/app:ro'', ''data:/data'', ''/etc/ssl:/ssl''] ''/d/s1/repo''
      = Inr [''/d/s1/repo/conf:/etc/app:ro'', ''data:/data'', ''/etc/ssl:/ssl'']" by code_simp
  have 3: "case rewriteBindMountPaths ''/w'' [''../../x:/x''] ''/d/s1/repo'' of Inl e \<Rightarrow> True | Inr _ \<Rightarrow> False" by code_simp
  from bind_mounts_confined[OF 1 2] 3 show ?thesis by blast
qed

text \<open>A declared volume with a dot in its name is taken for a relative path, and then not renamed.\<close>

lemma dotted_volume_is_a_bind_mount:
  "rewriteBindMountPaths ''/w'' [''pg.data:/data''] ''/repo'' = Inr [''/repo/pg.data:/data'']
   \<and> rewriteVolumeRefs [''pg.data:/data''] [(''pg.data'', ''accelero_a_pg.data'')] = [''pg.data:/data'']"
  by code_simp

section \<open>Volume names\<close>

text \<open>The scoping of volume names is not injective once a stack's name has an underscore.\<close>

definition plain_volume :: compose_volume where
  "plain_volume = \<lparr>cv_driver = [], cv_driver_opts = [], External = False, cv_name = [], cv_labels = []\<rparr>"

lemma volume_names_collide:
  "resolveVolumeName ''a'' ''b_c'' plain_volume = resolveVolumeName ''a_b'' ''c'' plain_volume"
  by (simp add: resolveVolumeName_def plain_volume_def)

lemma append_sep_inj: "(x :: string) @ c # y = x' @ c # y' \<Longrightarrow> c \<notin> set x \<Longrightarrow> c \<notin> set x' \<Longrightarrow> x = x' \<and> y = y'"
proof -
  assume e: "x @ c # y = x' @ c # y'" and n: "c \<notin> set x" "c \<notin> set x'"
  from e have "cut c (x @ c # y) = cut c (x' @ c # y')" by (rule arg_cong)
  then show ?thesis unfolding cut_append[OF n(1)] cut_append[OF n(2)] by simp
qed

text \<open>Volumes of different stacks are kept apart: for stacks whose names have no underscore, the volumes of two
  services that are neither external nor named get the same Docker name only if they are the same volume of the same
  stack, and a service's reference to such a volume, after rewriteVolumeRefs, names exactly that one.\<close>

theorem volume_names_scoped:
  assumes "CHR ''_'' \<notin> set stack1" "CHR ''_'' \<notin> set stack2" "cv_name v1 = []" "cv_name v2 = []"
    "\<not> External v1" "\<not> External v2" "is_volume_name vol1" "CHR '':'' \<notin> set vol1"
  shows "(resolveVolumeName stack1 vol1 v1 = resolveVolumeName stack2 vol2 v2 \<longleftrightarrow> stack1 = stack2 \<and> vol1 = vol2)
    \<and> rewriteVolumeRefs [vol1 @ '':'' @ dst] [(vol1, resolveVolumeName stack1 vol1 v1)]
        = [''accelero_'' @ stack1 @ ''_'' @ vol1 @ '':'' @ dst]"
  using assms append_sep_inj[of stack1 "CHR ''_''" vol1 stack2 vol2]
  by (auto simp: resolveVolumeName_def rewriteVolumeRefs_def cut_append)

lemma volume_names_scoped_witness:
  "resolveVolumeName ''shop'' ''pg_data'' plain_volume \<noteq> resolveVolumeName ''blog'' ''pg_data'' plain_volume"
proof -
  have p: "cv_name plain_volume = []" "\<not> External plain_volume" by (simp_all add: plain_volume_def)
  have 1: "CHR ''_'' \<notin> set ''shop''" "CHR ''_'' \<notin> set ''blog''" "is_volume_name ''pg_data''" "CHR '':'' \<notin> set ''pg_data''"
    by code_simp+
  show ?thesis using volume_names_scoped[OF 1(1,2) p(1) p(1) p(2) p(2) 1(3,4), of "''pg_data''"] by simp
qed

end
