(* ===== verification/Volume_Browser.thy ===== *)
theory Volume_Browser
  imports Paths
begin

text \<open>
  internal/volume/browser.go: the paths a caller may name inside a volume, the listing and reading of the tar stream
  Docker answers with, the tar that a write sends, and the life of the helper container. Docker's answers come as the
  fields of a record; each operation returns its result with the calls it made, in order. A tar stream is the list of
  its headers and the error that ends it, None for EOF; the contents of files stay in the stream.
\<close>

section \<open>Paths in a volume\<close>

definition containsParentRef :: "string \<Rightarrow> bool" where
  "containsParentRef p \<longleftrightarrow> contains_str p ''/../'' \<or> has_suffix p ''/..''"

definition cleanSubPath :: "string \<Rightarrow> string res" where
  "cleanSubPath p0 =
     (let p = (if p0 = [] then ''/'' else p0);
          p = (if \<not> has_prefix p ''/'' then ''/'' @ p else p);
          clean = Clean p
      in if \<not> has_prefix clean ''/'' then Inl (ErrText (''invalid path '' @ quoted p))
         else if containsParentRef p then Inl (ErrText (''path '' @ quoted p @ '' contains '' @ [CHR 0x27] @ ''..'' @ [CHR 0x27]))
         else Inr clean)"

section \<open>Tar streams\<close>

datatype typeflag = TypeReg | TypeDir | TypeOther

record tar_hdr =
  th_name :: string
  th_type :: typeflag
  th_mode :: nat
  th_size :: nat
  th_link :: string
  th_mtime :: gotime

type_synonym tar_stream = "tar_hdr list \<times> gerr option"

record file_entry =
  fe_name :: string
  fe_path :: string
  fe_is_dir :: bool
  fe_size :: nat
  fe_mode :: nat \<comment> \<open>printed by fs.FileMode\<close>
  fe_mtime :: gotime
  fe_link :: string

definition tar_rel :: "string \<Rightarrow> string \<Rightarrow> string" where
  "tar_rel rootName name = (if rootName \<noteq> [] then trim_prefix (trim_prefix name rootName) ''/'' else name)"

fun parseListing :: "nat \<Rightarrow> string \<Rightarrow> string \<Rightarrow> tar_hdr list \<Rightarrow> gerr option \<Rightarrow> file_entry list \<Rightarrow> file_entry list res" where
  "parseListing maxEntries dir rootName [] (Some e) out = Inl (ErrWrap ''read tar: '' e)"
| "parseListing maxEntries dir rootName [] None out = Inr out"
| "parseListing maxEntries dir rootName (h # hs) end out =
     (if length out \<ge> maxEntries then Inr out
      else let rel = tar_rel rootName (th_name h) in
        if rel = [] then parseListing maxEntries dir rootName hs end out
        else if CHR ''/'' \<in> set (trim_suffix rel ''/'') then parseListing maxEntries dir rootName hs end out
        else let name = trim_suffix rel ''/'' in
          parseListing maxEntries dir rootName hs end
            (out @ [\<lparr>fe_name = name, fe_path = Join dir name, fe_is_dir = (th_type h = TypeDir), fe_size = th_size h,
                     fe_mode = th_mode h, fe_mtime = th_mtime h, fe_link = th_link h\<rparr>]))"

text \<open>The loop of ReadFile: the first header that is not a directory's.\<close>

fun find_file :: "string \<Rightarrow> nat \<Rightarrow> tar_hdr list \<Rightarrow> gerr option \<Rightarrow> tar_hdr res" where
  "find_file absp maxBytes [] (Some e) = Inl (ErrWrap ''read tar: '' e)"
| "find_file absp maxBytes [] None = Inl (ErrText (''path '' @ quoted absp @ '' is a directory, not a file''))"
| "find_file absp maxBytes (h # hs) end =
     (if th_type h = TypeDir then find_file absp maxBytes hs end
      else if th_size h > maxBytes
      then Inl (ErrText (''file '' @ quoted absp @ '' is '' @ dec_nat (th_size h) @ '' bytes, exceeds maximum of '' @ dec_nat maxBytes))
      else Inr h)"

text \<open>The headers writeVolumeTar emits: the parent directories, outermost first, then the file.\<close>

fun parent_dirs :: "string \<Rightarrow> string list \<Rightarrow> string list" where
  "parent_dirs accum [] = []"
| "parent_dirs accum (p # ps) =
     (if p = [] then parent_dirs accum ps
      else let a = (if accum = [] then p else accum @ ''/'' @ p) in (a @ ''/'') # parent_dirs a ps)"

definition writeVolumeTar :: "gotime \<Rightarrow> string \<Rightarrow> nat \<Rightarrow> nat \<Rightarrow> tar_hdr list" where
  "writeVolumeTar now absp mode sz =
     List.map (\<lambda>d. \<lparr>th_name = d, th_type = TypeDir, th_mode = 493, th_size = 0, th_link = [], th_mtime = now\<rparr>)
         (parent_dirs [] (split_on CHR ''/'' (trim_prefix (Dir absp) ''/'')))
     @ [\<lparr>th_name = trim_prefix absp ''/'', th_type = TypeReg, th_mode = mode, th_size = sz, th_link = [], th_mtime = now\<rparr>]"

section \<open>The helper container\<close>

datatype vol_call =
    VInspectImage string
  | VPull string
  | VCreate string bool \<comment> \<open>the volume, and whether it is mounted read-only\<close>
  | VCopyFrom string string
  | VCopyTo string string "tar_hdr list"
  | VRemove string

record vol_docker =
  image_present :: bool
  pull_image :: "unit res"
  drain_pull :: "unit res"
  create_container :: "string res"
  copy_from :: "tar_stream res"
  copy_to :: "unit res"
  tar_write :: "unit res" \<comment> \<open>how writing the tar into the pipe ends\<close>
  maxEntriesPerList :: nat
  helperImage :: string

definition NewDockerBrowser :: "vol_docker \<Rightarrow> string \<Rightarrow> vol_docker" where
  "NewDockerBrowser k img = k\<lparr>helperImage := (if img = [] then ''busybox:stable'' else img), maxEntriesPerList := 10000\<rparr>"

definition ensureHelperImage :: "vol_docker \<Rightarrow> unit res \<times> vol_call list" where
  "ensureHelperImage k =
     (if image_present k then (Inr (), [VInspectImage (helperImage k)])
      else let tr = [VInspectImage (helperImage k), VPull (helperImage k)] in
        case pull_image k of
          Inl e \<Rightarrow> (Inl (ErrWrap (''pull helper image '' @ helperImage k @ '': '') e), tr)
        | Inr _ \<Rightarrow> (case drain_pull k of
            Inl e \<Rightarrow> (Inl (ErrWrap ''drain helper-image pull stream: '' e), tr)
          | Inr _ \<Rightarrow> (Inr (), tr)))"

definition createHelperWithMode :: "vol_docker \<Rightarrow> string \<Rightarrow> bool \<Rightarrow> string res \<times> vol_call list" where
  "createHelperWithMode k vol readonly =
     (case ensureHelperImage k of
        (Inl e, tr) \<Rightarrow> (Inl e, tr)
      | (Inr _, tr) \<Rightarrow> (case create_container k of
          Inl e \<Rightarrow> (Inl (ErrWrap ''create helper: '' e), tr @ [VCreate vol readonly])
        | Inr cid \<Rightarrow> (Inr cid, tr @ [VCreate vol readonly])))"

definition copy_error :: "string \<Rightarrow> string \<Rightarrow> gerr \<Rightarrow> gerr" where
  "copy_error absp vol e =
     (if docker_class_of e = Some NotFound then ErrText (''path '' @ quoted absp @ '' not found in volume '' @ quoted vol)
      else ErrWrap ''copy from helper: '' e)"

text \<open>path.Base of a cleaned absolute path.\<close>

definition base_name :: "string \<Rightarrow> string" where
  "base_name p = (if comps p = [] then ''/'' else last (comps p))"

definition ListPath :: "vol_docker \<Rightarrow> string \<Rightarrow> string \<Rightarrow> file_entry list res \<times> vol_call list" where
  "ListPath k vol subPath =
     (case cleanSubPath subPath of
        Inl e \<Rightarrow> (Inl e, [])
      | Inr absp \<Rightarrow>
        (case createHelperWithMode k vol True of
           (Inl e, tr) \<Rightarrow> (Inl e, tr)
         | (Inr cid, tr) \<Rightarrow>
           let sourcePath = Join ''/volume'' absp; tr = tr @ [VCopyFrom cid sourcePath, VRemove cid] in
           case copy_from k of
             Inl e \<Rightarrow> (Inl (copy_error absp vol e), tr)
           | Inr (hs, end) \<Rightarrow> (parseListing (maxEntriesPerList k) absp (base_name sourcePath) hs end [], tr)))"

text \<open>ReadFile: on success the helper goes when the caller closes the contents; the flag says whether it is still there.\<close>

definition ReadFile :: "vol_docker \<Rightarrow> string \<Rightarrow> string \<Rightarrow> nat \<Rightarrow> (tar_hdr \<times> vol_call list) res \<times> vol_call list" where
  "ReadFile k vol subPath maxBytes =
     (case cleanSubPath subPath of
        Inl e \<Rightarrow> (Inl e, [])
      | Inr absp \<Rightarrow>
        (case createHelperWithMode k vol True of
           (Inl e, tr) \<Rightarrow> (Inl e, tr)
         | (Inr cid, tr) \<Rightarrow>
           let tr = tr @ [VCopyFrom cid (Join ''/volume'' absp)] in
           case copy_from k of
             Inl e \<Rightarrow> (Inl (copy_error absp vol e), tr @ [VRemove cid])
           | Inr (hs, end) \<Rightarrow>
             (case find_file absp maxBytes hs end of
                Inl e \<Rightarrow> (Inl e, tr @ [VRemove cid])
              | Inr h \<Rightarrow> (Inr (h, [VRemove cid]), tr))))"

text \<open>readerWithTeardown.Close: the calls of a close, and the state of the flag after it.\<close>

definition close_reader :: "vol_call list \<Rightarrow> bool \<Rightarrow> vol_call list \<times> bool" where
  "close_reader onClose closed = (if closed then ([], True) else (onClose, True))"

definition WriteFile :: "gotime \<Rightarrow> vol_docker \<Rightarrow> string \<Rightarrow> string \<Rightarrow> nat \<Rightarrow> nat \<Rightarrow> unit res \<times> vol_call list" where
  "WriteFile now k vol subPath mode0 sz =
     (case cleanSubPath subPath of
        Inl e \<Rightarrow> (Inl e, [])
      | Inr absp \<Rightarrow>
        if absp = ''/'' \<or> has_suffix absp ''/'' then (Inl (ErrText ''subPath must point at a file, not a directory''), [])
        else let mode = (if mode0 = 0 then 420 else mode0) in
        case createHelperWithMode k vol False of
          (Inl e, tr) \<Rightarrow> (Inl e, tr)
        | (Inr cid, tr) \<Rightarrow>
          let tr = tr @ [VCopyTo cid ''/volume'' (writeVolumeTar now absp mode sz), VRemove cid] in
          case copy_to k of
            Inl e \<Rightarrow> (Inl (ErrWrap ''copy to helper: '' e), tr)
          | Inr _ \<Rightarrow> (case tar_write k of Inl e \<Rightarrow> (Inl (ErrWrap ''tar stream: '' e), tr) | Inr _ \<Rightarrow> (Inr (), tr)))"

section \<open>Confinement\<close>

lemma join_with_concat: "ps \<noteq> [] \<Longrightarrow> c # join_with [c] ps = concat (List.map ((#) c) ps)"
  by (induction ps rule: induct_list012) auto

lemma contains_str_iff: "contains_str s p \<longleftrightarrow> (\<exists>a b. s = a @ p @ b)"
proof (induction s)
  case (Cons x xs)
  have "(\<exists>a b. x # xs = a @ p @ b) \<longleftrightarrow> (\<exists>b. x # xs = p @ b) \<or> (\<exists>a b. xs = a @ p @ b)"
    by (metis append_Cons append_Nil list.sel(3) neq_Nil_conv)
  then show ?case using Cons by (simp add: has_prefix_iff)
qed auto

lemma split_on_mem:
  assumes "c \<notin> set x"
  shows "x \<in> set (split_on c s) \<longleftrightarrow> (\<exists>l r. c # s @ [c] = l @ (c # x @ [c]) @ r)"
proof
  assume "x \<in> set (split_on c s)"
  then obtain ps qs where sp: "split_on c s = ps @ x # qs" by (meson split_list)
  have "c # s = concat (List.map ((#) c) (split_on c s))"
    using join_with_concat[OF split_on_nonempty, of c c s] join_split[of c s] by simp
  then have "c # s @ [c] = concat (List.map ((#) c) ps) @ (c # x) @ concat (List.map ((#) c) qs) @ [c]"
    by (simp add: sp)
  moreover have "\<exists>t. concat (List.map ((#) c) qs) @ [c] = c # t" by (cases qs) auto
  ultimately show "\<exists>l r. c # s @ [c] = l @ (c # x @ [c]) @ r" by (metis append.assoc append_Cons append_Nil)
next
  assume "\<exists>l r. c # s @ [c] = l @ (c # x @ [c]) @ r"
  then obtain l r where e: "c # s @ [c] = l @ (c # x @ [c]) @ r" by blast
  have "c # s = l @ c # x \<or> (\<exists>r'. c # s = l @ c # x @ c # r')"
    using e by (cases r rule: rev_cases) auto
  moreover have "x \<in> set (split_on c s)" if "c # s = l @ c # x @ c # r'" for r'
    using that assms by (cases l) (auto simp: split_on_concat split_on_append split_on_no_sep)
  moreover have "x \<in> set (split_on c s)" if "c # s = l @ c # x"
    using that assms by (cases l) (auto simp: split_on_concat split_on_no_sep)
  ultimately show "x \<in> set (split_on c s)" by blast
qed

lemma containsParentRef_iff:
  assumes "is_abs p"
  shows "containsParentRef p \<longleftrightarrow> ''..'' \<in> set (split_on CHR ''/'' p)"
proof -
  obtain q where q: "p = CHR ''/'' # q" using is_abs_Cons[OF assms] by blast
  have "containsParentRef p \<longleftrightarrow> (\<exists>l r. p @ ''/'' = l @ ''/../'' @ r)"
  proof
    assume "containsParentRef p"
    then consider a b where "p = a @ ''/../'' @ b" | r where "p = r @ ''/..''"
      by (auto simp: containsParentRef_def contains_str_iff has_suffix_iff)
    then show "\<exists>l r. p @ ''/'' = l @ ''/../'' @ r"
    proof cases
      case 1
      then have "p @ ''/'' = a @ ''/../'' @ (b @ ''/'')" by simp
      then show ?thesis by blast
    next
      case 2
      then have "p @ ''/'' = r @ ''/../'' @ []" by simp
      then show ?thesis by blast
    qed
  next
    assume "\<exists>l r. p @ ''/'' = l @ ''/../'' @ r"
    then obtain l r where "p @ ''/'' = l @ ''/../'' @ r" by blast
    then show "containsParentRef p"
      by (cases r rule: rev_cases) (auto simp: containsParentRef_def contains_str_iff has_suffix_iff)
  qed
  also have "\<dots> \<longleftrightarrow> (\<exists>l r. CHR ''/'' # p @ ''/'' = l @ ''/../'' @ r)" (is "?A \<longleftrightarrow> ?B")
  proof
    assume ?A then show ?B by (metis append_Cons)
  next
    assume ?B
    then obtain l r where "CHR ''/'' # p @ ''/'' = l @ ''/../'' @ r" by blast
    then show ?A by (cases l) (auto simp: q)
  qed
  also have "\<dots> \<longleftrightarrow> ''..'' \<in> set (split_on CHR ''/'' p)"
    by (subst split_on_mem) auto
  finally show ?thesis .
qed

text \<open>A caller of the volume browser stays inside the volume: a path with a dot-dot among its names is refused, and
  every other path is read from the helper at the volume's mount point followed by exactly the names the caller gave,
  empty names and dots dropped.\<close>

theorem volume_path_confined:
  "(case cleanSubPath p of
      Inl e \<Rightarrow> ''..'' \<in> set (split_on CHR ''/'' p)
    | Inr c \<Rightarrow> ''..'' \<notin> set (split_on CHR ''/'' p)
        \<and> comps (Join ''/volume'' c) = ''volume'' # filter (\<lambda>n. n \<noteq> [] \<and> n \<noteq> ''.'') (split_on CHR ''/'' p))"
proof -
  define q where "q = (if \<not> has_prefix (if p = [] then ''/'' else p) ''/'' then ''/'' @ p else if p = [] then ''/'' else p)"
  have a: "is_abs q" by (auto simp: q_def is_abs_def)
  have m: "''..'' \<in> set (split_on CHR ''/'' q) \<longleftrightarrow> ''..'' \<in> set (split_on CHR ''/'' p)"
    by (auto simp: q_def)
  have f: "filter (\<lambda>n. n \<noteq> [] \<and> n \<noteq> ''.'') (split_on CHR ''/'' q) = filter (\<lambda>n. n \<noteq> [] \<and> n \<noteq> ''.'') (split_on CHR ''/'' p)"
    by (auto simp: q_def)
  have c: "cleanSubPath p = (if containsParentRef q
      then Inl (ErrText (''path '' @ quoted q @ '' contains '' @ [CHR 0x27] @ ''..'' @ [CHR 0x27])) else Inr (Clean q))"
    using Clean_abs(1)[OF a] by (auto simp: cleanSubPath_def q_def Let_def is_abs_def)
  show ?thesis
  proof (cases "containsParentRef q")
    case True
    then show ?thesis using c m containsParentRef_iff[OF a] by simp
  next
    case False
    then have n: "''..'' \<notin> set (split_on CHR ''/'' q)" using containsParentRef_iff[OF a] by simp
    have k: "comps (Clean q) = filter (\<lambda>n. n \<noteq> [] \<and> n \<noteq> ''.'') (split_on CHR ''/'' q)"
      using n by (simp add: Clean_abs(2)[OF a] clean_comps_plain)
    have v: "comps ''/volume'' = [''volume'']" by code_simp
    have w: "is_abs ''/volume''" by code_simp
    have g: "''..'' \<notin> set (comps (Clean q))" "''.'' \<notin> set (comps (Clean q))"
      using Clean_abs(3)[OF a] by (auto simp: good_comp_def)
    have "comps (Clean (''/volume'' @ CHR ''/'' # Clean q)) = comps (''/volume'' @ CHR ''/'' # Clean q)"
      using w g v by (intro Clean_plain) (simp_all add: comps_append del: append_Cons append_Nil)
    then have "comps (Join ''/volume'' (Clean q)) = ''volume'' # comps (Clean q)"
      unfolding Join_abs[OF w] comps_append v by simp
    then show ?thesis using False c n m k f by simp
  qed
qed

text \<open>Browsing is read-only and cleans up: listing and reading mount the volume read-only, only a write mounts it
  writable, and on every path through these operations, errors of Docker included, a helper that was created is removed
  exactly once; after a successful read the removal is what closing the contents does, once, however often it is closed.\<close>

definition helpers_clean :: "bool \<Rightarrow> string \<Rightarrow> vol_docker \<Rightarrow> vol_call list \<Rightarrow> bool" where
  "helpers_clean readonly vol k tr \<longleftrightarrow>
     (\<forall>v ro. VCreate v ro \<in> set tr \<longrightarrow> v = vol \<and> ro = readonly)
     \<and> (\<forall>cid. create_container k = Inr cid \<longrightarrow> count_list tr (VRemove cid) = count_list tr (VCreate vol readonly))"

lemma createHelper_Inr:
  "createHelperWithMode k vol ro = (Inr cid, tr) \<Longrightarrow> create_container k = Inr cid
     \<and> tr \<in> {[VInspectImage (helperImage k), VCreate vol ro], [VInspectImage (helperImage k), VPull (helperImage k), VCreate vol ro]}"
  by (auto simp: createHelperWithMode_def ensureHelperImage_def Let_def split: sum.splits prod.splits if_splits)

lemma helper_fail_clean:
  "createHelperWithMode k vol ro = (Inl e, tr) \<Longrightarrow> helpers_clean ro vol k tr"
  by (auto simp: createHelperWithMode_def ensureHelperImage_def helpers_clean_def Let_def split: sum.splits prod.splits if_splits)

lemma helper_ok_clean:
  assumes "createHelperWithMode k vol ro = (Inr cid, tr)" "\<And>v r. VCreate v r \<notin> set mid" "\<And>c. VRemove c \<notin> set mid"
  shows "helpers_clean ro vol k (tr @ mid @ [VRemove cid])"
proof -
  have "count_list mid (VRemove cid) = 0" "count_list mid (VCreate vol ro) = 0"
    using assms(2,3) by (auto simp: count_list_0_iff)
  then show ?thesis using createHelper_Inr[OF assms(1)] assms(2) by (auto simp: helpers_clean_def)
qed

lemma helpers_clean_Nil: "helpers_clean ro vol k []"
  by (simp add: helpers_clean_def)

theorem browser_lifecycle:
  "helpers_clean True vol k (snd (ListPath k vol p))
   \<and> helpers_clean False vol k (snd (WriteFile now k vol p mode sz))
   \<and> helpers_clean True vol k
       (case ReadFile k vol p maxBytes of
          (Inl e, tr) \<Rightarrow> tr
        | (Inr (h, onClose), tr) \<Rightarrow>
            (let (calls, closed) = close_reader onClose False in tr @ calls @ fst (close_reader onClose closed)))"
proof (intro conjI)
  show "helpers_clean True vol k (snd (ListPath k vol p))"
    using helper_fail_clean[of k vol True] helper_ok_clean[of k vol True _ _ "[VCopyFrom _ _]"] helpers_clean_Nil
    by (auto simp: ListPath_def Let_def split: sum.split prod.split)
  show "helpers_clean False vol k (snd (WriteFile now k vol p mode sz))"
    using helper_fail_clean[of k vol False] helper_ok_clean[of k vol False _ _ "[VCopyTo _ _ _]"] helpers_clean_Nil
    by (auto simp: WriteFile_def Let_def split: sum.split prod.split)
  show "helpers_clean True vol k
       (case ReadFile k vol p maxBytes of
          (Inl e, tr) \<Rightarrow> tr
        | (Inr (h, onClose), tr) \<Rightarrow>
            (let (calls, closed) = close_reader onClose False in tr @ calls @ fst (close_reader onClose closed)))"
    using helper_fail_clean[of k vol True] helper_ok_clean[of k vol True _ _ "[VCopyFrom _ _]"] helpers_clean_Nil
    by (auto simp: ReadFile_def close_reader_def Let_def split: sum.split prod.split)
qed

text \<open>Reading a directory that holds a file gives that file, not the refusal the program means to give.\<close>

lemma read_directory_gives_file:
  "th_type d = TypeDir \<Longrightarrow> th_type f = TypeReg \<Longrightarrow> th_size f \<le> maxBytes \<Longrightarrow> find_file p maxBytes (d # f # hs) end = Inr f"
  by simp

section \<open>Listings\<close>

lemma parseListing_entries:
  "parseListing n dir root hs end out = Inr es \<Longrightarrow> length out \<le> n \<Longrightarrow>
     \<exists>new. es = out @ new \<and> length es \<le> n
       \<and> (\<forall>e \<in> set new. CHR ''/'' \<notin> set (fe_name e) \<and> fe_path e = Join dir (fe_name e)
            \<and> (\<exists>h \<in> set hs. trim_suffix (tar_rel root (th_name h)) ''/'' = fe_name e \<and> fe_size e = th_size h))"
proof (induction n dir root hs "end" out arbitrary: es rule: parseListing.induct)
  case (3 n dir root h hs "end" out)
  let ?rel = "tar_rel root (th_name h)"
  let ?e = "\<lparr>fe_name = trim_suffix ?rel ''/'', fe_path = Join dir (trim_suffix ?rel ''/''), fe_is_dir = (th_type h = TypeDir),
      fe_size = th_size h, fe_mode = th_mode h, fe_mtime = th_mtime h, fe_link = th_link h\<rparr>"
  consider "length out \<ge> n" | "length out < n" "?rel = [] \<or> CHR ''/'' \<in> set (trim_suffix ?rel ''/'')"
    | "length out < n" "?rel \<noteq> []" "CHR ''/'' \<notin> set (trim_suffix ?rel ''/'')" by fastforce
  then show ?case
  proof cases
    case 1
    then show ?thesis using "3.prems" by auto
  next
    case 2
    then have "parseListing n dir root hs end out = Inr es" using "3.prems"(1) by (auto simp: Let_def split: if_splits)
    then show ?thesis using "3.IH"(1,2) 2 "3.prems"(2) by fastforce
  next
    case 3
    then have "parseListing n dir root hs end (out @ [?e]) = Inr es" using "3.prems" by (auto simp: Let_def)
    then obtain new where "es = (out @ [?e]) @ new" "length es \<le> n"
      "\<forall>e \<in> set new. CHR ''/'' \<notin> set (fe_name e) \<and> fe_path e = Join dir (fe_name e)
            \<and> (\<exists>h \<in> set hs. trim_suffix (tar_rel root (th_name h)) ''/'' = fe_name e \<and> fe_size e = th_size h)"
      using "3.IH"(3)[of ?rel "trim_suffix ?rel ''/''" es] 3 by auto
    then show ?thesis using 3(3) by (intro exI[of _ "?e # new"]) auto
  qed
qed auto

end
