(* ===== verification/World.thy ===== *)
theory World
  imports Retry Store Compose_Types Ports Volume_Browser "HOL-Library.State_Monad"
begin

text \<open>
  The world of a deployment: everything the deployer of internal/stack/deployer.go asks of the Docker daemon, the
  clock, the network and the file system is an event of a log that holds the question and the answer. The answers come
  from the record outside, one function per kind of call, of the log so far; the record outside stands for any behaviour of the outside,
  including containers that change between two calls. The state is the log and the database.

  The steps are written in the state monad of the library, with \<open>try_with\<close> for Go's "if err != nil return a wrapped
  error". The triples \<open>valid\<close> and the preservation rules \<open>keeps\<close> carry the proofs about them.
\<close>

section \<open>What Docker says\<close>

record container_summary =
  sm_id :: string
  sm_names :: "string list"
  sm_image :: string
  sm_state :: string
  sm_labels :: "(string \<times> string) list"

record container_state =
  Running :: bool
  Health :: "string option" \<comment> \<open>the status; None when no health check is defined\<close>
  ExitCode :: int

text \<open>container.Config, HostConfig and the endpoints of NetworkingConfig, as far as the program sets them.\<close>

record container_config =
  cc_image :: string
  cc_env :: "string list"
  cc_labels :: "(string \<times> string) list"
  cc_cmd :: "string list"
  cc_entrypoint :: "string list"
  cc_working_dir :: string
  cc_user :: string
  cc_hostname :: string
  cc_domainname :: string
  cc_stop_signal :: string
  cc_stop_timeout :: "int option"
  cc_healthcheck :: "(string list \<times> int \<times> int \<times> int \<times> int) option"
  cc_exposed :: "string set"
  cc_bindings :: "string \<Rightarrow> (string \<times> string) list"
  cc_binds :: "string list"
  cc_dns :: "string list"
  cc_dns_search :: "string list"
  cc_extra_hosts :: "string list"
  cc_cap_add :: "string list"
  cc_cap_drop :: "string list"
  cc_privileged :: bool
  cc_tmpfs :: "(string \<times> string) list"
  cc_init :: "bool option"
  cc_shm_size :: int
  cc_restart :: string
  cc_log_config :: "(string \<times> (string \<times> string) list) option"
  cc_memory :: int
  cc_nano_cpus :: int
  cc_endpoints :: "(string \<times> string list) list"

record container_info =
  ci_state :: "container_state option"
  ci_config :: container_config
  ci_networks :: "string list"

text \<open>gogit.CloneOptions and the directory.\<close>

record clone_opts =
  co_dir :: string
  co_url :: string
  co_ref :: "string option"
  co_user :: string
  co_token :: string

datatype event =
    EList string "container_summary list res"
  | EInspect string "container_info res"
  | ECreate string container_config "string res"
  | EStart string "unit res"
  | EStop string int "unit res"
  | ERemove string "unit res"
  | EImageInspect string "unit res"
  | EPull string "(string \<times> string \<times> string) option" "unit res"
  | EDrain "unit res"
  | ENetConnect string string "unit res"
  | ENetList "string list res"
  | ENetCreate string string "(string \<times> string) list" "(string \<times> string) list" "unit res"
  | EVolInspect string "unit res"
  | EVolCreate string string "(string \<times> string) list" "(string \<times> string) list" "unit res"
  | EVolList "string list res"
  | EListStack string "container_summary list res"
  | EClone clone_opts "unit res"
  | EHead "string res"
  | EReadEnv string "string res"
  | ETick bool \<comment> \<open>a wait in a polling loop: whether the timeout won\<close>
  | ESleep int bool
  | ERandom int int
  | ENow gotime
  | ENewID "string res"
  | EMkdir string "unit res"
  | ERemoveAll string "unit res"
  | EReadCompose string "gerr option"
  | EHost string "gerr option" \<comment> \<open>the client for a registered Docker host\<close>
  | ENonce "string option"
  | EStore string "gerr option" \<comment> \<open>a method of the store, and the database's own failure of it\<close>
  | ENotify string string string string \<comment> \<open>sink, type, stack and message of a notification\<close>
  | ECall string "string list" "gerr option" \<comment> \<open>another call of the HTTP handlers: its name, its arguments and its error\<close>
  | EVolume string "vol_call list" \<comment> \<open>an operation of the volume browser on a host\<close>

type_synonym log = "event list"

record outside =
  o_list :: "log \<Rightarrow> string \<Rightarrow> container_summary list res"
  o_inspect :: "log \<Rightarrow> string \<Rightarrow> container_info res"
  o_create :: "log \<Rightarrow> string \<Rightarrow> container_config \<Rightarrow> string res"
  o_start :: "log \<Rightarrow> string \<Rightarrow> unit res"
  o_stop :: "log \<Rightarrow> string \<Rightarrow> unit res"
  o_remove :: "log \<Rightarrow> string \<Rightarrow> unit res"
  o_image_inspect :: "log \<Rightarrow> string \<Rightarrow> unit res"
  o_pull :: "log \<Rightarrow> string \<Rightarrow> (string \<times> string \<times> string) option \<Rightarrow> unit res"
  o_drain :: "log \<Rightarrow> unit res" \<comment> \<open>reading the pull's progress to its end\<close>
  o_net_connect :: "log \<Rightarrow> string \<Rightarrow> string \<Rightarrow> unit res"
  o_net_list :: "log \<Rightarrow> string list res"
  o_net_create :: "log \<Rightarrow> string \<Rightarrow> string \<Rightarrow> (string \<times> string) list \<Rightarrow> (string \<times> string) list \<Rightarrow> unit res"
  o_vol_inspect :: "log \<Rightarrow> string \<Rightarrow> unit res"
  o_vol_create :: "log \<Rightarrow> string \<Rightarrow> string \<Rightarrow> (string \<times> string) list \<Rightarrow> (string \<times> string) list \<Rightarrow> unit res"
  o_vol_list :: "log \<Rightarrow> string list res"
  o_list_stack :: "log \<Rightarrow> string \<Rightarrow> container_summary list res"
  o_clone :: "log \<Rightarrow> clone_opts \<Rightarrow> unit res"
  o_head :: "log \<Rightarrow> string res"
  o_read :: "log \<Rightarrow> string \<Rightarrow> string res"
  o_timeout :: "log \<Rightarrow> bool"
  o_ctx_err :: "log \<Rightarrow> gerr option"
  o_sleep :: "log \<Rightarrow> int \<Rightarrow> bool"
  o_random :: "log \<Rightarrow> int \<Rightarrow> int"
  o_now :: "log \<Rightarrow> gotime"
  o_new_id :: "log \<Rightarrow> string res"
  o_nonce :: "log \<Rightarrow> string option"
  o_mkdir :: "log \<Rightarrow> string \<Rightarrow> unit res"
  o_remove_all :: "log \<Rightarrow> string \<Rightarrow> unit res"
  o_fault :: "log \<Rightarrow> string \<Rightarrow> gerr option"

record world =
  w_log :: log
  w_db :: db

type_synonym 'a act = "(world, 'a) state"

section \<open>Steps\<close>

definition emit :: "(log \<Rightarrow> 'a) \<Rightarrow> ('a \<Rightarrow> event) \<Rightarrow> 'a act" where
  "emit ans ev = State (\<lambda>w. let a = ans (w_log w) in (a, w\<lparr>w_log := w_log w @ [ev a]\<rparr>))"

text \<open>A method of the store: the database may fail of itself, and then nothing changes; otherwise the statement runs.\<close>

definition store_call :: "outside \<Rightarrow> string \<Rightarrow> (db \<Rightarrow> 'a res \<times> db) \<Rightarrow> 'a res act" where
  "store_call \<Omega> op f = do {
     fault \<leftarrow> emit (\<lambda>l. o_fault \<Omega> l op) (EStore op);
     case fault of
       Some e \<Rightarrow> State_Monad.return (Inl e)
     | None \<Rightarrow> State (\<lambda>w. let (r, d) = f (w_db w) in (r, w\<lparr>w_db := d\<rparr>)) }"

text \<open>A statement that only reads, and one that answers with an error or nothing.\<close>

definition reading :: "(db \<Rightarrow> 'a res) \<Rightarrow> db \<Rightarrow> 'a res \<times> db" where
  "reading f d = (f d, d)"

definition writing :: "(db \<Rightarrow> gerr option \<times> db) \<Rightarrow> db \<Rightarrow> unit res \<times> db" where
  "writing f d = (case f d of (None, d') \<Rightarrow> (Inr (), d') | (Some e, d') \<Rightarrow> (Inl e, d'))"

definition try_with :: "(gerr \<Rightarrow> gerr) \<Rightarrow> 'a res act \<Rightarrow> ('a \<Rightarrow> 'b res act) \<Rightarrow> 'b res act" where
  "try_with wrap m f = do { r \<leftarrow> m; case r of Inl e \<Rightarrow> State_Monad.return (Inl (wrap e)) | Inr x \<Rightarrow> f x }"

definition fail :: "gerr \<Rightarrow> 'a res act" where "fail e = State_Monad.return (Inl e)"
definition ok :: "'a \<Rightarrow> 'a res act" where "ok x = State_Monad.return (Inr x)"

definition ContainerList :: "outside \<Rightarrow> string \<Rightarrow> container_summary list res act" where
  "ContainerList \<Omega> name = emit (\<lambda>l. o_list \<Omega> l name) (EList name)"

definition ContainerInspect :: "outside \<Rightarrow> string \<Rightarrow> container_info res act" where
  "ContainerInspect \<Omega> cid = emit (\<lambda>l. o_inspect \<Omega> l cid) (EInspect cid)"

definition ContainerCreate :: "outside \<Rightarrow> string \<Rightarrow> container_config \<Rightarrow> string res act" where
  "ContainerCreate \<Omega> name cfg = emit (\<lambda>l. o_create \<Omega> l name cfg) (ECreate name cfg)"

definition ContainerStart :: "outside \<Rightarrow> string \<Rightarrow> unit res act" where
  "ContainerStart \<Omega> cid = emit (\<lambda>l. o_start \<Omega> l cid) (EStart cid)"

definition ContainerStop :: "outside \<Rightarrow> string \<Rightarrow> int \<Rightarrow> unit res act" where
  "ContainerStop \<Omega> cid timeout = emit (\<lambda>l. o_stop \<Omega> l cid) (EStop cid timeout)"

definition ContainerRemove :: "outside \<Rightarrow> string \<Rightarrow> unit res act" where
  "ContainerRemove \<Omega> cid = emit (\<lambda>l. o_remove \<Omega> l cid) (ERemove cid)"

definition ImageInspect :: "outside \<Rightarrow> string \<Rightarrow> unit res act" where
  "ImageInspect \<Omega> ref = emit (\<lambda>l. o_image_inspect \<Omega> l ref) (EImageInspect ref)"

definition NetworkConnect :: "outside \<Rightarrow> string \<Rightarrow> string \<Rightarrow> unit res act" where
  "NetworkConnect \<Omega> net cid = emit (\<lambda>l. o_net_connect \<Omega> l net cid) (ENetConnect net cid)"

definition now :: "outside \<Rightarrow> gotime act" where
  "now \<Omega> = emit (o_now \<Omega>) ENow"

definition generateID :: "outside \<Rightarrow> string res act" where
  "generateID \<Omega> = emit (o_new_id \<Omega>) ENewID"

text \<open>The select between the timeout and the next tick.\<close>

definition tick :: "outside \<Rightarrow> bool act" where
  "tick \<Omega> = emit (o_timeout \<Omega>) ETick"

text \<open>retry.Do around a step, with the policy of the deployer.\<close>

definition world_retry_env :: "outside \<Rightarrow> world retry_env" where
  "world_retry_env \<Omega> =
     \<lparr>ctx_err = (\<lambda>w. o_ctx_err \<Omega> (w_log w)),
      sleep_done = (\<lambda>d. run_state (emit (\<lambda>l. o_sleep \<Omega> l d) (ESleep d))),
      int63n = (\<lambda>n. run_state (emit (\<lambda>l. o_random \<Omega> l n) (ERandom n)))\<rparr>"

definition res_err :: "'a res \<Rightarrow> gerr option" where
  "res_err r = (case r of Inl e \<Rightarrow> Some e | Inr _ \<Rightarrow> None)"

definition retry_step :: "outside \<Rightarrow> retry_policy \<Rightarrow> unit res act \<Rightarrow> unit res act" where
  "retry_step \<Omega> p m = State (\<lambda>w.
     case retry_do (world_retry_env \<Omega>) p (\<lambda>w. case run_state m w of (r, w') \<Rightarrow> (res_err r, w')) w of
       (None, w') \<Rightarrow> (Inr (), w') | (Some e, w') \<Rightarrow> (Inl e, w'))"

section \<open>Triples\<close>

definition valid :: "('s \<Rightarrow> bool) \<Rightarrow> ('s, 'a) state \<Rightarrow> ('a \<Rightarrow> 's \<Rightarrow> bool) \<Rightarrow> bool" where
  "valid P m Q \<longleftrightarrow> (\<forall>s. P s \<longrightarrow> Q (fst (run_state m s)) (snd (run_state m s)))"

lemma validI: "(\<And>s a s'. P s \<Longrightarrow> run_state m s = (a, s') \<Longrightarrow> Q a s') \<Longrightarrow> valid P m Q"
  by (simp add: valid_def)

lemma validD: "valid P m Q \<Longrightarrow> P s \<Longrightarrow> run_state m s = (a, s') \<Longrightarrow> Q a s'"
  by (metis valid_def fst_conv snd_conv)

lemma valid_return [simp]: "valid P (State_Monad.return a) Q \<longleftrightarrow> (\<forall>s. P s \<longrightarrow> Q a s)"
  by (simp add: valid_def)

lemma valid_bind:
  assumes "valid P m R" "\<And>a. valid (R a) (f a) Q"
  shows "valid P (State_Monad.bind m f) Q"
  using assms unfolding valid_def run_state_bind case_prod_beta by blast

lemma valid_conseq: "valid P m Q \<Longrightarrow> (\<And>s. P' s \<Longrightarrow> P s) \<Longrightarrow> (\<And>a s. Q a s \<Longrightarrow> Q' a s) \<Longrightarrow> valid P' m Q'"
  unfolding valid_def by blast

lemma valid_conj: "valid P m Q \<Longrightarrow> valid P' m Q' \<Longrightarrow> valid (\<lambda>s. P s \<and> P' s) m (\<lambda>a s. Q a s \<and> Q' a s)"
  unfolding valid_def by blast

lemma valid_emit [simp]:
  "valid P (emit ans ev) Q \<longleftrightarrow>
     (\<forall>w. P w \<longrightarrow> Q (ans (w_log w)) (w\<lparr>w_log := w_log w @ [ev (ans (w_log w))]\<rparr>))"
  by (simp add: valid_def emit_def Let_def)

lemma valid_try:
  assumes "valid P m (\<lambda>r. case r of Inl e \<Rightarrow> Q (Inl (wrap e)) | Inr x \<Rightarrow> R x)" "\<And>x. valid (R x) (f x) Q"
  shows "valid P (try_with wrap m f) Q"
  unfolding try_with_def
proof (rule valid_bind[OF assms(1)])
  fix r show "valid ((case r of Inl e \<Rightarrow> Q (Inl (wrap e)) | Inr x \<Rightarrow> R x))
     (case r of Inl e \<Rightarrow> State_Monad.return (Inl (wrap e)) | Inr x \<Rightarrow> f x) Q"
    using assms(2) by (cases r) auto
qed

text \<open>Steps that keep a property of the world whatever they answer.\<close>

definition keeps :: "('s \<Rightarrow> bool) \<Rightarrow> ('s, 'a) state \<Rightarrow> bool" where
  "keeps I m \<longleftrightarrow> valid I m (\<lambda>_. I)"

named_theorems keep \<open>rules for keeps\<close>

lemma keepsD: "keeps I m \<Longrightarrow> I s \<Longrightarrow> I (snd (run_state m s))"
  by (simp add: keeps_def valid_def)

lemma keeps_return [keep]: "keeps I (State_Monad.return a)"
  by (simp add: keeps_def)

lemma keeps_bind [keep]: "keeps I m \<Longrightarrow> (\<And>a. keeps I (f a)) \<Longrightarrow> keeps I (State_Monad.bind m f)"
  unfolding keeps_def by (rule valid_bind)

lemma keeps_try [keep]: "keeps I m \<Longrightarrow> (\<And>x. keeps I (f x)) \<Longrightarrow> keeps I (try_with wrap m f)"
  unfolding try_with_def by (intro keeps_bind) (auto intro: keep split: sum.split)

lemma keeps_fail [keep]: "keeps I (fail e)" and keeps_ok [keep]: "keeps I (ok x)"
  by (simp_all add: fail_def ok_def keeps_return)

lemma keeps_emit: "(\<And>w. I w \<Longrightarrow> I (w\<lparr>w_log := w_log w @ [ev (ans (w_log w))]\<rparr>)) \<Longrightarrow> keeps I (emit ans ev)"
  by (simp add: keeps_def)

lemma keeps_store_call:
  assumes "\<And>w f. I w \<Longrightarrow> I (w\<lparr>w_log := w_log w @ [EStore op f]\<rparr>)" "\<And>w. I w \<Longrightarrow> I (w\<lparr>w_db := snd (f (w_db w))\<rparr>)"
  shows "keeps I (store_call \<Omega> op f)"
  unfolding store_call_def using assms
  by (intro keeps_bind keeps_emit)
     (auto simp: keeps_def valid_def case_prod_beta Let_def split: option.split)

lemma keeps_if [keep]: "(b \<Longrightarrow> keeps I m) \<Longrightarrow> (\<not> b \<Longrightarrow> keeps I n) \<Longrightarrow> keeps I (if b then m else n)"
  by simp

lemma keeps_case_option [keep]:
  "keeps I m \<Longrightarrow> (\<And>x. keeps I (f x)) \<Longrightarrow> keeps I (case opt of None \<Rightarrow> m | Some x \<Rightarrow> f x)"
  by (cases opt) simp_all

lemma keeps_case_sum [keep]:
  "(\<And>x. keeps I (f x)) \<Longrightarrow> (\<And>x. keeps I (g x)) \<Longrightarrow> keeps I (case s of Inl x \<Rightarrow> f x | Inr x \<Rightarrow> g x)"
  by (cases s) simp_all

lemma keeps_case_nat [keep]:
  "keeps I m \<Longrightarrow> (\<And>x. keeps I (f x)) \<Longrightarrow> keeps I (case k of 0 \<Rightarrow> m | Suc x \<Rightarrow> f x)"
  by (cases k) simp_all

lemma keeps_case_list [keep]:
  "keeps I m \<Longrightarrow> (\<And>x xs. keeps I (f x xs)) \<Longrightarrow> keeps I (case k of [] \<Rightarrow> m | x # xs \<Rightarrow> f x xs)"
  by (cases k) simp_all

lemma retry_loop_keeps:
  assumes "\<And>s. I s \<Longrightarrow> I (snd (fn s))" "\<And>d s. I s \<Longrightarrow> I (snd (sleep_done env d s))" "\<And>n s. I s \<Longrightarrow> I (snd (int63n env n s))"
    "I s"
  shows "I (snd (retry_loop env p fn n a le s))"
  using assms(4)
proof (induction n arbitrary: a le s)
  case (Suc n)
  obtain r1 s1 where fn: "fn s = (r1, s1)" by fastforce
  have s1: "I s1" using assms(1)[OF Suc.prems] fn by simp
  obtain d s2 where bo: "backoffDuration env p a s1 = (d, s2)" by fastforce
  have s2: "I s2" using s1 assms(3)[OF s1] bo by (auto simp: backoffDuration_def Let_def split: if_splits) (metis snd_conv)
  obtain c s3 where sl: "sleep_done env d s2 = (c, s3)" by fastforce
  have s3: "I s3" using assms(2)[OF s2, of d] sl by simp
  show ?case using Suc.prems s1 s3 Suc.IH[OF s3] by (auto simp: fn bo sl split: option.split)
qed simp

lemma keeps_retry:
  assumes m: "keeps I m" and sl: "\<And>w d b. I w \<Longrightarrow> I (w\<lparr>w_log := w_log w @ [ESleep d b]\<rparr>)"
    and ra: "\<And>w n k. I w \<Longrightarrow> I (w\<lparr>w_log := w_log w @ [ERandom n k]\<rparr>)"
  shows "keeps I (retry_step \<Omega> p m)"
  unfolding keeps_def valid_def
proof (intro allI impI)
  fix w assume w: "I w"
  let ?f = "\<lambda>w. case run_state m w of (r, w') \<Rightarrow> (res_err r, w')"
  have "I (snd (retry_do (world_retry_env \<Omega>) p ?f w))"
    unfolding retry_do_def
  proof (rule retry_loop_keeps[where I = I])
    show "I (snd (?f s))" if "I s" for s using keepsD[OF m that] by (simp add: case_prod_beta)
    show "I (snd (sleep_done (world_retry_env \<Omega>) d s))" if "I s" for d s
      using sl[OF that] by (simp add: world_retry_env_def emit_def Let_def)
    show "I (snd (int63n (world_retry_env \<Omega>) n s))" if "I s" for n s
      using ra[OF that] by (simp add: world_retry_env_def emit_def Let_def)
  qed (rule w)
  then show "I (snd (run_state (retry_step \<Omega> p m) w))"
    by (cases "retry_do (world_retry_env \<Omega>) p ?f w"; cases "fst (retry_do (world_retry_env \<Omega>) p ?f w)")
       (simp_all add: retry_step_def)
qed

end
