(* ===== verification/Registry.thy ===== *)
theory Registry
  imports Models Codec
begin

text \<open>
  internal/stack/secrets.go, internal/stack/registry_match.go and internal/store/secret_hash.go: how secrets
  enter a container's environment, how a set of secrets is hashed for drift detection, and which registry
  credential goes with an image. SHA-256 is an argument.
\<close>

section \<open>Secrets into the environment\<close>

text \<open>The name of an environment entry: everything before the first equals sign, the whole entry without one.\<close>

definition entry_name :: "string \<Rightarrow> string" where
  "entry_name entry = (case index_byte entry CHR ''='' of Some eq \<Rightarrow> take eq entry | None \<Rightarrow> entry)"

definition by_secret_name :: "stack_secret list \<Rightarrow> string \<Rightarrow> string option" where
  "by_secret_name secrets = map_of (rev (List.map (\<lambda>s. (sec_name s, sec_value s)) secrets))"

definition env_entry :: "string \<Rightarrow> string \<Rightarrow> string" where
  "env_entry k v = k @ ''='' @ v"

definition mergeSecretsIntoEnv :: "string list \<Rightarrow> stack_secret list \<Rightarrow> string list" where
  "mergeSecretsIntoEnv composeEnv secrets =
     (if secrets = [] then composeEnv
      else
        let byName = by_secret_name secrets;
            out = List.map (\<lambda>entry. case byName (entry_name entry) of
                     Some newVal \<Rightarrow> env_entry (entry_name entry) newVal | None \<Rightarrow> entry) composeEnv;
            overridden = {k \<in> set (List.map entry_name composeEnv). byName k \<noteq> None}
        in out @ List.map (\<lambda>s. env_entry (sec_name s) (sec_value s)) (filter (\<lambda>s. sec_name s \<notin> overridden) secrets))"

lemma entry_name_env: "CHR ''='' \<notin> set k \<Longrightarrow> entry_name (env_entry k v) = k"
  by (simp add: entry_name_def env_entry_def index_byte_append)

lemma entry_name_no_eq: "CHR ''='' \<notin> set (entry_name e)"
  by (auto simp: entry_name_def index_byte_None dest: index_byte_Some split: option.splits)

lemma by_secret_name_mem:
  assumes "distinct (List.map sec_name secrets)"
  shows "by_secret_name secrets n = Some v \<longleftrightarrow> (\<exists>s \<in> set secrets. sec_name s = n \<and> sec_value s = v)"
proof -
  have "distinct (List.map fst (rev (List.map (\<lambda>s. (sec_name s, sec_value s)) secrets)))"
    using assms by (simp add: rev_map comp_def flip: rev_map)
  then show ?thesis by (auto simp: by_secret_name_def image_iff)
qed

lemma by_secret_name_None: "by_secret_name secrets n = None \<longleftrightarrow> n \<notin> sec_name ` set secrets"
  by (force simp: by_secret_name_def map_of_eq_None_iff)

text \<open>Secrets win and nothing else changes: in the merged environment every entry of a secret's name carries the
  secret's value, at least one entry of that name is there, and the entries of every other name are exactly the
  compose file's, in its order.\<close>

theorem merge_secrets:
  assumes "distinct (List.map sec_name secrets)" "\<forall>s \<in> set secrets. CHR ''='' \<notin> set (sec_name s)"
  shows "(\<forall>s \<in> set secrets. env_entry (sec_name s) (sec_value s) \<in> set (mergeSecretsIntoEnv env secrets)
      \<and> (\<forall>e \<in> set (mergeSecretsIntoEnv env secrets). entry_name e = sec_name s \<longrightarrow> e = env_entry (sec_name s) (sec_value s)))
    \<and> (\<forall>n. n \<notin> sec_name ` set secrets \<longrightarrow>
        filter (\<lambda>e. entry_name e = n) (mergeSecretsIntoEnv env secrets) = filter (\<lambda>e. entry_name e = n) env)"
proof (cases "secrets = []")
  case False
  let ?by = "by_secret_name secrets"
  let ?new = "\<lambda>entry. case ?by (entry_name entry) of Some v \<Rightarrow> env_entry (entry_name entry) v | None \<Rightarrow> entry"
  let ?over = "{k \<in> set (List.map entry_name env). ?by k \<noteq> None}"
  let ?tail = "List.map (\<lambda>s. env_entry (sec_name s) (sec_value s)) (filter (\<lambda>s. sec_name s \<notin> ?over) secrets)"
  have m: "mergeSecretsIntoEnv env secrets = List.map ?new env @ ?tail"
    using False by (simp add: mergeSecretsIntoEnv_def Let_def)
  have by_some: "?by (sec_name s) = Some (sec_value s)" if "s \<in> set secrets" for s
    using by_secret_name_mem[OF assms(1)] that by blast
  have name_new: "entry_name (?new e) = entry_name e" for e
    using entry_name_no_eq[of e] by (simp add: entry_name_env split: option.split)
  have tail_name: "e \<in> set ?tail \<Longrightarrow> \<exists>s \<in> set secrets. entry_name e = sec_name s \<and> e = env_entry (sec_name s) (sec_value s)" for e
    using assms(2) by (auto simp: entry_name_env)
  have 1: "env_entry (sec_name s) (sec_value s) \<in> set (mergeSecretsIntoEnv env secrets)" if s: "s \<in> set secrets" for s
  proof (cases "sec_name s \<in> ?over")
    case True
    then obtain e where e: "e \<in> set env" "entry_name e = sec_name s" by auto
    then have "?new e = env_entry (sec_name s) (sec_value s)" using by_some[OF s] by simp
    then show ?thesis using e(1) unfolding m by force
  qed (use s m in auto)
  have 2: "e = env_entry (sec_name s) (sec_value s)"
    if s: "s \<in> set secrets" and e: "e \<in> set (mergeSecretsIntoEnv env secrets)" "entry_name e = sec_name s" for s e
  proof (cases "e \<in> set ?tail")
    case True
    then obtain s' where s': "s' \<in> set secrets" "entry_name e = sec_name s'" "e = env_entry (sec_name s') (sec_value s')"
      using tail_name by blast
    then have "sec_value s' = sec_value s" using by_some[OF s] by_some[OF s'(1)] e(2) by simp
    then show ?thesis using s' e(2) by simp
  next
    case False
    then obtain e0 where e0: "e = ?new e0" using e(1) unfolding m by auto
    then have "entry_name e0 = sec_name s" using name_new e(2) by simp
    then show ?thesis using e0 by_some[OF s] by simp
  qed
  have 3: "filter (\<lambda>e. entry_name e = n) (mergeSecretsIntoEnv env secrets) = filter (\<lambda>e. entry_name e = n) env"
    if n: "n \<notin> sec_name ` set secrets" for n
  proof -
    have "filter (\<lambda>e. entry_name e = n) ?tail = []" using n tail_name by (auto simp: filter_empty_conv)
    moreover have "filter (\<lambda>e. entry_name e = n) (List.map ?new es) = filter (\<lambda>e. entry_name e = n) es" for es
    proof (induction es)
      case (Cons e es)
      have "?new e = e" if "entry_name e = n" using that n by_secret_name_None[of secrets n] by simp
      then show ?case using Cons name_new[of e] by auto
    qed simp
    ultimately show ?thesis unfolding m by simp
  qed
  show ?thesis using 1 2 3 by blast
qed (simp add: mergeSecretsIntoEnv_def)

definition demo_sec :: "string \<Rightarrow> string \<Rightarrow> stack_secret" where
  "demo_sec n v = \<lparr>sec_stack = ''s'', sec_name = n, sec_value = v, sec_created = 1, sec_updated = 1\<rparr>"

lemma merge_secrets_witness:
  "env_entry ''A'' ''x'' \<in> set (mergeSecretsIntoEnv [''A=1'', ''B=2''] [demo_sec ''A'' ''x'', demo_sec ''C'' ''y''])"
  using merge_secrets[of "[demo_sec ''A'' ''x'', demo_sec ''C'' ''y'']" "[''A=1'', ''B=2'']"]
  by (simp add: demo_sec_def)

section \<open>The hash of a set of secrets\<close>

text \<open>The text the hash is taken of, for the names in sorted order: "len:name=len:value" and a newline each.\<close>

definition hash_line :: "string \<Rightarrow> string \<Rightarrow> string" where
  "hash_line n v = dec_nat (length n) @ '':'' @ n @ ''='' @ dec_nat (length v) @ '':'' @ v @ [CHR 0x0A]"

definition hash_input :: "stack_secret list \<Rightarrow> string" where
  "hash_input secrets =
     (let byName = by_secret_name secrets; names = sort (List.map sec_name secrets)
      in concat (List.map (\<lambda>n. hash_line n (case byName n of Some v \<Rightarrow> v | None \<Rightarrow> [])) names))"

definition HashStackSecrets :: "(string \<Rightarrow> string) \<Rightarrow> stack_secret list \<Rightarrow> string" where
  "HashStackSecrets sha256 secrets = (if secrets = [] then [] else hex_encode (sha256 (hash_input secrets)))"

lemma dec_nat_no_colon: "CHR '':'' \<notin> set (dec_nat n)"
proof -
  have "\<not> is_digit_char CHR '':''" by (simp add: is_digit_char_def less_eq_char_def)
  then show ?thesis using dec_nat_digits[of n] by (auto simp: list_all_iff)
qed

lemma prefixed_inj:
  assumes "dec_nat (length a) @ CHR '':'' # a @ r = dec_nat (length b) @ CHR '':'' # b @ s"
  shows "a = b \<and> r = s"
proof -
  have c1: "cut CHR '':'' (dec_nat (length a) @ CHR '':'' # a @ r) = (dec_nat (length a), Some (a @ r))"
    by (rule cut_append[OF dec_nat_no_colon])
  have c2: "cut CHR '':'' (dec_nat (length b) @ CHR '':'' # b @ s) = (dec_nat (length b), Some (b @ s))"
    by (rule cut_append[OF dec_nat_no_colon])
  have "(dec_nat (length a), Some (a @ r)) = (dec_nat (length b), Some (b @ s))"
    using c1 unfolding assms c2 by (rule sym)
  then have l: "dec_nat (length a) = dec_nat (length b)" and e: "a @ r = b @ s" by simp_all
  from l have "length a = length b" by (rule dec_nat_inj)
  with e show ?thesis using append_eq_append_conv[of a b r s] by blast
qed

lemma hash_line_inj: "hash_line n v @ r = hash_line m w @ s \<Longrightarrow> n = m \<and> v = w \<and> r = s"
proof -
  assume "hash_line n v @ r = hash_line m w @ s"
  then have "n = m \<and> CHR ''='' # dec_nat (length v) @ CHR '':'' # v @ CHR 0x0A # r
      = CHR ''='' # dec_nat (length w) @ CHR '':'' # w @ CHR 0x0A # s"
    by (intro prefixed_inj) (simp add: hash_line_def)
  then have "n = m" "dec_nat (length v) @ CHR '':'' # v @ CHR 0x0A # r = dec_nat (length w) @ CHR '':'' # w @ CHR 0x0A # s"
    by simp_all
  then show ?thesis using prefixed_inj[of v "CHR 0x0A # r" w "CHR 0x0A # s"] by simp
qed

lemma hash_lines_inj:
  "concat (List.map (\<lambda>(n, v). hash_line n v) xs) = concat (List.map (\<lambda>(n, v). hash_line n v) ys) \<Longrightarrow> xs = ys"
proof (induction xs arbitrary: ys)
  case Nil
  then show ?case by (cases ys) (auto simp: hash_line_def)
next
  case (Cons x xs)
  obtain n v where x: "x = (n, v)" by fastforce
  show ?case
  proof (cases ys)
    case Nil
    then show ?thesis using Cons.prems by (auto simp: x hash_line_def)
  next
    case (Cons y ys')
    obtain m w where y: "y = (m, w)" by fastforce
    then show ?thesis using Cons Cons.prems hash_line_inj[of n v _ m w] Cons.IH by (auto simp: x)
  qed
qed

definition secret_pairs :: "stack_secret list \<Rightarrow> (string \<times> string) set" where
  "secret_pairs secrets = (\<lambda>s. (sec_name s, sec_value s)) ` set secrets"

definition sorted_pairs :: "stack_secret list \<Rightarrow> (string \<times> string) list" where
  "sorted_pairs secrets =
     List.map (\<lambda>n. (n, case by_secret_name secrets n of Some v \<Rightarrow> v | None \<Rightarrow> [])) (sort (List.map sec_name secrets))"

lemma hash_input_pairs: "hash_input secrets = concat (List.map (\<lambda>(n, v). hash_line n v) (sorted_pairs secrets))"
  by (simp add: hash_input_def sorted_pairs_def comp_def)

lemma sorted_pairs_set:
  assumes "distinct (List.map sec_name secrets)"
  shows "set (sorted_pairs secrets) = secret_pairs secrets"
proof -
  have "by_secret_name secrets (sec_name s) = Some (sec_value s)" if "s \<in> set secrets" for s
    using by_secret_name_mem[OF assms] that by blast
  then show ?thesis by (force simp: sorted_pairs_def secret_pairs_def)
qed

lemma by_secret_name_pairs:
  assumes "distinct (List.map sec_name a)" "distinct (List.map sec_name b)" "secret_pairs a = secret_pairs b"
  shows "by_secret_name a = by_secret_name b"
proof
  have mem: "by_secret_name c n = Some v \<longleftrightarrow> (n, v) \<in> secret_pairs c"
    if "distinct (List.map sec_name c)" for c n v
    by (auto simp: by_secret_name_mem[OF that] secret_pairs_def image_iff)
  fix n
  have "by_secret_name a n = Some v \<longleftrightarrow> by_secret_name b n = Some v" for v
    by (simp add: mem assms)
  then show "by_secret_name a n = by_secret_name b n" by (metis option.exhaust)
qed

lemma sorted_names_pairs:
  assumes "distinct (List.map sec_name a)" "distinct (List.map sec_name b)" "secret_pairs a = secret_pairs b"
  shows "sort (List.map sec_name a) = sort (List.map sec_name b)"
proof -
  have "fst ` secret_pairs a = fst ` secret_pairs b" using assms(3) by simp
  then have "set (List.map sec_name a) = set (List.map sec_name b)" by (simp add: secret_pairs_def image_image)
  then show ?thesis using assms(1,2) by (metis sorted_list_of_set_sort_remdups distinct_remdups_id)
qed

text \<open>The hash the reconciler compares changes exactly when the secrets do: two sets of secrets, in any order, have
  the same hash if and only if they hold the same names with the same values, the empty set included, provided SHA-256
  does not collide on the two texts; the length prefixes rule out any confusion between a name and a value.\<close>

theorem secrets_hash_iff:
  assumes "distinct (List.map sec_name a)" "distinct (List.map sec_name b)"
    and "sha256 (hash_input a) = sha256 (hash_input b) \<Longrightarrow> hash_input a = hash_input b"
    and "\<And>t. sha256 t \<noteq> []"
  shows "HashStackSecrets sha256 a = HashStackSecrets sha256 b \<longleftrightarrow> secret_pairs a = secret_pairs b"
proof
  assume "secret_pairs a = secret_pairs b"
  moreover from this have "sorted_pairs a = sorted_pairs b"
    using by_secret_name_pairs[OF assms(1,2)] sorted_names_pairs[OF assms(1,2)] by (simp add: sorted_pairs_def)
  moreover have "a = [] \<longleftrightarrow> b = []" using \<open>secret_pairs a = secret_pairs b\<close> by (auto simp: secret_pairs_def)
  ultimately show "HashStackSecrets sha256 a = HashStackSecrets sha256 b"
    by (simp add: HashStackSecrets_def hash_input_pairs)
next
  assume h: "HashStackSecrets sha256 a = HashStackSecrets sha256 b"
  have ne: "hex_encode (sha256 t) \<noteq> []" for t
    using assms(4)[of t] by (metis hex.dec_enc hex_decode.simps(1) option.inject)
  have "a = [] \<longleftrightarrow> b = []" using h ne by (auto simp: HashStackSecrets_def split: if_splits dest: sym)
  moreover have "secret_pairs a = secret_pairs b" if "a \<noteq> []" "b \<noteq> []"
  proof -
    have "sha256 (hash_input a) = sha256 (hash_input b)" using h that hex.enc_inj by (simp add: HashStackSecrets_def)
    then have "hash_input a = hash_input b" by (rule assms(3))
    then have "sorted_pairs a = sorted_pairs b" unfolding hash_input_pairs by (rule hash_lines_inj)
    then show ?thesis using sorted_pairs_set assms(1,2) by metis
  qed
  ultimately show "secret_pairs a = secret_pairs b" by (cases "a = []") auto
qed

definition demo_sha :: "string \<Rightarrow> string" where "demo_sha t = CHR ''h'' # t"

lemma secrets_hash_iff_witness:
  "HashStackSecrets demo_sha [demo_sec ''AB'' ''CD''] \<noteq> HashStackSecrets demo_sha [demo_sec ''A'' ''BCD'']"
  using secrets_hash_iff[of "[demo_sec ''AB'' ''CD'']" "[demo_sec ''A'' ''BCD'']" demo_sha]
  by (simp add: demo_sha_def demo_sec_def secret_pairs_def)

section \<open>Registry credentials\<close>

definition defaultRegistryHost :: string where "defaultRegistryHost = ''docker.io''"

definition registryFromImage :: "string \<Rightarrow> string" where
  "registryFromImage img =
     (case cut CHR ''/'' img of
        (_, None) \<Rightarrow> defaultRegistryHost
      | (first, Some rest) \<Rightarrow>
          if CHR ''.'' \<in> set first \<or> CHR '':'' \<in> set first \<or> first = ''localhost'' then first else defaultRegistryHost)"

definition canonicalRegistryHost :: "string \<Rightarrow> string" where
  "canonicalRegistryHost host0 =
     (let host = to_lower (trim_space host0)
      in if host \<in> {''docker.io'', ''index.docker.io'', ''registry-1.docker.io'', ''registry.hub.docker.com''}
         then defaultRegistryHost else host)"

definition registryHostsMatch :: "string \<Rightarrow> string \<Rightarrow> bool" where
  "registryHostsMatch a b \<longleftrightarrow> canonicalRegistryHost a = canonicalRegistryHost b"

fun first_match :: "string \<Rightarrow> stack_registry list \<Rightarrow> stack_registry option" where
  "first_match server [] = None"
| "first_match server (c # cs) = (if registryHostsMatch (reg_server c) server then Some c else first_match server cs)"

text \<open>pickRegistryAuth; the candidates are never nil pointers in the program.\<close>

definition pickRegistryAuth :: "string \<Rightarrow> stack_registry list \<Rightarrow> stack_registry option \<Rightarrow> string \<times> string \<times> string" where
  "pickRegistryAuth imageRef candidates legacy =
     (let server = registryFromImage imageRef in
      case first_match server candidates of
        Some c \<Rightarrow> (reg_username c, reg_password c, server)
      | None \<Rightarrow>
        (case legacy of
           Some l \<Rightarrow> (if reg_username l \<noteq> [] \<and> registryHostsMatch (reg_server l) server
                     then (reg_username l, reg_password l, server) else ([], [], server))
         | None \<Rightarrow> ([], [], server)))"

lemma first_match_Some:
  "first_match server cs = Some c \<Longrightarrow> c \<in> set cs \<and> registryHostsMatch (reg_server c) server"
  by (induction cs) (auto split: if_splits)

lemma first_match_None: "first_match server cs = None \<longleftrightarrow> (\<forall>c \<in> set cs. \<not> registryHostsMatch (reg_server c) server)"
  by (induction cs) auto

text \<open>
  Whose password it is, stated without the functions of the code. An image names the registry before its first slash
  when that looks like a host, with a dot or a port or as localhost, and Docker Hub otherwise; two servers are the same
  registry when they are equal up to case and surrounding blanks, or are both names of Docker Hub.
\<close>

definition names_registry :: "string \<Rightarrow> string \<Rightarrow> bool" where
  "names_registry img h \<longleftrightarrow>
     (let registry = (\<lambda>r. CHR ''/'' \<notin> set r \<and> (CHR ''.'' \<in> set r \<or> CHR '':'' \<in> set r \<or> r = ''localhost'')
                          \<and> (\<exists>path. img = r @ ''/'' @ path))
      in registry h \<or> ((\<nexists>r. registry r) \<and> h = ''docker.io''))"

definition hub_names :: "string set" where
  "hub_names = {''docker.io'', ''index.docker.io'', ''registry-1.docker.io'', ''registry.hub.docker.com''}"

definition same_registry :: "string \<Rightarrow> string \<Rightarrow> bool" where
  "same_registry a b \<longleftrightarrow> to_lower (trim_space a) = to_lower (trim_space b)
     \<or> (to_lower (trim_space a) \<in> hub_names \<and> to_lower (trim_space b) \<in> hub_names)"

lemma same_registry_match: "registryHostsMatch a b \<longleftrightarrow> same_registry a b"
  by (auto simp: registryHostsMatch_def canonicalRegistryHost_def same_registry_def hub_names_def defaultRegistryHost_def Let_def)

lemma names_registry_unique: "names_registry img h \<longleftrightarrow> registryFromImage img = h"
proof (cases "CHR ''/'' \<in> set img")
  case True
  then obtain u v where img: "img = u @ CHR ''/'' # v" "CHR ''/'' \<notin> set u" by (meson split_list_first)
  have cut: "cut CHR ''/'' img = (u, Some v)" unfolding img(1) by (rule cut_append[OF img(2)])
  have one: "(\<exists>path. img = r @ ''/'' @ path) \<longleftrightarrow> r = u" if "CHR ''/'' \<notin> set r" for r
  proof
    assume "\<exists>path. img = r @ ''/'' @ path"
    then obtain path where "img = r @ CHR ''/'' # path" by auto
    then have "cut CHR ''/'' img = (r, Some path)" using cut_append[OF that] by simp
    then show "r = u" using cut by simp
  qed (use img in simp)
  show ?thesis
    using img(2) one
    by (auto simp: names_registry_def registryFromImage_def cut defaultRegistryHost_def Let_def)
next
  case False
  then have "\<nexists>r path. img = r @ ''/'' @ path" by auto
  then show ?thesis using cut_none[OF False] by (auto simp: names_registry_def registryFromImage_def defaultRegistryHost_def Let_def)
qed

text \<open>C24. A registry password goes to its own registry only: when pulling an image, the server authenticated to is the
  registry the image names, and a non-empty user name or password is that of a credential stored for this registry, up
  to case, blanks and the names of Docker Hub; it is an explicit credential of the stack whenever there is one for the
  registry, and else the legacy one.\<close>

theorem registry_auth_no_leak:
  assumes "pickRegistryAuth imageRef candidates legacy = (user, password, server)"
  shows "names_registry imageRef server \<and>
    (user \<noteq> [] \<or> password \<noteq> [] \<longrightarrow>
      (\<exists>c \<in> set candidates \<union> set_option legacy. reg_username c = user \<and> reg_password c = password
        \<and> same_registry (reg_server c) server
        \<and> (c \<in> set candidates \<or> (\<forall>c' \<in> set candidates. \<not> same_registry (reg_server c') server))))"
proof -
  have server: "server = registryFromImage imageRef"
    using assms by (auto simp: pickRegistryAuth_def Let_def split: option.splits if_splits)
  show ?thesis
  proof (cases "first_match server candidates")
    case None
    have "\<forall>c' \<in> set candidates. \<not> same_registry (reg_server c') server"
      using None by (simp add: first_match_None same_registry_match)
    then show ?thesis
      using assms None by (auto simp: names_registry_unique pickRegistryAuth_def server same_registry_match Let_def split: option.splits if_splits)
  next
    case (Some c)
    then show ?thesis
      using assms first_match_Some[OF Some]
      by (auto simp: names_registry_unique pickRegistryAuth_def server same_registry_match Let_def)
  qed
qed

definition demo_reg :: "string \<Rightarrow> stack_registry" where
  "demo_reg s = \<lparr>reg_stack = ''s'', reg_server = s, reg_username = ''u'', reg_password = ''p'', reg_created = 1, reg_updated = 1\<rparr>"

lemma registry_auth_no_leak_witness:
  "names_registry ''ghcr.io/foo/bar'' ''ghcr.io'' \<and> same_registry (reg_server (demo_reg ''ghcr.io'')) ''ghcr.io''"
proof -
  have "pickRegistryAuth ''ghcr.io/foo/bar'' [demo_reg ''ghcr.io''] None = (''u'', ''p'', ''ghcr.io'')"
    by code_simp
  from registry_auth_no_leak[OF this] show ?thesis by auto
qed

end
