(* ===== verification/Toposort.thy ===== *)
theory Toposort
  imports Compose_Types
begin

text \<open>
  resolveServiceFilter and topologicalSort of internal/stack/deployer.go: which services a deploy is for, with their
  transitive dependencies, and in which order. The services of a compose file are an association list with distinct
  names. Go ranges over a map in an order of its choice: each such loop takes that order as an argument, a
  function \<open>ord\<close> that permutes the list of keys.

  The recursive closure \<open>expand\<close> is a stack of names still to visit. Kahn's loop has fuel, one unit per service,
  which is shown to be enough.
\<close>

type_synonym services = "(string \<times> compose_service) list"

definition deps_of :: "services \<Rightarrow> string \<Rightarrow> string list" where
  "deps_of svcs n = (case map_of svcs n of None \<Rightarrow> [] | Some s \<Rightarrow> Names (cs_depends_on s))"

definition resolveServiceFilter :: "(string list \<Rightarrow> string list) \<Rightarrow> string \<Rightarrow> services \<Rightarrow> string list" where
  "resolveServiceFilter ord flt svcs =
     (if flt = [] then ord (List.map fst svcs)
      else filter (\<lambda>name. name \<noteq> [] \<and> map_of svcs name \<noteq> None)
                  (List.map trim_space (split_on CHR '','' flt)))"

section \<open>Transitive dependencies\<close>

function expand_all :: "services \<Rightarrow> string list \<Rightarrow> string list \<Rightarrow> string list" where
  "expand_all svcs [] expanded = expanded"
| "expand_all svcs (name # ws) expanded =
     (if name \<in> set expanded then expand_all svcs ws expanded
      else case map_of svcs name of
        None \<Rightarrow> expand_all svcs ws (name # expanded)
      | Some s \<Rightarrow> expand_all svcs (Names (cs_depends_on s) @ ws) (name # expanded))"
  by pat_completeness auto
termination
proof (relation "measures [\<lambda>(svcs, ws, e). card (fst ` set svcs - set e), \<lambda>(svcs, ws, e). length ws]")
  fix svcs :: services and name ws expanded s
  assume new: "name \<notin> set expanded" and s: "map_of svcs name = Some s"
  have "name \<in> fst ` set svcs" using s by (metis map_of_eq_None_iff option.distinct(1))
  with new have "fst ` set svcs - set (name # expanded) \<subset> fst ` set svcs - set expanded" by auto
  then have "card (fst ` set svcs - set (name # expanded)) < card (fst ` set svcs - set expanded)"
    by (intro psubset_card_mono) auto
  then show "((svcs, Names (cs_depends_on s) @ ws, name # expanded), (svcs, name # ws, expanded))
      \<in> measures [\<lambda>(svcs, ws, e). card (fst ` set svcs - set e), \<lambda>(svcs, ws, e). length ws]"
    by simp
next
  fix svcs :: services and name ws expanded
  assume "map_of svcs name = None"
  then have "fst ` set svcs - set (name # expanded) = fst ` set svcs - set expanded"
    by (auto simp: map_of_eq_None_iff)
  then show "((svcs, ws, name # expanded), (svcs, name # ws, expanded))
      \<in> measures [\<lambda>(svcs, ws, e). card (fst ` set svcs - set e), \<lambda>(svcs, ws, e). length ws]"
    by simp
qed simp_all

section \<open>Kahn's algorithm\<close>

text \<open>The loop that builds the in-degrees and the graph from dependencies to dependents, over the expanded names.\<close>

definition add_edge :: "string list \<Rightarrow> string \<Rightarrow> (string \<Rightarrow> string list) \<times> (string \<Rightarrow> int) \<Rightarrow> string \<Rightarrow>
    (string \<Rightarrow> string list) \<times> (string \<Rightarrow> int)" where
  "add_edge expanded name gi dep =
     (if dep \<in> set expanded
      then ((fst gi)(dep := fst gi dep @ [name]), (snd gi)(name := snd gi name + 1)) else gi)"

definition build_graph :: "services \<Rightarrow> string list \<Rightarrow> string list \<Rightarrow> (string \<Rightarrow> string list) \<times> (string \<Rightarrow> int)" where
  "build_graph svcs expanded names =
     foldl (\<lambda>gi name. foldl (add_edge expanded name) gi (deps_of svcs name)) (\<lambda>_. [], \<lambda>_. 0) names"

text \<open>The loop over the dependents of a node: decrement, and enqueue what reaches zero.\<close>

fun release :: "string list \<Rightarrow> (string \<Rightarrow> int) \<Rightarrow> string list \<Rightarrow> (string \<Rightarrow> int) \<times> string list" where
  "release [] deg queue = (deg, queue)"
| "release (d # ds) deg queue =
     (let deg' = deg(d := deg d - 1) in release ds deg' (if deg' d = 0 then queue @ [d] else queue))"

fun kahn_loop :: "nat \<Rightarrow> (string \<Rightarrow> string list) \<Rightarrow> (string \<Rightarrow> int) \<Rightarrow> string list \<Rightarrow> string list \<Rightarrow> string list option" where
  "kahn_loop fuel graph deg [] out = Some out"
| "kahn_loop 0 graph deg (node # queue) out = None"
| "kahn_loop (Suc fuel) graph deg (node # queue) out =
     (let (deg', queue') = release (graph node) deg queue in kahn_loop fuel graph deg' queue' (out @ [node]))"

definition topologicalSort ::
  "(string list \<Rightarrow> string list) \<Rightarrow> (string list \<Rightarrow> string list) \<Rightarrow> string list \<Rightarrow> services \<Rightarrow> string list res" where
  "topologicalSort ord1 ord2 targets svcs =
     (let expanded = expand_all svcs targets [];
          (graph, inDegree) = build_graph svcs expanded (ord1 expanded);
          queue = filter (\<lambda>n. inDegree n = 0) (ord2 expanded)
      in case kahn_loop (length expanded) graph inDegree queue [] of
           None \<Rightarrow> Inl (ErrText ''out of fuel'')
         | Some out \<Rightarrow>
             if length out \<noteq> length expanded then Inl (ErrText ''circular dependency detected among services'')
             else Inr out)"

section \<open>The closure\<close>

definition dep_rel :: "services \<Rightarrow> (string \<times> string) set" where
  "dep_rel svcs = {(n, d). d \<in> set (deps_of svcs n)}"

definition closure_of :: "services \<Rightarrow> string list \<Rightarrow> string set" where
  "closure_of svcs ts = {n. \<exists>t \<in> set ts. (t, n) \<in> (dep_rel svcs)\<^sup>*}"

lemma expand_all_sound:
  "set (expand_all svcs ws e) \<subseteq> set e \<union> closure_of svcs ws"
proof (induction svcs ws e rule: expand_all.induct)
  case (2 svcs name ws e)
  have c: "closure_of svcs ws \<subseteq> closure_of svcs (name # ws)" "name \<in> closure_of svcs (name # ws)"
    by (auto simp: closure_of_def)
  have d: "closure_of svcs (Names (cs_depends_on s) @ ws) \<subseteq> closure_of svcs (name # ws)"
    if "map_of svcs name = Some s" for s
  proof
    fix n assume "n \<in> closure_of svcs (Names (cs_depends_on s) @ ws)"
    then obtain t where t: "t \<in> set (Names (cs_depends_on s)) \<or> t \<in> set ws" "(t, n) \<in> (dep_rel svcs)\<^sup>*"
      by (auto simp: closure_of_def)
    show "n \<in> closure_of svcs (name # ws)"
    proof (cases "t \<in> set ws")
      case False
      then have "(name, t) \<in> dep_rel svcs" using t(1) that by (simp add: dep_rel_def deps_of_def)
      with t(2) show ?thesis by (auto simp: closure_of_def intro: converse_rtrancl_into_rtrancl)
    qed (use t in \<open>auto simp: closure_of_def\<close>)
  qed
  show ?case
  proof (cases "name \<in> set e")
    case True
    then show ?thesis using 2(1) c by auto
  next
    case False
    show ?thesis
    proof (cases "map_of svcs name")
      case None
      then show ?thesis using False 2(2) c by auto
    next
      case (Some s)
      then show ?thesis using False 2(3)[OF False Some] c d[OF Some] by auto
    qed
  qed
qed simp

lemma expand_all_mono: "set e \<union> set ws \<subseteq> set (expand_all svcs ws e)"
  by (induction svcs ws e rule: expand_all.induct) (auto split: option.split)

lemma expand_all_closed:
  "n \<in> set (expand_all svcs ws e) \<Longrightarrow> n \<notin> set e \<Longrightarrow> set (deps_of svcs n) \<subseteq> set (expand_all svcs ws e)"
proof (induction svcs ws e rule: expand_all.induct)
  case (2 svcs name ws e)
  show ?case
  proof (cases "name \<in> set e")
    case True
    then show ?thesis using 2 by simp
  next
    case new: False
    show ?thesis
    proof (cases "map_of svcs name")
      case None
      then show ?thesis using new 2(2) 2(4,5) by (cases "n = name") (auto simp: deps_of_def)
    next
      case (Some s)
      show ?thesis
      proof (cases "n = name")
        case True
        then show ?thesis
          using new Some expand_all_mono[of "name # e" "Names (cs_depends_on s) @ ws" svcs] by (auto simp: deps_of_def)
      next
        case False
        then show ?thesis using new Some 2(3)[OF new Some] 2(4,5) by simp
      qed
    qed
  qed
qed simp

lemma expand_all_distinct: "distinct e \<Longrightarrow> distinct (expand_all svcs ws e)"
  by (induction svcs ws e rule: expand_all.induct) (auto split: option.split)

lemma expand_all_closure: "set (expand_all svcs ts []) = closure_of svcs ts"
proof
  show "set (expand_all svcs ts []) \<subseteq> closure_of svcs ts" using expand_all_sound[of svcs ts "[]"] by simp
  have "(t, n) \<in> (dep_rel svcs)\<^sup>* \<Longrightarrow> t \<in> set (expand_all svcs ts []) \<Longrightarrow> n \<in> set (expand_all svcs ts [])" for t n
  proof (induction rule: rtrancl_induct)
    case (step y z)
    then show ?case using expand_all_closed[of y svcs ts "[]"] by (auto simp: dep_rel_def)
  qed
  then show "closure_of svcs ts \<subseteq> set (expand_all svcs ts [])"
    using expand_all_mono[of "[]" ts svcs] by (auto simp: closure_of_def)
qed

section \<open>Kahn's loop is right\<close>

definition wf_services :: "services \<Rightarrow> bool" where
  "wf_services svcs \<longleftrightarrow> distinct (List.map fst svcs) \<and> (\<forall>(n, s) \<in> set svcs. distinct (List.map fst (cs_depends_on s)))"

lemma deps_of_distinct: "wf_services svcs \<Longrightarrow> distinct (deps_of svcs n)"
  by (auto simp: wf_services_def deps_of_def Names_sorted split: option.split dest!: map_of_SomeD)

lemma add_edges:
  "distinct ds \<Longrightarrow> foldl (add_edge V name) gi ds =
     (\<lambda>d. if d \<in> set V \<and> d \<in> set ds then fst gi d @ [name] else fst gi d,
      (snd gi)(name := snd gi name + int (length (filter (\<lambda>d. d \<in> set V) ds))))"
proof (induction ds arbitrary: gi)
  case (Cons d ds)
  then show ?case by (cases "d \<in> set V") (auto simp: add_edge_def fun_eq_iff)
qed (cases gi; simp)

lemma build_graph_spec:
  assumes "wf_services svcs" "distinct names"
  shows "fst (build_graph svcs V names) d = (if d \<in> set V then filter (\<lambda>n. d \<in> set (deps_of svcs n)) names else [])
    \<and> snd (build_graph svcs V names) n =
       (if n \<in> set names then int (length (filter (\<lambda>d. d \<in> set V) (deps_of svcs n))) else 0)"
  using assms(2)
proof (induction names arbitrary: d n rule: rev_induct)
  case (snoc name names)
  have b: "build_graph svcs V (names @ [name]) = foldl (add_edge V name) (build_graph svcs V names) (deps_of svcs name)"
    by (simp add: build_graph_def)
  show ?case
    using snoc.IH snoc.prems by (auto simp: b add_edges[OF deps_of_distinct[OF assms(1)]])
qed (simp add: build_graph_def)

lemma release_spec:
  "distinct ds \<Longrightarrow> release ds deg queue =
     (\<lambda>n. if n \<in> set ds then deg n - 1 else deg n, queue @ filter (\<lambda>n. deg n = 1) ds)"
proof (induction ds arbitrary: deg queue)
  case (Cons d ds)
  have "filter (\<lambda>n. (deg(d := deg d - 1)) n = 1) ds = filter (\<lambda>n. deg n = 1) ds"
    using Cons.prems by (intro filter_cong) auto
  then show ?case using Cons by (auto simp: Let_def fun_eq_iff)
qed simp

text \<open>What holds at the head of the loop.\<close>

definition waiting :: "services \<Rightarrow> string list \<Rightarrow> string list \<Rightarrow> string \<Rightarrow> string list" where
  "waiting svcs V out n = filter (\<lambda>d. d \<in> set V \<and> d \<notin> set out) (deps_of svcs n)"

definition deps_first :: "services \<Rightarrow> string list \<Rightarrow> string list \<Rightarrow> bool" where
  "deps_first svcs V out \<longleftrightarrow> (\<forall>xs y ys. out = xs @ y # ys \<longrightarrow> set (deps_of svcs y) \<inter> set V \<subseteq> set xs)"

definition kahn_inv :: "services \<Rightarrow> string list \<Rightarrow> (string \<Rightarrow> int) \<Rightarrow> string list \<Rightarrow> string list \<Rightarrow> bool" where
  "kahn_inv svcs V deg queue out \<longleftrightarrow>
     distinct (out @ queue) \<and> set (out @ queue) \<subseteq> set V
     \<and> (\<forall>n \<in> set V. deg n = int (length (waiting svcs V out n)))
     \<and> (\<forall>n \<in> set V. deg n = 0 \<longleftrightarrow> n \<in> set (out @ queue))
     \<and> deps_first svcs V out"

lemma waiting_snoc:
  assumes "wf_services svcs" "node \<in> set V" "node \<notin> set out"
  shows "int (length (waiting svcs V (out @ [node]) n)) =
    int (length (waiting svcs V out n)) - (if node \<in> set (deps_of svcs n) then 1 else 0)"
proof -
  have "length (filter P ds) = length (filter (\<lambda>d. P d \<and> d \<noteq> node) ds) + (if node \<in> set ds then 1 else 0)"
    if "distinct ds" "P node" for P and ds :: "string list"
    using that by (induction ds) auto
  from this[OF deps_of_distinct[OF assms(1)], of "\<lambda>d. d \<in> set V \<and> d \<notin> set out" n] assms(2,3)
  show ?thesis by (simp add: waiting_def conj_ac)
qed

lemma deps_first_snoc:
  "deps_first svcs V out \<Longrightarrow> set (deps_of svcs node) \<inter> set V \<subseteq> set out \<Longrightarrow> deps_first svcs V (out @ [node])"
  unfolding deps_first_def by (auto simp: append_eq_append_conv2 append_eq_Cons_conv Cons_eq_append_conv)

lemma kahn_step:
  assumes "wf_services svcs" "kahn_inv svcs V deg (node # queue) out" "distinct names" "set names = set V"
    and "release (filter (\<lambda>n. node \<in> set (deps_of svcs n)) names) deg queue = (deg', queue')"
  shows "kahn_inv svcs V deg' queue' (out @ [node])"
proof -
  let ?L = "filter (\<lambda>n. node \<in> set (deps_of svcs n)) names"
  have d': "deg' = (\<lambda>n. if n \<in> set ?L then deg n - 1 else deg n)" "queue' = queue @ filter (\<lambda>n. deg n = 1) ?L"
    using assms(5) release_spec[of ?L deg queue] assms(3) by simp_all
  have inv: "distinct (out @ node # queue)" "set (out @ node # queue) \<subseteq> set V"
    "\<And>n. n \<in> set V \<Longrightarrow> deg n = int (length (waiting svcs V out n))"
    "\<And>n. n \<in> set V \<Longrightarrow> deg n = 0 \<longleftrightarrow> n \<in> set (out @ node # queue)" "deps_first svcs V out"
    using assms(2) by (auto simp: kahn_inv_def)
  have node: "node \<in> set V" "node \<notin> set out" "deg node = 0" using inv(1,2) inv(4)[of node] by auto
  have deg': "deg' n = int (length (waiting svcs V (out @ [node]) n))" if "n \<in> set V" for n
    using that inv(3) assms(4) by (simp add: d'(1) waiting_snoc[OF assms(1) node(1,2)])
  have no_neg: "node \<notin> set (deps_of svcs n)" if "n \<in> set V" "deg n = 0" for n
  proof
    assume "node \<in> set (deps_of svcs n)"
    then have "node \<in> set (waiting svcs V out n)" using node by (simp add: waiting_def)
    then show False using that inv(3)[of n] by auto
  qed
  have zero: "deg' n = 0 \<longleftrightarrow> n \<in> set ((out @ [node]) @ queue')" if "n \<in> set V" for n
    using that inv(4)[OF that] no_neg[OF that] assms(4) by (auto simp: d')
  have "distinct (filter (\<lambda>n. deg n = 1) ?L)" using assms(3) by simp
  moreover have "set (filter (\<lambda>n. deg n = 1) ?L) \<inter> set (out @ node # queue) = {}"
    using inv(2,4) assms(4) by fastforce
  ultimately have dist: "distinct ((out @ [node]) @ queue')" using inv(1) by (auto simp: d'(2))
  have sub: "set ((out @ [node]) @ queue') \<subseteq> set V" using inv(2) assms(4) by (auto simp: d'(2))
  have "waiting svcs V out node = []" using inv(3)[OF node(1)] node(3) by simp
  then have "set (deps_of svcs node) \<inter> set V \<subseteq> set out" by (auto simp: waiting_def filter_empty_conv)
  then have "deps_first svcs V (out @ [node])" using inv(5) deps_first_snoc by blast
  then show ?thesis unfolding kahn_inv_def using dist sub deg' zero by blast
qed

lemma kahn_loop_inv:
  assumes "wf_services svcs" "distinct names" "set names = set V" "distinct V"
    and "\<And>d. d \<in> set V \<Longrightarrow> graph d = filter (\<lambda>n. d \<in> set (deps_of svcs n)) names"
  shows "kahn_inv svcs V deg queue out \<Longrightarrow> length V \<le> length out + fuel \<Longrightarrow>
    \<exists>deg' out'. kahn_loop fuel graph deg queue out = Some out' \<and> kahn_inv svcs V deg' [] out'"
proof (induction fuel arbitrary: deg queue out)
  case 0
  show ?case
  proof (cases queue)
    case (Cons node q)
    then have "distinct (out @ node # q)" "set (out @ node # q) \<subseteq> set V" using 0(1) by (auto simp: kahn_inv_def)
    then have "length (out @ node # q) \<le> length V"
      using assms(4) by (metis card_mono distinct_card finite_set)
    with 0(2) show ?thesis by simp
  qed (use 0 in auto)
next
  case (Suc fuel)
  show ?case
  proof (cases queue)
    case (Cons node q)
    obtain deg' queue' where r: "release (graph node) deg q = (deg', queue')" by fastforce
    have "node \<in> set V" using Suc.prems(1) by (auto simp: kahn_inv_def Cons)
    then have r': "release (filter (\<lambda>n. node \<in> set (deps_of svcs n)) names) deg q = (deg', queue')"
      using r assms(5) by simp
    have "kahn_inv svcs V deg' queue' (out @ [node])"
      by (rule kahn_step[OF assms(1) Suc.prems(1)[unfolded Cons] assms(2,3) r'])
    then show ?thesis using Suc r Cons by simp
  qed (use Suc.prems in auto)
qed

section \<open>The order of a deploy\<close>

text \<open>In an order, every dependency comes before its dependent.\<close>

definition respects_deps :: "services \<Rightarrow> string list \<Rightarrow> bool" where
  "respects_deps svcs out \<longleftrightarrow>
     (\<forall>i < length out. \<forall>d \<in> set (deps_of svcs (out ! i)). \<exists>j < i. out ! j = d)"

definition map_order :: "(string list \<Rightarrow> string list) \<Rightarrow> bool" where
  "map_order ord \<longleftrightarrow> (\<forall>xs. mset (ord xs) = mset xs)"

lemma map_order_props: "map_order ord \<Longrightarrow> set (ord xs) = set xs \<and> (distinct (ord xs) \<longleftrightarrow> distinct xs)"
  by (metis map_order_def mset_eq_imp_distinct_iff mset_eq_setD)

lemma deps_first_nth:
  assumes "deps_first svcs V out" "\<And>n. n \<in> set out \<Longrightarrow> set (deps_of svcs n) \<subseteq> set V"
  shows "respects_deps svcs out"
proof -
  have "\<exists>j<i. out ! j = d" if i: "i < length out" and d: "d \<in> set (deps_of svcs (out ! i))" for i d
  proof -
    have "out = take i out @ out ! i # drop (Suc i) out" using i by (rule id_take_nth_drop)
    then have "set (deps_of svcs (out ! i)) \<inter> set V \<subseteq> set (take i out)" using assms(1) unfolding deps_first_def by blast
    moreover have "d \<in> set V" using d assms(2)[OF nth_mem[OF i]] by blast
    ultimately have "d \<in> set (take i out)" using d by blast
    then show ?thesis using i by (auto simp: in_set_conv_nth)
  qed
  then show ?thesis unfolding respects_deps_def by blast
qed

lemma closure_closed: "n \<in> closure_of svcs ts \<Longrightarrow> set (deps_of svcs n) \<subseteq> closure_of svcs ts"
  by (auto simp: closure_of_def dep_rel_def intro: rtrancl_into_rtrancl)

text \<open>The dependency relation among the services of a deploy.\<close>

definition deploy_rel :: "services \<Rightarrow> string list \<Rightarrow> (string \<times> string) set" where
  "deploy_rel svcs ts = dep_rel svcs \<inter> closure_of svcs ts \<times> closure_of svcs ts"

lemma respects_acyclic:
  assumes "respects_deps svcs out" "distinct out" "set out = closure_of svcs ts"
  shows "acyclic (deploy_rel svcs ts)"
proof -
  define pos where "pos n = (THE i. i < length out \<and> out ! i = n)" for n
  have pos: "pos (out ! i) = i" if "i < length out" for i
    unfolding pos_def using that assms(2) by (intro the_equality) (auto simp: nth_eq_iff_index_eq)
  have "(n, d) \<in> deploy_rel svcs ts \<Longrightarrow> pos d < pos n" for n d
  proof -
    assume "(n, d) \<in> deploy_rel svcs ts"
    then have "n \<in> set out" "d \<in> set (deps_of svcs n)" by (simp_all add: deploy_rel_def dep_rel_def assms(3))
    then obtain i where i: "i < length out" "out ! i = n" "d \<in> set (deps_of svcs n)" by (metis in_set_conv_nth)
    then obtain j where "j < i" "out ! j = d" using assms(1) unfolding respects_deps_def by blast
    then show ?thesis using pos[of i] pos[of j] i by simp
  qed
  then have "(deploy_rel svcs ts)\<inverse> \<subseteq> measure pos" by auto
  then have "wf ((deploy_rel svcs ts)\<inverse>)" by (rule wf_subset[OF wf_measure])
  then show ?thesis using wf_acyclic acyclic_converse by blast
qed

lemma kahn_stuck:
  assumes "kahn_inv svcs V deg [] out" "acyclic (dep_rel svcs \<inter> set V \<times> set V)"
  shows "set out = set V"
proof (rule ccontr)
  let ?r = "dep_rel svcs \<inter> set V \<times> set V"
  assume "set out \<noteq> set V"
  then obtain n0 where n0: "n0 \<in> set V - set out" using assms(1) by (auto simp: kahn_inv_def)
  have "finite ?r" by (rule finite_subset[of _ "set V \<times> set V"]) auto
  then have "wf (?r\<inverse>)" using assms(2) by (simp add: finite_acyclic_wf_converse)
  then obtain n where n: "n \<in> set V - set out" "\<And>d. (n, d) \<in> ?r \<Longrightarrow> d \<notin> set V - set out"
    using n0 wfE_min[of "?r\<inverse>" n0 "set V - set out"] by (metis converse_iff)
  then have "waiting svcs V out n = []" by (auto simp: waiting_def filter_empty_conv dep_rel_def)
  then have "deg n = 0" using assms(1) n(1) by (auto simp: kahn_inv_def)
  then show False using assms(1) n(1) by (auto simp: kahn_inv_def)
qed

text \<open>C25. A deploy covers its targets and all their transitive dependencies, each once, in an order that starts every
  service after the services it depends on; and topologicalSort fails, saying so, exactly when those services depend on
  each other in a circle. This holds for every order in which Go may range over the maps.\<close>

theorem topologicalSort_correct:
  assumes "wf_services svcs" "map_order ord1" "map_order ord2"
  shows "(\<exists>out. topologicalSort ord1 ord2 ts svcs = Inr out \<and> distinct out \<and> set out = closure_of svcs ts
        \<and> respects_deps svcs out \<and> acyclic (deploy_rel svcs ts))
    \<or> (topologicalSort ord1 ord2 ts svcs = Inl (ErrText ''circular dependency detected among services'')
        \<and> \<not> acyclic (deploy_rel svcs ts))"
proof -
  let ?V = "expand_all svcs ts []"
  let ?names = "ord1 ?V"
  let ?q = "filter (\<lambda>n. snd (build_graph svcs ?V ?names) n = 0) (ord2 ?V)"
  have V: "distinct ?V" "set ?V = closure_of svcs ts" by (simp_all add: expand_all_distinct expand_all_closure)
  have names: "distinct ?names" "set ?names = set ?V" using map_order_props[OF assms(2)] V(1) by simp_all
  have ord2: "distinct (ord2 ?V)" "set (ord2 ?V) = set ?V" using map_order_props[OF assms(3)] V(1) by simp_all
  note spec = build_graph_spec[OF assms(1) names(1), of ?V]
  have inv0: "kahn_inv svcs ?V (snd (build_graph svcs ?V ?names)) ?q []"
    unfolding kahn_inv_def using ord2 names spec by (auto simp: waiting_def deps_first_def)
  have graph: "fst (build_graph svcs ?V ?names) d = filter (\<lambda>n. d \<in> set (deps_of svcs n)) ?names" if "d \<in> set ?V" for d
    using spec[of d d] that by simp
  obtain deg' out where out: "kahn_loop (length ?V) (fst (build_graph svcs ?V ?names)) (snd (build_graph svcs ?V ?names)) ?q []
      = Some out" "kahn_inv svcs ?V deg' [] out"
    using kahn_loop_inv[OF assms(1) names V(1) graph inv0, of "length ?V"] by auto
  have res: "topologicalSort ord1 ord2 ts svcs =
      (if length out \<noteq> length ?V then Inl (ErrText ''circular dependency detected among services'') else Inr out)"
    using out(1) by (simp add: topologicalSort_def Let_def case_prod_beta)
  have d: "distinct out" "set out \<subseteq> set ?V" "deps_first svcs ?V out" using out(2) by (auto simp: kahn_inv_def)
  have len: "length out = length ?V \<longleftrightarrow> set out = set ?V"
    using d(1,2) V(1) by (metis card_subset_eq distinct_card finite_set)
  have rel: "deploy_rel svcs ts = dep_rel svcs \<inter> set ?V \<times> set ?V" by (simp add: deploy_rel_def V(2))
  show ?thesis
  proof (cases "set out = set ?V")
    case True
    have "respects_deps svcs out"
      using d(3) True V(2) closure_closed by (intro deps_first_nth[OF d(3)]) auto
    then show ?thesis using True V(2) d(1) len res respects_acyclic by auto
  next
    case False
    then have "\<not> acyclic (deploy_rel svcs ts)" using kahn_stuck[OF out(2)] rel by auto
    then show ?thesis using False len res by simp
  qed
qed

definition demo_services :: services where
  "demo_services =
     [(''web'', empty_service\<lparr>cs_depends_on := [(''db'', \<lparr>Condition = DependencyConditionHealthy, dep_required = None, dep_restart = False\<rparr>)]\<rparr>),
      (''db'', empty_service), (''cron'', empty_service)]"

lemma topologicalSort_correct_witness:
  "topologicalSort id rev [''web''] demo_services = Inr [''db'', ''web''] \<and> closure_of demo_services [''web''] = {''db'', ''web''}"
proof -
  have r: "topologicalSort id rev [''web''] demo_services = Inr [''db'', ''web'']" by code_simp
  have "wf_services demo_services" by (simp add: wf_services_def demo_services_def empty_service_def)
  from topologicalSort_correct[OF this, of id rev "[''web'']"] r show ?thesis by (auto simp: map_order_def)
qed

lemma resolve_filter_named:
  "flt \<noteq> [] \<Longrightarrow> n \<in> set (resolveServiceFilter ord flt svcs) \<Longrightarrow> map_of svcs n \<noteq> None"
  by (auto simp: resolveServiceFilter_def)

lemma trim_space_blank: "trim_space '' '' = []"
  by code_simp

text \<open>A filter of blanks selects no service at all here.\<close>

lemma resolve_filter_blank: "resolveServiceFilter ord '' '' svcs = []"
  by (simp add: resolveServiceFilter_def trim_space_blank)

end
