(* ===== verification/Containers.thy ===== *)
theory Containers
  imports World Registry Paths Toposort "HOL-Library.AList"
begin

text \<open>
  The container operations of internal/stack/deployer.go: finding the containers of a service, pulling its image,
  building and starting a container, and waiting for health and for dependencies. Docker's container ids are never
  shorter than the twelve characters the code cuts them to. A polling loop has one round per tick of its ticker: 45 in
  the 90 seconds of a health check, 60 in the two minutes of a dependency.

  The parsers of durations, sizes and CPU limits, of ports and addresses are arguments (time.ParseDuration,
  strconv.ParseFloat times 10^9, units.RAMInBytes, network.ParsePort, netip.ParseAddr). A health check whose test list is
  empty is none, as is one without a test.
\<close>

section \<open>Lookup\<close>

definition strip_slash :: "string \<Rightarrow> string" where
  "strip_slash n = (if n \<noteq> [] \<and> hd n = CHR ''/'' then tl n else n)"

definition matchesServiceName :: "string \<Rightarrow> string \<Rightarrow> bool" where
  "matchesServiceName containerName serviceName =
     (let n = strip_slash containerName in
      length n \<ge> length serviceName \<and> take (length serviceName) n = serviceName
      \<and> (length n = length serviceName \<or> n ! length serviceName = CHR ''_''))"

definition safeName :: "string list \<Rightarrow> string" where
  "safeName names = (if names = [] then [] else strip_slash (hd names))"

definition of_service :: "string \<Rightarrow> container_summary \<Rightarrow> bool" where
  "of_service serviceName c \<longleftrightarrow> list_ex (\<lambda>n. matchesServiceName n serviceName) (sm_names c)"

definition getServiceContainers :: "outside \<Rightarrow> string \<Rightarrow> container_summary list res act" where
  "getServiceContainers \<Omega> serviceName =
     try_with id (ContainerList \<Omega> serviceName) (\<lambda>items. ok (filter (of_service serviceName) items))"

definition short12 :: "string \<Rightarrow> string" where "short12 cid = take 12 cid"

definition stopAndRemove :: "outside \<Rightarrow> string \<Rightarrow> int \<Rightarrow> unit act" where
  "stopAndRemove \<Omega> cid stopTimeout = do {
     _ \<leftarrow> ContainerStop \<Omega> cid stopTimeout;
     _ \<leftarrow> ContainerRemove \<Omega> cid;
     State_Monad.return () }"

section \<open>Images\<close>

text \<open>A failed read of the credentials is an empty list.\<close>

definition legacy_registry :: "stack \<Rightarrow> stack_registry option" where
  "legacy_registry st =
     (if DockerRegistry st \<noteq> [] \<or> DockerUsername st \<noteq> []
      then Some \<lparr>reg_stack = [], reg_server = DockerRegistry st, reg_username = DockerUsername st,
                 reg_password = DockerPassword st, reg_created = 0, reg_updated = 0\<rparr>
      else None)"

definition pickAuthForImage :: "outside \<Rightarrow> stack \<Rightarrow> string \<Rightarrow> (string \<times> string \<times> string) act" where
  "pickAuthForImage \<Omega> st imageRef = do {
     r \<leftarrow> store_call \<Omega> ''ListStackRegistries'' (reading (ListStackRegistries (st_id st)));
     State_Monad.return (pickRegistryAuth imageRef (case r of Inr regs \<Rightarrow> regs | Inl _ \<Rightarrow> []) (legacy_registry st)) }"

definition imageIsLocal :: "outside \<Rightarrow> string \<Rightarrow> bool res act" where
  "imageIsLocal \<Omega> ref = do {
     r \<leftarrow> ImageInspect \<Omega> ref;
     case r of Inr _ \<Rightarrow> ok True
     | Inl e \<Rightarrow> if docker_class_of e = Some NotFound then ok False else fail e }"

definition pull_permanent :: "gerr \<Rightarrow> bool" where
  "pull_permanent e \<longleftrightarrow> docker_class_of e \<in> {Some Unauthorized, Some PermissionDenied, Some NotFound}"

definition pull_once :: "outside \<Rightarrow> string \<Rightarrow> (string \<times> string \<times> string) option \<Rightarrow> unit res act" where
  "pull_once \<Omega> imageRef auth = do {
     r \<leftarrow> emit (\<lambda>l. o_pull \<Omega> l imageRef auth) (EPull imageRef auth);
     case r of
       Inl e \<Rightarrow> (let e' = ErrWrap (''failed to pull image '' @ imageRef @ '': '') e in
                 fail (if pull_permanent e then ErrPermanent e' else e'))
     | Inr _ \<Rightarrow> try_with (ErrWrap (''error reading image pull response for '' @ imageRef @ '': '')) (emit (o_drain \<Omega>) EDrain) ok }"

definition pull_auth :: "string \<Rightarrow> string \<Rightarrow> string \<Rightarrow> (string \<times> string \<times> string) option" where
  "pull_auth user password server = (if user \<noteq> [] \<and> password \<noteq> [] then Some (user, password, server) else None)"

definition pullImage :: "outside \<Rightarrow> retry_policy \<Rightarrow> string \<Rightarrow> string \<times> string \<times> string \<Rightarrow> unit res act" where
  "pullImage \<Omega> p imageRef auth = (case auth of (user, password, server) \<Rightarrow>
     retry_step \<Omega> p (pull_once \<Omega> imageRef (pull_auth user password server)))"

definition resolveImage :: "outside \<Rightarrow> retry_policy \<Rightarrow> compose_service \<Rightarrow> stack \<Rightarrow> unit res act" where
  "resolveImage \<Omega> p svc st =
     (let policy = to_lower (trim_space (cs_pull_policy svc)); image = cs_image svc in do {
        auth \<leftarrow> pickAuthForImage \<Omega> st image;
        if policy = [] \<or> policy = ''always'' then try_with (ErrWrap ''image pull failed: '') (pullImage \<Omega> p image auth) ok
        else if policy = ''missing'' \<or> policy = ''if_not_present'' then
          try_with (ErrWrap ''image lookup failed: '') (imageIsLocal \<Omega> image) (\<lambda>present.
            if present then ok () else try_with (ErrWrap ''image pull failed: '') (pullImage \<Omega> p image auth) ok)
        else if policy = ''never'' then
          try_with (ErrWrap ''image lookup failed: '') (imageIsLocal \<Omega> image) (\<lambda>present.
            if \<not> present then fail (ErrText (''pull_policy=never but image '' @ quoted image @ '' is not present on the host''))
            else ok ())
        else if policy = ''build'' then
          fail (ErrText ''pull_policy=build is not supported: Accelero does not build images from Dockerfiles, use a CI pipeline instead'')
        else fail (ErrText (''unknown pull_policy '' @ quoted (cs_pull_policy svc)
                            @ '' (expected always, missing, if_not_present, never, or build)'')) })"

section \<open>Container configuration\<close>

record parsers =
  p_duration :: "string \<Rightarrow> int option"
  p_ram :: "string \<Rightarrow> int option"
  p_nano_cpus :: "string \<Rightarrow> int option"
  p_port :: "string \<Rightarrow> string option"
  p_addr :: "string \<Rightarrow> string option"
  p_any_addr :: string \<comment> \<open>0.0.0.0\<close>

definition ParseDuration :: "parsers \<Rightarrow> string \<Rightarrow> int" where
  "ParseDuration \<Pi> s = (if s = [] then 0 else case p_duration \<Pi> s of None \<Rightarrow> 0 | Some d \<Rightarrow> d)"

definition stopTimeoutSeconds :: "parsers \<Rightarrow> compose_service \<Rightarrow> int" where
  "stopTimeoutSeconds \<Pi> svc =
     (if cs_stop_grace svc = [] then 10
      else let d = ParseDuration \<Pi> (cs_stop_grace svc) in if d \<le> 0 then 10 else d div 1000000000)"

definition env_lines :: "string \<Rightarrow> string list" where
  "env_lines data = filter (\<lambda>line. trim_space line \<noteq> [] \<and> \<not> has_prefix line ''#'') (split_on CHR 0x0A data)"

fun LoadEnvFiles :: "outside \<Rightarrow> string \<Rightarrow> string list \<Rightarrow> string list \<Rightarrow> string list res act" where
  "LoadEnvFiles \<Omega> repoDir [] envVars = ok envVars"
| "LoadEnvFiles \<Omega> repoDir (f # fs) envVars =
     (let filePath = Join repoDir f in
      try_with (ErrWrap (''failed to read env file '' @ filePath @ '': ''))
        (emit (\<lambda>l. o_read \<Omega> l filePath) (EReadEnv filePath))
        (\<lambda>data. LoadEnvFiles \<Omega> repoDir fs (envVars @ env_lines data)))"

definition management_labels :: "string \<Rightarrow> string \<Rightarrow> nat \<Rightarrow> (string \<times> string) list" where
  "management_labels stackName serviceName replicaIndex =
     [(''managed-by'', ''accelero''), (''accelero-stack'', stackName), (''accelero-service'', serviceName),
      (''accelero-replica'', dec_nat replicaIndex)]"

definition with_labels :: "(string \<times> string) list \<Rightarrow> (string \<times> string) list \<Rightarrow> (string \<times> string) list" where
  "with_labels base add = foldl (\<lambda>m (k, v). AList.update k v m) base add"

definition container_config_of ::
  "parsers \<Rightarrow> compose_service \<Rightarrow> string \<Rightarrow> string \<Rightarrow> nat \<Rightarrow> string list \<Rightarrow> container_config" where
  "container_config_of \<Pi> svc serviceName stackName replicaIndex envVars =
     (let (portBindings, exposed) = MapPorts (p_port \<Pi>) (p_addr \<Pi>) (p_any_addr \<Pi>) (cs_ports svc);
          hc = cs_healthcheck svc
      in \<lparr>cc_image = cs_image svc, cc_env = envVars,
          cc_labels = with_labels (cs_labels svc) (management_labels stackName serviceName replicaIndex),
          cc_cmd = cs_command svc, cc_entrypoint = cs_entrypoint svc, cc_working_dir = cs_working_dir svc,
          cc_user = cs_user svc, cc_hostname = cs_hostname svc, cc_domainname = cs_domainname svc,
          cc_stop_signal = cs_stop_signal svc,
          cc_stop_timeout = (if cs_stop_grace svc \<noteq> [] \<and> ParseDuration \<Pi> (cs_stop_grace svc) > 0
                             then Some (ParseDuration \<Pi> (cs_stop_grace svc) div 1000000000) else None),
          cc_healthcheck = (if hc_test hc \<noteq> []
             then Some (hc_test hc, ParseDuration \<Pi> (hc_interval hc), ParseDuration \<Pi> (hc_timeout hc), hc_retries hc,
                        ParseDuration \<Pi> (hc_start_period hc)) else None),
          cc_exposed = mergeExposedPorts (p_port \<Pi>) exposed (cs_expose svc),
          cc_bindings = portBindings, cc_binds = cs_volumes svc,
          cc_dns = parseDNSAddrs (p_addr \<Pi>) (cs_dns svc), cc_dns_search = cs_dns_search svc,
          cc_extra_hosts = cs_extra_hosts svc, cc_cap_add = cs_cap_add svc, cc_cap_drop = cs_cap_drop svc,
          cc_privileged = cs_privileged svc, cc_tmpfs = cs_tmpfs svc, cc_init = cs_init svc,
          cc_shm_size = (if cs_shm_size svc = [] then 0 else case p_ram \<Pi> (cs_shm_size svc) of None \<Rightarrow> 0 | Some b \<Rightarrow> b),
          cc_restart = cs_restart svc,
          cc_log_config = (case cs_logging svc of
             Some lc \<Rightarrow> if lg_driver lc \<noteq> [] then Some (lg_driver lc, lg_options lc) else None | None \<Rightarrow> None),
          cc_memory = (if cs_mem_limit svc = [] then 0 else case p_ram \<Pi> (cs_mem_limit svc) of None \<Rightarrow> 0 | Some b \<Rightarrow> b),
          cc_nano_cpus = (if cs_cpu_limit svc = [] then 0 else case p_nano_cpus \<Pi> (cs_cpu_limit svc) of None \<Rightarrow> 0 | Some n \<Rightarrow> n),
          cc_endpoints = List.map (\<lambda>net. (net, [serviceName])) (remdups (cs_networks svc))\<rparr>)"

definition createAndStartContainer ::
  "outside \<Rightarrow> parsers \<Rightarrow> string \<Rightarrow> string \<Rightarrow> compose_service \<Rightarrow> string \<Rightarrow> string \<Rightarrow> nat \<Rightarrow> stack_secret list \<Rightarrow> string res act" where
  "createAndStartContainer \<Omega> \<Pi> name repoDir svc serviceName stackName replicaIndex stackSecrets =
     try_with (ErrWrap ''failed to load env files: '') (LoadEnvFiles \<Omega> repoDir (cs_env_file svc) []) (\<lambda>loaded.
     let env = loaded @ cs_environment svc;
         envVars = (if stackSecrets \<noteq> [] then mergeSecretsIntoEnv env stackSecrets else env)
     in try_with (ErrWrap (''docker create failed for '' @ name @ '': ''))
          (ContainerCreate \<Omega> name (container_config_of \<Pi> svc serviceName stackName replicaIndex envVars)) (\<lambda>cid. do {
            r \<leftarrow> ContainerStart \<Omega> cid;
            case r of
              Inl e \<Rightarrow> do { _ \<leftarrow> ContainerRemove \<Omega> cid; fail (ErrWrap (''docker start failed for '' @ name @ '': '') e) }
            | Inr _ \<Rightarrow> ok cid }))"

section \<open>Waiting\<close>

text \<open>The answer of one look at a container's health: it is known, or the loop goes on.\<close>

definition healthStep :: "string \<Rightarrow> container_info \<Rightarrow> unit res option" where
  "healthStep cid info =
     (case ci_state info of
        None \<Rightarrow> Some (Inl (ErrText (''container '' @ short12 cid @ '' has no state'')))
      | Some st \<Rightarrow>
        (case Health st of
           None \<Rightarrow> Some (Inr ())
         | Some h \<Rightarrow> if h = ''healthy'' then Some (Inr ())
             else if h = ''unhealthy'' then Some (Inl (ErrText (''container '' @ short12 cid @ '' reported unhealthy'')))
             else None))"

definition timed_out :: "string \<Rightarrow> gerr" where
  "timed_out cid = ErrText (''health check timed out for container '' @ short12 cid)"

fun wait_healthy_loop :: "outside \<Rightarrow> nat \<Rightarrow> string \<Rightarrow> unit res act" where
  "wait_healthy_loop \<Omega> n cid =
     try_with (ErrWrap (''failed to inspect container '' @ short12 cid @ '': '')) (ContainerInspect \<Omega> cid) (\<lambda>info.
       case healthStep cid info of
         Some r \<Rightarrow> State_Monad.return r
       | None \<Rightarrow>
         (case n of
            0 \<Rightarrow> do { _ \<leftarrow> emit (\<lambda>_. True) ETick; fail (timed_out cid) }
          | Suc m \<Rightarrow> do { t \<leftarrow> tick \<Omega>; if t then fail (timed_out cid) else wait_healthy_loop \<Omega> m cid }))"

declare wait_healthy_loop.simps [simp del]

definition health_ticks :: nat where "health_ticks = 45"
definition dependency_ticks :: nat where "dependency_ticks = 60"

definition waitForHealthy :: "outside \<Rightarrow> string \<Rightarrow> unit res act" where
  "waitForHealthy \<Omega> cid = wait_healthy_loop \<Omega> health_ticks cid"

datatype dep_scan = DepDone | DepFail gerr | DepUnhealthy nat

fun scan_healthy :: "outside \<Rightarrow> string \<Rightarrow> nat \<Rightarrow> container_summary list \<Rightarrow> dep_scan act" where
  "scan_healthy \<Omega> depName unhealthy [] = State_Monad.return (DepUnhealthy unhealthy)"
| "scan_healthy \<Omega> depName unhealthy (c # cs) = do {
     r \<leftarrow> ContainerInspect \<Omega> (sm_id c);
     case r of
       Inl _ \<Rightarrow> scan_healthy \<Omega> depName unhealthy cs
     | Inr info \<Rightarrow>
       (case ci_state info of
          None \<Rightarrow> scan_healthy \<Omega> depName unhealthy cs
        | Some st \<Rightarrow>
          (case Health st of
             None \<Rightarrow> State_Monad.return (DepFail (ErrText (''dependency '' @ depName @ '' has no healthcheck but service_healthy was requested'')))
           | Some h \<Rightarrow> if h = ''healthy'' then State_Monad.return DepDone
               else scan_healthy \<Omega> depName (if h = ''unhealthy'' then unhealthy + 1 else unhealthy) cs)) }"

fun dep_healthy_loop :: "outside \<Rightarrow> nat \<Rightarrow> string \<Rightarrow> unit res act" where
  "dep_healthy_loop \<Omega> n depName =
     try_with (ErrWrap ''list containers: '') (getServiceContainers \<Omega> depName) (\<lambda>containers.
       if containers = [] then fail (ErrText (''no containers running for dependency '' @ depName))
       else do {
         s \<leftarrow> scan_healthy \<Omega> depName 0 containers;
         case s of
           DepDone \<Rightarrow> ok ()
         | DepFail e \<Rightarrow> fail e
         | DepUnhealthy u \<Rightarrow>
             if u = length containers
             then fail (ErrText (''all '' @ dec_nat u @ '' replica(s) of dependency '' @ depName @ '' are unhealthy''))
             else (case n of
                 0 \<Rightarrow> do { _ \<leftarrow> emit (\<lambda>_. True) ETick; fail (ErrText (''timed out waiting for '' @ depName @ '' to become healthy'')) }
               | Suc m \<Rightarrow> do { t \<leftarrow> tick \<Omega>;
                   if t then fail (ErrText (''timed out waiting for '' @ depName @ '' to become healthy''))
                   else dep_healthy_loop \<Omega> m depName }) })"

declare dep_healthy_loop.simps [simp del]

definition waitForDependencyHealthy :: "outside \<Rightarrow> string \<Rightarrow> unit res act" where
  "waitForDependencyHealthy \<Omega> depName = dep_healthy_loop \<Omega> dependency_ticks depName"

text \<open>The scan for exits: None while some replica has not exited, an error when one failed.\<close>

fun scan_exited :: "outside \<Rightarrow> string \<Rightarrow> container_summary list \<Rightarrow> unit res option act" where
  "scan_exited \<Omega> depName [] = State_Monad.return (Some (Inr ()))"
| "scan_exited \<Omega> depName (c # cs) = do {
     r \<leftarrow> ContainerInspect \<Omega> (sm_id c);
     case r of
       Inl _ \<Rightarrow> State_Monad.return None
     | Inr info \<Rightarrow>
       (case ci_state info of
          None \<Rightarrow> State_Monad.return None
        | Some st \<Rightarrow>
            if Running st then State_Monad.return None
            else if ExitCode st \<noteq> 0
            then State_Monad.return (Some (Inl (ErrText (''replica '' @ short12 (sm_id c) @ '' of dependency '' @ depName
                    @ '' exited with code '' @ dec_int (ExitCode st)))))
            else scan_exited \<Omega> depName cs) }"

fun dep_exit_loop :: "outside \<Rightarrow> nat \<Rightarrow> string \<Rightarrow> unit res act" where
  "dep_exit_loop \<Omega> n depName =
     try_with (ErrWrap ''list containers: '') (getServiceContainers \<Omega> depName) (\<lambda>containers.
       if containers = [] then fail (ErrText (''no containers found for dependency '' @ depName))
       else do {
         s \<leftarrow> scan_exited \<Omega> depName containers;
         case s of
           Some r \<Rightarrow> State_Monad.return r
         | None \<Rightarrow>
             (case n of
                 0 \<Rightarrow> do { _ \<leftarrow> emit (\<lambda>_. True) ETick; fail (ErrText (''timed out waiting for '' @ depName @ '' to complete'')) }
               | Suc m \<Rightarrow> do { t \<leftarrow> tick \<Omega>;
                   if t then fail (ErrText (''timed out waiting for '' @ depName @ '' to complete''))
                   else dep_exit_loop \<Omega> m depName }) })"

declare dep_exit_loop.simps [simp del]

definition waitForDependencyExit :: "outside \<Rightarrow> string \<Rightarrow> unit res act" where
  "waitForDependencyExit \<Omega> depName = dep_exit_loop \<Omega> dependency_ticks depName"

fun wait_dependencies :: "outside \<Rightarrow> string \<Rightarrow> dependencies \<Rightarrow> string list \<Rightarrow> unit res act" where
  "wait_dependencies \<Omega> serviceName deps [] = ok ()"
| "wait_dependencies \<Omega> serviceName deps (depName # names) =
     (let condition = (case map_of deps depName of Some c \<Rightarrow> Condition c | None \<Rightarrow> []) in
      if condition = [] \<or> condition = DependencyConditionStarted then wait_dependencies \<Omega> serviceName deps names
      else if condition = DependencyConditionHealthy then
        try_with (ErrWrap (''dependency '' @ quoted depName @ '' must be healthy before '' @ serviceName @ '': ''))
          (waitForDependencyHealthy \<Omega> depName) (\<lambda>_. wait_dependencies \<Omega> serviceName deps names)
      else if condition = DependencyConditionCompletedOK then
        try_with (ErrWrap (''dependency '' @ quoted depName @ '' must complete successfully before '' @ serviceName @ '': ''))
          (waitForDependencyExit \<Omega> depName) (\<lambda>_. wait_dependencies \<Omega> serviceName deps names)
      else fail (ErrText (''dependency '' @ quoted depName @ '' has unsupported condition '' @ quoted condition)))"

definition waitForDependencyConditions :: "outside \<Rightarrow> string \<Rightarrow> compose_service \<Rightarrow> unit res act" where
  "waitForDependencyConditions \<Omega> serviceName svc =
     wait_dependencies \<Omega> serviceName (cs_depends_on svc) (Names (cs_depends_on svc))"

end
