(* ===== verification/Frames.thy ===== *)
theory Frames
  imports Containers
begin

text \<open>
  Which events the container operations add to the log, as rules for \<open>keeps\<close>: a property of the world that tolerates the
  events of a class is kept by every operation that makes only such events. The quiet events are those that neither
  create, nor stop, nor remove a container; the operations here that make others keep what tolerates every event.
\<close>

text \<open>Events that neither create, nor stop, nor remove a container.\<close>

fun quiet :: "event \<Rightarrow> bool" where
  "quiet (ECreate _ _ _) = False"
| "quiet (EStop _ _ _) = False"
| "quiet (ERemove _ _) = False"
| "quiet _ = True"

definition tolerates :: "(event \<Rightarrow> bool) \<Rightarrow> (world \<Rightarrow> bool) \<Rightarrow> bool" where
  "tolerates E I \<longleftrightarrow> (\<forall>w e. I w \<longrightarrow> E e \<longrightarrow> I (w\<lparr>w_log := w_log w @ [e]\<rparr>))"

lemma tolerates_mono: "tolerates E I \<Longrightarrow> (\<And>e. F e \<Longrightarrow> E e) \<Longrightarrow> tolerates F I"
  by (auto simp: tolerates_def)

lemma tolerates_all: "tolerates (\<lambda>_. True) I \<Longrightarrow> tolerates quiet I"
  by (erule tolerates_mono) simp

lemma tolerates_emit: "tolerates E I \<Longrightarrow> (\<And>a. E (ev a)) \<Longrightarrow> keeps I (emit ans ev)"
  by (rule keeps_emit) (auto simp: tolerates_def)

text \<open>A method of the store that only reads.\<close>

lemma reading_frame [keep]: "tolerates quiet I \<Longrightarrow> keeps I (store_call \<Omega> op (reading f))"
  by (rule keeps_store_call) (auto simp: tolerates_def reading_def)

lemma keeps_case_scan [keep]:
  "keeps I m \<Longrightarrow> (\<And>x. keeps I (f x)) \<Longrightarrow> (\<And>x. keeps I (g x))
     \<Longrightarrow> keeps I (case k of DepDone \<Rightarrow> m | DepFail x \<Rightarrow> f x | DepUnhealthy x \<Rightarrow> g x)"
  by (cases k) simp_all

named_theorems quiet_defs \<open>steps that only make quiet events\<close>

lemmas [quiet_defs] = ContainerList_def ContainerInspect_def ImageInspect_def NetworkConnect_def now_def generateID_def tick_def

lemma quiet_ops_frame [keep]:
  assumes "tolerates quiet I"
  shows "keeps I (ContainerList \<Omega> n)" "keeps I (ContainerInspect \<Omega> c)"
    "keeps I (ImageInspect \<Omega> r)" "keeps I (now \<Omega>)" "keeps I (tick \<Omega>)"
    "keeps I (generateID \<Omega>)" "keeps I (NetworkConnect \<Omega> n c)"
  by (simp_all add: quiet_defs tolerates_emit[OF assms])

lemma getServiceContainers_frame [keep]: "tolerates quiet I \<Longrightarrow> keeps I (getServiceContainers \<Omega> n)"
  unfolding getServiceContainers_def by (intro keep) assumption

lemma scan_healthy_frame [keep]: "tolerates quiet I \<Longrightarrow> keeps I (scan_healthy \<Omega> d u cs)"
  by (induction cs arbitrary: u) (simp_all add: keep)

lemma scan_exited_frame [keep]: "tolerates quiet I \<Longrightarrow> keeps I (scan_exited \<Omega> d cs)"
  by (induction cs) (simp_all add: keep)

lemma emit_tick_frame [keep]: "tolerates quiet I \<Longrightarrow> keeps I (emit f ETick)"
  by (simp add: tolerates_emit)

lemma wait_healthy_frame [keep]: "tolerates quiet I \<Longrightarrow> keeps I (wait_healthy_loop \<Omega> n c)"
  by (induction n; subst wait_healthy_loop.simps) (simp_all add: keep)

lemma dep_healthy_frame [keep]: "tolerates quiet I \<Longrightarrow> keeps I (dep_healthy_loop \<Omega> n d)"
  by (induction n; subst dep_healthy_loop.simps) (simp_all add: keep)

lemma dep_exit_frame [keep]: "tolerates quiet I \<Longrightarrow> keeps I (dep_exit_loop \<Omega> n d)"
  by (induction n; subst dep_exit_loop.simps) (simp_all add: keep)

lemma wait_dependencies_frame [keep]: "tolerates quiet I \<Longrightarrow> keeps I (wait_dependencies \<Omega> s deps names)"
  by (induction names) (simp_all add: waitForDependencyHealthy_def waitForDependencyExit_def keep Let_def)

lemma retry_frame [keep]: "tolerates quiet I \<Longrightarrow> keeps I m \<Longrightarrow> keeps I (retry_step \<Omega> p m)"
  by (rule keeps_retry) (auto simp: tolerates_def)

lemma pull_once_frame [keep]: "tolerates quiet I \<Longrightarrow> keeps I (pull_once \<Omega> i a)"
  by (simp add: pull_once_def keep tolerates_emit Let_def)

lemma resolveImage_frame [keep]: "tolerates quiet I \<Longrightarrow> keeps I (resolveImage \<Omega> p svc st)"
  by (simp add: resolveImage_def pickAuthForImage_def imageIsLocal_def pullImage_def Let_def keep split: prod.split)

lemma waitForHealthy_frame [keep]: "tolerates quiet I \<Longrightarrow> keeps I (waitForHealthy \<Omega> c)"
  by (simp add: waitForHealthy_def keep)

lemma LoadEnvFiles_frame [keep]: "tolerates quiet I \<Longrightarrow> keeps I (LoadEnvFiles \<Omega> r fs vs)"
  by (induction fs arbitrary: vs) (simp_all add: keep tolerates_emit Let_def)

section \<open>Any event\<close>

text \<open>The operations that create and remove, for properties that do not depend on the log.\<close>

lemma stopAndRemove_frame [keep]: "tolerates (\<lambda>_. True) I \<Longrightarrow> keeps I (stopAndRemove \<Omega> c n)"
  by (simp add: stopAndRemove_def ContainerStop_def ContainerRemove_def tolerates_emit keep tolerates_all)

lemma createAndStart_frame [keep]:
  "tolerates (\<lambda>_. True) I \<Longrightarrow> keeps I (createAndStartContainer \<Omega> \<Pi> n r svc s st i secrets)"
  by (simp add: createAndStartContainer_def ContainerCreate_def ContainerStart_def ContainerRemove_def tolerates_emit Let_def keep tolerates_all)

end
