(* ===== verification/Rollout.thy ===== *)
theory Rollout
  imports Frames
begin

text \<open>
  deployService, captureServiceState and rollbackService of internal/stack/deployer.go: the rolling replacement of one
  service's containers and its undoing. The theorems are about the log of calls a rollout adds: which containers it
  may touch, that one healthy container outlives every removal, and what holds when it succeeds.
\<close>

section \<open>The rollout of a service\<close>

text \<open>One round of the partition: whether an existing container may stay. Waiting happens for one that is starting.\<close>

definition keepContainer :: "outside \<Rightarrow> compose_service \<Rightarrow> bool \<Rightarrow> container_summary \<Rightarrow> bool res act" where
  "keepContainer \<Omega> svc secretsChanged c =
     (if secretsChanged then ok False
      else if sm_image c \<noteq> cs_image svc then ok False
      else try_with (ErrWrap (''failed to inspect container '' @ short12 (sm_id c) @ '': '')) (ContainerInspect \<Omega> (sm_id c)) (\<lambda>info.
        case ci_state info of
          None \<Rightarrow> ok False
        | Some st \<Rightarrow>
            if \<not> Running st then ok False
            else if Health st = Some ''unhealthy'' then ok False
            else if Health st \<noteq> None \<and> Health st \<noteq> Some ''healthy'' then do {
              r \<leftarrow> waitForHealthy \<Omega> (sm_id c);
              case r of Inl _ \<Rightarrow> ok False | Inr _ \<Rightarrow> ok True }
            else ok True))"

fun partition_existing :: "outside \<Rightarrow> compose_service \<Rightarrow> bool \<Rightarrow> container_summary list \<Rightarrow> container_summary list
    \<Rightarrow> container_summary list \<Rightarrow> (container_summary list \<times> container_summary list) res act" where
  "partition_existing \<Omega> svc secretsChanged [] kept repl = ok (kept, repl)"
| "partition_existing \<Omega> svc secretsChanged (c # cs) kept repl =
     try_with id (keepContainer \<Omega> svc secretsChanged c) (\<lambda>b.
       if b then partition_existing \<Omega> svc secretsChanged cs (kept @ [c]) repl
       else partition_existing \<Omega> svc secretsChanged cs kept (repl @ [c]))"

text \<open>The rolling loop: \<open>n\<close> replicas are still to be created, the next one has the given index; the answer is what is
  left to remove.\<close>

fun roll_replicas :: "outside \<Rightarrow> parsers \<Rightarrow> stack \<Rightarrow> string \<Rightarrow> string \<Rightarrow> compose_service \<Rightarrow> stack_secret list \<Rightarrow> int
    \<Rightarrow> nat \<Rightarrow> nat \<Rightarrow> container_summary list \<Rightarrow> container_summary list res act" where
  "roll_replicas \<Omega> \<Pi> st serviceName repoDir svc secrets stopTimeout 0 replicaIndex repl = ok repl"
| "roll_replicas \<Omega> \<Pi> st serviceName repoDir svc secrets stopTimeout (Suc n) replicaIndex repl = do {
     t \<leftarrow> now \<Omega>;
     try_with (ErrWrap (''failed to create replica '' @ dec_nat replicaIndex @ '' for '' @ serviceName @ '': ''))
       (createAndStartContainer \<Omega> \<Pi> (serviceName @ ''_'' @ dec_nat replicaIndex @ ''_'' @ dec_int t) repoDir svc serviceName
          (st_name st) replicaIndex secrets) (\<lambda>cid. do {
       h \<leftarrow> waitForHealthy \<Omega> cid;
       case h of
         Inl e \<Rightarrow> do {
           _ \<leftarrow> ContainerStop \<Omega> cid stopTimeout;
           _ \<leftarrow> ContainerRemove \<Omega> cid;
           fail (ErrWrap (''health check failed for replica '' @ dec_nat replicaIndex @ '' of '' @ serviceName @ '' ('' @ short12 cid @ ''): '') e) }
       | Inr _ \<Rightarrow>
         (case repl of
            [] \<Rightarrow> roll_replicas \<Omega> \<Pi> st serviceName repoDir svc secrets stopTimeout n (Suc replicaIndex) []
          | old # rest \<Rightarrow> do {
              _ \<leftarrow> stopAndRemove \<Omega> (sm_id old) stopTimeout;
              roll_replicas \<Omega> \<Pi> st serviceName repoDir svc secrets stopTimeout n (Suc replicaIndex) rest }) }) }"

fun remove_all :: "outside \<Rightarrow> int \<Rightarrow> container_summary list \<Rightarrow> unit act" where
  "remove_all \<Omega> stopTimeout [] = State_Monad.return ()"
| "remove_all \<Omega> stopTimeout (c # cs) = do { _ \<leftarrow> stopAndRemove \<Omega> (sm_id c) stopTimeout; remove_all \<Omega> stopTimeout cs }"

definition rollout :: "outside \<Rightarrow> parsers \<Rightarrow> stack \<Rightarrow> string \<Rightarrow> string \<Rightarrow> compose_service \<Rightarrow> stack_secret list
    \<Rightarrow> container_summary list \<Rightarrow> container_summary list \<Rightarrow> unit res act" where
  "rollout \<Omega> \<Pi> st serviceName repoDir svc secrets kept0 repl0 =
     (let replicas = nat (DesiredReplicas svc);
          stopTimeout = stopTimeoutSeconds \<Pi> svc;
          repl = (if length kept0 > replicas then repl0 @ drop replicas kept0 else repl0);
          kept = (if length kept0 > replicas then take replicas kept0 else kept0);
          needNew = replicas - length kept
      in if needNew = 0 \<and> repl = [] then ok ()
         else try_with id (roll_replicas \<Omega> \<Pi> st serviceName repoDir svc secrets stopTimeout needNew (length kept) repl)
           (\<lambda>left. do { _ \<leftarrow> remove_all \<Omega> stopTimeout left; ok () }))"

definition deployService :: "outside \<Rightarrow> parsers \<Rightarrow> retry_policy \<Rightarrow> stack \<Rightarrow> string \<Rightarrow> string \<Rightarrow> compose_service
    \<Rightarrow> stack_secret list \<Rightarrow> bool \<Rightarrow> unit res act" where
  "deployService \<Omega> \<Pi> p st serviceName repoDir svc secrets secretsChanged =
     (if DesiredReplicas svc > 1 \<and> HasStaticPublishedPort svc
      then fail (ErrText (''service '' @ quoted serviceName @ '' has replicas='' @ dec_int (DesiredReplicas svc)
             @ '' with a static published host port; replicas would collide on the host port. Use `expose:` + a reverse proxy, or reduce replicas to 1''))
      else try_with id (waitForDependencyConditions \<Omega> serviceName svc) (\<lambda>_.
           try_with id (resolveImage \<Omega> p svc st) (\<lambda>_.
           try_with (ErrWrap ''failed to list containers: '') (getServiceContainers \<Omega> serviceName) (\<lambda>existing.
           try_with id (partition_existing \<Omega> svc secretsChanged existing [] []) (\<lambda>(kept, repl).
             rollout \<Omega> \<Pi> st serviceName repoDir svc secrets kept repl)))))"

section \<open>Capture and rollback\<close>

record saved_container =
  sv_id :: string
  sv_name :: string
  sv_image :: string
  sv_config :: container_config
  sv_networks :: "string list"

record service_state =
  ServiceName :: string
  ContainerStates :: "saved_container list"
  ImageTag :: string

fun capture_loop :: "outside \<Rightarrow> container_summary list \<Rightarrow> saved_container list \<Rightarrow> string \<Rightarrow> (saved_container list \<times> string) res act" where
  "capture_loop \<Omega> [] states imageTag = ok (states, imageTag)"
| "capture_loop \<Omega> (c # cs) states imageTag =
     try_with (ErrWrap (''failed to inspect container '' @ short12 (sm_id c) @ '': '')) (ContainerInspect \<Omega> (sm_id c)) (\<lambda>info.
       capture_loop \<Omega> cs
         (states @ [\<lparr>sv_id = sm_id c, sv_name = safeName (sm_names c), sv_image = sm_image c, sv_config = ci_config info,
                     sv_networks = ci_networks info\<rparr>])
         (if imageTag = [] then sm_image c else imageTag))"

definition captureServiceState :: "outside \<Rightarrow> string \<Rightarrow> service_state res act" where
  "captureServiceState \<Omega> serviceName =
     try_with (ErrWrap (''failed to list containers for '' @ serviceName @ '': '')) (getServiceContainers \<Omega> serviceName) (\<lambda>containers.
       if containers = [] then ok \<lparr>ServiceName = serviceName, ContainerStates = [], ImageTag = []\<rparr>
       else try_with id (capture_loop \<Omega> containers [] []) (\<lambda>(states, imageTag).
         ok \<lparr>ServiceName = serviceName, ContainerStates = states, ImageTag = imageTag\<rparr>))"

fun rollback_remove :: "outside \<Rightarrow> container_summary list \<Rightarrow> unit res act" where
  "rollback_remove \<Omega> [] = ok ()"
| "rollback_remove \<Omega> (c # cs) = do {
     _ \<leftarrow> ContainerStop \<Omega> (sm_id c) 10;
     try_with (ErrWrap (''failed to remove container '' @ short12 (sm_id c) @ '' during rollback: '')) (ContainerRemove \<Omega> (sm_id c))
       (\<lambda>_. rollback_remove \<Omega> cs) }"

fun reconnect :: "outside \<Rightarrow> string \<Rightarrow> string list \<Rightarrow> unit act" where
  "reconnect \<Omega> cid [] = State_Monad.return ()"
| "reconnect \<Omega> cid (net # nets) = do { _ \<leftarrow> NetworkConnect \<Omega> net cid; reconnect \<Omega> cid nets }"

fun rollback_create :: "outside \<Rightarrow> string \<Rightarrow> nat \<Rightarrow> saved_container list \<Rightarrow> unit res act" where
  "rollback_create \<Omega> serviceName i [] = ok ()"
| "rollback_create \<Omega> serviceName i (cs # rest) = do {
     t \<leftarrow> now \<Omega>;
     try_with (ErrWrap ''failed to create rollback container: '')
       (ContainerCreate \<Omega> (serviceName @ ''_rollback_'' @ dec_nat i @ ''_'' @ dec_int t) (sv_config cs)) (\<lambda>cid. do {
         _ \<leftarrow> reconnect \<Omega> cid (sv_networks cs);
         try_with (ErrWrap (''failed to start rollback container '' @ short12 cid @ '': '')) (ContainerStart \<Omega> cid)
           (\<lambda>_. rollback_create \<Omega> serviceName (Suc i) rest) }) }"

definition rollbackService :: "outside \<Rightarrow> service_state \<Rightarrow> unit res act" where
  "rollbackService \<Omega> state =
     (if ContainerStates state = [] then ok ()
      else try_with (ErrWrap ''failed to list current containers for rollback: '') (getServiceContainers \<Omega> (ServiceName state)) (\<lambda>current.
           try_with id (rollback_remove \<Omega> current) (\<lambda>_.
             rollback_create \<Omega> (ServiceName state) 0 (ContainerStates state))))"

text \<open>rollbackServices: the deployed services, last first; a service without a snapshot is skipped, an error logged.\<close>

fun rollback_services_loop :: "outside \<Rightarrow> (string \<times> service_state option) list \<Rightarrow> string list \<Rightarrow> unit act" where
  "rollback_services_loop \<Omega> states [] = State_Monad.return ()"
| "rollback_services_loop \<Omega> states (svcName # names) =
     (case map_of states svcName of
        Some (Some state) \<Rightarrow> do { _ \<leftarrow> rollbackService \<Omega> state; rollback_services_loop \<Omega> states names }
      | _ \<Rightarrow> rollback_services_loop \<Omega> states names)"

definition rollbackServices :: "outside \<Rightarrow> string list \<Rightarrow> (string \<times> service_state option) list \<Rightarrow> unit act" where
  "rollbackServices \<Omega> deployed states = rollback_services_loop \<Omega> states (rev deployed)"

section \<open>Facts of a log\<close>

definition listed :: "string \<Rightarrow> log \<Rightarrow> string \<Rightarrow> bool" where
  "listed name t cid \<longleftrightarrow> (\<exists>items c. EList name (Inr items) \<in> set t \<and> c \<in> set items \<and> of_service name c \<and> sm_id c = cid)"

definition created :: "log \<Rightarrow> string \<Rightarrow> bool" where
  "created t cid \<longleftrightarrow> (\<exists>name cfg. ECreate name cfg (Inr cid) \<in> set t)"

definition touched :: "log \<Rightarrow> string \<Rightarrow> bool" where
  "touched t cid \<longleftrightarrow> (\<exists>r. ERemove cid r \<in> set t) \<or> (\<exists>n r. EStop cid n r \<in> set t)"

text \<open>A container Docker has been heard to be well: running with no health check or a passed one, or freshly started
  and, in the words of the health loop, healthy or without a health check.\<close>

definition well_info :: "container_info \<Rightarrow> bool" where
  "well_info info \<longleftrightarrow> (\<exists>st. ci_state info = Some st \<and> (Health st = None \<or> Health st = Some ''healthy''))"

definition seen_well :: "log \<Rightarrow> string \<Rightarrow> bool" where
  "seen_well t cid \<longleftrightarrow> (\<exists>info. EInspect cid (Inr info) \<in> set t \<and> well_info info)"

text \<open>The code looks further at a container it finds already there: it must be running, and not known to be unhealthy. One
  the run has started itself is only asked for its health.\<close>

definition seen_running :: "log \<Rightarrow> string \<Rightarrow> bool" where
  "seen_running t cid \<longleftrightarrow> (\<exists>info st. EInspect cid (Inr info) \<in> set t \<and> ci_state info = Some st
     \<and> Running st \<and> Health st \<noteq> Some ''unhealthy'')"

definition serving :: "log \<Rightarrow> string \<Rightarrow> bool" where
  "serving t cid \<longleftrightarrow> seen_well t cid \<and> (created t cid \<or> seen_running t cid)"

definition dropped :: "log \<Rightarrow> string \<Rightarrow> bool" where
  "dropped t cid \<longleftrightarrow> (\<exists>r. ERemove cid r \<in> set t)"

text \<open>A container that needs no replacement: listed under the service's name with the service's image, and no secret of
  the stack has changed.\<close>

definition fits :: "string \<Rightarrow> compose_service \<times> bool \<Rightarrow> log \<Rightarrow> string \<Rightarrow> bool" where
  "fits name sb t cid \<longleftrightarrow> \<not> snd sb \<and> (\<exists>items c. EList name (Inr items) \<in> set t \<and> c \<in> set items \<and> of_service name c
     \<and> sm_id c = cid \<and> sm_image c = cs_image (fst sb))"

lemmas log_facts = listed_def fits_def created_def touched_def seen_well_def seen_running_def dropped_def

lemma log_snoc:
  "listed name (t @ [e]) cid \<longleftrightarrow> listed name t cid \<or> listed name [e] cid"
  "created (t @ [e]) cid \<longleftrightarrow> created t cid \<or> created [e] cid"
  "touched (t @ [e]) cid \<longleftrightarrow> touched t cid \<or> touched [e] cid"
  "seen_well (t @ [e]) cid \<longleftrightarrow> seen_well t cid \<or> seen_well [e] cid"
  "seen_running (t @ [e]) cid \<longleftrightarrow> seen_running t cid \<or> seen_running [e] cid"
  "dropped (t @ [e]) cid \<longleftrightarrow> dropped t cid \<or> dropped [e] cid"
  "fits name sb (t @ [e]) cid \<longleftrightarrow> fits name sb t cid \<or> fits name sb [e] cid"
  by (auto simp: log_facts)

lemma log_append:
  "listed name (t @ u) cid \<longleftrightarrow> listed name t cid \<or> listed name u cid"
  "created (t @ u) cid \<longleftrightarrow> created t cid \<or> created u cid"
  "touched (t @ u) cid \<longleftrightarrow> touched t cid \<or> touched u cid"
  "seen_well (t @ u) cid \<longleftrightarrow> seen_well t cid \<or> seen_well u cid"
  by (auto simp: log_facts)

lemma serving_snoc: "serving t cid \<Longrightarrow> serving (t @ [e]) cid"
  by (auto simp: serving_def log_snoc)

lemma serving_append: "serving t cid \<Longrightarrow> serving (t @ u) cid"
  by (auto simp: serving_def log_facts)

lemma dropped_touched: "dropped t cid \<Longrightarrow> touched t cid"
  by (auto simp: log_facts)

text \<open>The world after a log \<open>l0\<close>, with new events that satisfy a property.\<close>

definition after :: "log \<Rightarrow> (log \<Rightarrow> bool) \<Rightarrow> world \<Rightarrow> bool" where
  "after l0 A w \<longleftrightarrow> (\<exists>t. w_log w = l0 @ t \<and> A t)"

lemma afterI: "w_log w = l0 @ t \<Longrightarrow> A t \<Longrightarrow> after l0 A w"
  by (auto simp: after_def)

lemma after_mono: "after l0 A w \<Longrightarrow> (\<And>t. A t \<Longrightarrow> B t) \<Longrightarrow> after l0 B w"
  by (auto simp: after_def)

lemma after_conjD: "after l0 (\<lambda>t. A t \<and> B t) w \<Longrightarrow> after l0 A w" "after l0 (\<lambda>t. A t \<and> B t) w \<Longrightarrow> after l0 B w"
  by (auto simp: after_def)

lemma after_db [simp]: "after l0 A (w\<lparr>w_db := d\<rparr>) = after l0 A w"
  by (simp add: after_def)

text \<open>A property of the new events that one more event of an allowed kind keeps.\<close>

lemma keeps_emit_after:
  assumes "\<And>t a. A t \<Longrightarrow> a = ans (l0 @ t) \<Longrightarrow> A (t @ [ev a])"
  shows "keeps (after l0 A) (emit ans ev)"
proof (rule keeps_emit)
  fix w assume "after l0 A w"
  then obtain t where "w_log w = l0 @ t" "A t" by (auto simp: after_def)
  then show "after l0 A (w\<lparr>w_log := w_log w @ [ev (ans (w_log w))]\<rparr>)"
    using assms[of t "ans (l0 @ t)"] by (intro afterI[of _ _ "t @ [ev (ans (l0 @ t))]"]) simp_all
qed

text \<open>Properties that quiet events keep.\<close>

definition stable :: "(log \<Rightarrow> bool) \<Rightarrow> bool" where
  "stable A \<longleftrightarrow> (\<forall>t e. A t \<longrightarrow> quiet e \<longrightarrow> A (t @ [e]))"

lemma stable_emit: "stable A \<Longrightarrow> (\<And>a. quiet (ev a)) \<Longrightarrow> keeps (after l0 A) (emit ans ev)"
  by (rule keeps_emit_after) (auto simp: stable_def)

lemma stable_tolerates: "stable A \<Longrightarrow> tolerates quiet (after l0 A)"
  unfolding tolerates_def stable_def after_def by fastforce

text \<open>The rules of Frames for what is true of the new events.\<close>

lemmas quiet_ops [keep] = quiet_ops_frame[OF stable_tolerates]
lemmas reading_quiet [keep] = reading_frame[OF stable_tolerates]
lemmas getServiceContainers_quiet [keep] = getServiceContainers_frame[OF stable_tolerates]
lemmas scan_healthy_quiet [keep] = scan_healthy_frame[OF stable_tolerates]
lemmas scan_exited_quiet [keep] = scan_exited_frame[OF stable_tolerates]
lemmas emit_tick_quiet [keep] = emit_tick_frame[OF stable_tolerates]
lemmas wait_healthy_quiet [keep] = wait_healthy_frame[OF stable_tolerates]
lemmas dep_healthy_quiet [keep] = dep_healthy_frame[OF stable_tolerates]
lemmas dep_exit_quiet [keep] = dep_exit_frame[OF stable_tolerates]
lemmas wait_dependencies_quiet [keep] = wait_dependencies_frame[OF stable_tolerates]
lemmas retry_quiet [keep] = retry_frame[OF stable_tolerates]
lemmas pull_once_quiet [keep] = pull_once_frame[OF stable_tolerates]
lemmas resolveImage_quiet [keep] = resolveImage_frame[OF stable_tolerates]
lemmas waitForHealthy_quiet [keep] = waitForHealthy_frame[OF stable_tolerates]
lemmas LoadEnvFiles_quiet [keep] = LoadEnvFiles_frame[OF stable_tolerates]

lemma keepContainer_frame [keep]: "tolerates quiet I \<Longrightarrow> keeps I (keepContainer \<Omega> svc b c)"
  by (simp add: keepContainer_def keep)

lemma partition_frame [keep]: "tolerates quiet I \<Longrightarrow> keeps I (partition_existing \<Omega> svc b cs k r)"
  by (induction cs arbitrary: k r) (simp_all add: keep)

lemmas keepContainer_quiet [keep] = keepContainer_frame[OF stable_tolerates]
lemmas partition_quiet [keep] = partition_frame[OF stable_tolerates]

section \<open>What a rollout may touch\<close>

text \<open>Docker's documented behaviour the theorems rely on: a new container gets an id not seen before, and a listing names
  each container once.\<close>

fun ids_of :: "event \<Rightarrow> string set" where
  "ids_of (EList _ (Inr items)) = sm_id ` set items"
| "ids_of (EListStack _ (Inr items)) = sm_id ` set items"
| "ids_of (EInspect c _) = {c}"
| "ids_of (ECreate _ _ (Inr c)) = {c}"
| "ids_of (EStart c _) = {c}"
| "ids_of (EStop c _ _) = {c}"
| "ids_of (ERemove c _) = {c}"
| "ids_of (ENetConnect _ c _) = {c}"
| "ids_of _ = {}"

definition known :: "log \<Rightarrow> string set" where
  "known t = (\<Union>e \<in> set t. ids_of e)"

definition docker_ids :: "outside \<Rightarrow> bool" where
  "docker_ids \<Omega> \<longleftrightarrow> (\<forall>l name cfg cid. o_create \<Omega> l name cfg = Inr cid \<longrightarrow> cid \<notin> known l)
     \<and> (\<forall>l name items. o_list \<Omega> l name = Inr items \<longrightarrow> distinct (List.map sm_id items))"

text \<open>Every container stopped or removed was, before that, listed under the service's name or created in this run.\<close>

definition own :: "string \<Rightarrow> log \<Rightarrow> bool" where
  "own name t \<longleftrightarrow> (\<forall>i < length t. \<forall>cid. touched [t ! i] cid \<longrightarrow> listed name (take i t) cid \<or> created (take i t) cid)"

text \<open>No container that was there before is stopped or removed, or else one that stays was seen serving before the first.\<close>

definition covered :: "log \<Rightarrow> string set \<Rightarrow> bool" where
  "covered t live \<longleftrightarrow> (\<forall>c. touched t c \<longrightarrow> created t c) \<or>
     (\<exists>pre post c0. t = pre @ post \<and> (\<forall>c. touched pre c \<longrightarrow> created pre c) \<and> serving pre c0 \<and> c0 \<in> live)"

text \<open>The invariant of the rolling loop: \<open>sb\<close> is the service and whether its stack's secrets changed, \<open>olds\<close> are the ids in
  the listing, \<open>repl\<close> those still to be removed, \<open>live\<close> those that stay.\<close>

definition rolling :: "string \<Rightarrow> compose_service \<times> bool \<Rightarrow> string list \<Rightarrow> string list \<Rightarrow> string list \<Rightarrow> log \<Rightarrow> bool" where
  "rolling name sb olds repl live t \<longleftrightarrow>
     own name t \<and> (\<forall>c \<in> set repl. listed name t c) \<and> distinct (repl @ live)
     \<and> (\<forall>c \<in> set live. serving t c \<and> \<not> touched t c \<and> (fits name sb t c \<or> created t c))
     \<and> set repl \<union> set live \<subseteq> known t
     \<and> (\<forall>c \<in> set olds. c \<in> set repl \<union> set live \<or> dropped t c)
     \<and> (\<exists>items. EList name (Inr items) \<in> set t \<and> olds = List.map sm_id (filter (of_service name) items))
     \<and> covered t (set live)"

definition pending :: "string list \<Rightarrow> string \<Rightarrow> log \<Rightarrow> bool" where
  "pending others cid t \<longleftrightarrow> created t cid \<and> \<not> touched t cid \<and> cid \<notin> set others \<and> cid \<in> known t"

lemma known_snoc: "known (t @ [e]) = known t \<union> ids_of e"
  by (auto simp: known_def)

lemma known_append: "known (t @ u) = known t \<union> known u"
  by (auto simp: known_def)

lemma own_snoc: "own name (t @ [e]) \<longleftrightarrow> own name t \<and> (\<forall>cid. touched [e] cid \<longrightarrow> listed name t cid \<or> created t cid)"
  by (auto simp: own_def nth_append less_Suc_eq)

lemma quiet_touches: "quiet e \<Longrightarrow> \<not> touched [e] c" "quiet e \<Longrightarrow> \<not> created [e] c"
  by (cases e; auto simp: log_facts)+

lemma covered_snoc:
  assumes "covered t live" "\<And>c. touched [e] c \<Longrightarrow> created (t @ [e]) c \<or> (\<exists>c0 \<in> live. serving t c0)"
  shows "covered (t @ [e]) live"
proof (cases "\<forall>c. touched t c \<longrightarrow> created t c")
  case True
  show ?thesis
  proof (cases "\<forall>c. touched [e] c \<longrightarrow> created (t @ [e]) c")
    case True': True
    then show ?thesis using True by (auto simp: covered_def log_snoc)
  next
    case False
    then obtain c0 where "c0 \<in> live" "serving t c0" using assms(2) by blast
    then show ?thesis using True unfolding covered_def by blast
  qed
next
  case False
  then obtain pre post c0 where "t = pre @ post" "\<forall>c. touched pre c \<longrightarrow> created pre c" "serving pre c0" "c0 \<in> live"
    using assms(1) by (auto simp: covered_def)
  then have "t @ [e] = pre @ (post @ [e]) \<and> (\<forall>c. touched pre c \<longrightarrow> created pre c) \<and> serving pre c0 \<and> c0 \<in> live" by simp
  then show ?thesis unfolding covered_def by blast
qed

lemma covered_mono: "covered t live \<Longrightarrow> live \<subseteq> live' \<Longrightarrow> covered t live'"
  unfolding covered_def by blast

text \<open>One event in the rolling loop: it touches at most a container of this run that is not among those that stay, or one
  still to be removed while another one stays.\<close>

lemma rolling_snoc:
  assumes "rolling name sb olds repl live t"
    "\<And>c. touched [e] c \<Longrightarrow> c \<notin> set live \<and> (created t c \<or> listed name t c \<and> live \<noteq> [])"
  shows "rolling name sb olds repl live (t @ [e])"
proof -
  have w: "\<exists>c0 \<in> set live. serving t c0" if "live \<noteq> []"
    using that assms(1) by (cases live) (auto simp: rolling_def)
  have "covered (t @ [e]) (set live)"
    by (rule covered_snoc) (use assms w in \<open>auto simp: rolling_def log_snoc\<close>)
  then show ?thesis using assms serving_snoc unfolding rolling_def own_snoc known_snoc log_snoc set_append by blast
qed

lemma rolling_stable: "stable (rolling name sb olds repl live)"
  unfolding stable_def using rolling_snoc quiet_touches by blast

lemma pending_stable: "stable (pending others cid)"
  by (auto simp: stable_def pending_def log_snoc quiet_touches known_snoc)

lemma stable_conj: "stable A \<Longrightarrow> stable B \<Longrightarrow> stable (\<lambda>t. A t \<and> B t)"
  by (auto simp: stable_def)

lemma serving_stable: "stable (\<lambda>t. serving t c)"
  by (auto simp: stable_def serving_snoc)

section \<open>Triples of the steps\<close>

lemma valid_emit_after:
  "(\<And>t a. A t \<Longrightarrow> a = ans (l0 @ t) \<Longrightarrow> B a (t @ [ev a])) \<Longrightarrow> valid (after l0 A) (emit ans ev) (\<lambda>a. after l0 (B a))"
  by (fastforce simp: after_def)

lemma valid_keeps: "keeps I m \<Longrightarrow> valid I m (\<lambda>_. I)"
  by (simp add: keeps_def)

lemma valid_pre: "valid P m Q \<Longrightarrow> (\<And>s. P' s \<Longrightarrow> P s) \<Longrightarrow> valid P' m Q"
  by (rule valid_conseq)

lemma valid_post: "valid P m Q \<Longrightarrow> (\<And>a s. Q a s \<Longrightarrow> Q' a s) \<Longrightarrow> valid P m Q'"
  by (rule valid_conseq)

text \<open>The two outcomes of a step.\<close>

definition outcome :: "('e \<Rightarrow> 's \<Rightarrow> bool) \<Rightarrow> ('a \<Rightarrow> 's \<Rightarrow> bool) \<Rightarrow> 'e + 'a \<Rightarrow> 's \<Rightarrow> bool" where
  "outcome E R r = (case r of Inl e \<Rightarrow> E e | Inr x \<Rightarrow> R x)"

lemma outcome_simps [simp]: "outcome E R (Inl e) = E e" "outcome E R (Inr x) = R x"
  by (simp_all add: outcome_def)

lemma valid_try_outcome:
  assumes "valid P m (outcome (\<lambda>_. E) R)" "\<And>x. valid (R x) (f x) (outcome (\<lambda>_. E) Q)"
  shows "valid P (try_with wrap m f) (outcome (\<lambda>_. E) Q)"
proof (rule valid_try[where R = R])
  show "valid P m (\<lambda>r. case r of Inl e \<Rightarrow> outcome (\<lambda>_. E) Q (Inl (wrap e)) | Inr x \<Rightarrow> R x)"
    by (rule valid_post[OF assms(1)]) (auto simp: outcome_def split: sum.splits)
qed (rule assms(2))

lemma valid_outcome_keeps: "keeps I m \<Longrightarrow> valid I m (outcome (\<lambda>_. I) (\<lambda>_. I))"
  by (rule valid_post[OF valid_keeps]) (auto simp: outcome_def split: sum.split)

lemma valid_fail: "valid E (fail e) (outcome (\<lambda>_. E) R)"
  by (simp add: fail_def)

lemma valid_ok: "(\<And>s. P s \<Longrightarrow> R x s) \<Longrightarrow> valid P (ok x) (outcome E R)"
  by (simp add: ok_def)

lemma valid_bind_keeps: "keeps P m \<Longrightarrow> (\<And>a. valid P (f a) Q) \<Longrightarrow> valid P (State_Monad.bind m f) Q"
  by (rule valid_bind[OF valid_keeps])

text \<open>Looking at a container: the answer is in the log.\<close>

lemma inspect_outcome:
  assumes "stable A"
  shows "valid (after l0 A) (ContainerInspect \<Omega> cid)
     (outcome (\<lambda>_. after l0 A) (\<lambda>info. after l0 (\<lambda>t. A t \<and> EInspect cid (Inr info) \<in> set t)))"
proof -
  have "valid (after l0 A) (ContainerInspect \<Omega> cid) (\<lambda>r. after l0 (\<lambda>t. A t \<and> EInspect cid r \<in> set t))"
    unfolding ContainerInspect_def by (rule valid_emit_after) (use assms in \<open>auto simp: stable_def\<close>)
  then show ?thesis by (rule valid_post) (auto simp: outcome_def split: sum.split elim: after_mono)
qed

lemma wait_step:
  assumes "stable A"
    "valid (after l0 A) rest (outcome (\<lambda>_. after l0 A) (\<lambda>_. after l0 (\<lambda>t. A t \<and> seen_well t cid)))"
  shows "valid (after l0 A) (try_with wrap (ContainerInspect \<Omega> cid) (\<lambda>info. case healthStep cid info of Some r \<Rightarrow> State_Monad.return r | None \<Rightarrow> rest))
     (outcome (\<lambda>_. after l0 A) (\<lambda>_. after l0 (\<lambda>t. A t \<and> seen_well t cid)))"
proof (rule valid_try_outcome[OF inspect_outcome[OF assms(1)]])
  fix info
  let ?P = "after l0 (\<lambda>t. A t \<and> EInspect cid (Inr info) \<in> set t)"
  have A: "?P w \<Longrightarrow> after l0 A w" for w by (rule after_conjD)
  show "valid ?P (case healthStep cid info of Some r \<Rightarrow> State_Monad.return r | None \<Rightarrow> rest)
      (outcome (\<lambda>_. after l0 A) (\<lambda>_. after l0 (\<lambda>t. A t \<and> seen_well t cid)))"
  proof (cases "healthStep cid info")
    case None
    then show ?thesis using valid_pre[OF assms(2) A] by simp
  next
    case (Some r)
    have "well_info info" if "r = Inr ()"
      using Some that by (auto simp: healthStep_def well_info_def split: option.splits if_splits)
    then show ?thesis using Some A by (auto simp: outcome_def seen_well_def split: sum.split elim!: after_mono)
  qed
qed

lemma wait_healthy_well:
  assumes "stable A"
  shows "valid (after l0 A) (wait_healthy_loop \<Omega> n cid) (outcome (\<lambda>_. after l0 A) (\<lambda>_. after l0 (\<lambda>t. A t \<and> seen_well t cid)))"
proof (induction n)
  case 0
  show ?case
    unfolding wait_healthy_loop.simps[of \<Omega> 0] nat.case
    by (rule wait_step[OF assms], rule valid_bind_keeps) (intro keep assms valid_fail)+
next
  case (Suc n)
  show ?case
    unfolding wait_healthy_loop.simps[of \<Omega> "Suc n"] nat.case
    by (rule wait_step[OF assms], rule valid_bind_keeps) (auto intro: keep assms valid_fail Suc)
qed

lemma waitForHealthy_well:
  "stable A \<Longrightarrow> valid (after l0 A) (waitForHealthy \<Omega> cid) (outcome (\<lambda>_. after l0 A) (\<lambda>_. after l0 (\<lambda>t. A t \<and> seen_well t cid)))"
  unfolding waitForHealthy_def by (rule wait_healthy_well)

text \<open>A container that stays has the image of the service and was seen running and well.\<close>

definition may_stay :: "compose_service \<Rightarrow> bool \<Rightarrow> container_summary \<Rightarrow> log \<Rightarrow> bool" where
  "may_stay svc b c t \<longleftrightarrow> \<not> b \<and> sm_image c = cs_image svc \<and> seen_well t (sm_id c) \<and> seen_running t (sm_id c)"

lemma may_stay_snoc: "may_stay svc b c t \<Longrightarrow> may_stay svc b c (t @ [e])"
  by (auto simp: may_stay_def log_snoc)

lemma keepContainer_well:
  assumes "stable A"
  shows "valid (after l0 A) (keepContainer \<Omega> svc b c)
     (outcome (\<lambda>_. after l0 A) (\<lambda>k. after l0 (\<lambda>t. A t \<and> (k \<longrightarrow> may_stay svc b c t))))"
proof -
  let ?Q = "outcome (\<lambda>_. after l0 A) (\<lambda>k. after l0 (\<lambda>t. A t \<and> (k \<longrightarrow> may_stay svc b c t)))"
  have no: "valid (after l0 A) (ok False) ?Q" by (rule valid_ok) (auto elim: after_mono)
  show ?thesis
  proof (cases "b \<or> sm_image c \<noteq> cs_image svc")
    case True
    then show ?thesis using no by (auto simp: keepContainer_def)
  next
    case False
    then have b: "\<not> b" "sm_image c = cs_image svc" by simp_all
    have "valid (after l0 (\<lambda>t. A t \<and> EInspect (sm_id c) (Inr info) \<in> set t))
       (case ci_state info of None \<Rightarrow> ok False
        | Some st \<Rightarrow> if \<not> Running st then ok False else if Health st = Some ''unhealthy'' then ok False
            else if Health st \<noteq> None \<and> Health st \<noteq> Some ''healthy'' then do {
                r \<leftarrow> waitForHealthy \<Omega> (sm_id c); case r of Inl _ \<Rightarrow> ok False | Inr _ \<Rightarrow> ok True } else ok True) ?Q" for info
    proof -
      let ?P = "after l0 (\<lambda>t. A t \<and> EInspect (sm_id c) (Inr info) \<in> set t)"
      let ?B = "\<lambda>t. A t \<and> seen_running t (sm_id c)"
      have A: "?P w \<Longrightarrow> after l0 A w" for w by (rule after_conjD)
      have B: "stable ?B" using assms by (auto simp: stable_def log_snoc)
      have up: "?P w \<Longrightarrow> after l0 ?B w"
        if "ci_state info = Some st" "Running st" "Health st \<noteq> Some ''unhealthy''" for st w
        by (erule after_mono) (use that in \<open>auto simp: seen_running_def\<close>)
      have w: "valid ?P (do { r \<leftarrow> waitForHealthy \<Omega> (sm_id c); case r of Inl _ \<Rightarrow> ok False | Inr _ \<Rightarrow> ok True }) ?Q"
        if s: "ci_state info = Some st" "Running st" "Health st \<noteq> Some ''unhealthy''" for st
      proof (rule valid_bind[OF valid_pre[OF waitForHealthy_well[OF B] up[OF s]]])
        fix r :: "unit res"
        show "valid (outcome (\<lambda>_. after l0 ?B) (\<lambda>_. after l0 (\<lambda>t. ?B t \<and> seen_well t (sm_id c))) r)
           (case r of Inl _ \<Rightarrow> ok False | Inr _ \<Rightarrow> ok True) ?Q"
          using b by (cases r) (auto simp: ok_def may_stay_def elim!: after_mono)
      qed assumption
      have y: "valid ?P (ok True) ?Q"
        if "ci_state info = Some st" "Running st" "Health st = None \<or> Health st = Some ''healthy''" for st
        using that b by (intro valid_ok) (auto simp: seen_well_def well_info_def may_stay_def seen_running_def elim!: after_mono)
      show ?thesis using w y valid_pre[OF no A] by (auto split: option.split)
    qed
    then show ?thesis unfolding keepContainer_def
      using no b by (auto intro!: valid_try_outcome[OF inspect_outcome[OF assms]])
  qed
qed

lemma partition_well:
  assumes "stable A"
  shows "valid (after l0 (\<lambda>t. A t \<and> (\<forall>c \<in> set kept. may_stay svc b c t))) (partition_existing \<Omega> svc b cs kept repl)
     (outcome (\<lambda>_. after l0 A) (\<lambda>(k, r). after l0 (\<lambda>t. A t \<and> (\<forall>c \<in> set k. may_stay svc b c t)
         \<and> mset (k @ r) = mset (kept @ repl @ cs))))"
proof (induction cs arbitrary: kept repl)
  case Nil
  show ?case by (simp add: ok_def)
next
  case (Cons c cs)
  let ?B = "\<lambda>t. A t \<and> (\<forall>c \<in> set kept. may_stay svc b c t)"
  have B: "stable ?B" using assms by (auto simp: stable_def may_stay_snoc)
  have m: "after l0 ?B w \<Longrightarrow> after l0 A w" for w by (rule after_conjD)
  have k: "valid (after l0 ?B) (keepContainer \<Omega> svc b c)
     (outcome (\<lambda>_. after l0 A) (\<lambda>k. after l0 (\<lambda>t. ?B t \<and> (k \<longrightarrow> may_stay svc b c t))))"
    by (rule valid_post[OF keepContainer_well[OF B]]) (auto simp: outcome_def split: sum.splits intro: m)
  show ?case
    unfolding partition_existing.simps
  proof (rule valid_try_outcome[OF k])
    fix x
    show "valid (after l0 (\<lambda>t. ?B t \<and> (x \<longrightarrow> may_stay svc b c t)))
       (if x then partition_existing \<Omega> svc b cs (kept @ [c]) repl else partition_existing \<Omega> svc b cs kept (repl @ [c]))
       (outcome (\<lambda>_. after l0 A) (\<lambda>(k, r). after l0 (\<lambda>t. A t \<and> (\<forall>c \<in> set k. may_stay svc b c t)
         \<and> mset (k @ r) = mset (kept @ repl @ c # cs))))"
      using Cons[of "kept @ [c]" repl] Cons[of kept "repl @ [c]"]
      by (auto elim!: valid_conseq after_mono simp: outcome_def split: sum.splits prod.splits)
  qed
qed

section \<open>The rolling loop\<close>

lemma touched_one: "touched [EStop cid n r] c \<longleftrightarrow> c = cid" "touched [ERemove cid r'] c \<longleftrightarrow> c = cid"
  "touched [ECreate a b r''] c \<longleftrightarrow> False"
  by (auto simp: touched_def)

lemma touched_known: "touched t c \<Longrightarrow> c \<in> known t"
  by (force simp: touched_def known_def)

lemma rolling_drop: "rolling name sb olds (old # rest) live t \<Longrightarrow> dropped t old \<Longrightarrow> rolling name sb olds rest live t"
  by (auto simp: rolling_def)

lemma rolling_join:
  "rolling name sb olds repl live t \<Longrightarrow> pending (repl @ live) cid t \<Longrightarrow> seen_well t cid \<Longrightarrow> rolling name sb olds repl (live @ [cid]) t"
  using covered_mono[of t "set live" "insert cid (set live)"] by (auto simp: rolling_def pending_def serving_def)

text \<open>Stopping or removing one container.\<close>

definition may_touch :: "string list \<Rightarrow> string \<Rightarrow> string \<Rightarrow> log \<Rightarrow> bool" where
  "may_touch live name cid t \<longleftrightarrow> cid \<notin> set live \<and> (created t cid \<or> listed name t cid \<and> live \<noteq> [])"

lemma may_touch_snoc: "may_touch live name cid t \<Longrightarrow> may_touch live name cid (t @ [e])"
  by (auto simp: may_touch_def log_snoc)

lemma stop_rolling:
  "valid (after l0 (\<lambda>t. rolling name sb olds repl live t \<and> may_touch live name cid t)) (ContainerStop \<Omega> cid n)
     (\<lambda>_. after l0 (\<lambda>t. rolling name sb olds repl live t \<and> may_touch live name cid t))"
  unfolding ContainerStop_def
  by (rule valid_emit_after) (auto simp: touched_one log_snoc may_touch_def intro!: rolling_snoc)

lemma remove_rolling:
  "valid (after l0 (\<lambda>t. rolling name sb olds repl live t \<and> may_touch live name cid t)) (ContainerRemove \<Omega> cid)
     (\<lambda>_. after l0 (\<lambda>t. rolling name sb olds repl live t \<and> dropped t cid))"
  unfolding ContainerRemove_def
  by (rule valid_emit_after) (auto simp: touched_one log_snoc may_touch_def dropped_def intro!: rolling_snoc)

lemma stopAndRemove_rolling:
  "valid (after l0 (\<lambda>t. rolling name sb olds repl live t \<and> may_touch live name cid t)) (stopAndRemove \<Omega> cid n)
     (\<lambda>_. after l0 (\<lambda>t. rolling name sb olds repl live t \<and> dropped t cid))"
  unfolding stopAndRemove_def
  by (rule valid_bind[OF stop_rolling], rule valid_bind[OF remove_rolling]) simp

lemma create_pending:
  assumes "docker_ids \<Omega>"
  shows "valid (after l0 (rolling name sb olds repl live)) (ContainerCreate \<Omega> cname cfg)
     (outcome (\<lambda>_. after l0 (rolling name sb olds repl live))
        (\<lambda>cid. after l0 (\<lambda>t. rolling name sb olds repl live t \<and> pending (repl @ live) cid t)))"
proof -
  have "valid (after l0 (rolling name sb olds repl live)) (ContainerCreate \<Omega> cname cfg)
     (\<lambda>r. after l0 (\<lambda>t. rolling name sb olds repl live t \<and> (\<forall>cid. r = Inr cid \<longrightarrow> pending (repl @ live) cid t)))"
    unfolding ContainerCreate_def
  proof (rule valid_emit_after, intro conjI allI impI)
    fix t a assume t: "rolling name sb olds repl live t" and a: "a = o_create \<Omega> (l0 @ t) cname cfg"
    show "rolling name sb olds repl live (t @ [ECreate cname cfg a])" by (rule rolling_snoc[OF t]) (simp add: touched_one)
    fix cid assume c: "a = Inr cid"
    then have n: "cid \<notin> known (l0 @ t)" using assms a by (metis docker_ids_def)
    then have "cid \<notin> known t" by (simp add: known_append)
    moreover from this have "\<not> touched t cid" using touched_known by blast
    ultimately show "pending (repl @ live) cid (t @ [ECreate cname cfg a])"
      using t c by (auto simp: pending_def log_snoc touched_one known_snoc rolling_def) (auto simp: created_def)
  qed
  then show ?thesis by (rule valid_post) (auto simp: outcome_def split: sum.split elim: after_mono)
qed

lemma pending_may_touch: "pending (repl @ live) cid t \<Longrightarrow> may_touch live name cid t"
  by (simp add: pending_def may_touch_def)

lemma create_start_rolling:
  assumes "docker_ids \<Omega>"
  shows "valid (after l0 (rolling name sb olds repl live))
     (createAndStartContainer \<Omega> \<Pi> cname repoDir svc serviceName stackName i secrets)
     (outcome (\<lambda>_. after l0 (rolling name sb olds repl live))
        (\<lambda>cid. after l0 (\<lambda>t. rolling name sb olds repl live t \<and> pending (repl @ live) cid t)))"
proof -
  let ?R = "rolling name sb olds repl live"
  have start: "valid (after l0 (\<lambda>t. ?R t \<and> pending (repl @ live) cid t))
     (do { r \<leftarrow> ContainerStart \<Omega> cid;
           case r of Inl e \<Rightarrow> do { _ \<leftarrow> ContainerRemove \<Omega> cid; fail (wrap e) } | Inr _ \<Rightarrow> ok cid })
     (outcome (\<lambda>_. after l0 ?R) (\<lambda>cid. after l0 (\<lambda>t. ?R t \<and> pending (repl @ live) cid t)))" for cid wrap
  proof (rule valid_bind_keeps)
    show "keeps (after l0 (\<lambda>t. ?R t \<and> pending (repl @ live) cid t)) (ContainerStart \<Omega> cid)"
      unfolding ContainerStart_def by (rule stable_emit) (auto intro: stable_conj rolling_stable pending_stable)
    fix r :: "unit res"
    show "valid (after l0 (\<lambda>t. ?R t \<and> pending (repl @ live) cid t))
       (case r of Inl e \<Rightarrow> do { _ \<leftarrow> ContainerRemove \<Omega> cid; fail (wrap e) } | Inr _ \<Rightarrow> ok cid)
       (outcome (\<lambda>_. after l0 ?R) (\<lambda>cid. after l0 (\<lambda>t. ?R t \<and> pending (repl @ live) cid t)))"
    proof (cases r)
      case (Inl e)
      have "valid (after l0 (\<lambda>t. ?R t \<and> pending (repl @ live) cid t)) (ContainerRemove \<Omega> cid) (\<lambda>_. after l0 (\<lambda>t. ?R t \<and> dropped t cid))"
        by (rule valid_pre[OF remove_rolling]) (auto elim!: after_mono intro: pending_may_touch)
      then show ?thesis unfolding Inl sum.case
        by (rule valid_bind) (rule valid_pre[OF valid_fail], rule after_conjD)
    qed (auto intro!: valid_ok)
  qed
  show ?thesis unfolding createAndStartContainer_def Let_def
    by (rule valid_try_outcome[OF valid_outcome_keeps[OF LoadEnvFiles_quiet[OF rolling_stable]]],
        rule valid_try_outcome[OF create_pending[OF assms]], rule start)
qed

text \<open>The loop: on an error the invariant holds for what is left then, and on success each replica made is one that stays.\<close>

lemma roll_replicas_rolling:
  assumes ids: "docker_ids \<Omega>"
  shows "valid (after l0 (rolling name sb olds (List.map sm_id repl) live))
     (roll_replicas \<Omega> \<Pi> st name repoDir svc secrets stopTimeout n i repl)
     (outcome (\<lambda>_. after l0 (\<lambda>t. \<exists>repl live. rolling name sb olds repl live t))
        (\<lambda>left. after l0 (\<lambda>t. \<exists>live'. rolling name sb olds (List.map sm_id left) live' t \<and> length live' = length live + n)))"
proof (induction n arbitrary: i repl live)
  case 0
  show ?case by (auto simp: ok_def elim!: after_mono)
next
  case (Suc n)
  let ?E = "after l0 (\<lambda>t. \<exists>repl live. rolling name sb olds repl live t)"
  let ?Q = "outcome (\<lambda>_. ?E) (\<lambda>left. after l0 (\<lambda>t. \<exists>live'. rolling name sb olds (List.map sm_id left) live' t \<and> length live' = length live + Suc n))"
  let ?R = "rolling name sb olds (List.map sm_id repl) live"
  let ?P = "\<lambda>cid t. ?R t \<and> pending (List.map sm_id repl @ live) cid t"
  have E: "after l0 (rolling name sb olds r l) w \<Longrightarrow> ?E w" for r l w by (erule after_mono) blast
  have rest: "valid (after l0 (rolling name sb olds (List.map sm_id rest) (live @ [cid])))
      (roll_replicas \<Omega> \<Pi> st name repoDir svc secrets stopTimeout n (Suc i) rest) ?Q" for rest cid
    by (rule valid_post[OF Suc]) simp
  have old: "valid (after l0 (rolling name sb olds (List.map sm_id (old # rest)) (live @ [cid]))) (stopAndRemove \<Omega> (sm_id old) stopTimeout)
      (\<lambda>_. after l0 (rolling name sb olds (List.map sm_id rest) (live @ [cid])))" for old rest cid
  proof (rule valid_conseq[OF stopAndRemove_rolling])
    fix w assume "after l0 (rolling name sb olds (List.map sm_id (old # rest)) (live @ [cid])) w"
    then show "after l0 (\<lambda>t. rolling name sb olds (List.map sm_id (old # rest)) (live @ [cid]) t \<and> may_touch (live @ [cid]) name (sm_id old) t) w"
      by (rule after_mono) (auto simp: rolling_def may_touch_def)
  qed (auto elim!: after_mono dest: rolling_drop)
  have made: "valid (after l0 (?P cid)) (do {
       h \<leftarrow> waitForHealthy \<Omega> cid;
       case h of
         Inl e \<Rightarrow> do {
           _ \<leftarrow> ContainerStop \<Omega> cid stopTimeout;
           _ \<leftarrow> ContainerRemove \<Omega> cid;
           fail (wrap cid e) }
       | Inr _ \<Rightarrow>
         (case repl of
            [] \<Rightarrow> roll_replicas \<Omega> \<Pi> st name repoDir svc secrets stopTimeout n (Suc i) []
          | old # rest \<Rightarrow> do {
              _ \<leftarrow> stopAndRemove \<Omega> (sm_id old) stopTimeout;
              roll_replicas \<Omega> \<Pi> st name repoDir svc secrets stopTimeout n (Suc i) rest }) }) ?Q" for cid wrap
  proof (rule valid_bind[OF waitForHealthy_well[OF stable_conj[OF rolling_stable pending_stable]]])
    fix h :: "unit res"
    let ?H = "outcome (\<lambda>_. after l0 (?P cid)) (\<lambda>_. after l0 (\<lambda>t. ?P cid t \<and> seen_well t cid)) h"
    show "valid ?H (case h of
         Inl e \<Rightarrow> do { _ \<leftarrow> ContainerStop \<Omega> cid stopTimeout; _ \<leftarrow> ContainerRemove \<Omega> cid; fail (wrap cid e) }
       | Inr _ \<Rightarrow>
         (case repl of
            [] \<Rightarrow> roll_replicas \<Omega> \<Pi> st name repoDir svc secrets stopTimeout n (Suc i) []
          | old # rest \<Rightarrow> do {
              _ \<leftarrow> stopAndRemove \<Omega> (sm_id old) stopTimeout;
              roll_replicas \<Omega> \<Pi> st name repoDir svc secrets stopTimeout n (Suc i) rest })) ?Q"
    proof (cases h)
      case (Inl e)
      have "?H w \<Longrightarrow> after l0 (\<lambda>t. ?R t \<and> may_touch live name cid t) w" for w
        using Inl by (auto elim!: after_mono intro: pending_may_touch)
      then show ?thesis unfolding Inl sum.case
        by (intro valid_bind[OF valid_pre[OF stop_rolling]] valid_bind[OF remove_rolling] valid_pre[OF valid_fail])
           (auto dest: after_conjD intro: E)
    next
      case (Inr u)
      have j: "?H w \<Longrightarrow> after l0 (rolling name sb olds (List.map sm_id repl) (live @ [cid])) w" for w
        using Inr by (auto elim!: after_mono intro: rolling_join)
      show ?thesis
      proof (cases repl)
        case Nil
        then show ?thesis using Inr valid_pre[OF rest[of "[]" cid] j[unfolded Nil]] by simp
      next
        case (Cons o' r')
        then show ?thesis using valid_pre[OF valid_bind[OF old rest] j[unfolded Cons]] unfolding Inr sum.case Cons list.case
          by simp
      qed
    qed
  qed
  have c: "valid (after l0 ?R) (createAndStartContainer \<Omega> \<Pi> cname repoDir svc name (st_name st) i secrets)
      (outcome (\<lambda>_. ?E) (\<lambda>cid. after l0 (?P cid)))" for cname
    by (rule valid_post[OF create_start_rolling[OF ids]]) (auto simp: outcome_def split: sum.splits intro: E)
  show ?case unfolding roll_replicas.simps
    by (rule valid_bind_keeps[OF quiet_ops(4)[OF rolling_stable]], rule valid_try_outcome[OF c], rule made)
qed

section \<open>The whole deployment of a service\<close>

text \<open>Before the loop: nothing is touched, and what stays and what goes is known.\<close>

definition settled :: "string \<Rightarrow> log \<Rightarrow> bool" where
  "settled name t \<longleftrightarrow> own name t \<and> (\<forall>c. \<not> touched t c)"

definition sorted_out :: "string \<Rightarrow> container_summary list \<Rightarrow> log \<Rightarrow> bool" where
  "sorted_out name cs t \<longleftrightarrow> settled name t \<and> distinct (List.map sm_id cs)
     \<and> (\<forall>c \<in> set cs. listed name t (sm_id c) \<and> sm_id c \<in> known t)
     \<and> (\<exists>items. EList name (Inr items) \<in> set t \<and> cs = filter (of_service name) items)"

lemma settled_stable: "stable (settled name)"
  unfolding stable_def settled_def own_snoc log_snoc using quiet_touches by blast

lemma sorted_out_stable: "stable (sorted_out name cs)"
  using settled_stable[of name] unfolding stable_def sorted_out_def log_snoc known_snoc by auto

lemma get_containers_outcome:
  assumes "docker_ids \<Omega>"
  shows "valid (after l0 (settled name)) (getServiceContainers \<Omega> name)
     (outcome (\<lambda>_. after l0 (settled name)) (\<lambda>cs. after l0 (sorted_out name cs)))"
proof -
  have "valid (after l0 (settled name)) (ContainerList \<Omega> name)
     (\<lambda>r. after l0 (\<lambda>t. settled name t \<and> (\<forall>items. r = Inr items \<longrightarrow> sorted_out name (filter (of_service name) items) t)))"
    unfolding ContainerList_def
  proof (rule valid_emit_after, intro conjI allI impI)
    fix t a assume t: "settled name t" and a: "a = o_list \<Omega> (l0 @ t) name"
    show s: "settled name (t @ [EList name a])" using t settled_stable by (simp add: stable_def)
    fix items assume i: "a = Inr items"
    have "distinct (List.map sm_id items)" using assms a i by (metis docker_ids_def)
    then have "distinct (List.map sm_id (filter (of_service name) items))" by (simp add: distinct_map_filter)
    then show "sorted_out name (filter (of_service name) items) (t @ [EList name a])"
      using s i by (auto simp: sorted_out_def listed_def known_snoc)
  qed
  then have l: "valid (after l0 (settled name)) (ContainerList \<Omega> name)
     (outcome (\<lambda>_. after l0 (settled name)) (\<lambda>items. after l0 (sorted_out name (filter (of_service name) items))))"
    by (rule valid_post) (auto simp: outcome_def split: sum.split elim: after_mono)
  show ?thesis unfolding getServiceContainers_def by (rule valid_try_outcome[OF l], rule valid_ok)
qed

lemma rolling_start:
  assumes "sorted_out name cs t" "mset (kept @ repl) = mset cs" "\<forall>c \<in> set kept. may_stay svc b c t"
  shows "rolling name (svc, b) (List.map sm_id cs) (List.map sm_id repl) (List.map sm_id kept) t"
proof -
  have m: "set cs = set kept \<union> set repl" using mset_eq_setD[OF assms(2)] by simp
  have "mset (List.map sm_id (kept @ repl)) = mset (List.map sm_id cs)" using assms(2) by (metis mset_map)
  then have "distinct (List.map sm_id (kept @ repl))" using assms(1) mset_eq_imp_distinct_iff by (fastforce simp: sorted_out_def)
  then have d: "distinct (List.map sm_id repl @ List.map sm_id kept)" by auto
  have "serving t (sm_id c) \<and> fits name (svc, b) t (sm_id c)" if "c \<in> set kept" for c
  proof -
    obtain items where i: "EList name (Inr items) \<in> set t" "cs = filter (of_service name) items"
      using assms(1) by (auto simp: sorted_out_def)
    have k: "may_stay svc b c t" using assms(3) that by blast
    have "c \<in> set items" "of_service name c" using m that i(2) by auto
    then have "fits name (svc, b) t (sm_id c)" using i(1) k unfolding fits_def may_stay_def fst_conv snd_conv by blast
    then show ?thesis using k by (auto simp: serving_def may_stay_def)
  qed
  then show ?thesis using assms(1) m d by (auto simp: rolling_def sorted_out_def settled_def covered_def)
qed

lemma remove_all_rolling:
  assumes "live \<noteq> []"
  shows "valid (after l0 (rolling name sb olds (List.map sm_id cs) live)) (remove_all \<Omega> n cs) (\<lambda>_. after l0 (rolling name sb olds [] live))"
proof (induction cs)
  case (Cons c cs)
  have "valid (after l0 (rolling name sb olds (List.map sm_id (c # cs)) live)) (stopAndRemove \<Omega> (sm_id c) n)
      (\<lambda>_. after l0 (rolling name sb olds (List.map sm_id cs) live))"
  proof (rule valid_conseq[OF stopAndRemove_rolling])
    fix w assume "after l0 (rolling name sb olds (List.map sm_id (c # cs)) live) w"
    then show "after l0 (\<lambda>t. rolling name sb olds (List.map sm_id (c # cs)) live t \<and> may_touch live name (sm_id c) t) w"
      by (rule after_mono) (use assms in \<open>auto simp: rolling_def may_touch_def\<close>)
  qed (auto elim!: after_mono dest: rolling_drop)
  from valid_bind[OF this Cons] show ?case by simp
qed simp

text \<open>What holds of the new events of a deployment however it ends.\<close>

definition rollout_safe :: "string \<Rightarrow> log \<Rightarrow> bool" where
  "rollout_safe name t \<longleftrightarrow> own name t \<and> (\<exists>live. covered t live \<and> (\<forall>c \<in> live. \<not> touched t c))"

definition rollout_done :: "string \<Rightarrow> compose_service \<times> bool \<Rightarrow> nat \<Rightarrow> log \<Rightarrow> bool" where
  "rollout_done name sb replicas t \<longleftrightarrow> (\<exists>items live. EList name (Inr items) \<in> set t \<and> length live = replicas \<and> distinct live
     \<and> (\<forall>c \<in> set live. serving t c \<and> \<not> touched t c \<and> (fits name sb t c \<or> created t c))
     \<and> (\<forall>c \<in> set items. of_service name c \<longrightarrow> sm_id c \<in> set live \<or> dropped t (sm_id c)))"

lemma settled_safe: "settled name t \<Longrightarrow> rollout_safe name t"
  by (auto simp: settled_def rollout_safe_def covered_def)

lemma rolling_safe: "rolling name sb olds repl live t \<Longrightarrow> rollout_safe name t"
  unfolding rolling_def rollout_safe_def by blast

lemma rolling_done: "rolling name sb olds [] live t \<Longrightarrow> rollout_safe name t \<and> rollout_done name sb (length live) t"
proof (rule conjI[OF rolling_safe])
  assume r: "rolling name sb olds [] live t"
  then obtain items where i: "EList name (Inr items) \<in> set t" "olds = List.map sm_id (filter (of_service name) items)"
    unfolding rolling_def by blast
  have "sm_id c \<in> set live \<or> dropped t (sm_id c)" if "c \<in> set items" "of_service name c" for c
    using r that unfolding rolling_def i(2) by auto
  then show "rollout_done name sb (length live) t"
    using i(1) r unfolding rollout_done_def rolling_def by auto
qed

lemma rollout_outcome:
  assumes ids: "docker_ids \<Omega>" and m: "mset (kept0 @ repl0) = mset cs"
  shows "valid (after l0 (\<lambda>t. sorted_out name cs t \<and> (\<forall>c \<in> set kept0. may_stay svc b c t)))
     (rollout \<Omega> \<Pi> st name repoDir svc secrets kept0 repl0)
     (outcome (\<lambda>_. after l0 (rollout_safe name))
        (\<lambda>_. after l0 (\<lambda>t. rollout_safe name t \<and> rollout_done name (svc, b) (nat (DesiredReplicas svc)) t)))"
proof -
  define replicas where "replicas = nat (DesiredReplicas svc)"
  define repl where "repl = (if length kept0 > replicas then repl0 @ drop replicas kept0 else repl0)"
  define kept where "kept = (if length kept0 > replicas then take replicas kept0 else kept0)"
  have pos: "replicas > 0" using DesiredReplicas_pos[of svc] by (simp add: replicas_def)
  have mk: "mset (kept @ repl) = mset cs" 
  proof (cases "length kept0 > replicas")
    case True
    have "mset kept0 = mset (take replicas kept0) + mset (drop replicas kept0)" by (metis append_take_drop_id mset_append)
    then show ?thesis using m True by (simp add: kept_def repl_def add.assoc add.commute[of "mset repl0"])
  qed (use m in \<open>simp add: kept_def repl_def\<close>)
  have kk: "length kept \<le> replicas" "set kept \<subseteq> set kept0" by (auto simp: kept_def dest: in_set_takeD)
  let ?olds = "List.map sm_id cs"
  let ?S = "after l0 (rolling name (svc, b) ?olds (List.map sm_id repl) (List.map sm_id kept))"
  let ?Q = "outcome (\<lambda>_. after l0 (rollout_safe name)) (\<lambda>_. after l0 (\<lambda>t. rollout_safe name t \<and> rollout_done name (svc, b) replicas t))"
  have pre: "after l0 (\<lambda>t. sorted_out name cs t \<and> (\<forall>c \<in> set kept0. may_stay svc b c t)) w \<Longrightarrow> ?S w" for w
    by (erule after_mono) (use kk mk in \<open>auto intro!: rolling_start\<close>)
  have roll: "valid ?S (roll_replicas \<Omega> \<Pi> st name repoDir svc secrets n (replicas - length kept) (length kept) repl)
     (outcome (\<lambda>_. after l0 (rollout_safe name))
        (\<lambda>left. after l0 (\<lambda>t. \<exists>live. rolling name (svc, b) ?olds (List.map sm_id left) live t \<and> length live = replicas)))" for n
    by (rule valid_post[OF roll_replicas_rolling[OF ids]])
       (use kk in \<open>auto simp: outcome_def split: sum.splits elim!: after_mono intro: rolling_safe\<close>)
  have rest: "valid (after l0 (\<lambda>t. \<exists>live. rolling name (svc, b) ?olds (List.map sm_id left) live t \<and> length live = replicas))
     (do { _ \<leftarrow> remove_all \<Omega> n left; ok () }) ?Q" for left n
  proof (rule valid_bind)
    show "valid (after l0 (\<lambda>t. \<exists>live. rolling name (svc, b) ?olds (List.map sm_id left) live t \<and> length live = replicas)) (remove_all \<Omega> n left)
        (\<lambda>_. after l0 (\<lambda>t. \<exists>live. rolling name (svc, b) ?olds [] live t \<and> length live = replicas))"
    proof (rule validI)
      fix w a w' assume "after l0 (\<lambda>t. \<exists>live. rolling name (svc, b) ?olds (List.map sm_id left) live t \<and> length live = replicas) w"
        and r: "run_state (remove_all \<Omega> n left) w = (a, w')"
      then obtain live where "after l0 (rolling name (svc, b) ?olds (List.map sm_id left) live) w" and l: "length live = replicas"
        by (auto simp: after_def)
      moreover have "live \<noteq> []" using l pos by auto
      ultimately have "after l0 (rolling name (svc, b) ?olds [] live) w'" using validD[OF remove_all_rolling _ r] by blast
      then show "after l0 (\<lambda>t. \<exists>live. rolling name (svc, b) ?olds [] live t \<and> length live = replicas) w'"
        using l by (auto elim!: after_mono)
    qed
    show "valid (after l0 (\<lambda>t. \<exists>live. rolling name (svc, b) ?olds [] live t \<and> length live = replicas)) (ok ()) ?Q"
      by (rule valid_ok) (auto elim!: after_mono dest: rolling_done)
  qed
  have now: "?S w \<Longrightarrow> after l0 (\<lambda>t. rollout_safe name t \<and> rollout_done name (svc, b) replicas t) w"
    if "replicas - length kept = 0" "repl = []" for w
    using that kk rolling_done[of name "(svc, b)" ?olds "List.map sm_id kept"] by (auto elim!: after_mono)
  have "valid ?S (rollout \<Omega> \<Pi> st name repoDir svc secrets kept0 repl0) ?Q"
    unfolding rollout_def Let_def replicas_def[symmetric] repl_def[symmetric] kept_def[symmetric]
    using now valid_try_outcome[OF roll rest] by (auto intro!: valid_ok)
  then show ?thesis unfolding replicas_def using pre by (rule valid_pre)
qed

lemma deployService_outcome:
  assumes ids: "docker_ids \<Omega>"
  shows "valid (after l0 (settled name)) (deployService \<Omega> \<Pi> p st name repoDir svc secrets changed)
     (outcome (\<lambda>_. after l0 (rollout_safe name))
        (\<lambda>_. after l0 (\<lambda>t. rollout_safe name t \<and> rollout_done name (svc, changed) (nat (DesiredReplicas svc)) t)))"
  (is "valid ?S _ ?Q")
proof -
  have E: "?S w \<Longrightarrow> after l0 (rollout_safe name) w" for w by (erule after_mono) (rule settled_safe)
  have quiet: "valid ?S m (outcome (\<lambda>_. after l0 (rollout_safe name)) (\<lambda>_. ?S))" if "keeps ?S m" for m :: "unit res act"
    by (rule valid_post[OF valid_outcome_keeps[OF that]]) (auto simp: outcome_def E split: sum.splits)
  have get: "valid ?S (getServiceContainers \<Omega> name) (outcome (\<lambda>_. after l0 (rollout_safe name)) (\<lambda>cs. after l0 (sorted_out name cs)))"
    by (rule valid_post[OF get_containers_outcome[OF ids]]) (auto simp: outcome_def E split: sum.splits)
  have part: "valid (after l0 (sorted_out name cs)) (partition_existing \<Omega> svc changed cs [] [])
     (outcome (\<lambda>_. after l0 (rollout_safe name))
       (\<lambda>kr. after l0 (\<lambda>t. mset (fst kr @ snd kr) = mset cs \<and> sorted_out name cs t \<and> (\<forall>c \<in> set (fst kr). may_stay svc changed c t))))" for cs
  proof (rule valid_conseq[OF partition_well[OF sorted_out_stable[of name cs], of l0 "[]" svc changed \<Omega> cs "[]"]])
    show "outcome (\<lambda>_. after l0 (sorted_out name cs)) (\<lambda>(k, r). after l0 (\<lambda>t. sorted_out name cs t \<and> (\<forall>c \<in> set k. may_stay svc changed c t)
         \<and> mset (k @ r) = mset ([] @ [] @ cs))) a w \<Longrightarrow>
       outcome (\<lambda>_. after l0 (rollout_safe name))
         (\<lambda>kr. after l0 (\<lambda>t. mset (fst kr @ snd kr) = mset cs \<and> sorted_out name cs t \<and> (\<forall>c \<in> set (fst kr). may_stay svc changed c t))) a w" for a w
      by (auto simp: outcome_def sorted_out_def split: sum.splits prod.splits elim!: after_mono intro: settled_safe)
  qed simp
  have roll: "valid (after l0 (\<lambda>t. mset (fst kr @ snd kr) = mset cs \<and> sorted_out name cs t \<and> (\<forall>c \<in> set (fst kr). may_stay svc changed c t)))
     (case kr of (kept, repl) \<Rightarrow> rollout \<Omega> \<Pi> st name repoDir svc secrets kept repl) ?Q" for kr cs
  proof (cases "mset (fst kr @ snd kr) = mset cs")
    case True
    from rollout_outcome[OF ids this, where ?l0.0 = l0 and name = name and svc = svc and b = changed and \<Pi> = \<Pi> and st = st
        and repoDir = repoDir and secrets = secrets]
    show ?thesis by (simp add: case_prod_beta True del: mset_append)
  qed (simp add: valid_def after_def)
  have dep: "keeps ?S (waitForDependencyConditions \<Omega> name svc)"
    unfolding waitForDependencyConditions_def by (intro keep settled_stable)
  show ?thesis unfolding deployService_def
  proof (cases "DesiredReplicas svc > 1 \<and> HasStaticPublishedPort svc", goal_cases)
    case 1
    then show ?case by (simp add: valid_pre[OF valid_fail E])
  next
    case 2
    show ?case unfolding if_not_P[OF 2]
      by (rule valid_try_outcome[OF quiet[OF dep]], rule valid_try_outcome[OF quiet[OF resolveImage_quiet[OF settled_stable]]],
          rule valid_try_outcome[OF get], rule valid_try_outcome[OF part], rule roll)
  qed
qed

lemma deployService_run:
  assumes "docker_ids \<Omega>" "run_state (deployService \<Omega> \<Pi> p st name repoDir svc secrets changed) w = (r, w')"
  shows "\<exists>t. w_log w' = w_log w @ t \<and> rollout_safe name t \<and> (r = Inr () \<longrightarrow> rollout_done name (svc, changed) (nat (DesiredReplicas svc)) t)"
proof -
  have "after (w_log w) (settled name) w" by (rule afterI[of _ _ "[]"]) (auto simp: settled_def own_def touched_def)
  from validD[OF deployService_outcome[OF assms(1)] this assms(2)] show ?thesis
    by (cases r) (auto simp: after_def)
qed

text \<open>A run creates containers of the service's image only.\<close>

fun makes :: "string \<Rightarrow> event \<Rightarrow> bool" where
  "makes img (ECreate name cfg r) = (cc_image cfg = img)"
| "makes img _ = True"

lemma quiet_makes: "quiet e \<Longrightarrow> makes img e"
  by (cases e) simp_all

lemma makes_quiet: "tolerates (makes img) I \<Longrightarrow> tolerates quiet I"
  by (simp add: tolerates_def quiet_makes)

lemma emit_makes: "tolerates (makes img) I \<Longrightarrow> (\<And>a. makes img (ev a)) \<Longrightarrow> keeps I (emit ans ev)"
  by (rule keeps_emit) (auto simp: tolerates_def)

lemma calls_makes [keep]:
  assumes "tolerates (makes img) I"
  shows "keeps I (ContainerStop \<Omega> c n)" "keeps I (ContainerRemove \<Omega> c)" "keeps I (ContainerStart \<Omega> c)"
    "cc_image cfg = img \<Longrightarrow> keeps I (ContainerCreate \<Omega> nm cfg)"
  unfolding ContainerStop_def ContainerRemove_def ContainerStart_def ContainerCreate_def
  by (rule emit_makes[OF assms], simp)+

lemma config_image: "cc_image (container_config_of \<Pi> svc a b n env) = cs_image svc"
  by (simp add: container_config_of_def split_def Let_def)

lemma create_makes: "tolerates (makes (cs_image svc)) I \<Longrightarrow> keeps I (createAndStartContainer \<Omega> \<Pi> n r svc s k i secrets)"
  using makes_quiet[of "cs_image svc" I]
  by (simp add: createAndStartContainer_def Let_def keep config_image split: sum.split)

lemma roll_makes:
  "tolerates (makes (cs_image svc)) I \<Longrightarrow> keeps I (roll_replicas \<Omega> \<Pi> st name r svc secrets t n i repl)"
  using makes_quiet[of "cs_image svc" I]
  by (induction n arbitrary: i repl) (simp_all add: keep create_makes stopAndRemove_def split: sum.split list.split)

lemma remove_all_makes: "tolerates (makes img) I \<Longrightarrow> keeps I (remove_all \<Omega> n cs)"
  by (induction cs) (simp_all add: keep stopAndRemove_def)

lemma deployService_makes:
  "tolerates (makes (cs_image svc)) I \<Longrightarrow> keeps I (deployService \<Omega> \<Pi> p st name r svc secrets ch)"
  using makes_quiet[of "cs_image svc" I]
  by (simp add: deployService_def waitForDependencyConditions_def rollout_def Let_def keep roll_makes remove_all_makes
      split: prod.split)

definition created_from :: "string \<Rightarrow> log \<Rightarrow> string \<Rightarrow> bool" where
  "created_from img t cid \<longleftrightarrow> (\<exists>name cfg. ECreate name cfg (Inr cid) \<in> set t \<and> cc_image cfg = img)"

definition listed_with :: "string \<Rightarrow> string \<Rightarrow> log \<Rightarrow> string \<Rightarrow> bool" where
  "listed_with img name t cid \<longleftrightarrow> (\<exists>items c. EList name (Inr items) \<in> set t \<and> c \<in> set items \<and> of_service name c
     \<and> sm_id c = cid \<and> sm_image c = img)"

lemma deployService_made:
  assumes "run_state (deployService \<Omega> \<Pi> p st name r svc secrets ch) w = (a, w')" "w_log w' = w_log w @ t" "e \<in> set t"
  shows "makes (cs_image svc) e"
proof -
  let ?I = "after (w_log w) (\<lambda>t. \<forall>e \<in> set t. makes (cs_image svc) e)"
  have "tolerates (makes (cs_image svc)) ?I" unfolding tolerates_def after_def by fastforce
  have "?I w" by (simp add: after_def)
  from keepsD[OF deployService_makes[OF \<open>tolerates _ ?I\<close>] this] have "?I w'" by (metis assms(1) snd_conv)
  then show ?thesis using assms(2,3) by (auto simp: after_def)
qed

text \<open>C10. A deployment touches only its own containers: whatever Docker answers, and on every path through
  deployService, a container is stopped or removed only after this run has either listed it under the service's name or
  created it itself.\<close>

theorem rollout_touches_own:
  assumes "docker_ids \<Omega>" "run_state (deployService \<Omega> \<Pi> p st name repoDir svc secrets changed) w = (r, w')"
  shows "\<exists>t. w_log w' = w_log w @ t \<and>
    (\<forall>i < length t. \<forall>cid. touched [t ! i] cid \<longrightarrow> listed name (take i t) cid \<or> created (take i t) cid)"
  using deployService_run[OF assms] by (auto simp: rollout_safe_def own_def)

text \<open>C7. Zero downtime: however a deployment of a service ends, either it has asked Docker to stop or remove no
  container that was there before it, or there is one container that serves throughout: before the first such request
  this run has either found it running and not unhealthy, or created it itself, and has then heard that it is healthy or
  has no health check; and the rest of the run never asks Docker to stop or remove it. So a new image that never becomes
  healthy costs none of the running containers. It holds also when no old container can be kept, where the comment of
  the source speaks of a brief gap: the code starts the first new replica before it removes anything. A new replica
  without a health check counts as well as soon as it has been started, as in the code, which does not ask whether it
  still runs.\<close>

theorem rollout_zero_downtime:
  assumes "docker_ids \<Omega>" "run_state (deployService \<Omega> \<Pi> p st name repoDir svc secrets changed) w = (r, w')"
  shows "\<exists>t. w_log w' = w_log w @ t \<and>
    ((\<forall>c. touched t c \<longrightarrow> created t c) \<or>
     (\<exists>pre post c0. t = pre @ post \<and> (\<forall>c. touched pre c \<longrightarrow> created pre c)
        \<and> seen_well pre c0 \<and> (seen_running pre c0 \<or> created pre c0) \<and> \<not> touched t c0))"
proof -
  obtain t live where t: "w_log w' = w_log w @ t" "covered t live" "\<forall>c \<in> live. \<not> touched t c"
    using deployService_run[OF assms] by (auto simp: rollout_safe_def)
  then show ?thesis unfolding covered_def serving_def by blast
qed

text \<open>C8. A deployment that succeeds has the declared number of replicas that it leaves alone: that many different
  containers it has not asked Docker to stop or remove. Each was reported well during the run, and each either was
  created by the run from the service's image, or was listed under the service's name with that image, found running and
  not unhealthy, while no secret of the stack had changed. For every other container listed under the service's name
  the run has asked Docker for the removal (what Docker answers to that the code only logs).\<close>

theorem rollout_success:
  assumes "docker_ids \<Omega>" "run_state (deployService \<Omega> \<Pi> p st name repoDir svc secrets changed) w = (Inr (), w')"
  shows "\<exists>t items live. w_log w' = w_log w @ t \<and> EList name (Inr items) \<in> set t
    \<and> int (length live) = DesiredReplicas svc \<and> distinct live
    \<and> (\<forall>c \<in> set live. seen_well t c \<and> \<not> touched t c
         \<and> (created_from (cs_image svc) t c
            \<or> \<not> changed \<and> listed_with (cs_image svc) name t c \<and> seen_running t c))
    \<and> (\<forall>c \<in> set items. of_service name c \<longrightarrow> sm_id c \<in> set live \<or> (\<exists>a. ERemove (sm_id c) a \<in> set t))"
proof -
  obtain t items live where d: "w_log w' = w_log w @ t" "EList name (Inr items) \<in> set t"
    "length live = nat (DesiredReplicas svc)" "distinct live"
    "\<forall>c \<in> set live. serving t c \<and> \<not> touched t c \<and> (fits name (svc, changed) t c \<or> created t c)"
    "\<forall>c \<in> set items. of_service name c \<longrightarrow> sm_id c \<in> set live \<or> dropped t (sm_id c)"
    using deployService_run[OF assms] unfolding rollout_done_def by blast
  have n: "int (length live) = DesiredReplicas svc" using d(3) DesiredReplicas_pos[of svc] by simp
  have c: "created t x \<Longrightarrow> created_from (cs_image svc) t x" for x
    unfolding created_def created_from_def using deployService_made[OF assms(2) d(1)] by (metis makes.simps(1))
  have "created_from (cs_image svc) t x \<or> \<not> changed \<and> listed_with (cs_image svc) name t x \<and> seen_running t x"
    if "x \<in> set live" for x
    using d(5) that c[of x] by (auto simp: serving_def fits_def listed_with_def)
  then have "\<forall>c \<in> set live. seen_well t c \<and> \<not> touched t c
      \<and> (created_from (cs_image svc) t c \<or> \<not> changed \<and> listed_with (cs_image svc) name t c \<and> seen_running t c)"
    using d(5) unfolding serving_def by blast
  with d(1,2,4) n d(6)[unfolded dropped_def] show ?thesis by blast
qed

section \<open>Frames\<close>

text \<open>What holds of the database alone is kept by a rollout, a capture and a rollback: they only read it.\<close>

lemma roll_replicas_frame [keep]:
  "tolerates (\<lambda>_. True) I \<Longrightarrow> keeps I (roll_replicas \<Omega> \<Pi> st name r svc secrets t n i repl)"
  by (induction n arbitrary: i repl) (simp_all add: keep tolerates_all tolerates_emit ContainerStop_def ContainerRemove_def)

lemma remove_all_frame [keep]: "tolerates (\<lambda>_. True) I \<Longrightarrow> keeps I (remove_all \<Omega> n cs)"
  by (induction cs) (simp_all add: keep)

lemma rollout_frame [keep]: "tolerates (\<lambda>_. True) I \<Longrightarrow> keeps I (rollout \<Omega> \<Pi> st name r svc secrets k repl)"
  by (simp add: rollout_def Let_def keep)

lemma deployService_frame [keep]:
  "tolerates (\<lambda>_. True) I \<Longrightarrow> keeps I (deployService \<Omega> \<Pi> p st name r svc secrets ch)"
  by (simp add: deployService_def waitForDependencyConditions_def keep tolerates_all split: prod.split)

lemma capture_loop_frame [keep]: "tolerates quiet I \<Longrightarrow> keeps I (capture_loop \<Omega> cs states img)"
  by (induction cs arbitrary: states img) (simp_all add: keep)

lemma captureServiceState_frame [keep]: "tolerates quiet I \<Longrightarrow> keeps I (captureServiceState \<Omega> name)"
  by (simp add: captureServiceState_def keep split: prod.split)

lemma rollback_remove_frame [keep]: "tolerates (\<lambda>_. True) I \<Longrightarrow> keeps I (rollback_remove \<Omega> cs)"
  by (induction cs) (simp_all add: keep tolerates_emit ContainerStop_def ContainerRemove_def)

lemma reconnect_frame [keep]: "tolerates quiet I \<Longrightarrow> keeps I (reconnect \<Omega> c nets)"
  by (induction nets) (simp_all add: keep)

lemma rollback_create_frame [keep]: "tolerates (\<lambda>_. True) I \<Longrightarrow> keeps I (rollback_create \<Omega> name i cs)"
  by (induction cs arbitrary: i)
     (simp_all add: keep tolerates_all tolerates_emit ContainerCreate_def ContainerStart_def)

lemma rollbackServices_frame [keep]: "tolerates (\<lambda>_. True) I \<Longrightarrow> keeps I (rollbackServices \<Omega> names states)"
proof -
  assume I: "tolerates (\<lambda>_. True) I"
  have "keeps I (rollback_services_loop \<Omega> states ns)" for ns
    by (induction ns) (simp_all add: rollbackService_def keep tolerates_all I split: option.split)
  then show ?thesis by (simp add: rollbackServices_def)
qed

section \<open>A concrete daemon\<close>

text \<open>A daemon with one old container, on which everything works; new ids are longer than all before.\<close>

fun id_list :: "event \<Rightarrow> string list" where
  "id_list (EList _ (Inr items)) = List.map sm_id items"
| "id_list (EListStack _ (Inr items)) = List.map sm_id items"
| "id_list (EInspect c _) = [c]"
| "id_list (ECreate _ _ (Inr c)) = [c]"
| "id_list (EStart c _) = [c]"
| "id_list (EStop c _ _) = [c]"
| "id_list (ERemove c _) = [c]"
| "id_list (ENetConnect _ c _) = [c]"
| "id_list _ = []"

definition fresh_id :: "log \<Rightarrow> string" where
  "fresh_id l = CHR ''c'' # concat (concat (List.map id_list l))"

lemma id_list_set: "set (id_list e) = ids_of e"
  by (cases e rule: ids_of.cases) auto

lemma in_concat_length: "x \<in> set xs \<Longrightarrow> length x \<le> length (concat xs)"
  by (induction xs) auto

lemma fresh_id_new: "fresh_id l \<notin> known l"
proof
  assume "fresh_id l \<in> known l"
  then have "fresh_id l \<in> set (concat (List.map id_list l))" by (auto simp: known_def id_list_set)
  from in_concat_length[OF this] show False by (simp add: fresh_id_def)
qed

definition demo_config :: container_config where
  "demo_config = container_config_of \<lparr>p_duration = (\<lambda>_. None), p_ram = (\<lambda>_. None), p_nano_cpus = (\<lambda>_. None),
     p_port = (\<lambda>_. None), p_addr = (\<lambda>_. None), p_any_addr = []\<rparr> empty_service [] [] 0 []"

definition demo_parsers :: parsers where
  "demo_parsers = \<lparr>p_duration = (\<lambda>_. None), p_ram = (\<lambda>_. None), p_nano_cpus = (\<lambda>_. None),
     p_port = (\<lambda>_. None), p_addr = (\<lambda>_. None), p_any_addr = []\<rparr>"

definition demo_docker :: outside where
  "demo_docker = \<lparr>o_list = (\<lambda>l n. Inr [\<lparr>sm_id = ''0ld'', sm_names = [''/web_0_1''], sm_image = ''app:1'', sm_state = ''running'',
       sm_labels = []\<rparr>]),
     o_inspect = (\<lambda>l c. Inr \<lparr>ci_state = Some \<lparr>Running = True, Health = None, ExitCode = 0\<rparr>, ci_config = demo_config, ci_networks = []\<rparr>),
     o_create = (\<lambda>l n cfg. Inr (fresh_id l)), o_start = (\<lambda>l c. Inr ()), o_stop = (\<lambda>l c. Inr ()), o_remove = (\<lambda>l c. Inr ()),
     o_image_inspect = (\<lambda>l r. Inr ()), o_pull = (\<lambda>l r a. Inr ()), o_drain = (\<lambda>l. Inr ()), o_net_connect = (\<lambda>l n c. Inr ()),
     o_net_list = (\<lambda>l. Inr []), o_net_create = (\<lambda>l n d os ls. Inr ()), o_vol_inspect = (\<lambda>l v. Inr ()),
     o_vol_create = (\<lambda>l v d os ls. Inr ()), o_vol_list = (\<lambda>l. Inr []), o_list_stack = (\<lambda>l n. Inr []),
     o_clone = (\<lambda>l d. Inr ()), o_head = (\<lambda>l. Inr ''abc''), o_read = (\<lambda>l f. Inr []), o_timeout = (\<lambda>l. False),
     o_ctx_err = (\<lambda>l. None), o_sleep = (\<lambda>l d. False), o_random = (\<lambda>l n. 0), o_now = (\<lambda>l. int (length l)),
     o_new_id = (\<lambda>l. Inr ''d1''), o_nonce = (\<lambda>l. Some ''ab''),
     o_mkdir = (\<lambda>l d. Inr ()), o_remove_all = (\<lambda>l d. Inr ()), o_fault = (\<lambda>l op. None)\<rparr>"

lemma demo_docker_ids: "docker_ids demo_docker"
  by (auto simp: docker_ids_def demo_docker_def fresh_id_new)

definition demo_web :: compose_service where
  "demo_web = empty_service\<lparr>cs_image := ''app:2''\<rparr>"

definition demo_world :: world where
  "demo_world = \<lparr>w_log = [], w_db = (empty_db None)\<lparr>t_stacks := [demo_stack]\<rparr>\<rparr>"

definition demo_run :: "unit res \<times> world" where
  "demo_run = run_state (deployService demo_docker demo_parsers \<lparr>MaxAttempts = 1, BaseDelay = 0, MaxDelay = 0\<rparr> demo_stack ''web''
     ''/repo'' demo_web [] False) demo_world"

text \<open>A new replica without a health check counts as well although it has exited: the deployment succeeds, and the old
  container is stopped and removed for it.\<close>

definition exited_docker :: outside where
  "exited_docker = demo_docker\<lparr>o_inspect := (\<lambda>l c. Inr \<lparr>ci_state = Some \<lparr>Running = False, Health = None, ExitCode = 1\<rparr>,
     ci_config = demo_config, ci_networks = []\<rparr>)\<rparr>"

lemma exited_replica_accepted:
  "case run_state (deployService exited_docker demo_parsers \<lparr>MaxAttempts = 1, BaseDelay = 0, MaxDelay = 0\<rparr> demo_stack ''web''
     ''/repo'' demo_web [] False) demo_world of
     (r, w) \<Rightarrow> r = Inr () \<and> list_ex (\<lambda>e. case e of ERemove c a \<Rightarrow> c = ''0ld'' | _ \<Rightarrow> False) (w_log w)"
  by code_simp

lemma demo_run_ok: "fst demo_run = Inr ()"
  by code_simp

text \<open>In the demo run the ninth event stops the old container, which the run did not create.\<close>

lemma demo_run_stops: "case w_log (snd demo_run) ! 8 of EStop c n r \<Rightarrow> c = ''0ld'' | _ \<Rightarrow> False" "length (w_log (snd demo_run)) = 10"
  by code_simp+

lemma demo_run_creates: "list_all (\<lambda>e. case e of ECreate n cfg (Inr c) \<Rightarrow> c \<noteq> ''0ld'' | _ \<Rightarrow> True) (w_log (snd demo_run))"
  by code_simp

lemma demo_run_touched: "touched [w_log (snd demo_run) ! 8] ''0ld''" "touched (w_log (snd demo_run)) ''0ld''"
proof -
  obtain n r where e: "w_log (snd demo_run) ! 8 = EStop ''0ld'' n r" using demo_run_stops(1) by (auto split: event.splits)
  moreover have "EStop ''0ld'' n r \<in> set (w_log (snd demo_run))"
    using nth_mem[of 8 "w_log (snd demo_run)"] demo_run_stops(2) e by simp
  ultimately show "touched [w_log (snd demo_run) ! 8] ''0ld''" "touched (w_log (snd demo_run)) ''0ld''"
    by (auto simp: touched_def)
qed

lemma demo_run_kept: "\<not> created (w_log (snd demo_run)) ''0ld''"
  using demo_run_creates by (force simp: created_def list_all_iff)

lemma demo_run_result:
  "run_state (deployService demo_docker demo_parsers \<lparr>MaxAttempts = 1, BaseDelay = 0, MaxDelay = 0\<rparr> demo_stack ''web''
     ''/repo'' demo_web [] False) demo_world = (Inr (), snd demo_run)"
  using demo_run_ok prod.collapse[of demo_run] unfolding demo_run_def by metis

theorem rollout_touches_own_witness:
  "docker_ids demo_docker \<and> (listed ''web'' (take 8 (w_log (snd demo_run))) ''0ld'' \<or> created (take 8 (w_log (snd demo_run))) ''0ld'')"
  using rollout_touches_own[OF demo_docker_ids demo_run_result] demo_docker_ids demo_run_touched(1) demo_run_stops(2)
  by (auto simp: demo_world_def)

theorem rollout_zero_downtime_witness:
  "\<exists>pre post c0. w_log (snd demo_run) = pre @ post \<and> seen_well pre c0 \<and> \<not> touched (w_log (snd demo_run)) c0"
  using rollout_zero_downtime[OF demo_docker_ids demo_run_result] demo_run_touched(2) demo_run_kept
  by (auto simp: demo_world_def)

theorem rollout_success_witness:
  "\<exists>items live. EList ''web'' (Inr items) \<in> set (w_log (snd demo_run)) \<and> length live = 1 \<and> distinct (live :: string list)"
  using rollout_success[OF demo_docker_ids demo_run_result]
  by (fastforce simp: demo_world_def demo_web_def DesiredReplicas_def empty_service_def)

end
