(* ===== verification/Waits.thy ===== *)
theory Waits
  imports Rollout
begin

text \<open>
  How long a rollout can take: the polling loops of internal/stack/deployer.go wait for at most their number of ticks,
  the retries of a pull sleep at most once per attempt, and a rollout waits for each container once. The measure counts
  the waits in the log, and pays for the containers it finds with what the listing of the service answered.
\<close>

section \<open>The measure\<close>

fun wait_cost :: "string \<Rightarrow> event \<Rightarrow> int" where
  "wait_cost s (ETick t) = 1"
| "wait_cost s (ESleep d c) = 1"
| "wait_cost s (EList n r) = (if n = s then case r of Inr cs \<Rightarrow> - 46 * int (length cs) | Inl _ \<Rightarrow> 0 else 0)"
| "wait_cost s e = 0"

definition debt :: "string \<Rightarrow> log \<Rightarrow> int" where
  "debt s l = sum_list (List.map (wait_cost s) l)"

lemma debt_append [simp]: "debt s (l @ m) = debt s l + debt s m"
  by (simp add: debt_def)

lemma debt_single [simp]: "debt s [e] = wait_cost s e" "debt s [] = 0"
  by (simp_all add: debt_def)

text \<open>A step that adds at most so many waits to those already paid for.\<close>

definition spends :: "string \<Rightarrow> nat \<Rightarrow> 'a act \<Rightarrow> bool" where
  "spends s n m \<longleftrightarrow> (\<forall>c. valid (\<lambda>w. debt s (w_log w) \<le> c) m (\<lambda>_ w. debt s (w_log w) \<le> c + int n))"

named_theorems spend \<open>rules for spends\<close>

lemma spendsD: "spends s n m \<Longrightarrow> debt s (w_log (snd (run_state m w))) \<le> debt s (w_log w) + int n"
  unfolding spends_def valid_def by blast

lemma spendsI: "(\<And>w. debt s (w_log (snd (run_state m w))) \<le> debt s (w_log w) + int n) \<Longrightarrow> spends s n m"
  unfolding spends_def valid_def by (meson add_right_mono order_trans)

lemma spends_mono: "spends s n m \<Longrightarrow> n \<le> k \<Longrightarrow> spends s k m"
  by (rule spendsI, rule order_trans[OF spendsD]) auto

lemma spends_bind:
  assumes "spends s n m" "\<And>a. spends s k (f a)"
  shows "spends s (n + k) (State_Monad.bind m f)"
proof (rule spendsI)
  fix w show "debt s (w_log (snd (run_state (State_Monad.bind m f) w))) \<le> debt s (w_log w) + int (n + k)"
    using spendsD[OF assms(1), of w] spendsD[OF assms(2), of "fst (run_state m w)" "snd (run_state m w)"]
    by (simp add: run_state_bind case_prod_beta)
qed

lemma spends_return [spend]: "spends s n (State_Monad.return a)"
  by (rule spendsI) simp

lemma spends_try:
  assumes "spends s n m" "\<And>x. spends s k (f x)"
  shows "spends s (n + k) (try_with wrap m f)"
  unfolding try_with_def using assms by (intro spends_bind) (auto simp: spend split: sum.split)

lemma spends_emit: "(\<And>a. wait_cost s (ev a) \<le> int n) \<Longrightarrow> spends s n (emit ans ev)"
  by (rule spendsI) (simp add: emit_def Let_def)

lemma spends_fail [spend]: "spends s n (fail e)" and spends_ok [spend]: "spends s n (ok x)"
  by (simp_all add: fail_def ok_def spend)

text \<open>What makes no waits and lists nothing spends nothing: the rules for keeping carry over.\<close>

definition calm :: "event \<Rightarrow> bool" where
  "calm e \<longleftrightarrow> (\<forall>s. wait_cost s e \<le> 0)"

lemma calm_spends:
  fixes m :: "'a act"
  assumes "\<And>I. tolerates calm I \<Longrightarrow> keeps I m"
  shows "spends s n m"
proof (rule spendsI)
  fix w :: world
  have "tolerates calm (\<lambda>w'. debt s (w_log w') \<le> debt s (w_log w))"
    by (auto simp: tolerates_def calm_def intro: add_mono[of _ _ _ "0::int", simplified])
  from keepsD[OF assms[OF this]]
  show "debt s (w_log (snd (run_state m w))) \<le> debt s (w_log w) + int n"
    by (smt (verit) of_nat_0_le_iff)
qed

section \<open>Steps without a wait\<close>

named_theorems calm_rule \<open>keeping rules for steps without a wait\<close>

lemma calm_events [simp]:
  "calm (EList n r)" "calm (EInspect c i)" "calm (EImageInspect f u)" "calm (ENow t)" "calm (ECreate n cfg x)"
  "calm (EStart c u)" "calm (EStop c k u)" "calm (ERemove c u)" "calm (EStore op e)" "calm (EPull f a u)" "calm (EDrain u)"
  "calm (EReadEnv f x)" "calm (ERandom k l)"
  by (auto simp: calm_def split: sum.split)

lemma calm_ops [calm_rule]:
  assumes "tolerates calm I"
  shows "keeps I (ContainerList \<Omega> n)" "keeps I (ContainerInspect \<Omega> c)" "keeps I (ImageInspect \<Omega> r)" "keeps I (now \<Omega>)"
    "keeps I (ContainerCreate \<Omega> n cfg)" "keeps I (ContainerStart \<Omega> c)" "keeps I (ContainerStop \<Omega> c t)" "keeps I (ContainerRemove \<Omega> c)"
  by (simp_all add: quiet_defs ContainerCreate_def ContainerStart_def ContainerStop_def ContainerRemove_def tolerates_emit[OF assms])

lemma calm_reading [calm_rule]: "tolerates calm I \<Longrightarrow> keeps I (store_call \<Omega> op (reading f))"
  by (rule keeps_store_call) (auto simp: tolerates_def reading_def)

lemma calm_service_containers [calm_rule]: "tolerates calm I \<Longrightarrow> keeps I (getServiceContainers \<Omega> n)"
  by (simp add: getServiceContainers_def keep calm_rule)

lemma calm_scan_healthy [calm_rule]: "tolerates calm I \<Longrightarrow> keeps I (scan_healthy \<Omega> d u cs)"
  by (induction cs arbitrary: u) (simp_all add: keep calm_rule)

lemma calm_scan_exited [calm_rule]: "tolerates calm I \<Longrightarrow> keeps I (scan_exited \<Omega> d cs)"
  by (induction cs) (simp_all add: keep calm_rule)

lemma calm_pull_once [calm_rule]: "tolerates calm I \<Longrightarrow> keeps I (pull_once \<Omega> i a)"
  by (simp add: pull_once_def keep tolerates_emit Let_def)

lemma calm_env_files [calm_rule]: "tolerates calm I \<Longrightarrow> keeps I (LoadEnvFiles \<Omega> r fs vs)"
  by (induction fs arbitrary: vs) (simp_all add: keep tolerates_emit Let_def)

lemma calm_create_start [calm_rule]: "tolerates calm I \<Longrightarrow> keeps I (createAndStartContainer \<Omega> \<Pi> n r svc s st i secrets)"
  by (simp add: createAndStartContainer_def Let_def keep calm_rule)

lemma calm_stop_remove [calm_rule]: "tolerates calm I \<Longrightarrow> keeps I (stopAndRemove \<Omega> c n)"
  by (simp add: stopAndRemove_def keep calm_rule)

lemma calm_remove_all [calm_rule]: "tolerates calm I \<Longrightarrow> keeps I (remove_all \<Omega> t cs)"
  by (induction cs) (simp_all add: keep calm_rule)

lemma calm_auth [calm_rule]: "tolerates calm I \<Longrightarrow> keeps I (pickAuthForImage \<Omega> st i)" "tolerates calm I \<Longrightarrow> keeps I (imageIsLocal \<Omega> i)"
  by (simp_all add: pickAuthForImage_def imageIsLocal_def keep calm_rule Let_def)

section \<open>The waits\<close>

lemma spends_tick: "spends s 1 (emit f ETick)"
  by (rule spends_emit) simp

lemma spends_health_loop: "spends s (Suc n) (wait_healthy_loop \<Omega> n cid)"
proof (induction n)
  case 0
  have "spends s (0 + 1) (wait_healthy_loop \<Omega> 0 cid)"
    unfolding wait_healthy_loop.simps[of \<Omega> 0]
    by (intro spends_try calm_spends[OF calm_ops(2)])
       (auto split: option.split intro!: spend spends_bind[OF spends_tick, of s 0, simplified])
  then show ?case by simp
next
  case (Suc n)
  have step: "spends s (1 + Suc n) (do { t \<leftarrow> tick \<Omega>; if t then fail (timed_out cid) else wait_healthy_loop \<Omega> n cid })"
    using Suc by (intro spends_bind) (auto simp: tick_def spends_tick[simplified] spend)
  have "spends s (0 + Suc (Suc n)) (wait_healthy_loop \<Omega> (Suc n) cid)"
    unfolding wait_healthy_loop.simps[of \<Omega> "Suc n"]
    by (intro spends_try calm_spends[OF calm_ops(2)]) (use step in \<open>auto split: option.split intro: spend\<close>)
  then show ?case by simp
qed

text \<open>The end of one turn of a polling loop: the wait, and either the timeout or the next turn.\<close>

lemma spends_turn:
  assumes "spends s n next_turn"
  shows "spends s (Suc n) (do { t \<leftarrow> tick \<Omega>; if t then fail e else next_turn })"
proof -
  have "spends s (1 + n) (do { t \<leftarrow> tick \<Omega>; if t then fail e else next_turn })"
    using assms by (intro spends_bind) (auto simp: tick_def spends_tick[simplified] spend)
  then show ?thesis by simp
qed

lemma spends_last: "spends s (Suc n) (do { _ \<leftarrow> emit f ETick; fail e })"
  using spends_bind[OF spends_tick spends_fail] by fastforce

lemma spends_calm_try:
  fixes m :: "'a res act"
  assumes "\<And>I. tolerates calm I \<Longrightarrow> keeps I m" "\<And>x. spends s n (f x)"
  shows "spends s n (try_with wrap m f)"
  using spends_try[OF calm_spends[where s = s and n = 0, OF assms(1)] assms(2)] by simp

lemma spends_calm_bind:
  fixes m :: "'a act"
  assumes "\<And>I. tolerates calm I \<Longrightarrow> keeps I m" "\<And>x. spends s n (f x)"
  shows "spends s n (State_Monad.bind m f)"
  using spends_bind[OF calm_spends[where s = s and n = 0, OF assms(1)] assms(2)] by simp

lemma spends_health: "spends s 46 (waitForHealthy \<Omega> cid)"
  using spends_health_loop[of s 45] by (simp add: waitForHealthy_def health_ticks_def)

lemma spends_dep_healthy: "spends s (Suc n) (dep_healthy_loop \<Omega> n d)"
proof (induction n)
  case 0
  show ?case
    unfolding dep_healthy_loop.simps[of \<Omega> 0]
    by (intro spends_calm_try spends_calm_bind calm_rule)
       (auto split: dep_scan.split intro!: spend spends_calm_bind spends_last calm_rule)
next
  case (Suc n)
  show ?case
    unfolding dep_healthy_loop.simps[of \<Omega> "Suc n"]
    by (intro spends_calm_try calm_rule)
       (auto split: dep_scan.split intro!: spend spends_calm_bind spends_turn Suc calm_rule)
qed

lemma spends_dep_exit: "spends s (Suc n) (dep_exit_loop \<Omega> n d)"
proof (induction n)
  case 0
  show ?case
    unfolding dep_exit_loop.simps[of \<Omega> 0]
    by (intro spends_calm_try calm_rule)
       (auto split: option.split intro!: spend spends_calm_bind spends_last calm_rule)
next
  case (Suc n)
  show ?case
    unfolding dep_exit_loop.simps[of \<Omega> "Suc n"]
    by (intro spends_calm_try calm_rule)
       (auto split: option.split intro!: spend spends_calm_bind spends_turn Suc calm_rule)
qed

lemma spends_dependencies: "spends s (61 * length names) (wait_dependencies \<Omega> name deps names)"
proof (induction names)
  case (Cons d ds)
  have "spends s (61 + 61 * length ds) (try_with wrap (waitForDependencyHealthy \<Omega> d) (\<lambda>_. wait_dependencies \<Omega> name deps ds))"
       "spends s (61 + 61 * length ds) (try_with wrap (waitForDependencyExit \<Omega> d) (\<lambda>_. wait_dependencies \<Omega> name deps ds))" for wrap
    using spends_dep_healthy[of s 60 \<Omega> d] spends_dep_exit[of s 60 \<Omega> d] Cons
    by (auto simp: waitForDependencyHealthy_def waitForDependencyExit_def dependency_ticks_def intro!: spends_try)
  moreover have "spends s (61 + 61 * length ds) (wait_dependencies \<Omega> name deps ds)"
    by (rule spends_mono[OF Cons]) simp
  ultimately show ?case by (simp add: Let_def spend)
qed (simp add: spend)

section \<open>Retries\<close>

lemma retry_loop_spends:
  assumes fn: "\<And>w. debt s (w_log (snd (fn w))) \<le> debt s (w_log w)"
  shows "debt s (w_log (snd (retry_loop (world_retry_env \<Omega>) p fn n a le w))) \<le> debt s (w_log w) + int n"
proof (induction n arbitrary: a le w)
  case (Suc n)
  let ?env = "world_retry_env \<Omega>"
  obtain r1 w1 where f: "fn w = (r1, w1)" by fastforce
  have w1: "debt s (w_log w1) \<le> debt s (w_log w)" using fn[of w] f by simp
  obtain d w2 where b: "backoffDuration ?env p a w1 = (d, w2)" by fastforce
  have w2: "debt s (w_log w2) \<le> debt s (w_log w1)"
    using b by (auto simp: backoffDuration_def Let_def world_retry_env_def emit_def split: if_splits)
  obtain c w3 where sl: "sleep_done ?env d w2 = (c, w3)" by fastforce
  have w3: "debt s (w_log w3) = debt s (w_log w2) + 1"
    using sl by (auto simp: world_retry_env_def emit_def Let_def)
  show ?case
    using Suc[of "a + 1" r1 w3] w1 w2 w3 by (auto simp: f b sl split: option.split)
qed simp

lemma spends_retry:
  assumes "\<And>I. tolerates calm I \<Longrightarrow> keeps I m"
  shows "spends s (retry_attempts p) (retry_step \<Omega> p m)"
proof (rule spendsI)
  fix w
  let ?fn = "\<lambda>w. case run_state m w of (r, w') \<Rightarrow> (res_err r, w')"
  have "debt s (w_log (snd (?fn w))) \<le> debt s (w_log w)" for w
    using spendsD[OF calm_spends[where s = s and n = 0, OF assms], of w] by (simp add: case_prod_beta)
  then have "debt s (w_log (snd (retry_do (world_retry_env \<Omega>) p ?fn w))) \<le> debt s (w_log w) + int (retry_attempts p)"
    unfolding retry_do_def by (rule retry_loop_spends)
  then show "debt s (w_log (snd (run_state (retry_step \<Omega> p m) w))) \<le> debt s (w_log w) + int (retry_attempts p)"
    by (cases "retry_do (world_retry_env \<Omega>) p ?fn w"; cases "fst (retry_do (world_retry_env \<Omega>) p ?fn w)")
       (simp_all add: retry_step_def)
qed

lemma spends_image: "spends s (retry_attempts p) (resolveImage \<Omega> p svc st)"
proof -
  have pull: "spends s (retry_attempts p) (pullImage \<Omega> p i auth)" for i auth
    unfolding pullImage_def by (cases auth) (simp add: spends_retry calm_rule)
  have "spends s (retry_attempts p) (try_with wrap (pullImage \<Omega> p i auth) ok)" for wrap i auth
    using spends_try[where k = 0 and f = ok, OF pull spends_ok] by simp
  then show ?thesis
    unfolding resolveImage_def Let_def by (intro spends_calm_bind calm_rule) (auto intro!: spend spends_calm_try calm_rule)
qed

section \<open>A rollout\<close>

lemma spends_keep: "spends s 46 (keepContainer \<Omega> svc ch c)"
proof -
  have "spends s (46 + 0) (do { r \<leftarrow> waitForHealthy \<Omega> (sm_id c); case r of Inl _ \<Rightarrow> ok False | Inr _ \<Rightarrow> ok True })"
    by (intro spends_bind spends_health) (auto intro: spend split: sum.split)
  then show ?thesis
    unfolding keepContainer_def by (auto intro!: spend spends_calm_try calm_rule split: option.split)
qed

lemma spends_partition: "spends s (46 * length cs) (partition_existing \<Omega> svc ch cs kept repl)"
proof (induction cs arbitrary: kept repl)
  case (Cons c cs)
  have "spends s (46 + 46 * length cs) (partition_existing \<Omega> svc ch (c # cs) kept repl)"
    unfolding partition_existing.simps by (intro spends_try spends_keep) (simp add: Cons)
  then show ?case by simp
qed (simp add: spend)

lemma spends_roll: "spends s (46 * n) (roll_replicas \<Omega> \<Pi> st name dir svc secrets t n i repl)"
proof (induction n arbitrary: i repl)
  case (Suc n)
  have rest: "spends s (46 * n) (case repl of
          [] \<Rightarrow> roll_replicas \<Omega> \<Pi> st name dir svc secrets t n (Suc i) []
        | old # rest \<Rightarrow> do {
            _ \<leftarrow> stopAndRemove \<Omega> (sm_id old) t;
            roll_replicas \<Omega> \<Pi> st name dir svc secrets t n (Suc i) rest })"
    by (cases repl) (auto intro!: Suc spends_calm_bind calm_rule)
  have failed: "spends s k (do { _ \<leftarrow> ContainerStop \<Omega> c t; _ \<leftarrow> ContainerRemove \<Omega> c; fail e })" for c k e
    by (intro spends_calm_bind calm_rule spend)
  have "spends s (46 + 46 * n) (do {
       h \<leftarrow> waitForHealthy \<Omega> cid;
       case h of
         Inl e \<Rightarrow> do { _ \<leftarrow> ContainerStop \<Omega> cid t; _ \<leftarrow> ContainerRemove \<Omega> cid; fail (g e) }
       | Inr _ \<Rightarrow> (case repl of
          [] \<Rightarrow> roll_replicas \<Omega> \<Pi> st name dir svc secrets t n (Suc i) []
        | old # rest \<Rightarrow> do {
            _ \<leftarrow> stopAndRemove \<Omega> (sm_id old) t;
            roll_replicas \<Omega> \<Pi> st name dir svc secrets t n (Suc i) rest }) })" for cid g
  proof (intro spends_bind spends_health)
    fix h :: "unit res"
    show "spends s (46 * n) (case h of
         Inl e \<Rightarrow> do { _ \<leftarrow> ContainerStop \<Omega> cid t; _ \<leftarrow> ContainerRemove \<Omega> cid; fail (g e) }
       | Inr _ \<Rightarrow> (case repl of
          [] \<Rightarrow> roll_replicas \<Omega> \<Pi> st name dir svc secrets t n (Suc i) []
        | old # rest \<Rightarrow> do {
            _ \<leftarrow> stopAndRemove \<Omega> (sm_id old) t;
            roll_replicas \<Omega> \<Pi> st name dir svc secrets t n (Suc i) rest }))"
      using rest failed by (cases h) simp_all
  qed
  then show ?case
    by (simp add: spends_calm_bind spends_calm_try calm_rule)
qed (simp add: spend)

lemma spends_rollout: "spends s (46 * nat (DesiredReplicas svc)) (rollout \<Omega> \<Pi> st name dir svc secrets kept repl)"
proof -
  have "spends s (46 * n + 0) (try_with id (roll_replicas \<Omega> \<Pi> st name dir svc secrets t n i r)
      (\<lambda>left. do { _ \<leftarrow> remove_all \<Omega> t left; ok () }))" for t n i r
    by (intro spends_try spends_roll spends_calm_bind calm_rule spend)
  then have "n \<le> m \<Longrightarrow> spends s (46 * m) (try_with id (roll_replicas \<Omega> \<Pi> st name dir svc secrets t n i r)
      (\<lambda>left. do { _ \<leftarrow> remove_all \<Omega> t left; ok () }))" for t n m i r
    by (rule spends_mono) simp
  then show ?thesis
    unfolding rollout_def Let_def by (simp add: spend)
qed

text \<open>Listing the service pays for looking at what it found.\<close>

lemma spends_listed:
  assumes "\<And>cs. spends s (46 * length cs + n) (f cs)"
  shows "spends s n (try_with wrap (getServiceContainers \<Omega> s) f)"
proof (rule spendsI)
  fix w :: world
  let ?r = "o_list \<Omega> (w_log w) s" and ?w = "\<lambda>r. w\<lparr>w_log := w_log w @ [EList s r]\<rparr>"
  have list: "run_state (getServiceContainers \<Omega> s) w =
      (case ?r of Inl e \<Rightarrow> Inl e | Inr cs \<Rightarrow> Inr (filter (of_service s) cs), ?w ?r)"
    by (simp add: getServiceContainers_def try_with_def ContainerList_def emit_def run_state_bind Let_def ok_def split: sum.split)
  show "debt s (w_log (snd (run_state (try_with wrap (getServiceContainers \<Omega> s) f) w))) \<le> debt s (w_log w) + int n"
  proof (cases ?r)
    case (Inr cs)
    have "debt s (w_log (snd (run_state (f (filter (of_service s) cs)) (?w (Inr cs)))))
        \<le> debt s (w_log w) - 46 * int (length cs) + (46 * int (length (filter (of_service s) cs)) + int n)"
      using spendsD[OF assms, of "filter (of_service s) cs" "?w (Inr cs)"] by simp
    also have "\<dots> \<le> debt s (w_log w) + int n" using length_filter_le[of "of_service s" cs] by simp
    finally show ?thesis using list Inr by (simp add: try_with_def run_state_bind)
  qed (use list in \<open>simp add: try_with_def run_state_bind\<close>)
qed

lemma spends_deploy:
  "spends name (61 * length (cs_depends_on svc) + retry_attempts p + 46 * nat (DesiredReplicas svc))
     (deployService \<Omega> \<Pi> p st name dir svc secrets ch)"
proof -
  have names: "length (Names (cs_depends_on svc)) = length (cs_depends_on svc)" using Names_sorted by simp
  have part: "spends name (46 * length cs + 46 * nat (DesiredReplicas svc)) (try_with id (partition_existing \<Omega> svc ch cs [] [])
      (\<lambda>(kept, repl). rollout \<Omega> \<Pi> st name dir svc secrets kept repl))" for cs
    by (intro spends_try spends_partition) (auto intro: spends_rollout split: prod.split)
  have image: "spends name (retry_attempts p + 46 * nat (DesiredReplicas svc)) (try_with id (resolveImage \<Omega> p svc st) (\<lambda>_.
           try_with wrap (getServiceContainers \<Omega> name) (\<lambda>existing.
           try_with id (partition_existing \<Omega> svc ch existing [] []) (\<lambda>(kept, repl).
             rollout \<Omega> \<Pi> st name dir svc secrets kept repl))))" for wrap
    by (intro spends_try spends_image spends_listed part)
  have "spends name (61 * length (Names (cs_depends_on svc)) + (retry_attempts p + 46 * nat (DesiredReplicas svc)))
     (try_with id (waitForDependencyConditions \<Omega> name svc) (\<lambda>_.
           try_with id (resolveImage \<Omega> p svc st) (\<lambda>_.
           try_with wrap (getServiceContainers \<Omega> name) (\<lambda>existing.
           try_with id (partition_existing \<Omega> svc ch existing [] []) (\<lambda>(kept, repl).
             rollout \<Omega> \<Pi> st name dir svc secrets kept repl)))))" for wrap
    unfolding waitForDependencyConditions_def by (intro spends_try spends_dependencies image)
  then show ?thesis unfolding deployService_def by (simp add: names spend ac_simps)
qed

section \<open>The bound\<close>

text \<open>The waits of a piece of a log, and how many containers the listings of a service answered in it.\<close>

fun waits :: "log \<Rightarrow> nat" where
  "waits [] = 0"
| "waits (ETick t # es) = Suc (waits es)"
| "waits (ESleep d c # es) = Suc (waits es)"
| "waits (e # es) = waits es"

fun found :: "string \<Rightarrow> log \<Rightarrow> nat" where
  "found s [] = 0"
| "found s (EList n (Inr cs) # es) = (if n = s then length cs else 0) + found s es"
| "found s (e # es) = found s es"

lemma debt_is: "debt s es = int (waits es) - 46 * int (found s es)"
proof (induction es)
  case (Cons e es)
  have "debt s (e # es) = wait_cost s e + debt s es" by (simp add: debt_def)
  moreover have "wait_cost s e + (int (waits es) - 46 * int (found s es)) = int (waits (e # es)) - 46 * int (found s (e # es))"
    by (cases e) (auto split: sum.split)
  ultimately show ?case using Cons by simp
qed simp

text \<open>C29. Rolling out a service always comes to an end: whatever Docker answers, the run waits at most 61 times (two minutes)
  for each service it depends on, once per attempt at a pull, and 46 times (a minute and a half) for each replica it
  creates and each container it found; then it has returned.\<close>

theorem rollout_waits_bounded:
  "\<exists>es. w_log (snd (run_state (deployService \<Omega> \<Pi> p st name dir svc secrets ch) w)) = w_log w @ es
     \<and> waits es \<le> 61 * length (cs_depends_on svc) + retry_attempts p + 46 * (nat (DesiredReplicas svc) + found name es)"
proof -
  let ?w = "snd (run_state (deployService \<Omega> \<Pi> p st name dir svc secrets ch) w)"
  have "tolerates (\<lambda>_. True) (\<lambda>w'. \<exists>es. w_log w' = w_log w @ es)" by (auto simp: tolerates_def)
  from keepsD[OF deployService_frame[OF this]] obtain es where es: "w_log ?w = w_log w @ es" by fastforce
  have "debt name (w_log ?w) \<le> debt name (w_log w) + int (61 * length (cs_depends_on svc) + retry_attempts p + 46 * nat (DesiredReplicas svc))"
    by (rule spendsD[OF spends_deploy])
  then have "int (waits es) \<le> 46 * int (found name es) + int (61 * length (cs_depends_on svc) + retry_attempts p + 46 * nat (DesiredReplicas svc))"
    unfolding es debt_append using debt_is[of name es] by linarith
  also have "\<dots> = int (46 * found name es + (61 * length (cs_depends_on svc) + retry_attempts p + 46 * nat (DesiredReplicas svc)))"
    by (simp only: of_nat_add of_nat_mult of_nat_numeral)
  finally have "waits es \<le> 46 * found name es + (61 * length (cs_depends_on svc) + retry_attempts p + 46 * nat (DesiredReplicas svc))"
    by (simp only: of_nat_le_iff)
  also have "\<dots> = 61 * length (cs_depends_on svc) + retry_attempts p + 46 * (nat (DesiredReplicas svc) + found name es)" by simp
  finally show ?thesis using es by blast
qed

end
