(* ===== verification/Config.thy ===== *)
theory Config
  imports Middleware
begin

text \<open>
  internal/config/config.go: what the server reads from its environment. The environment is a map (a variable that is
  set to the empty text differs from an unset one only for LookupEnv); time.ParseDuration, strconv.ParseFloat and the
  number of processors are in the record go_lib, with the conversion of a float beyond the range of an int, which Go
  leaves to the platform. RateLimitRPS is a rational: the infinities and NaN, which ParseFloat accepts by name, are not
  modelled. A duration is in nanoseconds.
\<close>

record go_lib =
  gl_duration :: "string \<Rightarrow> int option"
  gl_float :: "string \<Rightarrow> rat option"
  gl_int_of_big :: "rat \<Rightarrow> int"
  gl_cpus :: nat

record config =
  cfg_ServerPort :: string
  cfg_APIKey :: string
  cfg_DockerSock :: string
  cfg_WorkerCount :: int
  cfg_QueueSize :: int
  cfg_StatusCleanupInterval :: int
  cfg_StatusMaxAge :: int
  cfg_BackupInterval :: int
  cfg_BackupDir :: string
  cfg_BackupKeep :: int
  cfg_BackupEncryptionPassphrase :: string
  cfg_BackupS3Bucket :: string
  cfg_BackupS3Endpoint :: string
  cfg_BackupS3Region :: string
  cfg_BackupS3Prefix :: string
  cfg_BackupS3AccessKey :: string
  cfg_BackupS3SecretKey :: string
  cfg_BackupS3UseSSL :: bool
  cfg_AuditMaxAge :: int
  cfg_LogLevel :: string
  cfg_LogFormat :: string
  cfg_DatabasePath :: string
  cfg_AllowVolumeWrites :: bool
  cfg_AllowRestore :: bool
  cfg_RateLimitRPS :: rat
  cfg_RateLimitBurst :: int
  cfg_NotifyWebhookURL :: string
  cfg_NotifySlackWebhookURL :: string
  cfg_NotifyDiscordWebhookURL :: string
  cfg_NotifyTeamsWebhookURL :: string
  cfg_NotifySMTPHost :: string
  cfg_NotifySMTPPort :: int
  cfg_NotifySMTPUsername :: string
  cfg_NotifySMTPPassword :: string
  cfg_NotifyEmailFrom :: string
  cfg_NotifyEmailTo :: "string list"
  cfg_WebhookSecret :: string
  cfg_RetryMaxAttempts :: int
  cfg_RetryBaseDelay :: int
  cfg_RetryMaxDelay :: int
  cfg_CircuitBreakerThreshold :: int
  cfg_CircuitBreakerCooldown :: int
  cfg_ApprovalTimeout :: int
  cfg_TLSCertFile :: string
  cfg_TLSKeyFile :: string
  cfg_TLSHSTSMaxAge :: int
  cfg_ContentSecurityPolicy :: string
  cfg_StacksDataDir :: string
  cfg_LegacyRepoURL :: string
  cfg_LegacyRepoUsername :: string
  cfg_LegacyRepoToken :: string
  cfg_LegacyRepoBranch :: string
  cfg_LegacyComposePath :: string
  cfg_LegacyServiceNames :: string
  cfg_LegacyDockerUsername :: string
  cfg_LegacyDockerPassword :: string
  cfg_LegacyDockerRegistry :: string

type_synonym environment = "string \<Rightarrow> string option"

definition Getenv :: "environment \<Rightarrow> string \<Rightarrow> string" where
  "Getenv env k = (case env k of None \<Rightarrow> [] | Some v \<Rightarrow> v)"

definition envOrDefault :: "environment \<Rightarrow> string \<Rightarrow> string \<Rightarrow> string" where
  "envOrDefault env k fallback = (let v = Getenv env k in if v \<noteq> [] then v else fallback)"

text \<open>A number that is missing, empty or malformed is the default.\<close>

definition parse_or :: "(string \<Rightarrow> 'a option) \<Rightarrow> environment \<Rightarrow> string \<Rightarrow> 'a \<Rightarrow> 'a" where
  "parse_or parse env k fallback =
     (let s = Getenv env k in if s \<noteq> [] then case parse s of Some v \<Rightarrow> v | None \<Rightarrow> fallback else fallback)"

definition parseDurationOrDefault :: "go_lib \<Rightarrow> environment \<Rightarrow> string \<Rightarrow> int \<Rightarrow> int" where
  "parseDurationOrDefault L = parse_or (gl_duration L)"

definition parseFloatOrDefault :: "go_lib \<Rightarrow> environment \<Rightarrow> string \<Rightarrow> rat \<Rightarrow> rat" where
  "parseFloatOrDefault L = parse_or (gl_float L)"

definition parseIntOrDefault :: "environment \<Rightarrow> string \<Rightarrow> int \<Rightarrow> int" where
  "parseIntOrDefault = parse_or atoi"

definition clamp :: "int \<Rightarrow> int \<Rightarrow> int \<Rightarrow> int" where
  "clamp v lo hi = (if v < lo then lo else if v > hi then hi else v)"

definition positive_setting :: "environment \<Rightarrow> string \<Rightarrow> int option" where
  "positive_setting env k =
     (let s = Getenv env k
      in if s \<noteq> [] then case atoi s of Some n \<Rightarrow> if n > 0 then Some n else None | None \<Rightarrow> None else None)"

definition calculateWorkers :: "go_lib \<Rightarrow> environment \<Rightarrow> int" where
  "calculateWorkers L env =
     (case positive_setting env ''WORKER_COUNT'' of Some n \<Rightarrow> clamp n 1 50 | None \<Rightarrow> clamp (int (gl_cpus L) * 2) 2 50)"

definition calculateQueueSize :: "environment \<Rightarrow> int \<Rightarrow> int" where
  "calculateQueueSize env workers =
     (case positive_setting env ''QUEUE_SIZE'' of Some n \<Rightarrow> clamp n 50 1000 | None \<Rightarrow> clamp (workers * 15) 50 1000)"

text \<open>int(f) of a float that is not negative.\<close>

definition int_of_float :: "go_lib \<Rightarrow> rat \<Rightarrow> int" where
  "int_of_float L x = (if x < 2 ^ 63 then \<lfloor>x\<rfloor> else gl_int_of_big L x)"

definition rate_burst :: "go_lib \<Rightarrow> rat \<Rightarrow> int \<Rightarrow> int" where
  "rate_burst L r burst = (if r > 0 \<and> burst \<le> 0 then int_of_float L (max (r * 2) 10) else burst)"

definition email_recipients :: "string \<Rightarrow> string list" where
  "email_recipients s = filter (\<lambda>a. a \<noteq> []) (List.map trim_space (split_on (CHR '','') s))"

abbreviation (input) second :: int where "second \<equiv> 1000000000"
abbreviation (input) minute :: int where "minute \<equiv> 60 * second"
abbreviation (input) hour :: int where "hour \<equiv> 60 * minute"

definition default_csp :: string where
  "default_csp = ''default-src '' @ [CHR 0x27] @ ''none'' @ [CHR 0x27] @ ''; frame-ancestors '' @ [CHR 0x27] @ ''none'' @ [CHR 0x27]"

text \<open>The struct that Load fills in, before its two checks.\<close>

definition read_config :: "go_lib \<Rightarrow> environment \<Rightarrow> config" where
  "read_config L env =
     (let dur = parseDurationOrDefault L env; num = parseIntOrDefault env; get = Getenv env; def = envOrDefault env;
          workers = calculateWorkers L env; r = parseFloatOrDefault L env ''RATE_LIMIT_RPS'' 0;
          attempts = num ''RETRY_MAX_ATTEMPTS'' 3; threshold = num ''CIRCUIT_BREAKER_THRESHOLD'' 5;
          approval = dur ''APPROVAL_TIMEOUT'' (24 * hour); keep = num ''BACKUP_KEEP'' 7
      in \<lparr>cfg_ServerPort = def ''SERVER_PORT'' ''8000'', cfg_APIKey = get ''API_KEY'',
          cfg_DockerSock = def ''DOCKER_SOCK'' ''unix:///var/run/docker.sock'',
          cfg_WorkerCount = workers, cfg_QueueSize = calculateQueueSize env workers,
          cfg_StatusCleanupInterval = dur ''STATUS_CLEANUP_INTERVAL'' (1 * hour),
          cfg_StatusMaxAge = dur ''STATUS_MAX_AGE'' (24 * hour),
          cfg_BackupInterval = dur ''BACKUP_INTERVAL'' 0, cfg_BackupDir = def ''BACKUP_DIR'' ''./data/backups'',
          cfg_BackupKeep = (if keep < 0 then 0 else keep),
          cfg_BackupEncryptionPassphrase = get ''BACKUP_ENCRYPTION_PASSPHRASE'',
          cfg_BackupS3Bucket = get ''BACKUP_S3_BUCKET'', cfg_BackupS3Endpoint = get ''BACKUP_S3_ENDPOINT'',
          cfg_BackupS3Region = get ''BACKUP_S3_REGION'', cfg_BackupS3Prefix = get ''BACKUP_S3_PREFIX'',
          cfg_BackupS3AccessKey = get ''BACKUP_S3_ACCESS_KEY_ID'', cfg_BackupS3SecretKey = get ''BACKUP_S3_SECRET_ACCESS_KEY'',
          cfg_BackupS3UseSSL = (def ''BACKUP_S3_USE_SSL'' ''true'' = ''true''),
          cfg_AuditMaxAge = dur ''AUDIT_MAX_AGE'' (90 * 24 * hour),
          cfg_LogLevel = def ''LOG_LEVEL'' ''info'', cfg_LogFormat = def ''LOG_FORMAT'' ''text'',
          cfg_DatabasePath = def ''DATABASE_PATH'' ''./data/accelero.db'',
          cfg_AllowVolumeWrites = (def ''ALLOW_VOLUME_WRITES'' ''false'' = ''true''),
          cfg_AllowRestore = (def ''ALLOW_RESTORE'' ''false'' = ''true''),
          cfg_RateLimitRPS = r, cfg_RateLimitBurst = rate_burst L r (num ''RATE_LIMIT_BURST'' 0),
          cfg_NotifyWebhookURL = get ''NOTIFY_WEBHOOK_URL'', cfg_NotifySlackWebhookURL = get ''NOTIFY_SLACK_WEBHOOK_URL'',
          cfg_NotifyDiscordWebhookURL = get ''NOTIFY_DISCORD_WEBHOOK_URL'', cfg_NotifyTeamsWebhookURL = get ''NOTIFY_TEAMS_WEBHOOK_URL'',
          cfg_NotifySMTPHost = get ''NOTIFY_SMTP_HOST'', cfg_NotifySMTPPort = num ''NOTIFY_SMTP_PORT'' 587,
          cfg_NotifySMTPUsername = get ''NOTIFY_SMTP_USERNAME'', cfg_NotifySMTPPassword = get ''NOTIFY_SMTP_PASSWORD'',
          cfg_NotifyEmailFrom = get ''NOTIFY_EMAIL_FROM'', cfg_NotifyEmailTo = email_recipients (get ''NOTIFY_EMAIL_TO''),
          cfg_WebhookSecret = get ''WEBHOOK_SECRET'',
          cfg_RetryMaxAttempts = (if attempts < 1 then 1 else attempts),
          cfg_RetryBaseDelay = dur ''RETRY_BASE_DELAY'' (1 * second), cfg_RetryMaxDelay = dur ''RETRY_MAX_DELAY'' (30 * second),
          cfg_CircuitBreakerThreshold = (if threshold < 0 then 0 else threshold),
          cfg_CircuitBreakerCooldown = dur ''CIRCUIT_BREAKER_COOLDOWN'' (10 * minute),
          cfg_ApprovalTimeout = (if approval < 0 then 0 else approval),
          cfg_TLSCertFile = trim_space (get ''TLS_CERT_FILE''), cfg_TLSKeyFile = trim_space (get ''TLS_KEY_FILE''),
          cfg_TLSHSTSMaxAge = num ''TLS_HSTS_MAX_AGE'' 31536000,
          cfg_ContentSecurityPolicy = (case env ''CONTENT_SECURITY_POLICY'' of Some v \<Rightarrow> v | None \<Rightarrow> default_csp),
          cfg_StacksDataDir = def ''STACKS_DATA_DIR'' ''./data/stacks'',
          cfg_LegacyRepoURL = get ''REPO_URL'', cfg_LegacyRepoUsername = get ''REPO_USERNAME'',
          cfg_LegacyRepoToken = get ''REPO_TOKEN'', cfg_LegacyRepoBranch = get ''REPO_BRANCH'',
          cfg_LegacyComposePath = get ''COMPOSE_PATH'', cfg_LegacyServiceNames = get ''SERVICE_NAMES'',
          cfg_LegacyDockerUsername = get ''DOCKER_USERNAME'', cfg_LegacyDockerPassword = get ''DOCKER_PASSWORD'',
          cfg_LegacyDockerRegistry = get ''DOCKER_REGISTRY''\<rparr>)"

definition Load :: "go_lib \<Rightarrow> environment \<Rightarrow> config res" where
  "Load L env =
     (let c = read_config L env
      in if (cfg_TLSCertFile c = []) \<noteq> (cfg_TLSKeyFile c = [])
         then Inl (ErrText ''TLS_CERT_FILE and TLS_KEY_FILE must both be set or both be empty'')
         else if cfg_APIKey c = [] then Inl (ErrText ''API_KEY environment variable must be set'')
         else Inr c)"

definition HasLegacyConfig :: "config \<Rightarrow> bool" where
  "HasLegacyConfig c \<longleftrightarrow> cfg_LegacyRepoURL c \<noteq> [] \<and> cfg_LegacyRepoUsername c \<noteq> [] \<and> cfg_LegacyRepoToken c \<noteq> []
     \<and> cfg_LegacyComposePath c \<noteq> []"

section \<open>What Load accepts\<close>

text \<open>The fields Load checks or repairs: the key is there, TLS is whole or off, and these numbers are within their ranges.
  The number of workers is below two only when the environment asks for one. The durations of the cleanup, the retries
  and the breaker, the maximum ages and the other numbers are taken as they parse.\<close>

definition within_bounds :: "environment \<Rightarrow> config \<Rightarrow> bool" where
  "within_bounds env c \<longleftrightarrow> cfg_APIKey c \<noteq> [] \<and> (cfg_TLSCertFile c = [] \<longleftrightarrow> cfg_TLSKeyFile c = [])
     \<and> cfg_WorkerCount c \<in> {1..50} \<and> (cfg_WorkerCount c = 1 \<longrightarrow> atoi (Getenv env ''WORKER_COUNT'') = Some 1)
     \<and> cfg_QueueSize c \<in> {50..1000} \<and> 1 \<le> cfg_RetryMaxAttempts c
     \<and> 0 \<le> cfg_CircuitBreakerThreshold c \<and> 0 \<le> cfg_ApprovalTimeout c \<and> 0 \<le> cfg_BackupKeep c
     \<and> (0 < cfg_RateLimitRPS c \<and> cfg_RateLimitRPS c < 2 ^ 62 \<longrightarrow> 1 \<le> cfg_RateLimitBurst c)
     \<and> (\<forall>a \<in> set (cfg_NotifyEmailTo c). a \<noteq> [])"

lemma clamp_in: "lo \<le> hi \<Longrightarrow> clamp v lo hi \<in> {lo..hi}"
  by (simp add: clamp_def)

lemma workers_in: "calculateWorkers L env \<in> {1..50}"
  using clamp_in[of 2 50] by (auto simp: calculateWorkers_def clamp_def split: option.split)

lemma one_worker: "calculateWorkers L env = 1 \<Longrightarrow> atoi (Getenv env ''WORKER_COUNT'') = Some 1"
  by (auto simp: calculateWorkers_def positive_setting_def clamp_def Let_def split: option.splits if_splits; presburger)

lemma queue_in: "calculateQueueSize env w \<in> {50..1000}"
  using clamp_in[of 50 1000] by (auto simp: calculateQueueSize_def split: option.split)

lemma burst_pos: "0 < r \<Longrightarrow> r < 2 ^ 62 \<Longrightarrow> 1 \<le> rate_burst L r b"
  by (auto simp: rate_burst_def int_of_float_def le_floor_iff max_def)

lemmas read_config_fields = read_config_def Let_def config.select_convs

lemma Load_Inr: "Load L env = Inr c \<Longrightarrow> c = read_config L env \<and> cfg_APIKey c \<noteq> [] \<and> (cfg_TLSCertFile c = []) = (cfg_TLSKeyFile c = [])"
  by (auto simp: Load_def Let_def split: if_splits)

text \<open>C40. Whatever the environment holds, loading the configuration fails exactly when the API key is missing or TLS is
  configured by half, and otherwise gives a configuration whose checked fields are within their bounds: 1 to 50 workers,
  1 only when WORKER_COUNT asks for it, a queue of 50 to 1000, at least one attempt, a threshold, a timeout and a number
  of backups that are not negative, a burst of at least 1 with a rate limit below 2^62, and recipients that are not
  empty. A malformed number is no reason to fail. STATUS_CLEANUP_INTERVAL is not among the checked fields: a zero is
  accepted, as the lemma below shows, and stops the server when it starts its ticker.\<close>

theorem config_bounds:
  "(\<exists>c. Load L env = Inr c \<and> c = read_config L env \<and> within_bounds env c)
   \<or> ((\<exists>e. Load L env = Inl e) \<and> (Getenv env ''API_KEY'' = []
         \<or> (trim_space (Getenv env ''TLS_CERT_FILE'') = []) = (trim_space (Getenv env ''TLS_KEY_FILE'') \<noteq> [])))"
proof (cases "Load L env")
  case (Inr c)
  note c = Load_Inr[OF Inr]
  have "within_bounds env c"
    unfolding within_bounds_def
  proof (intro conjI)
    show "cfg_APIKey c \<noteq> []" "(cfg_TLSCertFile c = []) = (cfg_TLSKeyFile c = [])" using c by auto
    show "cfg_WorkerCount c \<in> {1..50}" "cfg_QueueSize c \<in> {50..1000}"
      using c workers_in queue_in by (simp_all only: read_config_fields)
    show "cfg_WorkerCount c = 1 \<longrightarrow> atoi (Getenv env ''WORKER_COUNT'') = Some 1"
      using c one_worker by (simp only: read_config_fields) blast
    show "1 \<le> cfg_RetryMaxAttempts c" "0 \<le> cfg_CircuitBreakerThreshold c" "0 \<le> cfg_ApprovalTimeout c" "0 \<le> cfg_BackupKeep c"
      using c by (simp_all only: read_config_fields) auto
    show "0 < cfg_RateLimitRPS c \<and> cfg_RateLimitRPS c < 2 ^ 62 \<longrightarrow> 1 \<le> cfg_RateLimitBurst c"
      using c burst_pos by (simp only: read_config_fields) blast
    show "\<forall>a \<in> set (cfg_NotifyEmailTo c). a \<noteq> []"
      using c by (simp only: read_config_fields email_recipients_def) simp
  qed
  then show ?thesis using Inr c by blast
next
  case (Inl e)
  then have "cfg_APIKey (read_config L env) = [] \<or> (cfg_TLSCertFile (read_config L env) = []) \<noteq> (cfg_TLSKeyFile (read_config L env) = [])"
    by (auto simp: Load_def Let_def split: if_splits)
  then show ?thesis using Inl by (simp only: read_config_fields) blast
qed

text \<open>A cleanup interval that is zero or negative is accepted as it is, and so is a single worker.\<close>

definition demo_lib :: go_lib where
  "demo_lib = \<lparr>gl_duration = (\<lambda>s. if s = ''0s'' then Some 0 else None), gl_float = (\<lambda>_. None), gl_int_of_big = (\<lambda>_. 0), gl_cpus = 4\<rparr>"

lemma cleanup_interval_unchecked:
  "\<exists>c. Load demo_lib [''API_KEY'' \<mapsto> ''k'', ''STATUS_CLEANUP_INTERVAL'' \<mapsto> ''0s''] = Inr c \<and> cfg_StatusCleanupInterval c = 0"
proof -
  let ?env = "[''API_KEY'' \<mapsto> ''k'', ''STATUS_CLEANUP_INTERVAL'' \<mapsto> ''0s'']"
  have "cfg_StatusCleanupInterval (read_config demo_lib ?env) = 0"
    by (simp only: read_config_fields) (simp add: parseDurationOrDefault_def parse_or_def Getenv_def demo_lib_def)
  moreover have "Load demo_lib ?env = Inr (read_config demo_lib ?env)"
  proof -
    have "cfg_APIKey (read_config demo_lib ?env) \<noteq> []" "(cfg_TLSCertFile (read_config demo_lib ?env) = []) = (cfg_TLSKeyFile (read_config demo_lib ?env) = [])"
      by (simp_all only: read_config_fields) (simp_all add: Getenv_def)
    then show ?thesis by (auto simp: Load_def Let_def)
  qed
  ultimately show ?thesis by blast
qed

lemma one_worker_accepted: "calculateWorkers demo_lib [''WORKER_COUNT'' \<mapsto> ''1''] = 1"
  by code_simp

end
