(* ===== verification/Rbac.thy ===== *)
theory Rbac
  imports Prelude
begin

text \<open>
  internal/rbac/rbac.go, internal/middleware/auth.go and the route table of RegisterRoutes
  (internal/handler/handler.go): roles, the identity of a caller with its per-stack grants, the role a request
  requires, and the authentication and authorization middleware.

  A role stays a string, as in the code, where any string may come out of the database; \<open>access\<close> is the
  specification, four levels in a linear order, and \<open>access_of\<close> the abstraction. The key lookup and the stack
  resolver are arguments of the middleware, as they are in the code (cmd/main.go passes closures over the
  store; theory Auth_Store models those).
\<close>

section \<open>Roles\<close>

type_synonym role = string

definition RoleNone :: role where "RoleNone = ''none''"
definition RoleViewer :: role where "RoleViewer = ''viewer''"
definition RoleOperator :: role where "RoleOperator = ''operator''"
definition RoleAdmin :: role where "RoleAdmin = ''admin''"

lemmas role_defs = RoleNone_def RoleViewer_def RoleOperator_def RoleAdmin_def

definition role_level :: "role \<Rightarrow> nat" where
  "role_level r = (if r = RoleAdmin then 3 else if r = RoleOperator then 2 else if r = RoleViewer then 1 else 0)"

definition role_valid :: "role \<Rightarrow> bool" where
  "role_valid r \<longleftrightarrow> r = RoleNone \<or> r = RoleViewer \<or> r = RoleOperator \<or> r = RoleAdmin"

definition satisfies :: "role \<Rightarrow> role \<Rightarrow> bool" where
  "satisfies r req \<longleftrightarrow> role_level r \<ge> role_level req"

definition ParseRole :: "string \<Rightarrow> role option" where
  "ParseRole s = (let role = to_lower (trim_space s) in if \<not> role_valid role then None else Some role)"

record identity =
  id_name :: string
  id_role :: role
  StackGrants :: "(string \<Rightarrow> role option) option" \<comment> \<open>None is the nil map\<close>

definition EffectiveRole :: "identity \<Rightarrow> string \<Rightarrow> role" where
  "EffectiveRole i stackID =
     (if stackID \<noteq> [] \<and> StackGrants i \<noteq> None
      then case the (StackGrants i) stackID of Some r \<Rightarrow> r | None \<Rightarrow> id_role i
      else id_role i)"

definition RequiredRole :: "string \<Rightarrow> string \<Rightarrow> role" where
  "RequiredRole meth path =
     (if has_prefix path ''/api/v1/admin/'' \<or> has_prefix path ''/api/v1/apikeys'' \<or> has_prefix path ''/api/v1/hosts''
      then RoleAdmin
      else if has_suffix path ''/exec'' then RoleOperator
      else if meth = ''GET'' \<or> meth = ''HEAD'' then RoleViewer
      else RoleOperator)"

definition StackTokenFromPath :: "string \<Rightarrow> string" where
  "StackTokenFromPath path =
     (if \<not> has_prefix path ''/api/v1/stacks/'' then []
      else let rest = drop (length ''/api/v1/stacks/'') path
           in case index_byte rest CHR ''/'' of Some i \<Rightarrow> take i rest | None \<Rightarrow> rest)"

section \<open>The specification of roles\<close>

datatype access = NoAccess | ReadOnly | Operate | Administer

fun access_rank :: "access \<Rightarrow> nat" where
  "access_rank NoAccess = 0"
| "access_rank ReadOnly = 1"
| "access_rank Operate = 2"
| "access_rank Administer = 3"

instantiation access :: linorder
begin

definition less_eq_access :: "access \<Rightarrow> access \<Rightarrow> bool" where
  "less_eq_access a b \<longleftrightarrow> access_rank a \<le> access_rank b"

definition less_access :: "access \<Rightarrow> access \<Rightarrow> bool" where
  "less_access a b \<longleftrightarrow> access_rank a < access_rank b"

instance
proof
  fix a b :: access
  show "a \<le> b \<Longrightarrow> b \<le> a \<Longrightarrow> a = b"
    by (cases a; cases b) (auto simp: less_eq_access_def)
qed (auto simp: less_eq_access_def less_access_def)

end

definition access_of :: "role \<Rightarrow> access" where
  "access_of r = (if r = RoleAdmin then Administer else if r = RoleOperator then Operate
                  else if r = RoleViewer then ReadOnly else NoAccess)"

lemma role_level_rank: "role_level r = access_rank (access_of r)"
  by (simp add: role_level_def access_of_def)

text \<open>The roles form the hierarchy admin over operator over viewer over everything else: a role satisfies a
  requirement exactly when its level of access is at least the required one, so none, the empty role and every
  malformed value satisfy only requirements of no access, and the relation is a linear preorder.\<close>

lemma satisfies_access:
  "satisfies r req \<longleftrightarrow> access_of req \<le> access_of r"
  by (simp add: satisfies_def role_level_rank less_eq_access_def)

lemma satisfies_refl: "satisfies r r"
  by (simp add: satisfies_def)

lemma satisfies_trans: "satisfies a b \<Longrightarrow> satisfies b c \<Longrightarrow> satisfies a c"
  by (simp add: satisfies_def)

lemma RequiredRole_cases:
  "RequiredRole m p \<in> {RoleViewer, RoleOperator, RoleAdmin}"
  by (simp add: RequiredRole_def)

lemma required_some: "access_of (RequiredRole m p) \<noteq> NoAccess"
  using RequiredRole_cases[of m p] by (auto simp: access_of_def role_defs)

lemma powerless_never: "access_of r = NoAccess \<Longrightarrow> \<not> satisfies r (RequiredRole m p)"
  using required_some[of m p] by (cases "access_of (RequiredRole m p)") (auto simp: satisfies_access less_eq_access_def)

lemma ParseRole_valid: "ParseRole s = Some r \<Longrightarrow> role_valid r"
  by (auto simp: ParseRole_def Let_def split: if_splits)

lemma ParseRole_id: "role_valid r \<Longrightarrow> ParseRole r = Some r"
proof -
  have "ParseRole RoleNone = Some RoleNone" "ParseRole RoleViewer = Some RoleViewer"
    "ParseRole RoleOperator = Some RoleOperator" "ParseRole RoleAdmin = Some RoleAdmin"
    by code_simp+
  then show "role_valid r \<Longrightarrow> ParseRole r = Some r" by (auto simp: role_valid_def)
qed

lemma ParseRole_empty: "ParseRole [] = None"
  by code_simp

section \<open>The path of a stack\<close>

lemma token_of_path:
  assumes "CHR ''/'' \<notin> set t"
  shows "StackTokenFromPath (''/api/v1/stacks/'' @ t) = t"
    and "StackTokenFromPath (''/api/v1/stacks/'' @ t @ CHR ''/'' # rest) = t"
  using assms index_byte_None[of t "CHR ''/''"]
  by (simp_all add: StackTokenFromPath_def index_byte_append)

section \<open>The middleware\<close>

record auth_request =
  rq_method :: string
  rq_path :: string
  rq_api_key :: string \<comment> \<open>the header X-API-KEY, empty when absent\<close>

datatype auth_result = AuthReject nat string | AuthPass identity

definition env_admin :: identity where
  "env_admin = \<lparr>id_name = ''env-admin'', id_role = RoleAdmin, StackGrants = None\<rparr>"

definition target_stack :: "(string \<Rightarrow> string option) option \<Rightarrow> string \<Rightarrow> string" where
  "target_stack resolveStack path =
     (let token = StackTokenFromPath path in
      if token \<noteq> [] \<and> resolveStack \<noteq> None
      then case the resolveStack token of Some resolved \<Rightarrow> resolved | None \<Rightarrow> []
      else [])"

definition api_key_auth ::
  "string \<Rightarrow> (string \<Rightarrow> identity option res) \<Rightarrow> (string \<Rightarrow> string option) option \<Rightarrow> auth_request \<Rightarrow> auth_result" where
  "api_key_auth envKey lookup resolveStack r =
     (let raw = rq_api_key r in
      if raw = [] then AuthReject 401 ''API key is required''
      else
        (case (if raw = envKey then Inr (Some env_admin) else lookup raw) of
           Inl err \<Rightarrow> AuthReject 500 ''authentication error''
         | Inr None \<Rightarrow> AuthReject 403 ''Invalid API key''
         | Inr (Some i) \<Rightarrow>
             (if \<not> satisfies (EffectiveRole i (target_stack resolveStack (rq_path r)))
                            (RequiredRole (rq_method r) (rq_path r))
              then AuthReject 403 ''insufficient role''
              else AuthPass i)))"

text \<open>Who a presented key is, when it is anyone.\<close>

definition authenticated ::
  "string \<Rightarrow> (string \<Rightarrow> identity option res) \<Rightarrow> string \<Rightarrow> identity \<Rightarrow> bool" where
  "authenticated envKey lookup raw i \<longleftrightarrow>
     raw \<noteq> [] \<and> (if raw = envKey then i = env_admin else lookup raw = Inr (Some i))"

text \<open>
  What a request needs and what its caller holds, stated without the functions of the code. A path names the stack
  \<open>t\<close> when it is /api/v1/stacks/t or continues after a further slash; a role is granted on the path when
  the named stack is known and the identity has a grant for it; what the caller holds is the granted access where
  there is a grant, above or below the base role, and that of the base role everywhere else.
\<close>

definition names_stack :: "string \<Rightarrow> string \<Rightarrow> bool" where
  "names_stack p t \<longleftrightarrow> t \<noteq> [] \<and> CHR ''/'' \<notin> set t \<and>
     (p = ''/api/v1/stacks/'' @ t \<or> (\<exists>r. p = ''/api/v1/stacks/'' @ t @ ''/'' @ r))"

definition granted_on ::
  "(string \<Rightarrow> string option) option \<Rightarrow> identity \<Rightarrow> string \<Rightarrow> role \<Rightarrow> bool" where
  "granted_on resolveStack i p g \<longleftrightarrow>
     (\<exists>t resolve s grants. names_stack p t \<and> resolveStack = Some resolve \<and> resolve t = Some s \<and> s \<noteq> [] \<and>
        StackGrants i = Some grants \<and> grants s = Some g)"

definition holds_access ::
  "(string \<Rightarrow> string option) option \<Rightarrow> identity \<Rightarrow> string \<Rightarrow> access \<Rightarrow> bool" where
  "holds_access resolveStack i p a \<longleftrightarrow>
     (\<exists>g. granted_on resolveStack i p g \<and> a = access_of g) \<or>
     ((\<nexists>g. granted_on resolveStack i p g) \<and> a = access_of (id_role i))"

definition access_on :: "identity \<Rightarrow> string \<Rightarrow> access" where
  "access_on i s =
     (case StackGrants i of
        None \<Rightarrow> access_of (id_role i)
      | Some grants \<Rightarrow> if s = [] then access_of (id_role i)
                      else (case grants s of Some g \<Rightarrow> access_of g | None \<Rightarrow> access_of (id_role i)))"

definition needed_access :: "string \<Rightarrow> string \<Rightarrow> access" where
  "needed_access m p =
     (if \<exists>r. p = ''/api/v1/admin/'' @ r \<or> p = ''/api/v1/apikeys'' @ r \<or> p = ''/api/v1/hosts'' @ r then Administer
      else if (\<exists>r. p = r @ ''/exec'') \<or> (m \<noteq> ''GET'' \<and> m \<noteq> ''HEAD'') then Operate else ReadOnly)"

lemma names_stack_iff: "names_stack p t \<longleftrightarrow> t \<noteq> [] \<and> StackTokenFromPath p = t"
proof
  assume "names_stack p t"
  then show "t \<noteq> [] \<and> StackTokenFromPath p = t"
    using token_of_path[of t] by (auto simp: names_stack_def)
next
  assume *: "t \<noteq> [] \<and> StackTokenFromPath p = t"
  then obtain rest where p: "p = ''/api/v1/stacks/'' @ rest"
    by (auto simp: StackTokenFromPath_def has_prefix_iff split: if_splits)
  show "names_stack p t"
  proof (cases "CHR ''/'' \<in> set rest")
    case False
    with * p token_of_path(1)[of rest] show ?thesis by (simp add: names_stack_def)
  next
    case True
    then obtain u v where "rest = u @ CHR ''/'' # v" "CHR ''/'' \<notin> set u" by (meson split_list_first)
    with * p token_of_path(2)[of u v] show ?thesis by (auto simp: names_stack_def)
  qed
qed

lemma holds_access_iff:
  "holds_access resolveStack i p a \<longleftrightarrow> a = access_of (EffectiveRole i (target_stack resolveStack p))"
  by (auto simp: holds_access_def granted_on_def names_stack_iff EffectiveRole_def target_stack_def Let_def
      split: option.splits)

lemma access_on_effective: "access_on i s = access_of (EffectiveRole i s)"
  by (simp add: access_on_def EffectiveRole_def split: option.split)

lemma needed_access_required: "needed_access m p = access_of (RequiredRole m p)"
  by (auto simp: needed_access_def RequiredRole_def access_of_def role_defs has_prefix_iff has_suffix_iff)

text \<open>C3. A request reaches a handler with an identity exactly when it presents a key that is the bootstrap key
  (then the identity is env-admin with the admin role) or one the store knows, and the access its caller holds on
  the path, that of the grant on the stack the path names where there is one and that of the base role otherwise,
  is at least what its method and path need: everything under admin, apikeys and hosts needs the administrator,
  a path that ends in /exec or a method other than GET and HEAD the operator, every other request a reader. Every
  other request is answered 401, 403 or 500 and goes no further.\<close>

theorem api_key_auth_pass_iff:
  "api_key_auth envKey lookup resolveStack r = AuthPass i \<longleftrightarrow>
     authenticated envKey lookup (rq_api_key r) i \<and>
     (\<exists>a. holds_access resolveStack i (rq_path r) a \<and> needed_access (rq_method r) (rq_path r) \<le> a)"
  unfolding holds_access_iff needed_access_required
  by (auto simp: api_key_auth_def authenticated_def satisfies_access Let_def split: sum.splits option.splits)

lemma api_key_auth_reject:
  "api_key_auth envKey lookup resolveStack r = AuthReject st msg \<Longrightarrow> st \<in> {401, 403, 500}"
  by (auto simp: api_key_auth_def Let_def split: sum.splits option.splits if_splits)

section \<open>The routes\<close>

text \<open>
  The routes RegisterRoutes mounts. A pattern is a list of segments, literal or a variable, which matches any
  non-empty text without a slash; the router that matches paths is gorilla/mux, which is not modelled, so a route
  is read through the paths that are its instances.
\<close>

datatype segment = Lit string | Var
datatype chain = Unauthenticated | ApiKey | Webhook

record route =
  rt_method :: string
  rt_pattern :: "segment list"
  rt_handler :: string
  rt_chain :: chain

definition api :: "string \<Rightarrow> segment list \<Rightarrow> string \<Rightarrow> route" where
  "api meth segs h = \<lparr>rt_method = meth, rt_pattern = Lit ''api'' # Lit ''v1'' # segs, rt_handler = h, rt_chain = ApiKey\<rparr>"

definition root_route :: "string \<Rightarrow> string \<Rightarrow> string \<Rightarrow> chain \<Rightarrow> route" where
  "root_route meth seg h c = \<lparr>rt_method = meth, rt_pattern = [Lit seg], rt_handler = h, rt_chain = c\<rparr>"

definition stack_route :: "string \<Rightarrow> segment list \<Rightarrow> string \<Rightarrow> route" where
  "stack_route meth segs h = api meth (Lit ''stacks'' # Var # segs) h"

definition RegisterRoutes :: "bool \<Rightarrow> route list" where
  "RegisterRoutes webhookAuth =
    [root_route ''GET'' ''health'' ''Health'' Unauthenticated,
     root_route ''GET'' ''healthz'' ''Health'' Unauthenticated,
     root_route ''GET'' ''readyz'' ''Readyz'' Unauthenticated,
     api ''POST'' [Lit ''stacks''] ''CreateStack'',
     api ''GET'' [Lit ''stacks''] ''ListStacks'',
     stack_route ''GET'' [] ''GetStack'',
     stack_route ''PUT'' [] ''UpdateStack'',
     stack_route ''DELETE'' [] ''DeleteStack'',
     stack_route ''POST'' [Lit ''deploy''] ''DeployStack'',
     stack_route ''GET'' [Lit ''deployments''] ''ListDeployments'',
     stack_route ''GET'' [Lit ''drift''] ''CheckDrift'',
     stack_route ''POST'' [Lit ''preview''] ''PreviewDeploy'',
     stack_route ''POST'' [Lit ''deployments'', Var, Lit ''approve''] ''ApproveDeployment'',
     stack_route ''POST'' [Lit ''deployments'', Var, Lit ''reject''] ''RejectDeployment'',
     api ''GET'' [Lit ''approvals''] ''ListApprovals'',
     api ''POST'' [Lit ''apikeys''] ''CreateAPIKey'',
     api ''GET'' [Lit ''apikeys''] ''ListAPIKeys'',
     api ''DELETE'' [Lit ''apikeys'', Var] ''DeleteAPIKey'',
     api ''POST'' [Lit ''hosts''] ''CreateDockerHost'',
     api ''GET'' [Lit ''hosts''] ''ListDockerHosts'',
     api ''DELETE'' [Lit ''hosts'', Var] ''DeleteDockerHost'',
     stack_route ''POST'' [Lit ''secrets''] ''SetStackSecret'',
     stack_route ''GET'' [Lit ''secrets''] ''ListStackSecrets'',
     stack_route ''DELETE'' [Lit ''secrets'', Var] ''DeleteStackSecret'',
     stack_route ''POST'' [Lit ''registries''] ''SetStackRegistry'',
     stack_route ''GET'' [Lit ''registries''] ''ListStackRegistries'',
     stack_route ''DELETE'' [Lit ''registries'', Var] ''DeleteStackRegistry'',
     stack_route ''GET'' [Lit ''containers''] ''ListStackContainers'',
     stack_route ''GET'' [Lit ''containers'', Var] ''GetStackContainer'',
     stack_route ''GET'' [Lit ''containers'', Var, Lit ''logs''] ''GetStackContainerLogs'',
     stack_route ''GET'' [Lit ''containers'', Var, Lit ''logs'', Lit ''stream''] ''StreamStackContainerLogs'',
     stack_route ''GET'' [Lit ''containers'', Var, Lit ''stats''] ''GetStackContainerStats'',
     stack_route ''GET'' [Lit ''containers'', Var, Lit ''stats'', Lit ''stream''] ''StreamStackContainerStats'',
     stack_route ''POST'' [Lit ''containers'', Var, Lit ''restart''] ''RestartStackContainer'',
     stack_route ''GET'' [Lit ''containers'', Var, Lit ''exec''] ''ExecStackContainer'',
     stack_route ''GET'' [Lit ''events''] ''StreamStackEvents'',
     api ''GET'' [Lit ''images''] ''ListManagedImages'',
     api ''GET'' [Lit ''volumes''] ''ListManagedVolumes'',
     api ''GET'' [Lit ''volumes'', Var, Lit ''browse''] ''BrowseVolume'',
     api ''POST'' [Lit ''volumes'', Var, Lit ''files''] ''WriteVolumeFile'',
     api ''GET'' [Lit ''networks''] ''ListManagedNetworks'',
     api ''GET'' [Lit ''audit''] ''ListAuditEntries'',
     api ''POST'' [Lit ''admin'', Lit ''encrypt-existing''] ''EncryptExistingStacks'',
     api ''POST'' [Lit ''admin'', Lit ''backup''] ''AdminBackup'',
     api ''POST'' [Lit ''admin'', Lit ''restore''] ''AdminRestore'',
     api ''POST'' [Lit ''webhook''] ''LegacyWebhook'',
     root_route ''POST'' ''webhook'' ''LegacyWebhook'' (if webhookAuth then Webhook else ApiKey),
     root_route ''GET'' ''status'' ''Status'' ApiKey]"

text \<open>The paths of a pattern: each variable filled with a non-empty text without a slash.\<close>

fun instance_of :: "segment list \<Rightarrow> string \<Rightarrow> bool" where
  "instance_of [] p \<longleftrightarrow> p = []"
| "instance_of (Lit s # segs) p \<longleftrightarrow> (\<exists>rest. p = CHR ''/'' # s @ rest \<and> instance_of segs rest)"
| "instance_of (Var # segs) p \<longleftrightarrow>
     (\<exists>v rest. p = CHR ''/'' # v @ rest \<and> v \<noteq> [] \<and> CHR ''/'' \<notin> set v \<and> instance_of segs rest)"

text \<open>What a route's handler does, as the access it should need: the handlers that administer the server, the
  ones that change something (exec does, on a GET), and the ones that only read.\<close>

definition admin_handlers :: "string list" where
  "admin_handlers = [''CreateAPIKey'', ''ListAPIKeys'', ''DeleteAPIKey'', ''CreateDockerHost'', ''ListDockerHosts'',
     ''DeleteDockerHost'', ''EncryptExistingStacks'', ''AdminBackup'', ''AdminRestore'']"

definition route_access :: "route \<Rightarrow> access" where
  "route_access rt = (if rt_handler rt \<in> set admin_handlers then Administer
     else if rt_method rt = ''GET'' \<and> rt_handler rt \<noteq> ''ExecStackContainer'' then ReadOnly else Operate)"

lemma has_suffix_rev: "has_suffix s p \<longleftrightarrow> has_prefix (rev s) (rev p)"
  by (auto simp: has_suffix_iff has_prefix_iff) (metis rev_append rev_rev_ident)

lemma required_admin:
  "has_prefix p ''/api/v1/admin/'' \<or> has_prefix p ''/api/v1/apikeys'' \<or> has_prefix p ''/api/v1/hosts''
   \<Longrightarrow> access_of (RequiredRole m p) = Administer"
  by (auto simp: RequiredRole_def access_of_def role_defs)

lemma required_mutation:
  "m \<noteq> ''GET'' \<Longrightarrow> m \<noteq> ''HEAD'' \<Longrightarrow> Operate \<le> access_of (RequiredRole m p)"
  by (auto simp: RequiredRole_def access_of_def role_defs less_eq_access_def)

lemma required_exec: "has_suffix p ''/exec'' \<Longrightarrow> Operate \<le> access_of (RequiredRole m p)"
  by (auto simp: RequiredRole_def access_of_def role_defs less_eq_access_def)

lemma required_read: "ReadOnly \<le> access_of (RequiredRole m p)"
  using required_some[of m p] by (cases "access_of (RequiredRole m p)") (auto simp: less_eq_access_def)

lemmas route_defs = api_def root_route_def stack_route_def

definition admin_segs :: "segment list \<Rightarrow> bool" where
  "admin_segs segs \<longleftrightarrow> take 3 segs \<in> {[Lit ''api'', Lit ''v1'', Lit ''apikeys''], [Lit ''api'', Lit ''v1'', Lit ''hosts'']}
     \<or> (take 3 segs = [Lit ''api'', Lit ''v1'', Lit ''admin''] \<and> length segs > 3)"

lemma take3_segs: "take 3 segs = [a, b, c] \<Longrightarrow> \<exists>r. segs = a # b # c # r"
  by (cases segs; cases "tl segs"; cases "tl (tl segs)") auto

lemma instance_starts_slash: "segs \<noteq> [] \<Longrightarrow> instance_of segs p \<Longrightarrow> \<exists>r. p = CHR ''/'' # r"
  by (cases "(segs, p)" rule: instance_of.cases) auto

lemma admin_segs_required:
  assumes "admin_segs segs" "instance_of segs p"
  shows "access_of (RequiredRole m p) = Administer"
proof -
  consider (a) r where "segs = Lit ''api'' # Lit ''v1'' # Lit ''apikeys'' # r"
    | (h) r where "segs = Lit ''api'' # Lit ''v1'' # Lit ''hosts'' # r"
    | (m) r where "segs = Lit ''api'' # Lit ''v1'' # Lit ''admin'' # r" "r \<noteq> []"
    using assms(1) by (auto simp: admin_segs_def dest!: take3_segs)
  then show ?thesis
  proof cases
    case m
    obtain q where "p = ''/api/v1/admin'' @ q" "instance_of r q" using assms(2) m by auto
    moreover from this obtain q' where "q = CHR ''/'' # q'" using m instance_starts_slash by blast
    ultimately show ?thesis by (intro required_admin) simp
  qed (use assms(2) in \<open>auto intro!: required_admin\<close>)
qed

lemma exec_segs_required:
  "instance_of (segs @ [Lit ''exec'']) p \<Longrightarrow> has_suffix p ''/exec''"
proof (induction segs p rule: instance_of.induct)
  case (2 s segs p)
  then obtain rest where "p = CHR ''/'' # s @ rest" "has_suffix rest ''/exec''" by auto
  then show ?case by (auto simp: has_suffix_iff intro: exI[of _ "CHR ''/'' # s @ _"])
next
  case (3 segs p)
  then obtain v rest where "p = CHR ''/'' # v @ rest" "has_suffix rest ''/exec''" by auto
  then show ?case by (auto simp: has_suffix_iff intro: exI[of _ "CHR ''/'' # v @ _"])
qed (simp add: has_suffix_iff)

text \<open>What the table has to satisfy for the policy by prefixes to give each route its access.\<close>

definition route_ok :: "route \<Rightarrow> bool" where
  "route_ok rt \<longleftrightarrow> (case route_access rt of
      Administer \<Rightarrow> admin_segs (rt_pattern rt)
    | Operate \<Rightarrow> rt_method rt \<notin> {''GET'', ''HEAD''} \<or> (rt_pattern rt \<noteq> [] \<and> last (rt_pattern rt) = Lit ''exec'')
    | _ \<Rightarrow> True)"

lemma route_ok_access:
  assumes "route_ok rt" "instance_of (rt_pattern rt) p"
  shows "route_access rt \<le> access_of (RequiredRole (rt_method rt) p)"
proof (cases "route_access rt")
  case Administer
  then show ?thesis using assms admin_segs_required by (simp add: route_ok_def)
next
  case Operate
  with assms(1) consider "rt_method rt \<notin> {''GET'', ''HEAD''}"
    | "rt_pattern rt = butlast (rt_pattern rt) @ [Lit ''exec'']"
    by (auto simp: route_ok_def) (metis append_butlast_last_id)
  then show ?thesis
  proof cases
    case 2
    with assms(2) have "has_suffix p ''/exec''" using exec_segs_required by metis
    then show ?thesis by (simp add: Operate required_exec)
  qed (simp add: Operate required_mutation)
next
  case ReadOnly
  then show ?thesis by (simp add: required_read)
qed (simp add: less_eq_access_def)

lemma routes_ok: "\<forall>rt \<in> set (RegisterRoutes wa). route_ok rt"
  by (cases wa) (simp_all add: RegisterRoutes_def route_defs route_ok_def route_access_def admin_handlers_def
      admin_segs_def)

text \<open>C16. Every registered route requires at least the access its handler needs, on every path that is an instance
  of its pattern: the API keys, the Docker hosts and the /admin endpoints need the admin role, every handler that
  changes something, container exec on a GET included, needs the operator role, and every other route the viewer
  role. The policy is by prefixes and methods, and no route falls through it.\<close>

theorem routes_require_enough:
  assumes "rt \<in> set (RegisterRoutes webhookAuth)" "instance_of (rt_pattern rt) path"
  shows "route_access rt \<le> access_of (RequiredRole (rt_method rt) path)"
  using assms routes_ok route_ok_access by blast

lemma routes_require_enough_witness:
  "Administer \<le> access_of (RequiredRole ''POST'' ''/api/v1/admin/backup'')"
  using routes_require_enough[of "api ''POST'' [Lit ''admin'', Lit ''backup''] ''AdminBackup''" False
      "''/api/v1/admin/backup''"]
  by (simp add: RegisterRoutes_def route_defs route_access_def admin_handlers_def)

text \<open>Only the three probes and, when a webhook secret is set, POST /webhook are outside the API-key chain.\<close>

lemma unauthenticated_routes:
  "List.map rt_handler (filter (\<lambda>rt. rt_chain rt \<noteq> ApiKey) (RegisterRoutes wa))
   = [''Health'', ''Health'', ''Readyz''] @ (if wa then [''LegacyWebhook''] else [])"
  by (simp add: RegisterRoutes_def route_defs)

end
