(* ===== verification/Audit_Log.thy ===== *)
theory Audit_Log
  imports Frames Rbac
begin

text \<open>
  The audit log and the notifications: internal/audit/audit.go, internal/notify/notify.go and recorder.go, and the
  configuration test and the message of email.go. A recorder is a chain of wrappers around the store; recording an
  entry is one call of the store and, for the operations that are notified, one message per sink. The delivery of a
  message runs in the background and is the event itself. The texts are UTF-8 bytes.
\<close>

section \<open>Entries\<close>

definition AuditOpDeployStart :: string where "AuditOpDeployStart = ''deploy.start''"
definition AuditOpDeployComplete :: string where "AuditOpDeployComplete = ''deploy.complete''"
definition AuditOpDeployFailed :: string where "AuditOpDeployFailed = ''deploy.failed''"
definition AuditOpDeployRolledBack :: string where "AuditOpDeployRolledBack = ''deploy.rolled_back''"
definition AuditOpDriftDetected :: string where "AuditOpDriftDetected = ''drift.detected''"
definition AuditOpDriftAutoDeployed :: string where "AuditOpDriftAutoDeployed = ''drift.auto_deployed''"
definition AuditOpCircuitBreakerOpen :: string where "AuditOpCircuitBreakerOpen = ''stack.circuit_breaker.opened''"
definition AuditOpApprovalRequested :: string where "AuditOpApprovalRequested = ''approval.requested''"
definition AuditOpApprovalGranted :: string where "AuditOpApprovalGranted = ''approval.granted''"
definition AuditOpApprovalRejected :: string where "AuditOpApprovalRejected = ''approval.rejected''"
definition AuditOpApprovalTimedOut :: string where "AuditOpApprovalTimedOut = ''approval.timed_out''"

definition empty_entry :: audit_entry where
  "empty_entry = \<lparr>ae_id = [], ae_timestamp = 0, ae_actor = [], ae_remote = [], ae_request = [], ae_operation = [],
     ae_resource_type = [], ae_resource = [], ae_stack = [], ae_stack_name = [], ae_outcome = [], ae_error = [],
     ae_metadata = []\<rparr>"

definition FromSystem :: "string \<Rightarrow> string \<Rightarrow> audit_entry" where
  "FromSystem component op = empty_entry\<lparr>ae_operation := op, ae_actor := ''system:'' @ component, ae_outcome := AuditOutcomeSuccess\<rparr>"

text \<open>What FromRequest reads of a request: the identity of the authentication middleware, the request id of the request
  id middleware, two headers and the peer's address.\<close>

record request_origin =
  ro_identity :: "identity option"
  ro_request_id :: "string option"
  ro_api_key :: string
  ro_forwarded :: string
  ro_peer :: string

definition ActorFromRequest :: "request_origin \<Rightarrow> string" where
  "ActorFromRequest r =
     (case ro_identity r of
        Some i \<Rightarrow> if id_name i \<noteq> [] then id_name i else if ro_api_key r \<noteq> [] then ''api-key'' else ''anonymous''
      | None \<Rightarrow> if ro_api_key r \<noteq> [] then ''api-key'' else ''anonymous'')"

definition remoteAddr :: "request_origin \<Rightarrow> string" where
  "remoteAddr r = (if ro_forwarded r \<noteq> [] then ro_forwarded r else ro_peer r)"

definition requestIDFromContext :: "request_origin \<Rightarrow> string" where
  "requestIDFromContext r = (case ro_request_id r of Some i \<Rightarrow> i | None \<Rightarrow> [])"

definition FromRequest :: "request_origin \<Rightarrow> string \<Rightarrow> audit_entry" where
  "FromRequest r op =
     (let entry = empty_entry\<lparr>ae_operation := op, ae_actor := ActorFromRequest r, ae_outcome := AuditOutcomeSuccess\<rparr>;
          entry = (if remoteAddr r \<noteq> [] then entry\<lparr>ae_remote := remoteAddr r\<rparr> else entry)
      in if requestIDFromContext r \<noteq> [] then entry\<lparr>ae_request := requestIDFromContext r\<rparr> else entry)"

section \<open>Notifications\<close>

record email_config =
  em_host :: string
  em_port :: int
  em_username :: string
  em_password :: string
  em_from :: string
  em_to :: "string list"

definition email_enabled :: "email_config \<Rightarrow> bool" where
  "email_enabled c \<longleftrightarrow> em_host c \<noteq> [] \<and> em_from c \<noteq> [] \<and> length (em_to c) > 0"

record notify_config =
  WebhookURL :: string
  SlackURL :: string
  DiscordURL :: string
  TeamsURL :: string
  Email :: "email_config option"

text \<open>notify.New: the sinks by the names their Name methods give.\<close>

definition notify_sinks :: "notify_config \<Rightarrow> string list" where
  "notify_sinks cfg =
     (if WebhookURL cfg \<noteq> [] then [''webhook''] else []) @
     (if SlackURL cfg \<noteq> [] then [''slack''] else []) @
     (if DiscordURL cfg \<noteq> [] then [''discord''] else []) @
     (if TeamsURL cfg \<noteq> [] then [''teams''] else []) @
     (case Email cfg of Some c \<Rightarrow> if email_enabled c then [''email''] else [] | None \<Rightarrow> [])"

record notification =
  ev_type :: string
  ev_stack :: string
  ev_outcome :: string
  ev_message :: string
  ev_fields :: "(string \<times> string) list"
  ev_time :: gotime

definition notify_enabled :: "string list \<Rightarrow> bool" where
  "notify_enabled sinks \<longleftrightarrow> length sinks > 0"

text \<open>The body each sink sends: a JSON object of strings, and for the webhook the event itself.\<close>

datatype payload = PayloadEvent notification | PayloadObject "(string \<times> string) list" | PayloadMail string

definition em_dash :: string where "em_dash = [CHR 0xE2, CHR 0x80, CHR 0x94]"
definition crlf :: string where "crlf = [CHR 0x0D, CHR 0x0A]"

definition buildEmail :: "email_config \<Rightarrow> notification \<Rightarrow> string \<Rightarrow> string" where
  "buildEmail cfg e date =
     (let subject = ''[Accelero] '' @ ev_type e @ (if ev_stack e \<noteq> [] then '' '' @ em_dash @ '' '' @ ev_stack e else [])
      in ''From: '' @ em_from cfg @ crlf @ ''To: '' @ join_with '', '' (em_to cfg) @ crlf @ ''Subject: '' @ subject @ crlf
         @ ''Date: '' @ date @ crlf @ ''MIME-Version: 1.0'' @ crlf @ ''Content-Type: text/plain; charset=utf-8'' @ crlf
         @ crlf @ ev_message e @ crlf)"

definition sink_payload :: "email_config \<Rightarrow> string \<Rightarrow> string \<Rightarrow> notification \<Rightarrow> payload" where
  "sink_payload mail date sink e =
     (if sink = ''slack'' then PayloadObject [(''text'', ev_message e)]
      else if sink = ''discord'' then PayloadObject [(''content'', ev_message e)]
      else if sink = ''teams'' then PayloadObject [(''@type'', ''MessageCard''), (''@context'', ''https://schema.org/extensions''),
             (''summary'', ''Accelero notification''), (''text'', ev_message e)]
      else if sink = ''email'' then PayloadMail (buildEmail mail e date)
      else PayloadEvent e)"

fun Notify_sinks :: "outside \<Rightarrow> notification \<Rightarrow> string list \<Rightarrow> unit act" where
  "Notify_sinks \<Omega> e [] = State_Monad.return ()"
| "Notify_sinks \<Omega> e (s # ss) = do {
     _ \<leftarrow> emit (\<lambda>_. ()) (\<lambda>_. ENotify s (ev_type e) (ev_stack e) (ev_message e));
     Notify_sinks \<Omega> e ss }"

definition Notify :: "outside \<Rightarrow> string list \<Rightarrow> notification \<Rightarrow> unit act" where
  "Notify \<Omega> sinks e =
     (if sinks = [] then State_Monad.return ()
      else if ev_time e = 0 then do { t \<leftarrow> now \<Omega>; Notify_sinks \<Omega> (e\<lparr>ev_time := t\<rparr>) sinks }
      else Notify_sinks \<Omega> e sinks)"

text \<open>The pictures the messages start with.\<close>

definition emoji :: "nat list \<Rightarrow> string" where "emoji bs = List.map char_of bs @ '' ''"

definition audit_message :: "audit_entry \<Rightarrow> string option" where
  "audit_message e =
     (let stack = [CHR 0x60] @ (if ae_stack_name e = [] then ae_stack e else ae_stack_name e) @ [CHR 0x60];
          op = ae_operation e;
          meta = (\<lambda>k. case map_of (ae_metadata e) k of Some v \<Rightarrow> v | None \<Rightarrow> [])
      in if op = AuditOpDeployStart then Some (emoji [240, 159, 154, 128] @ ''Deploy started for stack '' @ stack)
         else if op = AuditOpDeployComplete then
           Some (emoji [226, 156, 133] @ ''Deploy completed for stack '' @ stack
                 @ (if meta ''changes'' \<noteq> [] then '' ('' @ meta ''changes'' @ '' change(s))'' else []))
         else if op = AuditOpDeployFailed then
           Some (emoji [226, 157, 140] @ ''Deploy failed for stack '' @ stack @ (if ae_error e \<noteq> [] then '': '' @ ae_error e else []))
         else if op = AuditOpDeployRolledBack then
           Some (emoji [226, 134, 169, 239, 184, 143] @ ''Deploy rolled back for stack '' @ stack)
         else if op = AuditOpDriftDetected then
           Some (emoji [226, 154, 160, 239, 184, 143] @ ''Drift detected on stack '' @ stack
                 @ (if meta ''drift_count'' \<noteq> [] then '' ('' @ meta ''drift_count'' @ '' item(s))'' else []))
         else if op = AuditOpDriftAutoDeployed then
           Some (emoji [240, 159, 148, 132] @ ''Auto-deploying stack '' @ stack @ '' to resolve drift'')
         else if op = AuditOpApprovalRequested then
           Some (emoji [240, 159, 148, 148] @ ''Deploy of stack '' @ stack @ '' is awaiting approval'')
         else if op = AuditOpApprovalGranted then
           Some (emoji [240, 159, 145, 141] @ ''Deploy of stack '' @ stack @ '' was approved'')
         else if op = AuditOpApprovalRejected then
           Some (emoji [240, 159, 154, 171] @ ''Deploy of stack '' @ stack @ '' was rejected'')
         else if op = AuditOpApprovalTimedOut then
           Some (emoji [226, 143, 176] @ ''Approval for stack '' @ stack @ '' timed out'')
         else None)"

definition eventFromAudit :: "audit_entry \<Rightarrow> notification option" where
  "eventFromAudit e = map_option (\<lambda>msg. \<lparr>ev_type = ae_operation e, ev_stack = ae_stack_name e, ev_outcome = ae_outcome e,
     ev_message = msg, ev_fields = ae_metadata e, ev_time = 0\<rparr>) (audit_message e)"

section \<open>Recorders\<close>

datatype recorder = NoopRecorder | StoreRecorder | NotifyingRecorder recorder "string list"

definition WrapRecorder :: "recorder \<Rightarrow> string list \<Rightarrow> recorder" where
  "WrapRecorder base sinks = (if \<not> notify_enabled sinks then base else NotifyingRecorder base sinks)"

definition store_record :: "outside \<Rightarrow> audit_entry \<Rightarrow> unit res act" where
  "store_record \<Omega> e0 =
     try_with id (if ae_id e0 = [] then try_with id (generateID \<Omega>) (\<lambda>i. ok (e0\<lparr>ae_id := i\<rparr>)) else ok e0) (\<lambda>e. do {
       e \<leftarrow> (if ae_timestamp e = 0 then do { t \<leftarrow> now \<Omega>; State_Monad.return (e\<lparr>ae_timestamp := t\<rparr>) }
             else State_Monad.return e);
       store_call \<Omega> ''CreateAuditEntry'' (writing (CreateAuditEntry e)) })"

fun Record :: "outside \<Rightarrow> recorder \<Rightarrow> audit_entry \<Rightarrow> unit res act" where
  "Record \<Omega> NoopRecorder e = ok ()"
| "Record \<Omega> StoreRecorder e = store_record \<Omega> e"
| "Record \<Omega> (NotifyingRecorder base sinks) e = do {
     err \<leftarrow> Record \<Omega> base e;
     (case eventFromAudit e of
        None \<Rightarrow> State_Monad.return err
      | Some ev \<Rightarrow> do { _ \<leftarrow> Notify \<Omega> sinks ev; State_Monad.return err }) }"

text \<open>recordAudit of the deployer, the reconciler and the handlers: no recorder is no audit, and an error is dropped.\<close>

definition recordAudit :: "outside \<Rightarrow> recorder option \<Rightarrow> audit_entry \<Rightarrow> unit act" where
  "recordAudit \<Omega> r e = (case r of None \<Rightarrow> State_Monad.return ()
     | Some rec \<Rightarrow> do { _ \<leftarrow> Record \<Omega> rec e; State_Monad.return () })"

section \<open>What recording keeps\<close>

text \<open>The events of the program's own records: random numbers, the clock, the database and notifications.\<close>

fun bookkeeping :: "event \<Rightarrow> bool" where
  "bookkeeping (ENewID _) = True"
| "bookkeeping (ENow _) = True"
| "bookkeeping (ENonce _) = True"
| "bookkeeping (EStore _ _) = True"
| "bookkeeping (ENotify _ _ _ _) = True"
| "bookkeeping _ = False"

lemma bookkeeping_quiet: "bookkeeping e \<Longrightarrow> quiet e"
  by (cases e) simp_all

lemma tolerates_bookkeeping: "tolerates quiet I \<Longrightarrow> tolerates bookkeeping I"
  by (erule tolerates_mono) (rule bookkeeping_quiet)

text \<open>A property that tolerates them and new rows of the audit table is kept by recording.\<close>

definition audit_free :: "(world \<Rightarrow> bool) \<Rightarrow> bool" where
  "audit_free I \<longleftrightarrow> tolerates bookkeeping I \<and> (\<forall>w e. I w \<longrightarrow> I (w\<lparr>w_db := snd (CreateAuditEntry e (w_db w))\<rparr>))"

lemma CreateAuditEntry_rows: "\<exists>rows. snd (CreateAuditEntry e d) = d\<lparr>t_audit := rows\<rparr>"
  by (cases "\<exists>r \<in> set (t_audit d). ae_id r = ae_id e") (auto simp: CreateAuditEntry_def intro: exI[of _ "t_audit d"])

lemma audit_freeI:
  assumes "tolerates bookkeeping I" "\<And>w rows. I w \<Longrightarrow> I (w\<lparr>w_db := (w_db w)\<lparr>t_audit := rows\<rparr>\<rparr>)"
  shows "audit_free I"
  unfolding audit_free_def using assms CreateAuditEntry_rows by metis

lemma audit_columns [simp]:
  "t_deployments (snd (CreateAuditEntry e d)) = t_deployments d" "t_secrets (snd (CreateAuditEntry e d)) = t_secrets d"
  "cipher (snd (CreateAuditEntry e d)) = cipher d"
  by (simp_all add: CreateAuditEntry_def)

lemma audit_freeD: "audit_free I \<Longrightarrow> tolerates bookkeeping I"
  by (simp add: audit_free_def)

lemma bookkeeping_ops:
  assumes "tolerates bookkeeping I"
  shows "keeps I (generateID \<Omega>)" "keeps I (now \<Omega>)" "keeps I (store_call \<Omega> op (reading f))"
    "keeps I (emit ans ENonce)"
proof -
  show "keeps I (store_call \<Omega> op (reading f))"
    by (rule keeps_store_call) (use assms in \<open>auto simp: tolerates_def reading_def\<close>)
qed (simp_all add: generateID_def now_def tolerates_emit[OF assms])

lemma create_audit_frame: "audit_free I \<Longrightarrow> keeps I (store_call \<Omega> op (writing (CreateAuditEntry e)))"
proof (rule keeps_store_call)
  assume a: "audit_free I"
  show "I (w\<lparr>w_log := w_log w @ [EStore op f]\<rparr>)" if "I w" for w f
    using a that by (simp add: audit_free_def tolerates_def)
  show "I (w\<lparr>w_db := snd (writing (CreateAuditEntry e) (w_db w))\<rparr>)" if "I w" for w
    using a that by (simp add: audit_free_def writing_def case_prod_beta split: option.split)
qed

lemma Notify_sinks_frame: "tolerates bookkeeping I \<Longrightarrow> keeps I (Notify_sinks \<Omega> e ss)"
  by (induction ss) (simp_all add: keep tolerates_emit)

lemma Notify_frame: "tolerates bookkeeping I \<Longrightarrow> keeps I (Notify \<Omega> ss e)"
  by (simp add: Notify_def keep Notify_sinks_frame bookkeeping_ops)

lemma Record_frame: "audit_free I \<Longrightarrow> keeps I (Record \<Omega> rec e)"
proof (induction rec)
  case StoreRecorder
  note q = bookkeeping_ops[OF audit_freeD[OF StoreRecorder]]
  show ?case by (simp add: store_record_def keep q create_audit_frame[OF StoreRecorder])
next
  case (NotifyingRecorder rec sinks)
  then show ?case by (simp add: keep Notify_frame[OF audit_freeD] split: option.split)
qed (simp add: keep)

lemma recordAudit_frame [keep]: "audit_free I \<Longrightarrow> keeps I (recordAudit \<Omega> r e)"
  by (simp add: recordAudit_def Record_frame keep split: option.split)

end
