(* ===== verification/Deployment.thy ===== *)
theory Deployment
  imports Audit_Log Rollout Dotenv Interpolate
begin

text \<open>
  A deployment from trigger to end: internal/stack/deployer.go above the rollout of one service (Deploy, the approval
  gate, runDeployment, executeDeploy, cloneRepo, ensureVolumes, syncContainerTracking), with
  internal/network/network.go. The record deployer is the struct Deployer: its Docker client is an outside, and so are
  the clients of the registered hosts. The YAML parser, SHA-256, the order in which a Go map is iterated and the
  formatting of durations are fields of it too. The pointers to the stack and the deployment that the code updates on
  the way are passed and returned; the database changes only where the code calls the store. The service mutexes and
  the goroutines that call these functions are not modelled: a run is sequential.
\<close>

section \<open>The deployer\<close>

record compose_network =
  cn_driver :: string
  cn_driver_opts :: "(string \<times> string) list"

record compose_file =
  cf_services :: services
  cf_networks :: "(string \<times> compose_network) list" \<comment> \<open>in the order of the map iteration\<close>
  cf_volumes :: "(string \<times> compose_volume) list"

record deployer =
  d_cli :: outside
  d_hosts :: "(log \<Rightarrow> string \<Rightarrow> outside res) option"
  d_stacks_dir :: string
  d_cwd :: string
  d_audit :: "recorder option"
  d_policy :: retry_policy
  d_parsers :: parsers
  d_unicode :: unicode
  d_yaml :: "string \<Rightarrow> compose_file res"
  d_sha256 :: "string \<Rightarrow> string"
  d_order :: "nat \<Rightarrow> string list \<Rightarrow> string list"
  d_seconds :: "int \<Rightarrow> string" \<comment> \<open>%.3f of a duration in seconds\<close>
  d_duration :: "int \<Rightarrow> string" \<comment> \<open>Duration.String\<close>

definition forHost :: "deployer \<Rightarrow> string \<Rightarrow> deployer res act" where
  "forHost D hostID =
     (if hostID = [] then ok D
      else case d_hosts D of
        None \<Rightarrow> ok D
      | Some clientFor \<Rightarrow>
          try_with (ErrWrap (''resolve docker host '' @ hostID @ '': ''))
            (emit (\<lambda>l. clientFor l hostID) (\<lambda>r. EHost hostID (res_err r))) (\<lambda>cli. ok (D\<lparr>d_cli := cli\<rparr>)))"

text \<open>UpdateStack writes the time it sets back into the caller's struct.\<close>

definition save_stack :: "deployer \<Rightarrow> stack \<Rightarrow> (unit res \<times> stack) act" where
  "save_stack D st = do {
     t \<leftarrow> now (d_cli D);
     n1 \<leftarrow> emit (o_nonce (d_cli D)) ENonce;
     n2 \<leftarrow> emit (o_nonce (d_cli D)) ENonce;
     r \<leftarrow> store_call (d_cli D) ''UpdateStack'' (writing (UpdateStack t n1 n2 st));
     State_Monad.return (r, st\<lparr>st_updated := t\<rparr>) }"

definition save_deployment :: "deployer \<Rightarrow> deployment \<Rightarrow> unit res act" where
  "save_deployment D p = store_call (d_cli D) ''UpdateDeployment'' (writing (\<lambda>d. (None, UpdateDeployment p d)))"

section \<open>Git\<close>

definition clone_opts_of :: "string \<Rightarrow> stack \<Rightarrow> clone_opts" where
  "clone_opts_of dir st = \<lparr>co_dir = dir, co_url = RepoURL st,
     co_ref = (if RepoBranch st \<noteq> [] then Some (''refs/heads/'' @ RepoBranch st) else None),
     co_user = RepoUsername st, co_token = RepoToken st\<rparr>"

definition RemoveAll :: "outside \<Rightarrow> string \<Rightarrow> unit res act" where
  "RemoveAll \<Omega> dir = emit (\<lambda>l. o_remove_all \<Omega> l dir) (ERemoveAll dir)"

definition MkdirAll :: "outside \<Rightarrow> string \<Rightarrow> unit res act" where
  "MkdirAll \<Omega> dir = emit (\<lambda>l. o_mkdir \<Omega> l dir) (EMkdir dir)"

definition PlainClone :: "outside \<Rightarrow> clone_opts \<Rightarrow> unit res act" where
  "PlainClone \<Omega> co = emit (\<lambda>l. o_clone \<Omega> l co) (EClone co)"

definition clone_attempt :: "outside \<Rightarrow> string \<Rightarrow> stack \<Rightarrow> unit res act" where
  "clone_attempt \<Omega> dir st =
     try_with (\<lambda>e. ErrPermanent (ErrWrap (''clear previous clone at '' @ dir @ '': '') e)) (RemoveAll \<Omega> dir) (\<lambda>_. do {
       r \<leftarrow> PlainClone \<Omega> (clone_opts_of dir st);
       case r of
         Inl e \<Rightarrow> if IsPermanentCloneError e then fail (ErrPermanent e) else fail e
       | Inr _ \<Rightarrow> ok () })"

definition cloneRepo :: "deployer \<Rightarrow> stack \<Rightarrow> (string \<times> string) res act" where
  "cloneRepo D st =
     (if RepoURL st = [] then fail (ErrText ''repo_url is empty'')
      else if d_stacks_dir D = [] then fail (ErrText ''stacks data dir is not configured'')
      else let \<Omega> = d_cli D; dir = stackRepoDir (d_stacks_dir D) (st_id st) in
        try_with (ErrWrap ''create stacks data dir: '') (MkdirAll \<Omega> (Dir dir)) (\<lambda>_. do {
          r \<leftarrow> retry_step \<Omega> (d_policy D) (clone_attempt \<Omega> dir st);
          case r of
            Inl e \<Rightarrow> do { _ \<leftarrow> RemoveAll \<Omega> dir; fail e }
          | Inr _ \<Rightarrow> do {
              h \<leftarrow> emit (o_head \<Omega>) EHead;
              case h of
                Inl e \<Rightarrow> do { _ \<leftarrow> RemoveAll \<Omega> dir; fail (ErrWrap ''failed to read HEAD: '' e) }
              | Inr commit \<Rightarrow> ok (dir, commit) } }))"

text \<open>readComposeFile on the files of the moment.\<close>

definition read_compose :: "deployer \<Rightarrow> string \<Rightarrow> string \<Rightarrow> compose_file res act" where
  "read_compose D repoDir path =
     emit (\<lambda>l. readComposeFile (d_cwd D) (o_read (d_cli D) l) (LoadDotEnv (d_unicode D) (o_read (d_cli D) l))
             (\<lambda>data vars. Expand data (case vars of None \<Rightarrow> Map.empty | Some m \<Rightarrow> m)) (d_yaml D)
             (\<lambda>cf. length (cf_services cf)) repoDir path)
          (\<lambda>r. EReadCompose repoDir (res_err r))"

section \<open>Networks and volumes\<close>

definition CreateNetworkForStack :: "outside \<Rightarrow> string \<Rightarrow> string \<Rightarrow> compose_network \<Rightarrow> unit res act" where
  "CreateNetworkForStack \<Omega> stackName name cfg =
     try_with (ErrWrap ''failed to list networks: '') (emit (o_net_list \<Omega>) ENetList) (\<lambda>existing.
       if name \<in> set existing then ok ()
       else let labels = [(''managed-by'', ''accelero''), (''accelero-stack'', stackName)] in
         try_with (ErrWrap (''failed to create network '' @ name @ '': ''))
           (emit (\<lambda>l. o_net_create \<Omega> l name (cn_driver cfg) (cn_driver_opts cfg) labels)
                 (ENetCreate name (cn_driver cfg) (cn_driver_opts cfg) labels)) ok)"

fun create_networks :: "deployer \<Rightarrow> stack \<Rightarrow> (string \<times> compose_network) list \<Rightarrow> unit res act" where
  "create_networks D st [] = ok ()"
| "create_networks D st ((netName, cfg) # nets) =
     try_with (ErrWrap (''failed to create network '' @ netName @ '': ''))
       (retry_step (d_cli D) (d_policy D) (CreateNetworkForStack (d_cli D) (st_name st) netName cfg))
       (\<lambda>_. create_networks D st nets)"

definition verifyExternalVolume :: "outside \<Rightarrow> string \<Rightarrow> unit res act" where
  "verifyExternalVolume \<Omega> name = do {
     r \<leftarrow> emit (\<lambda>l. o_vol_inspect \<Omega> l name) (EVolInspect name);
     case r of
       Inr _ \<Rightarrow> ok ()
     | Inl e \<Rightarrow> if docker_class_of e = Some NotFound
                then fail (ErrText ''external volume does not exist on the host'') else fail e }"

fun ensure_volumes_loop :: "outside \<Rightarrow> stack \<Rightarrow> (string \<times> compose_volume) list \<Rightarrow> string list \<Rightarrow> (string \<times> string) list
    \<Rightarrow> (string \<times> string) list res act" where
  "ensure_volumes_loop \<Omega> st volumes [] out = ok out"
| "ensure_volumes_loop \<Omega> st volumes (logical # names) out =
     (case map_of volumes logical of
        None \<Rightarrow> ensure_volumes_loop \<Omega> st volumes names out
      | Some cfg \<Rightarrow>
        let actual = resolveVolumeName (st_name st) logical cfg; out' = out @ [(logical, actual)] in
        if External cfg then
          try_with (ErrWrap (''external volume '' @ quoted actual @ '': '')) (verifyExternalVolume \<Omega> actual)
            (\<lambda>_. ensure_volumes_loop \<Omega> st volumes names out')
        else
          let labels = with_labels [(''managed-by'', ''accelero''), (''accelero-stack'', st_name st)] (cv_labels cfg) in
          try_with (ErrWrap (''create volume '' @ quoted actual @ '': ''))
            (emit (\<lambda>l. o_vol_create \<Omega> l actual (cv_driver cfg) (cv_driver_opts cfg) labels)
                  (EVolCreate actual (cv_driver cfg) (cv_driver_opts cfg) labels))
            (\<lambda>_. ensure_volumes_loop \<Omega> st volumes names out'))"

definition ensureVolumes :: "outside \<Rightarrow> stack \<Rightarrow> (string \<times> compose_volume) list \<Rightarrow> (string \<times> string) list res act" where
  "ensureVolumes \<Omega> st volumes =
     (if volumes = [] then ok [] else ensure_volumes_loop \<Omega> st volumes (sort (List.map fst volumes)) [])"

section \<open>The pipeline\<close>

fun capture_all :: "outside \<Rightarrow> string list \<Rightarrow> (string \<times> service_state option) list \<Rightarrow> (string \<times> service_state option) list act" where
  "capture_all \<Omega> [] states = State_Monad.return states"
| "capture_all \<Omega> (svcName # names) states = do {
     r \<leftarrow> captureServiceState \<Omega> svcName;
     capture_all \<Omega> names (states @ [(svcName, case r of Inl _ \<Rightarrow> None | Inr s \<Rightarrow> Some s)]) }"

text \<open>How the loop over the services ends: with the changes, with an error before a service, or rolled back.\<close>

datatype loop_end = AllDeployed "string list" | Aborted gerr | RolledBackEnd gerr

fun deploy_services :: "deployer \<Rightarrow> stack \<Rightarrow> string \<Rightarrow> services \<Rightarrow> (string \<times> string) list \<Rightarrow> (string \<times> service_state option) list
    \<Rightarrow> stack_secret list \<Rightarrow> bool \<Rightarrow> string list \<Rightarrow> string list \<Rightarrow> string list \<Rightarrow> loop_end act" where
  "deploy_services D st repoDir svcs volumeNameMap states secrets changed [] deployed changes =
     State_Monad.return (AllDeployed changes)"
| "deploy_services D st repoDir svcs volumeNameMap states secrets changed (svcName # names) deployed changes =
     (case map_of svcs svcName of
        None \<Rightarrow> deploy_services D st repoDir svcs volumeNameMap states secrets changed names deployed changes
      | Some svc0 \<Rightarrow>
        (case rewriteBindMountPaths (d_cwd D) (cs_volumes svc0) repoDir of
           Inl e \<Rightarrow> State_Monad.return (Aborted (ErrWrap (''service '' @ svcName @ '': '') e))
         | Inr rewritten \<Rightarrow>
           let svc = svc0\<lparr>cs_volumes := rewriteVolumeRefs rewritten volumeNameMap\<rparr> in do {
             r \<leftarrow> deployService (d_cli D) (d_parsers D) (d_policy D) st svcName repoDir svc secrets changed;
             case r of
               Inl e \<Rightarrow> do {
                 _ \<leftarrow> rollbackServices (d_cli D) deployed states;
                 State_Monad.return (RolledBackEnd (ErrWrap (''deploy of service '' @ svcName @ '' failed: '') e)) }
             | Inr _ \<Rightarrow> deploy_services D st repoDir svcs volumeNameMap states secrets changed names
                          (deployed @ [svcName]) (changes @ [svcName @ '' -> '' @ cs_image svc]) }))"

fun track_containers :: "outside \<Rightarrow> stack \<Rightarrow> string \<Rightarrow> container_summary list \<Rightarrow> unit act" where
  "track_containers \<Omega> st svcName [] = State_Monad.return ()"
| "track_containers \<Omega> st svcName (c # cs) = do {
     r \<leftarrow> generateID \<Omega>;
     case r of
       Inl _ \<Rightarrow> track_containers \<Omega> st svcName cs
     | Inr trackID \<Rightarrow> do {
         t \<leftarrow> now \<Omega>;
         _ \<leftarrow> store_call \<Omega> ''TrackContainer'' (writing (\<lambda>d. (None, TrackContainer \<lparr>mc_id = trackID, mc_stack = st_id st,
                mc_service = svcName, mc_container = sm_id c, mc_name = safeName (sm_names c), mc_image = sm_image c,
                mc_status = sm_state c, mc_created = t\<rparr> d)));
         track_containers \<Omega> st svcName cs } }"

fun track_services :: "outside \<Rightarrow> stack \<Rightarrow> string list \<Rightarrow> unit act" where
  "track_services \<Omega> st [] = State_Monad.return ()"
| "track_services \<Omega> st (svcName # names) = do {
     r \<leftarrow> getServiceContainers \<Omega> svcName;
     _ \<leftarrow> (case r of Inl _ \<Rightarrow> State_Monad.return () | Inr cs \<Rightarrow> track_containers \<Omega> st svcName cs);
     track_services \<Omega> st names }"

definition syncContainerTracking :: "outside \<Rightarrow> stack \<Rightarrow> string list \<Rightarrow> unit res act" where
  "syncContainerTracking \<Omega> st names =
     try_with (ErrWrap ''failed to clear old container records: '')
       (store_call \<Omega> ''RemoveContainersByStack'' (writing (\<lambda>d. (None, RemoveContainersByStack (st_id st) d))))
       (\<lambda>_. do { _ \<leftarrow> track_services \<Omega> st names; ok () })"

text \<open>executeDeploy from its second step on; the flag of an error says whether services were rolled back.\<close>

definition deploy_compose :: "deployer \<Rightarrow> stack \<Rightarrow> string \<Rightarrow> stack_secret list \<Rightarrow> bool \<Rightarrow> loop_end res act" where
  "deploy_compose D st repoDir secrets changed =
     try_with (ErrWrap ''compose file error: '') (read_compose D repoDir (ComposePath st)) (\<lambda>cf.
     let svcs = cf_services cf; targets = resolveServiceFilter (d_order D 0) (ServiceFilter st) svcs in
     if targets = [] then fail (ErrText ''no services to deploy'')
     else case topologicalSort (d_order D 1) (d_order D 2) targets svcs of
       Inl e \<Rightarrow> fail (ErrWrap ''dependency resolution failed: '' e)
     | Inr ordered \<Rightarrow> do {
         states \<leftarrow> capture_all (d_cli D) ordered [];
         try_with id (create_networks D st (cf_networks cf)) (\<lambda>_.
         try_with (ErrWrap ''volume setup failed: '') (ensureVolumes (d_cli D) st (cf_volumes cf)) (\<lambda>volumeNameMap. do {
           out \<leftarrow> deploy_services D st repoDir svcs volumeNameMap states secrets changed ordered [] [];
           _ \<leftarrow> (case out of
                  AllDeployed _ \<Rightarrow> syncContainerTracking (d_cli D) st ordered
                | _ \<Rightarrow> ok ());
           ok out })) })"

definition execute_result :: "loop_end res \<Rightarrow> stack \<Rightarrow> deployment \<Rightarrow> gerr option \<times> stack \<times> deployment" where
  "execute_result out st p = (case out of
     Inl e \<Rightarrow> (Some e, st, p)
   | Inr (Aborted e) \<Rightarrow> (Some e, st, p)
   | Inr (RolledBackEnd e) \<Rightarrow> (Some e, st, p\<lparr>dp_status := DeploymentRolledBack\<rparr>)
   | Inr (AllDeployed changes) \<Rightarrow> (None, st, p\<lparr>dp_changes := join_with ''; '' changes\<rparr>))"

definition executeDeploy :: "deployer \<Rightarrow> stack \<Rightarrow> deployment \<Rightarrow> stack_secret list \<Rightarrow> bool
    \<Rightarrow> (gerr option \<times> stack \<times> deployment) act" where
  "executeDeploy D st0 p0 secrets changed = do {
     r \<leftarrow> cloneRepo D st0;
     case r of
       Inl e \<Rightarrow> State_Monad.return (Some (ErrWrap ''git clone failed: '' e), st0, p0)
     | Inr (repoDir, gitCommit) \<Rightarrow>
       let p = p0\<lparr>dp_commit := gitCommit\<rparr>; st = st0\<lparr>GitCommit := gitCommit\<rparr> in do {
         _ \<leftarrow> save_deployment D p;
         out \<leftarrow> deploy_compose D st repoDir secrets changed;
         State_Monad.return (execute_result out st p) } }"

end
