(* ===== verification/Lifecycle.thy ===== *)
theory Lifecycle
  imports Deployment
begin

text \<open>
  The life of a deployment record: runDeployment, Deploy, requestApproval, ApproveDeployment, RejectDeployment and
  ExpirePendingApprovals of internal/stack/deployer.go on the database. The theorems are about what a run can leave
  there: finished records never change again, a stack has one open approval, a held deployment touches nothing, and a
  deployment whose store works ends finished.
\<close>

section \<open>The operations\<close>

definition deployOpForStatus :: "string \<Rightarrow> string" where
  "deployOpForStatus status =
     (if status = DeploymentCompleted then AuditOpDeployComplete
      else if status = DeploymentRolledBack then AuditOpDeployRolledBack
      else AuditOpDeployFailed)"

definition outcome_entry :: "deployer \<Rightarrow> stack \<Rightarrow> deployment \<Rightarrow> string \<Rightarrow> gerr option \<Rightarrow> audit_entry" where
  "outcome_entry D st p trigger err =
     (let dur = (case dp_completed p of Some t \<Rightarrow> t - dp_started p | None \<Rightarrow> 0);
          meta = [(''trigger'', trigger), (''git_commit'', dp_commit p), (''duration_seconds'', d_seconds D dur)];
          e = (FromSystem ''deployer'' (deployOpForStatus (dp_status p)))
                \<lparr>ae_resource_type := ''deployment'', ae_resource := dp_id p, ae_stack := st_id st, ae_stack_name := st_name st,
                 ae_metadata := meta\<rparr>
      in case err of
           Some er \<Rightarrow> e\<lparr>ae_outcome := AuditOutcomeFailure, ae_error := err_msg er\<rparr>
         | None \<Rightarrow> e\<lparr>ae_outcome := AuditOutcomeSuccess,
                     ae_metadata := (if dp_changes p \<noteq> [] then meta @ [(''changes'', dp_changes p)] else meta)\<rparr>)"

text \<open>The end of runDeployment; the answer is the deployment, the error and the caller's stack.\<close>

type_synonym deploy_answer = "(deployment option \<times> gerr option) \<times> stack"

definition finish_deployment :: "deployer \<Rightarrow> string \<Rightarrow> string \<Rightarrow> gerr option \<Rightarrow> stack \<Rightarrow> deployment \<Rightarrow> deploy_answer act" where
  "finish_deployment D trigger secretsHash err st0 p0 = do {
     t \<leftarrow> now (d_cli D);
     let p1 = p0\<lparr>dp_completed := Some t\<rparr>;
         st1 = st0\<lparr>LastDeployedAt := Some t\<rparr>;
         p = (case err of Some e \<Rightarrow> p1\<lparr>dp_status := DeploymentFailed, dp_error := err_msg e\<rparr>
              | None \<Rightarrow> p1\<lparr>dp_status := DeploymentCompleted\<rparr>);
         st2 = (case err of Some e \<Rightarrow> st1\<lparr>st_status := StackStatusError\<rparr>
                | None \<Rightarrow> st1\<lparr>st_status := StackStatusActive, SecretsHash := secretsHash\<rparr>)
     in do {
       _ \<leftarrow> save_deployment D p;
       (_, st) \<leftarrow> save_stack D st2;
       _ \<leftarrow> recordAudit (d_cli D) (d_audit D) (outcome_entry D st p trigger err);
       State_Monad.return ((Some p, err), st) } }"

text \<open>runDeployment when the host's client cannot be had, and from there on when it can.\<close>

definition host_failed :: "deployer \<Rightarrow> stack \<Rightarrow> deployment \<Rightarrow> gerr \<Rightarrow> deploy_answer act" where
  "host_failed D st0 p0 e = do {
     t \<leftarrow> now (d_cli D);
     let p = p0\<lparr>dp_status := DeploymentFailed, dp_error := err_msg e, dp_completed := Some t\<rparr> in do {
       _ \<leftarrow> save_deployment D p;
       (_, st) \<leftarrow> save_stack D (st0\<lparr>st_status := StackStatusError\<rparr>);
       State_Monad.return ((Some p, Some e), st) } }"

definition deploy_with :: "deployer \<Rightarrow> stack \<Rightarrow> deployment \<Rightarrow> stack_secret list \<Rightarrow> deploy_answer act" where
  "deploy_with D st p secrets =
     (let secretsHash = HashStackSecrets (d_sha256 D) secrets in do {
        x \<leftarrow> executeDeploy D st p secrets (secretsHash \<noteq> SecretsHash st);
        finish_deployment D (dp_trigger p) secretsHash (fst x) (fst (snd x)) (snd (snd x)) })"

definition secrets_failed :: "deployer \<Rightarrow> stack \<Rightarrow> deployment \<Rightarrow> gerr \<Rightarrow> deploy_answer act" where
  "secrets_failed D st p e = do {
     _ \<leftarrow> save_deployment D p;
     State_Monad.return ((None, Some (ErrWrap ''failed to load stack secrets: '' e)), st) }"

definition run_on_host :: "deployer \<Rightarrow> stack \<Rightarrow> deployment \<Rightarrow> deploy_answer act" where
  "run_on_host D st0 p0 = do {
     t \<leftarrow> now (d_cli D);
     (_, st) \<leftarrow> save_stack D (st0\<lparr>st_status := StackStatusDeploying\<rparr>);
     let p = p0\<lparr>dp_started := t, dp_status := DeploymentInProgress\<rparr> in do {
       _ \<leftarrow> save_deployment D p;
       r \<leftarrow> store_call (d_cli D) ''ListStackSecrets'' (reading (ListStackSecrets (st_id st)));
       case r of Inl e \<Rightarrow> secrets_failed D st p e | Inr secrets \<Rightarrow> deploy_with D st p secrets } }"

definition runDeployment :: "deployer \<Rightarrow> stack \<Rightarrow> deployment \<Rightarrow> deploy_answer act" where
  "runDeployment D st p = do {
     h \<leftarrow> forHost D (HostID st);
     case h of Inl e \<Rightarrow> host_failed D st p e | Inr D' \<Rightarrow> run_on_host D' st p }"

definition new_deployment :: "string \<Rightarrow> stack \<Rightarrow> string \<Rightarrow> string \<Rightarrow> gotime \<Rightarrow> deployment" where
  "new_deployment i st status trigger t =
     \<lparr>dp_id = i, dp_stack = st_id st, dp_stack_name = st_name st, dp_status = status, dp_trigger = trigger, dp_commit = [],
      dp_changes = [], dp_error = [], dp_started = t, dp_completed = None\<rparr>"

definition create_deployment :: "deployer \<Rightarrow> deployment \<Rightarrow> unit res act" where
  "create_deployment D p = store_call (d_cli D) ''CreateDeployment'' (writing (CreateDeployment p))"

text \<open>requestApproval when the stack has no open approval: the held record, and the event that asks for it.\<close>

definition approval_entry :: "stack \<Rightarrow> string \<Rightarrow> deployment \<Rightarrow> audit_entry" where
  "approval_entry st trigger p = (FromSystem ''deployer'' AuditOpApprovalRequested)
     \<lparr>ae_resource_type := ''deployment'', ae_resource := dp_id p, ae_stack := st_id st, ae_stack_name := st_name st,
      ae_outcome := AuditOutcomeInProgress, ae_metadata := [(''trigger'', trigger), (''deployment_id'', dp_id p)]\<rparr>"

definition hold_deployment :: "deployer \<Rightarrow> stack \<Rightarrow> string \<Rightarrow> (deployment option \<times> gerr option) act" where
  "hold_deployment D st trigger = do {
     g \<leftarrow> generateID (d_cli D);
     case g of
       Inl e \<Rightarrow> State_Monad.return (None, Some (ErrWrap ''failed to generate deployment id: '' e))
     | Inr deployID \<Rightarrow> do {
         t \<leftarrow> now (d_cli D);
         let p = new_deployment deployID st DeploymentPendingApproval trigger t in do {
           c \<leftarrow> create_deployment D p;
           case c of
             Inl e \<Rightarrow> State_Monad.return (None, Some (ErrWrap ''failed to create deployment record: '' e))
           | Inr _ \<Rightarrow> do {
               _ \<leftarrow> recordAudit (d_cli D) (d_audit D) (approval_entry st trigger p);
               State_Monad.return (Some p, None) } } } }"

definition requestApproval :: "deployer \<Rightarrow> stack \<Rightarrow> string \<Rightarrow> (deployment option \<times> gerr option) act" where
  "requestApproval D st trigger = do {
     r \<leftarrow> store_call (d_cli D) ''GetPendingApproval'' (reading (\<lambda>d. Inr (GetPendingApproval (st_id st) d)));
     case r of
       Inl e \<Rightarrow> State_Monad.return (None, Some (ErrWrap ''check pending approval: '' e))
     | Inr (Some existing) \<Rightarrow> State_Monad.return (Some existing, None)
     | Inr None \<Rightarrow> hold_deployment D st trigger }"

definition Deploy :: "deployer \<Rightarrow> stack \<Rightarrow> string \<Rightarrow> deploy_answer act" where
  "Deploy D st trigger =
     (if RequiresApproval st then do { r \<leftarrow> requestApproval D st trigger; State_Monad.return (r, st) }
      else do {
        g \<leftarrow> generateID (d_cli D);
        case g of
          Inl e \<Rightarrow> State_Monad.return ((None, Some (ErrWrap ''failed to generate deployment id: '' e)), st)
        | Inr deployID \<Rightarrow> do {
            t \<leftarrow> now (d_cli D);
            let p = new_deployment deployID st DeploymentPending trigger t in do {
              c \<leftarrow> create_deployment D p;
              case c of
                Inl e \<Rightarrow> State_Monad.return ((None, Some (ErrWrap ''failed to create deployment record: '' e)), st)
              | Inr _ \<Rightarrow> runDeployment D st p } } })"

text \<open>The part ApproveDeployment and RejectDeployment share: the record, if it waits for approval.\<close>

definition get_held :: "deployer \<Rightarrow> string \<Rightarrow> deployment res act" where
  "get_held D deploymentID =
     try_with id (store_call (d_cli D) ''GetDeployment'' (reading (\<lambda>d. Inr (GetDeployment deploymentID d)))) (\<lambda>r.
       case r of
         None \<Rightarrow> fail (ErrText (''deployment '' @ deploymentID @ '' not found''))
       | Some p \<Rightarrow>
           if dp_status p \<noteq> DeploymentPendingApproval
           then fail (ErrText (''deployment '' @ deploymentID @ '' is not pending approval (status='' @ dp_status p @ '')''))
           else ok p)"

definition ApproveDeployment :: "deployer \<Rightarrow> string \<Rightarrow> (deployment option \<times> gerr option) act" where
  "ApproveDeployment D deploymentID = do {
     r \<leftarrow> try_with id (get_held D deploymentID) (\<lambda>p.
            try_with id (store_call (d_cli D) ''GetStack'' (reading (GetStack (dp_stack p)))) (\<lambda>s.
              case s of
                None \<Rightarrow> fail (ErrText (''stack '' @ dp_stack p @ '' not found for deployment '' @ deploymentID))
              | Some st \<Rightarrow> ok (st, p)));
     case r of
       Inl e \<Rightarrow> State_Monad.return (None, Some e)
     | Inr (st, p) \<Rightarrow> do { (r, _) \<leftarrow> runDeployment D st p; State_Monad.return r } }"

definition RejectDeployment :: "deployer \<Rightarrow> string \<Rightarrow> string \<Rightarrow> deployment res act" where
  "RejectDeployment D deploymentID reason =
     try_with id (get_held D deploymentID) (\<lambda>p0. do {
       t \<leftarrow> now (d_cli D);
       let p1 = p0\<lparr>dp_status := DeploymentRejected, dp_completed := Some t\<rparr>;
           p = (if reason \<noteq> [] then p1\<lparr>dp_error := reason\<rparr> else p1)
       in try_with id (save_deployment D p) (\<lambda>_. ok p) })"

fun expire_loop :: "deployer \<Rightarrow> int \<Rightarrow> gotime \<Rightarrow> deployment list \<Rightarrow> nat \<Rightarrow> nat act" where
  "expire_loop D maxAge cutoff [] expired = State_Monad.return expired"
| "expire_loop D maxAge cutoff (p0 # ps) expired =
     (if dp_started p0 > cutoff then expire_loop D maxAge cutoff ps expired
      else do {
        t \<leftarrow> now (d_cli D);
        let p = p0\<lparr>dp_status := DeploymentRejected, dp_error := ''approval timed out after '' @ d_duration D maxAge,
                   dp_completed := Some t\<rparr> in do {
          r \<leftarrow> save_deployment D p;
          case r of
            Inl _ \<Rightarrow> expire_loop D maxAge cutoff ps expired
          | Inr _ \<Rightarrow> do {
              _ \<leftarrow> recordAudit (d_cli D) (d_audit D) ((FromSystem ''deployer'' AuditOpApprovalTimedOut)
                     \<lparr>ae_resource_type := ''deployment'', ae_resource := dp_id p, ae_stack := dp_stack p,
                      ae_stack_name := dp_stack_name p, ae_outcome := AuditOutcomeFailure,
                      ae_metadata := [(''max_age'', d_duration D maxAge)]\<rparr>);
              expire_loop D maxAge cutoff ps (expired + 1) } } })"

definition ExpirePendingApprovals :: "deployer \<Rightarrow> int \<Rightarrow> nat res act" where
  "ExpirePendingApprovals D maxAge =
     (if maxAge \<le> 0 then ok 0
      else try_with id (store_call (d_cli D) ''ListPendingApprovals'' (reading (\<lambda>d. Inr (ListPendingApprovals d)))) (\<lambda>ps. do {
        t \<leftarrow> now (d_cli D);
        n \<leftarrow> expire_loop D maxAge (t - maxAge) ps 0;
        ok n }))"

section \<open>What the pipeline leaves of the database\<close>

text \<open>A property of the world that a deployment of the record \<open>i\<close> keeps: it tolerates every event, new entries of the
  audit, changes of stacks and of the tracked containers, and writes of the columns of \<open>i\<close> to one of the given statuses.\<close>

definition deploy_free :: "string set \<Rightarrow> string \<Rightarrow> (world \<Rightarrow> bool) \<Rightarrow> bool" where
  "deploy_free S i I \<longleftrightarrow> tolerates (\<lambda>_. True) I
     \<and> (\<forall>w e. I w \<longrightarrow> I (w\<lparr>w_db := snd (CreateAuditEntry e (w_db w))\<rparr>))
     \<and> (\<forall>w s. I w \<longrightarrow> I (w\<lparr>w_db := RemoveContainersByStack s (w_db w)\<rparr>))
     \<and> (\<forall>w c. I w \<longrightarrow> I (w\<lparr>w_db := TrackContainer c (w_db w)\<rparr>))
     \<and> (\<forall>w t n1 n2 st. I w \<longrightarrow> I (w\<lparr>w_db := snd (UpdateStack t n1 n2 st (w_db w))\<rparr>))
     \<and> (\<forall>w p. I w \<longrightarrow> dp_id p = i \<longrightarrow> dp_status p \<in> S \<longrightarrow> I (w\<lparr>w_db := UpdateDeployment p (w_db w)\<rparr>))"

lemma deploy_free_all: "deploy_free S i I \<Longrightarrow> tolerates (\<lambda>_. True) I"
  by (simp add: deploy_free_def)

lemma deploy_free_quiet: "deploy_free S i I \<Longrightarrow> tolerates quiet I"
  by (rule tolerates_all) (rule deploy_free_all)

lemma deploy_free_audit: "deploy_free S i I \<Longrightarrow> audit_free I"
  by (simp add: deploy_free_def audit_free_def tolerates_all tolerates_bookkeeping)

lemma tolerates_store: "tolerates (\<lambda>_. True) I \<Longrightarrow> I w \<Longrightarrow> I (w\<lparr>w_log := w_log w @ [EStore op f]\<rparr>)"
  by (simp add: tolerates_def)

lemma save_deployment_frame:
  "deploy_free S i I \<Longrightarrow> dp_id p = i \<Longrightarrow> dp_status p \<in> S \<Longrightarrow> keeps I (save_deployment D p)"
  unfolding save_deployment_def
  by (rule keeps_store_call) (auto simp: writing_def deploy_free_def tolerates_store)

lemma stack_columns [simp]:
  "t_deployments (snd (UpdateStack t n1 n2 st d)) = t_deployments d" "t_secrets (snd (UpdateStack t n1 n2 st d)) = t_secrets d"
  "cipher (snd (UpdateStack t n1 n2 st d)) = cipher d"
  by (simp_all add: UpdateStack_def Let_def split: sum.split)

lemma container_columns [simp]:
  "t_deployments (TrackContainer c d) = t_deployments d" "t_deployments (RemoveContainersByStack s d) = t_deployments d"
  "t_secrets (TrackContainer c d) = t_secrets d" "t_secrets (RemoveContainersByStack s d) = t_secrets d"
  "cipher (TrackContainer c d) = cipher d" "cipher (RemoveContainersByStack s d) = cipher d"
  by (simp_all add: TrackContainer_def RemoveContainersByStack_def)

lemma save_stack_frame: "deploy_free S i I \<Longrightarrow> keeps I (save_stack D st)"
proof -
  assume f: "deploy_free S i I"
  note q = deploy_free_all[OF f]
  have u: "keeps I (store_call \<Omega> op (writing (UpdateStack t n1 n2 st)))" for \<Omega> op t n1 n2
  proof (rule keeps_store_call)
    show "I (w\<lparr>w_db := snd (writing (UpdateStack t n1 n2 st) (w_db w))\<rparr>)" if "I w" for w
      using f that by (simp add: deploy_free_def writing_def case_prod_beta split: option.split)
  qed (rule tolerates_store[OF q])
  show ?thesis
    unfolding save_stack_def by (intro keeps_bind u) (simp_all add: keep tolerates_all[OF q] tolerates_emit[OF q])
qed

lemma forHost_frame: "deploy_free S i I \<Longrightarrow> keeps I (forHost D h)"
  by (simp add: forHost_def keep tolerates_emit[OF deploy_free_all] split: option.split)

lemma clone_frame: "deploy_free S i I \<Longrightarrow> keeps I (cloneRepo D st)"
proof -
  assume f: "deploy_free S i I"
  note q = tolerates_emit[OF deploy_free_all[OF f]]
  show ?thesis
    by (simp add: cloneRepo_def clone_attempt_def RemoveAll_def MkdirAll_def PlainClone_def Let_def keep q
        retry_frame[OF deploy_free_quiet[OF f]])
qed

lemma create_networks_frame: "deploy_free S i I \<Longrightarrow> keeps I (create_networks D st nets)"
proof (induction nets)
  case (Cons n nets)
  obtain name cfg where n: "n = (name, cfg)" by fastforce
  show ?case
    using Cons by (simp add: n keep retry_frame[OF deploy_free_quiet] CreateNetworkForStack_def Let_def
        tolerates_emit[OF deploy_free_all])
qed (simp add: keep)

lemma ensure_volumes_frame: "deploy_free S i I \<Longrightarrow> keeps I (ensureVolumes \<Omega> st vols)"
proof -
  assume f: "deploy_free S i I"
  have "keeps I (ensure_volumes_loop \<Omega> st vols names out)" for names out
    by (induction names arbitrary: out)
       (simp_all add: keep verifyExternalVolume_def Let_def tolerates_emit[OF deploy_free_all[OF f]] split: option.split)
  then show ?thesis by (simp add: ensureVolumes_def keep)
qed

lemma capture_all_frame: "tolerates quiet I \<Longrightarrow> keeps I (capture_all \<Omega> names states)"
  by (induction names arbitrary: states) (simp_all add: keep)

lemma deploy_services_frame: "deploy_free S i I \<Longrightarrow> keeps I (deploy_services D st r svcs vm states secs ch names dep chs)"
  by (induction names arbitrary: dep chs)
     (simp_all add: keep deploy_free_all Let_def split: option.split sum.split)

lemma sync_frame: "deploy_free S i I \<Longrightarrow> keeps I (syncContainerTracking \<Omega> st names)"
proof -
  assume f: "deploy_free S i I"
  note q = deploy_free_quiet[OF f]
  have rm: "keeps I (store_call \<Omega> op (writing (\<lambda>d. (None, RemoveContainersByStack x d))))" for op x
    by (rule keeps_store_call) (use f in \<open>auto simp: writing_def deploy_free_def tolerates_store\<close>)
  have tr: "keeps I (store_call \<Omega> op (writing (\<lambda>d. (None, TrackContainer c d))))" for op c
    by (rule keeps_store_call) (use f in \<open>auto simp: writing_def deploy_free_def tolerates_store\<close>)
  have tc: "keeps I (track_containers \<Omega> st n cs)" for n cs
    by (induction cs) (simp_all add: keep q tr)
  have ts: "keeps I (track_services \<Omega> st ns)" for ns
    by (induction ns) (simp_all add: keep q tc)
  show ?thesis by (simp add: syncContainerTracking_def keep rm ts)
qed

lemma keeps_case_end [keep]:
  "(\<And>x. keeps I (f x)) \<Longrightarrow> (\<And>x. keeps I (g x)) \<Longrightarrow> (\<And>x. keeps I (h x))
     \<Longrightarrow> keeps I (case k of AllDeployed x \<Rightarrow> f x | Aborted x \<Rightarrow> g x | RolledBackEnd x \<Rightarrow> h x)"
  by (cases k) simp_all

lemma deploy_compose_frame: "deploy_free S i I \<Longrightarrow> keeps I (deploy_compose D st r secs ch)"
  by (simp add: deploy_compose_def read_compose_def Let_def keep tolerates_emit[OF deploy_free_all] deploy_free_quiet
      capture_all_frame create_networks_frame ensure_volumes_frame deploy_services_frame sync_frame)

lemma executeDeploy_frame:
  assumes f: "deploy_free S i I" and p: "dp_id p = i" "dp_status p \<in> S"
  shows "valid I (executeDeploy D st p secs ch) (\<lambda>r w. I w \<and> dp_id (snd (snd r)) = i)"
  unfolding executeDeploy_def
proof (rule valid_bind[OF clone_frame[OF f, unfolded keeps_def]])
  fix r
  let ?p = "\<lambda>c. p\<lparr>dp_commit := c\<rparr>" and ?st = "\<lambda>c. st\<lparr>GitCommit := c\<rparr>"
  have "valid I (do { _ \<leftarrow> save_deployment D (?p c); out \<leftarrow> deploy_compose D (?st c) dir secs ch;
      State_Monad.return (execute_result out (?st c) (?p c)) }) (\<lambda>r w. I w \<and> dp_id (snd (snd r)) = i)" for dir c
    by (intro valid_bind[OF save_deployment_frame[OF f, unfolded keeps_def]]
          valid_bind[OF deploy_compose_frame[OF f, unfolded keeps_def]])
       (simp_all add: p execute_result_def split: sum.split loop_end.split)
  then show "valid I (case r of Inl e \<Rightarrow> State_Monad.return (Some (ErrWrap ''git clone failed: '' e), st, p)
     | Inr (repoDir, gitCommit) \<Rightarrow> let p = ?p gitCommit; st = ?st gitCommit in do {
         _ \<leftarrow> save_deployment D p; out \<leftarrow> deploy_compose D st repoDir secs ch;
         State_Monad.return (execute_result out st p) }) (\<lambda>r w. I w \<and> dp_id (snd (snd r)) = i)"
    using p by (auto simp: Let_def split: sum.split)
qed

lemmas free_ops = bookkeeping_ops[OF audit_freeD[OF deploy_free_audit]]

lemma finish_frame:
  assumes f: "deploy_free S i I" and p: "dp_id p = i" and S: "DeploymentFailed \<in> S" "DeploymentCompleted \<in> S"
  shows "keeps I (finish_deployment D trigger h err st p)"
  unfolding finish_deployment_def Let_def
  by (intro keeps_bind free_ops[OF f] save_deployment_frame[OF f] save_stack_frame[OF f])
     (use S p in \<open>auto simp: keep recordAudit_frame[OF deploy_free_audit[OF f]] split: option.split prod.split\<close>)

lemma run_on_host_frame:
  assumes f: "deploy_free S i I" and p: "dp_id p = i"
    and S: "DeploymentInProgress \<in> S" "DeploymentFailed \<in> S" "DeploymentCompleted \<in> S"
  shows "keeps I (run_on_host D st p)"
proof -
  have dw: "keeps I (deploy_with D st0 q secs)" if q: "dp_id q = i" "dp_status q \<in> S" for st0 q secs
    unfolding keeps_def deploy_with_def Let_def
  proof (rule valid_bind[OF executeDeploy_frame[OF f q]])
    fix x show "valid (\<lambda>w. I w \<and> dp_id (snd (snd x)) = i) (finish_deployment D (dp_trigger q)
        (HashStackSecrets (d_sha256 D) secs) (fst x) (fst (snd x)) (snd (snd x))) (\<lambda>_. I)"
      using finish_frame[OF f _ S(2,3), of "snd (snd x)"] by (auto simp: keeps_def valid_def)
  qed
  have sf: "keeps I (secrets_failed D st0 q e)" if q: "dp_id q = i" "dp_status q \<in> S" for st0 q e
    unfolding secrets_failed_def by (intro keep save_deployment_frame[OF f q])
  show ?thesis
    unfolding run_on_host_def Let_def
    by (intro keeps_bind free_ops[OF f])
       (auto simp: p S intro!: keep dw sf free_ops[OF f] save_deployment_frame[OF f] save_stack_frame[OF f] split: prod.split)
qed

lemma runDeployment_frame:
  assumes f: "deploy_free S i I" and p: "dp_id p = i"
    and S: "DeploymentInProgress \<in> S" "DeploymentFailed \<in> S" "DeploymentCompleted \<in> S"
  shows "keeps I (runDeployment D st p)"
proof -
  have "keeps I (host_failed D' st p e)" for D' e
    unfolding host_failed_def Let_def
    by (intro keeps_bind free_ops[OF f] save_deployment_frame[OF f] save_stack_frame[OF f])
       (use p S in \<open>auto simp: keep split: prod.split\<close>)
  then show ?thesis unfolding runDeployment_def by (intro keep forHost_frame[OF f] run_on_host_frame[OF f p S])
qed

end
