(* ===== verification/Deployments.thy ===== *)
theory Deployments
  imports Lifecycle
begin

text \<open>
  What the deployer leaves in the deployments table: what approval means, that approving needs a record that waits, and
  how a deployment ends. What holds when several operations overlap is the subject of Overlaps.
\<close>

section \<open>Records of the table\<close>

definition finished_status :: "string \<Rightarrow> bool" where
  "finished_status s \<longleftrightarrow> s = DeploymentCompleted \<or> s = DeploymentFailed \<or> s = DeploymentRolledBack \<or> s = DeploymentRejected"

definition open_rows :: "string \<Rightarrow> db \<Rightarrow> deployment list" where
  "open_rows s d = filter (\<lambda>p. dp_stack p = s \<and> dp_status p = DeploymentPendingApproval) (t_deployments d)"

section \<open>Properties of the deployments table alone\<close>

text \<open>A property of the deployments is kept by what does not write them.\<close>

definition table_only :: "(world \<Rightarrow> bool) \<Rightarrow> bool" where
  "table_only I \<longleftrightarrow> (\<forall>w w'. t_deployments (w_db w') = t_deployments (w_db w) \<longrightarrow> I w \<longrightarrow> I w')"

lemma table_only_free:
  assumes "table_only I" "\<And>w p. I w \<Longrightarrow> dp_id p = i \<Longrightarrow> dp_status p \<in> S \<Longrightarrow> I (w\<lparr>w_db := UpdateDeployment p (w_db w)\<rparr>)"
  shows "deploy_free S i I"
  using assms unfolding deploy_free_def tolerates_def table_only_def by auto

lemma table_only_audit: "table_only I \<Longrightarrow> audit_free I"
  unfolding table_only_def audit_free_def tolerates_def by auto

lemma table_only_const: "table_only (\<lambda>w. t_deployments (w_db w) = rows)"
  by (simp add: table_only_def)

lemmas table_ops = bookkeeping_ops[OF audit_freeD[OF table_only_audit]]

text \<open>Reading a record for approval or rejection.\<close>

lemma get_held_valid:
  assumes "table_only I"
  shows "valid I (get_held D i) (\<lambda>r w. I w \<and> (\<forall>p. r = Inr p \<longrightarrow> GetDeployment i (w_db w) = Some p
     \<and> dp_status p = DeploymentPendingApproval))"
proof (rule validI)
  fix w r w' assume w: "I w" and r: "run_state (get_held D i) w = (r, w')"
  let ?w = "w\<lparr>w_log := w_log w @ [EStore ''GetDeployment'' (o_fault (d_cli D) (w_log w) ''GetDeployment'')]\<rparr>"
  have "w' = ?w" "\<forall>p. r = Inr p \<longrightarrow> GetDeployment i (w_db w) = Some p \<and> dp_status p = DeploymentPendingApproval"
    using r
    by (auto simp: get_held_def try_with_def store_call_def emit_def run_state_bind Let_def reading_def fail_def ok_def
        split: option.splits if_splits)
  then show "I w' \<and> (\<forall>p. r = Inr p \<longrightarrow> GetDeployment i (w_db w') = Some p \<and> dp_status p = DeploymentPendingApproval)"
    using assms w by (auto simp: table_only_def)
qed

lemma GetDeployment_id: "GetDeployment i d = Some p \<Longrightarrow> dp_id p = i \<and> p \<in> set (t_deployments d)"
  unfolding GetDeployment_def using tbl_find_Some by fastforce

lemma store_call_result:
  assumes "run_state (store_call \<Omega> op f) w = (r, w')"
  shows "(\<exists>e. r = Inl e \<and> w' = w\<lparr>w_log := w_log w @ [EStore op (Some e)]\<rparr>)
       \<or> (r = fst (f (w_db w)) \<and> w' = w\<lparr>w_log := w_log w @ [EStore op None], w_db := snd (f (w_db w))\<rparr>)"
  using assms by (auto simp: store_call_def emit_def run_state_bind Let_def case_prod_beta split: option.splits)

section \<open>Rows and keys\<close>

definition keys_ok :: "db \<Rightarrow> bool" where
  "keys_ok d \<longleftrightarrow> distinct (List.map dp_id (t_deployments d))"

lemma keys_unique: "keys_ok d \<Longrightarrow> p \<in> set (t_deployments d) \<Longrightarrow> q \<in> set (t_deployments d) \<Longrightarrow> dp_id p = dp_id q \<Longrightarrow> p = q"
  unfolding keys_ok_def by (metis distinct_map inj_onD)

lemma UpdateDeployment_rows:
  "t_deployments (UpdateDeployment p d) = tbl_update dp_id (dp_id p)
     (\<lambda>old. old\<lparr>dp_status := dp_status p, dp_commit := dp_commit p, dp_changes := dp_changes p,
               dp_error := dp_error p, dp_completed := dp_completed p\<rparr>) (t_deployments d)"
  by (simp add: UpdateDeployment_def)

lemma keys_update: "keys_ok (UpdateDeployment p d) = keys_ok d"
  by (simp add: keys_ok_def UpdateDeployment_rows tbl_update_def comp_def if_distrib cong: if_cong)

lemma CreateDeployment_rows:
  "CreateDeployment p d = (None, d') \<Longrightarrow>
     t_deployments d' = t_deployments d @ [p] \<and> (\<forall>q \<in> set (t_deployments d). dp_id q \<noteq> dp_id p)"
  by (auto simp: CreateDeployment_def split: if_splits)

lemma keys_create: "CreateDeployment p d = (None, d') \<Longrightarrow> keys_ok d \<Longrightarrow> keys_ok d'"
  by (frule CreateDeployment_rows) (auto simp: keys_ok_def)

section \<open>Open approvals\<close>

lemma open_rows_update:
  assumes "dp_status p \<noteq> DeploymentPendingApproval"
  shows "length (open_rows s (UpdateDeployment p d)) \<le> length (open_rows s d)"
proof -
  have len: "length (filter P (List.map f rows)) \<le> length (filter P rows)" if "\<And>x. P (f x) \<Longrightarrow> P x" for P and f :: "'a \<Rightarrow> 'a" and rows
    using that by (induction rows) (auto intro: le_SucI)
  show ?thesis
    unfolding open_rows_def UpdateDeployment_rows tbl_update_def
    by (rule len) (use assms in \<open>auto split: if_splits\<close>)
qed

lemma GetPendingApproval_open: "GetPendingApproval s d = None \<longleftrightarrow> open_rows s d = []"
  by (simp add: GetPendingApproval_None open_rows_def filter_empty_conv)

section \<open>The approval gate\<close>

text \<open>The worlds a held deployment can lead to: new bookkeeping events, new audit rows, and at most one new record.\<close>

definition gated :: "world \<Rightarrow> (deployment list \<Rightarrow> bool) \<Rightarrow> world \<Rightarrow> bool" where
  "gated w0 P w \<longleftrightarrow> (\<exists>t. w_log w = w_log w0 @ t \<and> list_all bookkeeping t)
     \<and> (\<exists>rows audit. w_db w = (w_db w0)\<lparr>t_audit := audit, t_deployments := t_deployments (w_db w0) @ rows\<rparr> \<and> P rows)"

lemma db_swap: "d\<lparr>t_deployments := x, t_audit := y\<rparr> = d\<lparr>t_audit := y, t_deployments := x\<rparr>" for d :: db
  by simp

lemma db_same_audit: "d\<lparr>t_audit := y\<rparr> = d\<lparr>t_audit := y, t_deployments := t_deployments d\<rparr>" for d :: db
  by simp

lemma gatedI:
  "w_log w = w_log w0 @ t \<Longrightarrow> list_all bookkeeping t \<Longrightarrow>
     w_db w = (w_db w0)\<lparr>t_audit := a, t_deployments := t_deployments (w_db w0) @ rows\<rparr> \<Longrightarrow> P rows \<Longrightarrow> gated w0 P w"
  unfolding gated_def by blast

lemma gated_log: "gated w0 P w \<Longrightarrow> bookkeeping e \<Longrightarrow> gated w0 P (w\<lparr>w_log := w_log w @ [e]\<rparr>)"
  unfolding gated_def by (elim conjE exE, intro conjI) (auto intro!: exI[of _ "_ @ [e]"])

lemma gated_tolerates: "tolerates bookkeeping (gated w0 P)"
  using gated_log by (auto simp: tolerates_def)

lemma gated_audit: "audit_free (gated w0 P)"
proof -
  have "gated w0 P (w\<lparr>w_db := (w_db w)\<lparr>t_audit := rows\<rparr>\<rparr>)" if "gated w0 P w" for w rows
    using that unfolding gated_def by (elim conjE exE, intro conjI exI) (auto simp: db_swap)
  then show ?thesis by (intro audit_freeI gated_tolerates)
qed

lemma gated_start: "P [] \<Longrightarrow> gated w0 P w0"
  unfolding gated_def by (intro conjI) (auto intro!: exI[of _ "[]"] exI[of _ "t_audit (w_db w0)"])

lemma gated_mono: "gated w0 P w \<Longrightarrow> (\<And>rows. P rows \<Longrightarrow> Q rows) \<Longrightarrow> gated w0 Q w"
  by (auto simp: gated_def)

definition held_rows :: "stack \<Rightarrow> db \<Rightarrow> deployment list \<Rightarrow> bool" where
  "held_rows st d rows \<longleftrightarrow> rows = [] \<or> (\<exists>p. rows = [p] \<and> dp_stack p = st_id st \<and> dp_status p = DeploymentPendingApproval
     \<and> GetPendingApproval (st_id st) d = None)"

lemma hold_gated:
  assumes "GetPendingApproval (st_id st) (w_db w0) = None"
  shows "valid (gated w0 (\<lambda>rows. rows = [])) (hold_deployment D st trigger) (\<lambda>_. gated w0 (held_rows st (w_db w0)))"
    (is "valid ?E _ (\<lambda>_. ?H)")
proof -
  note ops = bookkeeping_ops[OF gated_tolerates, unfolded keeps_def]
  have weak: "?E w \<Longrightarrow> ?H w" for w by (erule gated_mono) (simp add: held_rows_def)
  have create: "valid ?E (create_deployment D p) (\<lambda>_. ?H)" if p: "dp_stack p = st_id st" "dp_status p = DeploymentPendingApproval" for p
  proof (rule validI)
    fix w r w' assume w: "?E w" and r: "run_state (create_deployment D p) w = (r, w')"
    obtain t a where l: "w_log w = w_log w0 @ t" "list_all bookkeeping t"
      and d: "w_db w = (w_db w0)\<lparr>t_audit := a, t_deployments := t_deployments (w_db w0)\<rparr>"
      using w unfolding gated_def by auto
    have "?H (w\<lparr>w_db := snd (CreateDeployment p (w_db w))\<rparr>)"
    proof (cases "\<exists>r \<in> set (t_deployments (w_db w)). dp_id r = dp_id p")
      case True
      then show ?thesis using weak[OF w] by (simp add: CreateDeployment_def)
    next
      case False
      have "held_rows st (w_db w0) [p]" using p assms by (auto simp: held_rows_def)
      then show ?thesis using False l d by (intro gatedI[where a = a]) (auto simp: CreateDeployment_def)
    qed
    then have "?H (w\<lparr>w_db := snd (CreateDeployment p (w_db w)), w_log := w_log w @ [EStore op None]\<rparr>)" for op
      using gated_log[of w0 _ "w\<lparr>w_db := snd (CreateDeployment p (w_db w))\<rparr>" "EStore op None"] by simp
    moreover have "w\<lparr>w_db := d, w_log := l\<rparr> = w\<lparr>w_log := l, w_db := d\<rparr>" for l d by simp
    ultimately have "?H (w\<lparr>w_log := w_log w @ [EStore op None], w_db := snd (CreateDeployment p (w_db w))\<rparr>)" for op
      by simp
    then show "?H w'"
      using store_call_result[OF r[unfolded create_deployment_def]] weak[OF w]
      by (auto simp: writing_def split: prod.splits option.splits intro: gated_log)
  qed
  have after: "valid ?H (case c of Inl e \<Rightarrow> State_Monad.return (f e)
      | Inr _ \<Rightarrow> do { _ \<leftarrow> recordAudit \<Omega> a e; State_Monad.return y }) (\<lambda>_. ?H)" for c :: "unit res" and f \<Omega> a e y
    using recordAudit_frame[OF gated_audit, of w0 "held_rows st (w_db w0)" \<Omega> a e]
    by (cases c) (auto simp: valid_def keeps_def run_state_bind case_prod_beta)
  have made: "valid ?E (do { t \<leftarrow> now \<Omega>; let p = new_deployment i st DeploymentPendingApproval trigger t in do {
      c \<leftarrow> create_deployment D p; case c of Inl e \<Rightarrow> State_Monad.return (f e)
      | Inr _ \<Rightarrow> do { _ \<leftarrow> recordAudit \<Omega>' (a p) (e p); State_Monad.return (y p) } } }) (\<lambda>_. ?H)" for \<Omega> i f \<Omega>' a e y
    unfolding Let_def by (rule valid_bind[OF ops(2) valid_bind[OF create after]]) (simp_all add: new_deployment_def)
  show ?thesis
    unfolding hold_deployment_def
    by (rule valid_bind[OF ops(1)]) (auto split: sum.split simp: weak intro!: made)
qed

lemma request_gated: "gated w0 (held_rows st (w_db w0)) (snd (run_state (requestApproval D st trigger) w0))"
proof -
  let ?E = "gated w0 (\<lambda>rows. rows = [])"
  have get: "valid (\<lambda>w. w = w0) (store_call (d_cli D) ''GetPendingApproval'' (reading (\<lambda>d. Inr (GetPendingApproval (st_id st) d))))
      (\<lambda>r w. ?E w \<and> (r = Inr None \<longrightarrow> GetPendingApproval (st_id st) (w_db w0) = None))"
  proof (rule validI)
    fix w r w' assume w: "w = w0"
      and r: "run_state (store_call (d_cli D) ''GetPendingApproval'' (reading (\<lambda>d. Inr (GetPendingApproval (st_id st) d)))) w = (r, w')"
    have "?E (w0\<lparr>w_log := w_log w0 @ [EStore op f]\<rparr>)" for op f by (intro gated_log gated_start) simp_all
    then show "?E w' \<and> (r = Inr None \<longrightarrow> GetPendingApproval (st_id st) (w_db w0) = None)"
      using store_call_result[OF r] w by (auto simp: reading_def)
  qed
  have "valid (\<lambda>w. w = w0) (requestApproval D st trigger) (\<lambda>_. gated w0 (held_rows st (w_db w0)))"
    unfolding requestApproval_def
  proof (rule valid_bind[OF get])
    fix r
    show "valid (\<lambda>w. ?E w \<and> (r = Inr None \<longrightarrow> GetPendingApproval (st_id st) (w_db w0) = None)) (case r of
        Inl e \<Rightarrow> State_Monad.return (None, Some (ErrWrap ''check pending approval: '' e))
      | Inr (Some existing) \<Rightarrow> State_Monad.return (Some existing, None)
      | Inr None \<Rightarrow> hold_deployment D st trigger) (\<lambda>_. gated w0 (held_rows st (w_db w0)))"
      using hold_gated[of st w0 D trigger]
      by (auto simp: valid_def held_rows_def split: sum.split option.split elim!: gated_mono)
  qed
  then show ?thesis by (simp add: valid_def)
qed

text \<open>C11. The approval gate: deploying a stack that requires approval asks nothing of Docker, git or the file system, and
  of the database it changes only the audit log and at most one new record, which waits for approval and is made only
  when the stack has no open approval yet. The stack itself is left as it is.\<close>

theorem approval_gate:
  assumes "RequiresApproval st" "run_state (Deploy D st trigger) w = ((r, st'), w')"
  shows "st' = st \<and> (\<exists>t. w_log w' = w_log w @ t \<and> list_all bookkeeping t)
    \<and> (\<exists>rows audit. w_db w' = (w_db w)\<lparr>t_audit := audit, t_deployments := t_deployments (w_db w) @ rows\<rparr>
        \<and> (rows = [] \<or> (\<exists>p. rows = [p] \<and> dp_stack p = st_id st \<and> dp_status p = DeploymentPendingApproval
             \<and> GetPendingApproval (st_id st) (w_db w) = None)))"
proof -
  have "w' = snd (run_state (requestApproval D st trigger) w)" "st' = st"
    using assms by (auto simp: Deploy_def run_state_bind case_prod_beta)
  then show ?thesis using request_gated[of w st D trigger] by (simp add: gated_def held_rows_def)
qed

text \<open>C15. Approving runs only what waits: if approving an id leaves any trace beyond the program's own bookkeeping, or
  changes the deployments or the stacks at all, then the record of that id was waiting for approval and its stack
  existed. Any other id, finished, running, rejected or unknown, is an error and changes nothing.\<close>

theorem approve_needs_pending:
  assumes "run_state (ApproveDeployment D i) w = (r, w')"
  shows "(\<exists>p st. GetDeployment i (w_db w) = Some p \<and> dp_status p = DeploymentPendingApproval
            \<and> GetStack (dp_stack p) (w_db w) = Inr (Some st))
    \<or> (fst r = None \<and> snd r \<noteq> None \<and> w_db w' = w_db w \<and> (\<exists>t. w_log w' = w_log w @ t \<and> list_all bookkeeping t))"
  using assms
  by (auto simp: ApproveDeployment_def get_held_def try_with_def store_call_def emit_def run_state_bind Let_def reading_def
      fail_def ok_def split: option.splits sum.splits if_splits)

section \<open>Every deployment comes to an end\<close>

text \<open>A database that does not fail of itself, whichever client the calls go through.\<close>

definition reliable :: "deployer \<Rightarrow> bool" where
  "reliable D \<longleftrightarrow> (\<forall>l op. o_fault (d_cli D) l op = None)
     \<and> (\<forall>f l h \<Omega>. d_hosts D = Some f \<longrightarrow> f l h = Inr \<Omega> \<longrightarrow> (\<forall>l op. o_fault \<Omega> l op = None))"

lemma store_call_reliable:
  "(\<And>l. o_fault \<Omega> l op = None) \<Longrightarrow>
     run_state (store_call \<Omega> op f) w = (fst (f (w_db w)), w\<lparr>w_log := w_log w @ [EStore op None], w_db := snd (f (w_db w))\<rparr>)"
  by (simp add: store_call_def emit_def run_state_bind Let_def case_prod_beta)

lemma forHost_reliable:
  "valid I (forHost D h) (\<lambda>r w. \<forall>D'. r = Inr D' \<longrightarrow> (\<forall>l op. reliable D \<longrightarrow> o_fault (d_cli D') l op = None))"
  by (auto simp: valid_def forHost_def try_with_def ok_def fail_def emit_def run_state_bind Let_def reliable_def
      split: option.split sum.split)

text \<open>The record exists and reading the stack's secrets has a given result; the record is finished with a given status; or
  it is left in progress.\<close>

definition running :: "string \<Rightarrow> string \<Rightarrow> gerr + stack_secret list \<Rightarrow> world \<Rightarrow> bool" where
  "running i sid secs w \<longleftrightarrow> GetDeployment i (w_db w) \<noteq> None \<and> ListStackSecrets sid (w_db w) = secs"

definition stuck_as :: "string \<Rightarrow> string \<Rightarrow> world \<Rightarrow> bool" where
  "stuck_as i s w \<longleftrightarrow> (\<exists>row. GetDeployment i (w_db w) = Some row \<and> dp_status row = s)"

definition settled_as :: "string \<Rightarrow> string \<Rightarrow> world \<Rightarrow> bool" where
  "settled_as i s w \<longleftrightarrow> (\<exists>row. GetDeployment i (w_db w) = Some row \<and> dp_status row = s \<and> dp_completed row \<noteq> None)"

lemma GetDeployment_update:
  "GetDeployment i (UpdateDeployment p d) =
     (if i = dp_id p then map_option (\<lambda>old. old\<lparr>dp_status := dp_status p, dp_commit := dp_commit p,
        dp_changes := dp_changes p, dp_error := dp_error p, dp_completed := dp_completed p\<rparr>) (GetDeployment i d)
      else GetDeployment i d)"
  by (simp add: GetDeployment_def UpdateDeployment_rows tbl_find_update)

lemma ListStackSecrets_cong:
  "cipher d = cipher d' \<Longrightarrow> t_secrets d = t_secrets d' \<Longrightarrow> ListStackSecrets sid d = ListStackSecrets sid d'"
proof -
  assume "cipher d = cipher d'" "t_secrets d = t_secrets d'"
  moreover from this have "scan_secret d = scan_secret d'" by (simp add: fun_eq_iff scan_secret_def decryptField_def)
  ultimately show ?thesis by (simp add: ListStackSecrets_def)
qed

lemma running_free: "deploy_free UNIV i (running i sid secs)"
proof -
  have eq: "running i sid secs w' = running i sid secs w"
    if "cipher (w_db w') = cipher (w_db w)" "t_secrets (w_db w') = t_secrets (w_db w)"
      "(GetDeployment i (w_db w') = None) = (GetDeployment i (w_db w) = None)" for w w'
    using that ListStackSecrets_cong[of "w_db w'" "w_db w"] by (simp add: running_def)
  show ?thesis
    unfolding deploy_free_def tolerates_def
    by (intro conjI allI impI; subst eq) (simp_all add: GetDeployment_def, simp_all add: UpdateDeployment_def tbl_find_update)
qed

lemma settled_as_free: "deploy_free {} i (settled_as i s)"
  unfolding deploy_free_def tolerates_def settled_as_def GetDeployment_def by simp

lemma save_settles:
  assumes "\<And>l op. o_fault (d_cli D) l op = None" "dp_id p = i" "dp_completed p \<noteq> None"
  shows "valid (running i sid secs) (save_deployment D p) (\<lambda>_. settled_as i (dp_status p))"
  using assms(2,3)
  by (auto simp: valid_def save_deployment_def store_call_reliable[OF assms(1)] writing_def running_def settled_as_def
      GetDeployment_update)

lemma finish_settles:
  assumes "\<And>l op. o_fault (d_cli D) l op = None" "dp_id p = i"
  shows "valid (running i sid secs) (finish_deployment D tr h err st p)
    (\<lambda>r w. snd (fst r) = err \<and> settled_as i (if err = None then DeploymentCompleted else DeploymentFailed) w)"
proof -
  let ?s = "if err = None then DeploymentCompleted else DeploymentFailed"
  have rest: "valid (settled_as i ?s) (do { (_, st) \<leftarrow> save_stack D st2; _ \<leftarrow> recordAudit \<Omega> a (e st);
      State_Monad.return ((Some q, err), st) }) (\<lambda>r w. snd (fst r) = err \<and> settled_as i ?s w)" for st2 \<Omega> a e q
  proof (rule valid_bind[OF save_stack_frame[OF settled_as_free, unfolded keeps_def]])
    fix x :: "unit res \<times> stack"
    show "valid (settled_as i ?s) (case x of (_, st) \<Rightarrow> do { _ \<leftarrow> recordAudit \<Omega> a (e st);
        State_Monad.return ((Some q, err), st) }) (\<lambda>r w. snd (fst r) = err \<and> settled_as i ?s w)"
      using recordAudit_frame[OF deploy_free_audit[OF settled_as_free], of i ?s \<Omega> a]
      by (cases x) (auto simp: valid_def keeps_def run_state_bind case_prod_beta)
  qed
  show ?thesis
    unfolding finish_deployment_def Let_def
  proof (rule valid_bind[OF free_ops(2)[OF running_free, unfolded keeps_def]], rule valid_bind[OF _ rest])
    fix t
    let ?p = "case err of Some e \<Rightarrow> p\<lparr>dp_completed := Some t, dp_status := DeploymentFailed, dp_error := err_msg e\<rparr>
        | None \<Rightarrow> p\<lparr>dp_completed := Some t, dp_status := DeploymentCompleted\<rparr>"
    have "valid (running i sid secs) (save_deployment D ?p) (\<lambda>_. settled_as i (dp_status ?p))"
      by (rule save_settles[OF assms(1)]) (use assms(2) in \<open>auto split: option.split\<close>)
    then show "valid (running i sid secs) (save_deployment D ?p) (\<lambda>_. settled_as i ?s)"
      by (cases err) simp_all
  qed
qed

lemma save_stack_id: "valid I (save_stack D st) (\<lambda>r w. st_id (snd r) = st_id st)"
  by (simp add: valid_def save_stack_def run_state_bind case_prod_beta)

lemma valid_and: "keeps I m \<Longrightarrow> valid I m R \<Longrightarrow> valid I m (\<lambda>a w. I w \<and> R a w)"
  by (simp add: keeps_def valid_def)

lemma valid_known: "(\<And>w. P w \<Longrightarrow> b) \<Longrightarrow> (b \<Longrightarrow> valid P m Q) \<Longrightarrow> valid P m Q"
  by (auto simp: valid_def)

definition settled_answer :: "string \<Rightarrow> deploy_answer \<Rightarrow> world \<Rightarrow> bool" where
  "settled_answer i r w \<longleftrightarrow> settled_as i (if snd (fst r) = None then DeploymentCompleted else DeploymentFailed) w"

lemma deploy_with_settles:
  assumes f: "\<And>l op. o_fault (d_cli D) l op = None" and i: "dp_id p = i"
  shows "valid (running i sid secs) (deploy_with D st p ss) (settled_answer i)"
  unfolding deploy_with_def Let_def
proof (rule valid_bind[OF executeDeploy_frame[OF running_free i UNIV_I]])
  fix x show "valid (\<lambda>w. running i sid secs w \<and> dp_id (snd (snd x)) = i) (finish_deployment D (dp_trigger p)
      (HashStackSecrets (d_sha256 D) ss) (fst x) (fst (snd x)) (snd (snd x))) (settled_answer i)"
  proof (rule valid_known[of _ "dp_id (snd (snd x)) = i"])
    assume "dp_id (snd (snd x)) = i"
    from finish_settles[OF f this] show "valid (\<lambda>w. running i sid secs w \<and> dp_id (snd (snd x)) = i) (finish_deployment D
        (dp_trigger p) (HashStackSecrets (d_sha256 D) ss) (fst x) (fst (snd x)) (snd (snd x))) (settled_answer i)"
      by (rule valid_conseq) (auto simp: settled_answer_def split: if_splits)
  qed simp
qed

lemma run_settles:
  assumes f: "\<And>l op. o_fault (d_cli D) l op = None" and i: "dp_id p = i" and sid: "st_id st = sid"
  shows "valid (running i sid (Inr secs)) (run_on_host D st p) (settled_answer i)"
proof -
  let ?R = "running i sid (Inr secs)"
  have "valid ?R (store_call (d_cli D) op (reading (ListStackSecrets sid))) (\<lambda>r w. r = Inr secs)" for op
    by (auto simp: valid_def store_call_reliable[OF f] reading_def running_def)
  note sec = valid_and[OF free_ops(3)[OF running_free] this]
  have last: "valid (\<lambda>w. ?R w \<and> r = Inr secs)
      (case r of Inl e \<Rightarrow> secrets_failed D st' q e | Inr secrets \<Rightarrow> deploy_with D st' q secrets) (settled_answer i)"
    if "dp_id q = i" for r q st'
    by (rule valid_known[of _ "r = Inr secs"]) (auto intro!: valid_conseq[OF deploy_with_settles[OF f that]])
  have tail: "valid (\<lambda>w. ?R w \<and> st_id (snd x) = sid) (case x of (_, st') \<Rightarrow> do {
      _ \<leftarrow> save_deployment D q; r \<leftarrow> store_call (d_cli D) op (reading (ListStackSecrets (st_id st')));
      case r of Inl e \<Rightarrow> secrets_failed D st' q e | Inr secrets \<Rightarrow> deploy_with D st' q secrets }) (settled_answer i)"
    if "dp_id q = i" for q op and x :: "unit res \<times> stack"
  proof (rule valid_known[of _ "st_id (snd x) = sid"])
    assume id: "st_id (snd x) = sid"
    obtain u st' where x: "x = (u, st')" by fastforce
    have "valid ?R (do { _ \<leftarrow> save_deployment D q; r \<leftarrow> store_call (d_cli D) op (reading (ListStackSecrets sid));
      case r of Inl e \<Rightarrow> secrets_failed D st' q e | Inr secrets \<Rightarrow> deploy_with D st' q secrets }) (settled_answer i)"
      by (rule valid_bind[OF save_deployment_frame[OF running_free that UNIV_I, unfolded keeps_def] valid_bind[OF sec last[OF that]]])
    then show "valid (\<lambda>w. ?R w \<and> st_id (snd x) = sid) (case x of (_, st') \<Rightarrow> do {
      _ \<leftarrow> save_deployment D q; r \<leftarrow> store_call (d_cli D) op (reading (ListStackSecrets (st_id st')));
      case r of Inl e \<Rightarrow> secrets_failed D st' q e | Inr secrets \<Rightarrow> deploy_with D st' q secrets }) (settled_answer i)"
      using id by (auto simp: x elim: valid_conseq)
  qed simp
  have saved: "valid ?R (save_stack D (st\<lparr>st_status := s\<rparr>)) (\<lambda>r w. ?R w \<and> st_id (snd r) = sid)" for s
    by (rule valid_conseq[OF valid_and[OF save_stack_frame[OF running_free] save_stack_id]]) (use sid in auto)
  show ?thesis
    unfolding run_on_host_def Let_def
    by (rule valid_bind[OF free_ops(2)[OF running_free, unfolded keeps_def] valid_bind[OF saved tail]]) (simp add: i)
qed

lemma run_stuck:
  assumes f: "\<And>l op. o_fault (d_cli D) l op = None" and i: "dp_id p = i" and sid: "st_id st = sid"
  shows "valid (running i sid (Inl e)) (run_on_host D st p)
     (\<lambda>r w. snd (fst r) \<noteq> None \<and> stuck_as i DeploymentInProgress w)"
proof -
  let ?R = "running i sid (Inl e)"
  let ?Q = "\<lambda>r w. snd (fst r) \<noteq> None \<and> stuck_as i DeploymentInProgress w"
  have same: "ListStackSecrets s (UpdateDeployment q d) = ListStackSecrets s d" for s q d
    by (rule ListStackSecrets_cong) (simp_all add: UpdateDeployment_def)
  have tail: "valid (\<lambda>w. ?R w \<and> st_id (snd x) = sid) (case x of (_, st') \<Rightarrow> do {
      _ \<leftarrow> save_deployment D q; r \<leftarrow> store_call (d_cli D) op (reading (ListStackSecrets (st_id st')));
      case r of Inl e \<Rightarrow> secrets_failed D st' q e | Inr secrets \<Rightarrow> deploy_with D st' q secrets }) ?Q"
    if "dp_id q = i" "dp_status q = DeploymentInProgress" for q op and x :: "unit res \<times> stack"
    using that
    by (cases x) (auto simp: valid_def running_def stuck_as_def save_deployment_def secrets_failed_def run_state_bind
        store_call_reliable[OF f] writing_def reading_def same GetDeployment_update)
  have saved: "valid ?R (save_stack D (st\<lparr>st_status := s\<rparr>)) (\<lambda>r w. ?R w \<and> st_id (snd r) = sid)" for s
    by (rule valid_conseq[OF valid_and[OF save_stack_frame[OF running_free] save_stack_id]]) (use sid in auto)
  show ?thesis
    unfolding run_on_host_def Let_def
    by (rule valid_bind[OF free_ops(2)[OF running_free, unfolded keeps_def] valid_bind[OF saved tail]]) (simp_all add: i)
qed

lemma host_failed_settles:
  assumes "\<And>l op. o_fault (d_cli D) l op = None"
  shows "valid (running (dp_id p) sid secs) (host_failed D st p e)
     (\<lambda>r w. snd (fst r) \<noteq> None \<and> settled_as (dp_id p) DeploymentFailed w)"
proof -
  let ?S = "settled_as (dp_id p) DeploymentFailed"
  have s: "valid ?S (do { (_, st) \<leftarrow> save_stack D st'; State_Monad.return ((Some q, Some e), st) })
      (\<lambda>r w. snd (fst r) \<noteq> None \<and> ?S w)" for st' q
    using save_stack_frame[OF settled_as_free, of "dp_id p" DeploymentFailed D st']
    by (auto simp: valid_def keeps_def run_state_bind case_prod_beta)
  have "valid (running (dp_id p) sid secs) (save_deployment D
      (p\<lparr>dp_status := DeploymentFailed, dp_error := err_msg e, dp_completed := Some t\<rparr>)) (\<lambda>_. ?S)" for t
    using save_settles[OF assms, of "p\<lparr>dp_status := DeploymentFailed, dp_error := err_msg e, dp_completed := Some t\<rparr>"] by simp
  then show ?thesis
    unfolding host_failed_def Let_def
    by (intro valid_bind[OF free_ops(2)[OF running_free, unfolded keeps_def] valid_bind[OF _ s]])
qed

lemma forHost_answer:
  "valid I (forHost D h) (\<lambda>r w. (\<forall>D'. r = Inr D' \<longrightarrow> (\<forall>l op. reliable D \<longrightarrow> o_fault (d_cli D') l op = None)) \<and> (h = [] \<longrightarrow> r = Inr D))"
  using forHost_reliable[of I D h] by (auto simp: valid_def forHost_def ok_def)

definition ended :: "stack \<Rightarrow> string \<Rightarrow> gerr + stack_secret list \<Rightarrow> deploy_answer \<Rightarrow> world \<Rightarrow> bool" where
  "ended st i secs r w \<longleftrightarrow>
     (case secs of
        Inr _ \<Rightarrow> settled_answer i r w
      | Inl _ \<Rightarrow> snd (fst r) \<noteq> None
          \<and> (stuck_as i DeploymentInProgress w \<or> settled_as i DeploymentFailed w \<and> HostID st \<noteq> []))"

lemma host_failed_ended:
  assumes "reliable D" "HostID st \<noteq> []"
  shows "valid (running (dp_id p) sid secs) (host_failed D st p e) (ended st (dp_id p) secs)"
proof (rule valid_conseq[OF host_failed_settles[of D p sid secs st e]])
  show "o_fault (d_cli D) l op = None" for l op using assms(1) by (simp add: reliable_def)
  show "snd (fst r) \<noteq> None \<and> settled_as (dp_id p) DeploymentFailed w \<Longrightarrow> ended st (dp_id p) secs r w" for r w
    using assms(2) by (auto simp: ended_def settled_answer_def split: sum.split)
qed

lemma run_on_host_ended:
  assumes "\<And>l op. o_fault (d_cli D) l op = None"
  shows "valid (running (dp_id p) (st_id st) secs) (run_on_host D st p) (ended st (dp_id p) secs)"
proof (cases secs)
  case (Inl e)
  show ?thesis unfolding Inl
    by (rule valid_conseq[OF run_stuck[OF assms refl refl, of p st e]]) (simp_all add: ended_def)
next
  case (Inr ss)
  show ?thesis unfolding Inr
    by (rule valid_conseq[OF run_settles[OF assms refl refl, of p st ss]]) (simp_all add: ended_def)
qed

lemma runDeployment_settles:
  assumes "reliable D"
  shows "valid (running (dp_id p) (st_id st) secs) (runDeployment D st p) (ended st (dp_id p) secs)"
  unfolding runDeployment_def
proof (rule valid_bind[OF valid_and[OF forHost_frame[OF running_free] forHost_answer]])
  fix h
  let ?R = "running (dp_id p) (st_id st) secs"
  show "valid (\<lambda>w. ?R w \<and> (\<forall>D'. h = Inr D' \<longrightarrow> (\<forall>l op. reliable D \<longrightarrow> o_fault (d_cli D') l op = None))
        \<and> (HostID st = [] \<longrightarrow> h = Inr D))
      (case h of Inl e \<Rightarrow> host_failed D st p e | Inr D' \<Rightarrow> run_on_host D' st p) (ended st (dp_id p) secs)"
    using host_failed_ended[OF assms, of st p "st_id st" secs] run_on_host_ended[of _ p st secs] assms
    by (cases h) (auto simp: valid_def)
qed

text \<open>C12. How a deployment ends: when the database works, running a record always returns. If the secrets of the stack
  can be read, the record is then completed, if and only if there was no error, or failed, with its completion time,
  whatever Docker, git, the file system and the registered hosts answer. If they cannot (a rotated or missing
  encryption key), the answer is an error and the record is left in progress for ever, unless the stack's host could
  not be reached in the first place, which fails the record. So no deployment ends as \<open>rolled_back\<close>, a status
  the documentation lists.\<close>

theorem deployment_settles:
  assumes "reliable D" "GetDeployment (dp_id p) (w_db w) \<noteq> None"
    and "run_state (runDeployment D st p) w = (((rp, err), st'), w')"
  shows "\<exists>row. GetDeployment (dp_id p) (w_db w') = Some row \<and>
    (case ListStackSecrets (st_id st) (w_db w) of
       Inr secs \<Rightarrow> dp_status row = (if err = None then ''completed'' else ''failed'') \<and> dp_completed row \<noteq> None
     | Inl e \<Rightarrow> err \<noteq> None \<and> (if dp_status row = ''failed'' then HostID st \<noteq> [] \<and> dp_completed row \<noteq> None
         else dp_status row = ''in_progress''))"
proof -
  let ?secs = "ListStackSecrets (st_id st) (w_db w)"
  have "running (dp_id p) (st_id st) ?secs w" using assms(2) by (simp add: running_def)
  with runDeployment_settles[OF assms(1)] have "ended st (dp_id p) ?secs ((rp, err), st') w'" using assms(3) by (rule validD)
  then obtain row where "GetDeployment (dp_id p) (w_db w') = Some row" "case ?secs of
       Inr secs \<Rightarrow> dp_status row = (if err = None then ''completed'' else ''failed'') \<and> dp_completed row \<noteq> None
     | Inl e \<Rightarrow> err \<noteq> None \<and> (if dp_status row = ''failed'' then HostID st \<noteq> [] \<and> dp_completed row \<noteq> None
         else dp_status row = ''in_progress'')"
    by (cases ?secs) (auto simp: ended_def settled_answer_def settled_as_def stuck_as_def status_defs)
  then show ?thesis by blast
qed

section \<open>A concrete deployer\<close>

definition demo_file :: compose_file where
  "demo_file = \<lparr>cf_services = [(''web'', demo_web)], cf_networks = [], cf_volumes = []\<rparr>"

definition demo_deployer :: deployer where
  "demo_deployer = \<lparr>d_cli = demo_docker, d_hosts = None, d_stacks_dir = ''/data'', d_cwd = ''/'', d_audit = Some StoreRecorder,
     d_policy = \<lparr>MaxAttempts = 1, BaseDelay = 0, MaxDelay = 0\<rparr>, d_parsers = demo_parsers,
     d_unicode = \<lparr>uni_letter = (\<lambda>_. False), uni_digit = (\<lambda>_. False)\<rparr>, d_yaml = (\<lambda>_. Inr demo_file), d_sha256 = (\<lambda>s. s),
     d_order = (\<lambda>_ xs. xs), d_seconds = (\<lambda>_. ''0.000''), d_duration = (\<lambda>_. ''1h0m0s'')\<rparr>"

definition demo_gated :: stack where "demo_gated = demo_stack\<lparr>RequiresApproval := True\<rparr>"

definition demo_done :: deployment where
  "demo_done = (new_deployment ''d0'' demo_stack DeploymentCompleted TriggerManual 1)\<lparr>dp_completed := Some 2\<rparr>"

definition demo_history :: world where
  "demo_history = demo_world\<lparr>w_db := (w_db demo_world)\<lparr>t_deployments := [demo_done]\<rparr>\<rparr>"

definition demo_run_deploy :: "stack \<Rightarrow> world \<Rightarrow> world" where
  "demo_run_deploy st w = snd (run_state (Deploy demo_deployer st TriggerManual) w)"

lemma demo_history_rows: "t_deployments (w_db demo_history) = [demo_done]" "t_secrets (w_db demo_history) = []"
  by (simp_all add: demo_history_def demo_world_def empty_db_def)

theorem approval_gate_witness:
  "RequiresApproval demo_gated \<and> list_all bookkeeping (w_log (demo_run_deploy demo_gated demo_history))"
proof -
  have g: "RequiresApproval demo_gated" by (simp add: demo_gated_def)
  obtain r st' where "run_state (Deploy demo_deployer demo_gated TriggerManual) demo_history
      = ((r, st'), demo_run_deploy demo_gated demo_history)"
    unfolding demo_run_deploy_def by (metis prod.exhaust_sel)
  from approval_gate[OF g this] g show ?thesis by (auto simp: demo_history_def demo_world_def)
qed

theorem approve_needs_pending_witness:
  "w_db (snd (run_state (ApproveDeployment demo_deployer ''d0'') demo_history)) = w_db demo_history"
proof -
  have "GetDeployment ''d0'' (w_db demo_history) = Some demo_done"
    by (simp add: GetDeployment_def tbl_find_def demo_history_rows demo_done_def new_deployment_def)
  moreover have "dp_status demo_done \<noteq> DeploymentPendingApproval"
    by (simp add: demo_done_def new_deployment_def status_defs)
  ultimately show ?thesis
    using approve_needs_pending[of demo_deployer "''d0''" demo_history] by (metis option.inject prod.exhaust_sel)
qed

theorem deployment_settles_witness:
  "\<exists>row. GetDeployment ''d0'' (w_db (snd (run_state (runDeployment demo_deployer demo_stack demo_done) demo_history))) = Some row
     \<and> dp_completed row \<noteq> None"
proof -
  obtain rp err st' w' where run: "run_state (runDeployment demo_deployer demo_stack demo_done) demo_history = (((rp, err), st'), w')"
    by (metis prod.exhaust_sel)
  have "reliable demo_deployer" by (simp add: reliable_def demo_deployer_def demo_docker_def)
  moreover have i: "dp_id demo_done = ''d0''" by (simp add: demo_done_def new_deployment_def)
  moreover have "GetDeployment (dp_id demo_done) (w_db demo_history) \<noteq> None"
    by (simp add: GetDeployment_def tbl_find_def demo_history_rows)
  moreover have s: "ListStackSecrets (st_id demo_stack) (w_db demo_history) = Inr []"
    by (simp add: ListStackSecrets_def demo_history_rows)
  ultimately obtain row where "GetDeployment ''d0'' (w_db w') = Some row" "dp_completed row \<noteq> None"
    using deployment_settles[OF _ _ run] by auto
  then show ?thesis using run by simp
qed

section \<open>The wedge\<close>

text \<open>When the stack's secrets cannot be read (a rotated or missing encryption key), runDeployment returns with an error
  but leaves the record in progress; so does the stack, and nothing ever takes either further.\<close>

lemma secrets_error_wedges:
  assumes "HostID st = []" "\<And>l op. o_fault (d_cli D) l op = None" "GetDeployment (dp_id p) (w_db w) \<noteq> None"
    and "\<And>d. cipher d = cipher (w_db w) \<Longrightarrow> t_secrets d = t_secrets (w_db w) \<Longrightarrow> ListStackSecrets (st_id st) d = Inl e"
    and "run_state (runDeployment D st p) w = (((rp, err), st'), w')"
  shows "err \<noteq> None \<and> rp = None \<and> (\<exists>row. GetDeployment (dp_id p) (w_db w') = Some row \<and> dp_status row = DeploymentInProgress)"
proof -
  have c: "cipher (snd (UpdateStack t n1 n2 s d)) = cipher d" "t_secrets (snd (UpdateStack t n1 n2 s d)) = t_secrets d"
    "t_deployments (snd (UpdateStack t n1 n2 s d)) = t_deployments d" for t n1 n2 s d
    by simp_all
  have wr: "snd (writing f d) = snd (f d)" for f d by (simp add: writing_def split: prod.split option.split)
  have u: "cipher (UpdateDeployment q d) = cipher d" "t_secrets (UpdateDeployment q d) = t_secrets d" for q d
    by (simp_all add: UpdateDeployment_def)
  have g: "GetDeployment i d = tbl_find dp_id i (t_deployments d)" for i d by (simp add: GetDeployment_def)
  obtain row where row: "tbl_find dp_id (dp_id p) (t_deployments (w_db w)) = Some row"
    using assms(3) by (auto simp: g)
  show ?thesis
    using assms(5)
    by (auto simp: runDeployment_def forHost_def assms(1) ok_def run_on_host_def now_def emit_def run_state_bind Let_def
        save_stack_def store_call_reliable[OF assms(2)] save_deployment_def wr reading_def secrets_failed_def c u assms(4)
        g UpdateDeployment_rows tbl_find_update row)
qed

end
