(* ===== verification/Drift.thy ===== *)
theory Drift
  imports Deployments
begin

text \<open>
  The drift check of internal/reconciler/reconciler.go: the desired state from a fresh clone, the actual containers,
  networks, volumes and secrets, and the items of the report. What is compared is a pure function of what was read; the
  theorem says exactly when it reports nothing. The order of a Go map's iteration is an argument.
\<close>

section \<open>Desired state\<close>

record reconciler =
  r_cli :: outside
  r_hosts :: "(log \<Rightarrow> string \<Rightarrow> outside res) option"
  r_deployer :: deployer
  r_audit :: "recorder option"
  r_policy :: retry_policy
  r_tmp :: string
  r_order :: "nat \<Rightarrow> string list \<Rightarrow> string list"

definition dockerFor :: "reconciler \<Rightarrow> string \<Rightarrow> outside res act" where
  "dockerFor R hostID =
     (if hostID = [] then ok (r_cli R)
      else case r_hosts R of
        None \<Rightarrow> ok (r_cli R)
      | Some clientFor \<Rightarrow> try_with (ErrWrap (''resolve docker host '' @ hostID @ '': ''))
            (emit (\<lambda>l. clientFor l hostID) (\<lambda>r. EHost hostID (res_err r))) ok)"

definition secureTempDir :: "reconciler \<Rightarrow> string \<Rightarrow> string res act" where
  "secureTempDir R stackID =
     try_with (ErrWrap ''generate random suffix: '') (generateID (r_cli R)) (\<lambda>suffix.
       let dir = Join (r_tmp R) (''accelero-reconcile-'' @ stackID @ ''-'' @ suffix) in
       try_with (ErrWrap (''mkdir '' @ dir @ '': '')) (MkdirAll (r_cli R) dir) (\<lambda>_. ok dir))"

definition drift_clone_attempt :: "outside \<Rightarrow> string \<Rightarrow> stack \<Rightarrow> unit res act" where
  "drift_clone_attempt \<Omega> dir st =
     try_with (\<lambda>e. ErrPermanent (ErrWrap (''clear temp clone dir '' @ dir @ '': '') e)) (RemoveAll \<Omega> dir) (\<lambda>_.
     try_with (\<lambda>e. ErrPermanent (ErrWrap (''recreate temp clone dir '' @ dir @ '': '') e)) (MkdirAll \<Omega> dir) (\<lambda>_. do {
       r \<leftarrow> PlainClone \<Omega> (clone_opts_of dir st);
       case r of
         Inl e \<Rightarrow> fail (if IsPermanentCloneError e then ErrPermanent (ErrWrap ''git clone: '' e) else ErrWrap ''git clone: '' e)
       | Inr _ \<Rightarrow> ok () }))"

text \<open>The compose file of the clone: no check of the path and no default for an empty one, unlike readComposeFile.\<close>

definition desired_file :: "deployer \<Rightarrow> (string \<Rightarrow> string res) \<Rightarrow> string \<Rightarrow> string \<Rightarrow> compose_file res" where
  "desired_file D read_file tmpDir path =
     (let composePath = Join tmpDir path in
      case read_file composePath of
        Inl e \<Rightarrow> Inl (ErrWrap (''read compose file '' @ path @ '': '') e)
      | Inr data \<Rightarrow>
        (case loadComposeEnv (LoadDotEnv (d_unicode D) read_file) tmpDir composePath of
           Inl e \<Rightarrow> Inl e
         | Inr (vars, envPath) \<Rightarrow>
           (case Expand data (case vars of None \<Rightarrow> Map.empty | Some m \<Rightarrow> m) of
              Inl e \<Rightarrow> Inl (ErrWrap ''interpolate compose file: '' e)
            | Inr expanded \<Rightarrow>
              (case d_yaml D expanded of
                 Inl e \<Rightarrow> Inl (ErrWrap ''parse compose file: '' e)
               | Inr cf \<Rightarrow> Inr cf))))"

definition fetchDesiredState :: "reconciler \<Rightarrow> stack \<Rightarrow> compose_file res act" where
  "fetchDesiredState R st =
     try_with (ErrWrap ''create temp dir: '') (secureTempDir R (st_id st)) (\<lambda>tmpDir. do {
       r \<leftarrow> try_with id (retry_step (r_cli R) (r_policy R) (drift_clone_attempt (r_cli R) tmpDir st)) (\<lambda>_.
              emit (\<lambda>l. desired_file (r_deployer R) (o_read (r_cli R) l) tmpDir (ComposePath st))
                   (\<lambda>r. EReadCompose tmpDir (res_err r)));
       _ \<leftarrow> RemoveAll (r_cli R) tmpDir;
       State_Monad.return r })"

definition listStackContainers :: "outside \<Rightarrow> string \<Rightarrow> container_summary list res act" where
  "listStackContainers \<Omega> stackName =
     try_with (ErrWrap ''docker container list: '') (emit (\<lambda>l. o_list_stack \<Omega> l stackName) (EListStack stackName)) ok"

definition filterServices :: "services \<Rightarrow> string \<Rightarrow> services" where
  "filterServices svcs flt =
     (if trim_space flt = [] then svcs
      else let names = filter (\<lambda>n. n \<noteq> []) (List.map trim_space (split_on CHR '','' flt))
           in filter (\<lambda>(name, svc). name \<in> set names) svcs)"

section \<open>Images\<close>

definition normalise_image :: "string \<Rightarrow> string" where
  "normalise_image img =
     (if contains_str img ''@sha256:'' then img
      else case cut CHR '':'' img of (_, None) \<Rightarrow> img @ '':latest'' | _ \<Rightarrow> img)"

definition strip_registry :: "string \<Rightarrow> string" where
  "strip_registry img = trim_prefix (trim_prefix (trim_prefix img ''docker.io/library/'') ''docker.io/'') ''index.docker.io/''"

definition imagesMatch :: "string \<Rightarrow> string \<Rightarrow> bool" where
  "imagesMatch desired actual =
     (if desired = actual then True
      else let d = normalise_image desired; a = normalise_image actual
           in if d = a then True else strip_registry d = strip_registry a)"

section \<open>Actual state\<close>

fun deriveServiceName :: "string list \<Rightarrow> string" where
  "deriveServiceName [] = []"
| "deriveServiceName (name # names) =
     (let n = trim_prefix name ''/'' in
      case index_byte n CHR ''_'' of
        Some i \<Rightarrow> if i > 0 then take i n else deriveServiceName names
      | None \<Rightarrow> deriveServiceName names)"

record actual_container =
  ac_id :: string
  ac_image :: string
  ac_state :: string
  ac_health :: string

definition service_of :: "container_summary \<Rightarrow> string" where
  "service_of c =
     (let l = (case map_of (sm_labels c) ''accelero-service'' of Some s \<Rightarrow> s | None \<Rightarrow> []) in
      if l = [] then deriveServiceName (sm_names c) else l)"

definition health_of :: "container_info res \<Rightarrow> string" where
  "health_of r = (case r of
     Inl _ \<Rightarrow> []
   | Inr info \<Rightarrow> (case ci_state info of None \<Rightarrow> [] | Some st \<Rightarrow> (case Health st of None \<Rightarrow> [] | Some h \<Rightarrow> h)))"

fun gather_actual :: "outside \<Rightarrow> container_summary list \<Rightarrow> (string \<times> actual_container) list \<Rightarrow> (string \<times> actual_container) list act" where
  "gather_actual \<Omega> [] acc = State_Monad.return acc"
| "gather_actual \<Omega> (c # cs) acc =
     (let svcName = service_of c in
      if svcName = [] then gather_actual \<Omega> cs acc
      else do {
        r \<leftarrow> ContainerInspect \<Omega> (sm_id c);
        gather_actual \<Omega> cs (acc @ [(svcName, \<lparr>ac_id = sm_id c, ac_image = sm_image c, ac_state = sm_state c,
                                            ac_health = health_of r\<rparr>)]) })"

definition actual_of :: "(string \<times> actual_container) list \<Rightarrow> string \<Rightarrow> actual_container list" where
  "actual_of actual svcName = List.map snd (filter (\<lambda>(n, c). n = svcName) actual)"

section \<open>The report\<close>

record drift_item =
  di_service :: string
  di_type :: string
  di_expected :: string
  di_actual :: string
  di_message :: string

record drift_report =
  dr_stack :: string
  dr_stack_name :: string
  dr_checked :: gotime
  HasDrift :: bool
  Drifts :: "drift_item list"

definition drift :: "string \<Rightarrow> string \<Rightarrow> string \<Rightarrow> string \<Rightarrow> string \<Rightarrow> drift_item" where
  "drift svc ty expected actual msg =
     \<lparr>di_service = svc, di_type = ty, di_expected = expected, di_actual = actual, di_message = msg\<rparr>"

definition container_drifts :: "string \<Rightarrow> compose_service \<Rightarrow> actual_container \<Rightarrow> drift_item list" where
  "container_drifts svcName svc c =
     (if \<not> imagesMatch (cs_image svc) (ac_image c)
      then [drift svcName ''image_mismatch'' (cs_image svc) (ac_image c)
              (''container '' @ short12 (ac_id c) @ '' has image '' @ ac_image c @ '', expected '' @ cs_image svc)] else []) @
     (if ac_state c \<noteq> ''running''
      then [drift svcName ''stopped'' ''running'' (ac_state c)
              (''container '' @ short12 (ac_id c) @ '' for service '' @ svcName @ '' is '' @ ac_state c @ '', expected running'')] else []) @
     (if ac_health c = ''unhealthy''
      then [drift svcName ''unhealthy'' ''healthy'' (ac_health c)
              (''container '' @ short12 (ac_id c) @ '' for service '' @ svcName @ '' is unhealthy'')] else [])"

definition count_drift :: "string \<Rightarrow> int \<Rightarrow> nat \<Rightarrow> drift_item list" where
  "count_drift svcName desired n =
     (if int n < desired
      then [drift svcName ''missing'' (dec_int desired @ '' replica(s)'') (dec_nat n @ '' replica(s)'')
              (''service '' @ svcName @ '' has '' @ dec_nat n @ '' replica(s) but '' @ dec_int desired @ '' are declared'')] else []) @
     (if int n > desired
      then [drift svcName ''extra'' (dec_int desired @ '' replica(s)'') (dec_nat n @ '' replica(s)'')
              (''service '' @ svcName @ '' has '' @ dec_int (int n - desired) @ '' surplus replica(s) (declared ''
                 @ dec_int desired @ '', actual '' @ dec_nat n @ '')'')] else [])"

definition service_drifts :: "string \<Rightarrow> compose_service \<Rightarrow> actual_container list \<Rightarrow> drift_item list" where
  "service_drifts svcName svc containers =
     (let desired = DesiredReplicas svc in
      if containers = [] then
        [drift svcName ''missing'' (cs_image svc) []
           (''service '' @ svcName @ '' is defined in compose but has no running container (want '' @ dec_int desired @ '' replica(s))'')]
      else count_drift svcName desired (length containers) @ concat (List.map (container_drifts svcName svc) containers))"

definition extra_drifts :: "services \<Rightarrow> string list \<Rightarrow> drift_item list" where
  "extra_drifts svcs names =
     List.map (\<lambda>n. drift n ''extra'' [] [] (''container(s) for service '' @ n @ '' exist but service is not defined in compose''))
       (filter (\<lambda>n. map_of svcs n = None) names)"

definition network_drifts :: "string list \<Rightarrow> string list \<Rightarrow> drift_item list" where
  "network_drifts existing desired =
     List.map (\<lambda>n. drift ''(network)'' ''missing'' n [] (''network '' @ n @ '' is defined in compose but does not exist on host''))
       (filter (\<lambda>n. n \<notin> set existing) desired)"

definition resolveDriftVolumeName :: "string \<Rightarrow> string \<Rightarrow> compose_volume \<Rightarrow> string" where
  "resolveDriftVolumeName stackName logicalName cfg =
     (if cv_name cfg \<noteq> [] then cv_name cfg
      else if External cfg then logicalName
      else ''accelero_'' @ stackName @ ''_'' @ logicalName)"

definition volume_drift :: "string list \<Rightarrow> string \<Rightarrow> string \<times> compose_volume \<Rightarrow> drift_item list" where
  "volume_drift existing stackName v =
     (let name = resolveDriftVolumeName stackName (fst v) (snd v) in
      if name \<in> set existing then []
      else if External (snd v)
      then [drift ''(volume)'' ''missing_external'' name [] (''external volume '' @ quoted name @ '' is declared but does not exist on host'')]
      else [drift ''(volume)'' ''missing'' name [] (''volume '' @ quoted name @ '' is defined in compose but does not exist on host'')])"

definition secrets_drift :: "string \<Rightarrow> string \<Rightarrow> drift_item list" where
  "secrets_drift currentHash deployedHash =
     (if currentHash \<noteq> deployedHash
      then [drift ''(secrets)'' ''secrets_changed'' [] []
              ''stack secrets have been rotated since the last successful deploy; a redeploy will inject the new values'']
      else [])"

text \<open>What the check has read: None where a listing failed or was not needed.\<close>

record observed =
  ob_actual :: "(string \<times> actual_container) list"
  ob_networks :: "string list option"
  ob_volumes :: "string list option"
  ob_secrets :: "string option"

definition drift_items :: "(nat \<Rightarrow> string list \<Rightarrow> string list) \<Rightarrow> stack \<Rightarrow> compose_file \<Rightarrow> observed \<Rightarrow> drift_item list" where
  "drift_items ord st cf ob =
     (let svcs = filterServices (cf_services cf) (ServiceFilter st) in
      concat (List.map (\<lambda>n. case map_of svcs n of None \<Rightarrow> [] | Some svc \<Rightarrow> service_drifts n svc (actual_of (ob_actual ob) n))
                       (ord 0 (List.map fst svcs))) @
      extra_drifts svcs (ord 1 (remdups (List.map fst (ob_actual ob)))) @
      (case ob_networks ob of None \<Rightarrow> [] | Some existing \<Rightarrow> network_drifts existing (List.map fst (cf_networks cf))) @
      (case ob_volumes ob of None \<Rightarrow> [] | Some existing \<Rightarrow> concat (List.map (volume_drift existing (st_name st)) (cf_volumes cf))) @
      (case ob_secrets ob of None \<Rightarrow> [] | Some h \<Rightarrow> secrets_drift h (SecretsHash st)))"

definition answered :: "'a res \<Rightarrow> 'a option" where
  "answered r = (case r of Inl _ \<Rightarrow> None | Inr x \<Rightarrow> Some x)"

definition observe :: "reconciler \<Rightarrow> outside \<Rightarrow> stack \<Rightarrow> compose_file \<Rightarrow> container_summary list \<Rightarrow> observed act" where
  "observe R \<Omega> st cf containers = do {
     actual \<leftarrow> gather_actual \<Omega> containers [];
     nets \<leftarrow> (if cf_networks cf = [] then State_Monad.return None
             else do { r \<leftarrow> emit (o_net_list \<Omega>) ENetList; State_Monad.return (answered r) });
     vols \<leftarrow> (if cf_volumes cf = [] then State_Monad.return None
             else do { r \<leftarrow> emit (o_vol_list \<Omega>) EVolList; State_Monad.return (answered r) });
     secs \<leftarrow> store_call (r_cli R) ''ListStackSecrets'' (reading (ListStackSecrets (st_id st)));
     State_Monad.return \<lparr>ob_actual = actual, ob_networks = nets, ob_volumes = vols,
       ob_secrets = map_option (HashStackSecrets (d_sha256 (r_deployer R))) (answered secs)\<rparr> }"

definition checkDrift :: "reconciler \<Rightarrow> stack \<Rightarrow> drift_report res act" where
  "checkDrift R st = do {
     t \<leftarrow> now (r_cli R);
     try_with id (dockerFor R (HostID st)) (\<lambda>\<Omega>.
     try_with (ErrWrap ''fetch desired state: '') (fetchDesiredState R st) (\<lambda>cf.
     try_with (ErrWrap ''list stack containers: '') (listStackContainers \<Omega> (st_name st)) (\<lambda>containers. do {
       ob \<leftarrow> observe R \<Omega> st cf containers;
       let ds = drift_items (r_order R) st cf ob in
       ok \<lparr>dr_stack = st_id st, dr_stack_name = st_name st, dr_checked = t, HasDrift = length ds > 0, Drifts = ds\<rparr> }))) }"

section \<open>When there is drift\<close>

lemma imagesMatch_strip: "imagesMatch d a \<longleftrightarrow> strip_registry (normalise_image d) = strip_registry (normalise_image a)"
  by (auto simp: imagesMatch_def Let_def)

lemma container_drifts_nil:
  "container_drifts n svc c = [] \<longleftrightarrow> imagesMatch (cs_image svc) (ac_image c) \<and> ac_state c = ''running'' \<and> ac_health c \<noteq> ''unhealthy''"
  by (simp add: container_drifts_def)

lemma service_drifts_nil:
  "service_drifts n svc cs = [] \<longleftrightarrow> int (length cs) = DesiredReplicas svc
     \<and> (\<forall>c \<in> set cs. imagesMatch (cs_image svc) (ac_image c) \<and> ac_state c = ''running'' \<and> ac_health c \<noteq> ''unhealthy'')"
  using DesiredReplicas_pos[of svc]
  by (auto simp: service_drifts_def Let_def count_drift_def container_drifts_nil)

section \<open>What an image reference means\<close>

text \<open>
  The specification of images, apart from the comparison in the code. A reference is written as an optional registry, a
  path, and nothing, a tag or a sha256 digest; Docker Hub is meant by no registry and by its two names, a path without
  a slash is one of its library, and no version means the tag latest. Two references mean the same image when registry,
  repository and version are the same.
\<close>

datatype image_version = Untagged | Tagged string | Pinned string

record image_ref =
  im_registry :: "string option"
  im_path :: string
  im_version :: image_version

fun written_version :: "image_version \<Rightarrow> string" where
  "written_version Untagged = []"
| "written_version (Tagged t) = '':'' @ t"
| "written_version (Pinned d) = ''@sha256:'' @ d"

definition written :: "image_ref \<Rightarrow> string" where
  "written i = (case im_registry i of None \<Rightarrow> [] | Some h \<Rightarrow> h @ ''/'') @ im_path i @ written_version (im_version i)"

definition on_hub :: "image_ref \<Rightarrow> bool" where
  "on_hub i \<longleftrightarrow> im_registry i \<in> {None, Some ''docker.io'', Some ''index.docker.io''}"

fun version_meant :: "image_version \<Rightarrow> image_version" where
  "version_meant Untagged = Tagged ''latest''"
| "version_meant v = v"

definition meant :: "image_ref \<Rightarrow> string \<times> string \<times> image_version" where
  "meant i = (if on_hub i then ''docker.io'' else the (im_registry i),
              if on_hub i \<and> CHR ''/'' \<notin> set (im_path i) then ''library/'' @ im_path i else im_path i,
              version_meant (im_version i))"

text \<open>
  The references the comparison is right about. Left out are those the repository's own comparison takes for another
  image (a registry with a port and no tag, the library of Docker Hub written library/ or index.docker.io/library/, see
  the findings), and those whose first component could be taken for a registry.
\<close>

definition head_part :: "string \<Rightarrow> string" where
  "head_part p = takeWhile (\<lambda>c. c \<noteq> CHR ''/'') p"

definition host_like :: "string \<Rightarrow> bool" where
  "host_like h \<longleftrightarrow> CHR ''.'' \<in> set h \<or> CHR '':'' \<in> set h \<or> h = ''localhost''"

definition plain_path :: "string \<Rightarrow> bool" where
  "plain_path p \<longleftrightarrow> p \<noteq> [] \<and> CHR '':'' \<notin> set p \<and> CHR ''@'' \<notin> set p"

fun plain_version :: "image_version \<Rightarrow> bool" where
  "plain_version Untagged \<longleftrightarrow> True"
| "plain_version (Tagged t) \<longleftrightarrow> CHR '':'' \<notin> set t \<and> CHR ''/'' \<notin> set t \<and> CHR ''@'' \<notin> set t"
| "plain_version (Pinned d) \<longleftrightarrow> CHR '':'' \<notin> set d \<and> CHR ''/'' \<notin> set d \<and> CHR ''@'' \<notin> set d"

definition hub_path :: "string \<Rightarrow> bool" where
  "hub_path p \<longleftrightarrow> (CHR ''/'' \<in> set p \<longrightarrow> \<not> host_like (head_part p))"

definition plain_image :: "image_ref \<Rightarrow> bool" where
  "plain_image i \<longleftrightarrow> plain_path (im_path i) \<and> plain_version (im_version i) \<and>
     (case im_registry i of
        None \<Rightarrow> hub_path (im_path i) \<and> \<not> has_prefix (im_path i) ''library/''
      | Some h \<Rightarrow>
          if h = ''docker.io'' then hub_path (im_path i) \<and> (\<forall>r. im_path i = ''library/'' @ r \<longrightarrow> CHR ''/'' \<notin> set r)
          else if h = ''index.docker.io'' then hub_path (im_path i) \<and> \<not> has_prefix (im_path i) ''library/''
          else CHR ''/'' \<notin> set h \<and> CHR ''@'' \<notin> set h \<and> host_like h \<and> (im_version i = Untagged \<longrightarrow> CHR '':'' \<notin> set h))"

definition image_read :: "string \<Rightarrow> image_ref \<Rightarrow> bool" where
  "image_read s i \<longleftrightarrow> plain_image i \<and> written i = s"

definition same_image :: "string \<Rightarrow> string \<Rightarrow> bool" where
  "same_image s t \<longleftrightarrow> (\<exists>i j. image_read s i \<and> image_read t j \<and> meant i = meant j)"

text \<open>What the comparison reduces a plain reference to.\<close>

definition base_of :: "image_ref \<Rightarrow> string" where
  "base_of i = (if on_hub i then trim_prefix (im_path i) ''library/'' else the (im_registry i) @ ''/'' @ im_path i)"

lemma head_of_prefix:
  assumes "has_prefix s (c @ ''/'' @ r)" "CHR ''/'' \<notin> set c"
  shows "CHR ''/'' \<in> set s \<and> head_part s = c"
  using assms by (auto simp: has_prefix_iff head_part_def takeWhile_append)

lemma head_part_append: "CHR ''/'' \<in> set p \<Longrightarrow> head_part (p @ v) = head_part p"
  by (auto simp: head_part_def takeWhile_append)

lemma hub_no_registry:
  assumes "hub_path p" "CHR ''/'' \<notin> set v" "host_like c" "CHR ''/'' \<notin> set c"
  shows "\<not> has_prefix (p @ v) (c @ ''/'' @ r)"
  using head_of_prefix[of "p @ v" c r] head_part_append[of p v] assms by (auto simp: hub_path_def)


lemma no_digest: "CHR ''@'' \<notin> set s \<Longrightarrow> \<not> contains_str s ''@sha256:''"
  by (auto simp: contains_str_iff)

text \<open>Normalising only adds the default tag.\<close>

lemma normalise_plain:
  assumes "plain_image i"
  shows "normalise_image (written i) = written (i\<lparr>im_version := version_meant (im_version i)\<rparr>)"
proof -
  let ?p = "(case im_registry i of None \<Rightarrow> [] | Some h \<Rightarrow> h @ ''/'') @ im_path i"
  have at: "CHR ''@'' \<notin> set ?p"
    using assms by (auto simp: plain_image_def plain_path_def split: option.splits if_splits)
  have w: "written i = ?p @ written_version (im_version i)" by (simp add: written_def)
  show ?thesis
  proof (cases "im_version i")
    case Untagged
    have "CHR '':'' \<notin> set ?p"
      using assms Untagged by (auto simp: plain_image_def plain_path_def split: option.splits if_splits)
    then have "cut CHR '':'' (written i) = (written i, None)" by (intro cut_none) (simp add: w Untagged)
    moreover have "\<not> contains_str (written i) ''@sha256:''"
      using at by (intro no_digest) (simp add: w Untagged)
    ultimately show ?thesis by (simp add: normalise_image_def Untagged written_def)
  next
    case (Tagged t)
    have "CHR ''@'' \<notin> set (written i)"
      using at assms by (auto simp: w Tagged plain_image_def)
    then have "\<not> contains_str (written i) ''@sha256:''" by (rule no_digest)
    moreover have "CHR '':'' \<in> set (written i)" by (simp add: w Tagged)
    then have "snd (cut CHR '':'' (written i)) \<noteq> None"
      using cut_None[of "CHR '':''" "written i"] by (cases "cut CHR '':'' (written i)") auto
    ultimately have "normalise_image (written i) = written i"
      by (auto simp: normalise_image_def split: prod.split option.split)
    then show ?thesis by (simp add: Tagged written_def)
  next
    case (Pinned d)
    have "contains_str (written i) ''@sha256:''"
      unfolding contains_str_iff by (rule exI[of _ ?p], rule exI[of _ d]) (simp add: w Pinned)
    then have "normalise_image (written i) = written i" by (simp add: normalise_image_def)
    then show ?thesis by (simp add: Pinned written_def)
  qed
qed

lemma version_no_slash: "plain_version v \<Longrightarrow> CHR ''/'' \<notin> set (written_version (version_meant v))"
  by (cases v) auto

lemma trim_hub:
  assumes "hub_path p" "CHR ''/'' \<notin> set v"
  shows "trim_prefix (p @ v) ''docker.io/library/'' = p @ v" "trim_prefix (p @ v) ''docker.io/'' = p @ v"
    "trim_prefix (p @ v) ''index.docker.io/'' = p @ v"
  using hub_no_registry[OF assms, of "''docker.io''" "''library/''"] hub_no_registry[OF assms, of "''docker.io''" "[]"]
    hub_no_registry[OF assms, of "''index.docker.io''" "[]"]
  by (simp_all add: trim_prefix_def host_like_def)

lemma library_in_path:
  assumes "CHR ''/'' \<notin> set v"
  shows "has_prefix (p @ v) ''library/'' \<longleftrightarrow> has_prefix p ''library/''"
proof
  assume h: "has_prefix (p @ v) ''library/''"
  have "CHR ''/'' \<in> set p" using head_of_prefix[of "p @ v" "''library''" "[]"] h assms by auto
  then obtain a b where p: "p = a @ CHR ''/'' # b" "CHR ''/'' \<notin> set a" by (meson split_list_first)
  have "head_part (p @ v) = a" using p by (simp add: head_part_def takeWhile_append)
  then have "a = ''library''" using head_of_prefix[of "p @ v" "''library''" "[]"] h by simp
  then show "has_prefix p ''library/''" by (simp add: p has_prefix_iff)
qed (auto simp: has_prefix_iff)

lemma strip_plain:
  assumes "plain_image i"
  shows "strip_registry (normalise_image (written i)) = base_of i @ written_version (version_meant (im_version i))"
proof -
  let ?p = "im_path i" and ?v = "written_version (version_meant (im_version i))"
  have v: "CHR ''/'' \<notin> set ?v" using assms by (intro version_no_slash) (simp add: plain_image_def)
  have n: "normalise_image (written i) = (case im_registry i of None \<Rightarrow> [] | Some h \<Rightarrow> h @ ''/'') @ ?p @ ?v"
    unfolding normalise_plain[OF assms] by (simp add: written_def)
  consider (none) "im_registry i = None" | (hub) "im_registry i = Some ''docker.io''" | (index) "im_registry i = Some ''index.docker.io''"
    | (other) h where "im_registry i = Some h" "h \<noteq> ''docker.io''" "h \<noteq> ''index.docker.io''"
    by (cases "im_registry i") auto
  then show ?thesis
  proof cases
    case none
    then have "hub_path ?p" "\<not> has_prefix ?p ''library/''" using assms by (simp_all add: plain_image_def)
    then show ?thesis using trim_hub[OF _ v] none
      by (simp add: n strip_registry_def base_of_def on_hub_def trim_prefix_def[of ?p])
  next
    case hub
    then have h: "hub_path ?p" using assms by (simp add: plain_image_def)
    show ?thesis
    proof (cases "has_prefix ?p ''library/''")
      case True
      then obtain r where r: "?p = ''library/'' @ r" by (auto simp: has_prefix_iff)
      then have "CHR ''/'' \<notin> set r" using assms hub by (simp add: plain_image_def)
      then have "hub_path r" by (simp add: hub_path_def)
      moreover have "trim_prefix (''docker.io/library/'' @ r @ ?v) ''docker.io/library/'' = r @ ?v" by (rule trim_prefix_append)
      moreover have "trim_prefix ?p ''library/'' = r" unfolding r by (rule trim_prefix_append)
      ultimately show ?thesis using trim_hub[OF _ v, of r] hub r
        by (simp add: n strip_registry_def base_of_def on_hub_def)
    next
      case False
      then have "\<not> has_prefix (?p @ ?v) ''library/''" by (simp add: library_in_path[OF v])
      then have "trim_prefix (''docker.io/'' @ ?p @ ?v) ''docker.io/library/'' = ''docker.io/'' @ ?p @ ?v"
        by (simp add: trim_prefix_def has_prefix_def)
      moreover have "trim_prefix (''docker.io/'' @ ?p @ ?v) ''docker.io/'' = ?p @ ?v" by (rule trim_prefix_append)
      ultimately show ?thesis using trim_hub[OF h v] hub False
        by (simp add: n strip_registry_def base_of_def on_hub_def trim_prefix_def[of ?p])
    qed
  next
    case index
    then have "hub_path ?p" "\<not> has_prefix ?p ''library/''" using assms by (simp_all add: plain_image_def)
    moreover have "trim_prefix (''index.docker.io/'' @ ?p @ ?v) ''index.docker.io/'' = ?p @ ?v" by (rule trim_prefix_append)
    moreover have "trim_prefix (''index.docker.io/'' @ ?p @ ?v) ''docker.io/library/'' = ''index.docker.io/'' @ ?p @ ?v"
      "trim_prefix (''index.docker.io/'' @ ?p @ ?v) ''docker.io/'' = ''index.docker.io/'' @ ?p @ ?v"
      by (simp_all add: trim_prefix_def has_prefix_def)
    ultimately show ?thesis using index
      by (simp add: n strip_registry_def base_of_def on_hub_def trim_prefix_def[of ?p])
  next
    case (other h)
    then have h: "CHR ''/'' \<notin> set h" using assms by (simp add: plain_image_def)
    then have head: "head_part (h @ ''/'' @ ?p @ ?v) = h" by (simp add: head_part_def takeWhile_append)
    have "\<not> has_prefix (h @ ''/'' @ ?p @ ?v) (c @ ''/'' @ r)" if "c \<noteq> h" "CHR ''/'' \<notin> set c" for c r
      using head_of_prefix[of "h @ ''/'' @ ?p @ ?v" c r] head that by auto
    from this[of "''docker.io''" "''library/''"] this[of "''docker.io''" "[]"] this[of "''index.docker.io''" "[]"]
    show ?thesis using other
      by (simp add: n strip_registry_def base_of_def on_hub_def trim_prefix_def)
  qed
qed

text \<open>The reduced form determines the meaning.\<close>

lemma split_last_unique: "a @ x # t = b @ x # u \<Longrightarrow> x \<notin> set t \<Longrightarrow> x \<notin> set u \<Longrightarrow> a = b \<and> t = u"
  by (auto simp: append_eq_append_conv2 append_eq_Cons_conv Cons_eq_append_conv)

lemma version_split:
  assumes "a @ written_version (version_meant v) = b @ written_version (version_meant w)" "plain_version v" "plain_version w"
    and "CHR ''@'' \<notin> set a" "CHR ''@'' \<notin> set b"
  shows "a = b \<and> version_meant v = version_meant w"
proof -
  have *: "\<exists>q t. written_version (version_meant x) = q @ CHR '':'' # t \<and> CHR '':'' \<notin> set t
      \<and> ((q = [] \<and> version_meant x = Tagged t) \<or> (q = ''@sha256'' \<and> version_meant x = Pinned t))" if "plain_version x" for x
    using that by (cases x) auto
  obtain q t where v: "written_version (version_meant v) = q @ CHR '':'' # t" "CHR '':'' \<notin> set t"
    "(q = [] \<and> version_meant v = Tagged t) \<or> (q = ''@sha256'' \<and> version_meant v = Pinned t)" using *[OF assms(2)] by blast
  obtain q' t' where w: "written_version (version_meant w) = q' @ CHR '':'' # t'" "CHR '':'' \<notin> set t'"
    "(q' = [] \<and> version_meant w = Tagged t') \<or> (q' = ''@sha256'' \<and> version_meant w = Pinned t')" using *[OF assms(3)] by blast
  have e: "a @ q = b @ q' \<and> t = t'" using assms(1) v(2) w(2) split_last_unique[of "a @ q" "CHR '':''" t "b @ q'" t'] by (simp add: v(1) w(1))
  have "q = q'"
  proof (rule ccontr)
    assume "q \<noteq> q'"
    then have "CHR ''@'' \<in> set (a @ q) \<longleftrightarrow> CHR ''@'' \<notin> set (b @ q')" using v(3) w(3) assms(4,5) by auto
    then show False unfolding e[THEN conjunct1] by blast
  qed
  then show ?thesis using e v(3) w(3) by auto
qed

definition hub_name :: "string \<Rightarrow> string" where
  "hub_name b = (if CHR ''/'' \<in> set b then b else ''library/'' @ b)"

lemma base_hub:
  assumes "plain_image i" "on_hub i"
  shows "hub_name (base_of i) = fst (snd (meant i))" "hub_path (base_of i)"
proof -
  have h: "hub_path (im_path i)" and p: "has_prefix (im_path i) ''library/'' \<longrightarrow> (\<exists>r. im_path i = ''library/'' @ r \<and> CHR ''/'' \<notin> set r)"
    using assms by (auto simp: plain_image_def on_hub_def has_prefix_iff)
  have t: "trim_prefix (im_path i) ''library/'' = r" if "im_path i = ''library/'' @ r" for r
    unfolding that by (rule trim_prefix_append)
  show "hub_name (base_of i) = fst (snd (meant i))"
  proof (cases "has_prefix (im_path i) ''library/''")
    case True
    then obtain r where "im_path i = ''library/'' @ r" "CHR ''/'' \<notin> set r" using p by blast
    then show ?thesis using t assms(2) by (simp add: hub_name_def base_of_def meant_def)
  next
    case False
    then have "base_of i = im_path i" using assms(2) by (simp add: base_of_def trim_prefix_def)
    then show ?thesis using assms(2) by (simp add: hub_name_def meant_def)
  qed
  show "hub_path (base_of i)"
  proof (cases "has_prefix (im_path i) ''library/''")
    case True
    then obtain r where "im_path i = ''library/'' @ r" "CHR ''/'' \<notin> set r" using p by blast
    then show ?thesis using t assms(2) by (simp add: hub_path_def base_of_def)
  next
    case False
    then show ?thesis using assms(2) h by (simp add: base_of_def trim_prefix_def)
  qed
qed

lemma base_other:
  assumes "plain_image i" "\<not> on_hub i"
  shows "\<exists>h. im_registry i = Some h \<and> base_of i = h @ ''/'' @ im_path i \<and> CHR ''/'' \<notin> set h \<and> host_like h \<and> h \<noteq> ''docker.io''
    \<and> \<not> hub_path (base_of i)"
  using assms by (auto simp: plain_image_def on_hub_def base_of_def hub_path_def head_part_def takeWhile_append split: option.splits if_splits)

lemma base_meant:
  assumes "plain_image i" "plain_image j"
  shows "base_of i = base_of j \<longleftrightarrow> fst (meant i) = fst (meant j) \<and> fst (snd (meant i)) = fst (snd (meant j))"
proof -
  consider "on_hub i" "on_hub j" | "on_hub i" "\<not> on_hub j" | "\<not> on_hub i" "on_hub j" | "\<not> on_hub i" "\<not> on_hub j" by blast
  then show ?thesis
  proof cases
    case 1
    have "base_of i = base_of j \<longleftrightarrow> hub_name (base_of i) = hub_name (base_of j)"
    proof
      assume e: "hub_name (base_of i) = hub_name (base_of j)"
      have nb: "base_of k \<noteq> ''library/'' @ r" if "plain_image k" "on_hub k" for k r
      proof
        assume "base_of k = ''library/'' @ r"
        then have "has_prefix (base_of k) ''library/''" unfolding has_prefix_iff by blast
        then show False
          using that by (auto simp: base_of_def plain_image_def on_hub_def has_prefix_iff trim_prefix_def split: if_splits)
      qed
      show "base_of i = base_of j"
        using e nb[OF assms(1) 1(1), of "base_of j"] nb[OF assms(2) 1(2), of "base_of i"]
        unfolding hub_name_def by (metis append_same_eq same_append_eq)
    qed simp
    then show ?thesis using base_hub(1)[OF assms(1) 1(1)] base_hub(1)[OF assms(2) 1(2)] 1 by (simp add: meant_def)
  next
    case 2
    then show ?thesis using base_hub(2)[OF assms(1)] base_other[OF assms(2)] by (auto simp: meant_def)
  next
    case 3
    then show ?thesis using base_hub(2)[OF assms(2)] base_other[OF assms(1)] by (auto simp: meant_def)
  next
    case 4
    obtain h k where h: "im_registry i = Some h" "base_of i = h @ ''/'' @ im_path i" "CHR ''/'' \<notin> set h"
      and k: "im_registry j = Some k" "base_of j = k @ ''/'' @ im_path j" "CHR ''/'' \<notin> set k"
      using base_other[OF assms(1) 4(1)] base_other[OF assms(2) 4(2)] by blast
    have "takeWhile (\<lambda>c. c \<noteq> CHR ''/'') (base_of i) = h" "takeWhile (\<lambda>c. c \<noteq> CHR ''/'') (base_of j) = k"
      using h k by (auto simp: takeWhile_append)
    then have "base_of i = base_of j \<longleftrightarrow> h = k \<and> im_path i = im_path j" using h(2) k(2) by auto
    then show ?thesis using 4 h(1) k(1) by (simp add: meant_def)
  qed
qed

lemma base_no_at: "plain_image i \<Longrightarrow> CHR ''@'' \<notin> set (base_of i)"
  by (auto simp: plain_image_def plain_path_def base_of_def on_hub_def trim_prefix_def split: option.splits if_splits dest!: in_set_dropD)

lemma imagesMatch_meant:
  assumes "plain_image i" "plain_image j"
  shows "imagesMatch (written i) (written j) \<longleftrightarrow> meant i = meant j"
proof -
  have v: "plain_version (im_version i)" "plain_version (im_version j)" using assms by (simp_all add: plain_image_def)
  have "imagesMatch (written i) (written j)
      \<longleftrightarrow> base_of i @ written_version (version_meant (im_version i)) = base_of j @ written_version (version_meant (im_version j))"
    by (simp add: imagesMatch_strip strip_plain[OF assms(1)] strip_plain[OF assms(2)])
  also have "\<dots> \<longleftrightarrow> base_of i = base_of j \<and> version_meant (im_version i) = version_meant (im_version j)"
    using version_split[OF _ v base_no_at[OF assms(1)] base_no_at[OF assms(2)]] by auto
  also have "\<dots> \<longleftrightarrow> meant i = meant j"
    using base_meant[OF assms] by (auto simp: meant_def prod_eq_iff)
  finally show ?thesis .
qed

lemma imagesMatch_same:
  assumes "image_read s i" "image_read t j"
  shows "imagesMatch s t \<longleftrightarrow> same_image s t"
proof
  assume "imagesMatch s t"
  then show "same_image s t" using assms imagesMatch_meant unfolding same_image_def image_read_def by blast
next
  assume "same_image s t"
  then show "imagesMatch s t" using imagesMatch_meant unfolding same_image_def image_read_def by blast
qed

section \<open>In step\<close>

text \<open>
  The services a deployment of the stack starts: those the filter names, or all without one, and whatever they depend
  on. A filter is self-contained when it names what its services depend on.
\<close>

definition named_services :: "string \<Rightarrow> services \<Rightarrow> string set" where
  "named_services flt svcs =
     {n \<in> fst ` set svcs. flt = [] \<or> (\<exists>item \<in> set (split_on CHR '','' flt). trim_space item = n \<and> n \<noteq> [])}"

definition deployed_services :: "string \<Rightarrow> services \<Rightarrow> string set" where
  "deployed_services flt svcs = {n \<in> fst ` set svcs. \<exists>t \<in> named_services flt svcs. (t, n) \<in> (dep_rel svcs)\<^sup>*}"

definition self_contained :: "string \<Rightarrow> services \<Rightarrow> bool" where
  "self_contained flt svcs \<longleftrightarrow> (flt \<noteq> [] \<longrightarrow> trim_space flt \<noteq> []) \<and>
     (\<forall>n \<in> named_services flt svcs. set (deps_of svcs n) \<inter> fst ` set svcs \<subseteq> named_services flt svcs)"

text \<open>The stack is in step: every service a deployment starts has its declared number of containers, each with the
  declared image, running and not unhealthy; no container belongs to another service; and, where they could be read,
  the declared networks and volumes exist and the secrets are those of the last successful deployment.\<close>

definition in_step :: "stack \<Rightarrow> compose_file \<Rightarrow> observed \<Rightarrow> bool" where
  "in_step st cf ob \<longleftrightarrow>
     (\<forall>(n, svc) \<in> set (cf_services cf). n \<in> deployed_services (ServiceFilter st) (cf_services cf) \<longrightarrow>
        int (length (actual_of (ob_actual ob) n)) = DesiredReplicas svc
        \<and> (\<forall>c \<in> set (actual_of (ob_actual ob) n).
             same_image (cs_image svc) (ac_image c) \<and> ac_state c = ''running'' \<and> ac_health c \<noteq> ''unhealthy''))
     \<and> fst ` set (ob_actual ob) \<subseteq> deployed_services (ServiceFilter st) (cf_services cf)
     \<and> (\<forall>existing. ob_networks ob = Some existing \<longrightarrow> fst ` set (cf_networks cf) \<subseteq> set existing)
     \<and> (\<forall>existing. ob_volumes ob = Some existing \<longrightarrow>
          (\<forall>(n, cfg) \<in> set (cf_volumes cf). resolveVolumeName (st_name st) n cfg \<in> set existing))
     \<and> (\<forall>h. ob_secrets ob = Some h \<longrightarrow> h = SecretsHash st)"

text \<open>What the check can judge: a self-contained filter, and images that it reads as they are meant.\<close>

definition checkable :: "stack \<Rightarrow> compose_file \<Rightarrow> observed \<Rightarrow> bool" where
  "checkable st cf ob \<longleftrightarrow> distinct (List.map fst (cf_services cf)) \<and> self_contained (ServiceFilter st) (cf_services cf) \<and>
     (\<forall>(n, svc) \<in> set (cf_services cf). \<exists>i. image_read (cs_image svc) i) \<and>
     (\<forall>(n, c) \<in> set (ob_actual ob). \<exists>i. image_read (ac_image c) i)"

lemma deployed_named: "self_contained flt svcs \<Longrightarrow> deployed_services flt svcs = named_services flt svcs"
proof -
  assume s: "self_contained flt svcs"
  have "n \<in> fst ` set svcs \<longrightarrow> n \<in> named_services flt svcs" if "t \<in> named_services flt svcs" "(t, n) \<in> (dep_rel svcs)\<^sup>*" for t n
    using that(2)
  proof (induction rule: rtrancl_induct)
    case (step y z)
    have "y \<in> fst ` set svcs"
    proof (rule ccontr)
      assume "y \<notin> fst ` set svcs"
      then have "map_of svcs y = None" by (simp add: map_of_eq_None_iff)
      then show False using step(2) by (simp add: dep_rel_def deps_of_def)
    qed
    then show ?case using step s by (auto simp: dep_rel_def self_contained_def)
  qed (use that in simp)
  then show ?thesis by (auto simp: deployed_services_def) (auto simp: named_services_def)
qed

lemma filtered_named:
  assumes "flt \<noteq> [] \<longrightarrow> trim_space flt \<noteq> []"
  shows "filterServices svcs flt = filter (\<lambda>(n, svc). n \<in> named_services flt svcs) svcs"
proof (cases "flt = []")
  case True
  moreover have "trim_space [] = []" by code_simp
  ultimately show ?thesis
    unfolding filterServices_def True named_services_def by (simp, intro filter_True[symmetric]) force
next
  case False
  then show ?thesis using assms
    by (auto simp: filterServices_def named_services_def Let_def intro!: filter_cong) force
qed

lemma drift_volume_name: "resolveDriftVolumeName = resolveVolumeName"
  by (simp add: fun_eq_iff resolveDriftVolumeName_def resolveVolumeName_def)

lemma volume_drift_nil: "volume_drift existing s v = [] \<longleftrightarrow> resolveVolumeName s (fst v) (snd v) \<in> set existing"
  by (simp add: volume_drift_def Let_def drift_volume_name)

lemma wf_filtered: "distinct (List.map fst svcs) \<Longrightarrow> distinct (List.map fst (filterServices svcs flt))"
  by (auto simp: filterServices_def Let_def intro: distinct_map_filter)

text \<open>C4. The drift check reports nothing exactly when the stack is in step, wherever it can judge that: every service a
  deployment of the stack starts has its declared number of containers, each running, not unhealthy and with the image
  the compose file means; no container belongs to another service, that its label names or else its name begins with; and, where they could be read, the declared networks
  exist, the volumes exist under the names the deployer gives them, and the secrets are those of the last successful
  deployment. It can judge a compose file whose image references are not among the forms it misreads (a registry with a
  port and no tag, Docker Hub's library spelled out other than as docker.io/library/) and a service filter that names
  the dependencies of its services; outside of these it reports drift that is none, as the lemmas below show.\<close>

theorem no_drift_iff_in_step:
  assumes "checkable st cf ob" "\<And>k xs. set (ord k xs) = set xs"
  shows "drift_items ord st cf ob = [] \<longleftrightarrow> in_step st cf ob"
proof -
  let ?svcs = "filterServices (cf_services cf) (ServiceFilter st)" and ?dep = "deployed_services (ServiceFilter st) (cf_services cf)"
  have c: "distinct (List.map fst (cf_services cf))" "self_contained (ServiceFilter st) (cf_services cf)"
    "\<forall>(n, svc) \<in> set (cf_services cf). \<exists>i. image_read (cs_image svc) i" "\<forall>(n, c) \<in> set (ob_actual ob). \<exists>i. image_read (ac_image c) i"
    using assms(1) by (simp_all add: checkable_def)
  have svcs: "?svcs = filter (\<lambda>(n, svc). n \<in> ?dep) (cf_services cf)"
    using c(2) by (simp add: deployed_named filtered_named self_contained_def)
  have names: "fst ` set ?svcs = ?dep" unfolding svcs by (force simp: deployed_services_def)
  have dist: "distinct (List.map fst ?svcs)" using c(1) by (rule wf_filtered)
  have im: "imagesMatch (cs_image svc) (ac_image a) = same_image (cs_image svc) (ac_image a)"
    if "(n, svc) \<in> set (cf_services cf)" "a \<in> set (actual_of (ob_actual ob) n)" for n svc a
    using that c(3,4) imagesMatch_same by (fastforce simp: actual_of_def)
  have svc: "concat (List.map (\<lambda>n. case map_of ?svcs n of None \<Rightarrow> [] | Some svc \<Rightarrow> service_drifts n svc (actual_of (ob_actual ob) n))
      (ord 0 (List.map fst ?svcs))) = [] \<longleftrightarrow> (\<forall>(n, svc) \<in> set ?svcs. service_drifts n svc (actual_of (ob_actual ob) n) = [])"
    using dist by (fastforce simp: assms(2) split: option.split dest: map_of_SomeD)
  also have "\<dots> \<longleftrightarrow> (\<forall>(n, svc) \<in> set (cf_services cf). n \<in> ?dep \<longrightarrow> int (length (actual_of (ob_actual ob) n)) = DesiredReplicas svc
        \<and> (\<forall>c \<in> set (actual_of (ob_actual ob) n).
             same_image (cs_image svc) (ac_image c) \<and> ac_state c = ''running'' \<and> ac_health c \<noteq> ''unhealthy''))"
    unfolding service_drifts_nil svcs using im by fastforce
  finally have svc': "concat (List.map (\<lambda>n. case map_of ?svcs n of None \<Rightarrow> [] | Some svc \<Rightarrow> service_drifts n svc (actual_of (ob_actual ob) n))
      (ord 0 (List.map fst ?svcs))) = [] \<longleftrightarrow> \<dots>" .
  have ext: "extra_drifts ?svcs (ord 1 (remdups (List.map fst (ob_actual ob)))) = [] \<longleftrightarrow> fst ` set (ob_actual ob) \<subseteq> ?dep"
    unfolding names[symmetric] by (auto simp: extra_drifts_def filter_empty_conv assms(2) map_of_eq_None_iff)
  have net: "(case ob_networks ob of None \<Rightarrow> [] | Some existing \<Rightarrow> network_drifts existing (List.map fst (cf_networks cf))) = []
      \<longleftrightarrow> (\<forall>existing. ob_networks ob = Some existing \<longrightarrow> fst ` set (cf_networks cf) \<subseteq> set existing)"
    by (auto simp: network_drifts_def filter_empty_conv split: option.split)
  have vol: "(case ob_volumes ob of None \<Rightarrow> [] | Some existing \<Rightarrow> concat (List.map (volume_drift existing (st_name st)) (cf_volumes cf))) = []
      \<longleftrightarrow> (\<forall>existing. ob_volumes ob = Some existing \<longrightarrow>
           (\<forall>(n, cfg) \<in> set (cf_volumes cf). resolveVolumeName (st_name st) n cfg \<in> set existing))"
    by (cases "ob_volumes ob") (simp_all add: volume_drift_nil case_prod_beta)
  have sec: "(case ob_secrets ob of None \<Rightarrow> [] | Some h \<Rightarrow> secrets_drift h (SecretsHash st)) = []
      \<longleftrightarrow> (\<forall>h. ob_secrets ob = Some h \<longrightarrow> h = SecretsHash st)"
    by (auto simp: secrets_drift_def split: option.split)
  show ?thesis
    unfolding drift_items_def in_step_def Let_def append_is_Nil_conv svc' ext net vol sec by (rule refl)
qed

definition demo_observed :: observed where
  "demo_observed = \<lparr>ob_actual = [(''web'', \<lparr>ac_id = ''0ld'', ac_image = ''docker.io/library/app:2'', ac_state = ''running'', ac_health = []\<rparr>)],
     ob_networks = None, ob_volumes = None, ob_secrets = Some []\<rparr>"

definition demo_image :: image_ref where
  "demo_image = \<lparr>im_registry = None, im_path = ''app'', im_version = Tagged ''2''\<rparr>"

definition demo_hub_image :: image_ref where
  "demo_hub_image = \<lparr>im_registry = Some ''docker.io'', im_path = ''library/app'', im_version = Tagged ''2''\<rparr>"

lemma demo_images: "image_read ''app:2'' demo_image" "image_read ''docker.io/library/app:2'' demo_hub_image"
  by (simp_all add: image_read_def plain_image_def demo_image_def demo_hub_image_def plain_path_def hub_path_def head_part_def
      host_like_def has_prefix_def written_def)

theorem no_drift_iff_in_step_witness:
  "drift_items (\<lambda>_ xs. xs) demo_stack demo_file demo_observed = []"
proof -
  have svcs: "cf_services demo_file = [(''web'', demo_web)]" "ServiceFilter demo_stack = []" "cs_image demo_web = ''app:2''"
    "deps_of [(''web'', demo_web)] ''web'' = []"
    by (simp_all add: demo_file_def demo_stack_def demo_web_def empty_service_def deps_of_def Names_def) code_simp
  have dep: "deployed_services [] [(''web'', demo_web)] = {''web''}" "self_contained [] [(''web'', demo_web)]"
    by (auto simp: deployed_services_def named_services_def self_contained_def svcs)
  have "same_image ''app:2'' ''docker.io/library/app:2''"
  proof -
    have "meant demo_image = meant demo_hub_image" by (simp add: meant_def on_hub_def demo_image_def demo_hub_image_def)
    then show ?thesis unfolding same_image_def using demo_images by blast
  qed
  then have "in_step demo_stack demo_file demo_observed"
    by (simp add: in_step_def svcs dep) (simp add: demo_stack_def demo_file_def demo_observed_def actual_of_def demo_web_def empty_service_def DesiredReplicas_def)
  moreover have "checkable demo_stack demo_file demo_observed"
    using demo_images by (auto simp: checkable_def svcs dep demo_observed_def)
  ultimately show ?thesis using no_drift_iff_in_step[of demo_stack demo_file demo_observed "\<lambda>_ xs. xs"] by simp
qed

text \<open>The default tag is looked for after the first colon, so a port in the registry hides a missing tag; and Docker Hub's
  older name loses its library prefix only in one of its two forms.\<close>

lemma image_port_is_no_tag: "\<not> imagesMatch ''localhost:5000/app'' ''localhost:5000/app:latest''"
  by code_simp

lemma image_index_library: "\<not> imagesMatch ''nginx'' ''index.docker.io/library/nginx''"
  by code_simp

text \<open>A name that has an underscore is cut at its first one, where the label is missing.\<close>

lemma derived_name_is_cut: "deriveServiceName [''/my_app_0_1''] = ''my''"
  by code_simp

text \<open>A dependency that the deployer starts for a filtered service is not in the check's services, and counts as extra.\<close>

lemma filtered_dependency_is_extra:
  "extra_drifts (filterServices [(''web'', demo_web), (''db'', demo_web)] ''web'') [''db''] \<noteq> []"
  by code_simp

end
