(* ===== verification/Breaker.thy ===== *)
theory Breaker
  imports Prelude
begin

text \<open>
  internal/breaker/breaker.go: the per-key circuit breaker of the reconciler. The pointer receiver may be
  nil, so a breaker is an option; the map of entries is a function from keys; the injected clock b.now() is an
  argument of the operations that read it. The mutex makes every operation atomic, so a concurrent use is some
  sequence of operations, which is what \<open>run_ops\<close> folds.

  The lemmas show the invariant of an entry (closed exactly while the failures stay below the threshold),
  that the entry is determined by the history of its own key, the cooldown, and when a trip is reported.
\<close>

section \<open>State and operations\<close>

datatype bstate = StateClosed | StateOpen | StateHalfOpen

definition bstate_string :: "bstate \<Rightarrow> string" where
  "bstate_string s = (case s of
      StateOpen \<Rightarrow> ''open'' | StateHalfOpen \<Rightarrow> ''half-open'' | StateClosed \<Rightarrow> ''closed'')"

record bentry =
  consecutiveFailures :: nat
  bst :: bstate
  openedAt :: gotime

record breaker =
  threshold :: int
  cooldown :: int
  bentries :: "string \<Rightarrow> bentry option"

definition new_breaker :: "int \<Rightarrow> int \<Rightarrow> breaker option" where
  "new_breaker thr cool = Some \<lparr>threshold = thr, cooldown = cool, bentries = (\<lambda>_. None)\<rparr>"

definition brk_enabled :: "breaker option \<Rightarrow> bool" where
  "brk_enabled b = (case b of None \<Rightarrow> False | Some br \<Rightarrow> threshold br > 0)"

definition brk_threshold :: "breaker option \<Rightarrow> int" where
  "brk_threshold b = (case b of None \<Rightarrow> 0 | Some br \<Rightarrow> threshold br)"

definition closed_entry :: bentry where
  "closed_entry = \<lparr>consecutiveFailures = 0, bst = StateClosed, openedAt = 0\<rparr>"

definition entryFor :: "breaker \<Rightarrow> string \<Rightarrow> bentry \<times> breaker" where
  "entryFor br key = (case bentries br key of
      Some e \<Rightarrow> (e, br)
    | None \<Rightarrow> (closed_entry, br\<lparr>bentries := (bentries br)(key \<mapsto> closed_entry)\<rparr>))"

definition put_entry :: "string \<Rightarrow> bentry \<Rightarrow> breaker \<Rightarrow> breaker" where
  "put_entry key e br = br\<lparr>bentries := (bentries br)(key \<mapsto> e)\<rparr>"

definition brk_allow :: "gotime \<Rightarrow> string \<Rightarrow> breaker option \<Rightarrow> bool \<times> breaker option" where
  "brk_allow now key b =
     (if \<not> brk_enabled b then (True, b)
      else case b of None \<Rightarrow> (True, b)
      | Some br0 \<Rightarrow>
        (let (e, br) = entryFor br0 key in
         if bst e = StateOpen then
           (if now - openedAt e \<ge> cooldown br
            then (True, Some (put_entry key (e\<lparr>bst := StateHalfOpen\<rparr>) br))
            else (False, Some br))
         else (True, Some br)))"

definition brk_record_success :: "string \<Rightarrow> breaker option \<Rightarrow> breaker option" where
  "brk_record_success key b =
     (if \<not> brk_enabled b then b
      else case b of None \<Rightarrow> b
      | Some br0 \<Rightarrow>
        (let (e, br) = entryFor br0 key in
         Some (put_entry key (e\<lparr>consecutiveFailures := 0, bst := StateClosed\<rparr>) br)))"

definition brk_record_failure :: "gotime \<Rightarrow> string \<Rightarrow> breaker option \<Rightarrow> bool \<times> breaker option" where
  "brk_record_failure now key b =
     (if \<not> brk_enabled b then (False, b)
      else case b of None \<Rightarrow> (False, b)
      | Some br0 \<Rightarrow>
        (let (e0, br) = entryFor br0 key;
             e = e0\<lparr>consecutiveFailures := consecutiveFailures e0 + 1\<rparr>
         in case bst e of
              StateHalfOpen \<Rightarrow> (False, Some (put_entry key (e\<lparr>bst := StateOpen, openedAt := now\<rparr>) br))
            | StateClosed \<Rightarrow>
                (if int (consecutiveFailures e) \<ge> threshold br
                 then (True, Some (put_entry key (e\<lparr>bst := StateOpen, openedAt := now\<rparr>) br))
                 else (False, Some (put_entry key e br)))
            | StateOpen \<Rightarrow> (False, Some (put_entry key e br))))"

definition brk_state :: "string \<Rightarrow> breaker option \<Rightarrow> bstate" where
  "brk_state key b =
     (if \<not> brk_enabled b then StateClosed
      else case b of None \<Rightarrow> StateClosed
      | Some br \<Rightarrow> (case bentries br key of Some e \<Rightarrow> bst e | None \<Rightarrow> StateClosed))"

section \<open>Runs\<close>

datatype brk_op = OpAllow gotime string | OpSuccess string | OpFailure gotime string

fun brk_step :: "brk_op \<Rightarrow> breaker option \<Rightarrow> breaker option" where
  "brk_step (OpAllow now k) b = snd (brk_allow now k b)"
| "brk_step (OpSuccess k) b = brk_record_success k b"
| "brk_step (OpFailure now k) b = snd (brk_record_failure now k b)"

definition brk_run :: "brk_op list \<Rightarrow> breaker option \<Rightarrow> breaker option" where
  "brk_run = run_ops brk_step"

fun op_key :: "brk_op \<Rightarrow> string" where
  "op_key (OpAllow now k) = k"
| "op_key (OpSuccess k) = k"
| "op_key (OpFailure now k) = k"

text \<open>The failures recorded for a key since its last recorded success.\<close>

fun failures_since :: "string \<Rightarrow> brk_op list \<Rightarrow> nat \<Rightarrow> nat" where
  "failures_since k [] n = n"
| "failures_since k (OpAllow now k' # os) n = failures_since k os n"
| "failures_since k (OpSuccess k' # os) n = failures_since k os (if k' = k then 0 else n)"
| "failures_since k (OpFailure now k' # os) n = failures_since k os (if k' = k then Suc n else n)"

text \<open>The trips reported for a key: how many of its failures returned justTripped.\<close>

fun trips :: "string \<Rightarrow> brk_op list \<Rightarrow> breaker option \<Rightarrow> nat" where
  "trips k [] b = 0"
| "trips k (a # as) b =
     (case a of OpFailure now k' \<Rightarrow> (if k' = k \<and> fst (brk_record_failure now k b) then 1 else 0) | _ \<Rightarrow> 0)
     + trips k as (brk_step a b)"

section \<open>The automaton of one key\<close>

text \<open>The specification: what the breaker promises for one key, as an automaton over that key's operations.\<close>

fun entry_step :: "int \<Rightarrow> int \<Rightarrow> brk_op \<Rightarrow> bentry \<Rightarrow> bentry" where
  "entry_step thr cool (OpAllow now k) e =
     (if bst e = StateOpen \<and> now - openedAt e \<ge> cool then e\<lparr>bst := StateHalfOpen\<rparr> else e)"
| "entry_step thr cool (OpSuccess k) e = e\<lparr>consecutiveFailures := 0, bst := StateClosed\<rparr>"
| "entry_step thr cool (OpFailure now k) e =
     (if bst e = StateHalfOpen \<or> (bst e = StateClosed \<and> int (consecutiveFailures e) + 1 \<ge> thr)
      then \<lparr>consecutiveFailures = Suc (consecutiveFailures e), bst = StateOpen, openedAt = now\<rparr>
      else e\<lparr>consecutiveFailures := Suc (consecutiveFailures e)\<rparr>)"

definition key_step :: "int \<Rightarrow> int \<Rightarrow> string \<Rightarrow> brk_op \<Rightarrow> bentry \<Rightarrow> bentry" where
  "key_step thr cool k a e = (if op_key a = k then entry_step thr cool a e else e)"

definition the_entry :: "breaker option \<Rightarrow> string \<Rightarrow> bentry" where
  "the_entry b k = (case b of None \<Rightarrow> closed_entry
     | Some br \<Rightarrow> (case bentries br k of None \<Rightarrow> closed_entry | Some e \<Rightarrow> e))"

definition brk_cooldown :: "breaker option \<Rightarrow> int" where
  "brk_cooldown b = (case b of None \<Rightarrow> 0 | Some br \<Rightarrow> cooldown br)"

definition conf_is :: "int \<Rightarrow> int \<Rightarrow> breaker option \<Rightarrow> bool" where
  "conf_is thr cool b \<longleftrightarrow> brk_enabled b \<and> brk_threshold b = thr \<and> brk_cooldown b = cool"

lemma entryFor_eq:
  "entryFor br k = (the_entry (Some br) k, snd (entryFor br k))"
  by (auto simp: entryFor_def the_entry_def split: option.splits)

lemma entry_of_snd [simp]:
  "the_entry (Some (snd (entryFor br k))) k' = the_entry (Some br) k'"
  "threshold (snd (entryFor br k)) = threshold br"
  "cooldown (snd (entryFor br k)) = cooldown br"
  by (auto simp: entryFor_def the_entry_def split: option.splits)

lemma entry_of_put [simp]:
  "the_entry (Some (put_entry k e br)) k' = (if k' = k then e else the_entry (Some br) k')"
  "threshold (put_entry k e br) = threshold br"
  "cooldown (put_entry k e br) = cooldown br"
  by (auto simp: put_entry_def the_entry_def)

lemma brk_step_disabled: "\<not> brk_enabled b \<Longrightarrow> brk_step a b = b"
  by (cases a) (auto simp: brk_allow_def brk_record_success_def brk_record_failure_def)

lemma bentry_full_update [simp]:
  "e\<lparr>consecutiveFailures := n, bst := s, openedAt := t\<rparr> = \<lparr>consecutiveFailures = n, bst = s, openedAt = t\<rparr>"
  by (cases e) simp

text \<open>The operations on an enabled breaker, read through \<open>the_entry\<close>.\<close>

lemma brk_ops_some:
  assumes "0 < threshold br"
  shows "brk_allow now k (Some br) =
      (let e = the_entry (Some br) k; br' = snd (entryFor br k) in
       if bst e = StateOpen \<and> now - openedAt e \<ge> cooldown br
       then (True, Some (put_entry k (e\<lparr>bst := StateHalfOpen\<rparr>) br'))
       else (bst e \<noteq> StateOpen, Some br'))"
    and "brk_record_success k (Some br) =
      Some (put_entry k ((the_entry (Some br) k)\<lparr>consecutiveFailures := 0, bst := StateClosed\<rparr>)
              (snd (entryFor br k)))"
    and "brk_record_failure now k (Some br) =
      (let e = the_entry (Some br) k; br' = snd (entryFor br k); n = Suc (consecutiveFailures e) in
       if bst e = StateHalfOpen \<or> (bst e = StateClosed \<and> int n \<ge> threshold br)
       then (bst e = StateClosed,
             Some (put_entry k \<lparr>consecutiveFailures = n, bst = StateOpen, openedAt = now\<rparr> br'))
       else (False, Some (put_entry k (e\<lparr>consecutiveFailures := n\<rparr>) br')))"
proof -
  obtain br' where eq: "entryFor br k = (the_entry (Some br) k, br')" using entryFor_eq by blast
  moreover have "threshold br' = threshold br" "cooldown br' = cooldown br"
    using entry_of_snd(2,3)[of br k] by (simp_all add: eq)
  ultimately show "brk_allow now k (Some br) =
      (let e = the_entry (Some br) k; br' = snd (entryFor br k) in
       if bst e = StateOpen \<and> now - openedAt e \<ge> cooldown br
       then (True, Some (put_entry k (e\<lparr>bst := StateHalfOpen\<rparr>) br'))
       else (bst e \<noteq> StateOpen, Some br'))"
    and "brk_record_success k (Some br) =
      Some (put_entry k ((the_entry (Some br) k)\<lparr>consecutiveFailures := 0, bst := StateClosed\<rparr>)
              (snd (entryFor br k)))"
    and "brk_record_failure now k (Some br) =
      (let e = the_entry (Some br) k; br' = snd (entryFor br k); n = Suc (consecutiveFailures e) in
       if bst e = StateHalfOpen \<or> (bst e = StateClosed \<and> int n \<ge> threshold br)
       then (bst e = StateClosed,
             Some (put_entry k \<lparr>consecutiveFailures = n, bst = StateOpen, openedAt = now\<rparr> br'))
       else (False, Some (put_entry k (e\<lparr>consecutiveFailures := n\<rparr>) br')))"
    using assms
    by (simp_all add: brk_allow_def brk_record_success_def brk_record_failure_def brk_enabled_def Let_def
        split: bstate.split)
qed

lemma brk_step_config:
  "brk_enabled (brk_step a b) = brk_enabled b"
  "brk_threshold (brk_step a b) = brk_threshold b"
  "brk_cooldown (brk_step a b) = brk_cooldown b"
proof -
  have "brk_enabled (brk_step a b) = brk_enabled b \<and> brk_threshold (brk_step a b) = brk_threshold b \<and>
      brk_cooldown (brk_step a b) = brk_cooldown b"
  proof (cases "brk_enabled b")
    case True
    then obtain br where "b = Some br" "0 < threshold br" by (auto simp: brk_enabled_def split: option.splits)
    then show ?thesis
      by (cases a) (simp_all add: brk_ops_some Let_def brk_enabled_def brk_threshold_def brk_cooldown_def)
  qed (simp add: brk_step_disabled)
  then show "brk_enabled (brk_step a b) = brk_enabled b" "brk_threshold (brk_step a b) = brk_threshold b"
    "brk_cooldown (brk_step a b) = brk_cooldown b" by simp_all
qed

lemma conf_step [simp]: "conf_is thr cool (brk_step a b) = conf_is thr cool b"
  by (simp add: conf_is_def brk_step_config)

lemma conf_isE:
  assumes "conf_is thr cool b"
  obtains br where "b = Some br" "threshold br = thr" "0 < thr" "cooldown br = cool"
  using assms by (auto simp: conf_is_def brk_enabled_def brk_threshold_def brk_cooldown_def split: option.splits)

lemma brk_step_key:
  assumes "conf_is thr cool b"
  shows "the_entry (brk_step a b) k = key_step thr cool k a (the_entry b k)"
  using assms by (elim conf_isE, cases a) (auto simp: key_step_def brk_ops_some Let_def)

text \<open>The breaker refines, for every key, the automaton of that key: other keys do not interfere.\<close>

interpretation breaker_key: refinement brk_step "key_step thr cool k" "\<lambda>b. the_entry b k" "conf_is thr cool"
  for thr cool k
  by unfold_locales (simp_all add: brk_step_key)

lemma conf_run [simp]: "conf_is thr cool (brk_run as b) = conf_is thr cool b"
  by (induction as arbitrary: b) (auto simp: brk_run_def)

lemma brk_state_entry: "brk_enabled b \<Longrightarrow> brk_state k b = bst (the_entry b k)"
  by (auto simp: brk_state_def the_entry_def closed_entry_def split: option.splits)

lemma brk_allow_entry:
  assumes "conf_is thr cool b"
  shows "fst (brk_allow now k b) \<longleftrightarrow>
     \<not> (bst (the_entry b k) = StateOpen \<and> now - openedAt (the_entry b k) < cool)"
  using assms by (elim conf_isE) (auto simp: brk_ops_some Let_def)

lemma brk_failure_entry:
  assumes "conf_is thr cool b"
  shows "fst (brk_record_failure now k b) \<longleftrightarrow>
     bst (the_entry b k) = StateClosed \<and> int (consecutiveFailures (the_entry b k)) + 1 \<ge> thr"
  using assms by (elim conf_isE) (auto simp: brk_ops_some Let_def)

section \<open>The invariant of an entry\<close>

definition entry_inv :: "int \<Rightarrow> bentry \<Rightarrow> bool" where
  "entry_inv thr e \<longleftrightarrow> (bst e = StateClosed \<longleftrightarrow> int (consecutiveFailures e) < thr)"

definition brk_inv :: "breaker option \<Rightarrow> bool" where
  "brk_inv b \<longleftrightarrow> (brk_enabled b \<longrightarrow> (\<forall>k. entry_inv (brk_threshold b) (the_entry b k)))"

lemma entry_step_inv: "0 < thr \<Longrightarrow> entry_inv thr e \<Longrightarrow> entry_inv thr (entry_step thr cool a e)"
  by (cases a; cases "bst e") (auto simp: entry_inv_def)

lemma conf_of: "brk_enabled b \<Longrightarrow> conf_is (brk_threshold b) (brk_cooldown b) b"
  by (simp add: conf_is_def)

lemma brk_threshold_pos: "brk_enabled b \<Longrightarrow> 0 < brk_threshold b"
  by (auto simp: brk_enabled_def brk_threshold_def split: option.splits)

lemma brk_inv_new: "brk_inv (new_breaker thr cool)"
  by (simp add: brk_inv_def new_breaker_def the_entry_def closed_entry_def brk_enabled_def brk_threshold_def entry_inv_def)

lemma brk_step_inv: "brk_inv b \<Longrightarrow> brk_inv (brk_step a b)"
  by (cases "brk_enabled b")
     (simp_all add: brk_inv_def brk_step_config brk_step_key[OF conf_of] key_step_def entry_step_inv brk_threshold_pos)

interpretation breaker_machine: invariant_machine brk_step "\<lambda>_ _. True" brk_inv
  by unfold_locales (rule brk_step_inv)

lemma brk_run_inv: "brk_inv b \<Longrightarrow> brk_inv (brk_run as b)"
  by (simp add: brk_run_def breaker_machine.run_inv_all)

lemma run_entry:
  assumes "conf_is thr cool b"
  shows "the_entry (brk_run as b) k = run_ops (key_step thr cool k) as (the_entry b k)"
  using breaker_key.run_refines[OF assms] by (simp add: brk_run_def)

lemma key_run_failures:
  "consecutiveFailures (run_ops (key_step thr cool k) as e) = failures_since k as (consecutiveFailures e)"
  by (induction k as "consecutiveFailures e" arbitrary: e rule: failures_since.induct)
     (auto simp: key_step_def)

lemma conf_new: "0 < thr \<Longrightarrow> conf_is thr cool (new_breaker thr cool)"
  by (simp add: conf_is_def new_breaker_def brk_enabled_def brk_threshold_def brk_cooldown_def)

lemma entry_new [simp]: "the_entry (new_breaker thr cool) k = closed_entry"
  by (simp add: new_breaker_def the_entry_def)

lemma breaker_closed_counts:
  "0 < thr \<Longrightarrow> consecutiveFailures (the_entry (brk_run as (new_breaker thr cool)) k) = failures_since k as 0"
  by (simp add: run_entry[OF conf_new] key_run_failures closed_entry_def)

section \<open>Properties\<close>

text \<open>C37. After any sequence of operations on a new breaker, of any keys and at any times, the state of a key is
  closed exactly while the failures recorded for that key since its last success stay below the threshold, and the
  counter the breaker keeps is that number: no other key and no order of calls can trip or reset it.\<close>

theorem breaker_closed_iff:
  assumes "0 < thr"
  shows "(brk_state k (brk_run as (new_breaker thr cool)) = StateClosed
           \<longleftrightarrow> int (failures_since k as 0) < thr)
    \<and> consecutiveFailures (the_entry (brk_run as (new_breaker thr cool)) k) = failures_since k as 0"
proof -
  let ?b = "brk_run as (new_breaker thr cool)"
  have conf: "conf_is thr cool ?b" using assms by (simp add: conf_new)
  have cf: "consecutiveFailures (the_entry ?b k) = failures_since k as 0"
    by (rule breaker_closed_counts[OF assms])
  have "brk_inv ?b" by (simp add: brk_run_inv brk_inv_new)
  then have "entry_inv thr (the_entry ?b k)" using conf by (simp add: brk_inv_def conf_is_def)
  moreover have "brk_enabled ?b" using conf by (simp add: conf_is_def)
  ultimately show ?thesis by (simp add: brk_state_entry entry_inv_def cf)
qed

definition demo_ops :: "brk_op list" where
  "demo_ops = [OpFailure 5 ''a'', OpFailure 6 ''b'', OpFailure 7 ''a'', OpAllow 8 ''a'']"

lemma breaker_closed_iff_witness:
  "brk_state ''a'' (brk_run demo_ops (new_breaker 2 10)) \<noteq> StateClosed
   \<and> brk_state ''b'' (brk_run demo_ops (new_breaker 2 10)) = StateClosed"
  using breaker_closed_iff[of 2 "''a''" demo_ops 10] breaker_closed_iff[of 2 "''b''" demo_ops 10]
  by (simp add: demo_ops_def)

lemma trips_count:
  assumes "conf_is thr cool b" "brk_inv b" "\<forall>a \<in> set as. a \<noteq> OpSuccess k"
  shows "trips k as b =
    (if int (consecutiveFailures (the_entry b k)) < thr
        \<and> thr \<le> int (failures_since k as (consecutiveFailures (the_entry b k))) then 1 else 0)"
  using assms
proof (induction as arbitrary: b)
  case (Cons a as)
  let ?e = "the_entry b k"
  have inv: "entry_inv thr ?e" using Cons.prems(1,2) by (auto simp: brk_inv_def conf_is_def)
  have IH: "trips k as (brk_step a b) =
      (let n = consecutiveFailures (key_step thr cool k a ?e) in
       if int n < thr \<and> thr \<le> int (failures_since k as n) then 1 else 0)"
    using Cons.IH[of "brk_step a b"] Cons.prems
    by (simp add: brk_step_inv brk_step_key[OF Cons.prems(1)] Let_def)
  have mono: "failures_since k as n \<ge> n" for n
    using Cons.prems(3) by (induction k as n rule: failures_since.induct) fastforce+
  show ?case
  proof (cases a)
    case (OpFailure now k')
    then show ?thesis
      using IH inv mono[of "Suc (consecutiveFailures ?e)"]
      by (cases "k' = k")
         (auto simp: Let_def key_step_def brk_failure_entry[OF Cons.prems(1)] entry_inv_def
           simp del: brk_step.simps)
  qed (use IH Cons.prems(3) in \<open>auto simp: Let_def key_step_def simp del: brk_step.simps\<close>)
qed simp

text \<open>A trip is reported at most once between two successes of a key: over any sequence of operations that
  records no success for the key, RecordFailure returns true for it at most once, and it does exactly when the
  sequence takes the count of failures across the threshold, so a broken stack is logged and audited once.\<close>

theorem breaker_trip_once:
  assumes "0 < thr" "\<forall>a \<in> set bs. a \<noteq> OpSuccess k"
  shows "trips k bs (brk_run as (new_breaker thr cool)) \<le> 1 \<and>
    (trips k bs (brk_run as (new_breaker thr cool)) = 1 \<longleftrightarrow>
      int (failures_since k as 0) < thr \<and> thr \<le> int (failures_since k bs (failures_since k as 0)))"
  using trips_count[of thr cool "brk_run as (new_breaker thr cool)" bs k] assms
    breaker_closed_counts[OF assms(1), of as cool k]
  by (simp_all add: conf_new brk_run_inv brk_inv_new)


lemma breaker_trip_once_witness:
  "trips ''a'' [OpFailure 7 ''a'', OpFailure 8 ''a''] (brk_run [OpFailure 5 ''a''] (new_breaker 2 10)) = 1"
  using breaker_trip_once[of 2 "[OpFailure 7 ''a'', OpFailure 8 ''a'']" "''a''" "[OpFailure 5 ''a'']" 10]
  by simp

lemma open_stays:
  assumes "conf_is thr cool b" "bst (the_entry b k) = StateOpen"
    "\<forall>a \<in> set as. a \<noteq> OpSuccess k \<and> (\<forall>t. a = OpAllow t k \<longrightarrow> t < openedAt (the_entry b k) + cool)"
  shows "bst (the_entry (brk_run as b) k) = StateOpen
    \<and> openedAt (the_entry (brk_run as b) k) = openedAt (the_entry b k)"
proof -
  have "bst (run_ops (key_step thr cool k) as e) = StateOpen
      \<and> openedAt (run_ops (key_step thr cool k) as e) = openedAt e"
    if "bst e = StateOpen"
      "\<forall>a \<in> set as. a \<noteq> OpSuccess k \<and> (\<forall>t. a = OpAllow t k \<longrightarrow> t < openedAt e + cool)" for e
    using that
  proof (induction as arbitrary: e)
    case (Cons a as)
    then have "bst (key_step thr cool k a e) = StateOpen \<and> openedAt (key_step thr cool k a e) = openedAt e"
      by (cases a) (auto simp: key_step_def)
    with Cons show ?case by simp
  qed simp
  from this[OF assms(2,3)] show ?thesis by (simp add: run_entry[OF assms(1)])
qed

text \<open>The cooldown: after a failure that trips the breaker at time t0, whatever operations follow (of other
  keys at any time, further failures of this key, refused attempts of it before the cooldown is over), an attempt
  before t0 + cooldown is refused and one at or after it is let through as a half-open trial; a failure of that
  trial re-opens the breaker with a fresh cooldown and is not reported as a trip.\<close>

theorem breaker_cooldown:
  assumes "conf_is thr cool b" "brk_record_failure t0 k b = (True, b1)"
    "\<forall>a \<in> set as. a \<noteq> OpSuccess k \<and> (\<forall>t. a = OpAllow t k \<longrightarrow> t < t0 + cool)"
  shows "(fst (brk_allow now k (brk_run as b1)) \<longleftrightarrow> t0 + cool \<le> now) \<and>
    (t0 + cool \<le> now \<longrightarrow>
      (let b2 = snd (brk_allow now k (brk_run as b1));
           (tripped, b3) = brk_record_failure t1 k b2
       in brk_state k b2 = StateHalfOpen \<and> \<not> tripped \<and> brk_state k b3 = StateOpen
          \<and> (\<forall>t. fst (brk_allow t k b3) \<longleftrightarrow> t1 + cool \<le> t)))"
proof -
  have b1: "b1 = brk_step (OpFailure t0 k) b" using assms(2) by simp
  have conf: "conf_is thr cool b1" "conf_is thr cool (brk_run as b1)" using assms(1) by (simp_all only: b1 conf_step conf_run)
  have "fst (brk_record_failure t0 k b)" using assms(2) by simp
  then have "bst (the_entry b1 k) = StateOpen \<and> openedAt (the_entry b1 k) = t0"
    using brk_failure_entry[OF assms(1)] brk_step_key[OF assms(1)] by (simp add: b1 key_step_def del: brk_step.simps)
  then have e: "bst (the_entry (brk_run as b1) k) = StateOpen" "openedAt (the_entry (brk_run as b1) k) = t0"
    using open_stays[OF conf(1), of k as] assms(3) by simp_all
  let ?b2 = "brk_step (OpAllow now k) (brk_run as b1)"
  have allow: "fst (brk_allow now k (brk_run as b1)) \<longleftrightarrow> t0 + cool \<le> now"
    using brk_allow_entry[OF conf(2)] e by auto
  have conf2: "conf_is thr cool ?b2" using conf(2) by (simp only: conf_step)
  have conf3: "conf_is thr cool (brk_step (OpFailure t1 k) ?b2)" using conf2 by (simp only: conf_step)
  have en: "brk_enabled ?b2" "brk_enabled (brk_step (OpFailure t1 k) ?b2)"
    using conf2 conf3 by (simp_all only: conf_is_def)
  have "bst (the_entry ?b2 k) = StateHalfOpen" if "t0 + cool \<le> now"
    using that e by (simp add: brk_step_key[OF conf(2)] key_step_def del: brk_step.simps)
  moreover from this have "bst (the_entry (brk_step (OpFailure t1 k) ?b2) k) = StateOpen
      \<and> openedAt (the_entry (brk_step (OpFailure t1 k) ?b2) k) = t1" if "t0 + cool \<le> now"
    using that by (simp add: brk_step_key[OF conf2] key_step_def del: brk_step.simps)
  ultimately show ?thesis
    using allow brk_failure_entry[OF conf2, of t1 k] brk_allow_entry[OF conf3, of _ k]
      brk_state_entry[OF en(1), of k] brk_state_entry[OF en(2), of k]
    by (auto simp: Let_def split: prod.split)
qed

lemma breaker_cooldown_witness:
  "fst (brk_allow 13 ''a'' (brk_run [OpFailure 5 ''a'', OpAllow 9 ''a''] (snd (brk_record_failure 3 ''a'' (new_breaker 1 10)))))
   \<and> \<not> fst (brk_allow 12 ''a'' (brk_run [OpFailure 5 ''a'', OpAllow 9 ''a''] (snd (brk_record_failure 3 ''a'' (new_breaker 1 10)))))"
proof -
  have 1: "conf_is 1 10 (new_breaker 1 10)" by (simp add: conf_new)
  have 2: "brk_record_failure 3 ''a'' (new_breaker 1 10) = (True, snd (brk_record_failure 3 ''a'' (new_breaker 1 10)))"
    using brk_failure_entry[OF 1, of 3 "''a''"] by (simp add: prod_eq_iff closed_entry_def)
  show ?thesis
    using breaker_cooldown[OF 1 2, of "[OpFailure 5 ''a'', OpAllow 9 ''a'']"] by simp
qed

text \<open>The half-open state lets every caller through until an outcome is recorded, not a single trial call.\<close>

lemma breaker_half_open_lets_all:
  assumes "conf_is thr cool b" "brk_state k b = StateHalfOpen"
  shows "brk_allow now k b = (True, b)"
  using assms by (elim conf_isE)
    (auto simp: brk_allow_def brk_enabled_def brk_state_def entryFor_def split: option.splits)

end
