(* ===== verification/Reconciler.thy ===== *)
theory Reconciler
  imports Drift Breaker
begin

text \<open>
  The reconciler of internal/reconciler/reconciler.go: one cycle of a stack's loop with its breaker, and the table of
  loops that Start, Stop and RefreshStack keep. A cycle acts on the world and returns the breaker; a loop is its stack's
  interval. The ticker and the goroutines are not modelled.
\<close>

section \<open>One cycle\<close>

definition shouldReconcile :: "string \<Rightarrow> bool" where
  "shouldReconcile status \<longleftrightarrow> status = StackStatusActive \<or> status = StackStatusError"

definition stack_entry :: "stack \<Rightarrow> audit_entry \<Rightarrow> audit_entry" where
  "stack_entry st e = e\<lparr>ae_resource_type := ''stack'', ae_resource := st_id st, ae_stack := st_id st, ae_stack_name := st_name st\<rparr>"

definition breaker_entry :: "stack \<Rightarrow> breaker option \<Rightarrow> audit_entry" where
  "breaker_entry st b = (stack_entry st (FromSystem ''reconciler'' AuditOpCircuitBreakerOpen))
     \<lparr>ae_outcome := AuditOutcomeFailure, ae_metadata := [(''threshold'', dec_int (brk_threshold b))]\<rparr>"

text \<open>The metadata of a drift: the number of items, and the number of each type.\<close>

definition drift_entry :: "stack \<Rightarrow> drift_item list \<Rightarrow> audit_entry" where
  "drift_entry st ds = (stack_entry st (FromSystem ''reconciler'' AuditOpDriftDetected))
     \<lparr>ae_metadata := (''drift_count'', dec_nat (length ds)) #
        List.map (\<lambda>ty. (''drift_type_'' @ ty, dec_nat (length (filter (\<lambda>d. di_type d = ty) ds)))) (remdups (List.map di_type ds))\<rparr>"

definition auto_entry :: "stack \<Rightarrow> drift_item list \<Rightarrow> audit_entry" where
  "auto_entry st ds = (stack_entry st (FromSystem ''reconciler'' AuditOpDriftAutoDeployed))
     \<lparr>ae_outcome := AuditOutcomeInProgress,
      ae_metadata := [(''trigger'', TriggerReconcile), (''drift_count'', dec_nat (length ds))]\<rparr>"

text \<open>The deployment of a drifting stack: what the breaker allows, and what its end does to the breaker.\<close>

definition auto_deploy :: "reconciler \<Rightarrow> stack \<Rightarrow> drift_item list \<Rightarrow> breaker option \<Rightarrow> (stack \<times> breaker option) act" where
  "auto_deploy R st ds b = do {
     _ \<leftarrow> recordAudit (r_cli R) (r_audit R) (auto_entry st ds);
     ((_, err), st') \<leftarrow> Deploy (r_deployer R) st TriggerReconcile;
     case err of
       None \<Rightarrow> State_Monad.return (st', brk_record_success (st_id st) b)
     | Some e \<Rightarrow> do {
         t \<leftarrow> now (r_cli R);
         let (tripped, b') = brk_record_failure t (st_id st) b in do {
           _ \<leftarrow> (if tripped then recordAudit (r_cli R) (r_audit R) (breaker_entry st b') else State_Monad.return ());
           State_Monad.return (st', b') } } }"

definition react :: "reconciler \<Rightarrow> stack \<Rightarrow> drift_item list \<Rightarrow> breaker option \<Rightarrow> (stack \<times> breaker option) act" where
  "react R st ds b = do {
     _ \<leftarrow> recordAudit (r_cli R) (r_audit R) (drift_entry st ds);
     if \<not> AutoDeploy st then State_Monad.return (st, b)
     else if RequiresApproval st then do {
       (_, st') \<leftarrow> Deploy (r_deployer R) st TriggerReconcile;
       State_Monad.return (st', b) }
     else do {
       t \<leftarrow> now (r_cli R);
       let (allowed, b') = brk_allow t (st_id st) b in
       if \<not> allowed then State_Monad.return (st, b') else auto_deploy R st ds b' } }"

definition stamp_reconciled :: "reconciler \<Rightarrow> stack \<Rightarrow> unit act" where
  "stamp_reconciled R st = do {
     t \<leftarrow> now (r_cli R);
     _ \<leftarrow> save_stack ((r_deployer R)\<lparr>d_cli := r_cli R\<rparr>) (st\<lparr>LastReconciledAt := Some t\<rparr>);
     State_Monad.return () }"

definition reconcile_stack :: "reconciler \<Rightarrow> stack \<Rightarrow> breaker option \<Rightarrow> breaker option act" where
  "reconcile_stack R st b =
     (if \<not> shouldReconcile (st_status st) then State_Monad.return b
      else do {
        rep \<leftarrow> checkDrift R st;
        case rep of
          Inl _ \<Rightarrow> State_Monad.return b
        | Inr report \<Rightarrow> do {
            (st', b') \<leftarrow> (if HasDrift report then react R st (Drifts report) b
                         else State_Monad.return (st, brk_record_success (st_id st) b));
            _ \<leftarrow> stamp_reconciled R st';
            State_Monad.return b' } })"

definition reconcileOnce :: "reconciler \<Rightarrow> string \<Rightarrow> breaker option \<Rightarrow> breaker option act" where
  "reconcileOnce R stackID b = do {
     _ \<leftarrow> generateID (r_cli R);
     r \<leftarrow> store_call (r_cli R) ''GetStack'' (reading (GetStack stackID));
     case r of
       Inr (Some st) \<Rightarrow> reconcile_stack R st b
     | _ \<Rightarrow> State_Monad.return b }"

section \<open>The loops\<close>

type_synonym loops = "string \<rightharpoonup> int"

definition wants_loop :: "stack \<Rightarrow> bool" where
  "wants_loop st \<longleftrightarrow> ReconcileInterval st > 0 \<and> shouldReconcile (st_status st)"

definition startStackLoop :: "stack \<Rightarrow> loops \<Rightarrow> loops" where
  "startStackLoop st loops = loops(st_id st \<mapsto> ReconcileInterval st)"

definition Start :: "reconciler \<Rightarrow> loops \<Rightarrow> loops act" where
  "Start R loops = do {
     r \<leftarrow> store_call (r_cli R) ''ListStacks'' (reading ListStacks);
     case r of
       Inl _ \<Rightarrow> State_Monad.return loops
     | Inr stacks \<Rightarrow> State_Monad.return (foldl (\<lambda>ls st. if wants_loop st then startStackLoop st ls else ls) loops stacks) }"

definition Stop :: "loops \<Rightarrow> loops" where "Stop loops = Map.empty"

definition RefreshStack :: "reconciler \<Rightarrow> string \<Rightarrow> loops \<Rightarrow> loops act" where
  "RefreshStack R stackID loops0 =
     (let loops = loops0(stackID := None) in do {
        r \<leftarrow> store_call (r_cli R) ''GetStack'' (reading (GetStack stackID));
        case r of
          Inl _ \<Rightarrow> State_Monad.return loops
        | Inr None \<Rightarrow> State_Monad.return loops
        | Inr (Some st) \<Rightarrow> State_Monad.return (if wants_loop st then startStackLoop st loops else loops) })"

section \<open>A cycle only looks\<close>

text \<open>The events that leave Docker as it is: reads, the clone in its temporary directory, and bookkeeping.\<close>

fun observing :: "event \<Rightarrow> bool" where
  "observing (ECreate _ _ _) = False"
| "observing (EStart _ _) = False"
| "observing (EStop _ _ _) = False"
| "observing (ERemove _ _) = False"
| "observing (EPull _ _ _) = False"
| "observing (EDrain _) = False"
| "observing (ENetConnect _ _ _) = False"
| "observing (ENetCreate _ _ _ _ _) = False"
| "observing (EVolCreate _ _ _ _ _) = False"
| "observing (ECall _ _ _) = False"
| "observing (EVolume _ _) = False"
| "observing _ = True"

lemma bookkeeping_observing: "bookkeeping e \<Longrightarrow> observing e"
  by (cases e) simp_all

text \<open>A property of the world that observing events keep, and new audit rows and stack rows and held deployments too.\<close>

definition looks :: "log \<Rightarrow> world \<Rightarrow> bool" where
  "looks l0 w \<longleftrightarrow> (\<exists>t. w_log w = l0 @ t \<and> list_all observing t)"

lemma looks_tolerates: "tolerates observing (looks l0)"
  unfolding tolerates_def looks_def by (auto intro!: exI[of _ "_ @ [_]"])

lemma looks_emit: "(\<And>a. observing (ev a)) \<Longrightarrow> keeps (looks l0) (emit ans ev)"
  by (rule tolerates_emit[OF looks_tolerates])

lemma looks_db: "looks l0 (w\<lparr>w_db := d\<rparr>) = looks l0 w"
  by (simp add: looks_def)

lemma looks_audit: "audit_free (looks l0)"
  using tolerates_mono[OF looks_tolerates bookkeeping_observing] by (simp add: audit_free_def looks_db)

lemmas looks_ops = bookkeeping_ops[OF audit_freeD[OF looks_audit]]

lemma looks_store: "keeps (looks l0) (store_call \<Omega> op f)"
  by (rule keeps_store_call) (auto simp: looks_db looks_tolerates[unfolded tolerates_def, rule_format])

lemma looks_retry: "keeps (looks l0) m \<Longrightarrow> keeps (looks l0) (retry_step \<Omega> p m)"
  by (rule keeps_retry) (auto simp: looks_tolerates[unfolded tolerates_def, rule_format])

lemma looks_gather: "keeps (looks l0) (gather_actual \<Omega> cs acc)"
  by (induction cs arbitrary: acc) (simp_all add: keep Let_def ContainerInspect_def looks_emit)

lemma looks_fetch: "keeps (looks l0) (fetchDesiredState R st)"
  by (simp add: fetchDesiredState_def secureTempDir_def drift_clone_attempt_def RemoveAll_def MkdirAll_def PlainClone_def
      Let_def keep looks_ops looks_emit looks_retry)

lemma looks_checkDrift: "keeps (looks l0) (checkDrift R st)"
  by (simp add: checkDrift_def dockerFor_def listStackContainers_def observe_def Let_def keep looks_ops looks_emit looks_fetch
      looks_gather looks_store split: option.split)

lemma looks_save_stack: "keeps (looks l0) (save_stack D st)"
  by (simp add: save_stack_def keep looks_ops looks_store looks_emit)

lemma looks_stamp: "keeps (looks l0) (stamp_reconciled R st)"
  by (simp add: stamp_reconciled_def keep looks_ops looks_save_stack)

lemma looks_request: "RequiresApproval st \<Longrightarrow> keeps (looks l0) (Deploy D st tr)"
  by (simp add: Deploy_def requestApproval_def hold_deployment_def create_deployment_def Let_def keep looks_ops looks_store
      recordAudit_frame[OF looks_audit] split: option.split sum.split)

text \<open>A breaker that holds a key back at a time: it is enabled, the key is open, and the cooldown is not over.\<close>

definition held_open :: "breaker option \<Rightarrow> string \<Rightarrow> gotime \<Rightarrow> bool" where
  "held_open b key t \<longleftrightarrow> (\<exists>br e. b = Some br \<and> threshold br > 0 \<and> bentries br key = Some e \<and> bst e = StateOpen
     \<and> t - openedAt e < cooldown br)"

lemma allow_held: "fst (brk_allow t key b) \<longleftrightarrow> \<not> held_open b key t"
  by (auto simp: brk_allow_def held_open_def brk_enabled_def entryFor_def closed_entry_def not_le split: option.splits)

text \<open>The log only grows.\<close>

definition extends :: "log \<Rightarrow> world \<Rightarrow> bool" where
  "extends l w \<longleftrightarrow> (\<exists>t. w_log w = l @ t)"

lemma extends_tolerates: "tolerates E (extends l)"
  by (auto simp: tolerates_def extends_def intro!: exI[of _ "_ @ [_]"])

lemma extends_free: "deploy_free UNIV i (extends l)"
proof -
  have "extends l (w\<lparr>w_db := d\<rparr>) = extends l w" for w d by (simp add: extends_def)
  then show ?thesis using extends_tolerates by (simp add: deploy_free_def)
qed

lemma extends_audit: "audit_free (extends l)"
  by (rule deploy_free_audit[OF extends_free])

lemmas extends_ops = bookkeeping_ops[OF audit_freeD[OF extends_audit]]

lemma extends_store: "keeps (extends l) (store_call \<Omega> op f)"
  by (rule keeps_store_call) (use extends_tolerates in \<open>auto simp: extends_def tolerates_def intro!: exI[of _ "_ @ [_]"]\<close>)

lemma extends_run: "keeps (extends l) (runDeployment D st p)"
  by (rule runDeployment_frame[OF extends_free refl]) simp_all

lemma extends_deploy: "keeps (extends l) (Deploy D st tr)"
  by (simp add: Deploy_def requestApproval_def hold_deployment_def create_deployment_def Let_def keep extends_ops extends_store
      extends_run recordAudit_frame[OF extends_audit] split: option.split sum.split)

lemma extends_auto: "keeps (extends l) (auto_deploy R st ds b)"
  by (simp add: auto_deploy_def Let_def keep extends_ops extends_deploy recordAudit_frame[OF extends_audit]
      split: option.split prod.split)

lemma extends_stamp: "keeps (extends l) (stamp_reconciled R st)"
  by (simp add: stamp_reconciled_def keep extends_ops save_stack_frame[OF extends_free])

text \<open>A cycle only looks up to the moment at which the clock gives a time the breaker lets pass.\<close>

definition let_pass :: "stack \<Rightarrow> breaker option \<Rightarrow> log \<Rightarrow> world \<Rightarrow> bool" where
  "let_pass st b l0 w \<longleftrightarrow> AutoDeploy st \<and> \<not> RequiresApproval st \<and>
     (\<exists>pre x post. w_log w = l0 @ pre @ ENow x # post \<and> list_all observing pre \<and> \<not> held_open b (st_id st) x)"

lemma let_pass_extends:
  assumes "keeps (extends (l0 @ pre @ [ENow x])) m" "w_log w = l0 @ pre @ [ENow x]" "AutoDeploy st" "\<not> RequiresApproval st"
    "list_all observing pre" "\<not> held_open b (st_id st) x"
  shows "let_pass st b l0 (snd (run_state m w))"
proof -
  have "extends (l0 @ pre @ [ENow x]) w" using assms(2) by (simp add: extends_def)
  from keepsD[OF assms(1) this] obtain t where "w_log (snd (run_state m w)) = l0 @ pre @ ENow x # t" by (auto simp: extends_def)
  then show ?thesis using assms(3-6) unfolding let_pass_def by blast
qed

lemma let_pass_stays:
  assumes "\<And>l. keeps (extends l) m"
  shows "keeps (let_pass st b l0) m"
  unfolding keeps_def
proof (rule validI)
  fix w r w' assume "let_pass st b l0 w" and r: "run_state m w = (r, w')"
  then obtain pre x post where *: "AutoDeploy st" "\<not> RequiresApproval st" "w_log w = l0 @ pre @ ENow x # post"
    "list_all observing pre" "\<not> held_open b (st_id st) x" by (auto simp: let_pass_def)
  have "extends (w_log w) w'" using keepsD[OF assms, of "w_log w" w] r by (auto simp: extends_def)
  then obtain t where "w_log w' = l0 @ pre @ ENow x # post @ t" by (auto simp: extends_def *(3))
  then show "let_pass st b l0 w'" using * unfolding let_pass_def by blast
qed

definition watched :: "stack \<Rightarrow> breaker option \<Rightarrow> log \<Rightarrow> world \<Rightarrow> bool" where
  "watched st b l0 w \<longleftrightarrow> looks l0 w \<or> let_pass st b l0 w"

lemma watched_react: "valid (looks l0) (react R st ds b) (\<lambda>_. watched st b l0)"
proof -
  have gate: "valid (looks l0) (do { t \<leftarrow> now (r_cli R); let (allowed, b') = brk_allow t (st_id st) b in
      if \<not> allowed then State_Monad.return (st, b') else auto_deploy R st ds b' }) (\<lambda>_. watched st b l0)"
    if "AutoDeploy st" "\<not> RequiresApproval st"
  proof (rule valid_bind[where R = "\<lambda>t w. looks l0 w \<and> (\<exists>pre. w_log w = l0 @ pre @ [ENow t] \<and> list_all observing pre)"])
    show "valid (looks l0) (now (r_cli R))
        (\<lambda>t w. looks l0 w \<and> (\<exists>pre. w_log w = l0 @ pre @ [ENow t] \<and> list_all observing pre))"
      by (auto simp: now_def looks_def)
    fix t
    show "valid (\<lambda>w. looks l0 w \<and> (\<exists>pre. w_log w = l0 @ pre @ [ENow t] \<and> list_all observing pre))
      (let (allowed, b') = brk_allow t (st_id st) b in if \<not> allowed then State_Monad.return (st, b') else auto_deploy R st ds b')
      (\<lambda>_. watched st b l0)"
    proof (cases "fst (brk_allow t (st_id st) b)")
      case True
      then have h: "\<not> held_open b (st_id st) t" by (simp add: allow_held)
      show ?thesis
        using True let_pass_extends[OF extends_auto _ that _ h]
        by (auto simp: valid_def watched_def Let_def case_prod_beta)
    qed (simp add: Let_def case_prod_beta watched_def)
  qed
  have weak: "keeps (looks l0) m \<Longrightarrow> valid (looks l0) m (\<lambda>_. watched st b l0)" for m :: "(stack \<times> breaker option) act"
    by (auto simp: keeps_def valid_def watched_def)
  have held: "keeps (looks l0) (do { (_, st') \<leftarrow> Deploy (r_deployer R) st TriggerReconcile; State_Monad.return (st', b) })"
    if "RequiresApproval st"
    by (intro keeps_bind looks_request that) (simp add: case_prod_beta keeps_return)
  show ?thesis
    unfolding react_def
  proof (rule valid_bind[OF recordAudit_frame[OF looks_audit, unfolded keeps_def]])
    show "valid (looks l0) (if \<not> AutoDeploy st then State_Monad.return (st, b)
       else if RequiresApproval st then do { (_, st') \<leftarrow> Deploy (r_deployer R) st TriggerReconcile; State_Monad.return (st', b) }
       else do { t \<leftarrow> now (r_cli R); let (allowed, b') = brk_allow t (st_id st) b in
         if \<not> allowed then State_Monad.return (st, b') else auto_deploy R st ds b' }) (\<lambda>_. watched st b l0)"
      using gate weak[OF held] by (auto simp: watched_def)
  qed
qed

lemma watched_stamp: "keeps (watched st b l0) (stamp_reconciled R st')"
  using keepsD[OF looks_stamp, of l0 _ R st'] keepsD[OF let_pass_stays[OF extends_stamp], of st b l0 _ R st']
  by (auto simp: keeps_def valid_def watched_def)

lemma watched_stack:
  "valid (looks l0) (reconcile_stack R st b) (\<lambda>_ w. looks l0 w \<or> shouldReconcile (st_status st) \<and> let_pass st b l0 w)"
proof -
  have tail: "valid (watched st b l0) (do { _ \<leftarrow> stamp_reconciled R st'; State_Monad.return b' }) (\<lambda>_. watched st b l0)" for st' b'
    using keeps_bind[OF watched_stamp keeps_return] by (simp add: keeps_def)
  have r: "valid (looks l0) (do { (st', b') \<leftarrow> (if h then react R st ds b else State_Monad.return (st, c));
      _ \<leftarrow> stamp_reconciled R st'; State_Monad.return b' }) (\<lambda>_. watched st b l0)" for h ds c
  proof (rule valid_bind[where R = "\<lambda>_. watched st b l0"])
    show "valid (looks l0) (if h then react R st ds b else State_Monad.return (st, c)) (\<lambda>_. watched st b l0)"
      using watched_react by (cases h) (simp_all add: watched_def)
    fix x :: "stack \<times> breaker option"
    show "valid (watched st b l0) (case x of (st', b') \<Rightarrow> do { _ \<leftarrow> stamp_reconciled R st'; State_Monad.return b' }) (\<lambda>_. watched st b l0)"
      using tail by (cases x) simp
  qed
  have "valid (looks l0) (do { rep \<leftarrow> checkDrift R st; case rep of Inl _ \<Rightarrow> State_Monad.return b
        | Inr report \<Rightarrow> do { (st', b') \<leftarrow> (if HasDrift report then react R st (Drifts report) b
                         else State_Monad.return (st, brk_record_success (st_id st) b));
            _ \<leftarrow> stamp_reconciled R st'; State_Monad.return b' } }) (\<lambda>_. watched st b l0)"
  proof (rule valid_bind[OF looks_checkDrift[unfolded keeps_def]])
    fix rep :: "drift_report res"
    show "valid (looks l0) (case rep of Inl _ \<Rightarrow> State_Monad.return b
        | Inr report \<Rightarrow> do { (st', b') \<leftarrow> (if HasDrift report then react R st (Drifts report) b
                         else State_Monad.return (st, brk_record_success (st_id st) b));
            _ \<leftarrow> stamp_reconciled R st'; State_Monad.return b' }) (\<lambda>_. watched st b l0)"
    proof (cases rep)
      case (Inr report)
      show ?thesis unfolding Inr sum.case by (rule r)
    qed (simp add: watched_def)
  qed
  then show ?thesis
    unfolding reconcile_stack_def by (auto simp: watched_def elim: valid_conseq)
qed

text \<open>C5. The reconciler only looks unless it may deploy: if a cycle makes any call that could change something on a Docker
  host, then the stack it read is active or in error, deploys by itself and needs no approval, and before the first such
  call the clock gave in this cycle a time at which the breaker does not hold the stack back. So a cycle of a stack that
  is paused, being deployed, not set to auto-deploy or gated by approval, or whose breaker is open with the cooldown not
  over at any time the cycle sees, reads, clones into its temporary directory, keeps its own records, and nothing else.\<close>

theorem reconcile_only_looks:
  assumes "run_state (reconcileOnce R stackID b) w = (b', w')"
  shows "\<exists>t. w_log w' = w_log w @ t \<and> (list_all observing t \<or>
     (\<exists>st pre x post. GetStack stackID (w_db w) = Inr (Some st) \<and> st_status st \<in> {StackStatusActive, StackStatusError}
        \<and> AutoDeploy st \<and> \<not> RequiresApproval st
        \<and> t = pre @ ENow x # post \<and> list_all observing pre \<and> \<not> held_open b (st_id st) x))"
proof -
  let ?L = "looks (w_log w)"
  let ?Q = "\<lambda>w'. ?L w' \<or> (\<exists>st. GetStack stackID (w_db w) = Inr (Some st) \<and> shouldReconcile (st_status st)
      \<and> let_pass st b (w_log w) w')"
  have get: "valid (\<lambda>w'. ?L w' \<and> w_db w' = w_db w) (store_call (r_cli R) ''GetStack'' (reading (GetStack stackID)))
      (\<lambda>r w'. ?L w' \<and> (\<forall>st. r = Inr (Some st) \<longrightarrow> GetStack stackID (w_db w) = Inr (Some st)))"
  proof (rule validI)
    fix v r v' assume v: "?L v \<and> w_db v = w_db w"
      and r: "run_state (store_call (r_cli R) ''GetStack'' (reading (GetStack stackID))) v = (r, v')"
    have "?L v'" using keepsD[OF looks_store, of "w_log w" v] v r by (metis snd_conv)
    then show "?L v' \<and> (\<forall>st. r = Inr (Some st) \<longrightarrow> GetStack stackID (w_db w) = Inr (Some st))"
      using store_call_result[OF r] v by (auto simp: reading_def)
  qed
  have gen: "valid (\<lambda>v. v = w) (generateID (r_cli R)) (\<lambda>_ w'. ?L w' \<and> w_db w' = w_db w)"
    by (auto simp: generateID_def looks_def)
  have "valid (\<lambda>v. v = w) (reconcileOnce R stackID b) (\<lambda>_. ?Q)"
    unfolding reconcileOnce_def
  proof (rule valid_bind[OF gen], rule valid_bind[OF get])
    fix r
    show "valid (\<lambda>w'. ?L w' \<and> (\<forall>st. r = Inr (Some st) \<longrightarrow> GetStack stackID (w_db w) = Inr (Some st)))
      (case r of Inr (Some st) \<Rightarrow> reconcile_stack R st b | _ \<Rightarrow> State_Monad.return b) (\<lambda>_. ?Q)"
      using watched_stack[of "w_log w" R _ b] by (fastforce simp: valid_def split: sum.split option.split)
  qed
  then have "?Q w'" using assms by (auto simp: valid_def)
  then show ?thesis
  proof (elim disjE exE conjE)
    fix st assume st: "GetStack stackID (w_db w) = Inr (Some st)" "shouldReconcile (st_status st)" "let_pass st b (w_log w) w'"
    then obtain pre x post where "w_log w' = w_log w @ pre @ ENow x # post" "list_all observing pre" "\<not> held_open b (st_id st) x"
      by (auto simp: let_pass_def)
    with st show ?thesis
      by (intro exI[of _ "pre @ ENow x # post"] conjI disjI2 exI[of _ st] exI[of _ pre] exI[of _ x] exI[of _ post])
         (auto simp: let_pass_def shouldReconcile_def)
  qed (auto simp: looks_def)
qed

definition demo_reconciler :: reconciler where
  "demo_reconciler = \<lparr>r_cli = demo_docker, r_hosts = None, r_deployer = demo_deployer, r_audit = Some StoreRecorder,
     r_policy = \<lparr>MaxAttempts = 1, BaseDelay = 0, MaxDelay = 0\<rparr>, r_tmp = ''/tmp'', r_order = (\<lambda>_ xs. xs)\<rparr>"

definition demo_manual :: world where
  "demo_manual = demo_world\<lparr>w_db := (w_db demo_world)\<lparr>t_stacks := [demo_stack\<lparr>AutoDeploy := False\<rparr>]\<rparr>\<rparr>"

theorem reconcile_only_looks_witness:
  "list_all observing (w_log (snd (run_state (reconcileOnce demo_reconciler ''s1'' None) demo_manual)))"
proof -
  have "\<not> AutoDeploy st" if "GetStack ''s1'' (w_db demo_manual) = Inr (Some st)" for st
    using that
    by (auto simp: GetStack_def scan_one_def scanStack_def demo_manual_def tbl_find_def demo_stack_def
        split: option.splits sum.splits if_splits)
  moreover obtain b' w' where r: "run_state (reconcileOnce demo_reconciler ''s1'' None) demo_manual = (b', w')" by fastforce
  ultimately obtain t where "w_log w' = w_log demo_manual @ t" "list_all observing t"
    using reconcile_only_looks[OF r] by blast
  then show ?thesis using r by (simp add: demo_manual_def demo_world_def)
qed

section \<open>The loops follow the stacks\<close>

text \<open>After a refresh a stack has a loop only if it is there, wants one, and with its interval; the other loops stay.\<close>

lemma refresh_loops:
  assumes "run_state (RefreshStack R i loops) w = (loops', w')"
  shows "loops' k = (if k \<noteq> i then loops k
    else if o_fault (r_cli R) (w_log w) ''GetStack'' \<noteq> None then None
    else case GetStack i (w_db w) of
        Inr (Some st) \<Rightarrow> if wants_loop st then Some (ReconcileInterval st) else None
      | _ \<Rightarrow> None)"
proof -
  have "st_id st = i" if "GetStack i (w_db w) = Inr (Some st)" for st
    using that tbl_find_Some
    by (fastforce simp: GetStack_def scan_one_def scanStack_def split: option.splits sum.splits)
  then show ?thesis
    using assms
    by (auto simp: RefreshStack_def store_call_def emit_def run_state_bind Let_def reading_def startStackLoop_def
        split: option.splits sum.splits)
qed

end
