(* ===== verification/Projections.thy ===== *)
theory Projections
  imports World Complex_Main "HOL-Library.Product_Lexorder" "HOL-Library.Word"
begin

text \<open>
  What the API shows of Docker's objects: the pure functions of internal/handler/handler.go that turn the client's
  answers into the response types, the redaction of environments, the arithmetic of the statistics and the projection of
  events. Counters are words of their width and a float64 is a rational, without its rounding. An address is None when
  it is not valid. sort.Slice is a stable sort here; Go leaves the order of equal elements open.
\<close>

section \<open>Time and labels\<close>

text \<open>time.Unix, from the zero time of the year 1.\<close>

definition unix_time :: "int \<Rightarrow> gotime" where
  "unix_time s = (s + 62135596800) * 1000000000"

definition label :: "(string \<times> string) list \<Rightarrow> string \<Rightarrow> string" where
  "label ls k = (case map_of ls k of Some v \<Rightarrow> v | None \<Rightarrow> [])"

definition containerLabelManagedBy :: string where "containerLabelManagedBy = ''managed-by''"
definition containerLabelManagedValue :: string where "containerLabelManagedValue = ''accelero''"
definition containerLabelStackName :: string where "containerLabelStackName = ''accelero-stack''"
definition containerLabelServiceName :: string where "containerLabelServiceName = ''accelero-service''"
definition containerLabelReplicaIndex :: string where "containerLabelReplicaIndex = ''accelero-replica''"

definition parseReplicaLabel :: "string \<Rightarrow> int option" where
  "parseReplicaLabel raw = (if raw = [] then None else atoi raw)"

section \<open>Containers\<close>

record port_summary =
  ps_private :: "16 word"
  ps_type :: string
  ps_public :: "16 word"
  ps_ip :: "string option"

record listed_container = container_summary +
  lc_image_id :: string
  lc_created :: int
  lc_status :: string
  lc_health :: "string option"
  lc_ports :: "port_summary list"

record container_port =
  cp_container :: "16 word"
  cp_protocol :: string
  cp_host :: "16 word"
  cp_host_ip :: string

record container_view =
  cv_id :: string
  cv_cname :: string
  cv_image :: string
  cv_service :: string
  cv_replica :: "int option"
  cv_state :: string
  cv_status :: string
  cv_health :: string
  cv_created :: gotime
  cv_ports :: "container_port list"
  cv_labels :: "(string \<times> string) list"

definition summaryFromDocker :: "listed_container \<Rightarrow> container_view" where
  "summaryFromDocker c =
     \<lparr>cv_id = sm_id c,
      cv_cname = (case sm_names c of [] \<Rightarrow> [] | n # _ \<Rightarrow> trim_prefix n ''/''),
      cv_image = sm_image c,
      cv_service = label (sm_labels c) containerLabelServiceName,
      cv_replica = parseReplicaLabel (label (sm_labels c) containerLabelReplicaIndex),
      cv_state = sm_state c,
      cv_status = lc_status c,
      cv_health = (case lc_health c of None \<Rightarrow> [] | Some h \<Rightarrow> h),
      cv_created = unix_time (lc_created c),
      cv_ports = List.map (\<lambda>p. \<lparr>cp_container = ps_private p, cp_protocol = ps_type p, cp_host = ps_public p,
                                 cp_host_ip = (case ps_ip p of None \<Rightarrow> [] | Some ip \<Rightarrow> ip)\<rparr>) (lc_ports c),
      cv_labels = sm_labels c\<rparr>"

text \<open>The order of the listing: by service, then replica, a missing one first, then name.\<close>

definition view_key :: "container_view \<Rightarrow> string \<times> int \<times> string" where
  "view_key v = (cv_service v, (case cv_replica v of None \<Rightarrow> -1 | Some r \<Rightarrow> r), cv_cname v)"

definition sort_views :: "container_view list \<Rightarrow> container_view list" where
  "sort_views vs = sort_key view_key vs"

text \<open>An inspected container, as far as the handlers read it.\<close>

record endpoint_raw =
  er_network :: string
  er_ip :: "string option"
  er_gateway :: "string option"
  er_mac :: string
  er_aliases :: "string list"

record mount_point =
  mt_source :: string
  mt_destination :: string
  mt_mode :: string
  mt_type :: string
  mt_rw :: bool

record inspect_config =
  ic_labels :: "(string \<times> string) list"
  ic_cmd :: "string list"
  ic_entrypoint :: "string list"
  ic_env :: "string list"
  ic_workdir :: string
  ic_user :: string
  ic_tty :: bool

record inspect_state =
  is_status :: string
  is_health :: "string option"
  is_started :: string
  is_finished :: string
  is_exit :: int

record inspect_response =
  ir_id :: string
  ir_name :: string
  ir_image :: string
  ir_created :: string
  ir_state :: "inspect_state option"
  ir_restart_count :: int
  ir_restart_policy :: "string option"
  ir_config :: "inspect_config option"
  ir_networks :: "(string \<times> endpoint_raw option) list option"
  ir_mounts :: "mount_point list"

record network_endpoint =
  ne_network :: string
  ne_ip :: string
  ne_gateway :: string
  ne_mac :: string
  ne_aliases :: "string list"

record container_detail = container_view +
  cd_cmd :: "string list"
  cd_entrypoint :: "string list"
  cd_env :: "string list"
  cd_workdir :: string
  cd_user :: string
  cd_restart_count :: int
  cd_restart_policy :: string
  cd_started :: string
  cd_finished :: string
  cd_exit :: int
  cd_networks :: "(string \<times> network_endpoint) list"
  cd_mounts :: "mount_point list"

definition containerBelongsToStack :: "inspect_response \<Rightarrow> string \<Rightarrow> bool" where
  "containerBelongsToStack c stackName =
     (case ir_config c of
        None \<Rightarrow> False
      | Some cfg \<Rightarrow>
          if label (ic_labels cfg) containerLabelManagedBy \<noteq> containerLabelManagedValue then False
          else if label (ic_labels cfg) containerLabelStackName \<noteq> stackName then False
          else True)"

definition labelsFromConfig :: "inspect_config option \<Rightarrow> (string \<times> string) list" where
  "labelsFromConfig cfg = (case cfg of None \<Rightarrow> [] | Some c \<Rightarrow> ic_labels c)"

section \<open>Redaction\<close>

definition secret_needles :: "string list" where
  "secret_needles = [''PASSWORD'', ''TOKEN'', ''SECRET'', ''APIKEY'', ''API_KEY'', ''PRIVATE'', ''CREDENTIAL'']"

definition isSecretKey :: "string \<Rightarrow> bool" where
  "isSecretKey key = list_ex (\<lambda>needle. contains_str (to_upper key) needle) secret_needles"

definition redact_entry :: "string \<Rightarrow> string" where
  "redact_entry entry =
     (case index_byte entry CHR ''='' of
        None \<Rightarrow> entry
      | Some idx \<Rightarrow> let key = take idx entry in if isSecretKey key then key @ ''=***'' else entry)"

definition redactEnv :: "string list \<Rightarrow> string list" where
  "redactEnv env = List.map redact_entry env"

definition endpoint_view :: "endpoint_raw \<Rightarrow> network_endpoint" where
  "endpoint_view ep =
     \<lparr>ne_network = er_network ep, ne_ip = (case er_ip ep of None \<Rightarrow> [] | Some a \<Rightarrow> a),
      ne_gateway = (case er_gateway ep of None \<Rightarrow> [] | Some a \<Rightarrow> a), ne_mac = er_mac ep, ne_aliases = er_aliases ep\<rparr>"

text \<open>The time of creation is parsed by time.Parse, an argument; a text it refuses leaves the zero time.\<close>

definition detailFromInspect :: "(string \<Rightarrow> gotime option) \<Rightarrow> inspect_response \<Rightarrow> container_detail" where
  "detailFromInspect rfc3339 c =
     (let cfg = ir_config c; st = ir_state c;
          replica = (case cfg of None \<Rightarrow> -1
                     | Some k \<Rightarrow> (case parseReplicaLabel (label (ic_labels k) containerLabelReplicaIndex) of None \<Rightarrow> -1 | Some i \<Rightarrow> i))
      in \<lparr>cv_id = ir_id c,
          cv_cname = trim_prefix (ir_name c) ''/'',
          cv_image = ir_image c,
          cv_service = label (labelsFromConfig cfg) containerLabelServiceName,
          cv_replica = (if replica \<ge> 0 then Some replica else None),
          cv_state = (case st of None \<Rightarrow> [] | Some s \<Rightarrow> is_status s),
          cv_status = (case st of None \<Rightarrow> [] | Some s \<Rightarrow> ''state='' @ is_status s),
          cv_health = (case st of None \<Rightarrow> [] | Some s \<Rightarrow> (case is_health s of None \<Rightarrow> [] | Some h \<Rightarrow> h)),
          cv_created = (case rfc3339 (ir_created c) of None \<Rightarrow> 0 | Some t \<Rightarrow> t),
          cv_ports = [],
          cv_labels = labelsFromConfig cfg,
          cd_cmd = (case cfg of None \<Rightarrow> [] | Some k \<Rightarrow> ic_cmd k),
          cd_entrypoint = (case cfg of None \<Rightarrow> [] | Some k \<Rightarrow> ic_entrypoint k),
          cd_env = (case cfg of None \<Rightarrow> [] | Some k \<Rightarrow> redactEnv (ic_env k)),
          cd_workdir = (case cfg of None \<Rightarrow> [] | Some k \<Rightarrow> ic_workdir k),
          cd_user = (case cfg of None \<Rightarrow> [] | Some k \<Rightarrow> ic_user k),
          cd_restart_count = ir_restart_count c,
          cd_restart_policy = (case ir_restart_policy c of None \<Rightarrow> [] | Some p \<Rightarrow> p),
          cd_started = (case st of None \<Rightarrow> [] | Some s \<Rightarrow> is_started s),
          cd_finished = (case st of None \<Rightarrow> [] | Some s \<Rightarrow> is_finished s),
          cd_exit = (case st of None \<Rightarrow> 0 | Some s \<Rightarrow> is_exit s),
          cd_networks = (case ir_networks c of None \<Rightarrow> []
             | Some ns \<Rightarrow> List.concat (List.map (\<lambda>(n, ep). case ep of None \<Rightarrow> [] | Some e \<Rightarrow> [(n, endpoint_view e)]) ns)),
          cd_mounts = ir_mounts c\<rparr>)"

section \<open>Statistics\<close>

record cpu_stats =
  TotalUsage :: "64 word"
  PercpuUsage :: "64 word list"
  SystemUsage :: "64 word"
  OnlineCPUs :: "32 word"

record memory_stats =
  mem_usage :: "64 word"
  mem_limit :: "64 word"
  mem_stats :: "(string \<times> 64 word) list"

record net_stats =
  RxBytes :: "64 word"
  TxBytes :: "64 word"

record stats_response =
  sr_id :: string
  sr_name :: string
  sr_read :: gotime
  sr_cpu :: cpu_stats
  sr_precpu :: cpu_stats
  sr_memory :: memory_stats
  sr_networks :: "(string \<times> net_stats) list"
  sr_blkio :: "(string \<times> 64 word) list"
  sr_pids :: "64 word"

record memory_view =
  mv_usage :: "64 word"
  mv_limit :: "64 word"
  mv_percent :: rat

record stats_sample =
  ss_id :: string
  ss_name :: string
  ss_read :: gotime
  ss_cpu_percent :: rat
  ss_online :: "32 word"
  ss_total :: "64 word"
  ss_system :: "64 word"
  ss_memory :: memory_view
  ss_networks :: "(string \<times> net_stats) list"
  ss_blkio :: "64 word \<times> 64 word"
  ss_pids :: "64 word"

definition word_rat :: "'a::len word \<Rightarrow> rat" where "word_rat w = of_nat (unat w)"

definition computeCPUPercent :: "stats_response \<Rightarrow> rat" where
  "computeCPUPercent s =
     (let cpuDelta = word_rat (TotalUsage (sr_cpu s)) - word_rat (TotalUsage (sr_precpu s));
          systemDelta = word_rat (SystemUsage (sr_cpu s)) - word_rat (SystemUsage (sr_precpu s))
      in if cpuDelta \<le> 0 \<or> systemDelta \<le> 0 then 0
         else let online0 = word_rat (OnlineCPUs (sr_cpu s));
                  online1 = (if online0 = 0 then of_nat (length (PercpuUsage (sr_cpu s))) else online0);
                  onlineCPUs = (if online1 = 0 then 1 else online1)
              in cpuDelta / systemDelta * onlineCPUs * 100)"

text \<open>The page cache of version 1, or else that of version 2, is taken off the usage when it is smaller.\<close>

definition without_cache :: "memory_stats \<Rightarrow> 64 word" where
  "without_cache m =
     (case map_of (mem_stats m) ''cache'' of
        Some cache \<Rightarrow> if mem_usage m > cache then mem_usage m - cache
          else (case map_of (mem_stats m) ''file'' of Some f \<Rightarrow> if mem_usage m > f then mem_usage m - f else mem_usage m | None \<Rightarrow> mem_usage m)
      | None \<Rightarrow> (case map_of (mem_stats m) ''file'' of Some f \<Rightarrow> if mem_usage m > f then mem_usage m - f else mem_usage m | None \<Rightarrow> mem_usage m))"

definition computeMemoryStats :: "memory_stats \<Rightarrow> memory_view" where
  "computeMemoryStats m =
     (let usage = without_cache m in
      \<lparr>mv_usage = usage, mv_limit = mem_limit m,
       mv_percent = (if mem_limit m > 0 then word_rat usage / word_rat (mem_limit m) * 100 else 0)\<rparr>)"

fun computeBlockIOStats :: "(string \<times> 64 word) list \<Rightarrow> 64 word \<times> 64 word" where
  "computeBlockIOStats [] = (0, 0)"
| "computeBlockIOStats ((opname, v) # es) =
     (let (r, w) = computeBlockIOStats es; o' = to_lower opname in
      if o' = ''read'' then (v + r, w) else if o' = ''write'' then (r, v + w) else (r, w))"

definition computeStatsSample :: "stats_response \<Rightarrow> string \<Rightarrow> string \<Rightarrow> stats_sample" where
  "computeStatsSample s idFallback nameFallback =
     \<lparr>ss_id = (if sr_id s = [] then idFallback else sr_id s),
      ss_name = (let name = trim_prefix (sr_name s) ''/'' in if name = [] then trim_prefix nameFallback ''/'' else name),
      ss_read = sr_read s,
      ss_cpu_percent = computeCPUPercent s,
      ss_online = OnlineCPUs (sr_cpu s),
      ss_total = TotalUsage (sr_cpu s),
      ss_system = SystemUsage (sr_cpu s),
      ss_memory = computeMemoryStats (sr_memory s),
      ss_networks = sr_networks s,
      ss_blkio = computeBlockIOStats (sr_blkio s),
      ss_pids = sr_pids s\<rparr>"

section \<open>Events\<close>

record docker_event =
  de_time :: int
  de_time_nano :: int
  de_type :: string
  de_action :: string
  de_actor :: string
  de_attributes :: "(string \<times> string) list"

record stack_event =
  se_time :: gotime
  se_type :: string
  se_action :: string
  se_actor :: string
  se_name :: string
  se_image :: string
  se_service :: string
  se_replica :: "int option"
  se_attributes :: "(string \<times> string) list"

definition projectEvent :: "docker_event \<Rightarrow> stack_event" where
  "projectEvent m =
     \<lparr>se_time = (if de_time_nano m = 0 then unix_time (de_time m) else de_time_nano m + unix_time 0),
      se_type = de_type m,
      se_action = de_action m,
      se_actor = de_actor m,
      se_name = label (de_attributes m) ''name'',
      se_image = label (de_attributes m) ''image'',
      se_service = label (de_attributes m) containerLabelServiceName,
      se_replica = (let raw = label (de_attributes m) containerLabelReplicaIndex in
                    if raw \<noteq> [] then parseReplicaLabel raw else None),
      se_attributes = de_attributes m\<rparr>"

section \<open>Images, volumes and networks\<close>

record image_usage =
  iu_stack :: string
  iu_service :: string
  iu_replica :: "int option"
  iu_container :: string

record docker_image =
  im_id :: string
  im_tags :: "string list"
  im_size :: int
  im_created :: int

record managed_image =
  mi_host :: string
  mi_id :: string
  mi_tags :: "string list"
  mi_size :: int
  mi_created :: gotime
  mi_used_by :: "image_usage list"

definition usage_of :: "listed_container \<Rightarrow> image_usage" where
  "usage_of c =
     \<lparr>iu_stack = label (sm_labels c) containerLabelStackName,
      iu_service = label (sm_labels c) containerLabelServiceName,
      iu_replica = parseReplicaLabel (label (sm_labels c) containerLabelReplicaIndex),
      iu_container = sm_id c\<rparr>"

definition usage_key :: "image_usage \<Rightarrow> string \<times> string \<times> string" where
  "usage_key u = (iu_stack u, iu_service u, iu_container u)"

text \<open>The images of a host that its managed containers use, each with its users.\<close>

definition images_in_use :: "string \<Rightarrow> listed_container list \<Rightarrow> docker_image list \<Rightarrow> managed_image list" where
  "images_in_use host containers images =
     List.map (\<lambda>img. \<lparr>mi_host = host, mi_id = im_id img, mi_tags = im_tags img, mi_size = im_size img,
                      mi_created = unix_time (im_created img),
                      mi_used_by = sort_key usage_key
                        (List.map usage_of (filter (\<lambda>c. lc_image_id c = im_id img) containers))\<rparr>)
       (filter (\<lambda>img. im_id img \<in> lc_image_id ` set containers) images)"

definition firstTag :: "string list \<Rightarrow> string" where
  "firstTag tags = (case tags of [] \<Rightarrow> [] | t # _ \<Rightarrow> t)"

definition sort_images :: "managed_image list \<Rightarrow> managed_image list" where
  "sort_images out = sort_key (\<lambda>i. (mi_host i, firstTag (mi_tags i))) out"

record docker_volume =
  dv_name :: string
  dv_driver :: string
  dv_labels :: "(string \<times> string) list"
  dv_mountpoint :: string
  dv_created :: string
  dv_options :: "(string \<times> string) list"

record managed_volume =
  mv_host :: string
  mv_name :: string
  mv_driver :: string
  mv_stack :: string
  mv_mountpoint :: string
  mv_created :: string
  mv_labels :: "(string \<times> string) list"
  mv_options :: "(string \<times> string) list"

definition managed_volume_of :: "string \<Rightarrow> docker_volume \<Rightarrow> managed_volume" where
  "managed_volume_of host v =
     \<lparr>mv_host = host, mv_name = dv_name v, mv_driver = dv_driver v, mv_stack = label (dv_labels v) containerLabelStackName,
      mv_mountpoint = dv_mountpoint v, mv_created = dv_created v, mv_labels = dv_labels v, mv_options = dv_options v\<rparr>"

record docker_network =
  dn_id :: string
  dn_name :: string
  dn_driver :: string
  dn_scope :: string
  dn_created :: gotime
  dn_labels :: "(string \<times> string) list"
  dn_options :: "(string \<times> string) list"

record managed_network =
  mn_host :: string
  mn_id :: string
  mn_name :: string
  mn_driver :: string
  mn_scope :: string
  mn_stack :: string
  mn_created :: gotime
  mn_labels :: "(string \<times> string) list"
  mn_options :: "(string \<times> string) list"

definition managed_network_of :: "string \<Rightarrow> docker_network \<Rightarrow> managed_network" where
  "managed_network_of host n =
     \<lparr>mn_host = host, mn_id = dn_id n, mn_name = dn_name n, mn_driver = dn_driver n, mn_scope = dn_scope n,
      mn_stack = label (dn_labels n) containerLabelStackName, mn_created = dn_created n, mn_labels = dn_labels n,
      mn_options = dn_options n\<rparr>"

section \<open>What is shown and what is not\<close>

text \<open>Two environments that differ only in the values of keys that look like a secret's.\<close>

definition secret_entry :: "string \<Rightarrow> string \<Rightarrow> bool" where
  "secret_entry key entry \<longleftrightarrow> isSecretKey key \<and> CHR ''='' \<notin> set key \<and> has_prefix entry (key @ ''='')"

definition same_but_secrets :: "string list \<Rightarrow> string list \<Rightarrow> bool" where
  "same_but_secrets env env' \<longleftrightarrow>
     list_all2 (\<lambda>e e'. e = e' \<or> (\<exists>key. secret_entry key e \<and> secret_entry key e')) env env'"

lemma index_byte_at: "c \<notin> set a \<Longrightarrow> index_byte (a @ c # b) c = Some (length a)"
  by (induction a) auto

lemma redact_secret: "secret_entry key e \<Longrightarrow> redact_entry e = key @ ''=***''"
  by (auto simp: secret_entry_def redact_entry_def has_prefix_iff index_byte_at Let_def)

lemma redact_plain:
  "(\<And>key. \<not> secret_entry key e) \<Longrightarrow> redact_entry e = e"
proof (cases "index_byte e CHR ''=''")
  case (Some i)
  assume n: "\<And>key. \<not> secret_entry key e"
  have "\<exists>b. e = take i e @ CHR ''='' # b \<and> CHR ''='' \<notin> set (take i e)"
    using Some
  proof (induction e arbitrary: i)
    case (Cons x xs)
    then show ?case by (auto split: if_splits)
  qed simp
  then obtain b where b: "e = take i e @ CHR ''='' # b" "CHR ''='' \<notin> set (take i e)" by blast
  have "has_prefix e (take i e @ ''='')" using b(1) by (metis append.assoc append_Cons append_Nil has_prefix_iff)
  then have "\<not> isSecretKey (take i e)" using n[of "take i e"] b(2) by (simp add: secret_entry_def)
  then show ?thesis using Some by (simp add: redact_entry_def)
qed (simp add: redact_entry_def)

text \<open>The environment in a container's details shows no value whose key looks like a secret's, and changes nothing
  else: two environments that differ only in such values give the same answer, an entry with such a key becomes the key
  and three stars, and every other entry is shown as it is, in its place.\<close>

theorem redacted_env_hides:
  "(same_but_secrets env env' \<longrightarrow> redactEnv env = redactEnv env')
   \<and> list_all2 (\<lambda>e r. (\<forall>key. secret_entry key e \<longrightarrow> r = key @ ''=***'') \<and> ((\<forall>key. \<not> secret_entry key e) \<longrightarrow> r = e))
       env (redactEnv env)"
proof (intro conjI impI)
  assume "same_but_secrets env env'"
  then have "list_all2 (\<lambda>e e'. redact_entry e = redact_entry e') env env'"
    unfolding same_but_secrets_def by (rule list_all2_mono) (auto simp: redact_secret)
  then show "redactEnv env = redactEnv env'"
    by (simp add: redactEnv_def list_all2_conv_all_nth list_eq_iff_nth_eq)
next
  show "list_all2 (\<lambda>e r. (\<forall>key. secret_entry key e \<longrightarrow> r = key @ ''=***'') \<and> ((\<forall>key. \<not> secret_entry key e) \<longrightarrow> r = e))
       env (redactEnv env)"
    by (auto simp: redactEnv_def list_all2_conv_all_nth redact_secret redact_plain)
qed

theorem redacted_env_hides_witness:
  "redactEnv [''PATH=/bin'', ''DB_PASSWORD=one''] = redactEnv [''PATH=/bin'', ''DB_PASSWORD=two'']
   \<and> redactEnv [''PATH=/bin'', ''DB_PASSWORD=one''] = [''PATH=/bin'', ''DB_PASSWORD=***'']"
proof
  have "secret_entry ''DB_PASSWORD'' ''DB_PASSWORD=one'' \<and> secret_entry ''DB_PASSWORD'' ''DB_PASSWORD=two''" by code_simp
  then have "same_but_secrets [''PATH=/bin'', ''DB_PASSWORD=one''] [''PATH=/bin'', ''DB_PASSWORD=two'']"
    unfolding same_but_secrets_def by blast
  then show "redactEnv [''PATH=/bin'', ''DB_PASSWORD=one''] = redactEnv [''PATH=/bin'', ''DB_PASSWORD=two'']"
    using redacted_env_hides by blast
qed code_simp

text \<open>A stack's secret may have any name of capitals, digits and underscores, so one whose name has none of the needles is
  shown, though the models promise that its value leaves the process only through the deploy path.\<close>

lemma secret_shown_by_name: "redactEnv [''STRIPE_KEY=sk_live'', ''DB_PASS=hunter2''] = [''STRIPE_KEY=sk_live'', ''DB_PASS=hunter2'']"
  by code_simp

lemma word_rat_le: "word_rat a \<le> word_rat b \<longleftrightarrow> unat a \<le> unat b" and word_rat_less: "word_rat a < word_rat b \<longleftrightarrow> unat a < unat b"
  unfolding word_rat_def by (rule of_nat_le_iff, rule of_nat_less_iff)

lemma word_rat_nonneg [simp]: "0 \<le> word_rat w"
  unfolding word_rat_def by (rule of_nat_0_le_iff)

lemma without_cache_le: "without_cache m \<le> mem_usage m"
proof -
  have "a - b \<le> a" if "b < a" for a b :: "64 word" using that by (simp add: word_sub_le order_less_imp_le)
  then show ?thesis by (auto simp: without_cache_def split: option.split)
qed

text \<open>The statistics are sane for any counters Docker sends, wrapped and reset ones too: a CPU share is never negative
  and is zero when a counter went backwards or stood still, memory usage never exceeds what Docker reported, and its
  share is at most a hundred when the usage was within the limit.\<close>

theorem stats_sane:
  "0 \<le> computeCPUPercent s
   \<and> (unat (TotalUsage (sr_cpu s)) \<le> unat (TotalUsage (sr_precpu s)) \<longrightarrow> computeCPUPercent s = 0)
   \<and> mv_usage (computeMemoryStats m) \<le> mem_usage m
   \<and> 0 \<le> mv_percent (computeMemoryStats m)
   \<and> (mem_usage m \<le> mem_limit m \<longrightarrow> mv_percent (computeMemoryStats m) \<le> 100)"
proof -
  have "mv_percent (computeMemoryStats m) \<le> 100" if "mem_usage m \<le> mem_limit m"
  proof (cases "mem_limit m > 0")
    case True
    have "without_cache m \<le> mem_limit m" using that without_cache_le[of m] by simp
    then have "word_rat (without_cache m) \<le> word_rat (mem_limit m)" by (simp add: word_rat_le word_le_nat_alt)
    moreover have "0 < word_rat (mem_limit m)"
      using True word_rat_less[of "0 :: 64 word" "mem_limit m"] by (simp add: word_less_nat_alt word_rat_def del: of_nat_unat)
    ultimately have "word_rat (without_cache m) / word_rat (mem_limit m) \<le> 1" by (simp add: divide_le_eq)
    then have "word_rat (without_cache m) / word_rat (mem_limit m) * 100 \<le> 1 * 100" by (rule mult_right_mono) simp
    then show ?thesis using True by (simp add: computeMemoryStats_def Let_def)
  qed (simp add: computeMemoryStats_def)
  moreover have "0 \<le> computeCPUPercent s" by (auto simp: computeCPUPercent_def Let_def)
  moreover have "computeCPUPercent s = 0" if "unat (TotalUsage (sr_cpu s)) \<le> unat (TotalUsage (sr_precpu s))"
    using that by (simp add: computeCPUPercent_def word_rat_le)
  ultimately show ?thesis by (simp add: computeMemoryStats_def Let_def without_cache_le)
qed

definition demo_stats :: stats_response where
  "demo_stats = \<lparr>sr_id = ''c1'', sr_name = ''/web_0_1'', sr_read = 0,
     sr_cpu = \<lparr>TotalUsage = 100, PercpuUsage = [], SystemUsage = 900, OnlineCPUs = 2\<rparr>,
     sr_precpu = \<lparr>TotalUsage = 200, PercpuUsage = [], SystemUsage = 800, OnlineCPUs = 2\<rparr>,
     sr_memory = \<lparr>mem_usage = 50, mem_limit = 100, mem_stats = [(''cache'', 10)]\<rparr>,
     sr_networks = [], sr_blkio = [(''Read'', 5), (''write'', 7)], sr_pids = 3\<rparr>"

theorem stats_sane_witness:
  "computeCPUPercent demo_stats = 0 \<and> mv_percent (computeMemoryStats (sr_memory demo_stats)) \<le> 100"
  using stats_sane[of demo_stats "sr_memory demo_stats"] by (simp add: demo_stats_def)

end
