(* ===== verification/Api.thy ===== *)
theory Api
  imports Reconciler Projections
begin

text \<open>
  The frame of the HTTP handlers of internal/handler: JSON answers, the struct Handler, the lookups they share, and the
  JSON of the stored rows with the fields their tags leave out. A handler is a step of the world that gives its answer
  and the jobs it starts in the background; the body of a request is given as the decoder returns it. The delivery of
  an answer and the decoding of JSON are the standard library's.
\<close>

section \<open>Answers\<close>

datatype json =
    JNull | JBool bool | JInt int | JStr string | JTime gotime | JList "json list" | JObject "(string \<times> json) list"

datatype body =
    BJson json
  | BContainers "container_view list"
  | BContainer container_detail
  | BStats stats_sample
  | BImages "managed_image list"
  | BVolumes "managed_volume list"
  | BNetworks "managed_network list"
  | BFiles "file_entry list"
  | BRaw string nat \<comment> \<open>the bytes of a file, their name and number\<close>
  | BStream \<comment> \<open>a text or websocket stream\<close>
  | BEmpty

record response =
  rs_status :: nat
  rs_body :: body

definition writeJSON :: "json \<Rightarrow> nat \<Rightarrow> response" where
  "writeJSON data status = \<lparr>rs_status = status, rs_body = BJson data\<rparr>"

definition writeError :: "string \<Rightarrow> nat \<Rightarrow> response" where
  "writeError msg status = writeJSON (JObject [(''error'', JStr msg)]) status"

definition no_content :: response where
  "no_content = \<lparr>rs_status = 204, rs_body = BEmpty\<rparr>"

section \<open>The JSON of the rows\<close>

text \<open>A field with omitempty is left out when it is empty.\<close>

definition omit_str :: "string \<Rightarrow> string \<Rightarrow> (string \<times> json) list" where
  "omit_str k v = (if v = [] then [] else [(k, JStr v)])"

definition omit_time :: "string \<Rightarrow> gotime option \<Rightarrow> (string \<times> json) list" where
  "omit_time k v = (case v of None \<Rightarrow> [] | Some t \<Rightarrow> [(k, JTime t)])"

definition strings_json :: "(string \<times> string) list \<Rightarrow> json" where
  "strings_json m = JObject (List.map (\<lambda>(k, v). (k, JStr v)) m)"

definition stack_json :: "stack \<Rightarrow> json" where
  "stack_json st = JObject
     ([(''id'', JStr (st_id st)), (''name'', JStr (st_name st)), (''repo_url'', JStr (RepoURL st)),
       (''repo_username'', JStr (RepoUsername st))]
      @ omit_str ''repo_branch'' (RepoBranch st)
      @ [(''compose_path'', JStr (ComposePath st))]
      @ omit_str ''service_filter'' (ServiceFilter st)
      @ [(''auto_deploy'', JBool (AutoDeploy st)), (''reconcile_interval_seconds'', JInt (ReconcileInterval st)),
         (''status'', JStr (st_status st))]
      @ omit_str ''host_id'' (HostID st)
      @ [(''requires_approval'', JBool (RequiresApproval st))]
      @ omit_time ''last_deployed_at'' (LastDeployedAt st)
      @ omit_time ''last_reconciled_at'' (LastReconciledAt st)
      @ omit_str ''git_commit'' (GitCommit st)
      @ [(''created_at'', JTime (st_created st)), (''updated_at'', JTime (st_updated st))]
      @ omit_str ''docker_registry'' (DockerRegistry st))"

definition deployment_json :: "deployment \<Rightarrow> json" where
  "deployment_json p = JObject
     ([(''id'', JStr (dp_id p)), (''stack_id'', JStr (dp_stack p)), (''stack_name'', JStr (dp_stack_name p)),
       (''status'', JStr (dp_status p)), (''trigger'', JStr (dp_trigger p))]
      @ omit_str ''git_commit'' (dp_commit p)
      @ omit_str ''changes'' (dp_changes p)
      @ omit_str ''error_message'' (dp_error p)
      @ [(''started_at'', JTime (dp_started p))]
      @ omit_time ''completed_at'' (dp_completed p))"

definition audit_json :: "audit_entry \<Rightarrow> json" where
  "audit_json e = JObject
     ([(''id'', JStr (ae_id e)), (''timestamp'', JTime (ae_timestamp e)), (''actor'', JStr (ae_actor e))]
      @ omit_str ''remote_addr'' (ae_remote e)
      @ omit_str ''request_id'' (ae_request e)
      @ [(''operation'', JStr (ae_operation e))]
      @ omit_str ''resource_type'' (ae_resource_type e)
      @ omit_str ''resource_id'' (ae_resource e)
      @ omit_str ''stack_id'' (ae_stack e)
      @ omit_str ''stack_name'' (ae_stack_name e)
      @ [(''outcome'', JStr (ae_outcome e))]
      @ omit_str ''error_message'' (ae_error e)
      @ (if ae_metadata e = [] then [] else [(''metadata'', strings_json (ae_metadata e))]))"

definition drift_item_json :: "drift_item \<Rightarrow> json" where
  "drift_item_json d = JObject
     ([(''service_name'', JStr (di_service d)), (''type'', JStr (di_type d))]
      @ omit_str ''expected'' (di_expected d) @ omit_str ''actual'' (di_actual d) @ [(''message'', JStr (di_message d))])"

definition drift_report_json :: "drift_report \<Rightarrow> json" where
  "drift_report_json rep = JObject
     ([(''stack_id'', JStr (dr_stack rep)), (''stack_name'', JStr (dr_stack_name rep)), (''checked_at'', JTime (dr_checked rep)),
       (''has_drift'', JBool (HasDrift rep))]
      @ (if Drifts rep = [] then [] else [(''drifts'', JList (List.map drift_item_json (Drifts rep)))]))"

section \<open>The handler\<close>

text \<open>The Docker client of a host as the handlers use it. A listing is given the filters of its options, pairs of a
  kind and a value in the order the code adds them.\<close>

type_synonym docker_filters = "(string \<times> string) list"

record daemon =
  da_containers :: "log \<Rightarrow> docker_filters \<Rightarrow> listed_container list res"
  da_inspect :: "log \<Rightarrow> string \<Rightarrow> inspect_response res"
  da_logs :: "log \<Rightarrow> string \<Rightarrow> unit res"
  da_stats :: "log \<Rightarrow> string \<Rightarrow> stats_response res res" \<comment> \<open>the call, and the decoding of its body\<close>
  da_restart :: "log \<Rightarrow> string \<Rightarrow> int option \<Rightarrow> unit res"
  da_images :: "log \<Rightarrow> docker_image list res"
  da_volumes :: "log \<Rightarrow> docker_filters \<Rightarrow> docker_volume list res"
  da_networks :: "log \<Rightarrow> docker_filters \<Rightarrow> docker_network list res"
  da_exec_create :: "log \<Rightarrow> string \<Rightarrow> string list \<Rightarrow> string res"
  da_exec_attach :: "log \<Rightarrow> string \<Rightarrow> unit res"
  da_exec_inspect :: "log \<Rightarrow> string \<Rightarrow> int res"

record host_client =
  hc_id :: string
  hc_name :: string
  hc_docker :: daemon

type_synonym browser = "log \<Rightarrow> vol_docker" \<comment> \<open>a volume browser: Docker's answers to one operation\<close>

record handler =
  h_env :: outside
  h_deployer :: deployer \<comment> \<open>cmd/main.go always sets it\<close>
  h_reconciler :: "reconciler option"
  h_audit :: "recorder option"
  h_docker :: "daemon option"
  h_docker_for :: "(log \<Rightarrow> string \<Rightarrow> daemon res) option"
  h_docker_hosts :: "(log \<Rightarrow> host_client list res) option"
  h_browser :: "browser option"
  h_browser_for :: "(log \<Rightarrow> string \<Rightarrow> browser res) option"
  h_allow_writes :: bool
  h_encryption :: bool
  h_docker_ping :: "(log \<Rightarrow> unit res) option"
  h_store_ping :: "log \<Rightarrow> unit res"
  h_shutting_down :: bool
  h_probe :: "log \<Rightarrow> docker_host \<Rightarrow> unit res" \<comment> \<open>dockerhost.Ping\<close>
  h_duration :: "string \<Rightarrow> int res" \<comment> \<open>time.ParseDuration\<close>
  h_rfc3339 :: "string \<Rightarrow> gotime option"
  h_upgrade :: "log \<Rightarrow> unit res" \<comment> \<open>the websocket handshake\<close>
  h_exec_pipe :: "log \<Rightarrow> string \<Rightarrow> int" \<comment> \<open>what execPipe returns when a session ends\<close>

text \<open>A request: the variables of its route, its query, and where it came from.\<close>

record request =
  rq_vars :: "string \<Rightarrow> string"
  rq_query :: "(string \<times> string) list"
  rq_origin :: request_origin

text \<open>url.Values.Get: the first value of the key, or nothing.\<close>

definition Query :: "request \<Rightarrow> string \<Rightarrow> string" where
  "Query r k = label (rq_query r) k"

text \<open>What a handler starts in the background.\<close>

datatype job = DeployJob stack string | ApproveJob string

type_synonym answer = "response \<times> job list"

definition respond :: "response \<Rightarrow> answer act" where
  "respond r = State_Monad.return (r, [])"

definition respond_error :: "string \<Rightarrow> nat \<Rightarrow> answer act" where
  "respond_error msg status = respond (writeError msg status)"

definition run_job :: "handler \<Rightarrow> job \<Rightarrow> unit act" where
  "run_job H j = (case j of
     DeployJob st trigger \<Rightarrow> do { _ \<leftarrow> Deploy (h_deployer H) st trigger; State_Monad.return () }
   | ApproveJob deployID \<Rightarrow> do { _ \<leftarrow> ApproveDeployment (h_deployer H) deployID; State_Monad.return () })"

text \<open>A nil recorder is the one that discards.\<close>

definition record_entry :: "handler \<Rightarrow> audit_entry \<Rightarrow> unit act" where
  "record_entry H e = recordAudit (h_env H) (h_audit H) e"

definition h_store :: "handler \<Rightarrow> string \<Rightarrow> (db \<Rightarrow> 'a res) \<Rightarrow> 'a res act" where
  "h_store H op f = store_call (h_env H) op (reading f)"

definition h_write :: "handler \<Rightarrow> string \<Rightarrow> (db \<Rightarrow> gerr option \<times> db) \<Rightarrow> unit res act" where
  "h_write H op f = store_call (h_env H) op (writing f)"

definition h_nonce :: "handler \<Rightarrow> string option act" where
  "h_nonce H = emit (o_nonce (h_env H)) ENonce"

text \<open>The entry of an action on a stack.\<close>

definition stack_audit :: "request \<Rightarrow> string \<Rightarrow> string \<Rightarrow> string \<Rightarrow> stack \<Rightarrow> audit_entry" where
  "stack_audit r op ty res st = (FromRequest (rq_origin r) op)
     \<lparr>ae_resource_type := ty, ae_resource := res, ae_stack := st_id st, ae_stack_name := st_name st\<rparr>"

section \<open>Lookups\<close>

text \<open>A stack by name, an error counting as a miss.\<close>

definition stack_by_name :: "handler \<Rightarrow> string \<Rightarrow> stack option act" where
  "stack_by_name H name = do {
     r \<leftarrow> h_store H ''GetStackByName'' (GetStackByName name);
     State_Monad.return (case r of Inr s \<Rightarrow> s | Inl _ \<Rightarrow> None) }"

text \<open>The two lookups of a stack by id or name: one answers an error of the first query with 500, the other takes it for
  a miss.\<close>

definition resolveStack_handler :: "handler \<Rightarrow> request \<Rightarrow> (response + stack) act" where
  "resolveStack_handler H r = do {
     g \<leftarrow> h_store H ''GetStack'' (GetStack (rq_vars r ''id''));
     case g of
       Inl _ \<Rightarrow> State_Monad.return (Inl (writeError ''failed to get stack'' 500))
     | Inr (Some st) \<Rightarrow> State_Monad.return (Inr st)
     | Inr None \<Rightarrow> do {
         s \<leftarrow> stack_by_name H (rq_vars r ''id'');
         State_Monad.return (case s of None \<Rightarrow> Inl (writeError ''stack not found'' 404) | Some st \<Rightarrow> Inr st) } }"

definition lookup_stack :: "handler \<Rightarrow> request \<Rightarrow> (response + stack) act" where
  "lookup_stack H r = do {
     g \<leftarrow> h_store H ''GetStack'' (GetStack (rq_vars r ''id''));
     case g of
       Inr (Some st) \<Rightarrow> State_Monad.return (Inr st)
     | _ \<Rightarrow> do {
         s \<leftarrow> stack_by_name H (rq_vars r ''id'');
         State_Monad.return (case s of None \<Rightarrow> Inl (writeError ''stack not found'' 404) | Some st \<Rightarrow> Inr st) } }"

text \<open>A step that answers, or goes on with what it found.\<close>

definition or_answer :: "(response + 'a) act \<Rightarrow> ('a \<Rightarrow> answer act) \<Rightarrow> answer act" where
  "or_answer m f = do { r \<leftarrow> m; case r of Inl resp \<Rightarrow> respond resp | Inr x \<Rightarrow> f x }"

text \<open>A step whose error is one answer.\<close>

definition or_error :: "string \<Rightarrow> nat \<Rightarrow> 'a res act \<Rightarrow> ('a \<Rightarrow> answer act) \<Rightarrow> answer act" where
  "or_error msg status m f = do { r \<leftarrow> m; case r of Inl _ \<Rightarrow> respond_error msg status | Inr x \<Rightarrow> f x }"

definition docker_host_by :: "handler \<Rightarrow> string \<Rightarrow> docker_host option act" where
  "docker_host_by H token = do {
     g \<leftarrow> h_store H ''GetDockerHost'' (GetDockerHost token);
     case g of
       Inr (Some h) \<Rightarrow> State_Monad.return (Some h)
     | _ \<Rightarrow> do {
         n \<leftarrow> h_store H ''GetDockerHostByName'' (GetDockerHostByName token);
         State_Monad.return (case n of Inr h \<Rightarrow> h | Inl _ \<Rightarrow> None) } }"

definition resolveHostID :: "handler \<Rightarrow> string \<Rightarrow> (response + string) act" where
  "resolveHostID H token0 =
     (let token = trim_space token0 in
      if token = [] then State_Monad.return (Inr [])
      else do {
        h \<leftarrow> docker_host_by H token;
        State_Monad.return (case h of
            Some host \<Rightarrow> Inr (dh_id host)
          | None \<Rightarrow> Inl (writeError (''unknown host: '' @ token) 400)) })"

section \<open>What an answer shows of a stack\<close>

text \<open>The JSON of a stack is the same whatever its credentials and its secrets' hash are.\<close>

lemma stack_json_hides:
  "stack_json (st\<lparr>RepoToken := a, DockerUsername := b, DockerPassword := c, SecretsHash := d\<rparr>) = stack_json st"
  by (simp add: stack_json_def)

end
