(* ===== verification/Backups.thy ===== *)
theory Backups
  imports Config Api "HOL-Library.AList"
begin

text \<open>
  Backups and restores: internal/backup (backup.go, encrypt.go, decrypt.go), ValidateBackupFile of
  internal/store/sqlite.go, the handlers AdminBackup and AdminRestore with decryptToFile and stageFile of
  internal/handler/handler.go, and applyPendingRestore and backupLoop of cmd/main.go. Files are a list of paths with
  their contents; a call of the operating system may fail, by an argument of the operation and the path. The age
  library, SQLite's own checks, the snapshot that VACUUM INTO writes and the upload to S3 are arguments. Permissions and
  partial reads are not modelled; a write that fails leaves an empty file.
\<close>

section \<open>Files\<close>

type_synonym files = "(string \<times> string) list"

record backup_env =
  be_fault :: "string \<Rightarrow> string \<Rightarrow> gerr option" \<comment> \<open>of an operation on a path\<close>
  be_encrypt :: "string \<Rightarrow> string \<Rightarrow> string res" \<comment> \<open>age with a passphrase\<close>
  be_decrypt :: "string \<Rightarrow> string \<Rightarrow> string res"
  be_integrity :: "string \<Rightarrow> string res" \<comment> \<open>PRAGMA integrity_check on a file of these bytes\<close>
  be_stacks :: "string \<Rightarrow> gerr option" \<comment> \<open>looking up its table stacks\<close>
  be_snapshot :: "string res" \<comment> \<open>VACUUM INTO\<close>
  be_tmp :: string \<comment> \<open>the directory that MkdirTemp makes\<close>
  be_glob :: "string \<Rightarrow> string list" \<comment> \<open>filepath.Glob of a directory with wildcards\<close>

definition file_at :: "files \<Rightarrow> string \<Rightarrow> string option" where "file_at fs p = map_of fs p"
definition put_file :: "string \<Rightarrow> string \<Rightarrow> files \<Rightarrow> files" where "put_file p c fs = AList.update p c fs"
definition drop_file :: "string \<Rightarrow> files \<Rightarrow> files" where "drop_file p fs = AList.delete p fs"

definition os_open :: "backup_env \<Rightarrow> string \<Rightarrow> files \<Rightarrow> string res" where
  "os_open E p fs = (case be_fault E ''open'' p of Some e \<Rightarrow> Inl e
     | None \<Rightarrow> (case file_at fs p of None \<Rightarrow> Inl ErrNotExist | Some c \<Rightarrow> Inr c))"

definition os_remove :: "backup_env \<Rightarrow> string \<Rightarrow> files \<Rightarrow> gerr option \<times> files" where
  "os_remove E p fs = (case be_fault E ''remove'' p of Some e \<Rightarrow> (Some e, fs)
     | None \<Rightarrow> (case file_at fs p of None \<Rightarrow> (Some ErrNotExist, fs) | Some c \<Rightarrow> (None, drop_file p fs)))"

definition os_rename :: "backup_env \<Rightarrow> string \<Rightarrow> string \<Rightarrow> files \<Rightarrow> gerr option \<times> files" where
  "os_rename E p q fs = (case be_fault E ''rename'' p of Some e \<Rightarrow> (Some e, fs)
     | None \<Rightarrow> (case file_at fs p of None \<Rightarrow> (Some ErrNotExist, fs) | Some c \<Rightarrow> (None, put_file q c (drop_file p fs))))"

text \<open>os.Stat succeeds.\<close>

definition os_exists :: "backup_env \<Rightarrow> string \<Rightarrow> files \<Rightarrow> bool" where
  "os_exists E p fs \<longleftrightarrow> be_fault E ''stat'' p = None \<and> file_at fs p \<noteq> None"

section \<open>The encryptor\<close>

text \<open>NewEncryptor: an empty passphrase is the pass-through.\<close>

definition enc_Enabled :: "string \<Rightarrow> bool" where "enc_Enabled pass \<longleftrightarrow> pass \<noteq> []"
definition enc_Ext :: "string \<Rightarrow> string" where "enc_Ext pass = (if pass = [] then [] else ''.age'')"

definition enc_Encrypt :: "backup_env \<Rightarrow> string \<Rightarrow> string \<Rightarrow> string res" where
  "enc_Encrypt E pass data = (if pass = [] then Inr data else be_encrypt E pass data)"

definition ageMagic :: string where "ageMagic = ''age-encryption.org/v1''"

definition IsAgeEncrypted :: "string \<Rightarrow> bool" where "IsAgeEncrypted b \<longleftrightarrow> has_prefix b ageMagic"

definition EncryptFile :: "backup_env \<Rightarrow> string \<Rightarrow> string \<Rightarrow> string \<Rightarrow> files \<Rightarrow> gerr option \<times> files" where
  "EncryptFile E src dst pass fs =
     (case os_open E src fs of
        Inl e \<Rightarrow> (Some (ErrWrap ''open snapshot: '' e), fs)
      | Inr data \<Rightarrow>
        (case be_fault E ''create'' dst of
           Some e \<Rightarrow> (Some (ErrWrap (''create '' @ quoted dst @ '': '') e), fs)
         | None \<Rightarrow>
           (case enc_Encrypt E pass data of
              Inl e \<Rightarrow> (Some e, snd (os_remove E dst (put_file dst [] fs)))
            | Inr out \<Rightarrow> (be_fault E ''close'' dst, put_file dst out fs))))"

section \<open>Snapshots and their retention\<close>

definition filePrefix :: string where "filePrefix = ''accelero-backup-''"
definition fileSuffix :: string where "fileSuffix = ''.db''"

text \<open>The pattern filePrefix, anything, fileSuffix, anything.\<close>

definition is_snapshot_name :: "string \<Rightarrow> bool" where
  "is_snapshot_name n \<longleftrightarrow> has_prefix n filePrefix \<and> contains_str (drop (length filePrefix) n) fileSuffix"

definition in_dir :: "string \<Rightarrow> string \<Rightarrow> bool" where
  "in_dir d p \<longleftrightarrow> p = Join d (base_name p)"

definition has_meta :: "string \<Rightarrow> bool" where
  "has_meta p \<longleftrightarrow> list_ex (\<lambda>c. c \<in> {CHR ''*'', CHR ''?'', CHR ''['', CHR 0x5C}) p"

definition Glob_snapshots :: "backup_env \<Rightarrow> string \<Rightarrow> files \<Rightarrow> string list" where
  "Glob_snapshots E dir fs =
     concat (List.map (\<lambda>d. filter (\<lambda>p. in_dir d p \<and> is_snapshot_name (base_name p)) (List.map fst fs))
       (if has_meta dir then be_glob E dir else [dir]))"

fun remove_files :: "backup_env \<Rightarrow> string list \<Rightarrow> nat \<Rightarrow> files \<Rightarrow> nat \<times> files" where
  "remove_files E [] n fs = (n, fs)"
| "remove_files E (p # ps) n fs =
     (case os_remove E p fs of (None, fs') \<Rightarrow> remove_files E ps (n + 1) fs' | (Some e, fs') \<Rightarrow> remove_files E ps n fs')"

definition Prune :: "backup_env \<Rightarrow> string \<Rightarrow> int \<Rightarrow> files \<Rightarrow> nat \<times> files" where
  "Prune E dir keep fs =
     (if keep \<le> 0 then (0, fs)
      else let matches = Glob_snapshots E dir fs
           in if int (length matches) \<le> keep then (0, fs)
              else remove_files E (take (length matches - nat keep) (sort matches)) 0 fs)"

text \<open>Time.UTC().Format(20060102T150405Z): the calendar date of a day since 1970, and the fixed-width text.\<close>

definition civil :: "int \<Rightarrow> int \<times> int \<times> int" where
  "civil days =
     (let z = days + 719468; era = z div 146097; doe = z mod 146097;
          yoe = (doe - doe div 1460 + doe div 36524 - doe div 146096) div 365;
          doy = doe - (365 * yoe + yoe div 4 - yoe div 100); mp = (5 * doy + 2) div 153;
          d = doy - (153 * mp + 2) div 5 + 1; m = (if mp < 10 then mp + 3 else mp - 9);
          y = yoe + era * 400
      in ((if m \<le> 2 then y + 1 else y), m, d))"

definition padded :: "nat \<Rightarrow> int \<Rightarrow> string" where
  "padded n v = (let s = dec_nat (nat v) in replicate (n - length s) (CHR ''0'') @ s)"

definition utc_stamp :: "gotime \<Rightarrow> string" where
  "utc_stamp t =
     (let secs = t div 1000000000; s = secs mod 86400
      in case civil (secs div 86400) of (y, m, d) \<Rightarrow>
         padded 4 y @ padded 2 m @ padded 2 d @ ''T'' @ padded 2 (s div 3600) @ padded 2 (s mod 3600 div 60) @ padded 2 (s mod 60) @ ''Z'')"

definition snapshot_path :: "string \<Rightarrow> gotime \<Rightarrow> string \<Rightarrow> string" where
  "snapshot_path dir t pass = Join dir (filePrefix @ utc_stamp t @ fileSuffix @ enc_Ext pass)"

definition RunOnce :: "backup_env \<Rightarrow> string \<Rightarrow> int \<Rightarrow> gotime \<Rightarrow> string \<Rightarrow> files \<Rightarrow> string res \<times> files" where
  "RunOnce E dir keep t pass fs =
     (case be_fault E ''mkdir'' dir of
        Some e \<Rightarrow> (Inl (ErrWrap (''create backup dir '' @ quoted dir @ '': '') e), fs)
      | None \<Rightarrow>
        (case be_fault E ''mkdirtemp'' (be_tmp E) of
           Some e \<Rightarrow> (Inl (ErrWrap ''create staging dir: '' e), fs)
         | None \<Rightarrow>
           (case be_snapshot E of
              Inl e \<Rightarrow> (Inl e, fs)
            | Inr data \<Rightarrow>
              let raw = Join (be_tmp E) ''snapshot.db''; dest = snapshot_path dir t pass
              in (case EncryptFile E raw dest pass (put_file raw data fs) of
                    (Some e, fs1) \<Rightarrow> (Inl e, drop_file raw fs1)
                  | (None, fs1) \<Rightarrow> (Inr dest, drop_file raw (snd (Prune E dir keep fs1)))))))"

text \<open>cmd/main.go, one run of backupLoop: the upload is tried only for a snapshot that was written, and its failure is only
  logged. The answer is the path written and the object key uploaded.\<close>

record s3_config =
  s3_Endpoint :: string
  s3_Region :: string
  s3_Bucket :: string
  s3_Prefix :: string

definition s3_Enabled :: "s3_config \<Rightarrow> bool" where "s3_Enabled c \<longleftrightarrow> s3_Bucket c \<noteq> []"

definition s3_region :: "s3_config \<Rightarrow> string" where
  "s3_region c = (if s3_Region c = [] then ''us-east-1'' else s3_Region c)"

definition s3_endpoint :: "s3_config \<Rightarrow> string" where
  "s3_endpoint c = (if s3_Endpoint c = [] then ''s3.'' @ s3_region c @ ''.amazonaws.com'' else s3_Endpoint c)"

text \<open>The argument is minio: the endpoint, the region, the bucket, the key and the bytes.\<close>

definition UploadFile :: "(string \<Rightarrow> string \<Rightarrow> string \<Rightarrow> string \<Rightarrow> string \<Rightarrow> gerr option) \<Rightarrow> backup_env \<Rightarrow> s3_config \<Rightarrow> string \<Rightarrow> string
    \<Rightarrow> files \<Rightarrow> string res" where
  "UploadFile put E c localPath objectName fs =
     (case os_open E localPath fs of
        Inl e \<Rightarrow> Inl e
      | Inr data \<Rightarrow>
        let key = s3_Prefix c @ objectName
        in (case put (s3_endpoint c) (s3_region c) (s3_Bucket c) key data of
              Some e \<Rightarrow> Inl (ErrWrap (''s3 put '' @ quoted key @ '' to bucket '' @ quoted (s3_Bucket c) @ '': '') e)
            | None \<Rightarrow> Inr key))"

definition s3_of :: "config \<Rightarrow> s3_config" where
  "s3_of c = \<lparr>s3_Endpoint = cfg_BackupS3Endpoint c, s3_Region = cfg_BackupS3Region c, s3_Bucket = cfg_BackupS3Bucket c,
     s3_Prefix = cfg_BackupS3Prefix c\<rparr>"

definition run_backup :: "(string \<Rightarrow> string \<Rightarrow> string \<Rightarrow> string \<Rightarrow> string \<Rightarrow> gerr option) \<Rightarrow> backup_env \<Rightarrow> config \<Rightarrow> gotime \<Rightarrow> files
    \<Rightarrow> (string \<times> string option) option \<times> files" where
  "run_backup put E c t fs =
     (case RunOnce E (cfg_BackupDir c) (cfg_BackupKeep c) t (cfg_BackupEncryptionPassphrase c) fs of
        (Inl e, fs') \<Rightarrow> (None, fs')
      | (Inr path, fs') \<Rightarrow>
          (Some (path, if s3_Enabled (s3_of c)
             then (case UploadFile put E (s3_of c) path (base_name path) fs' of Inl e \<Rightarrow> None | Inr key \<Rightarrow> Some key) else None), fs'))"

section \<open>The handlers\<close>

definition AuditOpAdminBackup :: string where "AuditOpAdminBackup = ''admin.backup''"
definition AuditOpAdminRestore :: string where "AuditOpAdminRestore = ''admin.restore''"

definition backup_entry :: "request \<Rightarrow> string \<Rightarrow> nat \<Rightarrow> string \<Rightarrow> audit_entry" where
  "backup_entry r oc sz errMsg =
     (FromRequest (rq_origin r) AuditOpAdminBackup)\<lparr>ae_resource_type := ''admin'', ae_outcome := oc,
        ae_metadata := [(''bytes'', dec_nat sz)] @ (if errMsg \<noteq> [] then [(''error'', errMsg)] else [])\<rparr>"

text \<open>What AdminBackup serves: the bytes and the suffix, or the message of the answer and the one of the audit.\<close>

definition backup_bytes :: "backup_env \<Rightarrow> string \<Rightarrow> (string \<times> string) + (string \<times> string)" where
  "backup_bytes E pass =
     (let dbPath = Join (be_tmp E) ''accelero.db''; encPath = dbPath @ enc_Ext pass in
      case be_fault E ''mkdirtemp'' (be_tmp E) of
        Some e \<Rightarrow> Inl (''failed to prepare backup'', ''mkdir temp: '' @ err_msg e)
      | None \<Rightarrow>
        (case be_snapshot E of
           Inl e \<Rightarrow> Inl (''failed to create backup'', err_msg e)
         | Inr data \<Rightarrow>
           (case (if enc_Enabled pass then EncryptFile E dbPath encPath pass [(dbPath, data)] else (None, [(dbPath, data)])) of
              (Some e, fs) \<Rightarrow> Inl (''failed to encrypt backup'', ''encrypt: '' @ err_msg e)
            | (None, fs) \<Rightarrow>
              (case os_open E (if enc_Enabled pass then encPath else dbPath) fs of
                 Inl e \<Rightarrow> Inl (''failed to read backup'', ''open backup: '' @ err_msg e)
               | Inr bytes \<Rightarrow> Inr (bytes, enc_Ext pass)))))"

definition AdminBackup_handler :: "handler \<Rightarrow> backup_env \<Rightarrow> string \<Rightarrow> request \<Rightarrow> answer act" where
  "AdminBackup_handler H E pass r =
     (case backup_bytes E pass of
        Inl (msg, detail) \<Rightarrow> do {
          _ \<leftarrow> record_entry H (backup_entry r AuditOutcomeFailure 0 detail);
          respond_error msg 500 }
      | Inr (bytes, ext) \<Rightarrow> do {
          t \<leftarrow> now (h_env H);
          let sz = (case be_fault E ''stat'' (be_tmp E) of Some _ \<Rightarrow> 0 | None \<Rightarrow> length bytes);
              sent = be_fault E ''stream'' (be_tmp E) in do {
          _ \<leftarrow> record_entry H (case sent of
                  Some e \<Rightarrow> backup_entry r AuditOutcomeFailure sz (''stream: '' @ err_msg e)
                | None \<Rightarrow> backup_entry r AuditOutcomeSuccess sz []);
          respond \<lparr>rs_status = 200, rs_body = BRaw (filePrefix @ utc_stamp t @ fileSuffix @ ext) (length bytes)\<rparr> } })"

definition maxRestoreUpload :: nat where "maxRestoreUpload = 4 * 1024 * 1024 * 1024"

definition sqlite_magic :: string where "sqlite_magic = ''SQLite format 3'' @ [CHR 0x00]"

text \<open>ValidateBackupFile of a file, with the bytes it has: it is opened twice, to read the magic, where a short or failed
  read is a bad magic, and by SQLite.\<close>

definition ValidateBackupFile :: "backup_env \<Rightarrow> string \<Rightarrow> string \<Rightarrow> gerr option" where
  "ValidateBackupFile E path data =
     (case be_fault E ''open'' path of
        Some e \<Rightarrow> Some (ErrWrap ''open backup: '' e)
      | None \<Rightarrow>
        if be_fault E ''read'' path \<noteq> None \<or> length data < 16 \<or> take 16 data \<noteq> sqlite_magic
        then Some (ErrText ''not a SQLite database (bad magic header)'')
        else case be_fault E ''sqlopen'' path of
          Some e \<Rightarrow> Some (ErrWrap ''open backup db: '' e)
        | None \<Rightarrow> (case be_integrity E data of
            Inl e \<Rightarrow> Some (ErrWrap ''integrity check could not run: '' e)
          | Inr res \<Rightarrow>
            if res \<noteq> ''ok'' then Some (ErrText (''integrity check failed: '' @ res))
            else case be_stacks E data of
              Some e \<Rightarrow> Some (ErrWrap (''not an Accelero backup (missing '' @ [CHR 0x27] @ ''stacks'' @ [CHR 0x27] @ '' table): '') e)
            | None \<Rightarrow> None))"

definition decryptToFile :: "backup_env \<Rightarrow> string \<Rightarrow> string \<Rightarrow> string \<Rightarrow> string \<Rightarrow> string res" where
  "decryptToFile E src dst pass data =
     (case be_fault E ''open'' src of
        Some e \<Rightarrow> Inl e
      | None \<Rightarrow> (case be_fault E ''create'' dst of
          Some e \<Rightarrow> Inl e
        | None \<Rightarrow> (case be_decrypt E pass data of
            Inl e \<Rightarrow> Inl e
          | Inr out \<Rightarrow> (case be_fault E ''close'' dst of Some e \<Rightarrow> Inl e | None \<Rightarrow> Inr out))))"

definition stageFile :: "backup_env \<Rightarrow> string \<Rightarrow> string \<Rightarrow> string \<Rightarrow> files \<Rightarrow> gerr option \<times> files" where
  "stageFile E src data dst fs =
     (let partial = dst @ ''.partial'' in
      case be_fault E ''open'' src of
        Some e \<Rightarrow> (Some e, fs)
      | None \<Rightarrow> (case be_fault E ''create'' partial of
          Some e \<Rightarrow> (Some e, fs)
        | None \<Rightarrow> (case be_fault E ''write'' partial of
            Some e \<Rightarrow> (Some e, snd (os_remove E partial (put_file partial [] fs)))
          | None \<Rightarrow> (case be_fault E ''close'' partial of
              Some e \<Rightarrow> (Some e, snd (os_remove E partial (put_file partial data fs)))
            | None \<Rightarrow> os_rename E partial dst (put_file partial data fs)))))"

text \<open>A step of AdminRestore that fails: the message and status of the answer, and the detail of the audit.\<close>

type_synonym refusal = "string \<times> nat \<times> string"

definition restore_passphrase :: "config \<Rightarrow> string \<Rightarrow> string" where
  "restore_passphrase c header = (if header = [] then cfg_BackupEncryptionPassphrase c else header)"

text \<open>The candidate: the upload, decrypted when it is an age stream, and the path it has. An error of reading the upload
  back is dropped, and then it is taken for a plain one.\<close>

definition restore_candidate :: "backup_env \<Rightarrow> config \<Rightarrow> string \<Rightarrow> string \<Rightarrow> refusal + (string \<times> string)" where
  "restore_candidate E c header data =
     (let uploaded = Join (be_tmp E) ''upload''; decPath = Join (be_tmp E) ''decrypted.db'';
          head = (if be_fault E ''readfile'' uploaded = None then data else []) in
      if IsAgeEncrypted (if length head > 32 then take 32 head else head) then
        (let pass = restore_passphrase c header in
         if pass = [] then Inl (''backup is age-encrypted; provide a passphrase via X-Backup-Passphrase or set BACKUP_ENCRYPTION_PASSPHRASE'',
              400, ''no passphrase'')
         else case decryptToFile E uploaded decPath pass data of
           Inl e \<Rightarrow> Inl (''decryption failed (wrong passphrase or not an age file)'', 400, ''decrypt: '' @ err_msg e)
         | Inr out \<Rightarrow> Inr (decPath, out))
      else Inr (uploaded, data))"

definition restore_upload :: "backup_env \<Rightarrow> config \<Rightarrow> string res \<Rightarrow> refusal + string" where
  "restore_upload E c body =
     (let uploaded = Join (be_tmp E) ''upload'' in
      if \<not> cfg_AllowRestore c then Inl (''restore is disabled (set ALLOW_RESTORE=true to enable)'', 403, ''disabled'')
      else if cfg_DatabasePath c = [] then Inl (''restore unavailable: database path not configured'', 500, ''no db path'')
      else case be_fault E ''mkdirtemp'' (be_tmp E) of
        Some e \<Rightarrow> Inl (''failed to prepare restore'', 500, ''mkdir: '' @ err_msg e)
      | None \<Rightarrow> (case be_fault E ''create'' uploaded of
          Some e \<Rightarrow> Inl (''failed to prepare restore'', 500, ''create tmp: '' @ err_msg e)
        | None \<Rightarrow> (case body of
            Inl e \<Rightarrow> Inl (''failed to read upload'', 400, ''read: '' @ err_msg e)
          | Inr bytes \<Rightarrow>
              if take maxRestoreUpload bytes = []
              then Inl (''empty upload '' @ em_dash @ '' send the backup file as the request body'', 400, ''empty upload'')
              else Inr (take maxRestoreUpload bytes))))"

definition restore_files :: "backup_env \<Rightarrow> config \<Rightarrow> string \<Rightarrow> string res \<Rightarrow> files \<Rightarrow> refusal option \<times> files" where
  "restore_files E c header body fs =
     (case restore_upload E c body of
        Inl x \<Rightarrow> (Some x, fs)
      | Inr data \<Rightarrow>
        (case restore_candidate E c header data of
           Inl x \<Rightarrow> (Some x, fs)
         | Inr (path, candidate) \<Rightarrow>
           (case ValidateBackupFile E path candidate of
              Some e \<Rightarrow> (Some (''invalid backup: '' @ err_msg e, 400, ''validate: '' @ err_msg e), fs)
            | None \<Rightarrow>
              (case stageFile E path candidate (cfg_DatabasePath c @ ''.restore'') fs of
                 (Some e, fs') \<Rightarrow> (Some (''failed to stage restore'', 500, ''stage: '' @ err_msg e), fs')
               | (None, fs') \<Rightarrow> (None, fs')))))"

definition restore_entry_of :: "request \<Rightarrow> string \<Rightarrow> string \<Rightarrow> audit_entry" where
  "restore_entry_of r oc detail =
     (FromRequest (rq_origin r) AuditOpAdminRestore)\<lparr>ae_resource_type := ''admin'', ae_outcome := oc,
        ae_metadata := [(''detail'', detail)]\<rparr>"

definition AdminRestore_handler :: "handler \<Rightarrow> backup_env \<Rightarrow> config \<Rightarrow> string \<Rightarrow> string res \<Rightarrow> files \<Rightarrow> request \<Rightarrow> (answer \<times> files) act" where
  "AdminRestore_handler H E c header body fs r =
     (case restore_files E c header body fs of
        (Some (msg, status, detail), fs') \<Rightarrow> do {
          _ \<leftarrow> record_entry H (restore_entry_of r AuditOutcomeFailure detail);
          a \<leftarrow> respond_error msg status;
          State_Monad.return (a, fs') }
      | (None, fs') \<Rightarrow> do {
          _ \<leftarrow> record_entry H (restore_entry_of r AuditOutcomeSuccess ''staged'');
          a \<leftarrow> respond (writeJSON (JObject [(''status'', JStr ''staged''), (''message'', JStr (''Backup validated and staged. ''
                @ ''Restart Accelero to apply it; the current database will be preserved as <db>.pre-restore-<timestamp>.''))]) 202);
          State_Monad.return (a, fs') })"

section \<open>At the next start\<close>

text \<open>The error is one that ends the process.\<close>

definition applyPendingRestore :: "backup_env \<Rightarrow> gotime \<Rightarrow> string \<Rightarrow> files \<Rightarrow> gerr option \<times> files" where
  "applyPendingRestore E t dbPath fs =
     (let staged = dbPath @ ''.restore''; bak = dbPath @ ''.pre-restore-'' @ utc_stamp t in
      if \<not> os_exists E staged fs then (None, fs)
      else case (if os_exists E dbPath fs then os_rename E dbPath bak fs else (None, fs)) of
        (Some e, fs1) \<Rightarrow> (Some (ErrWrap ''restore: could not move current DB aside: '' e), fs1)
      | (None, fs1) \<Rightarrow>
        let fs2 = snd (os_remove E (dbPath @ ''-shm'') (snd (os_remove E (dbPath @ ''-wal'') fs1)))
        in (case os_rename E staged dbPath fs2 of
              (Some e, fs3) \<Rightarrow> (Some (ErrWrap ''restore: could not move staged snapshot into place: '' e), fs3)
            | (None, fs3) \<Rightarrow> (None, fs3)))"

section \<open>The files\<close>

lemma file_put: "file_at (put_file p c fs) q = (if q = p then Some c else file_at fs q)"
  by (simp add: file_at_def put_file_def update_conv')

lemma file_drop: "file_at (drop_file p fs) q = (if q = p then None else file_at fs q)"
  by (simp add: file_at_def drop_file_def delete_conv')

lemma file_remove: "file_at (snd (os_remove E p fs)) q = (if q = p \<and> be_fault E ''remove'' p = None then None else file_at fs q)"
  by (auto simp: os_remove_def file_drop split: option.split)

lemma file_rename_Some: "os_rename E p q fs = (Some e, fs') \<Longrightarrow> fs' = fs"
  by (auto simp: os_rename_def split: option.splits)

lemma file_rename: "os_rename E p q fs = (None, fs') \<Longrightarrow> p \<noteq> q \<Longrightarrow>
    file_at fs' x = (if x = q then file_at fs p else if x = p then None else file_at fs x) \<and> file_at fs p \<noteq> None"
  by (auto simp: os_rename_def file_put file_drop split: option.splits)

section \<open>Retention\<close>

lemma remove_files_at:
  "file_at (snd (remove_files E ps n fs)) q = (if q \<in> set ps \<and> be_fault E ''remove'' q = None then None else file_at fs q)"
proof (induction ps arbitrary: n fs)
  case (Cons p ps)
  obtain e fs' where r: "os_remove E p fs = (e, fs')" by fastforce
  have "file_at fs' q = (if q = p \<and> be_fault E ''remove'' p = None then None else file_at fs q)"
    using file_remove[of E p fs q] r by simp
  then show ?case using Cons[of _ fs'] r by (auto split: option.split)
qed simp

lemma greater_in_sorted:
  fixes xs :: "'a::linorder list"
  assumes "sorted xs" "distinct xs" "i < length xs"
  shows "card {q \<in> set xs. xs ! i < q} = length xs - Suc i"
proof -
  have "{q \<in> set xs. xs ! i < q} = set (drop (Suc i) xs)"
  proof (intro equalityI subsetI)
    fix q assume "q \<in> {q \<in> set xs. xs ! i < q}"
    then obtain j where j: "j < length xs" "q = xs ! j" "xs ! i < xs ! j" by (auto simp: in_set_conv_nth)
    then have "Suc i \<le> j" using assms(1) by (meson leD not_less_eq_eq sorted_nth_mono assms(3))
    then show "q \<in> set (drop (Suc i) xs)" using j by (auto simp: in_set_conv_nth intro!: exI[of _ "j - Suc i"])
  next
    fix q assume "q \<in> set (drop (Suc i) xs)"
    then obtain j where j: "j < length xs - Suc i" "q = xs ! (Suc i + j)" by (auto simp: in_set_conv_nth)
    then have "xs ! i \<le> q" "xs ! i \<noteq> q"
      using assms sorted_nth_mono[OF assms(1), of i "Suc i + j"] by (auto simp: nth_eq_iff_index_eq)
    then show "q \<in> {q \<in> set xs. xs ! i < q}" using j by auto
  qed
  then show ?thesis using assms(2) by (simp add: distinct_card)
qed

lemma oldest_iff:
  fixes xs :: "'a::linorder list"
  assumes "distinct xs" "p \<in> set xs" "k \<le> length xs"
  shows "p \<in> set (take (length xs - k) (sort xs)) \<longleftrightarrow> k \<le> card {q \<in> set xs. p < q}"
proof -
  obtain i where i: "i < length xs" "p = sort xs ! i" using assms(2) by (metis in_set_conv_nth length_sort set_sort)
  have c: "card {q \<in> set xs. p < q} = length xs - Suc i"
    using greater_in_sorted[of "sort xs" i] assms(1) i by simp
  have "p \<in> set (take (length xs - k) (sort xs)) \<longleftrightarrow> i < length xs - k"
  proof
    assume "p \<in> set (take (length xs - k) (sort xs))"
    then obtain j where "j < length xs - k" "p = sort xs ! j" by (auto simp: in_set_conv_nth)
    then show "i < length xs - k" using i assms(1) nth_eq_iff_index_eq[of "sort xs" i j] by simp
  next
    assume "i < length xs - k"
    then show "p \<in> set (take (length xs - k) (sort xs))" using i by (auto simp: in_set_conv_nth intro!: exI[of _ i])
  qed
  then show ?thesis using c i(1) assms(3) by linarith
qed

lemma Prune_at:
  assumes "0 < keep" "distinct (Glob_snapshots E dir fs)"
  shows "file_at (snd (Prune E dir keep fs)) p =
     (if p \<in> set (Glob_snapshots E dir fs) \<and> keep \<le> int (card {q \<in> set (Glob_snapshots E dir fs). p < q})
         \<and> be_fault E ''remove'' p = None then None else file_at fs p)"
proof (cases "int (length (Glob_snapshots E dir fs)) \<le> keep")
  case True
  have "p \<in> set (Glob_snapshots E dir fs) \<Longrightarrow> card {q \<in> set (Glob_snapshots E dir fs). p < q} < card (set (Glob_snapshots E dir fs))"
    by (rule psubset_card_mono) auto
  then have "p \<in> set (Glob_snapshots E dir fs) \<Longrightarrow> int (card {q \<in> set (Glob_snapshots E dir fs). p < q}) < keep"
    using True card_length[of "Glob_snapshots E dir fs"] by linarith
  then show ?thesis using True assms(1) by (auto simp: Prune_def Let_def)
next
  case False
  then have "nat keep \<le> length (Glob_snapshots E dir fs)" by linarith
  note old = oldest_iff[OF assms(2) _ this]
  let ?M = "Glob_snapshots E dir fs"
  have "set (take (length ?M - nat keep) (sort ?M)) \<subseteq> set ?M" using set_take_subset[of _ "sort ?M"] by simp
  then have "p \<in> set (take (length ?M - nat keep) (sort ?M)) \<longleftrightarrow> p \<in> set ?M \<and> nat keep \<le> card {q \<in> set ?M. p < q}"
    using old by blast
  then have "p \<in> set (take (length ?M - nat keep) (sort ?M)) \<longleftrightarrow> p \<in> set ?M \<and> keep \<le> int (card {q \<in> set ?M. p < q})"
    by (simp only: nat_le_iff)
  then show ?thesis using False assms(1) by (simp add: Prune_def Let_def remove_files_at)
qed

text \<open>Retention removes exactly the old snapshots: with a positive limit, a file is gone afterwards exactly when it is a
  snapshot of the backup directory with at least that many newer ones and could be removed; every other file of the
  directory and elsewhere is as it was, and with no limit nothing is removed.\<close>

theorem prune_keeps_newest:
  assumes "distinct (Glob_snapshots E dir fs)"
  shows "file_at (snd (Prune E dir keep fs)) p =
     (if 0 < keep \<and> p \<in> set (Glob_snapshots E dir fs) \<and> keep \<le> int (card {q \<in> set (Glob_snapshots E dir fs). p < q})
         \<and> be_fault E ''remove'' p = None then None else file_at fs p)"
  using Prune_at[OF _ assms, of keep p] by (cases "0 < keep") (auto simp: Prune_def)

definition demo_env :: backup_env where
  "demo_env = \<lparr>be_fault = (\<lambda>_ _. None), be_encrypt = (\<lambda>p d. Inr (ageMagic @ CHR 0x0A # p @ d)),
     be_decrypt = (\<lambda>p d. let r = drop (Suc (length ageMagic)) d in
        if has_prefix r p then Inr (drop (length p) r) else Inl (ErrText ''incorrect passphrase'')),
     be_integrity = (\<lambda>_. Inr ''ok''), be_stacks = (\<lambda>_. None), be_snapshot = Inr (sqlite_magic @ ''rows''), be_tmp = ''/tmp/x'',
     be_glob = (\<lambda>_. [])\<rparr>"

definition demo_backups :: files where
  "demo_backups = [(''/b/accelero-backup-20250102T000000Z.db'', ''two''), (''/b/notes.txt'', ''n''),
     (''/b/accelero-backup-20250101T000000Z.db.age'', ''one''), (''/b/accelero-backup-20250103T000000Z.db'', ''three'')]"

theorem prune_keeps_newest_witness:
  "file_at (snd (Prune demo_env ''/b'' 2 demo_backups)) ''/b/accelero-backup-20250101T000000Z.db.age'' = None"
proof -
  let ?M = "Glob_snapshots demo_env ''/b'' demo_backups"
  let ?p = "''/b/accelero-backup-20250101T000000Z.db.age''"
  have M: "?M = [''/b/accelero-backup-20250102T000000Z.db'', ?p, ''/b/accelero-backup-20250103T000000Z.db'']" by code_simp
  have "distinct ?M" unfolding M by code_simp
  moreover have "card {q \<in> set ?M. ?p < q} = 2"
  proof -
    have "{q \<in> set ?M. ?p < q} = set (filter (\<lambda>q. ?p < q) ?M)" by (simp only: set_filter)
    also have "card \<dots> = 2" unfolding M by code_simp
    finally show ?thesis .
  qed
  moreover have "?p \<in> set ?M" unfolding M by simp
  ultimately show ?thesis using prune_keeps_newest[of demo_env "''/b''" demo_backups 2 ?p] by (simp add: demo_env_def)
qed

section \<open>Restore\<close>

text \<open>The paths a restore works with are different ones.\<close>

lemma paths_apart [simp]:
  "p @ ''.restore'' \<noteq> p" "p @ ''.restore'' \<noteq> p @ ''-wal''" "p @ ''.restore'' \<noteq> p @ ''-shm''" "p \<noteq> p @ ''.restore''"
  "(p @ ''.restore'') @ ''.partial'' \<noteq> p @ ''.restore''" "p @ ''.restore.partial'' \<noteq> p @ ''.restore''" "p @ ''.restore.partial'' \<noteq> p"
  "p @ ''.restore'' \<noteq> p @ ''.pre-restore-'' @ s" "p @ ''-wal'' \<noteq> p @ ''.pre-restore-'' @ s" "p @ ''-shm'' \<noteq> p @ ''.pre-restore-'' @ s"
  "p @ ''.pre-restore-'' @ s \<noteq> p" "p @ ''-wal'' \<noteq> p" "p @ ''-shm'' \<noteq> p"
  by simp_all

lemma stage_outcome:
  assumes "stageFile E src data dst fs = (r, fs')"
  shows "q \<noteq> dst \<Longrightarrow> q \<noteq> dst @ ''.partial'' \<Longrightarrow> file_at fs' q = file_at fs q"
    and "file_at fs' dst = file_at fs dst \<or> file_at fs' dst = Some data"
    and "r = None \<Longrightarrow> file_at fs' dst = Some data"
proof -
  have "(q \<noteq> dst \<longrightarrow> q \<noteq> dst @ ''.partial'' \<longrightarrow> file_at fs' q = file_at fs q)
     \<and> (file_at fs' dst = file_at fs dst \<or> file_at fs' dst = Some data) \<and> (r = None \<longrightarrow> file_at fs' dst = Some data)"
  proof (cases "\<exists>e. r = Some e")
    case True
    then show ?thesis
      using assms file_rename_Some[of E "dst @ ''.partial''" dst "put_file (dst @ ''.partial'') data fs"]
      by (auto simp: stageFile_def Let_def file_put file_remove split: option.splits if_splits)
  next
    case False
    then have "os_rename E (dst @ ''.partial'') dst (put_file (dst @ ''.partial'') data fs) = (None, fs')"
      using assms by (auto simp: stageFile_def Let_def split: option.splits)
    then show ?thesis using file_rename[of E "dst @ ''.partial''" dst _ fs'] by (simp add: file_put)
  qed
  then show "q \<noteq> dst \<Longrightarrow> q \<noteq> dst @ ''.partial'' \<Longrightarrow> file_at fs' q = file_at fs q"
    "file_at fs' dst = file_at fs dst \<or> file_at fs' dst = Some data" "r = None \<Longrightarrow> file_at fs' dst = Some data" by blast+
qed

text \<open>C27. A restore request never touches the live database: whatever is uploaded and whatever fails on the way, every file
  but the staged one and its partial copy is as it was, and the staged file is either what was staged before or the whole
  of a snapshot that passed the validation, on a server where restores are allowed; the request succeeds only then.\<close>

theorem restore_stages_only_validated:
  "(\<forall>q. q = cfg_DatabasePath c @ ''.restore'' \<or> q = cfg_DatabasePath c @ ''.restore'' @ ''.partial''
        \<or> file_at (snd (restore_files E c header body fs)) q = file_at fs q)
   \<and> ((fst (restore_files E c header body fs) \<noteq> None
         \<and> file_at (snd (restore_files E c header body fs)) (cfg_DatabasePath c @ ''.restore'') = file_at fs (cfg_DatabasePath c @ ''.restore''))
      \<or> (\<exists>s path. file_at (snd (restore_files E c header body fs)) (cfg_DatabasePath c @ ''.restore'') = Some s
           \<and> ValidateBackupFile E path s = None \<and> cfg_AllowRestore c))"
proof (cases "restore_upload E c body")
  case (Inr data)
  then have allow: "cfg_AllowRestore c" by (auto simp: restore_upload_def Let_def split: if_splits)
  show ?thesis
  proof (cases "restore_candidate E c header data")
    case c: (Inr pc)
    obtain path cand where pc: "pc = (path, cand)" by fastforce
    show ?thesis
    proof (cases "ValidateBackupFile E path cand")
      case None
      obtain r fs' where st: "stageFile E path cand (cfg_DatabasePath c @ ''.restore'') fs = (r, fs')" by fastforce
      have "restore_files E c header body fs = ((case r of None \<Rightarrow> None | Some e \<Rightarrow> Some (''failed to stage restore'', 500, ''stage: '' @ err_msg e)), fs')"
        by (simp add: restore_files_def Inr c pc None st split: option.split)
      then show ?thesis using stage_outcome[OF st] allow None by (cases r) auto
    qed (simp add: restore_files_def Inr c pc)
  qed (simp add: restore_files_def Inr)
qed (simp add: restore_files_def)

text \<open>What the age library promises: a stream made with a passphrase has the header, and the passphrase opens it.\<close>

definition age_ok :: "backup_env \<Rightarrow> backup_env \<Rightarrow> bool" where
  "age_ok E E' \<longleftrightarrow> (\<forall>p d. p \<noteq> [] \<longrightarrow> (\<exists>out. be_encrypt E p d = Inr out \<and> IsAgeEncrypted (take 32 out) \<and> be_decrypt E' p out = Inr d))"

definition no_failures :: "backup_env \<Rightarrow> bool" where
  "no_failures E \<longleftrightarrow> (\<forall>op p. be_fault E op p = None)"

lemma head_32: "(if length d > 32 then take 32 d else d) = take 32 d"
  by simp

lemma sqlite_not_age: "ValidateBackupFile E p s = None \<Longrightarrow> \<not> IsAgeEncrypted (take 32 s)"
  by (cases s) (auto simp: ValidateBackupFile_def IsAgeEncrypted_def has_prefix_iff ageMagic_def sqlite_magic_def split: if_splits option.splits)

text \<open>Where nothing fails, the validation does not depend on the path.\<close>

lemma valid_anywhere: "no_failures E \<Longrightarrow> ValidateBackupFile E p s = ValidateBackupFile E q s"
  by (simp add: ValidateBackupFile_def no_failures_def)

lemma backup_bytes_are:
  assumes "no_failures E" "be_snapshot E = Inr s" "backup_bytes E pass = Inr (b, ext)"
  shows "enc_Encrypt E pass s = Inr b"
  using assms(3)
  by (auto simp: backup_bytes_def Let_def assms(2) EncryptFile_def os_open_def assms(1)[unfolded no_failures_def] file_at_def
      enc_Enabled_def enc_Encrypt_def put_file_def update_conv' split: sum.splits if_splits)

lemma pending_restore:
  assumes "no_failures E" "file_at fs (db @ ''.restore'') = Some s"
  shows "\<exists>fs'. applyPendingRestore E t db fs = (None, fs') \<and> file_at fs' db = Some s \<and> file_at fs' (db @ ''.restore'') = None
     \<and> (\<forall>old. file_at fs db = Some old \<longrightarrow> file_at fs' (db @ ''.pre-restore-'' @ utc_stamp t) = Some old)
     \<and> file_at fs' (db @ ''-wal'') = None \<and> file_at fs' (db @ ''-shm'') = None"
proof -
  let ?bak = "db @ ''.pre-restore-'' @ utc_stamp t"
  let ?fs1 = "case file_at fs db of None \<Rightarrow> fs | Some old \<Rightarrow> put_file ?bak old (drop_file db fs)"
  let ?fs2 = "snd (os_remove E (db @ ''-shm'') (snd (os_remove E (db @ ''-wal'') ?fs1)))"
  have nf: "be_fault E op p = None" for op p using assms(1) by (simp add: no_failures_def)
  have staged: "file_at ?fs2 (db @ ''.restore'') = Some s"
    using assms(2) by (simp add: file_remove file_put file_drop nf split: option.split)
  have first: "(if os_exists E db fs then os_rename E db ?bak fs else (None, fs)) = (None, ?fs1)"
    by (simp add: os_exists_def os_rename_def nf split: option.split)
  have "applyPendingRestore E t db fs = (None, put_file db s (drop_file (db @ ''.restore'') ?fs2))"
    using assms(2) staged
    unfolding applyPendingRestore_def Let_def first by (simp add: os_exists_def nf os_rename_def)
  then show ?thesis by (auto simp: file_put file_drop file_remove nf split: option.split)
qed

text \<open>C34. A backup comes back: the bytes that one server serves as a backup, plain or encrypted with its passphrase, uploaded
  to a server with the same passphrase that allows restores, are staged, and its next start makes the database the
  snapshot that was taken, byte by byte, keeps the database it had before beside it, and leaves no journal of that one
  behind.\<close>

theorem backup_restore_roundtrip:
  assumes "age_ok E E'" "no_failures E" "no_failures E'" "be_snapshot E = Inr s" "ValidateBackupFile E' p s = None"
    and "backup_bytes E (cfg_BackupEncryptionPassphrase c) = Inr (b, ext)" "length b \<le> maxRestoreUpload"
    and "cfg_AllowRestore c" "cfg_DatabasePath c \<noteq> []" "restore_files E' c [] (Inr b) fs = (r, fs1)"
  shows "r = None \<and> (\<exists>fs2. applyPendingRestore E' t (cfg_DatabasePath c) fs1 = (None, fs2)
     \<and> file_at fs2 (cfg_DatabasePath c) = Some s \<and> file_at fs2 (cfg_DatabasePath c @ ''.restore'') = None
     \<and> (\<forall>old. file_at fs (cfg_DatabasePath c) = Some old \<longrightarrow> file_at fs2 (cfg_DatabasePath c @ ''.pre-restore-'' @ utc_stamp t) = Some old)
     \<and> file_at fs2 (cfg_DatabasePath c @ ''-wal'') = None \<and> file_at fs2 (cfg_DatabasePath c @ ''-shm'') = None)"
proof -
  let ?p = "cfg_BackupEncryptionPassphrase c" and ?db = "cfg_DatabasePath c"
  have ok: "ValidateBackupFile E' q s = None" for q using assms(5) valid_anywhere[OF assms(3), of q s p] by simp
  have nf: "be_fault E' op p = None" for op p using assms(3) by (simp add: no_failures_def)
  have enc: "enc_Encrypt E ?p s = Inr b" by (rule backup_bytes_are[OF assms(2,4,6)])
  have cand: "\<exists>path. restore_candidate E' c [] b = Inr (path, s)" and nonempty: "b \<noteq> []"
  proof -
    show "\<exists>path. restore_candidate E' c [] b = Inr (path, s)"
    proof (cases "?p = []")
      case True
      then show ?thesis using enc sqlite_not_age[OF assms(5)] by (simp add: enc_Encrypt_def restore_candidate_def nf head_32 Let_def del: if_split)
    next
      case False
      then obtain out where "be_encrypt E ?p s = Inr out" "IsAgeEncrypted (take 32 out)" "be_decrypt E' ?p out = Inr s"
        using assms(1) unfolding age_ok_def by blast
      then show ?thesis
        using enc False by (simp add: enc_Encrypt_def restore_candidate_def restore_passphrase_def decryptToFile_def nf head_32 Let_def)
    qed
    have "s \<noteq> []" using assms(5) by (auto simp: ValidateBackupFile_def split: option.splits if_splits)
    moreover have "\<not> IsAgeEncrypted (take 32 [])" by (simp add: IsAgeEncrypted_def ageMagic_def has_prefix_iff)
    ultimately show "b \<noteq> []"
      using enc assms(1) unfolding enc_Encrypt_def age_ok_def by (metis sum.inject(2))
  qed
  then obtain path where path: "restore_candidate E' c [] b = Inr (path, s)" by blast
  have up: "restore_upload E' c (Inr b) = Inr b"
    using assms(7-9) nonempty by (simp add: restore_upload_def nf Let_def)
  obtain r1 fs' where st: "stageFile E' path s (?db @ ''.restore'') fs = (r1, fs')" by fastforce
  have "r1 = None"
    using st by (auto simp: stageFile_def nf Let_def os_rename_def file_put)
  then have r: "r = None" "fs1 = fs'"
    using assms(10) by (simp_all add: restore_files_def up path ok st)
  have staged: "file_at fs1 (?db @ ''.restore'') = Some s" "file_at fs1 ?db = file_at fs ?db"
    using stage_outcome[OF st] \<open>r1 = None\<close> r(2) by simp_all
  show ?thesis using pending_restore[OF assms(3) staged(1), of t] r(1) staged(2) by simp
qed

definition demo_config :: config where
  "demo_config = (read_config demo_lib [''API_KEY'' \<mapsto> ''k''])\<lparr>cfg_AllowRestore := True, cfg_BackupEncryptionPassphrase := ''pw''\<rparr>"

lemma demo_config_fields:
  "cfg_AllowRestore demo_config" "cfg_BackupEncryptionPassphrase demo_config = ''pw''" "cfg_DatabasePath demo_config = ''./data/accelero.db''"
proof -
  have "cfg_DatabasePath demo_config = cfg_DatabasePath (read_config demo_lib [''API_KEY'' \<mapsto> ''k''])"
    by (simp add: demo_config_def)
  also have "\<dots> = ''./data/accelero.db''"
    by (simp only: read_config_fields) (simp add: envOrDefault_def Getenv_def)
  finally show "cfg_DatabasePath demo_config = ''./data/accelero.db''" .
qed (simp_all add: demo_config_def)

lemma demo_age_ok: "age_ok demo_env demo_env"
  by (auto simp: age_ok_def demo_env_def IsAgeEncrypted_def has_prefix_iff ageMagic_def)

theorem backup_restore_roundtrip_witness:
  "\<exists>fs2. applyPendingRestore demo_env 0 ''./data/accelero.db''
       (snd (restore_files demo_env demo_config [] (Inr (ageMagic @ CHR 0x0A # ''pw'' @ sqlite_magic @ ''rows'')) [(''./data/accelero.db'', ''old'')])) = (None, fs2)
     \<and> file_at fs2 ''./data/accelero.db'' = Some (sqlite_magic @ ''rows'')
     \<and> file_at fs2 ''./data/accelero.db.pre-restore-19700101T000000Z'' = Some ''old''"
proof -
  let ?b = "ageMagic @ CHR 0x0A # ''pw'' @ sqlite_magic @ ''rows''" and ?fs = "[(''./data/accelero.db'', ''old'')] :: files"
  have "no_failures demo_env" "be_snapshot demo_env = Inr (sqlite_magic @ ''rows'')" by (simp_all add: no_failures_def demo_env_def)
  moreover have "ValidateBackupFile demo_env ''/tmp/x/decrypted.db'' (sqlite_magic @ ''rows'') = None" by code_simp
  moreover have "backup_bytes demo_env ''pw'' = Inr (?b, ''.age'')" by code_simp
  moreover have "length ?b \<le> maxRestoreUpload" by (simp add: ageMagic_def sqlite_magic_def maxRestoreUpload_def)
  moreover have "utc_stamp 0 = ''19700101T000000Z''" by code_simp
  moreover have "file_at ?fs ''./data/accelero.db'' = Some ''old''" by (simp add: file_at_def)
  ultimately show ?thesis
    using backup_restore_roundtrip[OF demo_age_ok, of "sqlite_magic @ ''rows''" "''/tmp/x/decrypted.db''" demo_config ?b "''.age''" ?fs
        "fst (restore_files demo_env demo_config [] (Inr ?b) ?fs)" "snd (restore_files demo_env demo_config [] (Inr ?b) ?fs)" 0]
    by (auto simp: demo_config_fields)
qed

text \<open>When the clock has gone back, retention removes the snapshot that was just written, and the run still answers its path.\<close>

lemma backup_pruned_at_once:
  "RunOnce demo_env ''/b'' 1 0 [] [(''/b/accelero-backup-20250103T000000Z.db'', ''three'')]
     = (Inr ''/b/accelero-backup-19700101T000000Z.db'', [(''/b/accelero-backup-20250103T000000Z.db'', ''three'')])"
  by code_simp

end
