(* ===== verification/Schema.thy ===== *)
theory Schema
  imports Prelude
begin

text \<open>
  The schema of the database and its migrations: migrate, applyColumnMigrations and columnExists of
  internal/store/sqlite.go. A schema is the tables with the names of their columns in order, and the names of the indexes;
  the types, defaults and keys of columns are not modelled. The order matters: the store reads rows of stacks and of
  API keys with SELECT * and scans the columns by position. A statement may fail of itself, by an argument that maps a
  statement to its error; what ran before it stays, as SQLite runs the statements of one Exec one by one.
\<close>

record schema =
  sc_tables :: "(string \<times> string list) list"
  sc_indexes :: "string list"

datatype ddl = CreateTable string "string list" | CreateIndex string

definition columns :: "schema \<Rightarrow> string \<Rightarrow> string list" where
  "columns S t = (case map_of (sc_tables S) t of Some cs \<Rightarrow> cs | None \<Rightarrow> [])"

text \<open>CREATE ... IF NOT EXISTS.\<close>

fun create :: "ddl \<Rightarrow> schema \<Rightarrow> schema" where
  "create (CreateTable t cs) S =
     (if map_of (sc_tables S) t \<noteq> None then S else S\<lparr>sc_tables := sc_tables S @ [(t, cs)]\<rparr>)"
| "create (CreateIndex i) S = (if i \<in> set (sc_indexes S) then S else S\<lparr>sc_indexes := sc_indexes S @ [i]\<rparr>)"

fun create_all :: "(ddl \<Rightarrow> gerr option) \<Rightarrow> ddl list \<Rightarrow> schema \<Rightarrow> gerr option \<times> schema" where
  "create_all fault [] S = (None, S)"
| "create_all fault (d # ds) S = (case fault d of Some e \<Rightarrow> (Some e, S) | None \<Rightarrow> create_all fault ds (create d S))"

definition stacks_base :: "string list" where
  "stacks_base = [''id'', ''name'', ''repo_url'', ''repo_username'', ''repo_token'', ''repo_branch'', ''compose_path'',
     ''service_filter'', ''auto_deploy'', ''reconcile_interval_seconds'', ''status'', ''last_deployed_at'',
     ''last_reconciled_at'', ''git_commit'', ''docker_username'', ''docker_password'', ''docker_registry'',
     ''created_at'', ''updated_at'']"

definition api_keys_base :: "string list" where
  "api_keys_base = [''id'', ''name'', ''role'', ''key_hash'', ''created_at'', ''last_used_at'', ''disabled'']"

definition the_schema :: "ddl list" where
  "the_schema =
     [CreateTable ''stacks'' stacks_base,
      CreateTable ''deployments'' [''id'', ''stack_id'', ''stack_name'', ''status'', ''trigger'', ''git_commit'', ''changes'',
        ''error_message'', ''started_at'', ''completed_at''],
      CreateIndex ''idx_deployments_stack_id'', CreateIndex ''idx_deployments_started_at'',
      CreateTable ''managed_containers'' [''id'', ''stack_id'', ''service_name'', ''container_id'', ''container_name'', ''image'',
        ''status'', ''created_at''],
      CreateIndex ''idx_managed_containers_stack_id'', CreateIndex ''idx_managed_containers_container_id'',
      CreateTable ''docker_hosts'' [''id'', ''name'', ''endpoint'', ''tls_ca'', ''tls_cert'', ''tls_key'', ''created_at'', ''updated_at''],
      CreateTable ''api_keys'' api_keys_base,
      CreateIndex ''idx_api_keys_key_hash'',
      CreateTable ''audit_entries'' [''id'', ''timestamp'', ''actor'', ''remote_addr'', ''request_id'', ''operation'',
        ''resource_type'', ''resource_id'', ''stack_id'', ''stack_name'', ''outcome'', ''error_message'', ''metadata''],
      CreateIndex ''idx_audit_timestamp'', CreateIndex ''idx_audit_stack_ts'', CreateIndex ''idx_audit_actor_ts'',
      CreateIndex ''idx_audit_operation_ts'',
      CreateTable ''stack_secrets'' [''stack_id'', ''name'', ''value'', ''created_at'', ''updated_at''],
      CreateTable ''stack_registries'' [''stack_id'', ''server'', ''username'', ''password'', ''created_at'', ''updated_at'']]"

definition added_columns :: "(string \<times> string) list" where
  "added_columns = [(''stacks'', ''secrets_hash''), (''stacks'', ''requires_approval''), (''api_keys'', ''stack_grants''),
     (''stacks'', ''host_id'')]"

text \<open>ALTER TABLE ... ADD COLUMN puts the column last.\<close>

definition add_column :: "string \<Rightarrow> string \<Rightarrow> schema \<Rightarrow> schema" where
  "add_column t c S = S\<lparr>sc_tables := List.map (\<lambda>(u, cs). if u = t then (u, cs @ [c]) else (u, cs)) (sc_tables S)\<rparr>"

definition columnExists :: "schema \<Rightarrow> string \<Rightarrow> string \<Rightarrow> bool" where
  "columnExists S t c \<longleftrightarrow> c \<in> set (columns S t)"

text \<open>The first argument gives the errors of the lookup, the second those of the ALTER.\<close>

fun add_columns :: "(string \<Rightarrow> string \<Rightarrow> gerr option) \<Rightarrow> (string \<Rightarrow> string \<Rightarrow> gerr option) \<Rightarrow> (string \<times> string) list
    \<Rightarrow> schema \<Rightarrow> gerr option \<times> schema" where
  "add_columns look alter [] S = (None, S)"
| "add_columns look alter ((t, c) # cs) S =
     (case look t c of
        Some e \<Rightarrow> (Some (ErrWrap (''inspect '' @ t @ '' columns: '') e), S)
      | None \<Rightarrow>
          if columnExists S t c then add_columns look alter cs S
          else (case alter t c of
                  Some e \<Rightarrow> (Some (ErrWrap (''add '' @ t @ ''.'' @ c @ '': '') e), S)
                | None \<Rightarrow> add_columns look alter cs (add_column t c S)))"

definition applyColumnMigrations ::
  "(string \<Rightarrow> string \<Rightarrow> gerr option) \<Rightarrow> (string \<Rightarrow> string \<Rightarrow> gerr option) \<Rightarrow> schema \<Rightarrow> gerr option \<times> schema" where
  "applyColumnMigrations look alter S = add_columns look alter added_columns S"

record db_faults =
  ft_create :: "ddl \<Rightarrow> gerr option"
  ft_look :: "string \<Rightarrow> string \<Rightarrow> gerr option"
  ft_alter :: "string \<Rightarrow> string \<Rightarrow> gerr option"

definition migrate :: "db_faults \<Rightarrow> schema \<Rightarrow> gerr option \<times> schema" where
  "migrate F S =
     (case create_all (ft_create F) the_schema S of
        (Some e, S') \<Rightarrow> (Some e, S')
      | (None, S') \<Rightarrow> applyColumnMigrations (ft_look F) (ft_alter F) S')"

text \<open>Opening the database: the directory, the driver, a ping, the migration.\<close>

record open_faults =
  of_mkdir :: "gerr option"
  of_open :: "gerr option"
  of_ping :: "gerr option"

definition NewSQLiteStore :: "open_faults \<Rightarrow> db_faults \<Rightarrow> schema \<Rightarrow> gerr option \<times> schema" where
  "NewSQLiteStore K F S =
     (case of_mkdir K of
        Some e \<Rightarrow> (Some (ErrWrap ''failed to create database directory: '' e), S)
      | None \<Rightarrow>
        (case of_open K of
           Some e \<Rightarrow> (Some (ErrWrap ''failed to open database: '' e), S)
         | None \<Rightarrow>
           (case of_ping K of
              Some e \<Rightarrow> (Some (ErrWrap ''failed to ping database: '' e), S)
            | None \<Rightarrow>
              (case migrate F S of
                 (Some e, S') \<Rightarrow> (Some (ErrWrap ''failed to run migrations: '' e), S')
               | (None, S') \<Rightarrow> (None, S')))))"

text \<open>The columns that scanStack and scanAPIKey read, in their order.\<close>

definition scanned_stack :: "string list" where
  "scanned_stack = stacks_base @ [''secrets_hash'', ''requires_approval'', ''host_id'']"

definition scanned_key :: "string list" where
  "scanned_key = api_keys_base @ [''stack_grants'']"

section \<open>Every start completes the schema in the order the rows are read\<close>

text \<open>The columns added to a table, and the states of a table on the way: not there, or its base columns with some of the
  added ones, in order.\<close>

definition extras :: "string \<Rightarrow> (string \<times> string) list \<Rightarrow> string list" where
  "extras t cs = List.map snd (filter (\<lambda>(u, c). u = t) cs)"

definition on_the_way :: "string \<Rightarrow> string list \<Rightarrow> string list \<Rightarrow> schema \<Rightarrow> bool" where
  "on_the_way t base extra S \<longleftrightarrow>
     map_of (sc_tables S) t = None \<or> (\<exists>k \<le> length extra. map_of (sc_tables S) t = Some (base @ take k extra))"

lemma create_table:
  "map_of (sc_tables (create d S)) t =
     (case map_of (sc_tables S) t of Some cs \<Rightarrow> Some cs
      | None \<Rightarrow> (case d of CreateTable u cs \<Rightarrow> if u = t then Some cs else None | CreateIndex i \<Rightarrow> None))"
  by (cases d) (auto simp: map_add_def split: option.split)

declare create.simps [simp del]

lemma create_all_table:
  assumes "create_all fault ds S = (r, S')" "\<forall>cs. CreateTable t cs \<in> set ds \<longrightarrow> cs = base" "on_the_way t base extra S"
  shows "on_the_way t base extra S'" and "r = None \<Longrightarrow> CreateTable t base \<in> set ds \<Longrightarrow> map_of (sc_tables S') t \<noteq> None"
    and "map_of (sc_tables S) t \<noteq> None \<Longrightarrow> map_of (sc_tables S') t \<noteq> None"
proof -
  have "on_the_way t base extra S' \<and> (map_of (sc_tables S) t \<noteq> None \<longrightarrow> map_of (sc_tables S') t \<noteq> None)
      \<and> (r = None \<longrightarrow> CreateTable t base \<in> set ds \<longrightarrow> map_of (sc_tables S') t \<noteq> None)"
    using assms
  proof (induction ds arbitrary: S)
    case (Cons d ds)
    show ?case
    proof (cases "fault d")
      case None
      have way: "on_the_way t base extra (create d S)"
      proof (cases "map_of (sc_tables S) t")
        case None
        have "d = CreateTable t cs \<Longrightarrow> cs = base" for cs using Cons.prems(2) by simp
        then show ?thesis
          by (cases d) (use None in \<open>auto simp: on_the_way_def create_table intro: exI[of _ 0]\<close>)
      qed (use Cons.prems(3) in \<open>simp add: on_the_way_def create_table\<close>)
      have made: "d = CreateTable t base \<Longrightarrow> map_of (sc_tables (create d S)) t \<noteq> None"
        and kept: "map_of (sc_tables S) t \<noteq> None \<Longrightarrow> map_of (sc_tables (create d S)) t \<noteq> None"
        unfolding create_table by (auto split: option.split)
      have run: "create_all fault ds (create d S) = (r, S')" using Cons.prems(1) None by simp
      have sub: "\<forall>cs. CreateTable t cs \<in> set ds \<longrightarrow> cs = base" using Cons.prems(2) by simp
      note ih = Cons.IH[OF run sub way]
      have third: "map_of (sc_tables S') t \<noteq> None" if "r = None" "CreateTable t base \<in> set (d # ds)"
        using that ih made by (cases "d = CreateTable t base") auto
      show ?thesis using ih kept third by blast
    next
      case (Some e)
      then have "r = Some e" "S' = S" using Cons.prems(1) by auto
      then show ?thesis using Cons.prems(3) by simp
    qed
  qed simp
  then show "on_the_way t base extra S'" "r = None \<Longrightarrow> CreateTable t base \<in> set ds \<Longrightarrow> map_of (sc_tables S') t \<noteq> None"
    "map_of (sc_tables S) t \<noteq> None \<Longrightarrow> map_of (sc_tables S') t \<noteq> None" by blast+
qed

lemma add_column_table:
  "map_of (sc_tables (add_column u c S)) t = (if t = u then map_option (\<lambda>cs. cs @ [c]) (map_of (sc_tables S) t) else map_of (sc_tables S) t)"
proof -
  have "map_of (List.map (\<lambda>(v, cs). if v = u then (v, cs @ [c]) else (v, cs)) ts) t
      = (if t = u then map_option (\<lambda>cs. cs @ [c]) (map_of ts t) else map_of ts t)" for ts :: "(string \<times> string list) list"
    by (induction ts) auto
  then show ?thesis by (simp add: add_column_def)
qed

text \<open>The extras of the table are done up to \<open>past\<close>; those left are added unless they are there.\<close>

lemma add_columns_table:
  assumes "add_columns look alter cs S = (r, S')" "map_of (sc_tables S) t = Some (base @ take k (past @ extras t cs))"
    and "length past \<le> k" "k \<le> length (past @ extras t cs)" "distinct (base @ past @ extras t cs)"
  shows "\<exists>k'. map_of (sc_tables S') t = Some (base @ take k' (past @ extras t cs)) \<and> k' \<le> length (past @ extras t cs)
     \<and> (r = None \<longrightarrow> k' = length (past @ extras t cs))"
  using assms
proof (induction cs arbitrary: S past k)
  case (Cons a cs)
  obtain u c where a: "a = (u, c)" by fastforce
  note prems = Cons.prems[unfolded a]
  have "\<exists>k'. map_of (sc_tables S') t = Some (base @ take k' (past @ extras t ((u, c) # cs)))
     \<and> k' \<le> length (past @ extras t ((u, c) # cs)) \<and> (r = None \<longrightarrow> k' = length (past @ extras t ((u, c) # cs)))"
  proof (cases "look u c")
    case None
    show ?thesis
    proof (cases "u = t")
      case False
      then have ex: "extras t ((u, c) # cs) = extras t cs" by (simp add: extras_def)
      show ?thesis
        using prems[unfolded ex] Cons.IH[of S k past] Cons.IH[of "add_column u c S" k past] None False
        unfolding ex by (auto simp: add_column_table split: if_splits option.splits intro: exI[of _ k])
    next
      case True
      then have ex: "extras t ((u, c) # cs) = c # extras t cs" by (simp add: extras_def)
      note ex' = ex[unfolded True]
      have there: "columnExists S t c \<longleftrightarrow> length past < k"
      proof -
        have "columns S t = base @ take k (past @ c # extras t cs)" using prems(2) by (simp add: columns_def ex)
        moreover have "c \<notin> set base" "c \<notin> set past" using prems(5) by (auto simp: ex)
        moreover have "take k (past @ c # extras t cs) = past @ take (k - length past) (c # extras t cs)"
          using prems(3) by simp
        ultimately show ?thesis using prems(3) by (cases "k - length past") (auto simp: columnExists_def)
      qed
      have on: "map_of (sc_tables S1) t = Some (base @ take k1 ((past @ [c]) @ extras t cs)) \<Longrightarrow> length (past @ [c]) \<le> k1
          \<Longrightarrow> k1 \<le> length ((past @ [c]) @ extras t cs) \<Longrightarrow> add_columns look alter cs S1 = (r, S')
          \<Longrightarrow> \<exists>k'. map_of (sc_tables S') t = Some (base @ take k' (past @ extras t ((u, c) # cs))) \<and> k' \<le> length (past @ extras t ((u, c) # cs))
            \<and> (r = None \<longrightarrow> k' = length (past @ extras t ((u, c) # cs)))" for S1 k1
        using Cons.IH[of S1 k1 "past @ [c]"] prems(5) by (simp add: ex)
      show ?thesis
      proof (cases "columnExists S t c")
        case True
        then show ?thesis
          using on[of S k] prems there None \<open>u = t\<close> by (simp add: ex ex')
      next
        case False
        then have k: "k = length past" using there prems(3) by simp
        show ?thesis
        proof (cases "alter u c")
          case None': None
          have "map_of (sc_tables (add_column u c S)) t = Some (base @ take (Suc k) ((past @ [c]) @ extras t cs))"
            using prems(2) k \<open>u = t\<close> by (simp add: add_column_table ex ex')
          then show ?thesis
            using on[of "add_column u c S" "Suc k"] prems(1) k None None' False \<open>u = t\<close> by (simp add: ex ex')
        next
          case (Some e)
          then show ?thesis using prems None False \<open>u = t\<close> by (auto simp: ex ex' intro!: exI[of _ k])
        qed
      qed
    qed
  next
    case (Some e)
    then show ?thesis using prems by auto
  qed
  then show ?case by (simp only: a)
qed (auto simp: extras_def)

text \<open>One run for one table.\<close>

lemma migrate_table:
  assumes "migrate F S = (r, S')" "on_the_way t base (extras t added_columns) S" "distinct (base @ extras t added_columns)"
    and "\<forall>cs. CreateTable t cs \<in> set the_schema \<longrightarrow> cs = base" "CreateTable t base \<in> set the_schema"
  shows "on_the_way t base (extras t added_columns) S' \<and> (r = None \<longrightarrow> columns S' t = base @ extras t added_columns)"
proof -
  obtain r1 S1 where c: "create_all (ft_create F) the_schema S = (r1, S1)" by fastforce
  note made = create_all_table[OF c assms(4,2)]
  show ?thesis
  proof (cases r1)
    case None
    then have a: "add_columns (ft_look F) (ft_alter F) added_columns S1 = (r, S')"
      using assms(1) c by (simp add: migrate_def applyColumnMigrations_def)
    have "map_of (sc_tables S1) t \<noteq> None" by (rule made(2)[OF None assms(5)])
    then obtain k where "k \<le> length (extras t added_columns)" "map_of (sc_tables S1) t = Some (base @ take k (extras t added_columns))"
      using made(1) by (auto simp: on_the_way_def)
    then show ?thesis
      using add_columns_table[OF a, of t base k "[]"] assms(3) by (auto simp: on_the_way_def columns_def)
  next
    case (Some e)
    then have "r = Some e" "S' = S1" using assms(1) c by (auto simp: migrate_def)
    then show ?thesis using made(1) by simp
  qed
qed

definition start :: "db_faults list \<Rightarrow> schema \<Rightarrow> schema" where
  "start Fs S = foldl (\<lambda>S F. snd (migrate F S)) S Fs"

definition new_file :: schema where "new_file = \<lparr>sc_tables = [], sc_indexes = []\<rparr>"

lemma start_table:
  assumes "distinct (base @ extras t added_columns)" "\<forall>cs. CreateTable t cs \<in> set the_schema \<longrightarrow> cs = base"
    and "CreateTable t base \<in> set the_schema"
  shows "on_the_way t base (extras t added_columns) (start Fs new_file)"
proof (induction Fs rule: rev_induct)
  case (snoc F Fs)
  then show ?case
    using migrate_table[OF prod.collapse[symmetric] snoc assms] by (simp add: start_def)
qed (simp add: start_def new_file_def on_the_way_def)

lemma the_tables:
  "distinct (stacks_base @ extras ''stacks'' added_columns)" "distinct (api_keys_base @ extras ''api_keys'' added_columns)"
  "\<forall>cs. CreateTable ''stacks'' cs \<in> set the_schema \<longrightarrow> cs = stacks_base" "CreateTable ''stacks'' stacks_base \<in> set the_schema"
  "\<forall>cs. CreateTable ''api_keys'' cs \<in> set the_schema \<longrightarrow> cs = api_keys_base" "CreateTable ''api_keys'' api_keys_base \<in> set the_schema"
  "stacks_base @ extras ''stacks'' added_columns = scanned_stack" "api_keys_base @ extras ''api_keys'' added_columns = scanned_key"
  by (simp_all add: extras_def added_columns_def stacks_base_def api_keys_base_def the_schema_def scanned_stack_def scanned_key_def)

text \<open>C35. The columns of stacks and of API keys are always read in the order they have: whatever starts, completed or
  interrupted by an error at any statement, made the database file, the first start that succeeds leaves the two tables
  that are read with SELECT * with exactly the columns the store scans by position, in that order.\<close>

theorem migrations_complete:
  assumes "migrate F (start Fs new_file) = (None, S)"
  shows "columns S ''stacks'' = scanned_stack \<and> columns S ''api_keys'' = scanned_key"
  using migrate_table[OF assms start_table[OF the_tables(1,3,4)] the_tables(1,3,4)]
    migrate_table[OF assms start_table[OF the_tables(2,5,6)] the_tables(2,5,6)] the_tables(7,8) by simp

definition no_faults :: db_faults where
  "no_faults = \<lparr>ft_create = (\<lambda>_. None), ft_look = (\<lambda>_ _. None), ft_alter = (\<lambda>_ _. None)\<rparr>"

text \<open>For instance after a first start that failed at adding the column requires_approval.\<close>

definition half_way :: db_faults where
  "half_way = no_faults\<lparr>ft_alter := (\<lambda>t c. if c = ''requires_approval'' then Some (ErrText ''disk full'') else None)\<rparr>"

theorem migrations_complete_witness:
  "columns (snd (migrate no_faults (start [half_way] new_file))) ''stacks'' = scanned_stack
   \<and> columns (start [half_way] new_file) ''stacks'' = stacks_base @ [''secrets_hash'']"
proof
  have "migrate no_faults (start [half_way] new_file) = (None, snd (migrate no_faults (start [half_way] new_file)))"
    by code_simp
  from migrations_complete[OF this]
  show "columns (snd (migrate no_faults (start [half_way] new_file))) ''stacks'' = scanned_stack" by blast
qed code_simp

end
