(* ===== verification/Stacks_Api.thy ===== *)
theory Stacks_Api
  imports Api
begin

text \<open>
  The handlers for stacks and deployments: creating, reading, changing and deleting a stack, deploying it by hand and by
  webhook, approvals, drift and preview, the re-encryption of old rows, and the probes. A deployment runs in the
  background: the handler answers 202 and gives the job. The reconciler's table of loops is passed along where a handler
  refreshes it.
\<close>

section \<open>Stacks\<close>

record stack_input =
  si_name :: string
  si_repo_url :: string
  si_repo_username :: string
  si_repo_token :: string
  si_repo_branch :: string
  si_compose_path :: string
  si_service_filter :: string
  si_auto_deploy :: bool
  si_interval :: int
  si_requires_approval :: bool
  si_host :: string
  si_docker_username :: string
  si_docker_password :: string
  si_docker_registry :: string

definition AuditOpStackCreate :: string where "AuditOpStackCreate = ''stack.create''"
definition AuditOpStackUpdate :: string where "AuditOpStackUpdate = ''stack.update''"
definition AuditOpStackDelete :: string where "AuditOpStackDelete = ''stack.delete''"

definition refresh :: "handler \<Rightarrow> string \<Rightarrow> loops \<Rightarrow> loops act" where
  "refresh H i loops = (case h_reconciler H of None \<Rightarrow> State_Monad.return loops | Some R \<Rightarrow> RefreshStack R i loops)"

definition new_stack :: "string \<Rightarrow> string \<Rightarrow> gotime \<Rightarrow> stack_input \<Rightarrow> stack" where
  "new_stack i hostID t input =
     \<lparr>st_id = i, st_name = si_name input, RepoURL = si_repo_url input, RepoUsername = si_repo_username input,
      RepoToken = si_repo_token input, RepoBranch = si_repo_branch input, ComposePath = si_compose_path input,
      ServiceFilter = si_service_filter input, AutoDeploy = si_auto_deploy input, ReconcileInterval = si_interval input,
      st_status = StackStatusActive, HostID = hostID, RequiresApproval = si_requires_approval input,
      LastDeployedAt = None, LastReconciledAt = None, GitCommit = [], st_created = t, st_updated = t,
      DockerUsername = si_docker_username input, DockerPassword = si_docker_password input,
      DockerRegistry = si_docker_registry input, SecretsHash = []\<rparr>"

text \<open>A handler that changes the table of loops gives it along with its answer.\<close>

definition stack_done :: "handler \<Rightarrow> request \<Rightarrow> string \<Rightarrow> stack \<Rightarrow> response \<Rightarrow> loops \<Rightarrow> (answer \<times> loops) act" where
  "stack_done H r op st resp loops0 = do {
     loops \<leftarrow> refresh H (st_id st) loops0;
     _ \<leftarrow> record_entry H (stack_audit r op ''stack'' (st_id st) st);
     State_Monad.return ((resp, []), loops) }"

definition with_loops :: "loops \<Rightarrow> response \<Rightarrow> (answer \<times> loops) act" where
  "with_loops loops resp = State_Monad.return ((resp, []), loops)"

definition insert_stack :: "handler \<Rightarrow> request \<Rightarrow> stack_input \<Rightarrow> string \<Rightarrow> loops \<Rightarrow> (answer \<times> loops) act" where
  "insert_stack H r input hostID loops = do {
     g \<leftarrow> generateID (h_env H);
     case g of
       Inl _ \<Rightarrow> with_loops loops (writeError ''failed to generate ID'' 500)
     | Inr i \<Rightarrow> do {
         t \<leftarrow> now (h_env H);
         n1 \<leftarrow> h_nonce H;
         n2 \<leftarrow> h_nonce H;
         let st = new_stack i hostID t input in do {
           c \<leftarrow> h_write H ''CreateStack'' (CreateStack n1 n2 st);
           case c of
             Inl e \<Rightarrow> with_loops loops
               (if contains_str (err_msg e) ''UNIQUE''
                then writeError (''stack with name '' @ quoted (si_name input) @ '' already exists'') 409
                else writeError ''failed to create stack'' 500)
           | Inr _ \<Rightarrow> stack_done H r AuditOpStackCreate st (writeJSON (stack_json st) 201) loops } } }"

definition CreateStack_handler :: "handler \<Rightarrow> request \<Rightarrow> stack_input res \<Rightarrow> loops \<Rightarrow> (answer \<times> loops) act" where
  "CreateStack_handler H r body loops =
     (case body of
        Inl e \<Rightarrow> with_loops loops (writeError (err_msg e) 400)
      | Inr input \<Rightarrow>
          if si_name input = [] \<or> si_repo_url input = [] \<or> si_compose_path input = []
          then with_loops loops (writeError ''name, repo_url, and compose_path are required'' 400)
          else do {
            h \<leftarrow> resolveHostID H (si_host input);
            case h of
              Inl resp \<Rightarrow> with_loops loops resp
            | Inr hostID \<Rightarrow> insert_stack H r input hostID loops })"

definition ListStacks_handler :: "handler \<Rightarrow> answer act" where
  "ListStacks_handler H =
     or_error ''failed to list stacks'' 500 (h_store H ''ListStacks'' ListStacks)
       (\<lambda>stacks. respond (writeJSON (JList (List.map stack_json stacks)) 200))"

definition GetStack_handler :: "handler \<Rightarrow> request \<Rightarrow> answer act" where
  "GetStack_handler H r = or_answer (resolveStack_handler H r) (\<lambda>st. respond (writeJSON (stack_json st) 200))"

text \<open>The fields of an update: a field that is absent leaves the stack's as it is.\<close>

record stack_patch =
  sp_name :: "string option"
  sp_repo_url :: "string option"
  sp_repo_username :: "string option"
  sp_repo_token :: "string option"
  sp_repo_branch :: "string option"
  sp_compose_path :: "string option"
  sp_service_filter :: "string option"
  sp_auto_deploy :: "bool option"
  sp_interval :: "int option"
  sp_requires_approval :: "bool option"
  sp_host :: "string option"
  sp_status :: "string option"
  sp_docker_username :: "string option"
  sp_docker_password :: "string option"
  sp_docker_registry :: "string option"

definition or_old :: "'a option \<Rightarrow> 'a \<Rightarrow> 'a" where
  "or_old new old = (case new of None \<Rightarrow> old | Some v \<Rightarrow> v)"

definition patch_stack :: "stack_patch \<Rightarrow> string \<Rightarrow> stack \<Rightarrow> stack" where
  "patch_stack p hostID st = st\<lparr>
     st_name := or_old (sp_name p) (st_name st),
     RepoURL := or_old (sp_repo_url p) (RepoURL st),
     RepoUsername := or_old (sp_repo_username p) (RepoUsername st),
     RepoToken := or_old (sp_repo_token p) (RepoToken st),
     RepoBranch := or_old (sp_repo_branch p) (RepoBranch st),
     ComposePath := or_old (sp_compose_path p) (ComposePath st),
     ServiceFilter := or_old (sp_service_filter p) (ServiceFilter st),
     AutoDeploy := or_old (sp_auto_deploy p) (AutoDeploy st),
     ReconcileInterval := or_old (sp_interval p) (ReconcileInterval st),
     RequiresApproval := or_old (sp_requires_approval p) (RequiresApproval st),
     HostID := hostID,
     st_status := or_old (sp_status p) (st_status st),
     DockerUsername := or_old (sp_docker_username p) (DockerUsername st),
     DockerPassword := or_old (sp_docker_password p) (DockerPassword st),
     DockerRegistry := or_old (sp_docker_registry p) (DockerRegistry st)\<rparr>"

definition patch_host :: "handler \<Rightarrow> stack_patch \<Rightarrow> stack \<Rightarrow> (response + string) act" where
  "patch_host H p st = (case sp_host p of None \<Rightarrow> State_Monad.return (Inr (HostID st)) | Some token \<Rightarrow> resolveHostID H token)"

text \<open>UpdateStack sets the time of the update in the struct that is answered.\<close>

definition h_save_stack :: "handler \<Rightarrow> stack \<Rightarrow> (unit res \<times> stack) act" where
  "h_save_stack H st = do {
     t \<leftarrow> now (h_env H);
     n1 \<leftarrow> h_nonce H;
     n2 \<leftarrow> h_nonce H;
     u \<leftarrow> h_write H ''UpdateStack'' (UpdateStack t n1 n2 st);
     State_Monad.return (u, st\<lparr>st_updated := t\<rparr>) }"

definition save_patch :: "handler \<Rightarrow> request \<Rightarrow> stack \<Rightarrow> loops \<Rightarrow> (answer \<times> loops) act" where
  "save_patch H r st loops = do {
     (u, st') \<leftarrow> h_save_stack H st;
     case u of
       Inl _ \<Rightarrow> with_loops loops (writeError ''failed to update stack'' 500)
     | Inr _ \<Rightarrow> stack_done H r AuditOpStackUpdate st' (writeJSON (stack_json st') 200) loops }"

definition UpdateStack_handler :: "handler \<Rightarrow> request \<Rightarrow> stack_patch res \<Rightarrow> loops \<Rightarrow> (answer \<times> loops) act" where
  "UpdateStack_handler H r body loops = do {
     g \<leftarrow> resolveStack_handler H r;
     case g of
       Inl resp \<Rightarrow> with_loops loops resp
     | Inr st \<Rightarrow>
         (case body of
            Inl e \<Rightarrow> with_loops loops (writeError (err_msg e) 400)
          | Inr p \<Rightarrow> do {
              h \<leftarrow> patch_host H p st;
              case h of
                Inl resp \<Rightarrow> with_loops loops resp
              | Inr hostID \<Rightarrow> save_patch H r (patch_stack p hostID st) loops }) }"

definition cleanup_data :: "handler \<Rightarrow> string \<Rightarrow> unit act" where
  "cleanup_data H i =
     (case CleanupStackData (d_stacks_dir (h_deployer H)) i of
        None \<Rightarrow> State_Monad.return ()
      | Some dir \<Rightarrow> do { _ \<leftarrow> RemoveAll (h_env H) dir; State_Monad.return () })"

definition DeleteStack_handler :: "handler \<Rightarrow> request \<Rightarrow> loops \<Rightarrow> (answer \<times> loops) act" where
  "DeleteStack_handler H r loops0 = do {
     g \<leftarrow> resolveStack_handler H r;
     case g of
       Inl resp \<Rightarrow> with_loops loops0 resp
     | Inr st \<Rightarrow> do {
         d \<leftarrow> h_write H ''DeleteStack'' (DeleteStack (st_id st));
         case d of
           Inl _ \<Rightarrow> with_loops loops0 (writeError ''failed to delete stack'' 500)
         | Inr _ \<Rightarrow> do {
             loops \<leftarrow> refresh H (st_id st) loops0;
             _ \<leftarrow> cleanup_data H (st_id st);
             _ \<leftarrow> record_entry H (stack_audit r AuditOpStackDelete ''stack'' (st_id st) st);
             with_loops loops (writeJSON (strings_json [(''status'', ''deleted'')]) 200) } } }"

section \<open>Deployments\<close>

definition accepted :: "(string \<times> string) list \<Rightarrow> job \<Rightarrow> answer act" where
  "accepted info j = State_Monad.return (writeJSON (strings_json ((''status'', ''accepted'') # info)) 202, [j])"

text \<open>A deployment by hand or by webhook: the entry that it starts, unless the stack is held for approval, and the job.\<close>

definition start_deploy :: "handler \<Rightarrow> request \<Rightarrow> stack \<Rightarrow> string \<Rightarrow> string \<Rightarrow> answer act" where
  "start_deploy H r st trigger msg = do {
     _ \<leftarrow> (if \<not> RequiresApproval st
          then record_entry H ((stack_audit r AuditOpDeployStart ''stack'' (st_id st) st)
                 \<lparr>ae_outcome := AuditOutcomeInProgress, ae_metadata := [(''trigger'', trigger)]\<rparr>)
          else State_Monad.return ());
     accepted [(''stack_id'', st_id st), (''message'', msg)] (DeployJob st trigger) }"

definition DeployStack_handler :: "handler \<Rightarrow> request \<Rightarrow> answer act" where
  "DeployStack_handler H r = or_answer (lookup_stack H r) (\<lambda>st.
     if st_status st = StackStatusDeploying then respond_error ''deployment already in progress'' 409
     else start_deploy H r st TriggerManual ''Deployment started. Check deployments for progress.'')"

definition pendingApprovalFor :: "handler \<Rightarrow> stack \<Rightarrow> string \<Rightarrow> (response + deployment) act" where
  "pendingApprovalFor H st deployID = do {
     r \<leftarrow> h_store H ''GetDeployment'' (\<lambda>d. Inr (GetDeployment deployID d));
     State_Monad.return (case r of
         Inr (Some p) \<Rightarrow>
           if dp_stack p \<noteq> st_id st then Inl (writeError ''deployment not found'' 404)
           else if dp_status p \<noteq> DeploymentPendingApproval
           then Inl (writeError (''deployment is not pending approval (status='' @ dp_status p @ '')'') 409)
           else Inr p
       | _ \<Rightarrow> Inl (writeError ''deployment not found'' 404)) }"

definition ApproveDeployment_handler :: "handler \<Rightarrow> request \<Rightarrow> answer act" where
  "ApproveDeployment_handler H r = or_answer (resolveStack_handler H r) (\<lambda>st.
     let deployID = rq_vars r ''deployId'' in
     or_answer (pendingApprovalFor H st deployID) (\<lambda>p. do {
       _ \<leftarrow> record_entry H ((stack_audit r AuditOpApprovalGranted ''deployment'' (dp_id p) st)
              \<lparr>ae_outcome := AuditOutcomeSuccess, ae_metadata := [(''trigger'', dp_trigger p)]\<rparr>);
       accepted [(''deployment_id'', deployID), (''message'', ''Deployment approved; rollout started.'')] (ApproveJob deployID) }))"

text \<open>The reason is the optional body; a body that does not decode counts as none.\<close>

definition RejectDeployment_handler :: "handler \<Rightarrow> request \<Rightarrow> string res \<Rightarrow> answer act" where
  "RejectDeployment_handler H r body = or_answer (resolveStack_handler H r) (\<lambda>st.
     let deployID = rq_vars r ''deployId''; reason = (case body of Inl _ \<Rightarrow> [] | Inr s \<Rightarrow> s) in
     or_answer (pendingApprovalFor H st deployID) (\<lambda>_. do {
       x \<leftarrow> RejectDeployment (h_deployer H) deployID reason;
       case x of
         Inl e \<Rightarrow> respond_error (err_msg e) 409
       | Inr p \<Rightarrow> do {
           _ \<leftarrow> record_entry H ((stack_audit r AuditOpApprovalRejected ''deployment'' deployID st)
                  \<lparr>ae_outcome := AuditOutcomeSuccess, ae_metadata := (if reason \<noteq> [] then [(''reason'', reason)] else [])\<rparr>);
           respond (writeJSON (deployment_json p) 200) } }))"

definition ListApprovals_handler :: "handler \<Rightarrow> answer act" where
  "ListApprovals_handler H = do {
     x \<leftarrow> h_store H ''ListPendingApprovals'' (\<lambda>d. Inr (ListPendingApprovals d));
     case x of
       Inl e \<Rightarrow> respond_error (err_msg e) 500
     | Inr ps \<Rightarrow> respond (writeJSON (JList (List.map deployment_json ps)) 200) }"

definition ListDeployments_handler :: "handler \<Rightarrow> request \<Rightarrow> answer act" where
  "ListDeployments_handler H r = or_answer (lookup_stack H r) (\<lambda>st.
     or_error ''failed to list deployments'' 500 (h_store H ''ListDeployments'' (\<lambda>d. Inr (ListDeployments (st_id st) 50 d)))
       (\<lambda>ps. respond (writeJSON (JList (List.map deployment_json ps)) 200)))"

section \<open>Drift and preview\<close>

definition with_drift :: "handler \<Rightarrow> request \<Rightarrow> string \<Rightarrow> (drift_report \<Rightarrow> json) \<Rightarrow> answer act" where
  "with_drift H r what view = or_answer (lookup_stack H r) (\<lambda>st.
     case h_reconciler H of
       None \<Rightarrow> respond_error ''reconciler not available'' 503
     | Some R \<Rightarrow> do {
         x \<leftarrow> checkDrift R st;
         case x of
           Inl e \<Rightarrow> respond_error (what @ '' failed: '' @ err_msg e) 500
         | Inr rep \<Rightarrow> respond (writeJSON (view rep) 200) })"

definition CheckDrift_handler :: "handler \<Rightarrow> request \<Rightarrow> answer act" where
  "CheckDrift_handler H r = with_drift H r ''drift check'' drift_report_json"

record preview_action =
  pa_service :: string
  pa_action :: string
  pa_reason :: string
  pa_expected :: string
  pa_actual :: string

record preview_report =
  pr_stack :: string
  pr_stack_name :: string
  pr_checked :: gotime
  HasChanges :: bool
  Actions :: "preview_action list"

definition driftToAction :: "drift_item \<Rightarrow> preview_action" where
  "driftToAction d =
     \<lparr>pa_service = di_service d,
      pa_action = (let ty = di_type d in
        if ty = ''missing'' then ''create''
        else if ty = ''image_mismatch'' then ''recreate''
        else if ty = ''stopped'' \<or> ty = ''unhealthy'' then ''restart''
        else if ty = ''extra'' then ''remove''
        else if ty = ''missing_external'' then ''error''
        else if ty = ''secrets_changed'' then ''recreate''
        else ''inspect''),
      pa_reason = di_message d, pa_expected = di_expected d, pa_actual = di_actual d\<rparr>"

definition preview_of :: "drift_report \<Rightarrow> preview_report" where
  "preview_of rep = \<lparr>pr_stack = dr_stack rep, pr_stack_name = dr_stack_name rep, pr_checked = dr_checked rep,
     HasChanges = HasDrift rep, Actions = List.map driftToAction (Drifts rep)\<rparr>"

definition preview_json :: "preview_report \<Rightarrow> json" where
  "preview_json p = JObject [(''stack_id'', JStr (pr_stack p)), (''stack_name'', JStr (pr_stack_name p)),
     (''checked_at'', JTime (pr_checked p)), (''has_changes'', JBool (HasChanges p)),
     (''actions'', JList (List.map (\<lambda>a. JObject ([(''service_name'', JStr (pa_service a)), (''action'', JStr (pa_action a))]
        @ omit_str ''reason'' (pa_reason a) @ omit_str ''expected'' (pa_expected a) @ omit_str ''actual'' (pa_actual a)))
        (Actions p)))]"

definition PreviewDeploy_handler :: "handler \<Rightarrow> request \<Rightarrow> answer act" where
  "PreviewDeploy_handler H r = with_drift H r ''preview'' (\<lambda>rep. preview_json (preview_of rep))"

section \<open>The webhook\<close>

text \<open>The body as the reader gives it: None when it is over the limit or cannot be read; the name in it is read by the JSON
  decoder, an argument that gives no name for a body it refuses.\<close>

definition webhook_stack :: "handler \<Rightarrow> string \<Rightarrow> stack option act" where
  "webhook_stack H name =
     (if name = [] then State_Monad.return None
      else do {
        s \<leftarrow> stack_by_name H name;
        case s of
          Some st \<Rightarrow> State_Monad.return (Some st)
        | None \<Rightarrow> do {
            g \<leftarrow> h_store H ''GetStack'' (GetStack name);
            State_Monad.return (case g of Inr x \<Rightarrow> x | Inl _ \<Rightarrow> None) } })"

definition default_stack :: "handler \<Rightarrow> stack option act" where
  "default_stack H = do {
     s \<leftarrow> stack_by_name H ''default'';
     case s of
       Some st \<Rightarrow> State_Monad.return (Some st)
     | None \<Rightarrow> do {
         l \<leftarrow> h_store H ''ListStacks'' ListStacks;
         State_Monad.return (case l of Inr (st # _) \<Rightarrow> Some st | _ \<Rightarrow> None) } }"

definition LegacyWebhook_handler :: "handler \<Rightarrow> request \<Rightarrow> string \<Rightarrow> (string \<Rightarrow> string) \<Rightarrow> string option \<Rightarrow> answer act" where
  "LegacyWebhook_handler H r contentType stack_field body =
     (if contentType \<noteq> ''application/json'' then respond_error ''Content-Type must be application/json'' 415
      else case body of
        None \<Rightarrow> respond_error ''invalid or empty request body'' 400
      | Some data \<Rightarrow>
          if data = [] then respond_error ''invalid or empty request body'' 400
          else do {
            s1 \<leftarrow> webhook_stack H (stack_field data);
            s \<leftarrow> (case s1 of Some st \<Rightarrow> State_Monad.return (Some st) | None \<Rightarrow> default_stack H);
            case s of
              None \<Rightarrow> respond_error ''no stacks configured'' 404
            | Some st \<Rightarrow> start_deploy H r st TriggerWebhook ''Deployment queued.'' })"

end
