(* ===== verification/Admin_Api.thy ===== *)
theory Admin_Api
  imports Stacks_Api
begin

text \<open>
  The handlers of internal/handler/handler.go that are about the server and not one stack: the re-encryption of old rows,
  the audit log, the probes and the status page; and those of secrets and registry credentials, whose answers never
  hold a value or a password.
\<close>

section \<open>Re-encryption\<close>

definition AuditOpAdminEncrypt :: string where "AuditOpAdminEncrypt = ''admin.encrypt-existing''"

text \<open>One row of the migration: whether it was saved again.\<close>

definition migrate_one :: "handler \<Rightarrow> string \<Rightarrow> bool act" where
  "migrate_one H i = do {
     g \<leftarrow> h_store H ''GetStack'' (GetStack i);
     case g of
       Inr (Some st) \<Rightarrow> do {
         (u, _) \<leftarrow> h_save_stack H st;
         State_Monad.return (case u of Inl _ \<Rightarrow> False | Inr _ \<Rightarrow> True) }
     | _ \<Rightarrow> State_Monad.return False }"

fun migrate_all :: "handler \<Rightarrow> string list \<Rightarrow> nat \<Rightarrow> string list \<Rightarrow> (nat \<times> string list) act" where
  "migrate_all H [] migrated failed = State_Monad.return (migrated, failed)"
| "migrate_all H (i # ids) migrated failed = do {
     b \<leftarrow> migrate_one H i;
     if b then migrate_all H ids (migrated + 1) failed else migrate_all H ids migrated (failed @ [i]) }"

definition EncryptExistingStacks_handler :: "handler \<Rightarrow> request \<Rightarrow> answer act" where
  "EncryptExistingStacks_handler H r =
     (if \<not> h_encryption H
      then respond_error ''encryption is disabled on this server (set ACCELERO_ENCRYPTION_KEY to enable)'' 400
      else or_error ''failed to list stacks needing migration'' 500
        (h_store H ''ListStacksNeedingEncryption'' (\<lambda>d. Inr (ListStacksNeedingEncryption d))) (\<lambda>ids. do {
          (migrated, failed) \<leftarrow> migrate_all H ids 0 [];
          let e = (FromRequest (rq_origin r) AuditOpAdminEncrypt)
                 \<lparr>ae_resource_type := ''admin'',
                  ae_metadata := [(''stacks_migrated'', dec_nat migrated), (''stacks_failed'', dec_nat (length failed))]\<rparr> in do {
          _ \<leftarrow> record_entry H (if failed \<noteq> [] then e\<lparr>ae_outcome := AuditOutcomeFailure\<rparr> else e);
          respond (writeJSON (JObject ([(''status'', JStr ''ok''), (''stacks_migrated'', JInt (int migrated))]
            @ (if failed \<noteq> [] then [(''stacks_failed'', JList (List.map JStr failed))] else []))) 200) } }))"

section \<open>The audit log\<close>

text \<open>The filter of a query, or the answer to a bad one. A stack is an id or a name, and the name of a stack that is gone
  still matches its entries.\<close>

definition audit_stack :: "handler \<Rightarrow> string \<Rightarrow> audit_filter \<Rightarrow> audit_filter act" where
  "audit_stack H raw f =
     (if raw = [] then State_Monad.return f
      else do {
        g \<leftarrow> h_store H ''GetStack'' (GetStack raw);
        case g of
          Inr (Some st) \<Rightarrow> State_Monad.return (f\<lparr>af_stack := st_id st\<rparr>)
        | _ \<Rightarrow> do {
            s \<leftarrow> stack_by_name H raw;
            State_Monad.return (case s of Some st \<Rightarrow> f\<lparr>af_stack := st_id st\<rparr> | None \<Rightarrow> f\<lparr>af_stack_name := raw\<rparr>) } })"

definition audit_since :: "handler \<Rightarrow> string \<Rightarrow> audit_filter \<Rightarrow> (response + audit_filter) act" where
  "audit_since H raw f =
     (if raw = [] then State_Monad.return (Inr f)
      else case h_duration H raw of
        Inl _ \<Rightarrow> State_Monad.return (Inl (writeError ''since must be a Go duration (e.g. 24h, 5m)'' 400))
      | Inr dur \<Rightarrow> do { t \<leftarrow> now (h_env H); State_Monad.return (Inr (f\<lparr>af_since := t - dur\<rparr>)) })"

definition audit_limit_param :: "string \<Rightarrow> audit_filter \<Rightarrow> response + audit_filter" where
  "audit_limit_param raw f =
     (if raw = [] then Inr f
      else case atoi raw of
        None \<Rightarrow> Inl (writeError ''limit must be a non-negative integer'' 400)
      | Some n \<Rightarrow> if n < 0 then Inl (writeError ''limit must be a non-negative integer'' 400) else Inr (f\<lparr>af_limit := n\<rparr>))"

definition ListAuditEntries_handler :: "handler \<Rightarrow> request \<Rightarrow> answer act" where
  "ListAuditEntries_handler H r = do {
     f1 \<leftarrow> audit_stack H (Query r ''stack'')
            \<lparr>af_stack = [], af_stack_name = [], af_actor = Query r ''actor'', af_operation = Query r ''operation'',
             af_since = 0, af_limit = 0\<rparr>;
     or_answer (audit_since H (Query r ''since'') f1) (\<lambda>f2.
     or_answer (State_Monad.return (audit_limit_param (Query r ''limit'') f2)) (\<lambda>f3.
     or_error ''failed to list audit entries'' 500 (h_store H ''ListAuditEntries'' (\<lambda>d. Inr (ListAuditEntries f3 d)))
       (\<lambda>es. respond (writeJSON (JList (List.map audit_json es)) 200)))) }"

section \<open>Probes and status\<close>

definition Health_handler :: "answer act" where
  "Health_handler = respond (writeJSON (strings_json [(''status'', ''ok'')]) 200)"

text \<open>One check of the readiness probe: its line, and whether it passed.\<close>

definition check_line :: "string \<Rightarrow> unit res \<Rightarrow> (string \<times> string) \<times> bool" where
  "check_line name r = (case r of Inl e \<Rightarrow> ((name, ''unreachable: '' @ err_msg e), False) | Inr _ \<Rightarrow> ((name, ''ok''), True))"

definition ready_response :: "((string \<times> string) \<times> bool) list \<Rightarrow> response" where
  "ready_response checks =
     (let ok = list_all snd checks in
      writeJSON (JObject [(''status'', JStr (if ok then ''ok'' else ''not_ready'')), (''checks'', strings_json (List.map fst checks))])
        (if ok then 200 else 503))"

definition Readyz_handler :: "handler \<Rightarrow> answer act" where
  "Readyz_handler H = do {
     db \<leftarrow> emit (h_store_ping H) (\<lambda>r. ECall ''Ping'' [''database''] (res_err r));
     dk \<leftarrow> (case h_docker_ping H of
             None \<Rightarrow> State_Monad.return []
           | Some ping \<Rightarrow> do {
               r \<leftarrow> emit ping (\<lambda>r. ECall ''Ping'' [''docker''] (res_err r));
               State_Monad.return [check_line ''docker'' r] });
     respond (ready_response
       ([if h_shutting_down H then ((''shutdown'', ''draining''), False) else ((''shutdown'', ''ok''), True),
         check_line ''database'' db] @ dk)) }"

definition status_summary :: "stack \<Rightarrow> json" where
  "status_summary st = JObject ([(''id'', JStr (st_id st)), (''name'', JStr (st_name st)), (''status'', JStr (st_status st))]
     @ omit_time ''last_deployed_at'' (LastDeployedAt st) @ omit_str ''git_commit'' (GitCommit st))"

definition Status_handler :: "handler \<Rightarrow> answer act" where
  "Status_handler H = do {
     x \<leftarrow> h_store H ''ListStacks'' ListStacks;
     let stacks = (case x of Inl _ \<Rightarrow> [] | Inr ss \<Rightarrow> ss) in
     respond (writeJSON (JObject [(''stacks'', JList (List.map status_summary stacks)), (''total'', JInt (int (length stacks)))]) 200) }"

section \<open>Secrets\<close>

definition AuditOpStackSecretSet :: string where "AuditOpStackSecretSet = ''stack.secret.set''"
definition AuditOpStackSecretDelete :: string where "AuditOpStackSecretDelete = ''stack.secret.delete''"
definition AuditOpStackRegistrySet :: string where "AuditOpStackRegistrySet = ''stack.registry.set''"
definition AuditOpStackRegistryDelete :: string where "AuditOpStackRegistryDelete = ''stack.registry.delete''"

definition maxSecretNameLen :: nat where "maxSecretNameLen = 128"
definition maxSecretValueLen :: nat where "maxSecretValueLen = 64 * 1024"

text \<open>The regular expression of a secret's name.\<close>

definition upper_or_underscore :: "char \<Rightarrow> bool" where
  "upper_or_underscore c \<longleftrightarrow> (CHR ''A'' \<le> c \<and> c \<le> CHR ''Z'') \<or> c = CHR ''_''"

definition secretNameRe :: "string \<Rightarrow> bool" where
  "secretNameRe s =
     (case s of [] \<Rightarrow> False
      | c # cs \<Rightarrow> upper_or_underscore c \<and> list_all (\<lambda>c. upper_or_underscore c \<or> is_digit_char c) cs)"

text \<open>The answer to a bad name or value, if it is one.\<close>

definition bad_secret :: "string \<Rightarrow> string \<Rightarrow> response option" where
  "bad_secret name v =
     (if name = [] then Some (writeError ''name is required'' 400)
      else if length name > maxSecretNameLen then Some (writeError (''name exceeds '' @ dec_nat maxSecretNameLen @ '' characters'') 400)
      else if \<not> secretNameRe name
      then Some (writeError ''name must match [A-Z_][A-Z0-9_]* (uppercase letters, digits, underscores; no leading digit)'' 400)
      else if v = [] then Some (writeError ''value must not be empty; use DELETE to remove a secret'' 400)
      else if length v > maxSecretValueLen then Some (writeError (''value exceeds '' @ dec_nat maxSecretValueLen @ '' bytes'') 413)
      else None)"

definition bool_str :: "bool \<Rightarrow> string" where "bool_str b = (if b then ''true'' else ''false'')"

definition new_secret :: "string \<Rightarrow> string \<Rightarrow> string \<Rightarrow> stack_secret" where
  "new_secret stackID name v = \<lparr>sec_stack = stackID, sec_name = name, sec_value = v, sec_created = 0, sec_updated = 0\<rparr>"

definition store_secret :: "handler \<Rightarrow> request \<Rightarrow> stack \<Rightarrow> string \<Rightarrow> string \<Rightarrow> bool \<Rightarrow> answer act" where
  "store_secret H r st name v wasPresent = do {
     t \<leftarrow> now (h_env H);
     n \<leftarrow> h_nonce H;
     or_error ''failed to store stack secret'' 500
       (h_write H ''UpsertStackSecret'' (UpsertStackSecret t n (new_secret (st_id st) name v))) (\<lambda>_. do {
         _ \<leftarrow> record_entry H ((stack_audit r AuditOpStackSecretSet ''stack_secret'' name st)
                \<lparr>ae_metadata := [(''rewrote_existing'', bool_str wasPresent)]\<rparr>);
         respond (writeJSON (JObject [(''name'', JStr name), (''created'', JBool (\<not> wasPresent))]) (if wasPresent then 200 else 201)) }) }"

definition SetStackSecret_handler :: "handler \<Rightarrow> request \<Rightarrow> (string \<times> string) res \<Rightarrow> answer act" where
  "SetStackSecret_handler H r body = or_answer (resolveStack_handler H r) (\<lambda>st.
     case body of
       Inl _ \<Rightarrow> respond_error ''invalid JSON body'' 400
     | Inr (name, v) \<Rightarrow>
         (case bad_secret name v of
            Some resp \<Rightarrow> respond resp
          | None \<Rightarrow> or_error ''failed to read stack secrets'' 500 (h_store H ''ListStackSecrets'' (ListStackSecrets (st_id st)))
              (\<lambda>existing. store_secret H r st name v (list_ex (\<lambda>s. sec_name s = name) existing))))"

definition secret_item :: "stack_secret \<Rightarrow> json" where
  "secret_item s = JObject [(''name'', JStr (sec_name s)), (''stack_id'', JStr (sec_stack s)),
     (''created_at'', JTime (sec_created s)), (''updated_at'', JTime (sec_updated s))]"

definition ListStackSecrets_handler :: "handler \<Rightarrow> request \<Rightarrow> answer act" where
  "ListStackSecrets_handler H r = or_answer (resolveStack_handler H r) (\<lambda>st.
     or_error ''failed to list stack secrets'' 500 (h_store H ''ListStackSecrets'' (ListStackSecrets (st_id st)))
       (\<lambda>secs. respond (writeJSON (JList (List.map secret_item secs)) 200)))"

text \<open>The end both deletions share: the entry, with its outcome, and 204 or 404.\<close>

definition h_delete :: "handler \<Rightarrow> string \<Rightarrow> (db \<Rightarrow> bool \<times> db) \<Rightarrow> bool res act" where
  "h_delete H op f = store_call (h_env H) op (\<lambda>d. case f d of (b, d') \<Rightarrow> (Inr b, d'))"

definition deleted_answer :: "handler \<Rightarrow> audit_entry \<Rightarrow> string \<Rightarrow> bool \<Rightarrow> answer act" where
  "deleted_answer H e msg removed = do {
     _ \<leftarrow> record_entry H (if \<not> removed then e\<lparr>ae_outcome := AuditOutcomeFailure, ae_error := ''not found''\<rparr> else e);
     if \<not> removed then respond_error msg 404 else respond no_content }"

definition DeleteStackSecret_handler :: "handler \<Rightarrow> request \<Rightarrow> answer act" where
  "DeleteStackSecret_handler H r = or_answer (resolveStack_handler H r) (\<lambda>st.
     let name = rq_vars r ''name'' in
     if name = [] then respond_error ''name is required'' 400
     else or_error ''failed to delete stack secret'' 500 (h_delete H ''DeleteStackSecret'' (DeleteStackSecret (st_id st) name))
       (deleted_answer H (stack_audit r AuditOpStackSecretDelete ''stack_secret'' name st) ''secret not found''))"

section \<open>Registry credentials\<close>

definition maxRegistryServerLen :: nat where "maxRegistryServerLen = 253"

definition bad_registry :: "string \<Rightarrow> string \<Rightarrow> string \<Rightarrow> response option" where
  "bad_registry server username password =
     (if server = [] then Some (writeError ''server is required'' 400)
      else if length server > maxRegistryServerLen
      then Some (writeError (''server exceeds '' @ dec_nat maxRegistryServerLen @ '' characters'') 400)
      else if has_prefix server ''http://'' \<or> has_prefix server ''https://''
      then Some (writeError ''server must be a bare host[:port], not a URL (drop the http(s):// prefix)'' 400)
      else if CHR '' '' \<in> set server \<or> CHR ''/'' \<in> set server
      then Some (writeError ''server must be a bare host[:port] (no spaces, no slashes)'' 400)
      else if username = [] then Some (writeError ''username is required (use DELETE to remove a credential)'' 400)
      else if password = [] then Some (writeError ''password is required'' 400)
      else None)"

definition new_registry :: "string \<Rightarrow> string \<Rightarrow> string \<Rightarrow> string \<Rightarrow> stack_registry" where
  "new_registry stackID server username password =
     \<lparr>reg_stack = stackID, reg_server = server, reg_username = username, reg_password = password, reg_created = 0, reg_updated = 0\<rparr>"

definition store_registry :: "handler \<Rightarrow> request \<Rightarrow> stack \<Rightarrow> string \<Rightarrow> string \<Rightarrow> string \<Rightarrow> bool \<Rightarrow> answer act" where
  "store_registry H r st server username password wasPresent = do {
     t \<leftarrow> now (h_env H);
     n \<leftarrow> h_nonce H;
     or_error ''failed to store stack registry'' 500
       (h_write H ''UpsertStackRegistry'' (UpsertStackRegistry t n (new_registry (st_id st) server username password))) (\<lambda>_. do {
         _ \<leftarrow> record_entry H ((stack_audit r AuditOpStackRegistrySet ''stack_registry'' server st)
                \<lparr>ae_metadata := [(''rewrote_existing'', bool_str wasPresent), (''username'', username)]\<rparr>);
         respond (writeJSON (JObject [(''server'', JStr server), (''username'', JStr username), (''created'', JBool (\<not> wasPresent))])
           (if wasPresent then 200 else 201)) }) }"

definition SetStackRegistry_handler :: "handler \<Rightarrow> request \<Rightarrow> (string \<times> string \<times> string) res \<Rightarrow> answer act" where
  "SetStackRegistry_handler H r body = or_answer (resolveStack_handler H r) (\<lambda>st.
     case body of
       Inl _ \<Rightarrow> respond_error ''invalid JSON body'' 400
     | Inr (server0, username, password) \<Rightarrow>
         (let server = trim_space server0 in
          case bad_registry server username password of
            Some resp \<Rightarrow> respond resp
          | None \<Rightarrow> or_error ''failed to read stack registries'' 500
              (h_store H ''ListStackRegistries'' (ListStackRegistries (st_id st)))
              (\<lambda>existing. store_registry H r st server username password (list_ex (\<lambda>e. reg_server e = server) existing))))"

definition registry_item :: "stack_registry \<Rightarrow> json" where
  "registry_item e = JObject [(''server'', JStr (reg_server e)), (''username'', JStr (reg_username e)),
     (''stack_id'', JStr (reg_stack e)), (''created_at'', JTime (reg_created e)), (''updated_at'', JTime (reg_updated e))]"

definition ListStackRegistries_handler :: "handler \<Rightarrow> request \<Rightarrow> answer act" where
  "ListStackRegistries_handler H r = or_answer (resolveStack_handler H r) (\<lambda>st.
     or_error ''failed to list stack registries'' 500 (h_store H ''ListStackRegistries'' (ListStackRegistries (st_id st)))
       (\<lambda>regs. respond (writeJSON (JList (List.map registry_item regs)) 200)))"

definition DeleteStackRegistry_handler :: "handler \<Rightarrow> request \<Rightarrow> answer act" where
  "DeleteStackRegistry_handler H r = or_answer (resolveStack_handler H r) (\<lambda>st.
     let server = rq_vars r ''server'' in
     if server = [] then respond_error ''server is required'' 400
     else or_error ''failed to delete stack registry'' 500
       (h_delete H ''DeleteStackRegistry'' (DeleteStackRegistry (st_id st) server))
       (deleted_answer H (stack_audit r AuditOpStackRegistryDelete ''stack_registry'' server st) ''registry not found''))"

end
