(* ===== verification/Hosts_Api.thy ===== *)
theory Hosts_Api
  imports Admin_Api
begin

text \<open>
  Docker hosts: the handlers of internal/handler/hosts.go, which client they pick for a stack or a volume, and the
  manager of internal/dockerhost/manager.go that builds and keeps one client per host. Building a client and parsing
  certificates are the libraries' and arguments here.
\<close>

section \<open>Registering hosts\<close>

definition AuditOpHostCreate :: string where "AuditOpHostCreate = ''host.create''"
definition AuditOpHostDelete :: string where "AuditOpHostDelete = ''host.delete''"

record host_input =
  hi_name :: string
  hi_endpoint :: string
  hi_ca :: string
  hi_cert :: string
  hi_key :: string

definition toHostResponse :: "docker_host \<Rightarrow> json" where
  "toHostResponse h = JObject [(''id'', JStr (dh_id h)), (''name'', JStr (dh_name h)), (''endpoint'', JStr (dh_endpoint h)),
     (''tls_enabled'', JBool (TLSEnabled h)), (''created_at'', JTime (dh_created h)), (''updated_at'', JTime (dh_updated h))]"

definition tls_count :: "host_input \<Rightarrow> nat" where
  "tls_count input = length (filter (\<lambda>v. trim_space v \<noteq> []) [hi_ca input, hi_cert input, hi_key input])"

text \<open>The name and the endpoint of an input are trimmed first.\<close>

definition bad_host :: "host_input \<Rightarrow> response option" where
  "bad_host input =
     (if hi_name input = [] \<or> hi_endpoint input = [] then Some (writeError ''name and endpoint are required'' 400)
      else if \<not> has_prefix (hi_endpoint input) ''unix://'' \<and> \<not> has_prefix (hi_endpoint input) ''tcp://''
      then Some (writeError ''endpoint must start with unix:// or tcp://'' 400)
      else if tls_count input \<noteq> 0 \<and> tls_count input \<noteq> 3
      then Some (writeError ''tls_ca, tls_cert and tls_key must be provided together'' 400)
      else None)"

definition host_of :: "string \<Rightarrow> gotime \<Rightarrow> host_input \<Rightarrow> docker_host" where
  "host_of i t input = \<lparr>dh_id = i, dh_name = hi_name input, dh_endpoint = hi_endpoint input, dh_tls_ca = hi_ca input,
     dh_tls_cert = hi_cert input, dh_tls_key = hi_key input, dh_created = t, dh_updated = t\<rparr>"

definition host_audit :: "request \<Rightarrow> string \<Rightarrow> audit_entry" where
  "host_audit r op = (FromRequest (rq_origin r) op)\<lparr>ae_resource_type := ''host''\<rparr>"

definition insert_host :: "handler \<Rightarrow> request \<Rightarrow> host_input \<Rightarrow> answer act" where
  "insert_host H r input = do {
     g \<leftarrow> generateID (h_env H);
     case g of
       Inl _ \<Rightarrow> respond_error ''failed to generate ID'' 500
     | Inr i \<Rightarrow> do {
         t \<leftarrow> now (h_env H);
         n \<leftarrow> h_nonce H;
         let host = host_of i t input in
         or_error ''failed to create host'' 500 (h_write H ''CreateDockerHost'' (CreateDockerHost n host)) (\<lambda>_. do {
           _ \<leftarrow> record_entry H ((host_audit r AuditOpHostCreate)\<lparr>ae_resource := i,
                  ae_metadata := [(''name'', hi_name input), (''endpoint'', hi_endpoint input), (''tls'', bool_str (TLSEnabled host))]\<rparr>);
           respond (writeJSON (toHostResponse host) 201) }) } }"

text \<open>The host is probed before it is stored; the name must be free, an error of that lookup counting as free.\<close>

definition probe_host :: "handler \<Rightarrow> request \<Rightarrow> host_input \<Rightarrow> answer act" where
  "probe_host H r input = do {
     x \<leftarrow> h_store H ''GetDockerHostByName'' (GetDockerHostByName (hi_name input));
     case x of
       Inr (Some _) \<Rightarrow> respond_error ''a host with that name already exists'' 409
     | _ \<Rightarrow> do {
         p \<leftarrow> emit (\<lambda>l. h_probe H l (host_of [] 0 input)) (\<lambda>p. ECall ''PingHost'' [hi_endpoint input] (res_err p));
         case p of
           Inr _ \<Rightarrow> insert_host H r input
         | Inl e \<Rightarrow> do {
             _ \<leftarrow> record_entry H ((host_audit r AuditOpHostCreate)\<lparr>ae_outcome := AuditOutcomeFailure, ae_error := err_msg e,
                    ae_metadata := [(''name'', hi_name input), (''endpoint'', hi_endpoint input)]\<rparr>);
             respond_error (''host is not reachable: '' @ err_msg e) 400 } } }"

definition CreateDockerHost_handler :: "handler \<Rightarrow> request \<Rightarrow> host_input res \<Rightarrow> answer act" where
  "CreateDockerHost_handler H r body =
     (case body of
        Inl e \<Rightarrow> respond_error (err_msg e) 400
      | Inr raw \<Rightarrow>
          let input = raw\<lparr>hi_name := trim_space (hi_name raw), hi_endpoint := trim_space (hi_endpoint raw)\<rparr> in
          (case bad_host input of Some resp \<Rightarrow> respond resp | None \<Rightarrow> probe_host H r input))"

definition ListDockerHosts_handler :: "handler \<Rightarrow> answer act" where
  "ListDockerHosts_handler H = do {
     x \<leftarrow> h_store H ''ListDockerHosts'' ListDockerHosts;
     case x of
       Inl e \<Rightarrow> respond_error (err_msg e) 500
     | Inr hosts \<Rightarrow> respond (writeJSON (JList (List.map toHostResponse hosts)) 200) }"

definition delete_host :: "handler \<Rightarrow> request \<Rightarrow> string \<Rightarrow> answer act" where
  "delete_host H r i = do {
     x \<leftarrow> h_delete H ''DeleteDockerHost'' (DeleteDockerHost i);
     case x of
       Inl e \<Rightarrow> respond_error (err_msg e) 500
     | Inr removed \<Rightarrow> deleted_answer H ((host_audit r AuditOpHostDelete)\<lparr>ae_resource := i\<rparr>) ''host not found'' removed }"

definition DeleteDockerHost_handler :: "handler \<Rightarrow> request \<Rightarrow> answer act" where
  "DeleteDockerHost_handler H r =
     (let i = rq_vars r ''id'' in do {
        x \<leftarrow> h_store H ''CountStacksOnHost'' (\<lambda>d. Inr (CountStacksOnHost i d));
        case x of
          Inl e \<Rightarrow> respond_error (err_msg e) 500
        | Inr n \<Rightarrow>
            if n > 0 then respond_error (''host still targeted by '' @ dec_nat n @ '' stack(s); move them first'') 409
            else delete_host H r i })"

section \<open>Which client\<close>

definition DefaultHostName :: string where "DefaultHostName = ''default''"

definition dockerForStack :: "handler \<Rightarrow> stack \<Rightarrow> daemon \<Rightarrow> (response + daemon) act" where
  "dockerForStack H st docker =
     (if HostID st = [] then State_Monad.return (Inr docker)
      else case h_docker_for H of
        None \<Rightarrow> State_Monad.return (Inr docker)
      | Some clientFor \<Rightarrow> do {
          x \<leftarrow> emit (\<lambda>l. clientFor l (HostID st)) (\<lambda>x. EHost (HostID st) (res_err x));
          State_Monad.return (case x of
              Inl e \<Rightarrow> Inl (writeError (''stack'' @ [CHR 0x27] @ ''s docker host is unavailable: '' @ err_msg e) 502)
            | Inr dkr \<Rightarrow> Inr dkr) })"

definition hostClients :: "handler \<Rightarrow> daemon \<Rightarrow> host_client list res act" where
  "hostClients H docker =
     (case h_docker_hosts H of
        None \<Rightarrow> ok [\<lparr>hc_id = [], hc_name = DefaultHostName, hc_docker = docker\<rparr>]
      | Some hosts \<Rightarrow> emit hosts (\<lambda>x. ECall ''DockerHosts'' [] (res_err x)))"

record volume_host =
  vh_id :: string
  vh_name :: string
  vh_docker :: daemon
  vh_browse :: browser

definition volume_host_of :: "handler \<Rightarrow> (log \<Rightarrow> string \<Rightarrow> browser res) \<Rightarrow> (log \<Rightarrow> string \<Rightarrow> daemon res) \<Rightarrow> docker_host
    \<Rightarrow> (response + volume_host) act" where
  "volume_host_of H browserFor clientFor host = do {
     x \<leftarrow> emit (\<lambda>l. clientFor l (dh_id host)) (\<lambda>x. EHost (dh_id host) (res_err x));
     case x of
       Inl e \<Rightarrow> State_Monad.return (Inl (writeError (''docker host is unavailable: '' @ err_msg e) 502))
     | Inr dkr \<Rightarrow> do {
         b \<leftarrow> emit (\<lambda>l. browserFor l (dh_id host)) (\<lambda>x. EHost (dh_id host) (res_err x));
         State_Monad.return (case b of
             Inl e \<Rightarrow> Inl (writeError (''docker host is unavailable: '' @ err_msg e) 502)
           | Inr br \<Rightarrow> Inr \<lparr>vh_id = dh_id host, vh_name = dh_name host, vh_docker = dkr, vh_browse = br\<rparr>) } }"

definition resolveVolumeHost :: "handler \<Rightarrow> request \<Rightarrow> daemon \<Rightarrow> browser \<Rightarrow> (response + volume_host) act" where
  "resolveVolumeHost H r docker br =
     (let token = trim_space (Query r ''host'') in
      if token = [] \<or> token = DefaultHostName
      then State_Monad.return (Inr \<lparr>vh_id = [], vh_name = DefaultHostName, vh_docker = docker, vh_browse = br\<rparr>)
      else case (h_browser_for H, h_docker_for H) of
        (Some browserFor, Some clientFor) \<Rightarrow> do {
          h \<leftarrow> docker_host_by H token;
          case h of
            None \<Rightarrow> State_Monad.return (Inl (writeError (''unknown host: '' @ token) 400))
          | Some host \<Rightarrow> volume_host_of H browserFor clientFor host }
      | _ \<Rightarrow> State_Monad.return (Inl (writeError ''multi-host volume access is not configured on this server'' 503)))"

section \<open>The manager\<close>

text \<open>The libraries: the key pair and the certificate pool, and the client from the endpoint and a TLS configuration.\<close>

record 'c client_lib =
  X509KeyPair :: "string \<Rightarrow> string \<Rightarrow> gerr option"
  AppendCertsFromPEM :: "string \<Rightarrow> bool"
  new_docker :: "string \<Rightarrow> (string \<times> string \<times> string) option \<Rightarrow> 'c res"

definition tlsConfig :: "'c client_lib \<Rightarrow> docker_host \<Rightarrow> (string \<times> string \<times> string) res" where
  "tlsConfig L h =
     (if dh_tls_ca h = [] \<or> dh_tls_cert h = [] \<or> dh_tls_key h = []
      then Inl (ErrText (''host '' @ dh_name h @ '': tls_ca, tls_cert and tls_key must all be set together''))
      else case X509KeyPair L (dh_tls_cert h) (dh_tls_key h) of
        Some e \<Rightarrow> Inl (ErrWrap (''host '' @ dh_name h @ '': parse client certificate: '') e)
      | None \<Rightarrow>
          if \<not> AppendCertsFromPEM L (dh_tls_ca h)
          then Inl (ErrText (''host '' @ dh_name h @ '': tls_ca is not a valid PEM certificate''))
          else Inr (dh_tls_ca h, dh_tls_cert h, dh_tls_key h))"

definition newClient :: "'c client_lib \<Rightarrow> docker_host \<Rightarrow> 'c res" where
  "newClient L h =
     (let build = (\<lambda>tls. case new_docker L (dh_endpoint h) tls of
                     Inl e \<Rightarrow> Inl (ErrWrap (''create docker client for '' @ dh_endpoint h @ '': '') e) | Inr c \<Rightarrow> Inr c) in
      if dh_tls_ca h \<noteq> [] \<or> dh_tls_cert h \<noteq> [] \<or> dh_tls_key h \<noteq> []
      then case tlsConfig L h of Inl e \<Rightarrow> Inl e | Inr tls \<Rightarrow> build (Some tls)
      else build None)"

text \<open>The manager: the default client, the lookup of a host and the clients it has built.\<close>

record 'c host_manager =
  hm_def :: 'c
  hm_lookup :: "(string \<Rightarrow> docker_host option res) option"
  hm_by_host :: "string \<rightharpoonup> 'c"

definition NewManager :: "'c \<Rightarrow> (string \<Rightarrow> docker_host option res) option \<Rightarrow> 'c host_manager" where
  "NewManager def lookup = \<lparr>hm_def = def, hm_lookup = lookup, hm_by_host = Map.empty\<rparr>"

definition ClientFor :: "'c client_lib \<Rightarrow> string \<Rightarrow> 'c host_manager \<Rightarrow> 'c res \<times> 'c host_manager" where
  "ClientFor L hostID m =
     (case hm_lookup m of
        None \<Rightarrow> (Inr (hm_def m), m)
      | Some lookup \<Rightarrow>
          if hostID = [] then (Inr (hm_def m), m)
          else case hm_by_host m hostID of
            Some c \<Rightarrow> (Inr c, m)
          | None \<Rightarrow>
              (case lookup hostID of
                 Inl e \<Rightarrow> (Inl (ErrWrap (''look up docker host '' @ hostID @ '': '') e), m)
               | Inr None \<Rightarrow> (Inl (ErrText (''docker host '' @ hostID @ '' not found'')), m)
               | Inr (Some h) \<Rightarrow>
                   (case newClient L h of
                      Inl e \<Rightarrow> (Inl e, m)
                    | Inr c \<Rightarrow> (Inr c, m\<lparr>hm_by_host := (hm_by_host m)(hostID \<mapsto> c)\<rparr>))))"

text \<open>Ping builds a client, does not keep it, and asks it.\<close>

definition ping_host :: "'c client_lib \<Rightarrow> ('c \<Rightarrow> gerr option) \<Rightarrow> docker_host \<Rightarrow> unit res" where
  "ping_host L ping h =
     (case newClient L h of
        Inl e \<Rightarrow> Inl e
      | Inr c \<Rightarrow> (case ping c of Some e \<Rightarrow> Inl (ErrWrap (''ping '' @ dh_endpoint h @ '': '') e) | None \<Rightarrow> Inr ()))"

definition manager_close :: "'c host_manager \<Rightarrow> 'c host_manager" where
  "manager_close m = m\<lparr>hm_by_host := Map.empty\<rparr>"

text \<open>cmd/main.go: the default host first, then every registered host whose client can be built.\<close>

fun resolve_hosts :: "'c client_lib \<Rightarrow> docker_host list \<Rightarrow> 'c host_manager \<Rightarrow> (string \<times> string \<times> 'c) list \<times> 'c host_manager" where
  "resolve_hosts L [] m = ([], m)"
| "resolve_hosts L (h # hs) m =
     (case ClientFor L (dh_id h) m of
        (Inl _, m') \<Rightarrow> resolve_hosts L hs m'
      | (Inr c, m') \<Rightarrow> (case resolve_hosts L hs m' of (es, m'') \<Rightarrow> ((dh_id h, dh_name h, c) # es, m'')))"

definition allHostClients :: "'c client_lib \<Rightarrow> docker_host list res \<Rightarrow> 'c host_manager \<Rightarrow> (string \<times> string \<times> 'c) list \<times> 'c host_manager" where
  "allHostClients L hosts m =
     (let first = ([], DefaultHostName, hm_def m) in
      case hosts of
        Inl _ \<Rightarrow> ([first], m)
      | Inr hs \<Rightarrow> (case resolve_hosts L hs m of (es, m') \<Rightarrow> (first # es, m')))"

section \<open>One client per host\<close>

text \<open>A client once handed out for a host stays that host's client, whatever is asked in between.\<close>

lemma ClientFor_stays:
  "ClientFor L i m = (Inr c, m') \<Longrightarrow> fst (ClientFor L i (snd (ClientFor L j m'))) = Inr c"
  by (auto simp: ClientFor_def split: option.splits sum.splits if_splits)

text \<open>Partial TLS material is never dropped: a host with some of the three fields set has no client.\<close>

lemma partial_tls_no_client:
  "\<not> TLSEnabled h \<Longrightarrow> dh_tls_ca h \<noteq> [] \<or> dh_tls_cert h \<noteq> [] \<or> dh_tls_key h \<noteq> [] \<Longrightarrow> \<exists>e. newClient L h = Inl e"
  by (auto simp: newClient_def tlsConfig_def TLSEnabled_def Let_def)

end
