(* ===== verification/Introspection.thy ===== *)
theory Introspection
  imports Hosts_Api
begin

text \<open>
  The handlers that look into Docker: the containers of a stack, their logs, statistics, restart and exec, the images,
  volumes and networks of all hosts, and the files of a volume. The calls are events of the log; what a stream carries
  after its start is input and output, apart from the framing of log lines and the control frames of a session.
\<close>

definition maxLogTail :: int where "maxLogTail = 10000"
definition defaultLogTail :: int where "defaultLogTail = 100"

definition docker_call :: "string \<Rightarrow> string list \<Rightarrow> (log \<Rightarrow> 'a res) \<Rightarrow> 'a res act" where
  "docker_call op args f = emit f (\<lambda>x. ECall op args (res_err x))"

section \<open>A container of the stack\<close>

definition resolveStackContainer :: "daemon \<Rightarrow> string \<Rightarrow> string \<Rightarrow> (response + inspect_response) act" where
  "resolveStackContainer dkr stackName cid = do {
     x \<leftarrow> docker_call ''ContainerInspect'' [cid] (\<lambda>l. da_inspect dkr l cid);
     State_Monad.return (case x of
         Inl e \<Rightarrow> if docker_class_of e = Some NotFound then Inl (writeError ''container not found'' 404)
                  else Inl (writeError ''failed to inspect container'' 500)
       | Inr c \<Rightarrow> if \<not> containerBelongsToStack c stackName then Inl (writeError ''container not found'' 404) else Inr c) }"

text \<open>What these handlers begin with: the stack, a Docker client at all, and the client of the stack's host.\<close>

definition with_docker :: "handler \<Rightarrow> request \<Rightarrow> (stack \<Rightarrow> daemon \<Rightarrow> answer act) \<Rightarrow> answer act" where
  "with_docker H r f = or_answer (resolveStack_handler H r) (\<lambda>st.
     case h_docker H of
       None \<Rightarrow> respond_error ''container introspection is not configured on this server'' 503
     | Some docker \<Rightarrow> or_answer (dockerForStack H st docker) (f st))"

definition with_container :: "handler \<Rightarrow> request \<Rightarrow> (stack \<Rightarrow> daemon \<Rightarrow> inspect_response \<Rightarrow> answer act) \<Rightarrow> answer act" where
  "with_container H r f = with_docker H r (\<lambda>st dkr.
     or_answer (resolveStackContainer dkr (st_name st) (rq_vars r ''cid'')) (f st dkr))"

definition managed_filters :: docker_filters where
  "managed_filters = [(''label'', containerLabelManagedBy @ ''='' @ containerLabelManagedValue)]"

definition stack_filters :: "string \<Rightarrow> docker_filters" where
  "stack_filters stackName = managed_filters @ [(''label'', containerLabelStackName @ ''='' @ stackName)]"

text \<open>The filters of a call as its arguments in the log.\<close>

definition filter_args :: "docker_filters \<Rightarrow> string list" where
  "filter_args fs = List.map (\<lambda>(k, v). k @ '':'' @ v) fs"

definition ListStackContainers_handler :: "handler \<Rightarrow> request \<Rightarrow> answer act" where
  "ListStackContainers_handler H r = with_docker H r (\<lambda>st dkr.
     or_error ''failed to list containers'' 500
       (docker_call ''ContainerList'' (filter_args (stack_filters (st_name st))) (\<lambda>l. da_containers dkr l (stack_filters (st_name st)))) (\<lambda>cs.
         respond \<lparr>rs_status = 200, rs_body = BContainers (sort_views (List.map summaryFromDocker cs))\<rparr>))"

definition GetStackContainer_handler :: "handler \<Rightarrow> request \<Rightarrow> answer act" where
  "GetStackContainer_handler H r = with_container H r (\<lambda>st dkr c.
     respond \<lparr>rs_status = 200, rs_body = BContainer (detailFromInspect (h_rfc3339 H) c)\<rparr>)"

section \<open>Logs\<close>

definition log_tail :: "string \<Rightarrow> response + string" where
  "log_tail raw =
     (if raw = [] then Inr (dec_int defaultLogTail)
      else case atoi raw of
        None \<Rightarrow> Inl (writeError ''tail must be a non-negative integer'' 400)
      | Some n \<Rightarrow> if n < 0 then Inl (writeError ''tail must be a non-negative integer'' 400)
                  else Inr (dec_int (if n > maxLogTail then maxLogTail else n)))"

text \<open>time.Time.Unix: whole seconds since 1970.\<close>

definition unix_seconds :: "gotime \<Rightarrow> int" where
  "unix_seconds t = t div 1000000000 - 62135596800"

definition log_since :: "handler \<Rightarrow> string \<Rightarrow> (response + string) act" where
  "log_since H raw =
     (if raw = [] then State_Monad.return (Inr [])
      else case h_duration H raw of
        Inl _ \<Rightarrow> State_Monad.return (Inl (writeError ''since must be a Go duration (e.g. 5m, 30s)'' 400))
      | Inr dur \<Rightarrow> do { t \<leftarrow> now (h_env H); State_Monad.return (Inr (dec_int (unix_seconds (t - dur)))) })"

definition log_args :: "handler \<Rightarrow> request \<Rightarrow> inspect_response \<Rightarrow> (string list \<Rightarrow> answer act) \<Rightarrow> answer act" where
  "log_args H r c f =
     or_answer (State_Monad.return (log_tail (Query r ''tail''))) (\<lambda>tail.
     or_answer (log_since H (Query r ''since'')) (\<lambda>since.
       f [ir_id c, tail, since, bool_str (Query r ''timestamps'' = ''true'')]))"

definition GetStackContainerLogs_handler :: "handler \<Rightarrow> request \<Rightarrow> answer act" where
  "GetStackContainerLogs_handler H r = with_container H r (\<lambda>st dkr c. log_args H r c (\<lambda>args.
     or_error ''failed to read container logs'' 500 (docker_call ''ContainerLogs'' args (\<lambda>l. da_logs dkr l (ir_id c)))
       (\<lambda>_. respond \<lparr>rs_status = 200, rs_body = BStream\<rparr>)))"

text \<open>A failed upgrade has been answered by the websocket library; a stream's own failure is a close frame.\<close>

definition upgraded :: "handler \<Rightarrow> answer act \<Rightarrow> answer act" where
  "upgraded H f = do {
     u \<leftarrow> emit (h_upgrade H) (\<lambda>u. ECall ''Upgrade'' [] (res_err u));
     case u of Inl _ \<Rightarrow> respond \<lparr>rs_status = 400, rs_body = BEmpty\<rparr> | Inr _ \<Rightarrow> f }"

definition streaming :: response where "streaming = \<lparr>rs_status = 101, rs_body = BStream\<rparr>"

definition StreamStackContainerLogs_handler :: "handler \<Rightarrow> request \<Rightarrow> answer act" where
  "StreamStackContainerLogs_handler H r = with_container H r (\<lambda>st dkr c. log_args H r c (\<lambda>args. upgraded H (do {
     _ \<leftarrow> docker_call ''ContainerLogs'' args (\<lambda>l. da_logs dkr l (ir_id c));
     respond streaming })))"

text \<open>wsLogWriter: the frames a write sends, and what stays in the buffer. Empty lines are skipped.\<close>

definition newline :: char where "newline = CHR 0x0A"

fun send_lines :: "string \<Rightarrow> string \<Rightarrow> string list \<times> string" where
  "send_lines line [] = ([], line)"
| "send_lines line (c # cs) =
     (if c = newline then (case send_lines [] cs of (fs, b) \<Rightarrow> (if line = [] then fs else line # fs, b))
      else send_lines (line @ [c]) cs)"

definition ws_write :: "string \<Rightarrow> string \<Rightarrow> string list \<times> string" where
  "ws_write buf p = send_lines [] (buf @ p)"

section \<open>Statistics\<close>

definition GetStackContainerStats_handler :: "handler \<Rightarrow> request \<Rightarrow> answer act" where
  "GetStackContainerStats_handler H r = with_container H r (\<lambda>st dkr c.
     or_error ''failed to read container stats'' 500 (docker_call ''ContainerStats'' [ir_id c] (\<lambda>l. da_stats dkr l (ir_id c)))
       (\<lambda>x. case x of
          Inl _ \<Rightarrow> respond_error ''failed to decode container stats'' 500
        | Inr s \<Rightarrow> respond \<lparr>rs_status = 200, rs_body = BStats (computeStatsSample s (ir_id c) (ir_name c))\<rparr>))"

definition StreamStackContainerStats_handler :: "handler \<Rightarrow> request \<Rightarrow> answer act" where
  "StreamStackContainerStats_handler H r = with_container H r (\<lambda>st dkr c. upgraded H (do {
     _ \<leftarrow> docker_call ''ContainerStats'' [ir_id c] (\<lambda>l. da_stats dkr l (ir_id c));
     respond streaming }))"

section \<open>Restart\<close>

definition AuditOpContainerRestart :: string where "AuditOpContainerRestart = ''container.restart''"
definition AuditOpContainerExecStart :: string where "AuditOpContainerExecStart = ''container.exec_start''"
definition AuditOpContainerExecEnd :: string where "AuditOpContainerExecEnd = ''container.exec_end''"

definition restart_timeout :: "string \<Rightarrow> response + int option" where
  "restart_timeout raw =
     (if raw = [] then Inr None
      else case atoi raw of
        None \<Rightarrow> Inl (writeError ''t must be an integer (seconds); -1 waits forever, 0 kills immediately'' 400)
      | Some n \<Rightarrow> Inr (Some n))"

definition opt_field :: "string \<Rightarrow> string \<Rightarrow> (string \<times> string) list" where
  "opt_field k v = (if v = [] then [] else [(k, v)])"

definition restart_entry :: "request \<Rightarrow> stack \<Rightarrow> inspect_response \<Rightarrow> int option \<Rightarrow> unit res \<Rightarrow> audit_entry" where
  "restart_entry r st c timeout x =
     (let e = (stack_audit r AuditOpContainerRestart ''container'' (ir_id c) st)
            \<lparr>ae_metadata := (case ir_config c of None \<Rightarrow> []
                | Some cfg \<Rightarrow> opt_field ''service'' (label (ic_labels cfg) containerLabelServiceName)
                    @ opt_field ''replica'' (label (ic_labels cfg) containerLabelReplicaIndex))
               @ (case timeout of None \<Rightarrow> [] | Some n \<Rightarrow> [(''timeout_seconds'', dec_int n)])\<rparr>
      in case x of Inl err \<Rightarrow> e\<lparr>ae_outcome := AuditOutcomeFailure, ae_error := err_msg err\<rparr> | Inr _ \<Rightarrow> e)"

definition RestartStackContainer_handler :: "handler \<Rightarrow> request \<Rightarrow> answer act" where
  "RestartStackContainer_handler H r = with_container H r (\<lambda>st dkr c.
     or_answer (State_Monad.return (restart_timeout (Query r ''t''))) (\<lambda>timeout. do {
       x \<leftarrow> docker_call ''ContainerRestart'' [ir_id c] (\<lambda>l. da_restart dkr l (ir_id c) timeout);
       _ \<leftarrow> record_entry H (restart_entry r st c timeout x);
       case x of
         Inl _ \<Rightarrow> respond_error ''failed to restart container'' 500
       | Inr _ \<Rightarrow> respond (writeJSON (strings_json [(''status'', ''accepted''), (''container_id'', ir_id c)]) 202) }))"

section \<open>Exec\<close>

definition exec_entry :: "request \<Rightarrow> stack \<Rightarrow> inspect_response \<Rightarrow> string \<Rightarrow> string list \<Rightarrow> audit_entry" where
  "exec_entry r st c execID cmd = (stack_audit r AuditOpContainerExecStart ''container'' (ir_id c) st)
     \<lparr>ae_outcome := AuditOutcomeInProgress,
      ae_metadata := [(''exec_id'', execID), (''cmd'', join_with '' '' cmd), (''tty'', bool_str (Query r ''tty'' \<noteq> ''false''))]
        @ opt_field ''user'' (Query r ''user'') @ opt_field ''workdir'' (Query r ''workdir'')\<rparr>"

definition exec_end_entry :: "handler \<Rightarrow> request \<Rightarrow> audit_entry \<Rightarrow> int \<Rightarrow> int \<Rightarrow> gerr option \<Rightarrow> audit_entry" where
  "exec_end_entry H r start exitCode duration attachErr =
     (let e = (FromRequest (rq_origin r) AuditOpContainerExecEnd)
            \<lparr>ae_resource_type := ae_resource_type start, ae_resource := ae_resource start, ae_stack := ae_stack start,
             ae_stack_name := ae_stack_name start,
             ae_metadata := ae_metadata start @ [(''duration_seconds'', d_seconds (h_deployer H) duration),
                                                (''exit_code'', dec_int exitCode)]\<rparr>
      in case attachErr of
           Some err \<Rightarrow> e\<lparr>ae_outcome := AuditOutcomeFailure, ae_error := err_msg err\<rparr>
         | None \<Rightarrow> if exitCode \<noteq> 0 then e\<lparr>ae_outcome := AuditOutcomeFailure\<rparr> else e\<lparr>ae_outcome := AuditOutcomeSuccess\<rparr>)"

definition recordExecEnd :: "handler \<Rightarrow> request \<Rightarrow> audit_entry \<Rightarrow> int \<Rightarrow> gotime \<Rightarrow> gerr option \<Rightarrow> unit act" where
  "recordExecEnd H r start exitCode startTime attachErr = do {
     t \<leftarrow> now (h_env H);
     record_entry H (exec_end_entry H r start exitCode (t - startTime) attachErr) }"

text \<open>The session: attaching, the pipe, and the exit code Docker reports, or else the pipe's guess. The end is recorded
  before the close frame.\<close>

definition exec_session :: "handler \<Rightarrow> request \<Rightarrow> daemon \<Rightarrow> string \<Rightarrow> audit_entry \<Rightarrow> answer act" where
  "exec_session H r dkr execID start = do {
     a \<leftarrow> docker_call ''ExecAttach'' [execID] (\<lambda>l. da_exec_attach dkr l execID);
     case a of
       Inl e \<Rightarrow> do {
         t \<leftarrow> now (h_env H);
         _ \<leftarrow> recordExecEnd H r start 0 t (Some e);
         respond streaming }
     | Inr _ \<Rightarrow> do {
         t \<leftarrow> now (h_env H);
         guess \<leftarrow> emit (\<lambda>l. h_exec_pipe H l execID) (\<lambda>_. ECall ''ExecPipe'' [execID] None);
         i \<leftarrow> docker_call ''ExecInspect'' [execID] (\<lambda>l. da_exec_inspect dkr l execID);
         _ \<leftarrow> recordExecEnd H r start (case i of Inr code \<Rightarrow> code | Inl _ \<Rightarrow> guess) t None;
         respond streaming } }"

definition exec_command :: "request \<Rightarrow> string list" where
  "exec_command r = List.map snd (filter (\<lambda>(k, _). k = ''cmd'') (rq_query r))"

definition ExecStackContainer_handler :: "handler \<Rightarrow> request \<Rightarrow> answer act" where
  "ExecStackContainer_handler H r = with_docker H r (\<lambda>st dkr.
     let cmd = exec_command r in
     if cmd = [] then respond_error ''cmd query param is required (pass it multiple times for additional args)'' 400
     else or_answer (resolveStackContainer dkr (st_name st) (rq_vars r ''cid'')) (\<lambda>c.
       or_error ''failed to create exec session'' 500
         (docker_call ''ExecCreate'' (ir_id c # cmd) (\<lambda>l. da_exec_create dkr l (ir_id c) cmd)) (\<lambda>execID. do {
           _ \<leftarrow> record_entry H (exec_entry r st c execID cmd);
           upgraded H (exec_session H r dkr execID (exec_entry r st c execID cmd)) })))"

text \<open>A control frame, as the JSON decoder reads it: the size it asks for, if it is one. With a terminal an empty size is
  ignored; without one every size is.\<close>

definition handleExecControl :: "(string \<times> nat \<times> nat) option \<Rightarrow> (nat \<times> nat) option" where
  "handleExecControl frame =
     (case frame of None \<Rightarrow> None
      | Some (ty, rows, cols) \<Rightarrow> if ty = ''resize'' then Some (rows, cols) else None)"

definition exec_resize :: "bool \<Rightarrow> nat \<times> nat \<Rightarrow> (nat \<times> nat) option" where
  "exec_resize useTTY sz = (if \<not> useTTY then None else case sz of (rows, cols) \<Rightarrow> if rows = 0 \<or> cols = 0 then None else Some (rows, cols))"

section \<open>Events\<close>

text \<open>The types of event a subscription asks for.\<close>

definition event_types :: "string \<Rightarrow> string list" where
  "event_types types =
     filter (\<lambda>t. t \<noteq> []) (List.map trim_space (split_on CHR '','' (if types = [] then ''container'' else types)))"

definition StreamStackEvents_handler :: "handler \<Rightarrow> request \<Rightarrow> answer act" where
  "StreamStackEvents_handler H r = with_docker H r (\<lambda>st dkr.
     or_answer (log_since H (Query r ''since'')) (\<lambda>since. do {
       _ \<leftarrow> emit (\<lambda>_. ()) (\<lambda>_. ECall ''Events'' (st_name st # since # event_types (Query r ''types'')) None);
       respond \<lparr>rs_status = 200, rs_body = BStream\<rparr> }))"

end
