(* ===== verification/Browsers.thy ===== *)
theory Browsers
  imports Introspection
begin

text \<open>
  The handlers that show what Accelero manages on every host, and the files of its volumes. A listing asks each host in
  turn and fails only when every host does. The volume handlers check with Docker that the volume is a managed one on
  the very host whose helper container will open it.
\<close>

section \<open>Listings over the hosts\<close>

text \<open>One host after the other: what the hosts that answer have, and how many did not.\<close>

fun fan_out :: "(host_client \<Rightarrow> 'a list res act) \<Rightarrow> host_client list \<Rightarrow> 'a list \<Rightarrow> nat \<Rightarrow> ('a list \<times> nat) act" where
  "fan_out f [] out failures = State_Monad.return (out, failures)"
| "fan_out f (h # hs) out failures = do {
     x \<leftarrow> f h;
     case x of
       Inl _ \<Rightarrow> fan_out f hs out (failures + 1)
     | Inr xs \<Rightarrow> fan_out f hs (out @ xs) failures }"

definition stack_param :: "request \<Rightarrow> docker_filters" where
  "stack_param r = (let stackName = Query r ''stack'' in if stackName \<noteq> [] then stack_filters stackName else managed_filters)"

definition list_managed :: "handler \<Rightarrow> string \<Rightarrow> (host_client \<Rightarrow> 'a list res act) \<Rightarrow> ('a list \<Rightarrow> body) \<Rightarrow> answer act" where
  "list_managed H what f view =
     (case h_docker H of
        None \<Rightarrow> respond_error ''container introspection is not configured on this server'' 503
      | Some docker \<Rightarrow> do {
          hs \<leftarrow> hostClients H docker;
          case hs of
            Inl e \<Rightarrow> respond_error (''failed to enumerate docker hosts: '' @ err_msg e) 500
          | Inr hosts \<Rightarrow> do {
              (out, failures) \<leftarrow> fan_out f hosts [] 0;
              if failures = length hosts \<and> length hosts > 0
              then respond_error (''failed to list '' @ what @ '' on any host'') 500
              else respond \<lparr>rs_status = 200, rs_body = view out\<rparr> } })"

definition managedImagesOnHost :: "docker_filters \<Rightarrow> host_client \<Rightarrow> managed_image list res act" where
  "managedImagesOnHost filters host =
     try_with (ErrWrap ''list containers: '')
       (docker_call ''ContainerList'' (hc_name host # filter_args filters) (\<lambda>l. da_containers (hc_docker host) l filters)) (\<lambda>cs.
     if cs = [] then ok []
     else try_with (ErrWrap ''list images: '') (docker_call ''ImageList'' [hc_name host] (da_images (hc_docker host))) (\<lambda>imgs.
       ok (images_in_use (hc_name host) cs imgs)))"

definition ListManagedImages_handler :: "handler \<Rightarrow> request \<Rightarrow> answer act" where
  "ListManagedImages_handler H r = list_managed H ''images'' (managedImagesOnHost (stack_param r)) (\<lambda>out. BImages (sort_images out))"

definition volumes_on_host :: "docker_filters \<Rightarrow> host_client \<Rightarrow> managed_volume list res act" where
  "volumes_on_host filters host =
     try_with id (docker_call ''VolumeList'' (hc_name host # filter_args filters) (\<lambda>l. da_volumes (hc_docker host) l filters)) (\<lambda>vs.
       ok (List.map (managed_volume_of (hc_name host)) vs))"

definition ListManagedVolumes_handler :: "handler \<Rightarrow> request \<Rightarrow> answer act" where
  "ListManagedVolumes_handler H r = list_managed H ''volumes'' (volumes_on_host (stack_param r))
     (\<lambda>out. BVolumes (sort_key (\<lambda>v. (mv_host v, mv_name v)) out))"

definition networks_on_host :: "docker_filters \<Rightarrow> host_client \<Rightarrow> managed_network list res act" where
  "networks_on_host filters host =
     try_with id (docker_call ''NetworkList'' (hc_name host # filter_args filters) (\<lambda>l. da_networks (hc_docker host) l filters)) (\<lambda>ns.
       ok (List.map (managed_network_of (hc_name host)) ns))"

definition ListManagedNetworks_handler :: "handler \<Rightarrow> request \<Rightarrow> answer act" where
  "ListManagedNetworks_handler H r = list_managed H ''networks'' (networks_on_host (stack_param r))
     (\<lambda>out. BNetworks (sort_key (\<lambda>n. (mn_host n, mn_name n)) out))"

section \<open>The files of a volume\<close>

definition AuditOpVolumeBrowse :: string where "AuditOpVolumeBrowse = ''volume.browse''"
definition AuditOpVolumeRead :: string where "AuditOpVolumeRead = ''volume.read''"
definition AuditOpVolumeWrite :: string where "AuditOpVolumeWrite = ''volume.write''"

definition maxVolumeFileDownload :: nat where "maxVolumeFileDownload = 10 * 1024 * 1024"
definition maxVolumeFileUpload :: nat where "maxVolumeFileUpload = 10 * 1024 * 1024"

definition volumeIsManaged :: "daemon \<Rightarrow> string \<Rightarrow> bool res act" where
  "volumeIsManaged dkr name =
     (let filters = managed_filters @ [(''name'', name)] in
      try_with id (docker_call ''VolumeList'' (filter_args filters) (\<lambda>l. da_volumes dkr l filters)) (\<lambda>vs.
        ok (list_ex (\<lambda>v. dv_name v = name) vs)))"

text \<open>An operation of the browser on a host, with the calls of its helper.\<close>

definition browse :: "volume_host \<Rightarrow> (vol_docker \<Rightarrow> 'a res \<times> vol_call list) \<Rightarrow> 'a res act" where
  "browse vh f = do {
     (x, calls) \<leftarrow> emit (\<lambda>l. f (vh_browse vh l)) (\<lambda>(x, calls). EVolume (vh_id vh) calls);
     State_Monad.return x }"

definition volume_entry :: "request \<Rightarrow> string \<Rightarrow> string \<Rightarrow> (string \<times> string) list \<Rightarrow> audit_entry" where
  "volume_entry r op name meta = (FromRequest (rq_origin r) op)
     \<lparr>ae_resource_type := ''volume'', ae_resource := name, ae_metadata := meta\<rparr>"

definition failed_entry :: "gerr \<Rightarrow> audit_entry \<Rightarrow> audit_entry" where
  "failed_entry err e = e\<lparr>ae_outcome := AuditOutcomeFailure, ae_error := err_msg err\<rparr>"

definition listVolumePath :: "handler \<Rightarrow> request \<Rightarrow> volume_host \<Rightarrow> string \<Rightarrow> string \<Rightarrow> answer act" where
  "listVolumePath H r vh name path =
     (let e = volume_entry r AuditOpVolumeBrowse name [(''path'', path), (''host'', vh_name vh)] in do {
        x \<leftarrow> browse vh (\<lambda>k. ListPath k name path);
        case x of
          Inl err \<Rightarrow> do { _ \<leftarrow> record_entry H (failed_entry err e); respond_error (err_msg err) 400 }
        | Inr files \<Rightarrow> do { _ \<leftarrow> record_entry H e; respond \<lparr>rs_status = 200, rs_body = BFiles files\<rparr> } })"

text \<open>The reader is closed after the copy, which is when the helper goes.\<close>

definition downloadVolumeFile :: "handler \<Rightarrow> request \<Rightarrow> volume_host \<Rightarrow> string \<Rightarrow> string \<Rightarrow> answer act" where
  "downloadVolumeFile H r vh name path =
     (let meta = [(''path'', path), (''host'', vh_name vh)] in do {
        x \<leftarrow> browse vh (\<lambda>k. ReadFile k name path maxVolumeFileDownload);
        case x of
          Inl err \<Rightarrow> do {
            _ \<leftarrow> record_entry H (failed_entry err (volume_entry r AuditOpVolumeRead name meta));
            respond_error (err_msg err) 400 }
        | Inr (h, onClose) \<Rightarrow> do {
            _ \<leftarrow> record_entry H (volume_entry r AuditOpVolumeRead name (meta @ [(''size_bytes'', dec_nat (th_size h))]));
            _ \<leftarrow> emit (\<lambda>_. ()) (\<lambda>_. EVolume (vh_id vh) (fst (close_reader onClose False)));
            respond \<lparr>rs_status = 200, rs_body = BRaw (th_name h) (th_size h)\<rparr> } })"

text \<open>The host, and the check that the volume is managed there.\<close>

definition with_volume :: "handler \<Rightarrow> request \<Rightarrow> (volume_host \<Rightarrow> string \<Rightarrow> answer act) \<Rightarrow> answer act" where
  "with_volume H r f =
     (case (h_browser H, h_docker H) of
        (Some br, Some docker) \<Rightarrow>
          or_answer (resolveVolumeHost H r docker br) (\<lambda>vh.
          or_error ''failed to verify volume'' 500 (volumeIsManaged (vh_docker vh) (rq_vars r ''name'')) (\<lambda>managed.
            if \<not> managed then respond_error ''volume not found'' 404 else f vh (rq_vars r ''name'')))
      | _ \<Rightarrow> respond_error ''volume browsing is not configured on this server'' 503)"

definition BrowseVolume_handler :: "handler \<Rightarrow> request \<Rightarrow> answer act" where
  "BrowseVolume_handler H r = with_volume H r (\<lambda>vh name.
     let path = (if Query r ''path'' = [] then ''/'' else Query r ''path'') in
     if Query r ''download'' = ''true'' then downloadVolumeFile H r vh name path else listVolumePath H r vh name path)"

text \<open>strconv.ParseUint with base 8 and 32 bits, and a mode in octal.\<close>

fun octal_value :: "nat \<Rightarrow> string \<Rightarrow> nat option" where
  "octal_value acc [] = Some acc"
| "octal_value acc (c # cs) =
     (if CHR ''0'' \<le> c \<and> c \<le> CHR ''7'' then octal_value (8 * acc + (of_char c - 48)) cs else None)"

definition parse_mode :: "string \<Rightarrow> nat option" where
  "parse_mode raw =
     (if raw = [] then None
      else case octal_value 0 raw of Some n \<Rightarrow> if n < 2 ^ 32 then Some n else None | None \<Rightarrow> None)"

fun oct_nat :: "nat \<Rightarrow> string" where
  "oct_nat n = (if n < 8 then [digit_char n] else oct_nat (n div 8) @ [digit_char (n mod 8)])"

declare oct_nat.simps [simp del]

definition write_mode :: "string \<Rightarrow> response + nat" where
  "write_mode raw =
     (if raw = [] then Inr 420
      else case parse_mode raw of
        None \<Rightarrow> Inl (writeError ''mode must be an octal POSIX file mode (e.g. 0644)'' 400)
      | Some m \<Rightarrow> Inr m)"

text \<open>The body is None when it is over the limit or cannot be read.\<close>

definition write_file :: "handler \<Rightarrow> request \<Rightarrow> volume_host \<Rightarrow> string \<Rightarrow> string \<Rightarrow> nat \<Rightarrow> string \<Rightarrow> answer act" where
  "write_file H r vh name path mode buf = do {
     t \<leftarrow> now (h_env H);
     x \<leftarrow> browse vh (\<lambda>k. WriteFile t k name path mode (length buf));
     let e = volume_entry r AuditOpVolumeWrite name [(''path'', path), (''size_bytes'', dec_nat (length buf)),
               (''mode'', ''0'' @ oct_nat mode), (''host'', vh_name vh)] in do {
     _ \<leftarrow> record_entry H (case x of Inl err \<Rightarrow> failed_entry err e | Inr _ \<Rightarrow> e);
     case x of
       Inl err \<Rightarrow> respond_error (err_msg err) 400
     | Inr _ \<Rightarrow> respond (writeJSON (JObject [(''status'', JStr ''written''), (''path'', JStr path),
                                            (''size_bytes'', JInt (int (length buf)))]) 200) } }"

definition WriteVolumeFile_handler :: "handler \<Rightarrow> request \<Rightarrow> string option \<Rightarrow> answer act" where
  "WriteVolumeFile_handler H r body =
     (if \<not> h_allow_writes H
      then respond_error ''volume writes are disabled on this server (set ALLOW_VOLUME_WRITES=true to enable)'' 403
      else with_volume H r (\<lambda>vh name.
        if Query r ''path'' = [] then respond_error ''path query param is required'' 400
        else or_answer (State_Monad.return (write_mode (Query r ''mode''))) (\<lambda>mode.
          case body of
            None \<Rightarrow> respond_error ''failed to read request body (possibly exceeded 10 MB limit)'' 413
          | Some buf \<Rightarrow> write_file H r vh name (Query r ''path'') mode buf)))"

end
