(* ===== verification/Auth_Store.thy ===== *)
theory Auth_Store
  imports Rbac Store Codec "HOL-Library.AList"
begin

text \<open>
  API keys from issue to revocation: internal/store/apikey.go, the handlers of internal/handler/apikeys.go, and the two
  closures cmd/main.go passes to the authentication middleware, keyLookup and resolveStack. SHA-256 and the random
  bytes are arguments; an error of the database is an argument where the code looks at it. A handler's answer is its
  status and, for a created key, what the response shows; audit entries are those the handler records.
\<close>

definition apiKeyPrefix :: string where "apiKeyPrefix = ''acc_''"

definition GenerateAPIKey :: "string option \<Rightarrow> string res" where
  "GenerateAPIKey rnd = (case rnd of None \<Rightarrow> Inl (ErrText ''generate api key: read'') | Some b \<Rightarrow> Inr (apiKeyPrefix @ hex_encode b))"

definition HashAPIKey :: "(string \<Rightarrow> string) \<Rightarrow> string \<Rightarrow> string" where
  "HashAPIKey sha256 raw = hex_encode (sha256 raw)"

section \<open>Lookup\<close>

text \<open>The grants of a stored key that name a role; nil when there is none.\<close>

definition parsed_grants :: "(string \<times> string) list \<Rightarrow> (string \<Rightarrow> role option) option" where
  "parsed_grants gs =
     (if list_ex (\<lambda>(k, v). ParseRole v \<noteq> None) gs
      then Some (\<lambda>s. case map_of gs s of None \<Rightarrow> None | Some v \<Rightarrow> ParseRole v) else None)"

definition keyLookup :: "(string \<Rightarrow> string) \<Rightarrow> gerr option \<Rightarrow> db \<Rightarrow> string \<Rightarrow> identity option res" where
  "keyLookup sha256 db_err d raw =
     (case db_err of Some e \<Rightarrow> Inl e
      | None \<Rightarrow>
        (case GetAPIKeyByHash (HashAPIKey sha256 raw) d of
           None \<Rightarrow> Inr None
         | Some k \<Rightarrow>
             if ak_disabled k then Inr None
             else (case ParseRole (ak_role k) of
                     None \<Rightarrow> Inr None
                   | Some role \<Rightarrow> Inr (Some \<lparr>id_name = ak_name k, id_role = role, StackGrants = parsed_grants (ak_grants k)\<rparr>))))"

text \<open>A stack by id, or else by name.\<close>

definition find_stack :: "db \<Rightarrow> string \<Rightarrow> stack option" where
  "find_stack d token =
     (case GetStack token d of
        Inr (Some st) \<Rightarrow> Some st
      | _ \<Rightarrow> (case GetStackByName token d of Inr (Some st) \<Rightarrow> Some st | _ \<Rightarrow> None))"

text \<open>The resolver of the middleware: \<open>e1\<close> and \<open>e2\<close> are the errors of its two queries. An error of the first falls
  through to the name, an error of the second is dropped, and the middleware then goes by the base role.\<close>

definition resolveStack :: "gerr option \<Rightarrow> gerr option \<Rightarrow> db \<Rightarrow> string \<Rightarrow> string option" where
  "resolveStack e1 e2 d token =
     (case (case e1 of Some e \<Rightarrow> Inl e | None \<Rightarrow> GetStack token d) of
        Inr (Some st) \<Rightarrow> Some (st_id st)
      | _ \<Rightarrow> (case (case e2 of Some e \<Rightarrow> Inl e | None \<Rightarrow> GetStackByName token d) of
                Inr (Some st) \<Rightarrow> Some (st_id st)
              | _ \<Rightarrow> None))"

lemma resolveStack_found: "resolveStack None None d token = map_option st_id (find_stack d token)"
  by (simp add: resolveStack_def find_stack_def split: sum.split option.split)

lemma resolveStack_broken: "resolveStack (Some e1) (Some e2) d token = None"
  by (simp add: resolveStack_def)

section \<open>Handlers\<close>

record create_key_input =
  in_name :: string
  in_role :: string
  in_grants :: "(string \<times> string) list" \<comment> \<open>in the order of the map iteration\<close>

datatype key_answer =
    KeyError nat string
  | KeyCreated string string role "(string \<times> string) list" \<comment> \<open>id, the raw key, role and grants, status 201\<close>
  | KeyDeleted \<comment> \<open>status 204\<close>
  | KeyList "api_key list"

fun resolve_grants :: "db \<Rightarrow> (string \<times> string) list \<Rightarrow> (string \<times> string) list \<Rightarrow> string + (string \<times> string) list" where
  "resolve_grants d [] grants = Inr grants"
| "resolve_grants d ((stackToken, roleStr) # gs) grants =
     (case ParseRole roleStr of
        None \<Rightarrow> Inl (''stack_grants role for '' @ [CHR 0x27] @ stackToken @ [CHR 0x27] @ '' must be one of: none, viewer, operator, admin'')
      | Some gr \<Rightarrow>
        (case find_stack d stackToken of
           None \<Rightarrow> Inl (''stack_grants references unknown stack: '' @ stackToken)
         | Some st \<Rightarrow> resolve_grants d gs (AList.update (st_id st) gr grants)))"

definition CreateAPIKey_handler ::
  "(string \<Rightarrow> string) \<Rightarrow> gotime \<Rightarrow> string option \<Rightarrow> string res \<Rightarrow> create_key_input \<Rightarrow> db \<Rightarrow> key_answer \<times> db \<times> string list" where
  "CreateAPIKey_handler sha256 now rnd new_id input d =
     (if in_name input = [] then (KeyError 400 ''name is required'', d, [])
      else case ParseRole (in_role input) of
        None \<Rightarrow> (KeyError 400 ''role must be one of: none, viewer, operator, admin'', d, [])
      | Some role \<Rightarrow>
        (case resolve_grants d (in_grants input) [] of
           Inl msg \<Rightarrow> (KeyError 400 msg, d, [])
         | Inr grants \<Rightarrow>
           (case GenerateAPIKey rnd of
              Inl _ \<Rightarrow> (KeyError 500 ''failed to generate key'', d, [])
            | Inr raw \<Rightarrow>
              (case new_id of
                 Inl _ \<Rightarrow> (KeyError 500 ''failed to generate ID'', d, [])
               | Inr i \<Rightarrow>
                 let key = \<lparr>ak_id = i, ak_name = in_name input, ak_role = role, ak_hash = HashAPIKey sha256 raw,
                            ak_grants = grants, ak_created = now, ak_last_used = None, ak_disabled = False\<rparr>
                 in case CreateAPIKey key d of
                      (Some _, d') \<Rightarrow> (KeyError 500 ''failed to create key'', d', [])
                    | (None, d') \<Rightarrow> (KeyCreated i raw role grants, d', [''apikey.create''])))))"

definition ListAPIKeys_handler :: "gerr option \<Rightarrow> db \<Rightarrow> key_answer" where
  "ListAPIKeys_handler db_err d = (case db_err of Some e \<Rightarrow> KeyError 500 (err_msg e) | None \<Rightarrow> KeyList (ListAPIKeys d))"

definition DeleteAPIKey_handler :: "gerr option \<Rightarrow> string \<Rightarrow> db \<Rightarrow> key_answer \<times> db \<times> string list" where
  "DeleteAPIKey_handler db_err i d =
     (case db_err of
        Some e \<Rightarrow> (KeyError 500 (err_msg e), d, [])
      | None \<Rightarrow>
        let (deleted, d') = DeleteAPIKey i d in
        if \<not> deleted then (KeyError 404 ''api key not found'', d', [''apikey.delete'']) else (KeyDeleted, d', [''apikey.delete'']))"

section \<open>The life of a key\<close>

lemma ParseRole_idem: "ParseRole s = Some r \<Longrightarrow> ParseRole r = Some r"
  by (rule ParseRole_id) (rule ParseRole_valid)

lemma resolve_grants_roles:
  "resolve_grants d gs acc = Inr grants \<Longrightarrow> \<forall>(k, v) \<in> set acc. ParseRole v = Some v \<Longrightarrow> distinct (List.map fst acc)
     \<Longrightarrow> (\<forall>(k, v) \<in> set grants. ParseRole v = Some v) \<and> distinct (List.map fst grants)"
proof (induction gs arbitrary: acc)
  case (Cons g gs)
  obtain t rs where g: "g = (t, rs)" by (cases g)
  obtain gr st where s: "ParseRole rs = Some gr" "find_stack d t = Some st"
    using Cons.prems(1) by (auto simp: g split: option.splits)
  let ?acc = "AList.update (st_id st) gr acc"
  have "set ?acc \<subseteq> insert (st_id st, gr) (set acc)"
    by (induction acc) auto
  then have "\<forall>(k, v) \<in> set ?acc. ParseRole v = Some v" using Cons.prems(2) ParseRole_idem[OF s(1)] by auto
  moreover have "distinct (List.map fst ?acc)" using Cons.prems(3) by (rule distinct_update)
  ultimately show ?case using Cons.IH[of ?acc] Cons.prems(1) s by (simp add: g)
qed simp

lemma parsed_grants_valid:
  assumes "\<forall>(k, v) \<in> set gs. ParseRole v = Some v"
  shows "parsed_grants gs = (if gs = [] then None else Some (map_of gs))"
proof -
  have "(case map_of gs s of None \<Rightarrow> None | Some v \<Rightarrow> ParseRole v) = map_of gs s" for s
    using assms by (auto split: option.split dest!: map_of_SomeD)
  moreover have "list_ex (\<lambda>(k, v). ParseRole v \<noteq> None) gs \<longleftrightarrow> gs \<noteq> []"
    using assms by (cases gs) (auto simp: list_ex_iff)
  ultimately show ?thesis by (simp add: parsed_grants_def)
qed

text \<open>The grants a creation stores: for a stack, the role of the last of its tokens in the order of the map.\<close>

lemma resolve_grants_map:
  "resolve_grants d gs acc = Inr grants \<Longrightarrow>
     map_of grants s = (case map_of (rev (List.map (\<lambda>(t, r). (st_id (the (find_stack d t)), the (ParseRole r))) gs)) s of
        Some r \<Rightarrow> Some r | None \<Rightarrow> map_of acc s)"
proof (induction gs arbitrary: acc)
  case (Cons g gs)
  obtain t rs where g: "g = (t, rs)" by (cases g)
  obtain gr st where s: "ParseRole rs = Some gr" "find_stack d t = Some st"
    using Cons.prems(1) by (auto simp: g split: option.splits)
  have r: "resolve_grants d gs (AList.update (st_id st) gr acc) = Inr grants" using Cons.prems s by (simp add: g)
  show ?case using Cons.IH[OF r] s by (auto simp: g update_conv map_add_def split: option.split)
qed simp

lemma keyLookup_touch:
  "keyLookup sha e (TouchAPIKey i t d) raw = keyLookup sha e d raw"
proof -
  have "map_option (\<lambda>k. (ak_name k, ak_role k, ak_grants k, ak_disabled k)) (tbl_find ak_hash h (tbl_update ak_id i (\<lambda>k. k\<lparr>ak_last_used := Some t\<rparr>) rows))
      = map_option (\<lambda>k. (ak_name k, ak_role k, ak_grants k, ak_disabled k)) (tbl_find ak_hash h rows)" for h rows
    by (induction rows) (auto simp: tbl_find_def tbl_update_def)
  from this[of "HashAPIKey sha raw" "t_keys d"] show ?thesis
    by (auto simp: keyLookup_def GetAPIKeyByHash_def TouchAPIKey_def split: option.splits)
qed

text \<open>The keys of a database in which \<open>k\<close> is stored: nothing else has its id or its hash, whatever its last use.\<close>

definition is_key :: "api_key \<Rightarrow> api_key \<Rightarrow> bool" where
  "is_key k r \<longleftrightarrow> r\<lparr>ak_last_used := None\<rparr> = k\<lparr>ak_last_used := None\<rparr>"

definition holds_key :: "api_key \<Rightarrow> db \<Rightarrow> bool" where
  "holds_key k d \<longleftrightarrow> (\<exists>r \<in> set (t_keys d). is_key k r)
     \<and> (\<forall>r \<in> set (t_keys d). ak_id r = ak_id k \<or> ak_hash r = ak_hash k \<longrightarrow> is_key k r)"

lemma is_key_fields:
  assumes "is_key k r"
  shows "ak_id r = ak_id k" "ak_hash r = ak_hash k" "ak_name r = ak_name k" "ak_role r = ak_role k"
    "ak_grants r = ak_grants k" "ak_disabled r = ak_disabled k"
  using assms unfolding is_key_def by (cases r; cases k; simp)+

lemma is_key_touched: "is_key k (r\<lparr>ak_last_used := t\<rparr>) = is_key k r"
  by (simp add: is_key_def)

lemma is_key_refl: "is_key k k"
  by (simp add: is_key_def)

lemmas other_tables = CreateStack_def UpdateStack_def DeleteStack_def CreateDeployment_def UpdateDeployment_def
  CleanupOldDeployments_def CreateDockerHost_def DeleteDockerHost_def TrackContainer_def RemoveContainer_def
  RemoveContainersByStack_def UpsertStackSecret_def DeleteStackSecret_def UpsertStackRegistry_def
  DeleteStackRegistry_def CreateAuditEntry_def CleanupOldAuditEntries_def

lemma t_keys_step:
  "t_keys (db_step op d) = (case op of
      OpCreateKey k \<Rightarrow> t_keys (snd (CreateAPIKey k d)) | OpDeleteKey i \<Rightarrow> tbl_delete ak_id i (t_keys d)
    | OpTouchKey i t \<Rightarrow> tbl_update ak_id i (\<lambda>k. k\<lparr>ak_last_used := Some t\<rparr>) (t_keys d) | _ \<Rightarrow> t_keys d)"
  by (cases op) (simp_all add: other_tables DeleteAPIKey_def TouchAPIKey_def Let_def split: sum.split)

lemma holds_key_step:
  assumes "holds_key k d" "op \<noteq> OpDeleteKey (ak_id k)"
  shows "holds_key k (db_step op d)"
proof -
  obtain r where r: "r \<in> set (t_keys d)" "is_key k r" using assms(1) by (auto simp: holds_key_def)
  note f = is_key_fields[OF r(2)]
  show ?thesis
  proof (cases op)
    case (OpCreateKey n)
    show ?thesis
    proof (cases "(\<exists>x \<in> set (t_keys d). ak_id x = ak_id n) \<or> (\<exists>x \<in> set (t_keys d). ak_hash x = ak_hash n)")
      case True
      then show ?thesis using assms(1) by (auto simp: holds_key_def t_keys_step OpCreateKey CreateAPIKey_def simp del: db_step.simps)
    next
      case False
      then have "ak_id n \<noteq> ak_id k" "ak_hash n \<noteq> ak_hash k" using r(1) f(1,2) by metis+
      then show ?thesis using assms(1) False
        by (auto simp: holds_key_def t_keys_step OpCreateKey CreateAPIKey_def simp del: db_step.simps)
    qed
  next
    case (OpDeleteKey i)
    then have "ak_id r \<noteq> i" using assms(2) f(1) by auto
    then show ?thesis using assms(1) r
      by (auto simp: holds_key_def t_keys_step OpDeleteKey tbl_delete_def simp del: db_step.simps)
  next
    case (OpTouchKey i t)
    have "\<exists>x \<in> set (tbl_update ak_id i (\<lambda>k. k\<lparr>ak_last_used := Some t\<rparr>) (t_keys d)). is_key k x"
      unfolding tbl_update_def set_map by (rule bexI[OF _ imageI[OF r(1)]]) (simp add: is_key_touched r(2))
    then show ?thesis using assms(1)
      by (auto simp: holds_key_def t_keys_step OpTouchKey tbl_update_def is_key_touched simp del: db_step.simps)
  qed (use assms(1) in \<open>simp_all add: holds_key_def t_keys_step del: db_step.simps\<close>)
qed

lemma holds_key_run:
  "holds_key k d \<Longrightarrow> OpDeleteKey (ak_id k) \<notin> set ops \<Longrightarrow> holds_key k (run_ops db_step ops d)"
proof (induction ops arbitrary: d)
  case (Cons op ops)
  then have "holds_key k (db_step op d)" by (intro holds_key_step) auto
  then show ?case using Cons by simp
qed simp

lemma holds_key_find:
  assumes "holds_key k d"
  shows "\<exists>r. tbl_find ak_hash (ak_hash k) (t_keys d) = Some r \<and> is_key k r"
proof -
  obtain r where "r \<in> set (t_keys d)" "is_key k r" using assms by (auto simp: holds_key_def)
  then have "tbl_find ak_hash (ak_hash k) (t_keys d) \<noteq> None"
    using is_key_fields(2)[of k r] unfolding tbl_find_None by blast
  then obtain r' where "tbl_find ak_hash (ak_hash k) (t_keys d) = Some r'" by blast
  then show ?thesis using assms tbl_find_Some[of ak_hash] unfolding holds_key_def by blast
qed

lemma holds_key_lookup:
  assumes "holds_key k d" "ak_hash k = HashAPIKey sha raw" "\<not> ak_disabled k" "ParseRole (ak_role k) = Some role"
  shows "keyLookup sha None d raw
    = Inr (Some \<lparr>id_name = ak_name k, id_role = role, StackGrants = parsed_grants (ak_grants k)\<rparr>)"
proof -
  obtain r where "tbl_find ak_hash (ak_hash k) (t_keys d) = Some r" "is_key k r"
    using holds_key_find[OF assms(1)] by blast
  then show ?thesis using assms(2-4) is_key_fields[of k r] by (simp add: keyLookup_def GetAPIKeyByHash_def)
qed

text \<open>Deleting the id of a key removes it and no key of another hash.\<close>

lemma holds_key_deleted:
  assumes "holds_key k d"
  shows "fst (DeleteAPIKey (ak_id k) d)"
    and "tbl_find ak_hash (ak_hash k) (t_keys (snd (DeleteAPIKey (ak_id k) d))) = None"
    and "h \<noteq> ak_hash k \<Longrightarrow> tbl_find ak_hash h (t_keys (snd (DeleteAPIKey (ak_id k) d))) = tbl_find ak_hash h (t_keys d)"
proof -
  obtain r where r: "r \<in> set (t_keys d)" "ak_id r = ak_id k"
    using assms is_key_fields(1) unfolding holds_key_def by blast
  have own: "ak_hash x = ak_hash k \<longleftrightarrow> ak_id x = ak_id k" if "x \<in> set (t_keys d)" for x
    using assms that is_key_fields(1,2) unfolding holds_key_def by metis
  show "fst (DeleteAPIKey (ak_id k) d)"
    using r by (auto simp: DeleteAPIKey_def tbl_find_None)
  show "tbl_find ak_hash (ak_hash k) (t_keys (snd (DeleteAPIKey (ak_id k) d))) = None"
    using own by (auto simp: DeleteAPIKey_def tbl_find_None tbl_delete_def)
  assume h: "h \<noteq> ak_hash k"
  have "tbl_find ak_hash h (tbl_delete ak_id (ak_id k) rows) = tbl_find ak_hash h rows" if "set rows \<subseteq> set (t_keys d)" for rows
    using that
  proof (induction rows)
    case (Cons x rows)
    then show ?case using own[of x] h by (cases "ak_id x = ak_id k") (simp_all add: tbl_find_def tbl_delete_def)
  qed (simp add: tbl_delete_def)
  then show "tbl_find ak_hash h (t_keys (snd (DeleteAPIKey (ak_id k) d))) = tbl_find ak_hash h (t_keys d)"
    by (simp add: DeleteAPIKey_def)
qed

lemma absent_run:
  assumes "tbl_find ak_hash h (t_keys d) = None" "\<forall>k. OpCreateKey k \<in> set ops \<longrightarrow> ak_hash k \<noteq> h"
  shows "tbl_find ak_hash h (t_keys (run_ops db_step ops d)) = None"
  using assms
proof (induction ops arbitrary: d)
  case (Cons op ops)
  have "tbl_find ak_hash h (t_keys (db_step op d)) = None"
    using Cons.prems by (cases op) (auto simp: t_keys_step tbl_find_None CreateAPIKey_def tbl_delete_def tbl_update_def simp del: db_step.simps)
  then show ?case using Cons by simp
qed simp

text \<open>C31. A key works from the moment it is created until it is revoked, and with exactly the rights it was created with:
  when the create handler answers with a raw key, that key authenticates as one identity, with the requested name and
  role and with the requested grants, keyed by the ids of the stacks they name, after every sequence of operations of
  the store that does not delete its id, and the creation changes no other key's identity. Whenever the delete handler
  then is called with its id, it answers that the key is deleted, every key of another hash authenticates as before,
  and the deleted one authenticates as nobody, after every further sequence of operations but the creation of a key
  of the same hash.\<close>

theorem api_key_lifecycle:
  assumes "CreateAPIKey_handler sha now rnd new_id input d = (KeyCreated i raw role grants, d1, audits)"
  shows "(\<exists>ident. id_name ident = in_name input \<and> ParseRole (in_role input) = Some (id_role ident)
        \<and> (\<forall>s. (case StackGrants ident of None \<Rightarrow> None | Some g \<Rightarrow> g s)
             = map_of (rev (List.map (\<lambda>(t, r). (st_id (the (find_stack d t)), the (ParseRole r))) (in_grants input))) s)
        \<and> (\<forall>ops. OpDeleteKey i \<notin> set ops \<longrightarrow> keyLookup sha None (run_ops db_step ops d1) raw = Inr (Some ident)))
    \<and> (\<forall>other. HashAPIKey sha other \<noteq> HashAPIKey sha raw \<longrightarrow> keyLookup sha None d1 other = keyLookup sha None d other)
    \<and> (\<forall>ops. OpDeleteKey i \<notin> set ops \<longrightarrow>
         (\<exists>d2. DeleteAPIKey_handler None i (run_ops db_step ops d1) = (KeyDeleted, d2, [''apikey.delete''])
            \<and> (\<forall>later. (\<forall>k. OpCreateKey k \<in> set later \<longrightarrow> ak_hash k \<noteq> HashAPIKey sha raw)
                 \<longrightarrow> keyLookup sha None (run_ops db_step later d2) raw = Inr None)
            \<and> (\<forall>other. HashAPIKey sha other \<noteq> HashAPIKey sha raw
                 \<longrightarrow> keyLookup sha None d2 other = keyLookup sha None (run_ops db_step ops d1) other)))"
proof -
  let ?k = "\<lparr>ak_id = i, ak_name = in_name input, ak_role = role, ak_hash = HashAPIKey sha raw,
                            ak_grants = grants, ak_created = now, ak_last_used = None, ak_disabled = False\<rparr>"
  have r: "ParseRole (in_role input) = Some role" and g: "resolve_grants d (in_grants input) [] = Inr grants"
    and c: "CreateAPIKey ?k d = (None, d1)"
    using assms by (auto simp: CreateAPIKey_handler_def Let_def split: if_splits option.splits sum.splits prod.splits)
  have k: "t_keys d1 = t_keys d @ [?k]" and new: "\<forall>r \<in> set (t_keys d). ak_id r \<noteq> i \<and> ak_hash r \<noteq> HashAPIKey sha raw"
    using c by (auto simp: CreateAPIKey_def split: if_splits)
  have roles: "\<forall>(k, v) \<in> set grants. ParseRole v = Some v" using resolve_grants_roles[OF g] by simp
  define ident where "ident = \<lparr>id_name = in_name input, id_role = role, StackGrants = parsed_grants grants\<rparr>"
  have held: "holds_key ?k d1" using new by (auto simp: holds_key_def k is_key_refl)
  have run: "holds_key ?k (run_ops db_step ops d1)" if "OpDeleteKey i \<notin> set ops" for ops
    using holds_key_run[OF held] that by simp
  have 1: "keyLookup sha None (run_ops db_step ops d1) raw = Inr (Some ident)" if "OpDeleteKey i \<notin> set ops" for ops
    using holds_key_lookup[OF run[OF that], of sha raw role] ParseRole_idem[OF r] by (simp add: ident_def)
  have 2: "(case StackGrants ident of None \<Rightarrow> None | Some g \<Rightarrow> g s)
      = map_of (rev (List.map (\<lambda>(t, r). (st_id (the (find_stack d t)), the (ParseRole r))) (in_grants input))) s" for s
    using resolve_grants_map[OF g, of s] by (simp add: ident_def parsed_grants_valid[OF roles] split: option.splits) auto
  have 3: "keyLookup sha None d1 other = keyLookup sha None d other" if "HashAPIKey sha other \<noteq> HashAPIKey sha raw" for other
  proof -
    have "GetAPIKeyByHash (HashAPIKey sha other) d1 = GetAPIKeyByHash (HashAPIKey sha other) d"
      using that by (simp add: GetAPIKeyByHash_def k tbl_find_append eq_commute split: option.split)
    then show ?thesis by (simp add: keyLookup_def)
  qed
  have 4: "\<exists>d2. DeleteAPIKey_handler None i (run_ops db_step ops d1) = (KeyDeleted, d2, [''apikey.delete''])
       \<and> (\<forall>later. (\<forall>k. OpCreateKey k \<in> set later \<longrightarrow> ak_hash k \<noteq> HashAPIKey sha raw)
            \<longrightarrow> keyLookup sha None (run_ops db_step later d2) raw = Inr None)
       \<and> (\<forall>other. HashAPIKey sha other \<noteq> HashAPIKey sha raw
            \<longrightarrow> keyLookup sha None d2 other = keyLookup sha None (run_ops db_step ops d1) other)"
    if "OpDeleteKey i \<notin> set ops" for ops
  proof -
    note del = holds_key_deleted[OF run[OF that], simplified]
    show ?thesis
      using del absent_run[OF del(2)]
      by (intro exI[of _ "snd (DeleteAPIKey i (run_ops db_step ops d1))"])
         (simp add: DeleteAPIKey_handler_def keyLookup_def GetAPIKeyByHash_def case_prod_beta Let_def prod_eq_iff)
  qed
  have 5: "id_name ident = in_name input \<and> ParseRole (in_role input) = Some (id_role ident)"
    using r by (simp add: ident_def)
  show ?thesis
    by (intro conjI allI impI exI[of _ ident] 1 2 3 4 5[THEN conjunct1] 5[THEN conjunct2]) assumption+
qed

definition demo_key_input :: create_key_input where
  "demo_key_input = \<lparr>in_name = ''ci'', in_role = ''viewer'', in_grants = [(''s1'', ''operator'')]\<rparr>"

definition demo_key_db :: db where
  "demo_key_db = (empty_db None)\<lparr>t_stacks := [demo_stack]\<rparr>"

lemma api_key_lifecycle_witness:
  "\<exists>raw d1 ident. CreateAPIKey_handler (\<lambda>s. s) 7 (Some ''k'') (Inr ''k1'') demo_key_input demo_key_db
        = (KeyCreated ''k1'' raw ''viewer'' [(''s1'', ''operator'')], d1, [''apikey.create''])
     \<and> id_name ident = ''ci''
     \<and> keyLookup (\<lambda>s. s) None (run_ops db_step [OpTouchKey ''k1'' 9, OpDeleteKey ''k2''] d1) raw = Inr (Some ident)
     \<and> (\<exists>d2. DeleteAPIKey_handler None ''k1'' (run_ops db_step [OpTouchKey ''k1'' 9] d1) = (KeyDeleted, d2, [''apikey.delete''])
          \<and> keyLookup (\<lambda>s. s) None (run_ops db_step [OpTouchKey ''k1'' 10] d2) raw = Inr None)"
proof -
  obtain raw d1 where c: "CreateAPIKey_handler (\<lambda>s. s) 7 (Some ''k'') (Inr ''k1'') demo_key_input demo_key_db
        = (KeyCreated ''k1'' raw ''viewer'' [(''s1'', ''operator'')], d1, [''apikey.create''])"
  proof -
    have p: "ParseRole ''viewer'' = Some ''viewer''" "ParseRole ''operator'' = Some ''operator''" by code_simp+
    have k: "t_keys demo_key_db = []" by (simp add: demo_key_db_def empty_db_def)
    have f: "find_stack demo_key_db ''s1'' = Some demo_stack" by code_simp
    have "\<exists>raw d1. CreateAPIKey_handler (\<lambda>s. s) 7 (Some ''k'') (Inr ''k1'') demo_key_input demo_key_db
        = (KeyCreated ''k1'' raw ''viewer'' [(''s1'', ''operator'')], d1, [''apikey.create''])"
      by (simp add: CreateAPIKey_handler_def demo_key_input_def p f k GenerateAPIKey_def CreateAPIKey_def
          demo_stack_def Let_def)
    then show thesis using that by blast
  qed
  have "in_name demo_key_input = ''ci''" by (simp add: demo_key_input_def)
  note life = api_key_lifecycle[OF c]
  from life[THEN conjunct1] obtain ident where n: "id_name ident = ''ci''"
    and ops: "\<forall>ops. OpDeleteKey ''k1'' \<notin> set ops \<longrightarrow> keyLookup (\<lambda>s. s) None (run_ops db_step ops d1) raw = Inr (Some ident)"
    using \<open>in_name demo_key_input = ''ci''\<close> by (elim exE conjE) metis
  from life[THEN conjunct2, THEN conjunct2, rule_format, of "[OpTouchKey ''k1'' 9]"]
  obtain d2 where d2: "DeleteAPIKey_handler None ''k1'' (run_ops db_step [OpTouchKey ''k1'' 9] d1) = (KeyDeleted, d2, [''apikey.delete''])"
    and later: "\<forall>later. (\<forall>k. OpCreateKey k \<in> set later \<longrightarrow> ak_hash k \<noteq> HashAPIKey (\<lambda>s. s) raw)
       \<longrightarrow> keyLookup (\<lambda>s. s) None (run_ops db_step later d2) raw = Inr None"
    by auto
  have 1: "keyLookup (\<lambda>s. s) None (run_ops db_step [OpTouchKey ''k1'' 9, OpDeleteKey ''k2''] d1) raw = Inr (Some ident)"
    by (rule ops[rule_format]) simp
  have 2: "keyLookup (\<lambda>s. s) None (run_ops db_step [OpTouchKey ''k1'' 10] d2) raw = Inr None"
    by (rule later[rule_format]) simp
  show ?thesis using c n 1 d2 2 by blast
qed

section \<open>Who gets in\<close>

text \<open>A stored key authenticates only while it is enabled and its role is one of the four.\<close>

lemma keyLookup_Some:
  "keyLookup sha e d raw = Inr (Some ident) \<longleftrightarrow> e = None \<and>
     (\<exists>k. GetAPIKeyByHash (HashAPIKey sha raw) d = Some k \<and> \<not> ak_disabled k \<and> ParseRole (ak_role k) = Some (id_role ident)
        \<and> id_name ident = ak_name k \<and> StackGrants ident = parsed_grants (ak_grants k))"
  by (auto simp: keyLookup_def split: option.splits)

text \<open>The webhook that deploys a stack by name is not a path of that stack: the per-stack grants do not apply to it, and
  an operator key that a grant limits to viewing a stack can deploy that stack through it.\<close>

lemma webhook_ignores_grants:
  assumes "keyLookup sha None d raw = Inr (Some ident)" "id_role ident = RoleOperator" "raw \<noteq> []" "raw \<noteq> envKey"
  shows "api_key_auth envKey (keyLookup sha None d) (Some (resolveStack e1 e2 d))
           \<lparr>rq_method = ''POST'', rq_path = ''/api/v1/webhook'', rq_api_key = raw\<rparr> = AuthPass ident"
proof -
  have t: "StackTokenFromPath ''/api/v1/webhook'' = []" by code_simp
  have r: "RequiredRole ''POST'' ''/api/v1/webhook'' = RoleOperator" by code_simp
  show ?thesis using assms by (simp add: api_key_auth_def target_stack_def t r EffectiveRole_def satisfies_def Let_def)
qed

text \<open>When the queries of the resolver fail, the grant on the stack is not looked at: an operator key that a grant limits
  to viewing the stack passes for an operation on it.\<close>

lemma fault_ignores_grants:
  assumes "authenticated envKey lookup (rq_api_key r) i" "needed_access (rq_method r) (rq_path r) \<le> access_of (id_role i)"
  shows "api_key_auth envKey lookup (Some (resolveStack (Some e1) (Some e2) d)) r = AuthPass i"
proof -
  have "EffectiveRole i (target_stack (Some (resolveStack (Some e1) (Some e2) d)) (rq_path r)) = id_role i"
    by (simp add: EffectiveRole_def target_stack_def resolveStack_broken Let_def)
  then show ?thesis
    using assms by (simp add: api_key_auth_def authenticated_def satisfies_access needed_access_required Let_def split: if_splits)
qed

end
