(* ===== verification/Api_Guards.thy ===== *)
theory Api_Guards
  imports Browsers Auth_Store
begin

text \<open>
  What the handlers that touch Docker can do: a property of the log that says of every new event when it may be made,
  and the theorems that a restart or an exec is of a container of the stack the request names, and that a helper
  container opens only a volume Docker listed as managed on the same host.
\<close>

section \<open>Traces\<close>

text \<open>The events after \<open>l\<close> are such that each is allowed by \<open>P\<close> where it was made.\<close>

fun allowed_from :: "(log \<Rightarrow> event \<Rightarrow> bool) \<Rightarrow> log \<Rightarrow> event list \<Rightarrow> bool" where
  "allowed_from P l [] = True"
| "allowed_from P l (e # es) = (P l e \<and> allowed_from P (l @ [e]) es)"

lemma allowed_from_append: "allowed_from P l (a @ b) \<longleftrightarrow> allowed_from P l a \<and> allowed_from P (l @ a) b"
  by (induction a arbitrary: l) simp_all

definition traced :: "(log \<Rightarrow> event \<Rightarrow> bool) \<Rightarrow> log \<Rightarrow> world \<Rightarrow> bool" where
  "traced P l0 w \<longleftrightarrow> (\<exists>es. w_log w = l0 @ es \<and> allowed_from P l0 es)"

lemma traced_start: "traced P (w_log w) w"
  by (simp add: traced_def)

lemma traced_db: "traced P l0 (w\<lparr>w_db := d\<rparr>) = traced P l0 w"
  by (simp add: traced_def)

lemma traced_snoc:
  assumes "traced P l0 w" "P (w_log w) e"
  shows "traced P l0 (w\<lparr>w_log := w_log w @ [e]\<rparr>)"
proof -
  obtain es where "w_log w = l0 @ es" "allowed_from P l0 es" using assms(1) by (auto simp: traced_def)
  then show ?thesis using assms(2) by (auto simp: traced_def allowed_from_append intro!: exI[of _ "es @ [e]"])
qed

lemma traced_emit: "(\<And>l a. P l (ev a)) \<Longrightarrow> keeps (traced P l0) (emit ans ev)"
  by (rule keeps_emit) (rule traced_snoc)

lemma traced_tolerates: "(\<And>l e. E e \<Longrightarrow> P l e) \<Longrightarrow> tolerates E (traced P l0)"
  by (simp add: tolerates_def traced_snoc)

lemma traced_event:
  "traced P l0 w \<Longrightarrow> w_log w = l0 @ a @ e # b \<Longrightarrow> P (l0 @ a) e"
  unfolding traced_def by (auto simp: allowed_from_append)

text \<open>A rule that leaves bookkeeping alone.\<close>

definition allows_books :: "(log \<Rightarrow> event \<Rightarrow> bool) \<Rightarrow> bool" where
  "allows_books P \<longleftrightarrow> (\<forall>l e. bookkeeping e \<longrightarrow> P l e)"

lemma traced_audit: "allows_books P \<Longrightarrow> audit_free (traced P l0)"
  by (simp add: audit_free_def traced_db traced_tolerates allows_books_def)

lemma traced_store: "allows_books P \<Longrightarrow> keeps (traced P l0) (store_call \<Omega> op f)"
  by (rule keeps_store_call) (simp_all add: traced_db traced_snoc allows_books_def)

lemma traced_books:
  assumes "allows_books P"
  shows "keeps (traced P l0) (record_entry H e)" "keeps (traced P l0) (now \<Omega>)" "keeps (traced P l0) (generateID \<Omega>)"
    "keeps (traced P l0) (h_nonce H)"
  using recordAudit_frame[OF traced_audit[OF assms]] bookkeeping_ops[OF audit_freeD[OF traced_audit[OF assms]]]
  by (simp_all add: record_entry_def h_nonce_def)

section \<open>Rules for handlers\<close>

lemma keeps_or_answer [keep]: "keeps I m \<Longrightarrow> (\<And>x. keeps I (f x)) \<Longrightarrow> keeps I (or_answer m f)"
  unfolding or_answer_def respond_def by (intro keeps_bind keeps_case_sum keeps_return) assumption+

lemma keeps_or_error [keep]: "keeps I m \<Longrightarrow> (\<And>x. keeps I (f x)) \<Longrightarrow> keeps I (or_error msg s m f)"
  unfolding or_error_def respond_error_def respond_def by (intro keeps_bind keeps_case_sum keeps_return) assumption+

lemma keeps_respond [keep]: "keeps I (respond r)" "keeps I (respond_error msg s)"
  by (simp_all add: respond_def respond_error_def keeps_return)

text \<open>A handler that goes on only with what it knows of \<open>x\<close>.\<close>

lemma valid_or_answer:
  assumes "valid P m (\<lambda>r w. case r of Inl _ \<Rightarrow> Q w | Inr x \<Rightarrow> R x w)" "\<And>x. valid (R x) (f x) (\<lambda>_. Q)"
  shows "valid P (or_answer m f) (\<lambda>_. Q)"
  unfolding or_answer_def
proof (rule valid_bind[OF assms(1)])
  fix r show "valid (\<lambda>w. case r of Inl _ \<Rightarrow> Q w | Inr x \<Rightarrow> R x w) (case r of Inl resp \<Rightarrow> respond resp | Inr x \<Rightarrow> f x) (\<lambda>_. Q)"
    using assms(2) by (cases r) (simp_all add: respond_def)
qed

lemma valid_or_error:
  assumes "valid P m (\<lambda>r w. case r of Inl _ \<Rightarrow> Q w | Inr x \<Rightarrow> R x w)" "\<And>x. valid (R x) (f x) (\<lambda>_. Q)"
  shows "valid P (or_error msg s m f) (\<lambda>_. Q)"
  unfolding or_error_def
proof (rule valid_bind[OF assms(1)])
  fix r show "valid (\<lambda>w. case r of Inl _ \<Rightarrow> Q w | Inr x \<Rightarrow> R x w) (case r of Inl _ \<Rightarrow> respond_error msg s | Inr x \<Rightarrow> f x) (\<lambda>_. Q)"
    using assms(2) by (cases r) (simp_all add: respond_def respond_error_def)
qed

section \<open>Lookups find what is stored\<close>

text \<open>A step that only reads: the property and the database stay, and what it answers is what the database holds.\<close>

lemma h_store_valid:
  assumes "tolerates bookkeeping I"
  shows "valid (\<lambda>w. I w \<and> w_db w = d) (h_store H op f) (\<lambda>r w. (I w \<and> w_db w = d) \<and> (\<forall>x. r = Inr x \<longrightarrow> f d = Inr x))"
proof (rule validI)
  fix w r w' assume w: "I w \<and> w_db w = d" and r: "run_state (h_store H op f) w = (r, w')"
  have "I (w\<lparr>w_log := w_log w @ [EStore op e]\<rparr>)" for e using assms w by (simp add: tolerates_def)
  then show "(I w' \<and> w_db w' = d) \<and> (\<forall>x. r = Inr x \<longrightarrow> f d = Inr x)"
    using store_call_result[OF r[unfolded h_store_def]] w by (auto simp: reading_def)
qed

lemma valid_result: "(\<And>w. P w \<Longrightarrow> Q a w) \<Longrightarrow> valid P (State_Monad.return a) Q"
  by simp

lemma stack_by_name_valid:
  assumes "tolerates bookkeeping I"
  shows "valid (\<lambda>w. I w \<and> w_db w = d) (stack_by_name H n)
    (\<lambda>r w. (I w \<and> w_db w = d) \<and> (\<forall>st. r = Some st \<longrightarrow> GetStackByName n d = Inr (Some st)))"
  unfolding stack_by_name_def
  by (rule valid_bind[OF h_store_valid[OF assms]], rule valid_result) (auto split: sum.splits)

lemma resolveStack_valid:
  assumes I: "tolerates bookkeeping I"
  shows "valid (\<lambda>w. I w \<and> w_db w = d) (resolveStack_handler H r)
    (\<lambda>x w. (I w \<and> w_db w = d) \<and> (\<forall>st. x = Inr st \<longrightarrow> find_stack d (rq_vars r ''id'') = Some st))"
  unfolding resolveStack_handler_def
proof (rule valid_bind[OF h_store_valid[OF I]])
  fix g
  let ?i = "rq_vars r ''id''"
  let ?P = "\<lambda>w. (I w \<and> w_db w = d) \<and> (\<forall>x. g = Inr x \<longrightarrow> GetStack ?i d = Inr x)"
  let ?Q = "\<lambda>x w. (I w \<and> w_db w = d) \<and> (\<forall>st. x = Inr st \<longrightarrow> find_stack d ?i = Some st)"
  consider e where "g = Inl e" | st where "g = Inr (Some st)" | "g = Inr None" by (metis old.sum.exhaust option.exhaust)
  then show "valid ?P (case g of
       Inl _ \<Rightarrow> State_Monad.return (Inl (writeError ''failed to get stack'' 500))
     | Inr (Some st) \<Rightarrow> State_Monad.return (Inr st)
     | Inr None \<Rightarrow> do {
         s \<leftarrow> stack_by_name H ?i;
         State_Monad.return (case s of None \<Rightarrow> Inl (writeError ''stack not found'' 404) | Some st \<Rightarrow> Inr st) }) ?Q"
  proof cases
    case 3
    show ?thesis unfolding 3 sum.case option.case
    proof (rule valid_conseq[where P = "\<lambda>w. GetStack ?i d = Inr None \<and> I w \<and> w_db w = d" and Q = ?Q])
      have "tolerates bookkeeping (\<lambda>w. GetStack ?i d = Inr None \<and> I w)" using I by (simp add: tolerates_def)
      from stack_by_name_valid[OF this, of d H ?i]
      show "valid (\<lambda>w. GetStack ?i d = Inr None \<and> I w \<and> w_db w = d) (do {
          s \<leftarrow> stack_by_name H ?i;
          State_Monad.return (case s of None \<Rightarrow> Inl (writeError ''stack not found'' 404) | Some st \<Rightarrow> Inr st) }) ?Q"
        by (intro valid_bind[where R = "\<lambda>s w. ((GetStack ?i d = Inr None \<and> I w) \<and> w_db w = d)
              \<and> (\<forall>st. s = Some st \<longrightarrow> GetStackByName ?i d = Inr (Some st))"])
           (auto simp: find_stack_def split: option.splits)
    qed auto
  qed (simp_all add: find_stack_def)
qed

lemma lookup_stack_valid:
  assumes I: "tolerates bookkeeping I"
  shows "valid (\<lambda>w. I w \<and> w_db w = d) (lookup_stack H r)
    (\<lambda>x w. (I w \<and> w_db w = d) \<and> (\<forall>st. x = Inr st \<longrightarrow> GetStack (rq_vars r ''id'') d = Inr (Some st)
       \<or> GetStackByName (rq_vars r ''id'') d = Inr (Some st)))"
  unfolding lookup_stack_def
proof (rule valid_bind[OF h_store_valid[OF I]])
  fix g
  let ?i = "rq_vars r ''id''"
  let ?P = "\<lambda>w. (I w \<and> w_db w = d) \<and> (\<forall>x. g = Inr x \<longrightarrow> GetStack ?i d = Inr x)"
  let ?Q = "\<lambda>x w. (I w \<and> w_db w = d) \<and> (\<forall>st. x = Inr st \<longrightarrow> GetStack ?i d = Inr (Some st) \<or> GetStackByName ?i d = Inr (Some st))"
  let ?other = "do {
         s \<leftarrow> stack_by_name H ?i;
         State_Monad.return (case s of None \<Rightarrow> Inl (writeError ''stack not found'' 404) | Some st \<Rightarrow> Inr st) }"
  have other: "valid ?P ?other ?Q"
    by (rule valid_conseq[OF valid_bind[OF stack_by_name_valid[OF I, of d H ?i]], where Q = ?Q]) (auto split: option.splits)
  show "valid ?P (case g of Inr (Some st) \<Rightarrow> State_Monad.return (Inr st) | _ \<Rightarrow> ?other) ?Q"
    using other by (cases g rule: sum.exhaust; cases "projr g") (auto split: option.splits)
qed

text \<open>A token that names one stack: the one with this id and the one with this name, when there are both, are the
  same. Ids are drawn at random, so only a stack named like the id of another one breaks this.\<close>

definition unambiguous :: "db \<Rightarrow> string \<Rightarrow> bool" where
  "unambiguous d token \<longleftrightarrow>
     (\<forall>a b. GetStack token d = Inr (Some a) \<longrightarrow> GetStackByName token d = Inr (Some b) \<longrightarrow> st_id a = st_id b)"


text \<open>For instance, a caller who may only view in general and operate one stack deploys that stack by its name and
  changes its secrets.\<close>

definition demo_handler :: handler where
  "demo_handler = \<lparr>h_env = demo_docker, h_deployer = demo_deployer, h_reconciler = Some demo_reconciler, h_audit = Some StoreRecorder,
     h_docker = None, h_docker_for = None, h_docker_hosts = None, h_browser = None, h_browser_for = None, h_allow_writes = False,
     h_encryption = False, h_docker_ping = None, h_store_ping = (\<lambda>_. Inr ()), h_shutting_down = False, h_probe = (\<lambda>_ _. Inr ()),
     h_duration = (\<lambda>_. Inl (ErrText ''invalid duration'')), h_rfc3339 = (\<lambda>_. None), h_upgrade = (\<lambda>_. Inr ()), h_exec_pipe = (\<lambda>_ _. 0)\<rparr>"

definition demo_grantee :: identity where
  "demo_grantee = \<lparr>id_name = ''ci'', id_role = RoleViewer, StackGrants = Some [''s1'' \<mapsto> RoleOperator]\<rparr>"

definition demo_request :: request where
  "demo_request = \<lparr>rq_vars = (\<lambda>v. if v = ''id'' then ''web'' else []), rq_query = [],
     rq_origin = \<lparr>ro_identity = Some demo_grantee, ro_request_id = None, ro_api_key = ''s3cret'', ro_forwarded = [], ro_peer = []\<rparr>\<rparr>"


section \<open>Restart and exec\<close>

text \<open>The client of a stack's host, as the handler got it.\<close>

definition stack_client :: "handler \<Rightarrow> log \<Rightarrow> stack \<Rightarrow> daemon \<Rightarrow> bool" where
  "stack_client H l st dkr \<longleftrightarrow>
     (case h_docker_for H of
        None \<Rightarrow> h_docker H = Some dkr
      | Some clientFor \<Rightarrow> if HostID st = [] then h_docker H = Some dkr else \<exists>p. prefix p l \<and> clientFor p (HostID st) = Inr dkr)"

text \<open>A container that this client, when it was inspected before, said carries the two labels of the stack: managed-by
  with the value accelero, and accelero-stack with the stack's name.\<close>

definition inspected :: "handler \<Rightarrow> log \<Rightarrow> stack \<Rightarrow> string \<Rightarrow> daemon \<Rightarrow> inspect_response \<Rightarrow> bool" where
  "inspected H l st cid dkr c \<longleftrightarrow> stack_client H l st dkr
     \<and> (\<exists>p. prefix p l \<and> da_inspect dkr p cid = Inr c)
     \<and> (\<exists>cfg. ir_config c = Some cfg \<and> map_of (ic_labels cfg) ''managed-by'' = Some ''accelero''
          \<and> (case map_of (ic_labels cfg) ''accelero-stack'' of Some v \<Rightarrow> v = st_name st | None \<Rightarrow> st_name st = []))"

lemma belongs_labelled:
  "containerBelongsToStack c name \<longleftrightarrow> (\<exists>cfg. ir_config c = Some cfg \<and> map_of (ic_labels cfg) ''managed-by'' = Some ''accelero''
     \<and> (case map_of (ic_labels cfg) ''accelero-stack'' of Some v \<Rightarrow> v = name | None \<Rightarrow> name = []))"
  by (auto simp: containerBelongsToStack_def label_def containerLabelManagedBy_def containerLabelManagedValue_def
      containerLabelStackName_def split: option.splits)

fun touch_ok :: "handler \<Rightarrow> request \<Rightarrow> db \<Rightarrow> log \<Rightarrow> event \<Rightarrow> bool" where
  "touch_ok H r d l (ECall op args err) =
     (op = ''ContainerRestart'' \<or> op = ''ExecCreate'' \<longrightarrow>
        (\<exists>st dkr c. find_stack d (rq_vars r ''id'') = Some st \<and> inspected H l st (rq_vars r ''cid'') dkr c
           \<and> args \<noteq> [] \<and> hd args = ir_id c))"
| "touch_ok H r d l e = observing e"

lemma touch_books: "allows_books (touch_ok H r d)"
proof -
  have "bookkeeping e \<Longrightarrow> touch_ok H r d l e" for l e by (cases e) simp_all
  then show ?thesis by (simp add: allows_books_def)
qed

lemma dockerForStack_valid:
  assumes "\<And>l h e. P l (EHost h e)" "h_docker H = Some docker"
  shows "valid (traced P l0) (dockerForStack H st docker)
    (\<lambda>x w. traced P l0 w \<and> (\<forall>dkr. x = Inr dkr \<longrightarrow> stack_client H (w_log w) st dkr))"
  unfolding dockerForStack_def
proof (cases "HostID st = [] \<or> h_docker_for H = None")
  case True
  then show "valid (traced P l0) (if HostID st = [] then State_Monad.return (Inr docker) else case h_docker_for H of
      None \<Rightarrow> State_Monad.return (Inr docker)
    | Some clientFor \<Rightarrow> do {
        x \<leftarrow> emit (\<lambda>l. clientFor l (HostID st)) (\<lambda>x. EHost (HostID st) (res_err x));
        State_Monad.return (case x of
            Inl e \<Rightarrow> Inl (writeError (''stack'' @ [CHR 0x27] @ ''s docker host is unavailable: '' @ err_msg e) 502)
          | Inr dkr \<Rightarrow> Inr dkr) })
    (\<lambda>x w. traced P l0 w \<and> (\<forall>dkr. x = Inr dkr \<longrightarrow> stack_client H (w_log w) st dkr))"
    using assms(2) by (auto simp: stack_client_def split: option.split)
next
  case False
  then obtain clientFor where c: "HostID st \<noteq> []" "h_docker_for H = Some clientFor" by auto
  have e: "valid (traced P l0) (emit (\<lambda>l. clientFor l (HostID st)) (\<lambda>x. EHost (HostID st) (res_err x)))
      (\<lambda>x w. traced P l0 w \<and> (\<forall>dkr. x = Inr dkr \<longrightarrow> stack_client H (w_log w) st dkr))"
    using c assms(1) by (auto simp: stack_client_def traced_snoc intro!: exI[of _ "w_log _"])
  show "valid (traced P l0) (if HostID st = [] then State_Monad.return (Inr docker) else case h_docker_for H of
      None \<Rightarrow> State_Monad.return (Inr docker)
    | Some clientFor \<Rightarrow> do {
        x \<leftarrow> emit (\<lambda>l. clientFor l (HostID st)) (\<lambda>x. EHost (HostID st) (res_err x));
        State_Monad.return (case x of
            Inl e \<Rightarrow> Inl (writeError (''stack'' @ [CHR 0x27] @ ''s docker host is unavailable: '' @ err_msg e) 502)
          | Inr dkr \<Rightarrow> Inr dkr) })
    (\<lambda>x w. traced P l0 w \<and> (\<forall>dkr. x = Inr dkr \<longrightarrow> stack_client H (w_log w) st dkr))"
    unfolding c(2) option.case if_not_P[OF c(1)]
    by (rule valid_bind[OF e]) (auto split: sum.splits)
qed

lemma with_docker_valid:
  assumes P: "allows_books P" "\<And>l h e. P l (EHost h e)"
    and f: "\<And>st dkr. find_stack d (rq_vars r ''id'') = Some st
      \<Longrightarrow> valid (\<lambda>w. traced P l0 w \<and> stack_client H (w_log w) st dkr) (f st dkr) (\<lambda>_. traced P l0)"
  shows "valid (\<lambda>w. traced P l0 w \<and> w_db w = d) (with_docker H r f) (\<lambda>_. traced P l0)"
  unfolding with_docker_def
proof (rule valid_or_answer)
  show "valid (\<lambda>w. traced P l0 w \<and> w_db w = d) (resolveStack_handler H r)
      (\<lambda>x w. case x of Inl _ \<Rightarrow> traced P l0 w | Inr st \<Rightarrow> traced P l0 w \<and> find_stack d (rq_vars r ''id'') = Some st)"
    by (rule valid_conseq[OF resolveStack_valid[OF audit_freeD[OF traced_audit[OF P(1)]]]]) (auto split: sum.split)
  fix st
  show "valid (\<lambda>w. traced P l0 w \<and> find_stack d (rq_vars r ''id'') = Some st)
      (case h_docker H of
         None \<Rightarrow> respond_error ''container introspection is not configured on this server'' 503
       | Some docker \<Rightarrow> or_answer (dockerForStack H st docker) (f st)) (\<lambda>_. traced P l0)"
  proof (cases "h_docker H")
    case (Some docker)
    have "valid (traced P l0) (or_answer (dockerForStack H st docker) (f st)) (\<lambda>_. traced P l0)"
      if s: "find_stack d (rq_vars r ''id'') = Some st"
      by (rule valid_or_answer[OF _ f[OF s]], rule valid_conseq[OF dockerForStack_valid[where P = P, OF P(2) Some]]) (auto split: sum.split)
    then show ?thesis unfolding Some by (auto simp: valid_def)
  qed (simp add: respond_error_def respond_def)
qed

lemma container_valid:
  assumes "\<And>l op args e. op \<noteq> ''ContainerRestart'' \<Longrightarrow> op \<noteq> ''ExecCreate'' \<Longrightarrow> P l (ECall op args e)"
  shows "valid (\<lambda>w. traced P l0 w \<and> stack_client H (w_log w) st dkr) (resolveStackContainer dkr (st_name st) cid)
    (\<lambda>x w. case x of Inl _ \<Rightarrow> traced P l0 w | Inr c \<Rightarrow> traced P l0 w \<and> inspected H (w_log w) st cid dkr c)"
proof -
  have sc: "stack_client H (l @ m) st dkr" if "stack_client H l st dkr" for l m
    using that by (auto simp: stack_client_def split: option.splits if_splits intro: prefix_prefix)
  show ?thesis
    unfolding resolveStackContainer_def docker_call_def
    by (rule valid_bind[where R = "\<lambda>x w. traced P l0 w \<and> (\<forall>c. x = Inr c \<longrightarrow> stack_client H (w_log w) st dkr
          \<and> (\<exists>p. prefix p (w_log w) \<and> da_inspect dkr p cid = Inr c))"])
       (auto simp: traced_snoc assms sc inspected_def belongs_labelled[symmetric] split: sum.splits intro!: exI[of _ "w_log _"])
qed

lemma touch_calls: "op \<noteq> ''ContainerRestart'' \<Longrightarrow> op \<noteq> ''ExecCreate'' \<Longrightarrow> touch_ok H r d l (ECall op args e)"
  by simp

lemma touch_host: "touch_ok H r d l (EHost h e)"
  by simp

text \<open>The call on a container that was inspected is allowed, and what follows it is not about containers.\<close>

lemma touch_call_valid:
  assumes "find_stack d (rq_vars r ''id'') = Some st" "args \<noteq> []" "hd args = ir_id c"
  shows "valid (\<lambda>w. traced (touch_ok H r d) l0 w \<and> inspected H (w_log w) st (rq_vars r ''cid'') dkr c)
    (docker_call op args ans) (\<lambda>_. traced (touch_ok H r d) l0)"
proof -
  have "touch_ok H r d (w_log w) (ECall op args e)" if "inspected H (w_log w) st (rq_vars r ''cid'') dkr c" for w e
    using assms that by auto
  then show ?thesis unfolding docker_call_def by (auto intro!: traced_snoc)
qed

lemma touch_other: "op \<noteq> ''ContainerRestart'' \<Longrightarrow> op \<noteq> ''ExecCreate'' \<Longrightarrow> keeps (traced (touch_ok H r d) l0) (docker_call op args ans)"
  unfolding docker_call_def by (rule traced_emit) (rule touch_calls)

lemmas touch_ops = traced_books[OF touch_books]

lemma exec_session_keeps: "keeps (traced (touch_ok H r d) l0) (upgraded H (exec_session H r dkr i e))"
  by (simp add: upgraded_def exec_session_def recordExecEnd_def keep touch_ops touch_other traced_emit)

lemma restart_valid:
  "valid (\<lambda>w. traced (touch_ok H r d) l0 w \<and> w_db w = d) (RestartStackContainer_handler H r) (\<lambda>_. traced (touch_ok H r d) l0)"
  unfolding RestartStackContainer_handler_def with_container_def
proof (rule with_docker_valid[where P = "touch_ok H r d", OF touch_books touch_host], rule valid_or_answer[OF container_valid[where P = "touch_ok H r d", OF touch_calls]])
  fix st dkr c
  assume s: "find_stack d (rq_vars r ''id'') = Some st"
  let ?R = "\<lambda>w. traced (touch_ok H r d) l0 w \<and> inspected H (w_log w) st (rq_vars r ''cid'') dkr c"
  have rest: "keeps (traced (touch_ok H r d) l0) (do {
      _ \<leftarrow> record_entry H (restart_entry r st c t x);
      case x of Inl _ \<Rightarrow> respond_error ''failed to restart container'' 500
      | Inr _ \<Rightarrow> respond (writeJSON (strings_json [(''status'', ''accepted''), (''container_id'', ir_id c)]) 202) })" for t x
    by (simp add: keep touch_ops)
  show "valid ?R (or_answer (State_Monad.return (restart_timeout (Query r ''t''))) (\<lambda>timeout. do {
       x \<leftarrow> docker_call ''ContainerRestart'' [ir_id c] (\<lambda>l. da_restart dkr l (ir_id c) timeout);
       _ \<leftarrow> record_entry H (restart_entry r st c timeout x);
       case x of
         Inl _ \<Rightarrow> respond_error ''failed to restart container'' 500
       | Inr _ \<Rightarrow> respond (writeJSON (strings_json [(''status'', ''accepted''), (''container_id'', ir_id c)]) 202) }))
     (\<lambda>_. traced (touch_ok H r d) l0)"
    by (rule valid_or_answer[where R = "\<lambda>_. ?R"], rule valid_result, simp split: sum.split,
        rule valid_bind[OF touch_call_valid[OF s] rest[unfolded keeps_def]]) simp_all
qed simp_all

lemma exec_valid:
  "valid (\<lambda>w. traced (touch_ok H r d) l0 w \<and> w_db w = d) (ExecStackContainer_handler H r) (\<lambda>_. traced (touch_ok H r d) l0)"
  unfolding ExecStackContainer_handler_def
proof (rule with_docker_valid[where P = "touch_ok H r d", OF touch_books touch_host])
  fix st dkr
  assume s: "find_stack d (rq_vars r ''id'') = Some st"
  let ?cmd = "exec_command r"
  have call: "valid (\<lambda>w. traced (touch_ok H r d) l0 w \<and> inspected H (w_log w) st (rq_vars r ''cid'') dkr c)
      (or_error ''failed to create exec session'' 500 (docker_call ''ExecCreate'' (ir_id c # ?cmd) (\<lambda>l. da_exec_create dkr l (ir_id c) ?cmd))
        (\<lambda>execID. do {
           _ \<leftarrow> record_entry H (exec_entry r st c execID ?cmd);
           upgraded H (exec_session H r dkr execID (exec_entry r st c execID ?cmd)) }))
      (\<lambda>_. traced (touch_ok H r d) l0)" for c
  proof (rule valid_or_error[where R = "\<lambda>_. traced (touch_ok H r d) l0"])
    show "valid (\<lambda>w. traced (touch_ok H r d) l0 w \<and> inspected H (w_log w) st (rq_vars r ''cid'') dkr c)
        (docker_call ''ExecCreate'' (ir_id c # ?cmd) (\<lambda>l. da_exec_create dkr l (ir_id c) ?cmd))
        (\<lambda>x w. case x of Inl _ \<Rightarrow> traced (touch_ok H r d) l0 w | Inr _ \<Rightarrow> traced (touch_ok H r d) l0 w)"
      by (rule valid_conseq[OF touch_call_valid[OF s, where dkr = dkr and c = c]]) (simp_all split: sum.split)
    show "valid (traced (touch_ok H r d) l0) (do {
           _ \<leftarrow> record_entry H (exec_entry r st c execID ?cmd);
           upgraded H (exec_session H r dkr execID (exec_entry r st c execID ?cmd)) }) (\<lambda>_. traced (touch_ok H r d) l0)" for execID
      using exec_session_keeps touch_ops(1) by (intro keeps_bind[unfolded keeps_def]) (simp_all add: keeps_def)
  qed
  show "valid (\<lambda>w. traced (touch_ok H r d) l0 w \<and> stack_client H (w_log w) st dkr)
     (let cmd = ?cmd in
      if cmd = [] then respond_error ''cmd query param is required (pass it multiple times for additional args)'' 400
      else or_answer (resolveStackContainer dkr (st_name st) (rq_vars r ''cid'')) (\<lambda>c.
        or_error ''failed to create exec session'' 500
          (docker_call ''ExecCreate'' (ir_id c # cmd) (\<lambda>l. da_exec_create dkr l (ir_id c) cmd)) (\<lambda>execID. do {
            _ \<leftarrow> record_entry H (exec_entry r st c execID cmd);
            upgraded H (exec_session H r dkr execID (exec_entry r st c execID cmd)) })))
     (\<lambda>_. traced (touch_ok H r d) l0)"
    using valid_or_answer[OF container_valid[where P = "touch_ok H r d", OF touch_calls] call] by (simp add: respond_error_def respond_def Let_def)
qed

text \<open>An action stays within a rule from the log it starts with on.\<close>

definition stays_in :: "(log \<Rightarrow> event \<Rightarrow> bool) \<Rightarrow> 'a act \<Rightarrow> world \<Rightarrow> bool" where
  "stays_in P m w \<longleftrightarrow> (\<exists>es. w_log (snd (run_state m w)) = w_log w @ es \<and> allowed_from P (w_log w) es)"

lemma stays_inI: "valid (traced P (w_log w)) m (\<lambda>_. traced P (w_log w)) \<Longrightarrow> stays_in P m w"
  using traced_start[of P w] by (auto simp: stays_in_def valid_def traced_def)

text \<open>C20. A restart or an exec only ever reaches a container of the stack that the request names: whenever one of the two
  handlers makes such a call, the container's id is that of an inspection which the client of that stack's own host had
  answered before, and whose labels are managed-by=accelero and accelero-stack with the stack's name. Neither handler creates, starts, stops or
  removes a container, network or volume.\<close>

theorem container_touch_guarded:
  "stays_in (touch_ok H r (w_db w)) (RestartStackContainer_handler H r) w
   \<and> stays_in (touch_ok H r (w_db w)) (ExecStackContainer_handler H r) w"
proof -
  have "stays_in (touch_ok H r (w_db w)) m w"
    if "valid (\<lambda>w'. traced (touch_ok H r (w_db w)) (w_log w) w' \<and> w_db w' = w_db w) m (\<lambda>_. traced (touch_ok H r (w_db w)) (w_log w))"
    for m :: "answer act"
    using validD[OF that, of w] traced_start[of "touch_ok H r (w_db w)" w] unfolding stays_in_def traced_def
    by (metis prod.exhaust_sel)
  then show ?thesis using restart_valid exec_valid by blast
qed

section \<open>The files of a volume\<close>

lemma helper_creates: "createHelperWithMode k vol m = (x, tr) \<Longrightarrow> VCreate v ro \<in> set tr \<Longrightarrow> v = vol \<and> ro = m"
  by (auto simp: createHelperWithMode_def ensureHelperImage_def Let_def split: sum.splits prod.splits if_splits)

lemma list_creates: "VCreate v ro \<in> set (snd (ListPath k vol p)) \<Longrightarrow> v = vol \<and> ro"
  by (auto simp: ListPath_def Let_def split: sum.splits prod.splits dest!: helper_creates)

lemma read_creates: "VCreate v ro \<in> set (snd (ReadFile k vol p n)) \<Longrightarrow> v = vol \<and> ro"
  by (auto simp: ReadFile_def Let_def split: sum.splits prod.splits dest!: helper_creates)

lemma write_creates: "VCreate v ro \<in> set (snd (WriteFile t k vol p mode sz)) \<Longrightarrow> v = vol \<and> \<not> ro"
  by (auto simp: WriteFile_def Let_def split: sum.splits prod.splits if_splits dest!: helper_creates)

lemma read_closes: "fst (ReadFile k vol p n) = Inr (h, onClose) \<Longrightarrow> VCreate v ro \<notin> set onClose"
  by (auto simp: ReadFile_def Let_def split: sum.splits prod.splits if_splits)

text \<open>Docker, asked through the client of the host \<open>h\<close> for the volumes with the label managed-by=accelero, listed the
  volume.\<close>

definition host_daemon :: "handler \<Rightarrow> log \<Rightarrow> string \<Rightarrow> daemon \<Rightarrow> bool" where
  "host_daemon H l h dkr \<longleftrightarrow> (h = [] \<and> h_docker H = Some dkr)
     \<or> (\<exists>clientFor p. h_docker_for H = Some clientFor \<and> prefix p l \<and> clientFor p h = Inr dkr)"

definition listed_managed :: "handler \<Rightarrow> log \<Rightarrow> string \<Rightarrow> string \<Rightarrow> bool" where
  "listed_managed H l h name \<longleftrightarrow>
     (\<exists>dkr p fs vs. host_daemon H l h dkr \<and> prefix p l \<and> (''label'', ''managed-by=accelero'') \<in> set fs
        \<and> da_volumes dkr p fs = Inr vs \<and> name \<in> dv_name ` set vs)"

fun volume_ok :: "handler \<Rightarrow> request \<Rightarrow> bool \<Rightarrow> log \<Rightarrow> event \<Rightarrow> bool" where
  "volume_ok H r readonly l (EVolume h calls) =
     (listed_managed H l h (rq_vars r ''name'') \<and> (\<forall>v ro. VCreate v ro \<in> set calls \<longrightarrow> v = rq_vars r ''name'' \<and> ro = readonly))"
| "volume_ok H r readonly l (ECall op args err) = (op = ''VolumeList'')"
| "volume_ok H r readonly l e = observing e"

lemma volume_books: "allows_books (volume_ok H r m)"
proof -
  have "bookkeeping e \<Longrightarrow> volume_ok H r m l e" for l e by (cases e) simp_all
  then show ?thesis by (simp add: allows_books_def)
qed

lemma volume_host_event: "volume_ok H r m l (EHost h e)"
  by simp

lemmas volume_ops = traced_books[OF volume_books]

lemma listed_later: "listed_managed H l h name \<Longrightarrow> listed_managed H (l @ m) h name"
  unfolding listed_managed_def host_daemon_def by (blast intro: prefix_prefix)

lemma host_daemon_later: "host_daemon H l h dkr \<Longrightarrow> host_daemon H (l @ m) h dkr"
  unfolding host_daemon_def by (blast intro: prefix_prefix)

text \<open>Once listed, recording and operations of the browser on that host keep the trace and the knowledge.\<close>

definition vol_traced :: "handler \<Rightarrow> request \<Rightarrow> bool \<Rightarrow> log \<Rightarrow> string \<Rightarrow> world \<Rightarrow> bool" where
  "vol_traced H r m l0 h w \<longleftrightarrow> traced (volume_ok H r m) l0 w \<and> listed_managed H (w_log w) h (rq_vars r ''name'')"

lemma vol_traced_audit: "audit_free (vol_traced H r m l0 h)"
  unfolding audit_free_def
  using traced_snoc[of "volume_ok H r m" l0] volume_books[of H r m] listed_later[of H _ h]
  by (auto simp: vol_traced_def traced_db tolerates_def allows_books_def)

lemma vol_traced_ops:
  "keeps (vol_traced H r m l0 h) (record_entry G e)" "keeps (vol_traced H r m l0 h) (now \<Omega>)"
  using recordAudit_frame[OF vol_traced_audit] bookkeeping_ops[OF audit_freeD[OF vol_traced_audit]]
  by (simp_all add: record_entry_def)

lemma browse_valid:
  assumes "\<And>k v ro. VCreate v ro \<in> set (snd (f k)) \<Longrightarrow> v = rq_vars r ''name'' \<and> ro = m"
  shows "valid (vol_traced H r m l0 (vh_id vh)) (browse vh f) (\<lambda>x w. vol_traced H r m l0 (vh_id vh) w \<and> (\<exists>k. x = fst (f k)))"
proof -
  have "vol_traced H r m l0 (vh_id vh) (w\<lparr>w_log := w_log w @ [EVolume (vh_id vh) (snd (f k))]\<rparr>)"
    if "vol_traced H r m l0 (vh_id vh) w" for w k
    using that assms[of _ _ k] unfolding vol_traced_def by (auto intro!: traced_snoc listed_later)
  then show ?thesis
    unfolding browse_def
    by (intro valid_bind[where R = "\<lambda>a w. vol_traced H r m l0 (vh_id vh) w \<and> (\<exists>k. a = f k)"])
       (auto simp: case_prod_beta)
qed

lemma browse_keeps:
  assumes "\<And>k v ro. VCreate v ro \<in> set (snd (f k)) \<Longrightarrow> v = rq_vars r ''name'' \<and> ro = m"
  shows "keeps (vol_traced H r m l0 (vh_id vh)) (browse vh f)"
  using browse_valid[of f, OF assms] unfolding keeps_def by (rule valid_conseq) auto

lemma list_path_keeps: "keeps (vol_traced H r True l0 (vh_id vh)) (listVolumePath H r vh (rq_vars r ''name'') path)"
  unfolding listVolumePath_def Let_def
  by (intro keeps_bind browse_keeps keeps_case_sum keeps_respond vol_traced_ops) (auto dest: list_creates)

lemma download_keeps: "keeps (vol_traced H r True l0 (vh_id vh)) (downloadVolumeFile H r vh (rq_vars r ''name'') path)"
proof -
  let ?I = "vol_traced H r True l0 (vh_id vh)"
  let ?f = "\<lambda>k. ReadFile k (rq_vars r ''name'') path maxVolumeFileDownload"
  have close: "keeps ?I (emit (\<lambda>_. ()) (\<lambda>_. EVolume (vh_id vh) (fst (close_reader onClose False))))"
    if "fst (?f k) = Inr (h, onClose)" for k h onClose
    unfolding vol_traced_def
    by (rule keeps_emit) (use read_closes[OF that] in \<open>auto simp: close_reader_def intro!: traced_snoc listed_later\<close>)
  show ?thesis
    unfolding downloadVolumeFile_def Let_def keeps_def
  proof (rule valid_bind[OF browse_valid[of ?f]])
    fix x
    have "keeps ?I (case x of
        Inl err \<Rightarrow> do {
          _ \<leftarrow> record_entry H (failed_entry err (volume_entry r AuditOpVolumeRead (rq_vars r ''name'') [(''path'', path), (''host'', vh_name vh)]));
          respond_error (err_msg err) 400 }
      | Inr (h, onClose) \<Rightarrow> do {
          _ \<leftarrow> record_entry H (volume_entry r AuditOpVolumeRead (rq_vars r ''name'')
                 ([(''path'', path), (''host'', vh_name vh)] @ [(''size_bytes'', dec_nat (th_size h))]));
          _ \<leftarrow> emit (\<lambda>_. ()) (\<lambda>_. EVolume (vh_id vh) (fst (close_reader onClose False)));
          respond \<lparr>rs_status = 200, rs_body = BRaw (th_name h) (th_size h)\<rparr> })" if "\<exists>k. x = fst (?f k)"
      using close that by (auto simp: keep vol_traced_ops split: sum.split)
    then show "valid (\<lambda>w. ?I w \<and> (\<exists>k. x = fst (?f k))) (case x of
        Inl err \<Rightarrow> do {
          _ \<leftarrow> record_entry H (failed_entry err (volume_entry r AuditOpVolumeRead (rq_vars r ''name'') [(''path'', path), (''host'', vh_name vh)]));
          respond_error (err_msg err) 400 }
      | Inr (h, onClose) \<Rightarrow> do {
          _ \<leftarrow> record_entry H (volume_entry r AuditOpVolumeRead (rq_vars r ''name'')
                 ([(''path'', path), (''host'', vh_name vh)] @ [(''size_bytes'', dec_nat (th_size h))]));
          _ \<leftarrow> emit (\<lambda>_. ()) (\<lambda>_. EVolume (vh_id vh) (fst (close_reader onClose False)));
          respond \<lparr>rs_status = 200, rs_body = BRaw (th_name h) (th_size h)\<rparr> }) (\<lambda>_. ?I)"
      unfolding keeps_def valid_def by blast
  qed (auto dest: read_creates)
qed

lemma write_file_keeps: "keeps (vol_traced H r False l0 (vh_id vh)) (write_file H r vh (rq_vars r ''name'') path mode buf)"
  unfolding write_file_def Let_def
  by (intro keeps_bind browse_keeps keeps_case_sum keeps_respond vol_traced_ops) (auto dest: write_creates)

lemma resolveVolumeHost_valid:
  assumes "h_docker H = Some docker"
  shows "valid (traced (volume_ok H r m) l0) (resolveVolumeHost H r docker br)
    (\<lambda>x w. case x of Inl _ \<Rightarrow> traced (volume_ok H r m) l0 w
       | Inr vh \<Rightarrow> traced (volume_ok H r m) l0 w \<and> host_daemon H (w_log w) (vh_id vh) (vh_docker vh))"
    (is "valid ?T _ ?Q")
proof -
  have find: "keeps ?T (docker_host_by H token)" for token
    by (simp add: docker_host_by_def h_store_def keep traced_store[OF volume_books] split: sum.split option.split)
  have client: "valid ?T (volume_host_of H browserFor clientFor host) ?Q" if c: "h_docker_for H = Some clientFor" for browserFor clientFor host
    unfolding volume_host_of_def
  proof (rule valid_bind[where R = "\<lambda>x w. ?T w \<and> (\<forall>dkr. x = Inr dkr \<longrightarrow> host_daemon H (w_log w) (dh_id host) dkr)"])
    show "valid ?T (emit (\<lambda>l. clientFor l (dh_id host)) (\<lambda>x. EHost (dh_id host) (res_err x)))
        (\<lambda>x w. ?T w \<and> (\<forall>dkr. x = Inr dkr \<longrightarrow> host_daemon H (w_log w) (dh_id host) dkr))"
      using c by (auto simp: host_daemon_def traced_snoc intro!: exI[of _ "w_log _"])
    fix x :: "daemon res"
    show "valid (\<lambda>w. ?T w \<and> (\<forall>dkr. x = Inr dkr \<longrightarrow> host_daemon H (w_log w) (dh_id host) dkr))
      (case x of
         Inl e \<Rightarrow> State_Monad.return (Inl (writeError (''docker host is unavailable: '' @ err_msg e) 502))
       | Inr dkr \<Rightarrow> do {
           b \<leftarrow> emit (\<lambda>l. browserFor l (dh_id host)) (\<lambda>x. EHost (dh_id host) (res_err x));
           State_Monad.return (case b of
               Inl e \<Rightarrow> Inl (writeError (''docker host is unavailable: '' @ err_msg e) 502)
             | Inr br \<Rightarrow> Inr \<lparr>vh_id = dh_id host, vh_name = dh_name host, vh_docker = dkr, vh_browse = br\<rparr>) }) ?Q"
    proof (cases x)
      case (Inr dkr)
      have "valid (\<lambda>w. ?T w \<and> host_daemon H (w_log w) (dh_id host) dkr)
          (emit (\<lambda>l. browserFor l (dh_id host)) (\<lambda>x. EHost (dh_id host) (res_err x)))
          (\<lambda>_ w. ?T w \<and> host_daemon H (w_log w) (dh_id host) dkr)"
        by (auto simp: traced_snoc host_daemon_later)
      from valid_bind[OF this, of "\<lambda>b. State_Monad.return (case b of
               Inl e \<Rightarrow> Inl (writeError (''docker host is unavailable: '' @ err_msg e) 502)
             | Inr br \<Rightarrow> Inr \<lparr>vh_id = dh_id host, vh_name = dh_name host, vh_docker = dkr, vh_browse = br\<rparr>)" ?Q]
      show ?thesis unfolding Inr by (auto split: sum.splits)
    qed simp
  qed
  have multi: "valid ?T (do {
        h \<leftarrow> docker_host_by H token;
        case h of None \<Rightarrow> State_Monad.return (Inl (writeError (''unknown host: '' @ token) 400))
        | Some host \<Rightarrow> volume_host_of H browserFor clientFor host }) ?Q"
    if "h_docker_for H = Some clientFor" for browserFor clientFor token
  proof (rule valid_bind[OF find[unfolded keeps_def]])
    show "valid ?T (case h of None \<Rightarrow> State_Monad.return (Inl (writeError (''unknown host: '' @ token) 400))
        | Some host \<Rightarrow> volume_host_of H browserFor clientFor host) ?Q" for h
      using client[OF that] by (cases h) simp_all
  qed
  show ?thesis
  proof (cases "trim_space (Query r ''host'') = [] \<or> trim_space (Query r ''host'') = DefaultHostName")
    case True
    then show ?thesis unfolding resolveVolumeHost_def Let_def if_P[OF True] using assms by (simp add: host_daemon_def)
  next
    case False
    show ?thesis unfolding resolveVolumeHost_def Let_def if_not_P[OF False]
      using multi by (cases "h_browser_for H"; cases "h_docker_for H") simp_all
  qed
qed

lemma volumeIsManaged_valid:
  "valid (\<lambda>w. traced (volume_ok H r m) l0 w \<and> host_daemon H (w_log w) h dkr) (volumeIsManaged dkr (rq_vars r ''name''))
    (\<lambda>x w. case x of Inl _ \<Rightarrow> traced (volume_ok H r m) l0 w
       | Inr managed \<Rightarrow> traced (volume_ok H r m) l0 w \<and> (managed \<longrightarrow> listed_managed H (w_log w) h (rq_vars r ''name'')))"
  unfolding volumeIsManaged_def docker_call_def Let_def
proof (rule valid_try[where R = "\<lambda>vs w. traced (volume_ok H r m) l0 w \<and> (rq_vars r ''name'' \<in> dv_name ` set vs
      \<longrightarrow> listed_managed H (w_log w) h (rq_vars r ''name''))"], goal_cases)
  let ?n = "rq_vars r ''name''"
  have "listed_managed H (w_log w @ [e]) h ?n"
    if "host_daemon H (w_log w) h dkr" "da_volumes dkr (w_log w) (managed_filters @ [(''name'', ?n)]) = Inr vs"
      "?n \<in> dv_name ` set vs" for w vs e
  proof -
    have "(''label'', ''managed-by=accelero'') \<in> set (managed_filters @ [(''name'', ?n)])"
      by (simp add: managed_filters_def containerLabelManagedBy_def containerLabelManagedValue_def)
    then show ?thesis
      unfolding listed_managed_def using that host_daemon_later[OF that(1), of "[e]"] prefixI[of _ "w_log w" "[e]"] by blast
  qed
  note listed = this
  case 1
  show ?case using listed by (auto simp: traced_snoc split: sum.split)
next
  case (2 x)
  show ?case by (fastforce simp: ok_def list_ex_iff image_iff)
qed

lemma with_volume_valid:
  assumes f: "\<And>vh. keeps (vol_traced H r m l0 (vh_id vh)) (f vh (rq_vars r ''name''))"
  shows "valid (traced (volume_ok H r m) l0) (with_volume H r f) (\<lambda>_. traced (volume_ok H r m) l0)"
proof (cases "h_browser H"; cases "h_docker H")
  fix br docker
  assume br: "h_browser H = Some br" and dk: "h_docker H = Some docker"
  have body: "valid (\<lambda>w. traced (volume_ok H r m) l0 w \<and> (managed \<longrightarrow> listed_managed H (w_log w) (vh_id vh) (rq_vars r ''name'')))
      (if \<not> managed then respond_error ''volume not found'' 404 else f vh (rq_vars r ''name'')) (\<lambda>_. traced (volume_ok H r m) l0)"
    for vh managed
    using f[of vh] by (cases managed) (auto simp: keeps_def valid_def vol_traced_def respond_error_def respond_def)
  show ?thesis
    unfolding with_volume_def br dk option.case prod.case
    by (rule valid_or_answer[OF resolveVolumeHost_valid[OF dk]], rule valid_or_error[OF volumeIsManaged_valid body])
qed (simp_all add: with_volume_def respond_error_def respond_def)

text \<open>C21. A helper container only ever opens a managed volume, on the host where it is managed: whenever browsing, a
  download or a write makes an operation of the volume browser on a host, the client of that very host had before been
  asked for the volumes with the label managed-by=accelero and had listed the volume of the request, and every helper created mounts that volume, read-only unless the
  request is a write. A write makes nothing at all when writes are not allowed.\<close>

theorem volume_access_guarded:
  "stays_in (volume_ok H r True) (BrowseVolume_handler H r) w
   \<and> stays_in (volume_ok H r False) (WriteVolumeFile_handler H r body) w
   \<and> (h_allow_writes H \<or> snd (run_state (WriteVolumeFile_handler H r body) w) = w)"
proof -
  have "valid (traced (volume_ok H r True) (w_log w)) (BrowseVolume_handler H r) (\<lambda>_. traced (volume_ok H r True) (w_log w))"
    unfolding BrowseVolume_handler_def
    by (rule with_volume_valid) (simp add: Let_def list_path_keeps download_keeps)
  moreover have "valid (traced (volume_ok H r False) (w_log w)) (WriteVolumeFile_handler H r body)
      (\<lambda>_. traced (volume_ok H r False) (w_log w))"
  proof (cases "h_allow_writes H")
    case True
    show ?thesis
      unfolding WriteVolumeFile_handler_def using True
      by (auto intro!: with_volume_valid keeps_if keeps_or_answer keeps_respond keeps_case_option write_file_keeps keeps_return
          simp: simp del: not_None_eq)
  qed (simp add: WriteVolumeFile_handler_def respond_error_def respond_def)
  moreover have "h_allow_writes H \<or> snd (run_state (WriteVolumeFile_handler H r body) w) = w"
    by (simp add: WriteVolumeFile_handler_def respond_error_def respond_def)
  ultimately show ?thesis by (simp add: stays_inI)
qed

end
