(* ===== verification/Startup.thy ===== *)
theory Startup
  imports Backups Schema Api_Guards
begin

text \<open>
  cmd/main.go: what the server does with its configuration. The parts are wired (the retry policy, the breaker, the
  recorder with its notifications, the deployer and the reconciler), the variables of the single-stack version become a
  stack named default, and the background loops run: the daily cleanup of Docker, with internal/service/cleanup.go, the
  retention of deployments and audit entries, the timeout of approvals, the backups of Backups.thy and the count of
  stacks by status. A loop is its body and a list of wake-ups: a tick, or the end of the server's context. Logging, the
  HTTP listener and the signals are not modelled.
\<close>

section \<open>Wiring\<close>

definition retry_policy_of :: "config \<Rightarrow> retry_policy" where
  "retry_policy_of c = \<lparr>MaxAttempts = cfg_RetryMaxAttempts c, BaseDelay = cfg_RetryBaseDelay c, MaxDelay = cfg_RetryMaxDelay c\<rparr>"

definition breaker_of :: "config \<Rightarrow> breaker option" where
  "breaker_of c = new_breaker (cfg_CircuitBreakerThreshold c) (cfg_CircuitBreakerCooldown c)"

definition notify_config_of :: "config \<Rightarrow> notify_config" where
  "notify_config_of c =
     \<lparr>WebhookURL = cfg_NotifyWebhookURL c, SlackURL = cfg_NotifySlackWebhookURL c, DiscordURL = cfg_NotifyDiscordWebhookURL c,
      TeamsURL = cfg_NotifyTeamsWebhookURL c,
      Email = (if cfg_NotifySMTPHost c \<noteq> []
               then Some \<lparr>em_host = cfg_NotifySMTPHost c, em_port = cfg_NotifySMTPPort c, em_username = cfg_NotifySMTPUsername c,
                          em_password = cfg_NotifySMTPPassword c, em_from = cfg_NotifyEmailFrom c, em_to = cfg_NotifyEmailTo c\<rparr>
               else None)\<rparr>"

definition recorder_of :: "config \<Rightarrow> recorder" where
  "recorder_of c = WrapRecorder StoreRecorder (notify_sinks (notify_config_of c))"

definition wire_deployer :: "config \<Rightarrow> outside \<Rightarrow> (log \<Rightarrow> string \<Rightarrow> outside res) \<Rightarrow> deployer \<Rightarrow> deployer" where
  "wire_deployer c cli hosts D =
     D\<lparr>d_cli := cli, d_hosts := Some hosts, d_stacks_dir := cfg_StacksDataDir c, d_audit := Some (recorder_of c),
       d_policy := retry_policy_of c\<rparr>"

definition wire_reconciler :: "config \<Rightarrow> outside \<Rightarrow> (log \<Rightarrow> string \<Rightarrow> outside res) \<Rightarrow> deployer \<Rightarrow> reconciler \<Rightarrow> reconciler" where
  "wire_reconciler c cli hosts D R =
     R\<lparr>r_cli := cli, r_hosts := Some hosts, r_deployer := D, r_audit := Some (recorder_of c), r_policy := retry_policy_of c\<rparr>"

definition wire_handler :: "config \<Rightarrow> ciph \<Rightarrow> deployer \<Rightarrow> reconciler \<Rightarrow> handler \<Rightarrow> handler" where
  "wire_handler c ci D R H =
     H\<lparr>h_deployer := D, h_reconciler := Some R, h_audit := Some (recorder_of c), h_allow_writes := cfg_AllowVolumeWrites c,
       h_encryption := (ci \<noteq> None)\<rparr>"

text \<open>TLS is on when both files are given, and only then is the HSTS header sent.\<close>

definition tls_enabled :: "config \<Rightarrow> bool" where
  "tls_enabled c \<longleftrightarrow> cfg_TLSCertFile c \<noteq> [] \<and> cfg_TLSKeyFile c \<noteq> []"

definition hsts_sent :: "config \<Rightarrow> bool" where
  "hsts_sent c \<longleftrightarrow> tls_enabled c \<and> cfg_TLSHSTSMaxAge c > 0"

text \<open>The limiter of a server, and the lookup of the host manager.\<close>

definition rate_limit_of :: "config \<Rightarrow> rate_limiter option" where
  "rate_limit_of c = NewRateLimit (cfg_RateLimitRPS c) (cfg_RateLimitBurst c)"

definition lookup_host :: "string \<Rightarrow> db \<Rightarrow> docker_host option res" where
  "lookup_host i d = GetDockerHost i d"

section \<open>The start\<close>

record started =
  sd_config :: config
  sd_files :: files
  sd_schema :: schema
  sd_cipher :: ciph

text \<open>An error ends the process. A staged restore is applied before the database is opened.\<close>

definition boot :: "go_lib \<Rightarrow> environment \<Rightarrow> backup_env \<Rightarrow> gotime \<Rightarrow> open_faults \<Rightarrow> db_faults \<Rightarrow> (files \<Rightarrow> schema) \<Rightarrow> ciph res
    \<Rightarrow> gerr option \<Rightarrow> gerr option \<Rightarrow> files \<Rightarrow> started res" where
  "boot L env E t K F schemaOf loaded client ping fs =
     (case Load L env of
        Inl e \<Rightarrow> Inl (ErrWrap ''Configuration error: '' e)
      | Inr c \<Rightarrow>
        (case applyPendingRestore E t (cfg_DatabasePath c) fs of
           (Some e, _) \<Rightarrow> Inl e
         | (None, fs') \<Rightarrow>
           (case NewSQLiteStore K F (schemaOf fs') of
              (Some e, _) \<Rightarrow> Inl (ErrWrap ''Database error: '' e)
            | (None, S) \<Rightarrow>
              (case loaded of
                 Inl e \<Rightarrow> Inl (ErrWrap ''Secrets error: '' e)
               | Inr ci \<Rightarrow>
                 (case client of
                    Some e \<Rightarrow> Inl (ErrWrap ''Failed to create Docker client: '' e)
                  | None \<Rightarrow>
                    (case ping of
                       Some e \<Rightarrow> Inl (ErrWrap (''Cannot connect to Docker daemon at '' @ cfg_DockerSock c @ '': '') e)
                     | None \<Rightarrow> Inr \<lparr>sd_config = c, sd_files = fs', sd_schema = S, sd_cipher = ci\<rparr>))))))"

text \<open>A process that starts has a complete schema.\<close>

lemma NewSQLiteStore_migrated: "NewSQLiteStore K F S = (None, S') \<Longrightarrow> migrate F S = (None, S')"
  by (auto simp: NewSQLiteStore_def split: option.splits prod.splits)

lemma boot_migrates:
  "boot L env E t K F schemaOf loaded client ping fs = Inr sd \<Longrightarrow> migrate F (schemaOf (sd_files sd)) = (None, sd_schema sd)"
  by (auto simp: boot_def intro: NewSQLiteStore_migrated split: sum.splits prod.splits option.splits)

section \<open>The stack of the single-stack version\<close>

definition legacy_stack :: "string \<Rightarrow> gotime \<Rightarrow> config \<Rightarrow> stack" where
  "legacy_stack i t c =
     \<lparr>st_id = i, st_name = ''default'', RepoURL = cfg_LegacyRepoURL c, RepoUsername = cfg_LegacyRepoUsername c,
      RepoToken = cfg_LegacyRepoToken c, RepoBranch = cfg_LegacyRepoBranch c, ComposePath = cfg_LegacyComposePath c,
      ServiceFilter = cfg_LegacyServiceNames c, AutoDeploy = True, ReconcileInterval = 0, st_status = StackStatusActive,
      HostID = [], RequiresApproval = False, LastDeployedAt = None, LastReconciledAt = None, GitCommit = [], st_created = t,
      st_updated = t, DockerUsername = cfg_LegacyDockerUsername c, DockerPassword = cfg_LegacyDockerPassword c,
      DockerRegistry = cfg_LegacyDockerRegistry c, SecretsHash = []\<rparr>"

text \<open>An error of the lookup counts as no such stack; an error of the other steps ends the process.\<close>

definition migrateLegacyConfig :: "outside \<Rightarrow> config \<Rightarrow> unit res act" where
  "migrateLegacyConfig \<Omega> c =
     (if \<not> HasLegacyConfig c then ok ()
      else do {
        x \<leftarrow> store_call \<Omega> ''GetStackByName'' (reading (GetStackByName ''default''));
        case x of
          Inr (Some _) \<Rightarrow> ok ()
        | _ \<Rightarrow>
          try_with (ErrWrap ''Failed to generate ID: '') (generateID \<Omega>) (\<lambda>i. do {
            t \<leftarrow> now \<Omega>;
            n1 \<leftarrow> emit (o_nonce \<Omega>) ENonce;
            n2 \<leftarrow> emit (o_nonce \<Omega>) ENonce;
            try_with (ErrWrap ''Failed to create default stack: '')
              (store_call \<Omega> ''CreateStack'' (writing (CreateStack n1 n2 (legacy_stack i t c)))) ok }) })"

section \<open>The loops\<close>

fun ticker_loop :: "unit act \<Rightarrow> bool list \<Rightarrow> unit act" where
  "ticker_loop body [] = State_Monad.return ()"
| "ticker_loop body (fired # wakes) = (if \<not> fired then State_Monad.return () else do { _ \<leftarrow> body; ticker_loop body wakes })"

text \<open>service.CleanupResources on one host: the first error ends it.\<close>

definition prune_call :: "(log \<Rightarrow> string \<Rightarrow> unit res) \<Rightarrow> string \<Rightarrow> string \<Rightarrow> unit res act" where
  "prune_call prune op flt = emit (\<lambda>l. prune l op) (\<lambda>r. ECall op [flt] (res_err r))"

definition CleanupResources :: "(log \<Rightarrow> string \<Rightarrow> unit res) \<Rightarrow> unit res act" where
  "CleanupResources prune =
     (let labelFilter = ''label=managed-by=accelero''; danglingFilter = ''dangling=true'' in
      try_with id (prune_call prune ''ContainerPrune'' labelFilter) (\<lambda>_.
      try_with id (prune_call prune ''ImagePrune'' danglingFilter) (\<lambda>_.
      try_with id (prune_call prune ''VolumePrune'' labelFilter) (\<lambda>_.
      try_with id (prune_call prune ''NetworkPrune'' labelFilter) ok))))"

fun cleanup_sweep :: "(string \<times> string \<times> (log \<Rightarrow> string \<Rightarrow> unit res)) list \<Rightarrow> unit act" where
  "cleanup_sweep [] = State_Monad.return ()"
| "cleanup_sweep ((i, name, prune) # hosts) = do { _ \<leftarrow> CleanupResources prune; cleanup_sweep hosts }"

definition cleanup_call :: "outside \<Rightarrow> string \<Rightarrow> (gotime \<Rightarrow> db \<Rightarrow> nat \<times> db) \<Rightarrow> nat res act" where
  "cleanup_call \<Omega> op f = do {
     t \<leftarrow> now \<Omega>;
     store_call \<Omega> op (\<lambda>d. case f t d of (n, d') \<Rightarrow> (Inr n, d')) }"

definition deployment_cleanup :: "outside \<Rightarrow> config \<Rightarrow> unit act" where
  "deployment_cleanup \<Omega> c = do {
     _ \<leftarrow> cleanup_call \<Omega> ''CleanupOldDeployments'' (\<lambda>t. CleanupOldDeployments t (cfg_StatusMaxAge c));
     if cfg_AuditMaxAge c > 0
     then do { _ \<leftarrow> cleanup_call \<Omega> ''CleanupOldAuditEntries'' (\<lambda>t. CleanupOldAuditEntries t (cfg_AuditMaxAge c)); State_Monad.return () }
     else State_Monad.return () }"

definition approval_interval :: "config \<Rightarrow> int" where
  "approval_interval c =
     (let interval = cfg_ApprovalTimeout c;
          interval = (if interval > 60 * 60 * 1000000000 then 60 * 60 * 1000000000 else interval)
      in if interval < 60 * 1000000000 then 60 * 1000000000 else interval)"

definition approval_sweep :: "deployer \<Rightarrow> config \<Rightarrow> unit act" where
  "approval_sweep D c = do { _ \<leftarrow> ExpirePendingApprovals D (cfg_ApprovalTimeout c); State_Monad.return () }"

definition approval_loop :: "deployer \<Rightarrow> config \<Rightarrow> bool list \<Rightarrow> unit act" where
  "approval_loop D c wakes = (if cfg_ApprovalTimeout c > 0 then ticker_loop (approval_sweep D c) wakes else State_Monad.return ())"

text \<open>refreshStackGauges: the stacks of each status.\<close>

definition status_counts :: "stack list \<Rightarrow> string \<Rightarrow> nat" where
  "status_counts stacks s = length (filter (\<lambda>st. st_status st = s) stacks)"

section \<open>The migration of the variables happens once\<close>

lemma CreateStack_named:
  "CreateStack n1 n2 st d = (None, d') \<Longrightarrow> \<exists>r \<in> set (t_stacks d'). st_name r = st_name st"
  by (auto simp: CreateStack_def encrypt_stack_def split: sum.splits if_splits)

lemma CreateStack_taken:
  "\<exists>r \<in> set (t_stacks d). st_name r = st_name st \<Longrightarrow> \<exists>e. CreateStack n1 n2 st d = (Some e, d)"
  by (auto simp: CreateStack_def split: sum.split)

lemma GetStackByName_stored: "GetStackByName n d = Inr (Some st) \<Longrightarrow> \<exists>r \<in> set (t_stacks d). st_name r = n"
  by (auto simp: GetStackByName_def scan_one_def tbl_find_def find_Some_iff split: option.splits sum.splits)

lemma unchanged_db: "tolerates (\<lambda>_. True) (\<lambda>w. w_db w = d)"
  by (simp add: tolerates_def)

text \<open>Until the stack is created the database is as it was; the last step creates it.\<close>

lemma legacy_outcome:
  "valid (\<lambda>w. w_db w = d) (migrateLegacyConfig \<Omega> c) (\<lambda>r w.
     (w_db w = d \<or> (\<exists>n1 n2 i t. CreateStack n1 n2 (legacy_stack i t c) d = (None, w_db w)))
     \<and> (HasLegacyConfig c \<longrightarrow> r = Inr () \<longrightarrow> (\<exists>s \<in> set (t_stacks (w_db w)). st_name s = ''default'')))"
    (is "valid ?P _ ?Q")
proof (cases "HasLegacyConfig c")
  case False
  then show ?thesis by (simp add: migrateLegacyConfig_def ok_def)
next
  case True
  have stay: "keeps ?P (emit f ev)" for f :: "log \<Rightarrow> 'a" and ev
    by (rule keeps_emit) simp
  have create: "valid ?P (try_with wrap (store_call \<Omega> ''CreateStack'' (writing (CreateStack n1 n2 (legacy_stack i t c)))) ok) ?Q" for wrap n1 n2 i t
  proof (rule valid_try[where R = "\<lambda>_ w. CreateStack n1 n2 (legacy_stack i t c) d = (None, w_db w)"])
    show "valid ?P (store_call \<Omega> ''CreateStack'' (writing (CreateStack n1 n2 (legacy_stack i t c))))
        (\<lambda>x. case x of Inl e \<Rightarrow> ?Q (Inl (wrap e)) | Inr u \<Rightarrow> \<lambda>w. CreateStack n1 n2 (legacy_stack i t c) d = (None, w_db w))"
    proof (rule validI, drule store_call_result, elim disjE exE conjE)
      fix w :: world and r :: "unit res" and w'
      assume "w_db w = d" and r: "r = fst (writing (CreateStack n1 n2 (legacy_stack i t c)) (w_db w))"
        and w': "w' = w\<lparr>w_log := w_log w @ [EStore ''CreateStack'' None], w_db := snd (writing (CreateStack n1 n2 (legacy_stack i t c)) (w_db w))\<rparr>"
      obtain e d' where c: "CreateStack n1 n2 (legacy_stack i t c) d = (e, d')" by fastforce
      have "e \<noteq> None \<Longrightarrow> d' = d" using c by (auto simp: CreateStack_def split: sum.splits if_splits)
      then show "(case r of Inl e \<Rightarrow> ?Q (Inl (wrap e)) | Inr u \<Rightarrow> \<lambda>w. CreateStack n1 n2 (legacy_stack i t c) d = (None, w_db w)) w'"
        using r w' c \<open>w_db w = d\<close> by (cases e) (auto simp: writing_def)
    qed auto
  next
    fix u :: unit
    show "valid (\<lambda>w. CreateStack n1 n2 (legacy_stack i t c) d = (None, w_db w)) (ok u) ?Q"
      using CreateStack_named[of n1 n2 "legacy_stack i t c" d] by (auto simp: ok_def legacy_stack_def)
  qed
  let ?create = "\<lambda>i. do {
            t \<leftarrow> now \<Omega>;
            n1 \<leftarrow> emit (o_nonce \<Omega>) ENonce;
            n2 \<leftarrow> emit (o_nonce \<Omega>) ENonce;
            try_with (ErrWrap ''Failed to create default stack: '')
              (store_call \<Omega> ''CreateStack'' (writing (CreateStack n1 n2 (legacy_stack i t c)))) ok }"
  have rest: "valid ?P (try_with (ErrWrap ''Failed to generate ID: '') (generateID \<Omega>) ?create) ?Q"
  proof (rule valid_try[where R = "\<lambda>_. ?P"])
    show "valid ?P (generateID \<Omega>) (\<lambda>x. case x of Inl e \<Rightarrow> ?Q (Inl (ErrWrap ''Failed to generate ID: '' e)) | Inr u \<Rightarrow> ?P)"
      by (auto simp: generateID_def split: sum.split)
    show "valid ?P (?create i) ?Q" for i
      unfolding now_def by (intro valid_bind[OF stay[unfolded keeps_def]] create)
  qed
  have nn: "\<not> \<not> HasLegacyConfig c" using True by simp
  show ?thesis
    unfolding migrateLegacyConfig_def if_not_P[OF nn]
  proof (rule valid_bind[where R = "\<lambda>x w. w_db w = d \<and> (\<forall>st. x = Inr (Some st) \<longrightarrow> (\<exists>r \<in> set (t_stacks d). st_name r = ''default''))"])
    show "valid ?P (store_call \<Omega> ''GetStackByName'' (reading (GetStackByName ''default'')))
        (\<lambda>x w. w_db w = d \<and> (\<forall>st. x = Inr (Some st) \<longrightarrow> (\<exists>r \<in> set (t_stacks d). st_name r = ''default'')))"
      by (rule validI, drule store_call_result) (auto simp: reading_def dest: GetStackByName_stored)
    show "valid (\<lambda>w. w_db w = d \<and> (\<forall>st. x = Inr (Some st) \<longrightarrow> (\<exists>r \<in> set (t_stacks d). st_name r = ''default'')))
        (case x of Inr (Some _) \<Rightarrow> ok () | _ \<Rightarrow> try_with (ErrWrap ''Failed to generate ID: '') (generateID \<Omega>) ?create) ?Q" for x
      using rest by (auto simp: ok_def split: sum.split option.split)
  qed
qed

text \<open>The variables of the single-stack version are migrated once: a start that gets through with them set leaves a stack
  named default, and every later start, whatever its identifiers and failures, leaves the database as that one did.\<close>

theorem legacy_migrated_once:
  assumes "HasLegacyConfig c" "run_state (migrateLegacyConfig \<Omega> c) w = (Inr (), w')"
  shows "(\<exists>s \<in> set (t_stacks (w_db w')). st_name s = ''default'')
     \<and> w_db (snd (run_state (migrateLegacyConfig \<Omega>' c) (w'\<lparr>w_log := l\<rparr>))) = w_db w'"
proof -
  have stack: "\<exists>s \<in> set (t_stacks (w_db w')). st_name s = ''default''"
    using validD[OF legacy_outcome, OF refl assms(2)] assms(1) by blast
  obtain r w2 where run: "run_state (migrateLegacyConfig \<Omega>' c) (w'\<lparr>w_log := l\<rparr>) = (r, w2)" by fastforce
  have "w_db w2 = w_db w' \<or> (\<exists>n1 n2 i t. CreateStack n1 n2 (legacy_stack i t c) (w_db w') = (None, w_db w2))"
    using validD[OF legacy_outcome _ run, of "w_db w'"] by simp
  moreover have "\<exists>e. CreateStack n1 n2 (legacy_stack i t c) (w_db w') = (Some e, w_db w')" for n1 n2 i t
    using stack by (intro CreateStack_taken) (simp add: legacy_stack_def)
  ultimately have "w_db w2 = w_db w'" by (metis option.distinct(1) prod.inject)
  then show ?thesis using stack run by simp
qed

definition demo_legacy :: config where
  "demo_legacy = demo_config\<lparr>cfg_LegacyRepoURL := ''https://git/x'', cfg_LegacyRepoUsername := ''u'', cfg_LegacyRepoToken := ''t'',
     cfg_LegacyComposePath := ''docker-compose.yml''\<rparr>"

definition demo_empty :: world where
  "demo_empty = \<lparr>w_log = [], w_db = empty_db None\<rparr>"

theorem legacy_migrated_once_witness:
  "\<exists>s \<in> set (t_stacks (w_db (snd (run_state (migrateLegacyConfig demo_docker demo_legacy) demo_empty)))). st_name s = ''default''"
proof -
  have legacy: "HasLegacyConfig demo_legacy" by (simp add: HasLegacyConfig_def demo_legacy_def)
  have "fst (run_state (migrateLegacyConfig demo_docker demo_legacy) demo_empty) = Inr ()"
    using legacy
    by (simp add: migrateLegacyConfig_def store_call_def emit_def Let_def run_state_bind reading_def writing_def try_with_def
        generateID_def now_def demo_docker_def demo_empty_def empty_db_def GetStackByName_def scan_one_def tbl_find_def
        CreateStack_def encrypt_stack_def encryptField_def Encrypt_def ok_def)
  then show ?thesis
    using legacy_migrated_once[OF legacy, of demo_docker demo_empty] by (metis prod.collapse)
qed

text \<open>The timeout of approvals is looked at between once a minute and once an hour.\<close>

lemma approval_interval_bounds: "60 * 1000000000 \<le> approval_interval c \<and> approval_interval c \<le> 60 * 60 * 1000000000"
  by (simp add: approval_interval_def Let_def)

end
