(* ===== verification/Streams.thy ===== *)
theory Streams
  imports Api_Guards
begin

text \<open>
  What the streaming endpoints of internal/handler/handler.go send once the stream is open: the lines of a log and the
  samples of the statistics over a websocket, the events as server-sent events, and the exec session, in which two
  goroutines carry bytes in either direction until one of them ends. The arguments of the loops say which write fails;
  deadlines, pings and the pong handlers only decide when a read or write fails. StdCopy is not part of the program: the
  pieces in which it or a read delivers the output are arbitrary.
\<close>

section \<open>Lines of a log\<close>

text \<open>The frames that are sent before the first that fails.\<close>

fun sent_until :: "(nat \<Rightarrow> bool) \<Rightarrow> nat \<Rightarrow> 'a list \<Rightarrow> 'a list" where
  "sent_until bad n [] = []"
| "sent_until bad n (f # fs) = (if bad n then [] else f # sent_until bad (Suc n) fs)"

text \<open>io.Copy or StdCopy into a wsLogWriter: a failed write ends it.\<close>

fun log_copy :: "(nat \<Rightarrow> bool) \<Rightarrow> nat \<Rightarrow> string \<Rightarrow> string list \<Rightarrow> string list" where
  "log_copy bad n buf [] = []"
| "log_copy bad n buf (p # ps) =
     (case ws_write buf p of (fs, buf') \<Rightarrow>
        if length (sent_until bad n fs) < length fs then sent_until bad n fs
        else fs @ log_copy bad (n + length fs) buf' ps)"

text \<open>The lines of a text that are ended, without the empty ones.\<close>

definition ended_lines :: "string \<Rightarrow> string list" where
  "ended_lines s = filter (\<lambda>l. l \<noteq> []) (butlast (split_on newline s))"

definition open_line :: "string \<Rightarrow> string" where
  "open_line s = last (split_on newline s)"

lemma split_tail: "split_on c s = butlast (split_on c s) @ [last (split_on c s)]"
  by simp

lemma split_on_app: "split_on c (a @ b) = butlast (split_on c a) @ split_on c (last (split_on c a) @ b)"
proof (induction a)
  case (Cons x a)
  obtain p ps where p: "split_on c a = p # ps" by (cases "split_on c a") auto
  obtain q qs where q: "split_on c (last (split_on c a) @ b) = q # qs" by (cases "split_on c (last (split_on c a) @ b)") auto
  show ?case
  proof (cases "x = c")
    case True
    then show ?thesis using Cons by (simp add: butlast_append)
  next
    case False
    show ?thesis
    proof (cases "ps = []")
      case True
      then show ?thesis using False Cons p q by (simp add: butlast.simps)
    next
      case ne: False
      then show ?thesis using False Cons p by (simp add: last_ConsR)
    qed
  qed
qed simp

lemma send_lines_split:
  "newline \<notin> set line \<Longrightarrow> send_lines line s = (ended_lines (line @ s), open_line (line @ s))"
proof (induction line s rule: send_lines.induct)
  case (1 line)
  then show ?case by (simp add: ended_lines_def open_line_def split_on_no_sep)
next
  case (2 line c cs)
  show ?case
  proof (cases "c = newline")
    case True
    then show ?thesis using 2
      by (simp add: ended_lines_def open_line_def split_on_append)
  next
    case False
    then show ?thesis using 2 by simp
  qed
qed

lemma open_line_open: "newline \<notin> set (open_line s)"
  unfolding open_line_def by (rule split_on_parts[of _ _ s]) simp

lemma ended_lines_app: "ended_lines (a @ b) = ended_lines a @ ended_lines (open_line a @ b)"
  unfolding ended_lines_def open_line_def by (subst split_on_app) (simp add: butlast_append)

lemma open_line_app: "open_line (a @ b) = open_line (open_line a @ b)"
  unfolding open_line_def by (subst split_on_app) simp

lemma ended_lines_open: "newline \<notin> set s \<Longrightarrow> ended_lines s = [] \<and> open_line s = s"
  by (simp add: ended_lines_def open_line_def split_on_no_sep)

lemma sent_until_app:
  "sent_until bad n (a @ b) =
     (if length (sent_until bad n a) < length a then sent_until bad n a else a @ sent_until bad (n + length a) b)"
  by (induction a arbitrary: n) auto

lemma log_copy_lines:
  "newline \<notin> set buf \<Longrightarrow> log_copy bad n buf ps = sent_until bad n (ended_lines (buf @ concat ps))"
proof (induction ps arbitrary: n buf)
  case Nil
  then show ?case by (simp add: ended_lines_open)
next
  case (Cons p ps)
  have "ws_write buf p = (ended_lines (buf @ p), open_line (buf @ p))"
    by (simp add: ws_write_def send_lines_split)
  moreover have "ended_lines (buf @ p @ concat ps) = ended_lines (buf @ p) @ ended_lines (open_line (buf @ p) @ concat ps)"
    using ended_lines_app[of "buf @ p" "concat ps"] by simp
  ultimately show ?case
    using Cons.IH[OF open_line_open[of "buf @ p"]] by (simp add: sent_until_app)
qed

text \<open>Following a log sends every line once, whole and in order: however the output of the container is cut into the
  pieces that arrive, the frames sent are exactly the lines of the whole output that are ended by a newline and not
  empty, up to the first frame that cannot be sent; a last line without a newline is never sent.\<close>

theorem log_lines_whole:
  "log_copy bad 0 [] pieces = sent_until bad 0 (filter (\<lambda>l. l \<noteq> []) (butlast (split_on newline (concat pieces))))"
  using log_copy_lines[of "[]"] by (simp add: ended_lines_def)

section \<open>Samples of the statistics\<close>

text \<open>The decoder yields samples until it fails; one that cannot be marshalled is skipped.\<close>

fun stats_loop :: "(nat \<Rightarrow> bool) \<Rightarrow> (stats_sample \<Rightarrow> string res) \<Rightarrow> string \<Rightarrow> string \<Rightarrow> nat \<Rightarrow> stats_response list \<Rightarrow> string list" where
  "stats_loop bad js i name n [] = []"
| "stats_loop bad js i name n (raw # raws) =
     (case js (computeStatsSample raw i name) of
        Inl _ \<Rightarrow> stats_loop bad js i name n raws
      | Inr payload \<Rightarrow> if bad n then [] else payload # stats_loop bad js i name (Suc n) raws)"

section \<open>Server-sent events\<close>

text \<open>What wakes the loop: the request's end, the keepalive timer, the error channel and the message channel, each of which
  may be closed.\<close>

datatype sse_wake = CtxDone | KeepAlive | StreamErr "gerr option" | ErrClosed | Message docker_event | MessagesClosed

definition keepalive_text :: string where
  "keepalive_text = '': keepalive'' @ [newline, newline]"

definition event_text :: "string \<Rightarrow> string" where
  "event_text payload = ''data: '' @ payload @ [newline, newline]"

fun sse_loop :: "(nat \<Rightarrow> bool) \<Rightarrow> (stack_event \<Rightarrow> string res) \<Rightarrow> nat \<Rightarrow> sse_wake list \<Rightarrow> string list" where
  "sse_loop bad js n [] = []"
| "sse_loop bad js n (KeepAlive # ws) = (if bad n then [] else keepalive_text # sse_loop bad js (Suc n) ws)"
| "sse_loop bad js n (Message m # ws) =
     (case js (projectEvent m) of
        Inl _ \<Rightarrow> sse_loop bad js n ws
      | Inr payload \<Rightarrow> if bad n then [] else event_text payload # sse_loop bad js (Suc n) ws)"
| "sse_loop bad js n (_ # ws) = []"

text \<open>A client of the stream: an empty line ends an event, lines of data make it up, other lines are comments.\<close>

fun sse_events :: "string list \<Rightarrow> string list \<Rightarrow> string list" where
  "sse_events lines [] = []"
| "sse_events lines (l # ls) =
     (if l = [] then (if lines = [] then [] else [join_with [newline] lines]) @ sse_events [] ls
      else if has_prefix l ''data: '' then sse_events (lines @ [drop 6 l]) ls
      else sse_events lines ls)"

definition sse_client :: "string \<Rightarrow> string list" where
  "sse_client text = sse_events [] (butlast (split_on newline text))"

text \<open>The events of the stack that come before its end.\<close>

fun payloads :: "(stack_event \<Rightarrow> string res) \<Rightarrow> sse_wake list \<Rightarrow> string list" where
  "payloads js [] = []"
| "payloads js (KeepAlive # ws) = payloads js ws"
| "payloads js (Message m # ws) = (case js (projectEvent m) of Inl _ \<Rightarrow> payloads js ws | Inr p \<Rightarrow> p # payloads js ws)"
| "payloads js (_ # ws) = []"

lemma client_line: "newline \<notin> set l \<Longrightarrow> sse_client (l @ [newline, newline] @ rest)
    = sse_events [] (l # [] # butlast (split_on newline rest))"
  using split_on_append[of newline l "newline # rest"] split_on_append[of newline "[]" rest]
  by (simp add: sse_client_def)

lemma client_keepalive: "sse_client (keepalive_text @ rest) = sse_client rest"
proof -
  have "newline \<notin> set '': keepalive''" by code_simp
  from client_line[OF this, of rest] have "sse_client (keepalive_text @ rest) = sse_events [] ('': keepalive'' # [] # butlast (split_on newline rest))"
    by (simp add: keepalive_text_def)
  then show ?thesis by (simp add: sse_client_def has_prefix_def)
qed

lemma client_event: "newline \<notin> set p \<Longrightarrow> sse_client (event_text p @ rest) = p # sse_client rest"
proof -
  assume "newline \<notin> set p"
  moreover have "newline \<notin> set ''data: ''" by code_simp
  ultimately have "newline \<notin> set (''data: '' @ p)" by simp
  from client_line[OF this, of rest] have "sse_client (event_text p @ rest) = sse_events [] ((''data: '' @ p) # [] # butlast (split_on newline rest))"
    by (simp add: event_text_def)
  then show ?thesis by (simp add: sse_client_def has_prefix_def)
qed

lemma client_end: "sse_client [] = []"
  by (simp add: sse_client_def)

lemma events_taken:
  "(\<forall>e p. js e = Inr p \<longrightarrow> newline \<notin> set p) \<Longrightarrow> \<exists>k. sse_client (concat (sse_loop bad js n ws)) = take k (payloads js ws)
     \<and> ((\<exists>i. bad i) \<or> length (payloads js ws) \<le> k)"
proof (induction bad js n ws rule: sse_loop.induct)
  case (2 bad js n ws)
  then show ?case by (auto simp: client_keepalive client_end intro: exI[of _ 0])
next
  case (3 bad js n m ws)
  show ?case
  proof (cases "js (projectEvent m)")
    case (Inl e)
    then show ?thesis using 3 by simp
  next
    case (Inr p)
    note nl = 3(3)[rule_format, OF Inr]
    show ?thesis
    proof (cases "bad n")
      case True
      then show ?thesis using Inr by (auto simp: client_end intro: exI[of _ 0])
    next
      case False
      obtain k where k: "sse_client (concat (sse_loop bad js (Suc n) ws)) = take k (payloads js ws)"
        "(\<exists>i. bad i) \<or> length (payloads js ws) \<le> k" using 3(2)[OF Inr False 3(3)] by blast
      show ?thesis
        using Inr False k by (intro exI[of _ "Suc k"]) (auto simp: client_event[OF nl])
    qed
  qed
qed (auto simp: client_end)

text \<open>The events of a stack arrive: a client that reads the stream gets exactly the events, in their order and each
  once, that Docker reported before the stream ended, up to the first write that failed; the keepalives in between do not
  show. What it relies on is that the JSON of an event holds no line break.\<close>

theorem events_reach_client:
  assumes "\<forall>e p. js e = Inr p \<longrightarrow> newline \<notin> set p"
  shows "(\<exists>k. sse_client (concat (sse_loop bad js n ws)) = take k (payloads js ws))
     \<and> ((\<exists>i. bad i) \<or> sse_client (concat (sse_loop bad js n ws)) = payloads js ws)"
  using events_taken[OF assms, of bad n ws] by (metis take_all)

definition demo_js :: "stack_event \<Rightarrow> string res" where
  "demo_js e = (if newline \<in> set (se_name e) then Inl ErrNoRows else Inr (se_name e))"

definition demo_event :: docker_event where
  "demo_event = \<lparr>de_time = 1, de_time_nano = 0, de_type = ''container'', de_action = ''start'', de_actor = ''c1'',
     de_attributes = [(''name'', ''web_1'')]\<rparr>"

theorem events_reach_client_witness:
  "sse_client (concat (sse_loop (\<lambda>_. False) demo_js 0 [KeepAlive, Message demo_event, KeepAlive, CtxDone])) = [''web_1'']"
proof -
  let ?ws = "[KeepAlive, Message demo_event, KeepAlive, CtxDone]"
  have js: "\<forall>e p. demo_js e = Inr p \<longrightarrow> newline \<notin> set p" by (auto simp: demo_js_def)
  have "sse_client (concat (sse_loop (\<lambda>_. False) demo_js 0 ?ws)) = payloads demo_js ?ws"
    using events_reach_client[OF js, of "\<lambda>_. False" 0 ?ws] by blast
  also have "\<dots> = [''web_1'']" by code_simp
  finally show ?thesis .
qed

section \<open>The pipe of an exec session\<close>

text \<open>The goroutine that reads the websocket and the one that copies the output run until they end, send on the channel
  done, whose buffer holds two values, and are over. The decoder of control frames is an argument.\<close>

datatype ws_frame = Binary string | TextFrame string

datatype phase = Running | Sending | Over

record pipe =
  pp_in :: "ws_frame list" \<comment> \<open>what the client will still send\<close>
  pp_stdin :: string \<comment> \<open>what has been written to the command\<close>
  pp_eof :: bool \<comment> \<open>CloseWrite has been called\<close>
  pp_resizes :: "(nat \<times> nat) list"
  pp_reader :: phase
  pp_out :: "string list" \<comment> \<open>the pieces of the output still to come\<close>
  pp_sent :: "string list" \<comment> \<open>the binary frames sent to the client\<close>
  pp_copier :: phase
  pp_done :: nat
  pp_pings :: nat
  pp_result :: "int option"

definition asked_size :: "(string \<Rightarrow> (string \<times> nat \<times> nat) option) \<Rightarrow> bool \<Rightarrow> string \<Rightarrow> (nat \<times> nat) list" where
  "asked_size dec useTTY t =
     (case handleExecControl (dec t) of None \<Rightarrow> []
      | Some sz \<Rightarrow> (case exec_resize useTTY sz of None \<Rightarrow> [] | Some r \<Rightarrow> [r]))"

definition pipe_start :: "ws_frame list \<Rightarrow> string list \<Rightarrow> pipe" where
  "pipe_start frames pieces = \<lparr>pp_in = frames, pp_stdin = [], pp_eof = False, pp_resizes = [], pp_reader = Running,
     pp_out = pieces, pp_sent = [], pp_copier = Running, pp_done = 0, pp_pings = 0, pp_result = None\<rparr>"

text \<open>ReadMessage can fail at any time; so can a write to the command, after a part of the bytes, and a write to the client.\<close>

inductive pipe_step :: "(string \<Rightarrow> (string \<times> nat \<times> nat) option) \<Rightarrow> bool \<Rightarrow> pipe \<Rightarrow> pipe \<Rightarrow> bool"
  for dec useTTY where
  stdin: "pp_reader s = Running \<Longrightarrow> pp_in s = Binary d # fs
    \<Longrightarrow> pipe_step dec useTTY s (s\<lparr>pp_in := fs, pp_stdin := pp_stdin s @ d\<rparr>)"
| stdin_broken: "pp_reader s = Running \<Longrightarrow> pp_in s = Binary d # fs
    \<Longrightarrow> pipe_step dec useTTY s (s\<lparr>pp_in := fs, pp_stdin := pp_stdin s @ take k d, pp_reader := Sending\<rparr>)"
| control: "pp_reader s = Running \<Longrightarrow> pp_in s = TextFrame t # fs
    \<Longrightarrow> pipe_step dec useTTY s (s\<lparr>pp_in := fs, pp_resizes := pp_resizes s @ asked_size dec useTTY t\<rparr>)"
| hangup: "pp_reader s = Running \<Longrightarrow> pipe_step dec useTTY s (s\<lparr>pp_eof := True, pp_reader := Sending\<rparr>)"
| copied: "pp_copier s = Running \<Longrightarrow> pp_out s = p # ps
    \<Longrightarrow> pipe_step dec useTTY s (s\<lparr>pp_out := ps, pp_sent := pp_sent s @ [p]\<rparr>)"
| copied_all: "pp_copier s = Running \<Longrightarrow> pipe_step dec useTTY s (s\<lparr>pp_copier := Sending\<rparr>)"
| reader_over: "pp_reader s = Sending \<Longrightarrow> pp_done s < 2
    \<Longrightarrow> pipe_step dec useTTY s (s\<lparr>pp_reader := Over, pp_done := Suc (pp_done s)\<rparr>)"
| copier_over: "pp_copier s = Sending \<Longrightarrow> pp_done s < 2
    \<Longrightarrow> pipe_step dec useTTY s (s\<lparr>pp_copier := Over, pp_done := Suc (pp_done s)\<rparr>)"
| ping: "pp_result s = None \<Longrightarrow> pipe_step dec useTTY s (s\<lparr>pp_pings := Suc (pp_pings s)\<rparr>)"
| cancelled: "pp_result s = None \<Longrightarrow> pipe_step dec useTTY s (s\<lparr>pp_result := Some (-1)\<rparr>)"
| finished: "pp_result s = None \<Longrightarrow> pp_done s = Suc n \<Longrightarrow> pipe_step dec useTTY s (s\<lparr>pp_done := n, pp_result := Some 0\<rparr>)"

definition pipe_runs :: "(string \<Rightarrow> (string \<times> nat \<times> nat) option) \<Rightarrow> bool \<Rightarrow> pipe \<Rightarrow> pipe \<Rightarrow> bool" where
  "pipe_runs dec useTTY = (pipe_step dec useTTY)\<^sup>*\<^sup>*"

text \<open>What the frames that were read ask for.\<close>

definition stdin_of :: "ws_frame list \<Rightarrow> string" where
  "stdin_of fs = concat (List.map (\<lambda>f. case f of Binary d \<Rightarrow> d | TextFrame _ \<Rightarrow> []) fs)"

definition sizes_of :: "(string \<Rightarrow> (string \<times> nat \<times> nat) option) \<Rightarrow> bool \<Rightarrow> ws_frame list \<Rightarrow> (nat \<times> nat) list" where
  "sizes_of dec useTTY fs = concat (List.map (\<lambda>f. case f of Binary _ \<Rightarrow> [] | TextFrame t \<Rightarrow> asked_size dec useTTY t) fs)"

definition overs :: "pipe \<Rightarrow> nat" where
  "overs s = (if pp_reader s = Over then 1 else 0) + (if pp_copier s = Over then 1 else 0)"

text \<open>The invariants of the three parts: the reader, the copier and the channel.\<close>

definition typed_through :: "ws_frame list \<Rightarrow> pipe \<Rightarrow> bool" where
  "typed_through fs s \<longleftrightarrow> pp_stdin s = stdin_of fs \<or>
     (pp_reader s \<noteq> Running \<and> \<not> pp_eof s \<and> (\<exists>gs d k. fs = gs @ [Binary d] \<and> pp_stdin s = stdin_of gs @ take k d))"

definition reader_inv :: "(string \<Rightarrow> (string \<times> nat \<times> nat) option) \<Rightarrow> bool \<Rightarrow> ws_frame list \<Rightarrow> pipe \<Rightarrow> bool" where
  "reader_inv dec useTTY frames s \<longleftrightarrow> (\<exists>fs. frames = fs @ pp_in s \<and> pp_resizes s = sizes_of dec useTTY fs
     \<and> typed_through fs s \<and> (pp_reader s = Running \<longrightarrow> \<not> pp_eof s))"

definition copier_inv :: "string list \<Rightarrow> pipe \<Rightarrow> bool" where
  "copier_inv pieces s \<longleftrightarrow> pieces = pp_sent s @ pp_out s"

definition channel_inv :: "pipe \<Rightarrow> bool" where
  "channel_inv s \<longleftrightarrow> pp_done s + (if pp_result s = Some 0 then 1 else 0) = overs s"

lemma stdin_of_snoc: "stdin_of (fs @ [Binary d]) = stdin_of fs @ d" "stdin_of (fs @ [TextFrame t]) = stdin_of fs"
  by (simp_all add: stdin_of_def)

lemma sizes_of_snoc: "sizes_of dec tty (fs @ [Binary d]) = sizes_of dec tty fs"
  "sizes_of dec tty (fs @ [TextFrame t]) = sizes_of dec tty fs @ asked_size dec tty t"
  by (simp_all add: sizes_of_def)

lemma reader_step:
  assumes "pipe_step dec tty s s'" "reader_inv dec tty frames s"
  shows "reader_inv dec tty frames s'"
proof -
  obtain fs where fs: "frames = fs @ pp_in s" "pp_resizes s = sizes_of dec tty fs" "typed_through fs s"
    "pp_reader s = Running \<longrightarrow> \<not> pp_eof s"
    using assms(2) unfolding reader_inv_def by blast
  show ?thesis
    using assms(1)
  proof cases
    case (stdin d rest)
    then show ?thesis using fs unfolding reader_inv_def
      by (intro exI[of _ "fs @ [Binary d]"]) (auto simp: typed_through_def stdin_of_snoc sizes_of_snoc)
  next
    case (stdin_broken d rest k)
    then show ?thesis using fs unfolding reader_inv_def
      by (intro exI[of _ "fs @ [Binary d]"]) (auto simp: typed_through_def sizes_of_snoc)
  next
    case (control t rest)
    then show ?thesis using fs unfolding reader_inv_def
      by (intro exI[of _ "fs @ [TextFrame t]"]) (auto simp: typed_through_def stdin_of_snoc sizes_of_snoc)
  qed (use fs in \<open>auto simp: reader_inv_def typed_through_def\<close>)
qed

lemma copier_step: "pipe_step dec tty s s' \<Longrightarrow> copier_inv pieces s \<Longrightarrow> copier_inv pieces s'"
  by (induction rule: pipe_step.induct) (auto simp: copier_inv_def)

lemma channel_step: "pipe_step dec tty s s' \<Longrightarrow> channel_inv s \<Longrightarrow> channel_inv s'"
  by (induction rule: pipe_step.induct) (auto simp: channel_inv_def overs_def split: if_splits)

lemma pipe_invariants:
  assumes "pipe_runs dec tty (pipe_start frames pieces) s"
  shows "reader_inv dec tty frames s \<and> copier_inv pieces s \<and> channel_inv s"
  using assms unfolding pipe_runs_def
proof (induction rule: rtranclp_induct)
  case base
  show ?case
    by (auto simp: pipe_start_def reader_inv_def copier_inv_def channel_inv_def overs_def typed_through_def stdin_of_def sizes_of_def)
qed (blast intro: reader_step copier_step channel_step)

text \<open>C22. An exec session carries the bytes it is given and no others: at any moment, however the two goroutines, the pings,
  the failures and the end of the request interleave, the command has received exactly the bytes of the binary frames
  the client sent up to the one read last, in order and without anything from the control frames; only when a write to
  it has failed, which ends the reading without telling it that its input has ended, may a rest of the last frame be
  missing. The sizes it was given are those of the control frames read, a running reader can always take the next frame,
  and the client has received the first pieces of the output. No goroutine is ever stuck on the channel, the pipe can
  return as soon as one of them is over, and it reports a clean end only then.\<close>

theorem exec_pipe_faithful:
  assumes "pipe_runs dec useTTY (pipe_start frames pieces) s"
  shows "(\<exists>fs. frames = fs @ pp_in s \<and> pp_resizes s = sizes_of dec useTTY fs
        \<and> (pp_stdin s = stdin_of fs \<or>
             (pp_reader s \<noteq> Running \<and> \<not> pp_eof s \<and> (\<exists>gs d k. fs = gs @ [Binary d] \<and> pp_stdin s = stdin_of gs @ take k d))))
     \<and> (\<forall>f rest. pp_reader s = Running \<and> pp_in s = f # rest
          \<longrightarrow> (\<exists>s'. pipe_step dec useTTY s s' \<and> pp_in s' = rest \<and> pp_reader s' = Running))
     \<and> pieces = pp_sent s @ pp_out s
     \<and> (pp_reader s = Sending \<or> pp_copier s = Sending \<longrightarrow> pp_done s < 2)
     \<and> ((pp_reader s = Over \<or> pp_copier s = Over) \<and> pp_result s = None \<longrightarrow> 0 < pp_done s)
     \<and> (pp_result s = Some 0 \<longrightarrow> pp_reader s = Over \<or> pp_copier s = Over)"
proof -
  have inv: "reader_inv dec useTTY frames s" "copier_inv pieces s" "channel_inv s"
    using pipe_invariants[OF assms] by blast+
  have read: "\<exists>s'. pipe_step dec useTTY s s' \<and> pp_in s' = rest \<and> pp_reader s' = Running"
    if "pp_reader s = Running" "pp_in s = f # rest" for f rest
  proof (cases f)
    case (Binary d)
    show ?thesis by (rule exI, rule conjI[OF pipe_step.stdin[OF that(1) that(2)[unfolded Binary]]]) (simp add: that(1))
  next
    case (TextFrame t)
    show ?thesis by (rule exI, rule conjI[OF pipe_step.control[OF that(1) that(2)[unfolded TextFrame]]]) (simp add: that(1))
  qed
  have typed: "\<exists>fs. frames = fs @ pp_in s \<and> pp_resizes s = sizes_of dec useTTY fs
        \<and> (pp_stdin s = stdin_of fs \<or>
             (pp_reader s \<noteq> Running \<and> \<not> pp_eof s \<and> (\<exists>gs d k. fs = gs @ [Binary d] \<and> pp_stdin s = stdin_of gs @ take k d)))"
    using inv(1) unfolding reader_inv_def typed_through_def by blast
  show ?thesis
    using inv(2) channel_inv_def[of s, THEN iffD1, OF inv(3)] read typed
    by (auto simp: copier_inv_def overs_def split: if_splits)
qed

text \<open>For instance a command that is sent one line and answers it.\<close>

definition demo_pipe :: pipe where
  "demo_pipe = (pipe_start [Binary ''ls'', TextFrame ''?''] [''a.txt''])
     \<lparr>pp_in := [TextFrame ''?''], pp_stdin := ''ls'', pp_out := [], pp_sent := [''a.txt''], pp_copier := Over, pp_result := Some 0\<rparr>"

lemma pipe_runs_step: "pipe_step dec tty s s' \<Longrightarrow> pipe_runs dec tty s' t \<Longrightarrow> pipe_runs dec tty s t"
  unfolding pipe_runs_def by (rule converse_rtranclp_into_rtranclp)

lemma demo_pipe_runs: "pipe_runs (\<lambda>_. None) True (pipe_start [Binary ''ls'', TextFrame ''?''] [''a.txt'']) demo_pipe"
  apply (rule pipe_runs_step[OF pipe_step.stdin], simp add: pipe_start_def, simp add: pipe_start_def)
  apply (rule pipe_runs_step[OF pipe_step.copied], simp add: pipe_start_def, simp add: pipe_start_def)
  apply (rule pipe_runs_step[OF pipe_step.copied_all], simp add: pipe_start_def)
  apply (rule pipe_runs_step[OF pipe_step.copier_over], simp add: pipe_start_def, simp add: pipe_start_def)
  apply (rule pipe_runs_step[OF pipe_step.finished[where n = 0]], simp add: pipe_start_def, simp add: pipe_start_def)
  apply (simp add: pipe_runs_def demo_pipe_def pipe_start_def)
  done

theorem exec_pipe_faithful_witness:
  "pp_stdin demo_pipe = stdin_of [Binary ''ls''] \<and> pp_sent demo_pipe = [''a.txt'']"
proof -
  have d: "pp_in demo_pipe = [TextFrame ''?'']" "pp_reader demo_pipe = Running" "pp_out demo_pipe = []"
    by (simp_all add: demo_pipe_def pipe_start_def)
  note faithful = exec_pipe_faithful[OF demo_pipe_runs, unfolded d]
  then show ?thesis by auto
qed

end
