(* ===== verification/Mail.thy ===== *)
theory Mail
  imports Audit_Log
begin

text \<open>
  Delivering a notification: postJSON of internal/notify/notify.go and the SMTP session of internal/notify/email.go. A
  session is the list of commands sent so far; the server, an argument, answers each one with an error or not, and says
  whether it offers STARTTLS. What net/smtp does by itself is modelled as documented: PLAIN authentication refuses to
  send the password over a connection without TLS unless the server is the local host, and gives up with QUIT.
\<close>

section \<open>Posting JSON\<close>

definition postJSON :: "string res \<Rightarrow> (string \<Rightarrow> string \<Rightarrow> int res) \<Rightarrow> string \<Rightarrow> gerr option" where
  "postJSON marshalled post url =
     (case marshalled of
        Inl e \<Rightarrow> Some e
      | Inr body \<Rightarrow>
        (case post url body of
           Inl e \<Rightarrow> Some e
         | Inr status \<Rightarrow> if status < 200 \<or> 300 \<le> status then Some (ErrText (''unexpected status '' @ dec_int status)) else None))"

section \<open>The SMTP session\<close>

datatype smtp_cmd = Dial string | ImplicitTLS | Greet | StartTLS | AuthPlain string string | MailFrom string | RcptTo string
  | DataStart | DataBody string | DataEnd | QuitCmd | Hangup

record smtp_server =
  sm_reply :: "smtp_cmd list \<Rightarrow> smtp_cmd \<Rightarrow> gerr option"
  sm_starttls :: bool

type_synonym smtp_step = "smtp_cmd list \<Rightarrow> gerr option \<times> smtp_cmd list"

definition say :: "smtp_server \<Rightarrow> string \<Rightarrow> smtp_cmd \<Rightarrow> smtp_step" where
  "say S wrap c l = (map_option (ErrWrap wrap) (sm_reply S l c), l @ [c])"

text \<open>A step, and the next one when it succeeded.\<close>

definition and_then :: "smtp_step \<Rightarrow> smtp_step \<Rightarrow> smtp_step" where
  "and_then m k l = (case m l of (Some e, l') \<Rightarrow> (Some e, l') | (None, l') \<Rightarrow> k l')"

definition skip_step :: smtp_step where "skip_step l = (None, l)"

definition over_tls :: "smtp_cmd list \<Rightarrow> bool" where
  "over_tls l \<longleftrightarrow> ImplicitTLS \<in> set l \<or> StartTLS \<in> set l"

definition is_localhost :: "string \<Rightarrow> bool" where
  "is_localhost host \<longleftrightarrow> host \<in> {''localhost'', ''127.0.0.1'', ''::1''}"

definition auth_plain :: "smtp_server \<Rightarrow> email_config \<Rightarrow> smtp_step" where
  "auth_plain S c l =
     (if \<not> over_tls l \<and> \<not> is_localhost (em_host c) then (Some (ErrWrap ''smtp auth: '' (ErrText ''unencrypted connection'')), l @ [QuitCmd])
      else (case say S ''smtp auth: '' (AuthPlain (em_username c) (em_password c)) l of
              (Some e, l') \<Rightarrow> (Some e, l' @ [QuitCmd]) | (None, l') \<Rightarrow> (None, l')))"

fun rcpt_all :: "smtp_server \<Rightarrow> string list \<Rightarrow> smtp_step" where
  "rcpt_all S [] l = (None, l)"
| "rcpt_all S (r # rs) l = and_then (say S (''smtp rcpt '' @ r @ '': '') (RcptTo r)) (rcpt_all S rs) l"

text \<open>The commands after the greeting. The last one's error is returned as it is.\<close>

definition smtp_session :: "smtp_server \<Rightarrow> email_config \<Rightarrow> string \<Rightarrow> smtp_step" where
  "smtp_session S c msg =
     and_then (if em_port c \<noteq> 465 \<and> sm_starttls S then say S ''smtp starttls: '' StartTLS else skip_step)
    (and_then (if em_username c \<noteq> [] then auth_plain S c else skip_step)
    (and_then (say S ''smtp mail from: '' (MailFrom (em_from c)))
    (and_then (rcpt_all S (em_to c))
    (and_then (say S ''smtp data: '' DataStart)
    (and_then (say S ''smtp write: '' (DataBody msg))
    (and_then (say S ''smtp close: '' DataEnd)
      (\<lambda>l. (sm_reply S l QuitCmd, l @ [QuitCmd]))))))))"

definition hang_up :: "gerr option \<times> smtp_cmd list \<Rightarrow> gerr option \<times> smtp_cmd list" where
  "hang_up x = (fst x, snd x @ [Hangup])"

definition join_host_port :: "string \<Rightarrow> int \<Rightarrow> string" where
  "join_host_port host port =
     (if CHR '':'' \<in> set host then ''['' @ host @ '']:'' @ dec_int port else host @ '':'' @ dec_int port)"

definition smtpSend :: "smtp_server \<Rightarrow> email_config \<Rightarrow> string \<Rightarrow> gerr option \<times> smtp_cmd list" where
  "smtpSend S c msg =
     and_then (say S ''smtp dial: '' (Dial (join_host_port (em_host c) (em_port c))))
       (\<lambda>l. hang_up (and_then (say S ''smtp client: '' Greet) (smtp_session S c msg) (if em_port c = 465 then l @ [ImplicitTLS] else l))) []"

text \<open>The smtpSink: the message is built with the time of the sending.\<close>

definition mail_send :: "smtp_server \<Rightarrow> email_config \<Rightarrow> notification \<Rightarrow> string \<Rightarrow> gerr option \<times> smtp_cmd list" where
  "mail_send S c e date = smtpSend S c (buildEmail c e date)"

section \<open>What a session sends\<close>

text \<open>A step only adds to the session; \<open>adds m P\<close>: what it adds to any session satisfies P, which may look at what was
  there before.\<close>

definition adds :: "smtp_step \<Rightarrow> (smtp_cmd list \<Rightarrow> smtp_cmd list \<Rightarrow> bool) \<Rightarrow> bool" where
  "adds m P \<longleftrightarrow> (\<forall>l. \<exists>a. snd (m l) = l @ a \<and> P l a)"

definition secretive :: "email_config \<Rightarrow> smtp_cmd list \<Rightarrow> bool" where
  "secretive c l \<longleftrightarrow> (\<forall>i u p. i < length l \<and> l ! i = AuthPlain u p \<longrightarrow> is_localhost (em_host c) \<or> over_tls (take i l))"

lemma secretive_snoc: "(\<forall>u p. x = AuthPlain u p \<longrightarrow> is_localhost (em_host c) \<or> over_tls l) \<Longrightarrow> secretive c l \<Longrightarrow> secretive c (l @ [x])"
  by (auto simp: secretive_def nth_append less_Suc_eq)

definition keeps_secret :: "email_config \<Rightarrow> smtp_step \<Rightarrow> bool" where
  "keeps_secret c m \<longleftrightarrow> (\<forall>l. secretive c l \<longrightarrow> secretive c (snd (m l)))"

lemma secret_say: "(\<forall>u p. x \<noteq> AuthPlain u p) \<Longrightarrow> keeps_secret c (say S w x)"
  by (auto simp: keeps_secret_def say_def intro: secretive_snoc)

lemma secret_then: "keeps_secret c m \<Longrightarrow> keeps_secret c k \<Longrightarrow> keeps_secret c (and_then m k)"
  by (auto simp: keeps_secret_def and_then_def split: prod.split option.split)

lemma secret_skip: "keeps_secret c skip_step"
  by (simp add: keeps_secret_def skip_step_def)

lemma secret_quit: "keeps_secret c (\<lambda>l. (sm_reply S l QuitCmd, l @ [QuitCmd]))"
  by (auto simp: keeps_secret_def intro: secretive_snoc)

lemma secret_auth: "keeps_secret c (auth_plain S c)"
proof -
  have more: "secretive c (l @ [x, QuitCmd])" if "secretive c (l @ [x])" for l x
    using secretive_snoc[OF _ that, of QuitCmd] by simp
  show ?thesis
    by (auto simp: keeps_secret_def auth_plain_def say_def intro!: secretive_snoc more split: option.split)
qed

lemma secret_rcpts: "keeps_secret c (rcpt_all S rs)"
proof (induction rs)
  case (Cons r rs)
  have "keeps_secret c (and_then (say S (''smtp rcpt '' @ r @ '': '') (RcptTo r)) (rcpt_all S rs))"
    by (intro secret_then secret_say Cons) simp
  then show ?case by (simp add: keeps_secret_def)
qed (simp add: keeps_secret_def)

lemma secret_session: "keeps_secret c (smtp_session S c msg)"
  unfolding smtp_session_def
  by (intro secret_then) (auto intro: secret_say secret_skip secret_auth secret_rcpts secret_quit)

lemma secret_send: "secretive c (snd (smtpSend S c msg))"
proof -
  have step: "secretive c (snd (and_then (say S ''smtp client: '' Greet) (smtp_session S c msg) l))" if "secretive c l" for l
    using secret_then[OF secret_say secret_session, of Greet c S "''smtp client: ''" S msg] that by (auto simp: keeps_secret_def)
  have start: "secretive c [Dial a]" "secretive c [Dial a, ImplicitTLS]" for a
    by (auto simp: secretive_def nth_Cons split: nat.splits)
  show ?thesis
    by (auto simp: smtpSend_def and_then_def[of "say S ''smtp dial: '' _"] say_def hang_up_def start intro!: secretive_snoc step
        split: option.split)
qed

text \<open>The session of a mail that is delivered.\<close>

definition smtp_script :: "smtp_server \<Rightarrow> email_config \<Rightarrow> string \<Rightarrow> smtp_cmd list" where
  "smtp_script S c msg =
     [Dial (join_host_port (em_host c) (em_port c))] @ (if em_port c = 465 then [ImplicitTLS] else []) @ [Greet]
     @ (if em_port c \<noteq> 465 \<and> sm_starttls S then [StartTLS] else [])
     @ (if em_username c \<noteq> [] then [AuthPlain (em_username c) (em_password c)] else [])
     @ [MailFrom (em_from c)] @ List.map RcptTo (em_to c) @ [DataStart, DataBody msg, DataEnd, QuitCmd, Hangup]"

lemma and_then_ok: "and_then m k l = (None, l') \<longleftrightarrow> (\<exists>l1. m l = (None, l1) \<and> k l1 = (None, l'))"
  by (auto simp: and_then_def split: prod.split option.split)

lemma say_ok: "say S w c l = (None, l') \<longleftrightarrow> sm_reply S l c = None \<and> l' = l @ [c]"
  by (auto simp: say_def)

lemma rcpt_all_ok: "rcpt_all S rs l = (None, l') \<Longrightarrow> l' = l @ List.map RcptTo rs"
  by (induction rs arbitrary: l) (force simp: and_then_ok say_ok)+

lemma auth_ok: "auth_plain S c l = (None, l') \<Longrightarrow> l' = l @ [AuthPlain (em_username c) (em_password c)]"
  by (auto simp: auth_plain_def say_def split: if_splits option.splits)

lemma session_ok: "smtp_session S c msg l = (None, l') \<Longrightarrow>
  l' = l @ (if em_port c \<noteq> 465 \<and> sm_starttls S then [StartTLS] else [])
     @ (if em_username c \<noteq> [] then [AuthPlain (em_username c) (em_password c)] else [])
     @ [MailFrom (em_from c)] @ List.map RcptTo (em_to c) @ [DataStart, DataBody msg, DataEnd, QuitCmd]"
  unfolding smtp_session_def
  by (auto simp: and_then_ok say_ok skip_step_def dest!: rcpt_all_ok auth_ok split: if_splits)

lemma send_ok: "smtpSend S c msg = (None, l) \<Longrightarrow> l = smtp_script S c msg"
proof -
  let ?l1 = "[Dial (join_host_port (em_host c) (em_port c))] @ (if em_port c = 465 then [ImplicitTLS] else [])"
  assume "smtpSend S c msg = (None, l)"
  then have "fst (and_then (say S ''smtp client: '' Greet) (smtp_session S c msg) ?l1) = None"
    and l: "l = snd (and_then (say S ''smtp client: '' Greet) (smtp_session S c msg) ?l1) @ [Hangup]"
    by (auto simp: smtpSend_def and_then_ok[where m = "say S ''smtp dial: '' _"] say_ok hang_up_def split: if_splits)
  then obtain l2 where "and_then (say S ''smtp client: '' Greet) (smtp_session S c msg) ?l1 = (None, l2)" "l = l2 @ [Hangup]"
    by (metis prod.collapse)
  then show ?thesis by (auto simp: and_then_ok say_ok smtp_script_def dest!: session_ok)
qed

text \<open>C36. A notification by mail is delivered or reported as failed, and the password is safe: when sending succeeds, the
  session was the whole one, in order, with the message built from the event, once, for every recipient; and in no
  session, whatever the server answers or refuses, is the password sent before the connection is encrypted, unless the
  server is the local host.\<close>

theorem mail_delivered_safely:
  "(fst (mail_send S c e date) = None \<longrightarrow> snd (mail_send S c e date) = smtp_script S c (buildEmail c e date))
   \<and> (\<forall>i u p. i < length (snd (mail_send S c e date)) \<and> snd (mail_send S c e date) ! i = AuthPlain u p
        \<longrightarrow> is_localhost (em_host c) \<or> over_tls (take i (snd (mail_send S c e date))))"
  using secret_send[of c S "buildEmail c e date"] send_ok[of S c "buildEmail c e date"]
  by (auto simp: mail_send_def secretive_def prod_eq_iff)

definition demo_mail :: email_config where
  "demo_mail = \<lparr>em_host = ''mail.example.com'', em_port = 587, em_username = ''ci'', em_password = ''pw'', em_from = ''ci@example.com'',
     em_to = [''ops@example.com'', ''dev@example.com'']\<rparr>"

definition demo_server :: smtp_server where
  "demo_server = \<lparr>sm_reply = (\<lambda>_ _. None), sm_starttls = False\<rparr>"

definition demo_note :: notification where
  "demo_note = \<lparr>ev_type = ''deploy.failed'', ev_stack = ''shop'', ev_outcome = [], ev_message = ''m'', ev_fields = [], ev_time = 0\<rparr>"

lemma over_tls_take: "over_tls (take i l) \<Longrightarrow> over_tls l"
  by (auto simp: over_tls_def dest: in_set_takeD)

text \<open>A server without STARTTLS is not given the password.\<close>

theorem mail_delivered_safely_witness:
  "AuthPlain ''ci'' ''pw'' \<notin> set (snd (mail_send demo_server demo_mail demo_note ''now''))"
proof
  let ?l = "snd (mail_send demo_server demo_mail demo_note ''now'')"
  assume "AuthPlain ''ci'' ''pw'' \<in> set ?l"
  then obtain i where "i < length ?l" "?l ! i = AuthPlain ''ci'' ''pw''" unfolding in_set_conv_nth by blast
  then have "is_localhost (em_host demo_mail) \<or> over_tls (take i ?l)"
    using mail_delivered_safely[THEN conjunct2, rule_format, of i demo_server demo_mail demo_note "''now''"] by blast
  moreover have "\<not> is_localhost (em_host demo_mail)" by code_simp
  moreover have "\<not> over_tls ?l" by code_simp
  ultimately show False using over_tls_take by blast
qed

text \<open>The name of a stack goes into the header as it is: one with a line break adds a header of its own.\<close>

lemma stack_name_adds_header:
  assumes "ev_stack e = ''x'' @ crlf @ ''Bcc: a@b''"
  shows "\<exists>pre post. buildEmail c e date = pre @ crlf @ ''Bcc: a@b'' @ crlf @ post"
proof
  have ne: "''x'' @ crlf @ ''Bcc: a@b'' \<noteq> []" by simp
  show "\<exists>post. buildEmail c e date = (''From: '' @ em_from c @ crlf @ ''To: '' @ join_with '', '' (em_to c) @ crlf
      @ ''Subject: '' @ ''[Accelero] '' @ ev_type e @ '' '' @ em_dash @ '' '' @ ''x'') @ crlf @ ''Bcc: a@b'' @ crlf @ post"
    unfolding buildEmail_def Let_def assms if_P[OF ne] append_assoc by blast
qed

end
