(* ===== verification/Locks.thy ===== *)
theory Locks
  imports Prelude
begin

text \<open>
  The locks of the services in internal/stack/deployer.go: serviceLocks, lockService, and the way executeDeploy takes the
  lock of a service around deployService. A mutex is a number, the map that hands them out is guarded by a mutex of its
  own, so that lockService is one step. Deployments run in threads; between asking for the mutex and locking it others
  may act. The host-scoped copies of a deployer share the locks.
\<close>

record service_locks =
  lk_of :: "string \<Rightarrow> nat option"
  lk_next :: nat

definition no_locks :: service_locks where
  "no_locks = \<lparr>lk_of = (\<lambda>_. None), lk_next = 0\<rparr>"

definition lockService :: "string \<Rightarrow> service_locks \<Rightarrow> nat \<times> service_locks" where
  "lockService name L =
     (case lk_of L name of
        Some m \<Rightarrow> (m, L)
      | None \<Rightarrow> (lk_next L, L\<lparr>lk_of := (lk_of L)(name \<mapsto> lk_next L), lk_next := Suc (lk_next L)\<rparr>))"

text \<open>A thread is outside, waits for the mutex it was given for a service, or is inside deployService with it.\<close>

datatype deploy_phase = Outside | Waiting string nat | Inside string nat

record lock_state =
  ls_locks :: service_locks
  ls_thread :: "nat \<Rightarrow> deploy_phase"
  ls_holder :: "nat \<Rightarrow> nat option"

definition lock_start :: lock_state where
  "lock_start = \<lparr>ls_locks = no_locks, ls_thread = (\<lambda>_. Outside), ls_holder = (\<lambda>_. None)\<rparr>"

inductive lock_step :: "lock_state \<Rightarrow> lock_state \<Rightarrow> bool" where
  ask: "ls_thread s t = Outside \<Longrightarrow> lockService name (ls_locks s) = (m, L)
    \<Longrightarrow> lock_step s (s\<lparr>ls_locks := L, ls_thread := (ls_thread s)(t := Waiting name m)\<rparr>)"
| lock: "ls_thread s t = Waiting name m \<Longrightarrow> ls_holder s m = None
    \<Longrightarrow> lock_step s (s\<lparr>ls_thread := (ls_thread s)(t := Inside name m), ls_holder := (ls_holder s)(m \<mapsto> t)\<rparr>)"
| unlock: "ls_thread s t = Inside name m
    \<Longrightarrow> lock_step s (s\<lparr>ls_thread := (ls_thread s)(t := Outside), ls_holder := (ls_holder s)(m := None)\<rparr>)"

inductive_cases lock_step_cases: "lock_step s s'"

text \<open>Every service has one mutex and no two share one; who is inside holds the mutex of the service.\<close>

definition fresh_locks :: "service_locks \<Rightarrow> bool" where
  "fresh_locks L \<longleftrightarrow> (\<forall>n m. lk_of L n = Some m \<longrightarrow> m < lk_next L) \<and> (\<forall>n n' m. lk_of L n = Some m \<and> lk_of L n' = Some m \<longrightarrow> n = n')"

definition known_lock :: "lock_state \<Rightarrow> bool" where
  "known_lock s \<longleftrightarrow> (\<forall>t n m. ls_thread s t = Waiting n m \<or> ls_thread s t = Inside n m \<longrightarrow> lk_of (ls_locks s) n = Some m)"

definition held_right :: "lock_state \<Rightarrow> bool" where
  "held_right s \<longleftrightarrow> (\<forall>t n m. ls_thread s t = Inside n m \<longrightarrow> ls_holder s m = Some t)
     \<and> (\<forall>t m. ls_holder s m = Some t \<longrightarrow> (\<exists>n. ls_thread s t = Inside n m))"

lemma lockService_fresh: "lockService name L = (m, L') \<Longrightarrow> fresh_locks L
    \<Longrightarrow> fresh_locks L' \<and> lk_of L' name = Some m \<and> (\<forall>n k. lk_of L n = Some k \<longrightarrow> lk_of L' n = Some k)"
  by (auto simp: lockService_def fresh_locks_def split: option.splits if_splits) (fastforce intro: less_SucI)+

lemma lock_step_fresh: "lock_step s s' \<Longrightarrow> fresh_locks (ls_locks s) \<Longrightarrow> fresh_locks (ls_locks s')"
  by (erule lock_step_cases) (auto dest: lockService_fresh)

lemma lock_step_known: "lock_step s s' \<Longrightarrow> fresh_locks (ls_locks s) \<Longrightarrow> known_lock s \<Longrightarrow> known_lock s'"
  by (erule lock_step_cases) (auto simp: known_lock_def dest: lockService_fresh)

lemma lock_step_held: "lock_step s s' \<Longrightarrow> held_right s \<Longrightarrow> held_right s'"
  by (erule lock_step_cases) (auto simp: held_right_def, (metis deploy_phase.distinct deploy_phase.inject option.inject)+)

definition lock_reachable :: "lock_state \<Rightarrow> bool" where
  "lock_reachable s \<longleftrightarrow> lock_step\<^sup>*\<^sup>* lock_start s"

lemma lock_invariants: "lock_reachable s \<Longrightarrow> fresh_locks (ls_locks s) \<and> known_lock s \<and> held_right s"
  unfolding lock_reachable_def
proof (induction rule: rtranclp_induct)
  case base
  show ?case by (simp add: lock_start_def no_locks_def fresh_locks_def known_lock_def held_right_def)
qed (blast intro: lock_step_fresh lock_step_known lock_step_held)

text \<open>C9. One deployment at a time changes the containers of a service, over all stacks and hosts: in every state that
  concurrent deployments can reach, two threads inside deployService for the same service are the same thread; and a
  thread only ever waits for one that is inside for the very service it wants.\<close>

theorem service_deploys_exclusive:
  assumes "lock_reachable s"
  shows "(ls_thread s t = Inside n m \<and> ls_thread s t' = Inside n m' \<longrightarrow> t = t')
     \<and> (ls_thread s t = Waiting n m \<and> ls_holder s m \<noteq> None \<longrightarrow> (\<exists>u. ls_holder s m = Some u \<and> ls_thread s u = Inside n m))"
  using lock_invariants[OF assms]
  by (auto simp: fresh_locks_def known_lock_def held_right_def) (metis option.inject)+

text \<open>For instance two deployments that want the same service: one is inside, the other waits.\<close>

definition demo_locked :: lock_state where
  "demo_locked = \<lparr>ls_locks = \<lparr>lk_of = [''web'' \<mapsto> 0], lk_next = 1\<rparr>, ls_thread = (\<lambda>_. Outside)(1 := Inside ''web'' 0, 2 := Waiting ''web'' 0),
     ls_holder = [0 \<mapsto> 1]\<rparr>"

lemma demo_locked_reachable: "lock_reachable demo_locked"
proof -
  let ?L = "\<lparr>lk_of = [''web'' \<mapsto> 0], lk_next = 1\<rparr>"
  let ?s1 = "\<lparr>ls_locks = ?L, ls_thread = (\<lambda>_. Outside)(1 := Waiting ''web'' 0), ls_holder = (\<lambda>_. None)\<rparr>"
  let ?s2 = "\<lparr>ls_locks = ?L, ls_thread = (\<lambda>_. Outside)(1 := Inside ''web'' 0), ls_holder = [0 \<mapsto> 1]\<rparr>"
  have "lock_step lock_start ?s1"
    using lock_step.ask[of lock_start 1 "''web''" 0 ?L] by (simp add: lock_start_def lockService_def no_locks_def)
  moreover have "lock_step ?s1 ?s2"
    using lock_step.lock[of ?s1 1 "''web''" 0] by simp
  moreover have "lock_step ?s2 demo_locked"
    using lock_step.ask[of ?s2 2 "''web''" 0 ?L] by (simp add: lockService_def demo_locked_def)
  ultimately show ?thesis unfolding lock_reachable_def
    by (blast intro: rtranclp.rtrancl_into_rtrancl rtranclp.rtrancl_refl)
qed

theorem service_deploys_exclusive_witness:
  "ls_thread demo_locked 2 = Waiting ''web'' 0 \<and> (\<exists>u. ls_holder demo_locked 0 = Some u \<and> ls_thread demo_locked u = Inside ''web'' 0)"
  using service_deploys_exclusive[OF demo_locked_reachable, of 2 "''web''" 0] by (simp add: demo_locked_def)

end
