(* ===== verification/Loops.thy ===== *)
theory Loops
  imports Reconciler "HOL-Library.Word"
begin

text \<open>
  The goroutines of internal/reconciler/reconciler.go: the table of loops and its mutex, Start, Stop, RefreshStack and
  startStackLoop as they run in concurrent threads, and runLoop, which waits for its ticker or for the end of its context.
  Reconciler.thy has the sequential RefreshStack and the cycle itself; here a cycle is the time a loop spends in it.
\<close>

section \<open>The interval\<close>

text \<open>An int of 64 bits, multiplied by the nanoseconds of a second with wrap-around. NewTicker panics unless it is positive,
  and a panic in a goroutine ends the process.\<close>

definition loop_interval :: "int \<Rightarrow> int" where
  "loop_interval secs = sint (word_of_int secs * word_of_int 1000000000 :: 64 word)"

definition ticker_ok :: "int \<Rightarrow> bool" where
  "ticker_ok secs \<longleftrightarrow> loop_interval secs > 0"

section \<open>Loops and refreshes\<close>

datatype loop_phase = Launching | Ticking | InCycle | Returned

record goroutine =
  go_stack :: string
  go_secs :: int
  go_cancelled :: bool
  go_phase :: loop_phase

text \<open>Where a thread is in RefreshStack: about to lock, waiting for the loop it cancelled while it holds the mutex, about to
  read the stack, about to register a new loop, counting for the gauge; or in Stop, after it cancelled the root context.\<close>

datatype refresher = Idle | Locking string | Awaiting string nat | Reading string | Starting stack | Counting | Gauging int | Halting

record loop_state =
  lp_table :: "string \<Rightarrow> nat option"
  lp_go :: "nat \<Rightarrow> goroutine option"
  lp_next :: nat
  lp_mutex :: "nat option"
  lp_thread :: "nat \<Rightarrow> refresher"
  lp_root :: bool \<comment> \<open>the root context is cancelled\<close>
  lp_gauge :: int
  lp_crashed :: bool

definition spawn :: "stack \<Rightarrow> loop_state \<Rightarrow> loop_state" where
  "spawn st s = s\<lparr>lp_go := (lp_go s)(lp_next s \<mapsto> \<lparr>go_stack = st_id st, go_secs = ReconcileInterval st, go_cancelled = lp_root s,
       go_phase = Launching\<rparr>), lp_table := (lp_table s)(st_id st \<mapsto> lp_next s), lp_next := Suc (lp_next s)\<rparr>"

definition new_loops :: loop_state where
  "new_loops = \<lparr>lp_table = Map.empty, lp_go = Map.empty, lp_next = 0, lp_mutex = None, lp_thread = (\<lambda>_. Idle), lp_root = False,
     lp_gauge = 0, lp_crashed = False\<rparr>"

text \<open>Start, over the stacks that were listed.\<close>

definition start_all :: "stack list \<Rightarrow> loop_state \<Rightarrow> loop_state" where
  "start_all sts s = foldl (\<lambda>s st. if wants_loop st then spawn st s else s) s sts"

definition started :: "stack list \<Rightarrow> loop_state" where
  "started sts = (let s = start_all sts new_loops in s\<lparr>lp_gauge := int (length (filter wants_loop sts))\<rparr>)"

definition set_phase :: "nat \<Rightarrow> loop_phase \<Rightarrow> loop_state \<Rightarrow> loop_state" where
  "set_phase g p s = s\<lparr>lp_go := (lp_go s)(g := map_option (\<lambda>l. l\<lparr>go_phase := p\<rparr>) (lp_go s g))\<rparr>"

definition set_cancelled :: "nat \<Rightarrow> loop_state \<Rightarrow> loop_state" where
  "set_cancelled g s = s\<lparr>lp_go := (lp_go s)(g := map_option (\<lambda>l. l\<lparr>go_cancelled := True\<rparr>) (lp_go s g))\<rparr>"

definition at_thread :: "nat \<Rightarrow> refresher \<Rightarrow> loop_state \<Rightarrow> loop_state" where
  "at_thread t p s = s\<lparr>lp_thread := (lp_thread s)(t := p)\<rparr>"

fun refreshing :: "refresher \<Rightarrow> string option" where
  "refreshing (Locking i) = Some i"
| "refreshing (Awaiting i g) = Some i"
| "refreshing (Reading i) = Some i"
| "refreshing (Starting st) = Some (st_id st)"
| "refreshing _ = None"

text \<open>With \<open>serial\<close> no two refreshes of the same stack overlap. The stack that is read may be any: others write the
  database. A loop whose context is done may still take a tick that is ready.\<close>

inductive loop_step :: "bool \<Rightarrow> loop_state \<Rightarrow> loop_state \<Rightarrow> bool" for serial where
  call: "lp_thread s t = Idle \<Longrightarrow> (serial \<longrightarrow> (\<forall>u. refreshing (lp_thread s u) \<noteq> Some i)) \<Longrightarrow> loop_step serial s (at_thread t (Locking i) s)"
| found: "lp_thread s t = Locking i \<Longrightarrow> lp_mutex s = None \<Longrightarrow> lp_table s i = Some g
    \<Longrightarrow> loop_step serial s (at_thread t (Awaiting i g) ((set_cancelled g s)\<lparr>lp_mutex := Some t\<rparr>))"
| not_found: "lp_thread s t = Locking i \<Longrightarrow> lp_mutex s = None \<Longrightarrow> lp_table s i = None
    \<Longrightarrow> loop_step serial s (at_thread t (Reading i) s)"
| awaited: "lp_thread s t = Awaiting i g \<Longrightarrow> lp_go s g = Some l \<Longrightarrow> go_phase l = Returned
    \<Longrightarrow> loop_step serial s (at_thread t (Reading i) (s\<lparr>lp_table := (lp_table s)(i := None), lp_mutex := None\<rparr>))"
| read_nothing: "lp_thread s t = Reading i \<Longrightarrow> loop_step serial s (at_thread t Idle s)"
| read_off: "lp_thread s t = Reading i \<Longrightarrow> st_id st = i \<Longrightarrow> \<not> wants_loop st \<Longrightarrow> loop_step serial s (at_thread t Counting s)"
| read_on: "lp_thread s t = Reading i \<Longrightarrow> st_id st = i \<Longrightarrow> wants_loop st \<Longrightarrow> loop_step serial s (at_thread t (Starting st) s)"
| start: "lp_thread s t = Starting st \<Longrightarrow> lp_mutex s = None \<Longrightarrow> loop_step serial s (at_thread t Counting (spawn st s))"
| count: "lp_thread s t = Counting \<Longrightarrow> lp_mutex s = None
    \<Longrightarrow> loop_step serial s (at_thread t (Gauging (int (card (dom (lp_table s))))) s)"
| gauge: "lp_thread s t = Gauging n \<Longrightarrow> loop_step serial s (at_thread t Idle (s\<lparr>lp_gauge := n\<rparr>))"
| launch: "lp_go s g = Some l \<Longrightarrow> go_phase l = Launching \<Longrightarrow> ticker_ok (go_secs l) \<Longrightarrow> loop_step serial s (set_phase g Ticking s)"
| launch_panic: "lp_go s g = Some l \<Longrightarrow> go_phase l = Launching \<Longrightarrow> \<not> ticker_ok (go_secs l) \<Longrightarrow> loop_step serial s (s\<lparr>lp_crashed := True\<rparr>)"
| ticked: "lp_go s g = Some l \<Longrightarrow> go_phase l = Ticking \<Longrightarrow> loop_step serial s (set_phase g InCycle s)"
| cycle_over: "lp_go s g = Some l \<Longrightarrow> go_phase l = InCycle \<Longrightarrow> loop_step serial s (set_phase g Ticking s)"
| returned: "lp_go s g = Some l \<Longrightarrow> go_phase l = Ticking \<Longrightarrow> go_cancelled l \<Longrightarrow> loop_step serial s (set_phase g Returned s)"
| halt: "lp_thread s t = Idle
    \<Longrightarrow> loop_step serial s (at_thread t Halting (s\<lparr>lp_root := True, lp_go := (\<lambda>g. map_option (\<lambda>l. l\<lparr>go_cancelled := True\<rparr>) (lp_go s g))\<rparr>))"
| halted: "lp_thread s t = Halting \<Longrightarrow> lp_mutex s = None \<Longrightarrow> loop_step serial s (at_thread t Counting (s\<lparr>lp_table := Map.empty\<rparr>))"

inductive_cases loop_step_cases: "loop_step serial s s'"

definition live_step :: "bool \<Rightarrow> loop_state \<Rightarrow> loop_state \<Rightarrow> bool" where
  "live_step serial s s' \<longleftrightarrow> \<not> lp_crashed s \<and> loop_step serial s s'"

definition loops_reach :: "bool \<Rightarrow> stack list \<Rightarrow> loop_state \<Rightarrow> bool" where
  "loops_reach serial sts s \<longleftrightarrow> (live_step serial)\<^sup>*\<^sup>* (started sts) s"

section \<open>Invariants\<close>

definition numbered :: "loop_state \<Rightarrow> bool" where
  "numbered s \<longleftrightarrow> (\<forall>i g. lp_table s i = Some g \<longrightarrow> (\<exists>l. lp_go s g = Some l \<and> go_stack l = i)) \<and> (\<forall>g l. lp_go s g = Some l \<longrightarrow> g < lp_next s)"

definition guarded :: "loop_state \<Rightarrow> bool" where
  "guarded s \<longleftrightarrow> (\<forall>t. lp_mutex s = Some t \<longleftrightarrow> (\<exists>i g. lp_thread s t = Awaiting i g)) \<and> (\<forall>t i g. lp_thread s t = Awaiting i g \<longrightarrow> lp_table s i = Some g)
     \<and> (\<forall>t. lp_thread s t = Halting \<longrightarrow> lp_root s) \<and> (\<forall>t st. lp_thread s t = Starting st \<longrightarrow> wants_loop st)"

definition apart :: "loop_state \<Rightarrow> bool" where
  "apart s \<longleftrightarrow> (\<forall>t u i. refreshing (lp_thread s t) = Some i \<and> refreshing (lp_thread s u) = Some i \<longrightarrow> t = u)"

definition cleared :: "loop_state \<Rightarrow> bool" where
  "cleared s \<longleftrightarrow> (\<forall>t i. lp_thread s t = Reading i \<longrightarrow> lp_table s i = None) \<and> (\<forall>t st. lp_thread s t = Starting st \<longrightarrow> lp_table s (st_id st) = None)"

definition registered :: "loop_state \<Rightarrow> bool" where
  "registered s \<longleftrightarrow> lp_root s \<or> (\<forall>g l. lp_go s g = Some l \<and> go_phase l \<noteq> Returned \<longrightarrow> lp_table s (go_stack l) = Some g)"

lemmas loop_ops = at_thread_def set_phase_def set_cancelled_def spawn_def

lemma step_numbered: "loop_step b s s' \<Longrightarrow> numbered s \<Longrightarrow> numbered s'"
  by (erule loop_step_cases) (fastforce simp: numbered_def loop_ops split: if_splits)+

lemma step_apart: "loop_step True s s' \<Longrightarrow> apart s \<Longrightarrow> apart s'"
  by (erule loop_step_cases) (auto simp: apart_def loop_ops)

lemma step_guarded: "loop_step b s s' \<Longrightarrow> guarded s \<Longrightarrow> guarded s'"
  by (erule loop_step_cases) (auto simp: guarded_def loop_ops, (metis option.inject)+)

lemma step_cleared: "loop_step True s s' \<Longrightarrow> apart s \<Longrightarrow> cleared s \<Longrightarrow> cleared s'"
  by (erule loop_step_cases) (fastforce simp: cleared_def apart_def loop_ops)+

lemma step_registered:
  assumes "loop_step True s s'" "numbered s" "guarded s" "cleared s" "registered s"
  shows "registered s'"
  using assms
proof (cases rule: loop_step.cases)
  case (awaited t i g l)
  then show ?thesis using assms(3,5) by (fastforce simp: registered_def guarded_def loop_ops)
next
  case (halted t)
  then show ?thesis using assms(3) by (auto simp: registered_def guarded_def loop_ops)
next
  case (start t st)
  have free: "lp_table s (st_id st) = None" using assms(4) start by (simp add: cleared_def)
  then show ?thesis using start assms(2,5) by (fastforce simp: registered_def numbered_def loop_ops)
qed (fastforce simp: registered_def loop_ops split: if_splits)+

lemma start_all_ok:
  "distinct (List.map st_id sts) \<Longrightarrow> numbered s \<Longrightarrow> registered s \<Longrightarrow> (\<forall>st \<in> set sts. lp_table s (st_id st) = None)
    \<Longrightarrow> numbered (start_all sts s) \<and> registered (start_all sts s)
      \<and> lp_thread (start_all sts s) = lp_thread s \<and> lp_mutex (start_all sts s) = lp_mutex s
      \<and> lp_root (start_all sts s) = lp_root s \<and> lp_crashed (start_all sts s) = lp_crashed s"
  unfolding start_all_def
proof (induction sts arbitrary: s)
  case (Cons st sts)
  have "numbered (spawn st s)" using Cons.prems(2) by (fastforce simp: numbered_def spawn_def)
  moreover have "registered (spawn st s)"
    using Cons.prems(2-4) by (fastforce simp: numbered_def registered_def spawn_def)
  moreover have "\<forall>x \<in> set sts. lp_table (spawn st s) (st_id x) = None"
    using Cons.prems(1,4) by (auto simp: spawn_def) (metis image_eqI)
  moreover have "lp_thread (spawn st s) = lp_thread s" "lp_mutex (spawn st s) = lp_mutex s" "lp_root (spawn st s) = lp_root s"
    "lp_crashed (spawn st s) = lp_crashed s" by (simp_all add: spawn_def)
  ultimately show ?case using Cons.IH[of "spawn st s"] Cons.IH[of s] Cons.prems by (auto simp: wants_loop_def)
qed simp

definition loops_ok :: "loop_state \<Rightarrow> bool" where
  "loops_ok s \<longleftrightarrow> numbered s \<and> guarded s \<and> apart s \<and> cleared s \<and> registered s"

lemma started_ok: "distinct (List.map st_id sts) \<Longrightarrow> loops_ok (started sts)"
proof -
  assume d: "distinct (List.map st_id sts)"
  have "numbered new_loops" "registered new_loops" "\<forall>st \<in> set sts. lp_table new_loops (st_id st) = None"
    by (simp_all add: numbered_def registered_def new_loops_def)
  note s = start_all_ok[OF d this]
  have "lp_thread new_loops = (\<lambda>_. Idle)" "lp_mutex new_loops = None" "lp_root new_loops = False"
    by (simp_all add: new_loops_def)
  with s show "loops_ok (started sts)"
    by (auto simp: started_def loops_ok_def Let_def numbered_def guarded_def apart_def cleared_def registered_def)
qed

lemma reach_ok:
  assumes "loops_reach True sts s" "distinct (List.map st_id sts)"
  shows "loops_ok s"
  using assms(1) unfolding loops_reach_def
proof (induction rule: rtranclp_induct)
  case base
  show ?case by (rule started_ok[OF assms(2)])
next
  case (step s s')
  then show ?case
    unfolding live_step_def loops_ok_def
    by (blast intro: step_numbered step_guarded step_apart step_cleared step_registered)
qed

text \<open>C6. As long as no two refreshes of the same stack overlap, a stack has at most one loop, and that one is in the
  table, where the next refresh finds it: in every state that can be reached before the reconciler is stopped, two loops
  of the same stack that have not returned are the same one. In particular no two cycles of a stack overlap.\<close>

theorem one_loop_per_stack:
  assumes "loops_reach True sts s" "distinct (List.map st_id sts)" "\<not> lp_root s" "lp_go s g = Some l" "go_phase l \<noteq> Returned"
  shows "lp_table s (go_stack l) = Some g
     \<and> (\<forall>h k. lp_go s h = Some k \<and> go_phase k \<noteq> Returned \<and> go_stack k = go_stack l \<longrightarrow> h = g)"
  using reach_ok[OF assms(1,2)] assms(3-5) by (auto simp: loops_ok_def registered_def) (metis option.inject)

section \<open>Overlapping refreshes\<close>

definition looped_stack :: stack where
  "looped_stack = demo_stack\<lparr>st_id := ''s'', ReconcileInterval := 30, st_status := StackStatusActive\<rparr>"

lemma looped_wants: "wants_loop looped_stack" "st_id looped_stack = ''s''" "ReconcileInterval looped_stack = 30"
  by (simp_all add: looped_stack_def wants_loop_def shouldReconcile_def)

lemma live: "loop_step b s s' \<Longrightarrow> \<not> lp_crashed s \<Longrightarrow> (live_step b)\<^sup>*\<^sup>* s' s'' \<Longrightarrow> (live_step b)\<^sup>*\<^sup>* s s''"
  by (rule converse_rtranclp_into_rtranclp) (simp_all add: live_step_def)

text \<open>Two refreshes of a stack without a loop that overlap start a loop each; the table keeps the second only, so no later
  refresh will find the first, which goes on reconciling the stack.\<close>

lemma overlapping_refreshes_leak:
  "\<exists>s. loops_reach False [] s \<and> lp_table s ''s'' = Some 1 \<and> \<not> lp_root s
     \<and> (\<exists>l. lp_go s 0 = Some l \<and> go_stack l = ''s'' \<and> \<not> go_cancelled l \<and> go_phase l = Launching)"
proof -
  let ?s0 = "started []"
  let ?s1 = "at_thread 1 (Locking ''s'') ?s0"
  let ?s2 = "at_thread 2 (Locking ''s'') ?s1"
  let ?s3 = "at_thread 1 (Reading ''s'') ?s2"
  let ?s4 = "at_thread 2 (Reading ''s'') ?s3"
  let ?s5 = "at_thread 1 (Starting looped_stack) ?s4"
  let ?s6 = "at_thread 2 (Starting looped_stack) ?s5"
  let ?s7 = "at_thread 1 Counting (spawn looped_stack ?s6)"
  let ?s8 = "at_thread 2 Counting (spawn looped_stack ?s7)"
  note d = started_def start_all_def new_loops_def at_thread_def spawn_def looped_wants
  have 1: "loop_step False ?s0 ?s1" "\<not> lp_crashed ?s0" by (rule loop_step.call, simp_all add: d)
  have 2: "loop_step False ?s1 ?s2" "\<not> lp_crashed ?s1" by (rule loop_step.call, simp_all add: d)
  have 3: "loop_step False ?s2 ?s3" "\<not> lp_crashed ?s2" by (rule loop_step.not_found, simp_all add: d)
  have 4: "loop_step False ?s3 ?s4" "\<not> lp_crashed ?s3" by (rule loop_step.not_found, simp_all add: d)
  have 5: "loop_step False ?s4 ?s5" "\<not> lp_crashed ?s4" by (rule loop_step.read_on, simp_all add: d)
  have 6: "loop_step False ?s5 ?s6" "\<not> lp_crashed ?s5" by (rule loop_step.read_on, simp_all add: d)
  have 7: "loop_step False ?s6 ?s7" "\<not> lp_crashed ?s6" by (rule loop_step.start, simp_all add: d)
  have 8: "loop_step False ?s7 ?s8" "\<not> lp_crashed ?s7" by (rule loop_step.start, simp_all add: d)
  have "(live_step False)\<^sup>*\<^sup>* ?s8 ?s8" by simp
  from live[OF 8 this] have "(live_step False)\<^sup>*\<^sup>* ?s7 ?s8" .
  from live[OF 7 this] have "(live_step False)\<^sup>*\<^sup>* ?s6 ?s8" .
  from live[OF 6 this] have "(live_step False)\<^sup>*\<^sup>* ?s5 ?s8" .
  from live[OF 5 this] have "(live_step False)\<^sup>*\<^sup>* ?s4 ?s8" .
  from live[OF 4 this] have "(live_step False)\<^sup>*\<^sup>* ?s3 ?s8" .
  from live[OF 3 this] have "(live_step False)\<^sup>*\<^sup>* ?s2 ?s8" .
  from live[OF 2 this] have "(live_step False)\<^sup>*\<^sup>* ?s1 ?s8" .
  from live[OF 1 this] have "(live_step False)\<^sup>*\<^sup>* ?s0 ?s8" .
  then have "loops_reach False [] ?s8" by (simp add: loops_reach_def)
  then show ?thesis by (intro exI[of _ ?s8]) (simp add: d)
qed

section \<open>The table, sequentially\<close>

text \<open>What the concurrent table shows is the table of Reconciler.thy, and every step changes it as one of the sequential
  operations does.\<close>

definition table_view :: "loop_state \<Rightarrow> loops" where
  "table_view s = (\<lambda>i. case lp_table s i of None \<Rightarrow> None | Some g \<Rightarrow> map_option go_secs (lp_go s g))"

lemma view_phase: "table_view (set_phase g p s) = table_view s" "table_view (set_cancelled g s) = table_view s"
  "table_view (at_thread t r s) = table_view s"
  by (auto simp: table_view_def loop_ops fun_eq_iff option.map_comp comp_def split: option.splits)

lemma view_fields: "table_view (s\<lparr>lp_mutex := m\<rparr>) = table_view s" "table_view (s\<lparr>lp_gauge := n\<rparr>) = table_view s"
  "table_view (s\<lparr>lp_crashed := c\<rparr>) = table_view s"
  by (simp_all add: table_view_def cong: option.case_cong)

lemma view_halt: "table_view (s\<lparr>lp_root := r, lp_go := (\<lambda>g. map_option (\<lambda>l. l\<lparr>go_cancelled := c\<rparr>) (lp_go s g))\<rparr>) = table_view s"
  by (simp add: table_view_def option.map_comp comp_def cong: option.case_cong)

lemma view_removed: "table_view (s\<lparr>lp_table := (lp_table s)(i := None), lp_mutex := m\<rparr>) = (table_view s)(i := None)"
  by (simp add: table_view_def fun_eq_iff cong: option.case_cong)

lemma view_spawn: "numbered s \<Longrightarrow> table_view (spawn st s) = startStackLoop st (table_view s)"
  by (auto simp: table_view_def spawn_def startStackLoop_def fun_eq_iff numbered_def split: option.splits)

lemma table_refines:
  assumes "loop_step b s s'" "numbered s" "guarded s"
  shows "table_view s' = table_view s \<or> (\<exists>i. table_view s' = (table_view s)(i := None))
     \<or> (\<exists>st. wants_loop st \<and> table_view s' = startStackLoop st (table_view s)) \<or> table_view s' = Stop (table_view s)"
  using assms
proof (cases rule: loop_step.cases)
  case (halted t)
  then show ?thesis by (simp add: view_phase) (simp add: table_view_def Stop_def)
next
  case (start t st)
  have "wants_loop st" "table_view s' = startStackLoop st (table_view s)"
    using start assms(2,3) by (simp_all add: view_phase view_spawn guarded_def)
  then show ?thesis by blast
next
  case (awaited t i g l)
  then show ?thesis by (auto simp: view_phase view_removed)
qed (simp_all add: view_phase view_fields view_halt)

section \<open>Intervals that panic\<close>

lemma interval_exact: "0 < i \<Longrightarrow> i \<le> 9223372036 \<Longrightarrow> loop_interval i = i * 1000000000"
proof -
  assume "0 < i" "i \<le> 9223372036"
  then have "signed_take_bit 63 (i * 1000000000) = i * 1000000000"
    by (intro signed_take_bit_int_eq_self) simp_all
  moreover have "loop_interval i = sint (word_of_int (i * 1000000000) :: 64 word)"
    unfolding loop_interval_def by (metis wi_hom_mult)
  moreover have "sint (word_of_int (i * 1000000000) :: 64 word) = signed_take_bit 63 (i * 1000000000)"
    by (subst sint_sbintrunc') (simp only: len_of_numeral_defs | simp)+
  ultimately show ?thesis by simp
qed

text \<open>The first interval that overflows: a stack created or updated with it stops the process, and again at each start.\<close>

lemma interval_overflows: "loop_interval 9223372037 < 0 \<and> \<not> ticker_ok 9223372037"
  by code_simp

definition small_intervals :: "loop_state \<Rightarrow> bool" where
  "small_intervals s \<longleftrightarrow> (\<forall>g l. lp_go s g = Some l \<longrightarrow> 0 < go_secs l \<and> go_secs l \<le> 9223372036)"

lemma small_never_panic: "loop_step b s s' \<Longrightarrow> small_intervals s \<Longrightarrow> \<not> lp_crashed s \<Longrightarrow> \<not> lp_crashed s'"
  by (erule loop_step_cases) (auto simp: loop_ops small_intervals_def ticker_ok_def interval_exact)

definition demo_loops :: loop_state where
  "demo_loops = started [looped_stack]"

theorem one_loop_per_stack_witness:
  "lp_table demo_loops ''s'' = Some 0"
proof -
  let ?l = "\<lparr>go_stack = ''s'', go_secs = 30, go_cancelled = False, go_phase = Launching\<rparr>"
  have "loops_reach True [looped_stack] demo_loops" by (simp add: loops_reach_def demo_loops_def)
  moreover have "lp_go demo_loops 0 = Some ?l" "\<not> lp_root demo_loops"
    by (simp_all add: demo_loops_def started_def start_all_def new_loops_def spawn_def looped_wants)
  ultimately show ?thesis using one_loop_per_stack[of "[looped_stack]" demo_loops 0 ?l] by simp
qed

end
