(* ===== verification/Metrics.thy ===== *)
theory Metrics
  imports Middleware
begin

text \<open>
  The Prometheus metrics: internal/metrics/metrics.go and internal/middleware/metrics.go. The registry keeps the number
  of every counter and the list of observations of every histogram, by the name of the metric and the values of its
  labels; gauges are the stacks by status and the number of loops. What Prometheus does with them, the collectors of the
  process and of the Go runtime, and the text that is exposed are not modelled. Durations are exact.
\<close>

section \<open>The registry\<close>

type_synonym series = "string \<times> string list"

record metrics =
  mx_counts :: "series \<Rightarrow> nat"
  mx_seen :: "series \<Rightarrow> rat list"
  mx_stacks :: "string \<Rightarrow> int option"
  mx_loops :: int

definition new_metrics :: metrics where
  "new_metrics = \<lparr>mx_counts = (\<lambda>_. 0), mx_seen = (\<lambda>_. []), mx_stacks = (\<lambda>_. None), mx_loops = 0\<rparr>"

definition inc :: "string \<Rightarrow> string list \<Rightarrow> metrics \<Rightarrow> metrics" where
  "inc name labels M = M\<lparr>mx_counts := (mx_counts M)((name, labels) := Suc (mx_counts M (name, labels)))\<rparr>"

definition observe :: "string \<Rightarrow> string list \<Rightarrow> rat \<Rightarrow> metrics \<Rightarrow> metrics" where
  "observe name labels v M = M\<lparr>mx_seen := (mx_seen M)((name, labels) := mx_seen M (name, labels) @ [v])\<rparr>"

text \<open>The bucket of a histogram: the observations up to its bound.\<close>

definition hist_bucket :: "rat \<Rightarrow> rat list \<Rightarrow> nat" where
  "hist_bucket le vs = length (filter (\<lambda>v. v \<le> le) vs)"

definition deployment_buckets :: "rat list" where
  "deployment_buckets = [1 / 2, 1, 2, 5, 10, 30, 60, 120, 300, 600]"

definition http_buckets :: "rat list" where
  "http_buckets = [5 / 1000, 1 / 100, 25 / 1000, 5 / 100, 1 / 10, 25 / 100, 1 / 2, 1, 5 / 2, 5, 10]"

text \<open>The collectors that init registers, with their labels. WithLabelValues panics unless it gets one value per label.\<close>

datatype collector = Counter string "string list" | Histogram string "string list" "rat list" | Gauge string "string list"

definition the_collectors :: "collector list" where
  "the_collectors =
     [Counter ''deployments_total'' [''stack'', ''trigger'', ''status''],
      Counter ''drift_detected_total'' [''stack'', ''type''],
      Counter ''reconcile_cycles_total'' [''stack''],
      Counter ''http_requests_total'' [''method'', ''path'', ''status''],
      Counter ''rate_limited_requests_total'' [''path''],
      Counter ''webhook_signature_rejected_total'' [''reason''],
      Counter ''circuit_breaker_tripped_total'' [''stack''],
      Counter ''auto_deploys_skipped_total'' [''stack''],
      Histogram ''deployment_duration_seconds'' [''stack'', ''trigger''] deployment_buckets,
      Histogram ''http_request_duration_seconds'' [''method'', ''path''] http_buckets,
      Gauge ''stacks'' [''status''],
      Gauge ''reconciler_loops'' []]"

fun counter_labels :: "string \<Rightarrow> collector list \<Rightarrow> string list option" where
  "counter_labels name (Counter n ls # cs) = (if n = name then Some ls else counter_labels name cs)"
| "counter_labels name (_ # cs) = counter_labels name cs"
| "counter_labels name [] = None"

fun histogram_labels :: "string \<Rightarrow> collector list \<Rightarrow> string list option" where
  "histogram_labels name (Histogram n ls bs # cs) = (if n = name then Some ls else histogram_labels name cs)"
| "histogram_labels name (_ # cs) = histogram_labels name cs"
| "histogram_labels name [] = None"

text \<open>Every series in the registry has a registered name and as many values as the collector has labels.\<close>

definition series_fit :: "metrics \<Rightarrow> bool" where
  "series_fit M \<longleftrightarrow>
     (\<forall>name vs. mx_counts M (name, vs) \<noteq> 0 \<longrightarrow> (\<exists>ls. counter_labels name the_collectors = Some ls \<and> length vs = length ls))
   \<and> (\<forall>name vs. mx_seen M (name, vs) \<noteq> [] \<longrightarrow> (\<exists>ls. histogram_labels name the_collectors = Some ls \<and> length vs = length ls))"

definition statusClass :: "int \<Rightarrow> string" where
  "statusClass code =
     (if code \<ge> 500 then ''5xx'' else if code \<ge> 400 then ''4xx'' else if code \<ge> 300 then ''3xx''
      else if code \<ge> 200 then ''2xx'' else if code \<ge> 100 then ''1xx'' else ''unknown'')"

definition RecordDeployment :: "string \<Rightarrow> string \<Rightarrow> string \<Rightarrow> rat \<Rightarrow> metrics \<Rightarrow> metrics" where
  "RecordDeployment st trigger status secs M =
     observe ''deployment_duration_seconds'' [st, trigger] secs (inc ''deployments_total'' [st, trigger, status] M)"

definition RecordDrift :: "string \<Rightarrow> string \<Rightarrow> metrics \<Rightarrow> metrics" where
  "RecordDrift st driftType = inc ''drift_detected_total'' [st, driftType]"

definition RecordReconcileCycle :: "string \<Rightarrow> metrics \<Rightarrow> metrics" where
  "RecordReconcileCycle st = inc ''reconcile_cycles_total'' [st]"

definition RecordHTTPRequest :: "string \<Rightarrow> string \<Rightarrow> int \<Rightarrow> rat \<Rightarrow> metrics \<Rightarrow> metrics" where
  "RecordHTTPRequest meth pth status secs M =
     observe ''http_request_duration_seconds'' [meth, pth] secs (inc ''http_requests_total'' [meth, pth, statusClass status] M)"

definition IncRateLimited :: "string \<Rightarrow> metrics \<Rightarrow> metrics" where
  "IncRateLimited pth = inc ''rate_limited_requests_total'' [pth]"

definition IncWebhookSignatureRejected :: "string \<Rightarrow> metrics \<Rightarrow> metrics" where
  "IncWebhookSignatureRejected reason = inc ''webhook_signature_rejected_total'' [reason]"

definition IncCircuitBreakerTripped :: "string \<Rightarrow> metrics \<Rightarrow> metrics" where
  "IncCircuitBreakerTripped st = inc ''circuit_breaker_tripped_total'' [st]"

definition IncAutoDeploySkipped :: "string \<Rightarrow> metrics \<Rightarrow> metrics" where
  "IncAutoDeploySkipped st = inc ''auto_deploys_skipped_total'' [st]"

text \<open>The gauge is reset first: statuses that are not in the counts lose their value.\<close>

definition SetStackCounts :: "(string \<times> int) list \<Rightarrow> metrics \<Rightarrow> metrics" where
  "SetStackCounts counts M = M\<lparr>mx_stacks := map_of counts\<rparr>"

definition SetReconcilerLoops :: "int \<Rightarrow> metrics \<Rightarrow> metrics" where
  "SetReconcilerLoops n M = M\<lparr>mx_loops := n\<rparr>"

section \<open>What the program records\<close>

datatype recorded = RDeployment string string string rat | RDrift string string | RCycle string | RRequest string string int rat
  | RLimited string | RSignature string | RTripped string | RSkipped string | RStacks "(string \<times> int) list" | RLoops int

fun record_one :: "recorded \<Rightarrow> metrics \<Rightarrow> metrics" where
  "record_one (RDeployment st trigger status secs) = RecordDeployment st trigger status secs"
| "record_one (RDrift st ty) = RecordDrift st ty"
| "record_one (RCycle st) = RecordReconcileCycle st"
| "record_one (RRequest meth pth status secs) = RecordHTTPRequest meth pth status secs"
| "record_one (RLimited pth) = IncRateLimited pth"
| "record_one (RSignature reason) = IncWebhookSignatureRejected reason"
| "record_one (RTripped st) = IncCircuitBreakerTripped st"
| "record_one (RSkipped st) = IncAutoDeploySkipped st"
| "record_one (RStacks counts) = SetStackCounts counts"
| "record_one (RLoops n) = SetReconcilerLoops n"

definition record_all :: "recorded list \<Rightarrow> metrics" where
  "record_all rs = foldl (\<lambda>M r. record_one r M) new_metrics rs"

lemmas metric_defs = inc_def observe_def RecordDeployment_def RecordDrift_def RecordReconcileCycle_def RecordHTTPRequest_def
  IncRateLimited_def IncWebhookSignatureRejected_def IncCircuitBreakerTripped_def IncAutoDeploySkipped_def
  SetStackCounts_def SetReconcilerLoops_def

definition http_classes :: "string list" where
  "http_classes = [''1xx'', ''2xx'', ''3xx'', ''4xx'', ''5xx'', ''unknown'']"

lemma class_known: "statusClass code \<in> set http_classes"
  by (simp add: statusClass_def http_classes_def)

text \<open>The counters of a method and path, over all classes.\<close>

definition requests_of :: "string \<Rightarrow> string \<Rightarrow> metrics \<Rightarrow> nat" where
  "requests_of meth pth M = sum_list (List.map (\<lambda>k. mx_counts M (''http_requests_total'', [meth, pth, k])) http_classes)"

lemma sum_one_more:
  "distinct ks \<Longrightarrow> k \<in> set ks \<Longrightarrow> sum_list (List.map (\<lambda>x. if x = k then Suc (f x) else f x) ks) = Suc (sum_list (List.map f ks))"
  by (induction ks) (auto intro!: arg_cong[where f = sum_list] map_cong)

lemma classes_distinct: "distinct http_classes"
  by code_simp

lemma requests_of_record:
  "requests_of meth pth (record_one r M) =
     (case r of RRequest m p c s \<Rightarrow> if m = meth \<and> p = pth then Suc (requests_of meth pth M) else requests_of meth pth M
      | _ \<Rightarrow> requests_of meth pth M)"
proof (cases r)
  case (RRequest m p c s)
  show ?thesis
  proof (cases "m = meth \<and> p = pth")
    case True
    have "requests_of meth pth (record_one r M) = sum_list (List.map (\<lambda>k. if k = statusClass c
        then Suc (mx_counts M (''http_requests_total'', [meth, pth, k])) else mx_counts M (''http_requests_total'', [meth, pth, k])) http_classes)"
      unfolding requests_of_def by (rule arg_cong[where f = sum_list], rule map_cong) (auto simp: RRequest True metric_defs)
    also have "\<dots> = Suc (requests_of meth pth M)"
      unfolding requests_of_def by (rule sum_one_more[OF classes_distinct class_known])
    finally show ?thesis using RRequest True by simp
  qed (auto simp: RRequest requests_of_def metric_defs)
qed (auto simp: requests_of_def metric_defs)

lemma seen_record:
  "length (mx_seen (record_one r M) (''http_request_duration_seconds'', [meth, pth])) =
     (case r of RRequest m p c s \<Rightarrow> if m = meth \<and> p = pth then Suc (length (mx_seen M (''http_request_duration_seconds'', [meth, pth])))
         else length (mx_seen M (''http_request_duration_seconds'', [meth, pth]))
      | _ \<Rightarrow> length (mx_seen M (''http_request_duration_seconds'', [meth, pth])))"
  by (cases r) (auto simp: metric_defs)

text \<open>The requests of a method and path add up: over the classes of their status they are as many as the requests that were
  recorded, and as many as the latencies, whatever else was recorded in between.\<close>

lemma requests_add_up:
  "requests_of meth pth (record_all rs) = length (filter (\<lambda>r. case r of RRequest m p c s \<Rightarrow> m = meth \<and> p = pth | _ \<Rightarrow> False) rs)
   \<and> requests_of meth pth (record_all rs) = length (mx_seen (record_all rs) (''http_request_duration_seconds'', [meth, pth]))"
proof (induction rs rule: rev_induct)
  case Nil
  show ?case by (simp add: record_all_def new_metrics_def requests_of_def http_classes_def)
next
  case (snoc r rs)
  have all: "record_all (rs @ [r]) = record_one r (record_all rs)" by (simp add: record_all_def)
  show ?case
    using snoc unfolding all requests_of_record seen_record by (cases r) auto
qed

text \<open>No recording passes the wrong number of label values, so none panics.\<close>

lemma fit_inc: "series_fit M \<Longrightarrow> counter_labels name the_collectors = Some ls \<Longrightarrow> length vs = length ls \<Longrightarrow> series_fit (inc name vs M)"
  by (simp add: series_fit_def inc_def)

lemma fit_observe: "series_fit M \<Longrightarrow> histogram_labels name the_collectors = Some ls \<Longrightarrow> length vs = length ls \<Longrightarrow> series_fit (observe name vs v M)"
  by (simp add: series_fit_def observe_def)

lemma fit_start: "series_fit new_metrics"
  by (simp add: series_fit_def new_metrics_def)

lemma fit_gauges: "series_fit M \<Longrightarrow> series_fit (SetStackCounts cs M)" "series_fit M \<Longrightarrow> series_fit (SetReconcilerLoops n M)"
  by (simp_all add: series_fit_def SetStackCounts_def SetReconcilerLoops_def)

lemma fit_records: "series_fit M \<Longrightarrow> series_fit (record_one r M)"
  by (cases r) (auto simp: RecordDeployment_def RecordDrift_def RecordReconcileCycle_def RecordHTTPRequest_def IncRateLimited_def
      IncWebhookSignatureRejected_def IncCircuitBreakerTripped_def IncAutoDeploySkipped_def the_collectors_def
      intro!: fit_inc fit_observe fit_gauges)

lemma recordings_fit: "series_fit (record_all rs)"
proof -
  have "series_fit (foldl (\<lambda>M r. record_one r M) M rs)" if "series_fit M" for M
    using that by (induction rs arbitrary: M) (simp_all add: fit_records)
  then show ?thesis unfolding record_all_def using fit_start by blast
qed

section \<open>The status of an answer\<close>

text \<open>The response writer of net/http: the first status is sent, an informational one does not count, and a body or a flush
  without a status sends 200. The recorder keeps the last status it was told.\<close>

record http_writer =
  hw_status :: "int option"
  hw_body :: string

record status_recorder =
  sr_writer :: http_writer
  sr_status :: int
  sr_written :: bool

datatype writer_op = OpWriteHeader int | OpWrite string | OpFlush

definition informational :: "int \<Rightarrow> bool" where
  "informational code \<longleftrightarrow> 100 \<le> code \<and> code \<le> 199 \<and> code \<noteq> 101"

definition http_WriteHeader :: "int \<Rightarrow> http_writer \<Rightarrow> http_writer" where
  "http_WriteHeader code w = (if hw_status w \<noteq> None \<or> informational code then w else w\<lparr>hw_status := Some code\<rparr>)"

definition http_Write :: "string \<Rightarrow> http_writer \<Rightarrow> http_writer" where
  "http_Write b w = (let w = (if hw_status w = None then w\<lparr>hw_status := Some 200\<rparr> else w) in w\<lparr>hw_body := hw_body w @ b\<rparr>)"

definition new_recorder :: status_recorder where
  "new_recorder = \<lparr>sr_writer = \<lparr>hw_status = None, hw_body = []\<rparr>, sr_status = 200, sr_written = False\<rparr>"

definition sr_WriteHeader :: "int \<Rightarrow> status_recorder \<Rightarrow> status_recorder" where
  "sr_WriteHeader code s = s\<lparr>sr_status := code, sr_written := True, sr_writer := http_WriteHeader code (sr_writer s)\<rparr>"

definition sr_Write :: "string \<Rightarrow> status_recorder \<Rightarrow> status_recorder" where
  "sr_Write b s = s\<lparr>sr_written := True, sr_writer := http_Write b (sr_writer s)\<rparr>"

definition sr_Flush :: "status_recorder \<Rightarrow> status_recorder" where
  "sr_Flush s = s\<lparr>sr_writer := http_Write [] (sr_writer s)\<rparr>"

fun sr_op :: "writer_op \<Rightarrow> status_recorder \<Rightarrow> status_recorder" where
  "sr_op (OpWriteHeader code) = sr_WriteHeader code"
| "sr_op (OpWrite b) = sr_Write b"
| "sr_op OpFlush = sr_Flush"

definition served :: "writer_op list \<Rightarrow> status_recorder" where
  "served ops = foldl (\<lambda>s op. sr_op op s) new_recorder ops"

definition sent_status :: "status_recorder \<Rightarrow> int" where
  "sent_status s = (case hw_status (sr_writer s) of Some c \<Rightarrow> c | None \<Rightarrow> 200)"

text \<open>middleware.Metrics, for a handler that does these things with the writer.\<close>

definition metrics_middleware :: "string \<Rightarrow> string \<Rightarrow> writer_op list \<Rightarrow> rat \<Rightarrow> metrics \<Rightarrow> metrics" where
  "metrics_middleware meth template ops secs = RecordHTTPRequest meth template (sr_status (served ops)) secs"

definition routeTemplate :: "string res option \<Rightarrow> string \<Rightarrow> string" where
  "routeTemplate route pth = (case route of Some (Inr tpl) \<Rightarrow> tpl | _ \<Rightarrow> pth)"

text \<open>A handler that sets a status sets one, first, and not an informational one.\<close>

definition no_header :: "writer_op list \<Rightarrow> bool" where
  "no_header ops \<longleftrightarrow> (\<forall>op \<in> set ops. case op of OpWriteHeader _ \<Rightarrow> False | _ \<Rightarrow> True)"

fun proper :: "writer_op list \<Rightarrow> bool" where
  "proper (OpWriteHeader c # ops) \<longleftrightarrow> \<not> informational c \<and> no_header ops"
| "proper ops \<longleftrightarrow> no_header ops"

lemma no_header_keeps: "no_header ops \<Longrightarrow> sent_status s = sr_status s \<Longrightarrow>
  (let s' = foldl (\<lambda>s op. sr_op op s) s ops in sent_status s' = sr_status s' \<and> sr_status s' = sr_status s)"
proof (induction ops arbitrary: s)
  case (Cons op ops)
  have "no_header ops" and "sent_status (sr_op op s) = sr_status (sr_op op s)" "sr_status (sr_op op s) = sr_status s"
    using Cons.prems
    by (cases op; auto simp: no_header_def sr_Write_def sr_Flush_def http_Write_def sent_status_def Let_def split: option.splits)+
  then show ?case using Cons.IH[of "sr_op op s"] by (simp add: Let_def)
qed simp

lemma no_header_sent: "no_header ops \<Longrightarrow> sr_status (served ops) = sent_status (served ops)"
proof -
  have "sent_status new_recorder = sr_status new_recorder" by (simp add: sent_status_def new_recorder_def)
  then show "no_header ops \<Longrightarrow> sr_status (served ops) = sent_status (served ops)"
    using no_header_keeps[of ops new_recorder] unfolding served_def Let_def by presburger
qed

text \<open>For such a handler the recorded status is the one the client gets.\<close>

lemma recorded_is_sent: "proper ops \<Longrightarrow> sr_status (served ops) = sent_status (served ops)"
proof (induction ops rule: proper.induct)
  case (1 c ops)
  have "sent_status (sr_WriteHeader c new_recorder) = sr_status (sr_WriteHeader c new_recorder)"
    using 1 by (simp add: sr_WriteHeader_def http_WriteHeader_def new_recorder_def sent_status_def)
  then show ?case using 1 no_header_keeps[of ops "sr_WriteHeader c new_recorder"] by (simp add: served_def Let_def)
qed (simp_all add: no_header_sent)

text \<open>A status after the body is recorded but not sent.\<close>

lemma late_status: "sr_status (served [OpWrite ''x'', OpWriteHeader 500]) = 500 \<and> sent_status (served [OpWrite ''x'', OpWriteHeader 500]) = 200"
  by code_simp

end
