(* ===== verification/Pipeline.thy ===== *)
theory Pipeline
  imports Startup Metrics
begin

text \<open>
  From the wire to a handler: the middleware that cmd/main.go puts on the router and the chains RegisterRoutes builds
  (internal/handler/handler.go), composed of the parts in Middleware.thy, Metrics.thy and Rbac.thy. The router, gorilla/mux,
  is an argument that gives the route of a method and a path; middleware runs only for a request that has one, as its
  documentation says. The rate limiter stands behind the authentication. What a handler answers is an argument here.
\<close>

section \<open>Requests and verdicts\<close>

record wire_request =
  wq_auth :: auth_request
  wq_request_id :: string \<comment> \<open>the header X-Request-ID\<close>
  wq_signature :: string \<comment> \<open>the header X-Hub-Signature-256\<close>
  wq_body :: string

text \<open>What a request finds when it arrives: the two readings of the limiter's clock, the errors of the key lookup
  and of the two queries for the stack of the path where they fail, the database, the random bytes of an identifier, and, once it is over, its status and the seconds it took.\<close>

record moment =
  mo_t0 :: gotime
  mo_t1 :: gotime
  mo_err :: "gerr option"
  mo_stack_err :: "gerr option"
  mo_name_err :: "gerr option"
  mo_db :: db
  mo_random :: "string option"
  mo_status :: int
  mo_secs :: rat

record front =
  fr_config :: config
  fr_hmac :: "string \<Rightarrow> string \<Rightarrow> string"
  fr_sha :: "string \<Rightarrow> string"
  fr_router :: "route list \<Rightarrow> string \<Rightarrow> string \<Rightarrow> route option"
  fr_template :: "route \<Rightarrow> string"

text \<open>A verdict is no route, a refusal with its headers and the error in its body, or a handler with the identity it
  reads from the context and the body it reads.\<close>

datatype verdict = NoRoute | Refused nat "(string \<times> string) list" string | Dispatched string "identity option" string

fun dispatched :: "verdict \<Rightarrow> bool" where
  "dispatched (Dispatched h i b) \<longleftrightarrow> True"
| "dispatched v \<longleftrightarrow> False"

text \<open>The routes of the server: the metrics, which main.go adds, and those of the handler.\<close>

definition all_routes :: "config \<Rightarrow> route list" where
  "all_routes c = root_route ''GET'' ''metrics'' ''Metrics'' Unauthenticated # RegisterRoutes (cfg_WebhookSecret c \<noteq> [])"

text \<open>What the documentation of the router promises of the route it gives.\<close>

definition router_ok :: "front \<Rightarrow> bool" where
  "router_ok F \<longleftrightarrow> (\<forall>rts m p rt. fr_router F rts m p = Some rt \<longrightarrow> rt \<in> set rts \<and> rt_method rt = m \<and> instance_of (rt_pattern rt) p)"

section \<open>The chains\<close>

definition rejectTooManyRequests :: "int \<Rightarrow> verdict" where
  "rejectTooManyRequests seconds =
     Refused 429 [(''Retry-After'', dec_int seconds), (''Content-Type'', ''application/json'')] ''rate limit exceeded''"

definition rejectSignature :: "string \<Rightarrow> metrics \<Rightarrow> verdict \<times> metrics" where
  "rejectSignature reason M =
     (Refused 401 [(''Content-Type'', ''application/json'')] ''invalid webhook signature'', IncWebhookSignatureRejected reason M)"

definition apiKeyAuth :: "front \<Rightarrow> moment \<Rightarrow> auth_request \<Rightarrow> auth_result" where
  "apiKeyAuth F mo a =
     api_key_auth (cfg_APIKey (fr_config F)) (keyLookup (fr_sha F) (mo_err mo) (mo_db mo)) 
       (Some (resolveStack (mo_stack_err mo) (mo_name_err mo) (mo_db mo))) a"

text \<open>authChain of main.go, the authentication around the limiter.\<close>

definition authChain :: "front \<Rightarrow> moment \<Rightarrow> route \<Rightarrow> wire_request \<Rightarrow> rate_limiter option \<Rightarrow> metrics
    \<Rightarrow> verdict \<times> rate_limiter option \<times> metrics" where
  "authChain F mo rt q limt M =
     (case apiKeyAuth F mo (wq_auth q) of
        AuthReject code msg \<Rightarrow> (Refused code [(''Content-Type'', ''application/json'')] msg, limt, M)
      | AuthPass i \<Rightarrow>
        (case rate_limit (mo_t0 mo) (mo_t1 mo) (rq_api_key (wq_auth q)) limt of
           (RatePass, limt') \<Rightarrow> (Dispatched (rt_handler rt) (Some i) (wq_body q), limt', M)
         | (RateReject seconds, limt') \<Rightarrow>
             (rejectTooManyRequests seconds, limt', IncRateLimited (routeTemplate (Some (Inr (fr_template F rt))) (rq_path (wq_auth q))) M)))"

text \<open>The chain of the webhook when a secret is set. Only the refusals for the signature are counted.\<close>

definition webhookChain :: "front \<Rightarrow> route \<Rightarrow> wire_request \<Rightarrow> metrics \<Rightarrow> verdict \<times> metrics" where
  "webhookChain F rt q M =
     (case webhook_signature (fr_hmac F) (cfg_WebhookSecret (fr_config F)) (wq_signature q) (wq_body q) of
        HookPass body \<Rightarrow> (Dispatched (rt_handler rt) None body, M)
      | HookReject code reason \<Rightarrow>
          if code = 401 then rejectSignature reason M else (Refused code [] reason, M))"

definition run_chain :: "front \<Rightarrow> moment \<Rightarrow> route \<Rightarrow> wire_request \<Rightarrow> rate_limiter option \<Rightarrow> metrics
    \<Rightarrow> verdict \<times> rate_limiter option \<times> metrics" where
  "run_chain F mo rt q limt M =
     (case rt_chain rt of
        Unauthenticated \<Rightarrow> (Dispatched (rt_handler rt) None (wq_body q), limt, M)
      | ApiKey \<Rightarrow> authChain F mo rt q limt M
      | Webhook \<Rightarrow> (case webhookChain F rt q M of (v, M') \<Rightarrow> (v, limt, M')))"

text \<open>The headers every routed request is answered with: HSTS with TLS only, the security headers, its identifier.\<close>

definition common_headers :: "config \<Rightarrow> string \<Rightarrow> (string \<times> string) list" where
  "common_headers c i =
     (if hsts_sent c then (case hsts_header (cfg_TLSHSTSMaxAge c) of Some h \<Rightarrow> [h] | None \<Rightarrow> []) else [])
     @ security_headers (cfg_ContentSecurityPolicy c) @ [(''X-Request-ID'', i)]"

definition verdict_status :: "moment \<Rightarrow> verdict \<Rightarrow> int" where
  "verdict_status mo v = (case v of NoRoute \<Rightarrow> 404 | Refused code _ _ \<Rightarrow> int code | Dispatched _ _ _ \<Rightarrow> mo_status mo)"

record pipeline =
  pl_limiter :: "rate_limiter option"
  pl_metrics :: metrics

definition handle :: "front \<Rightarrow> moment \<Rightarrow> wire_request \<Rightarrow> pipeline \<Rightarrow> verdict \<times> (string \<times> string) list \<times> pipeline" where
  "handle F mo q s =
     (let a = wq_auth q in
      case fr_router F (all_routes (fr_config F)) (rq_method a) (rq_path a) of
        None \<Rightarrow> (NoRoute, [], s)
      | Some rt \<Rightarrow>
        (case run_chain F mo rt q (pl_limiter s) (pl_metrics s) of
           (v, limt, M) \<Rightarrow>
             (v, common_headers (fr_config F) (request_id (wq_request_id q) (mo_random mo)),
              \<lparr>pl_limiter = limt,
               pl_metrics = RecordHTTPRequest (rq_method a) (routeTemplate (Some (Inr (fr_template F rt))) (rq_path a))
                              (verdict_status mo v) (mo_secs mo) M\<rparr>)))"

definition fresh_pipeline :: "config \<Rightarrow> pipeline" where
  "fresh_pipeline c = \<lparr>pl_limiter = rate_limit_of c, pl_metrics = new_metrics\<rparr>"

section \<open>Who reaches a handler\<close>

text \<open>A handler runs only on a route of its own that the request is an instance of: without any condition on the
  probes and the metrics, with a signature over the very body it reads on the signed webhook, and otherwise for an identity
  whose role suffices and with a token of its key.\<close>

lemma dispatched_behind:
  assumes "handle F mo q s = (Dispatched h i b, hs, s')" "router_ok F"
  obtains rt where "rt \<in> set (all_routes (fr_config F))" "rt_handler rt = h" "rt_method rt = rq_method (wq_auth q)"
    "instance_of (rt_pattern rt) (rq_path (wq_auth q))" "b = wq_body q"
    "case rt_chain rt of Unauthenticated \<Rightarrow> i = None
     | ApiKey \<Rightarrow> (\<exists>who. i = Some who \<and> apiKeyAuth F mo (wq_auth q) = AuthPass who
         \<and> fst (rate_limit (mo_t0 mo) (mo_t1 mo) (rq_api_key (wq_auth q)) (pl_limiter s)) = RatePass)
     | Webhook \<Rightarrow> i = None \<and> webhook_signature (fr_hmac F) (cfg_WebhookSecret (fr_config F)) (wq_signature q) b = HookPass b"
proof -
  obtain rt where rt: "fr_router F (all_routes (fr_config F)) (rq_method (wq_auth q)) (rq_path (wq_auth q)) = Some rt"
    using assms(1) by (auto simp: handle_def Let_def split: option.splits)
  have same: "webhook_signature m k g x = HookPass y \<Longrightarrow> y = x" for m k g x y
    by (auto simp: webhook_signature_def Let_def split: if_splits option.splits)
  have "rt_handler rt = h \<and> b = wq_body q \<and> (case rt_chain rt of Unauthenticated \<Rightarrow> i = None
     | ApiKey \<Rightarrow> (\<exists>who. i = Some who \<and> apiKeyAuth F mo (wq_auth q) = AuthPass who
         \<and> fst (rate_limit (mo_t0 mo) (mo_t1 mo) (rq_api_key (wq_auth q)) (pl_limiter s)) = RatePass)
     | Webhook \<Rightarrow> i = None \<and> webhook_signature (fr_hmac F) (cfg_WebhookSecret (fr_config F)) (wq_signature q) b = HookPass b)"
    using assms(1)
    by (auto simp: handle_def rt run_chain_def authChain_def webhookChain_def rejectTooManyRequests_def rejectSignature_def Let_def
        dest: same split: chain.splits auth_result.splits prod.splits rate_result.splits webhook_result.splits if_splits)
  then show ?thesis using that[of rt] assms(2) rt by (auto simp: router_ok_def)
qed

section \<open>The rate at which handlers run\<close>

text \<open>The limiter sees the requests that have a route behind a key and pass the authentication, and no others.\<close>

definition limited :: "front \<Rightarrow> moment \<times> wire_request \<Rightarrow> bool" where
  "limited F = (\<lambda>(mo, q). case fr_router F (all_routes (fr_config F)) (rq_method (wq_auth q)) (rq_path (wq_auth q)) of
       None \<Rightarrow> False
     | Some rt \<Rightarrow> rt_chain rt = ApiKey \<and> (case apiKeyAuth F mo (wq_auth q) of AuthPass _ \<Rightarrow> True | AuthReject _ _ \<Rightarrow> False))"

definition limiter_op :: "moment \<times> wire_request \<Rightarrow> rl_op" where
  "limiter_op = (\<lambda>(mo, q). RlRequest (mo_t0 mo) (mo_t1 mo) (rq_api_key (wq_auth q)))"

definition limiter_ops :: "front \<Rightarrow> (moment \<times> wire_request) list \<Rightarrow> rl_op list" where
  "limiter_ops F rs = List.map limiter_op (filter (limited F) rs)"

text \<open>Requests one after the other, and how many of those with a key a handler behind the authentication gets.\<close>

fun run_requests :: "front \<Rightarrow> (moment \<times> wire_request) list \<Rightarrow> pipeline \<Rightarrow> pipeline" where
  "run_requests F [] s = s"
| "run_requests F ((mo, q) # rs) s = run_requests F rs (snd (snd (handle F mo q s)))"

fun served_count :: "string \<Rightarrow> front \<Rightarrow> (moment \<times> wire_request) list \<Rightarrow> pipeline \<Rightarrow> nat" where
  "served_count k F [] s = 0"
| "served_count k F ((mo, q) # rs) s =
     (if rq_api_key (wq_auth q) = k \<and> limited F (mo, q) \<and> dispatched (fst (handle F mo q s)) then 1 else 0)
     + served_count k F rs (snd (snd (handle F mo q s)))"

lemma passed_has_key: "apiKeyAuth F mo a = AuthPass i \<Longrightarrow> rq_api_key a \<noteq> []"
  by (auto simp: apiKeyAuth_def api_key_auth_def Let_def split: if_splits)

lemma limited_handle:
  assumes "limited F (mo, q)" "pl_limiter s = Some rl"
  shows "pl_limiter (snd (snd (handle F mo q s))) = Some (rl_step (limiter_op (mo, q)) rl)"
    and "dispatched (fst (handle F mo q s)) \<longleftrightarrow> fst (fst (rl_allow (mo_t0 mo) (mo_t1 mo) (rq_api_key (wq_auth q)) rl))"
  using assms
  by (auto simp: limited_def limiter_op_def handle_def run_chain_def authChain_def rate_limit_def rejectTooManyRequests_def Let_def
      dest!: passed_has_key split: option.splits auth_result.splits prod.splits bool.splits)

lemma unlimited_handle:
  "\<not> limited F (mo, q) \<Longrightarrow> pl_limiter (snd (snd (handle F mo q s))) = pl_limiter s"
  by (auto simp: limited_def handle_def run_chain_def authChain_def Let_def
      split: option.splits auth_result.splits prod.splits chain.splits)

lemma requests_limiter:
  "pl_limiter s = Some rl \<Longrightarrow> pl_limiter (run_requests F rs s) = Some (run_ops rl_step (limiter_ops F rs) rl)"
proof (induction rs arbitrary: s rl)
  case (Cons r rs)
  then show ?case
    by (cases r) (auto simp: limiter_ops_def limited_handle unlimited_handle)
qed (simp add: limiter_ops_def)

lemma served_grants:
  "pl_limiter s = Some rl \<Longrightarrow> served_count k F rs s = grants k (limiter_ops F rs) rl"
proof (induction rs arbitrary: s rl)
  case (Cons r rs)
  obtain mo q where r: "r = (mo, q)" by (cases r)
  show ?case
  proof (cases "limited F (mo, q)")
    case True
    then show ?thesis
      using Cons.IH[OF limited_handle(1)[OF True Cons.prems]] limited_handle(2)[OF True Cons.prems]
      by (auto simp: r limiter_ops_def limiter_op_def)
  next
    case False
    then show ?thesis using Cons.IH[of "snd (snd (handle F mo q s))" rl] Cons.prems
      by (simp add: r limiter_ops_def unlimited_handle)
  qed
qed (simp add: limiter_ops_def)

text \<open>Whoever sends requests, routed or not, with whatever keys, the limiter is only asked for authenticated ones: one
  without a valid key takes no token from anybody.\<close>

lemma strangers_take_no_token:
  assumes "\<forall>r \<in> set rs. \<not> limited F r"
  shows "pl_limiter (run_requests F rs s) = pl_limiter s"
  using assms
proof (induction rs arbitrary: s)
  case (Cons r rs)
  then show ?case by (cases r) (simp add: unlimited_handle)
qed simp

text \<open>C33. After any traffic, and for any requests of any callers in a window of time, the handlers behind the
  authentication run for one key at most as often as the configured burst plus the configured rate times the length of
  the window in seconds.\<close>

theorem served_rate_bound:
  assumes "cfg_RateLimitRPS (fr_config F) > 0" "s \<le> e"
    "\<forall>r \<in> set rs. s \<le> mo_t0 (fst r) \<and> mo_t0 (fst r) \<le> e \<and> s \<le> mo_t1 (fst r) \<and> mo_t1 (fst r) \<le> e"
  shows "of_nat (served_count k F rs (run_requests F before (fresh_pipeline (fr_config F))))
     \<le> max 1 (of_int (cfg_RateLimitBurst (fr_config F))) + cfg_RateLimitRPS (fr_config F) * (of_int (e - s) / 1000000000)"
proof -
  obtain rl where rl: "NewRateLimit (cfg_RateLimitRPS (fr_config F)) (cfg_RateLimitBurst (fr_config F)) = Some rl"
    using assms(1) by (auto simp: NewRateLimit_def Let_def)
  then have "pl_limiter (fresh_pipeline (fr_config F)) = Some rl" by (simp add: fresh_pipeline_def rate_limit_of_def)
  from served_grants[OF requests_limiter[OF this]]
  have "served_count k F rs (run_requests F before (fresh_pipeline (fr_config F)))
     = grants k (limiter_ops F rs) (run_ops rl_step (limiter_ops F before) rl)" .
  moreover have "\<forall>a \<in> set (limiter_ops F rs). op_within s e a"
    using assms(3) by (auto simp: limiter_ops_def limiter_op_def)
  ultimately show ?thesis using rate_limit_bound[OF rl assms(2)] by metis
qed

text \<open>A site that lets each key make two requests at once and one per second.\<close>

definition demo_front :: front where
  "demo_front = \<lparr>fr_config = Backups.demo_config\<lparr>cfg_RateLimitRPS := 1, cfg_RateLimitBurst := 2\<rparr>, fr_hmac = demo_hmac, fr_sha = id,
     fr_router = (\<lambda>rts m p. find (\<lambda>rt. rt_method rt = m \<and> rt_pattern rt = [Lit ''status''] \<and> p = ''/status'') rts),
     fr_template = (\<lambda>_. ''/status'')\<rparr>"

definition demo_request :: "gotime \<Rightarrow> moment \<times> wire_request" where
  "demo_request t = (\<lparr>mo_t0 = t, mo_t1 = t, mo_err = None, mo_stack_err = None, mo_name_err = None, mo_db = empty_db None, mo_random = None, mo_status = 200, mo_secs = 0\<rparr>,
     \<lparr>wq_auth = \<lparr>rq_method = ''GET'', rq_path = ''/status'', rq_api_key = ''k''\<rparr>, wq_request_id = [], wq_signature = [], wq_body = []\<rparr>)"

lemma demo_router_ok: "router_ok demo_front"
  by (auto simp: router_ok_def demo_front_def find_Some_iff)

lemma served_rate_bound_witness:
  "served_count ''k'' demo_front [demo_request 5, demo_request 6, demo_request 7]
     (run_requests demo_front [demo_request 1] (fresh_pipeline (fr_config demo_front))) \<le> 2"
proof -
  have "of_nat (served_count ''k'' demo_front [demo_request 5, demo_request 6, demo_request 7]
     (run_requests demo_front [demo_request 1] (fresh_pipeline (fr_config demo_front))))
     \<le> max 1 (of_int (cfg_RateLimitBurst (fr_config demo_front))) + cfg_RateLimitRPS (fr_config demo_front) * (of_int (7 - 5) / 1000000000)"
    by (rule served_rate_bound) (simp_all add: demo_front_def demo_request_def)
  then have "(of_nat (served_count ''k'' demo_front [demo_request 5, demo_request 6, demo_request 7]
     (run_requests demo_front [demo_request 1] (fresh_pipeline (fr_config demo_front)))) :: rat) < of_nat 3"
    by (simp add: demo_front_def)
  then show ?thesis by (simp only: of_nat_less_iff)
qed

end
