(* ===== verification/Rows.thy ===== *)
theory Rows
  imports Schema Store
begin

text \<open>
  The rows as SQLite keeps them: internal/store/sqlite.go below the structs of Store.thy. A table is its columns in order and
  rows of cells; an INSERT names its columns and leaves the others to their defaults, an UPDATE sets some by name, ALTER TABLE
  puts a column last, and SELECT * is scanned by position. Deployments and stacks read and written this way are the tables
  of structs that Store.thy works on. Credentials are cells as they are stored; their encryption is in Store.thy. The driver
  hands back a time as it was given, as its documentation says. The JSON of the grants of a key is an argument.
\<close>

section \<open>Cells and statements\<close>

datatype cell = Text string | Num int | Time gotime | Null

record ptable =
  pt_cols :: "string list"
  pt_rows :: "cell list list"

datatype ctype = TText | TNum | TTime | TMaybeTime

text \<open>The declared types and defaults of the columns, the same under one name in every table.\<close>

definition coltype :: "string \<Rightarrow> ctype" where
  "coltype c =
     (if c \<in> {''auto_deploy'', ''reconcile_interval_seconds'', ''requires_approval'', ''disabled''} then TNum
      else if c \<in> {''created_at'', ''updated_at'', ''started_at''} then TTime
      else if c \<in> {''last_deployed_at'', ''last_reconciled_at'', ''last_used_at'', ''completed_at''} then TMaybeTime
      else TText)"

definition col_default :: "gotime \<Rightarrow> string \<Rightarrow> cell" where
  "col_default current_timestamp c =
     (case coltype c of
        TNum \<Rightarrow> Num 0
      | TTime \<Rightarrow> Time current_timestamp
      | TMaybeTime \<Rightarrow> Null
      | TText \<Rightarrow> Text (if c = ''status'' then ''active'' else if c = ''stack_grants'' then ''{}'' else []))"

fun has_type :: "ctype \<Rightarrow> cell \<Rightarrow> bool" where
  "has_type TText (Text s) \<longleftrightarrow> True"
| "has_type TNum (Num n) \<longleftrightarrow> True"
| "has_type TTime (Time t) \<longleftrightarrow> True"
| "has_type TMaybeTime (Time t) \<longleftrightarrow> True"
| "has_type TMaybeTime Null \<longleftrightarrow> True"
| "has_type _ _ \<longleftrightarrow> False"

definition typed :: "string list \<Rightarrow> cell list \<Rightarrow> bool" where
  "typed cols r \<longleftrightarrow> list_all2 (\<lambda>c v. has_type (coltype c) v) cols r"

definition typed_table :: "ptable \<Rightarrow> bool" where
  "typed_table T \<longleftrightarrow> (\<forall>r \<in> set (pt_rows T). typed (pt_cols T) r)"

definition new_row :: "gotime \<Rightarrow> string list \<Rightarrow> (string \<times> cell) list \<Rightarrow> cell list" where
  "new_row now cols vals = List.map (\<lambda>c. case map_of vals c of Some v \<Rightarrow> v | None \<Rightarrow> col_default now c) cols"

definition set_cells :: "string list \<Rightarrow> (string \<times> cell) list \<Rightarrow> cell list \<Rightarrow> cell list" where
  "set_cells cols sets r = map2 (\<lambda>c v. case map_of sets c of Some x \<Rightarrow> x | None \<Rightarrow> v) cols r"

definition cell_of :: "string list \<Rightarrow> cell list \<Rightarrow> string \<Rightarrow> cell" where
  "cell_of cols r c = (case map_of (zip cols r) c of Some v \<Rightarrow> v | None \<Rightarrow> Null)"

definition insert_into :: "gotime \<Rightarrow> (string \<times> cell) list \<Rightarrow> ptable \<Rightarrow> ptable" where
  "insert_into now vals T = T\<lparr>pt_rows := pt_rows T @ [new_row now (pt_cols T) vals]\<rparr>"

definition update_where_id :: "(string \<times> cell) list \<Rightarrow> string \<Rightarrow> ptable \<Rightarrow> ptable" where
  "update_where_id sets i T =
     T\<lparr>pt_rows := List.map (\<lambda>r. if cell_of (pt_cols T) r ''id'' = Text i then set_cells (pt_cols T) sets r else r) (pt_rows T)\<rparr>"

definition delete_where_id :: "string \<Rightarrow> ptable \<Rightarrow> ptable" where
  "delete_where_id i T = T\<lparr>pt_rows := filter (\<lambda>r. cell_of (pt_cols T) r ''id'' \<noteq> Text i) (pt_rows T)\<rparr>"

text \<open>ALTER TABLE ... ADD COLUMN, for a column that may not be null and has a default.\<close>

definition alter_add :: "string \<Rightarrow> ptable \<Rightarrow> ptable" where
  "alter_add c T = \<lparr>pt_cols = pt_cols T @ [c], pt_rows = List.map (\<lambda>r. r @ [col_default 0 c]) (pt_rows T)\<rparr>"

section \<open>Statements keep the types\<close>

definition typed_vals :: "(string \<times> cell) list \<Rightarrow> bool" where
  "typed_vals vs \<longleftrightarrow> (\<forall>(c, v) \<in> set vs. has_type (coltype c) v)"

lemma default_typed: "has_type (coltype c) (col_default now c)"
  by (simp add: col_default_def split: ctype.split)

lemma typed_new: "typed_vals vals \<Longrightarrow> typed cols (new_row now cols vals)"
  by (auto simp: typed_def new_row_def list_all2_map2 list.rel_refl typed_vals_def default_typed
      intro!: list.rel_refl_strong split: option.split dest!: map_of_SomeD)

lemma typed_set: "typed cols r \<Longrightarrow> typed_vals sets \<Longrightarrow> typed cols (set_cells cols sets r)"
  unfolding typed_def set_cells_def
proof (induction cols r rule: list_all2_induct)
  case (Cons c cs v r)
  then show ?case by (auto simp: typed_vals_def split: option.split dest!: map_of_SomeD)
qed simp

lemma typed_add: "typed cols r \<Longrightarrow> typed (cols @ [c]) (r @ [col_default now c])"
  by (simp add: typed_def list_all2_appendI default_typed)

lemma typed_statements:
  assumes "typed_table T"
  shows "typed_vals vs \<Longrightarrow> typed_table (insert_into now vs T)" "typed_vals vs \<Longrightarrow> typed_table (update_where_id vs i T)"
    "typed_table (delete_where_id i T)" "typed_table (alter_add c T)"
  using assms
  by (auto simp: typed_table_def insert_into_def update_where_id_def delete_where_id_def alter_add_def typed_new typed_set typed_add)

section \<open>Reading a row\<close>

definition scan_error :: gerr where "scan_error = ErrText ''sql: Scan error''"

fun as_text :: "cell \<Rightarrow> string res" where "as_text (Text s) = Inr s" | "as_text _ = Inl scan_error"
fun as_num :: "cell \<Rightarrow> int res" where "as_num (Num n) = Inr n" | "as_num _ = Inl scan_error"
fun as_time :: "cell \<Rightarrow> gotime res" where "as_time (Time t) = Inr t" | "as_time _ = Inl scan_error"
fun null_time :: "cell \<Rightarrow> gotime option res" where
  "null_time (Time t) = Inr (Some t)"
| "null_time Null = Inr None"
| "null_time _ = Inl scan_error"

definition boolToInt :: "bool \<Rightarrow> int" where "boolToInt b = (if b then 1 else 0)"

lemma boolToInt_back [simp]: "boolToInt b \<noteq> 0 \<longleftrightarrow> b" by (simp add: boolToInt_def)

definition null_cell :: "gotime option \<Rightarrow> cell" where
  "null_cell t = (case t of None \<Rightarrow> Null | Some x \<Rightarrow> Time x)"

lemma null_cell_back [simp]: "null_time (null_cell t) = Inr t" by (cases t) (simp_all add: null_cell_def)

lemma null_cell_typed [simp]: "has_type TMaybeTime (null_cell t)" by (cases t) (simp_all add: null_cell_def)

definition scan_then :: "'a res \<Rightarrow> ('a \<Rightarrow> 'b res) \<Rightarrow> 'b res" where
  "scan_then r f = (case r of Inl e \<Rightarrow> Inl e | Inr x \<Rightarrow> f x)"

lemma scan_then_Inr [simp]: "scan_then (Inr x) f = f x" by (simp add: scan_then_def)


section \<open>Tables of structs on tables of rows\<close>

datatype 'a row_op = Insert gotime 'a | Update 'a | Delete string

fun row_step :: "('a \<Rightarrow> string) \<Rightarrow> ('a \<Rightarrow> (string \<times> cell) list) \<Rightarrow> ('a \<Rightarrow> (string \<times> cell) list) \<Rightarrow> 'a row_op \<Rightarrow> ptable \<Rightarrow> ptable" where
  "row_step ident vals sets (Insert now x) T = insert_into now (vals x) T"
| "row_step ident vals sets (Update x) T = update_where_id (sets x) (ident x) T"
| "row_step ident vals sets (Delete i) T = delete_where_id i T"

fun struct_step :: "('a \<Rightarrow> string) \<Rightarrow> ('a \<Rightarrow> 'a) \<Rightarrow> ('a \<Rightarrow> 'a \<Rightarrow> 'a) \<Rightarrow> 'a row_op \<Rightarrow> 'a list \<Rightarrow> 'a list" where
  "struct_step ident made merge (Insert now x) xs = xs @ [made x]"
| "struct_step ident made merge (Update x) xs = tbl_update ident (ident x) (merge x) xs"
| "struct_step ident made merge (Delete i) xs = tbl_delete ident i xs"

definition structs :: "(cell list \<Rightarrow> 'a res) \<Rightarrow> ptable \<Rightarrow> 'a list" where
  "structs scan T = List.map (\<lambda>r. projr (scan r)) (pt_rows T)"

definition table_ok :: "string list \<Rightarrow> ptable \<Rightarrow> bool" where
  "table_ok cols T \<longleftrightarrow> pt_cols T = cols \<and> typed_table T"

text \<open>The contract of a struct with its table: typed rows can be scanned, what an INSERT writes scans as \<open>made\<close> says and
  what an UPDATE leaves as \<open>merge\<close> says.\<close>

locale scanned_table =
  fixes cols :: "string list" and scan :: "cell list \<Rightarrow> 'a res" and ident :: "'a \<Rightarrow> string"
    and vals :: "'a \<Rightarrow> (string \<times> cell) list" and sets :: "'a \<Rightarrow> (string \<times> cell) list"
    and made :: "'a \<Rightarrow> 'a" and merge :: "'a \<Rightarrow> 'a \<Rightarrow> 'a"
  assumes scans: "typed cols r \<Longrightarrow> \<exists>x. scan r = Inr x \<and> cell_of cols r ''id'' = Text (ident x)"
    and inserted: "scan (new_row now cols (vals x)) = Inr (made x)"
    and updated: "typed cols r \<Longrightarrow> scan r = Inr old \<Longrightarrow> scan (set_cells cols (sets x) r) = Inr (merge x old)"
    and types: "typed_vals (vals x)" "typed_vals (sets x)"
begin

lemma ok_row: "table_ok cols T \<Longrightarrow> r \<in> set (pt_rows T) \<Longrightarrow> typed cols r"
  by (auto simp: table_ok_def typed_table_def)

lemma step_ok: "table_ok cols T \<Longrightarrow> table_ok cols (row_step ident vals sets a T)"
  by (cases a) (auto simp: table_ok_def typed_statements types, auto simp: insert_into_def update_where_id_def delete_where_id_def)

lemma step_refines:
  assumes "table_ok cols T"
  shows "structs scan (row_step ident vals sets a T) = struct_step ident made merge a (structs scan T)"
proof -
  have id: "cell_of (pt_cols T) r ''id'' = Text i \<longleftrightarrow> ident (projr (scan r)) = i" if "r \<in> set (pt_rows T)" for r i
    using scans[OF ok_row[OF assms that]] assms by (auto simp: table_ok_def)
  have put: "projr (scan (set_cells (pt_cols T) (sets x) r)) = merge x (projr (scan r))" if "r \<in> set (pt_rows T)" for r x
    using scans[OF ok_row[OF assms that]] updated[OF ok_row[OF assms that]] assms by (auto simp: table_ok_def)
  have cols: "pt_cols T = cols" using assms by (simp add: table_ok_def)
  show ?thesis
  proof (cases a)
    case (Insert now x)
    then show ?thesis by (simp add: structs_def insert_into_def cols inserted)
  next
    case (Update x)
    then show ?thesis by (simp add: structs_def update_where_id_def tbl_update_def id put)
  next
    case (Delete i)
    have "filter (\<lambda>r. cell_of (pt_cols T) r ''id'' \<noteq> Text i) (pt_rows T) = filter (\<lambda>r. ident (projr (scan r)) \<noteq> i) (pt_rows T)"
      by (rule filter_cong) (auto simp: id)
    then show ?thesis by (simp add: Delete structs_def delete_where_id_def tbl_delete_def filter_map o_def)
  qed
qed

text \<open>Reading a table never fails on what the statements wrote, and gives the structs.\<close>

lemma reads: "table_ok cols T \<Longrightarrow> traverse scan (pt_rows T) = Inr (structs scan T)"
proof -
  assume ok: "table_ok cols T"
  have "\<forall>r \<in> set rs. \<exists>x. scan r = Inr x \<Longrightarrow> traverse scan rs = Inr (List.map (\<lambda>r. projr (scan r)) rs)" for rs
    by (induction rs) auto
  then show ?thesis unfolding structs_def using scans[OF ok_row[OF ok]] by blast
qed

end

sublocale scanned_table \<subseteq> refinement "row_step ident vals sets" "struct_step ident made merge" "structs scan" "table_ok cols"
  by unfold_locales (simp_all add: step_refines step_ok)

context scanned_table
begin

lemma run_reads:
  assumes "table_ok cols T"
  shows "traverse scan (pt_rows (run_ops (row_step ident vals sets) ops T))
     = Inr (run_ops (struct_step ident made merge) ops (structs scan T))"
proof -
  have "table_ok cols (run_ops (row_step ident vals sets) ops T)"
    using assms by (induction ops arbitrary: T) (auto simp: step_ok)
  from reads[OF this] show ?thesis by (simp add: run_refines[OF assms])
qed

end


section \<open>Stacks\<close>

definition created_cells :: "stack \<Rightarrow> (string \<times> cell) list" where
  "created_cells st =
     [(''id'', Text (st_id st)), (''name'', Text (st_name st)), (''repo_url'', Text (RepoURL st)),
      (''repo_username'', Text (RepoUsername st)), (''repo_token'', Text (RepoToken st)), (''repo_branch'', Text (RepoBranch st)),
      (''compose_path'', Text (ComposePath st)), (''service_filter'', Text (ServiceFilter st)),
      (''auto_deploy'', Num (boolToInt (AutoDeploy st))), (''reconcile_interval_seconds'', Num (ReconcileInterval st)),
      (''status'', Text (st_status st)), (''docker_username'', Text (DockerUsername st)),
      (''docker_password'', Text (DockerPassword st)), (''docker_registry'', Text (DockerRegistry st)),
      (''created_at'', Time (st_created st)), (''updated_at'', Time (st_updated st)), (''secrets_hash'', Text (SecretsHash st)),
      (''requires_approval'', Num (boolToInt (RequiresApproval st))), (''host_id'', Text (HostID st))]"

definition updated_cells :: "stack \<Rightarrow> (string \<times> cell) list" where
  "updated_cells st =
     [(''name'', Text (st_name st)), (''repo_url'', Text (RepoURL st)), (''repo_username'', Text (RepoUsername st)),
      (''repo_token'', Text (RepoToken st)), (''repo_branch'', Text (RepoBranch st)), (''compose_path'', Text (ComposePath st)),
      (''service_filter'', Text (ServiceFilter st)), (''auto_deploy'', Num (boolToInt (AutoDeploy st))),
      (''reconcile_interval_seconds'', Num (ReconcileInterval st)), (''status'', Text (st_status st)),
      (''last_deployed_at'', null_cell (LastDeployedAt st)), (''last_reconciled_at'', null_cell (LastReconciledAt st)),
      (''git_commit'', Text (GitCommit st)), (''docker_username'', Text (DockerUsername st)),
      (''docker_password'', Text (DockerPassword st)), (''docker_registry'', Text (DockerRegistry st)),
      (''updated_at'', Time (st_updated st)), (''secrets_hash'', Text (SecretsHash st)),
      (''requires_approval'', Num (boolToInt (RequiresApproval st))), (''host_id'', Text (HostID st))]"

text \<open>The part of scanStack before the decryption: one destination per column, by position.\<close>

definition scan_stack_row :: "cell list \<Rightarrow> stack res" where
  "scan_stack_row r = (case r of
     [c1, c2, c3, c4, c5, c6, c7, c8, c9, c10, c11, c12, c13, c14, c15, c16, c17, c18, c19, c20, c21, c22] \<Rightarrow>
       scan_then (as_text c1) (\<lambda>i. scan_then (as_text c2) (\<lambda>n. scan_then (as_text c3) (\<lambda>url. scan_then (as_text c4) (\<lambda>user.
       scan_then (as_text c5) (\<lambda>token. scan_then (as_text c6) (\<lambda>branch. scan_then (as_text c7) (\<lambda>path.
       scan_then (as_text c8) (\<lambda>flt. scan_then (as_num c9) (\<lambda>autoDeploy. scan_then (as_num c10) (\<lambda>interval.
       scan_then (as_text c11) (\<lambda>status. scan_then (null_time c12) (\<lambda>lastDeployed. scan_then (null_time c13) (\<lambda>lastReconciled.
       scan_then (as_text c14) (\<lambda>commit. scan_then (as_text c15) (\<lambda>duser. scan_then (as_text c16) (\<lambda>dpw.
       scan_then (as_text c17) (\<lambda>dreg. scan_then (as_time c18) (\<lambda>created. scan_then (as_time c19) (\<lambda>upd.
       scan_then (as_text c20) (\<lambda>hash. scan_then (as_num c21) (\<lambda>approval. scan_then (as_text c22) (\<lambda>host.
       Inr \<lparr>st_id = i, st_name = n, RepoURL = url, RepoUsername = user, RepoToken = token, RepoBranch = branch,
            ComposePath = path, ServiceFilter = flt, AutoDeploy = autoDeploy \<noteq> 0, ReconcileInterval = interval,
            st_status = status, HostID = host, RequiresApproval = approval \<noteq> 0, LastDeployedAt = lastDeployed,
            LastReconciledAt = lastReconciled, GitCommit = commit, st_created = created, st_updated = upd,
            DockerUsername = duser, DockerPassword = dpw, DockerRegistry = dreg, SecretsHash = hash\<rparr>
       ))))))))))))))))))))))
   | _ \<Rightarrow> Inl scan_error)"

definition made_stack :: "stack \<Rightarrow> stack" where
  "made_stack st = st\<lparr>LastDeployedAt := None, LastReconciledAt := None, GitCommit := []\<rparr>"

definition changed_stack :: "stack \<Rightarrow> stack \<Rightarrow> stack" where
  "changed_stack st old = st\<lparr>st_id := st_id old, st_created := st_created old\<rparr>"

lemmas stack_cols = scanned_stack_def stacks_base_def

lemma typed_Cons: "typed (c # cs) r \<longleftrightarrow> (\<exists>v vs. r = v # vs \<and> has_type (coltype c) v \<and> typed cs vs)"
  by (simp add: typed_def list_all2_Cons1)

lemma typed_Nil: "typed [] r \<longleftrightarrow> r = []" by (simp add: typed_def)

lemma has_type_forms:
  "has_type TText v \<longleftrightarrow> (\<exists>s. v = Text s)" "has_type TNum v \<longleftrightarrow> (\<exists>n. v = Num n)" "has_type TTime v \<longleftrightarrow> (\<exists>t. v = Time t)"
  "has_type TMaybeTime v \<longleftrightarrow> (\<exists>t. v = null_cell t)"
  by (cases v; auto simp: null_cell_def split: option.splits; metis option.exhaust option.sel)+


lemma typed_stack:
  assumes "typed scanned_stack r"
  obtains i n url user token branch path flt auto interval status ld lr commit duser dpw dreg cr up hash app host where
    "r = [Text i, Text n, Text url, Text user, Text token, Text branch, Text path, Text flt, Num auto, Num interval, Text status,
      null_cell ld, null_cell lr, Text commit, Text duser, Text dpw, Text dreg, Time cr, Time up, Text hash, Num app, Text host]"
proof -
  have "List.map coltype scanned_stack = [TText, TText, TText, TText, TText, TText, TText, TText, TNum, TNum, TText, TMaybeTime,
      TMaybeTime, TText, TText, TText, TText, TTime, TTime, TText, TNum, TText]"
    by (simp add: stack_cols coltype_def)
  then have "list_all2 has_type [TText, TText, TText, TText, TText, TText, TText, TText, TNum, TNum, TText, TMaybeTime,
      TMaybeTime, TText, TText, TText, TText, TTime, TTime, TText, TNum, TText] r"
    using assms unfolding typed_def by (metis list_all2_map1)
  then show thesis using that by (auto simp: list_all2_Cons1 has_type_forms)
qed

interpretation stack_rows: scanned_table scanned_stack scan_stack_row st_id created_cells updated_cells made_stack changed_stack
proof
  show "\<exists>x. scan_stack_row r = Inr x \<and> cell_of scanned_stack r ''id'' = Text (st_id x)" if "typed scanned_stack r" for r
    using that by (rule typed_stack) (simp add: scan_stack_row_def cell_of_def stack_cols)
  show "scan_stack_row (new_row now scanned_stack (created_cells x)) = Inr (made_stack x)" for now x
    by (simp add: new_row_def created_cells_def stack_cols col_default_def coltype_def scan_stack_row_def made_stack_def)
  show "scan_stack_row (set_cells scanned_stack (updated_cells x) r) = Inr (changed_stack x old)"
    if "typed scanned_stack r" "scan_stack_row r = Inr old" for r x old
    using that(1) by (rule typed_stack)
      (use that(2) in \<open>auto simp: scan_stack_row_def set_cells_def updated_cells_def stack_cols changed_stack_def\<close>)
  show "typed_vals (created_cells x)" "typed_vals (updated_cells x)" for x
    by (simp_all add: typed_vals_def created_cells_def updated_cells_def coltype_def)
qed


text \<open>The statements of Store.thy on structs are these.\<close>

lemma store_stack_steps:
  "CreateStack n1 n2 st d = (None, d') \<Longrightarrow> \<exists>row. encrypt_stack d n1 n2 st = Inr row
     \<and> t_stacks d' = struct_step st_id made_stack changed_stack (Insert now row) (t_stacks d)"
  "UpdateStack now n1 n2 st d = (None, d') \<Longrightarrow> \<exists>row. encrypt_stack d n1 n2 (st\<lparr>st_updated := now\<rparr>) = Inr row
     \<and> t_stacks d' = struct_step st_id made_stack changed_stack (Update row) (t_stacks d)"
  "t_stacks (snd (DeleteStack i d)) = struct_step st_id made_stack changed_stack (Delete i) (t_stacks d)"
proof -
  have same: "encrypt_stack d n1 n2 s = Inr row \<Longrightarrow> st_id row = st_id s" for s row
    by (auto simp: encrypt_stack_def split: sum.splits)
  have put: "tbl_update st_id (st_id row) (\<lambda>old. row\<lparr>st_created := st_created old\<rparr>) rs
      = tbl_update st_id (st_id row) (changed_stack row) rs" for row rs
    by (auto simp: tbl_update_def changed_stack_def)
  show "CreateStack n1 n2 st d = (None, d') \<Longrightarrow> \<exists>row. encrypt_stack d n1 n2 st = Inr row
     \<and> t_stacks d' = struct_step st_id made_stack changed_stack (Insert now row) (t_stacks d)"
    by (auto simp: CreateStack_def made_stack_def split: sum.splits if_splits)
  show "UpdateStack now n1 n2 st d = (None, d') \<Longrightarrow> \<exists>row. encrypt_stack d n1 n2 (st\<lparr>st_updated := now\<rparr>) = Inr row
     \<and> t_stacks d' = struct_step st_id made_stack changed_stack (Update row) (t_stacks d)"
    by (auto simp: UpdateStack_def put[symmetric] Let_def dest!: same split: sum.splits if_splits)
  show "t_stacks (snd (DeleteStack i d)) = struct_step st_id made_stack changed_stack (Delete i) (t_stacks d)"
    by (simp add: DeleteStack_def)
qed

section \<open>Deployments\<close>

definition deployment_cols :: "string list" where
  "deployment_cols = [''id'', ''stack_id'', ''stack_name'', ''status'', ''trigger'', ''git_commit'', ''changes'', ''error_message'',
     ''started_at'', ''completed_at'']"

definition deployment_cells :: "deployment \<Rightarrow> (string \<times> cell) list" where
  "deployment_cells p =
     [(''id'', Text (dp_id p)), (''stack_id'', Text (dp_stack p)), (''stack_name'', Text (dp_stack_name p)),
      (''status'', Text (dp_status p)), (''trigger'', Text (dp_trigger p)), (''git_commit'', Text (dp_commit p)),
      (''changes'', Text (dp_changes p)), (''error_message'', Text (dp_error p)), (''started_at'', Time (dp_started p)),
      (''completed_at'', null_cell (dp_completed p))]"

definition progress_cells :: "deployment \<Rightarrow> (string \<times> cell) list" where
  "progress_cells p =
     [(''status'', Text (dp_status p)), (''git_commit'', Text (dp_commit p)), (''changes'', Text (dp_changes p)),
      (''error_message'', Text (dp_error p)), (''completed_at'', null_cell (dp_completed p))]"

definition scanDeployment :: "cell list \<Rightarrow> deployment res" where
  "scanDeployment r = (case r of
     [c1, c2, c3, c4, c5, c6, c7, c8, c9, c10] \<Rightarrow>
       scan_then (as_text c1) (\<lambda>i. scan_then (as_text c2) (\<lambda>stackID. scan_then (as_text c3) (\<lambda>stackName.
       scan_then (as_text c4) (\<lambda>status. scan_then (as_text c5) (\<lambda>trigger. scan_then (as_text c6) (\<lambda>commit.
       scan_then (as_text c7) (\<lambda>changes. scan_then (as_text c8) (\<lambda>errorMessage. scan_then (as_time c9) (\<lambda>startedAt.
       scan_then (null_time c10) (\<lambda>completedAt.
       Inr \<lparr>dp_id = i, dp_stack = stackID, dp_stack_name = stackName, dp_status = status, dp_trigger = trigger,
            dp_commit = commit, dp_changes = changes, dp_error = errorMessage, dp_started = startedAt,
            dp_completed = completedAt\<rparr>))))))))))
   | _ \<Rightarrow> Inl scan_error)"

definition progressed :: "deployment \<Rightarrow> deployment \<Rightarrow> deployment" where
  "progressed p old = old\<lparr>dp_status := dp_status p, dp_commit := dp_commit p, dp_changes := dp_changes p,
     dp_error := dp_error p, dp_completed := dp_completed p\<rparr>"

lemma typed_deployment:
  assumes "typed deployment_cols r"
  obtains i s n status trigger commit changes err st co where
    "r = [Text i, Text s, Text n, Text status, Text trigger, Text commit, Text changes, Text err, Time st, null_cell co]"
proof -
  have "List.map coltype deployment_cols = [TText, TText, TText, TText, TText, TText, TText, TText, TTime, TMaybeTime]"
    by (simp add: deployment_cols_def coltype_def)
  then have "list_all2 has_type [TText, TText, TText, TText, TText, TText, TText, TText, TTime, TMaybeTime] r"
    using assms unfolding typed_def by (metis list_all2_map1)
  then show thesis using that by (auto simp: list_all2_Cons1 has_type_forms)
qed

interpretation deployment_rows: scanned_table deployment_cols scanDeployment dp_id deployment_cells progress_cells id progressed
proof
  show "\<exists>x. scanDeployment r = Inr x \<and> cell_of deployment_cols r ''id'' = Text (dp_id x)" if "typed deployment_cols r" for r
    using that by (rule typed_deployment) (simp add: scanDeployment_def cell_of_def deployment_cols_def)
  show "scanDeployment (new_row now deployment_cols (deployment_cells x)) = Inr (id x)" for now x
    by (simp add: new_row_def deployment_cells_def deployment_cols_def scanDeployment_def)
  show "scanDeployment (set_cells deployment_cols (progress_cells x) r) = Inr (progressed x old)"
    if "typed deployment_cols r" "scanDeployment r = Inr old" for r x old
    using that(1) by (rule typed_deployment)
      (use that(2) in \<open>auto simp: scanDeployment_def set_cells_def progress_cells_def deployment_cols_def progressed_def\<close>)
  show "typed_vals (deployment_cells x)" "typed_vals (progress_cells x)" for x
    by (simp_all add: typed_vals_def deployment_cells_def progress_cells_def coltype_def)
qed

lemma store_deployment_steps:
  "CreateDeployment p d = (None, d') \<Longrightarrow> t_deployments d' = struct_step dp_id id progressed (Insert now p) (t_deployments d)"
  "t_deployments (UpdateDeployment p d) = struct_step dp_id id progressed (Update p) (t_deployments d)"
  by (auto simp: CreateDeployment_def UpdateDeployment_def progressed_def[abs_def] split: if_splits)

section \<open>API keys\<close>

text \<open>JSON of the map from stacks to roles; with no grants nothing is encoded or decoded.\<close>

record grants_json =
  gj_marshal :: "(string \<times> string) list \<Rightarrow> string res"
  gj_unmarshal :: "string \<Rightarrow> (string \<times> string) list res"

definition marshalGrants :: "grants_json \<Rightarrow> (string \<times> string) list \<Rightarrow> string res" where
  "marshalGrants J g =
     (if g = [] then Inr ''{}''
      else case gj_marshal J g of Inl e \<Rightarrow> Inl (ErrWrap ''marshal stack_grants: '' e) | Inr b \<Rightarrow> Inr b)"

definition key_cells :: "api_key \<Rightarrow> string \<Rightarrow> (string \<times> cell) list" where
  "key_cells k grants =
     [(''id'', Text (ak_id k)), (''name'', Text (ak_name k)), (''role'', Text (ak_role k)), (''key_hash'', Text (ak_hash k)),
      (''created_at'', Time (ak_created k)), (''last_used_at'', null_cell (ak_last_used k)),
      (''disabled'', Num (boolToInt (ak_disabled k))), (''stack_grants'', Text grants)]"

definition insert_key :: "grants_json \<Rightarrow> gotime \<Rightarrow> api_key \<Rightarrow> ptable \<Rightarrow> gerr option \<times> ptable" where
  "insert_key J now k T =
     (case marshalGrants J (ak_grants k) of Inl e \<Rightarrow> (Some e, T) | Inr grants \<Rightarrow> (None, insert_into now (key_cells k grants) T))"

definition touch_key_row :: "string \<Rightarrow> gotime \<Rightarrow> ptable \<Rightarrow> ptable" where
  "touch_key_row i t T = update_where_id [(''last_used_at'', Time t)] i T"

definition scanAPIKey :: "grants_json \<Rightarrow> cell list \<Rightarrow> api_key res" where
  "scanAPIKey J r = (case r of
     [c1, c2, c3, c4, c5, c6, c7, c8] \<Rightarrow>
       scan_then (as_text c1) (\<lambda>i. scan_then (as_text c2) (\<lambda>n. scan_then (as_text c3) (\<lambda>role. scan_then (as_text c4) (\<lambda>hash.
       scan_then (as_time c5) (\<lambda>created. scan_then (null_time c6) (\<lambda>lastUsed. scan_then (as_num c7) (\<lambda>disabled.
       scan_then (as_text c8) (\<lambda>grants.
       let k = (\<lambda>g. \<lparr>ak_id = i, ak_name = n, ak_role = role, ak_hash = hash, ak_grants = g, ak_created = created,
                     ak_last_used = lastUsed, ak_disabled = disabled \<noteq> 0\<rparr>) in
       if grants \<noteq> [] \<and> grants \<noteq> ''{}''
       then (case gj_unmarshal J grants of
               Inl e \<Rightarrow> Inl (ErrWrap (''unmarshal stack_grants for key '' @ i @ '': '') e)
             | Inr g \<Rightarrow> Inr (k g))
       else Inr (k [])))))))))
   | _ \<Rightarrow> Inl scan_error)"

lemma key_round_trip:
  assumes "insert_key J now k T = (None, T')" "pt_cols T = scanned_key"
    and "\<And>b. ak_grants k \<noteq> [] \<Longrightarrow> gj_marshal J (ak_grants k) = Inr b \<Longrightarrow> gj_unmarshal J b = Inr (ak_grants k) \<and> b \<noteq> [] \<and> b \<noteq> ''{}''"
  shows "\<exists>r. pt_rows T' = pt_rows T @ [r] \<and> scanAPIKey J r = Inr k"
proof -
  obtain g where g: "marshalGrants J (ak_grants k) = Inr g" "T' = insert_into now (key_cells k g) T"
    using assms(1) by (auto simp: insert_key_def split: sum.splits)
  have "new_row now (pt_cols T) (key_cells k g) = [Text (ak_id k), Text (ak_name k), Text (ak_role k), Text (ak_hash k),
      Time (ak_created k), null_cell (ak_last_used k), Num (boolToInt (ak_disabled k)), Text g]"
    by (simp add: new_row_def key_cells_def assms(2) scanned_key_def api_keys_base_def)
  moreover have "if g \<noteq> [] \<and> g \<noteq> ''{}'' then gj_unmarshal J g = Inr (ak_grants k) else ak_grants k = []"
    using g(1) assms(3) by (auto simp: marshalGrants_def split: sum.splits if_splits)
  ultimately show ?thesis by (auto simp: g(2) insert_into_def scanAPIKey_def Let_def split: if_splits)
qed

text \<open>A key of a version before the grants reads as one without grants.\<close>

lemma legacy_key_reads:
  "scanAPIKey J ([Text i, Text n, Text role, Text hash, Time c, null_cell l, Num dis] @ [col_default now ''stack_grants''])
     = Inr \<lparr>ak_id = i, ak_name = n, ak_role = role, ak_hash = hash, ak_grants = [], ak_created = c, ak_last_used = l,
            ak_disabled = dis \<noteq> 0\<rparr>"
  by (simp add: scanAPIKey_def col_default_def coltype_def Let_def)

section \<open>Copying the database\<close>

text \<open>The statement of Backup: the path as a string literal of SQL, its quotes doubled.\<close>

definition escape_quotes :: "string \<Rightarrow> string" where
  "escape_quotes s = concat (List.map (\<lambda>c. if c = CHR 0x27 then [CHR 0x27, CHR 0x27] else [c]) s)"

definition backup_statement :: "string \<Rightarrow> string" where
  "backup_statement destPath = ''VACUUM INTO '' @ [CHR 0x27] @ escape_quotes destPath @ [CHR 0x27]"

text \<open>How SQL reads a literal after its first quote: two quotes are one, one ends it. Whatever the path, it is read back.\<close>

fun read_literal :: "string \<Rightarrow> (string \<times> string) option" where
  "read_literal [] = None"
| "read_literal (c # cs) =
     (if c \<noteq> CHR 0x27 then map_option (\<lambda>(s, rest). (c # s, rest)) (read_literal cs)
      else case cs of
          d # ds \<Rightarrow> if d = CHR 0x27 then map_option (\<lambda>(s, rest). (d # s, rest)) (read_literal ds) else Some ([], cs)
        | [] \<Rightarrow> Some ([], []))"

lemma literal_reads_back: "read_literal (escape_quotes s @ [CHR 0x27]) = Some (s, [])"
  by (induction s) (simp_all add: escape_quotes_def)

section \<open>The properties\<close>

text \<open>Columns added by a migration keep old rows readable: they get the defaults.\<close>

lemma added_typed: "typed_table T \<Longrightarrow> typed_table (fold alter_add cs T) \<and> pt_cols (fold alter_add cs T) = pt_cols T @ cs"
  by (induction cs arbitrary: T) (auto simp: typed_statements(4), simp add: alter_add_def)

text \<open>C38. The rows of stacks in SQLite are the stacks of the store: whatever rows a table with any part of today's columns
  holds, once the missing columns were added, reading it by position after any sequence of INSERT, UPDATE and DELETE
  statements never fails and gives the structs on which the same operations were done, starting from those the table
  held.\<close>

theorem stack_rows_are_stacks:
  assumes "typed_table T" "pt_cols T @ added = scanned_stack"
  shows "traverse scan_stack_row (pt_rows (run_ops (row_step st_id created_cells updated_cells) ops (fold alter_add added T)))
     = Inr (run_ops (struct_step st_id made_stack changed_stack) ops (structs scan_stack_row (fold alter_add added T)))"
  by (rule stack_rows.run_reads) (use added_typed[OF assms(1), of added] assms(2) in \<open>simp add: table_ok_def\<close>)


text \<open>A row of the first version, read after the columns added since, and a change of it.\<close>

definition first_table :: ptable where
  "first_table = \<lparr>pt_cols = stacks_base, pt_rows = [[Text ''s1'', Text ''web'', Text ''u'', Text [], Text [], Text ''main'', Text ''c.yml'',
     Text [], Num 1, Num 60, Text ''active'', Null, Null, Text [], Text [], Text [], Text [], Time 5, Time 5]]\<rparr>"

definition first_stack :: stack where
  "first_stack = \<lparr>st_id = ''s1'', st_name = ''web'', RepoURL = ''u'', RepoUsername = [], RepoToken = [], RepoBranch = ''main'',
     ComposePath = ''c.yml'', ServiceFilter = [], AutoDeploy = True, ReconcileInterval = 60, st_status = ''active'', HostID = [],
     RequiresApproval = False, LastDeployedAt = None, LastReconciledAt = None, GitCommit = [], st_created = 5, st_updated = 5,
     DockerUsername = [], DockerPassword = [], DockerRegistry = [], SecretsHash = []\<rparr>"

theorem stack_rows_are_stacks_witness:
  "traverse scan_stack_row (pt_rows (run_ops (row_step st_id created_cells updated_cells)
       [Update (first_stack\<lparr>RequiresApproval := True, st_updated := 9\<rparr>)]
       (fold alter_add [''secrets_hash'', ''requires_approval'', ''host_id''] first_table)))
     = Inr [first_stack\<lparr>RequiresApproval := True, st_updated := 9\<rparr>]"
proof -
  have "typed_table first_table" "pt_cols first_table @ [''secrets_hash'', ''requires_approval'', ''host_id''] = scanned_stack"
    by code_simp+
  note reads = stack_rows_are_stacks[OF this, of "[Update (first_stack\<lparr>RequiresApproval := True, st_updated := 9\<rparr>)]"]
  have "structs scan_stack_row (fold alter_add [''secrets_hash'', ''requires_approval'', ''host_id''] first_table) = [first_stack]"
    by code_simp
  then show ?thesis using reads by (simp add: tbl_update_def changed_stack_def first_stack_def)
qed

end
