(* ===== verification/Routines.thy ===== *)
theory Routines
  imports Startup Metrics
begin

text \<open>
  The background routines of cmd/main.go that work once at the start and then on every tick: refreshStackGauges, which
  counts the stacks by status, and backupLoop. What a tick finds, the rows of the store or the clock and the state of the
  file system, is its input; the end of the context ends the routine.
\<close>

fun on_ticks :: "('i \<Rightarrow> 's \<Rightarrow> 's) \<Rightarrow> 'i option list \<Rightarrow> 's \<Rightarrow> 's" where
  "on_ticks body [] s = s"
| "on_ticks body (None # wakes) s = s"
| "on_ticks body (Some i # wakes) s = on_ticks body wakes (body i s)"

definition at_once :: "('i \<Rightarrow> 's \<Rightarrow> 's) \<Rightarrow> 'i \<Rightarrow> 'i option list \<Rightarrow> 's \<Rightarrow> 's" where
  "at_once body i wakes s = on_ticks body wakes (body i s)"

text \<open>The inputs a routine works on: the first, and those of the ticks before its context ended.\<close>

fun worked_on :: "'i option list \<Rightarrow> 'i list" where
  "worked_on (Some i # wakes) = i # worked_on wakes"
| "worked_on _ = []"

lemma on_ticks_fold: "on_ticks body wakes s = fold body (worked_on wakes) s"
  by (induction body wakes s rule: on_ticks.induct) auto

lemma at_once_fold: "at_once body i wakes s = fold body (i # worked_on wakes) s"
  by (simp add: at_once_def on_ticks_fold)

section \<open>The gauge of the stacks\<close>

text \<open>counts[s.Status]++ over the stacks, on a map that starts empty.\<close>

fun bump :: "string \<Rightarrow> (string \<times> int) list \<Rightarrow> (string \<times> int) list" where
  "bump s [] = [(s, 1)]"
| "bump s ((k, n) # m) = (if k = s then (k, n + 1) # m else (k, n) # bump s m)"

definition counts_of :: "stack list \<Rightarrow> (string \<times> int) list" where
  "counts_of stacks = fold (\<lambda>st. bump (st_status st)) stacks []"

definition gauge_tick :: "stack list res \<Rightarrow> metrics \<Rightarrow> metrics" where
  "gauge_tick r M = (case r of Inl _ \<Rightarrow> M | Inr stacks \<Rightarrow> SetStackCounts (counts_of stacks) M)"

definition refreshStackGauges :: "stack list res \<Rightarrow> stack list res option list \<Rightarrow> metrics \<Rightarrow> metrics" where
  "refreshStackGauges = at_once gauge_tick"

lemma bump_at: "map_of (bump s m) k = (if k = s then Some (case map_of m s of None \<Rightarrow> 1 | Some n \<Rightarrow> n + 1) else map_of m k)"
  by (induction s m rule: bump.induct) auto

lemma counts_from:
  "map_of (fold (\<lambda>st. bump (st_status st)) sts m) s =
     (if status_counts sts s = 0 then map_of m s
      else Some ((case map_of m s of None \<Rightarrow> 0 | Some n \<Rightarrow> n) + int (status_counts sts s)))"
  by (induction sts arbitrary: m) (auto simp: bump_at status_counts_def split: option.split)

lemma counts_are: "map_of (counts_of sts) s = (if status_counts sts s = 0 then None else Some (int (status_counts sts s)))"
  by (simp add: counts_of_def counts_from)

text \<open>The last reading that did not fail.\<close>

fun last_read :: "stack list res list \<Rightarrow> stack list option" where
  "last_read [] = None"
| "last_read (r # rs) = (case last_read rs of Some sts \<Rightarrow> Some sts | None \<Rightarrow> (case r of Inl _ \<Rightarrow> None | Inr sts \<Rightarrow> Some sts))"

text \<open>At every moment the gauge shows, for each status, how many stacks had it when the store was last read without an error,
  and no status that no stack has.\<close>

lemma gauges_show:
  "mx_stacks (refreshStackGauges r wakes M) s =
     (case last_read (r # worked_on wakes) of
        None \<Rightarrow> mx_stacks M s
      | Some sts \<Rightarrow> if status_counts sts s = 0 then None else Some (int (status_counts sts s)))"
proof -
  have "mx_stacks (fold gauge_tick rs M) s = (case last_read rs of None \<Rightarrow> mx_stacks M s
      | Some sts \<Rightarrow> if status_counts sts s = 0 then None else Some (int (status_counts sts s)))" for rs
    by (induction rs arbitrary: M) (auto simp: gauge_tick_def SetStackCounts_def counts_are split: option.split sum.split)
  then show ?thesis by (simp only: refreshStackGauges_def at_once_fold)
qed

section \<open>Scheduled backups\<close>

text \<open>What one backup finds: the behaviour of the system, the clock and the object store.\<close>

record backup_moment =
  bm_env :: backup_env
  bm_now :: gotime
  bm_put :: "string \<Rightarrow> string \<Rightarrow> string \<Rightarrow> string \<Rightarrow> string \<Rightarrow> gerr option"


definition backup_tick :: "config \<Rightarrow> backup_moment \<Rightarrow> files \<Rightarrow> files" where
  "backup_tick c m fs = snd (run_backup (bm_put m) (bm_env m) c (bm_now m) fs)"

definition backupLoop :: "config \<Rightarrow> backup_moment \<Rightarrow> backup_moment option list \<Rightarrow> files \<Rightarrow> files" where
  "backupLoop c = at_once (backup_tick c)"

text \<open>Scheduled backups change no file but their staging copy, the snapshot they write and the snapshots of their
  directory, as long as that has no wildcard in its name.\<close>

definition backup_file :: "config \<Rightarrow> backup_moment \<Rightarrow> string \<Rightarrow> bool" where
  "backup_file c m p \<longleftrightarrow> p = Join (be_tmp (bm_env m)) ''snapshot.db''
     \<or> p = snapshot_path (cfg_BackupDir c) (bm_now m) (cfg_BackupEncryptionPassphrase c)
     \<or> (in_dir (cfg_BackupDir c) p \<and> is_snapshot_name (base_name p))"

lemma prune_spares:
  "\<not> has_meta dir \<Longrightarrow> \<not> (in_dir dir p \<and> is_snapshot_name (base_name p)) \<Longrightarrow> file_at (snd (Prune E dir keep fs)) p = file_at fs p"
  by (auto simp: Prune_def Glob_snapshots_def remove_files_at Let_def dest!: in_set_takeD)

lemma encrypt_spares:
  "p \<noteq> dst \<Longrightarrow> file_at (snd (EncryptFile E src dst pass fs)) p = file_at fs p"
  by (auto simp: EncryptFile_def file_put file_remove split: sum.splits option.splits)

lemma run_once_spares:
  assumes "\<not> has_meta dir" "\<not> (in_dir dir p \<and> is_snapshot_name (base_name p))" "p \<noteq> Join (be_tmp E) ''snapshot.db''"
    "p \<noteq> snapshot_path dir t pass"
  shows "file_at (snd (RunOnce E dir keep t pass fs)) p = file_at fs p"
proof -
  let ?raw = "Join (be_tmp E) ''snapshot.db''" and ?dest = "snapshot_path dir t pass"
  have "file_at (snd (case EncryptFile E ?raw ?dest pass (put_file ?raw data fs) of
      (Some e, fs1) \<Rightarrow> (Inl e, drop_file ?raw fs1)
    | (None, fs1) \<Rightarrow> (Inr ?dest, drop_file ?raw (snd (Prune E dir keep fs1))))) p = file_at fs p" for data
  proof -
    obtain e fs1 where enc: "EncryptFile E ?raw ?dest pass (put_file ?raw data fs) = (e, fs1)" by fastforce
    then have "file_at fs1 p = file_at fs p"
      using encrypt_spares[OF assms(4), of E ?raw pass "put_file ?raw data fs"] assms(3) by (simp add: file_put)
    then show ?thesis using assms by (cases e) (simp_all add: enc file_drop prune_spares)
  qed
  then show ?thesis by (simp add: RunOnce_def Let_def split: option.split sum.split)
qed

lemma tick_spares:
  assumes "\<not> has_meta (cfg_BackupDir c)" "\<not> backup_file c m p"
  shows "file_at (backup_tick c m fs) p = file_at fs p"
  using run_once_spares[OF assms(1), of p "bm_env m" "bm_now m" "cfg_BackupEncryptionPassphrase c" "cfg_BackupKeep c" fs] assms(2)
  by (auto simp: backup_file_def backup_tick_def run_backup_def split: prod.split sum.split)

lemma backups_spare_others:
  assumes "\<not> has_meta (cfg_BackupDir c)" "\<forall>m \<in> set (first # worked_on wakes). \<not> backup_file c m p"
  shows "file_at (backupLoop c first wakes fs) p = file_at fs p"
proof -
  have "\<forall>m \<in> set ms. \<not> backup_file c m p \<Longrightarrow> file_at (fold (backup_tick c) ms fs) p = file_at fs p" for ms
    by (induction ms arbitrary: fs) (auto simp: tick_spares[OF assms(1)])
  then show ?thesis using assms(2) by (simp only: backupLoop_def at_once_fold)
qed

end
