(* ===== verification/Sessions.thy ===== *)
theory Sessions
  imports Prelude
begin

text \<open>
  The life of a websocket in StreamStackContainerLogs and StreamStackContainerStats of internal/handler/handler.go: the
  goroutine that reads from the client and whose read deadline each pong moves, the goroutine that sends pings, and the copy
  loop, whose contents are in Streams.thy, with the context that ends them. A ping and a line sent change nothing here. A
  read fails when the client closes, when its deadline passes or when the connection is closed; time does not pass the
  deadline of a read that is waiting, and the stream from Docker ends with the context, as their documentations say.
\<close>

definition wsPingInterval :: gotime where "wsPingInterval = 30 * 1000000000"

datatype copy_phase = Copying | SayingGoodbye | AwaitingPings | HandlerReturned

record ws_session =
  ws_now :: gotime
  ws_deadline :: gotime \<comment> \<open>of the read\<close>
  ws_cancelled :: bool
  ws_reading :: bool
  ws_pinging :: bool
  ws_copy :: copy_phase
  ws_open :: bool

definition new_session :: "gotime \<Rightarrow> ws_session" where
  "new_session t = \<lparr>ws_now = t, ws_deadline = t + 2 * wsPingInterval, ws_cancelled = False, ws_reading = True, ws_pinging = True,
     ws_copy = Copying, ws_open = True\<rparr>"

text \<open>The flag says whether the client still answers pings.\<close>

inductive session_step :: "bool \<Rightarrow> ws_session \<Rightarrow> ws_session \<Rightarrow> bool" for answering where
  waited: "0 < d \<Longrightarrow> (ws_reading s \<longrightarrow> ws_now s + d \<le> ws_deadline s) \<Longrightarrow> session_step answering s (s\<lparr>ws_now := ws_now s + d\<rparr>)"
| pong: "answering \<Longrightarrow> ws_reading s \<Longrightarrow> ws_open s
    \<Longrightarrow> session_step answering s (s\<lparr>ws_deadline := ws_now s + 2 * wsPingInterval\<rparr>)"
| read_fails: "ws_reading s \<Longrightarrow> session_step answering s (s\<lparr>ws_reading := False, ws_cancelled := True\<rparr>)"
| pings_over: "ws_pinging s \<Longrightarrow> ws_cancelled s \<Longrightarrow> session_step answering s (s\<lparr>ws_pinging := False\<rparr>)"
| copy_over: "ws_copy s = Copying \<Longrightarrow> session_step answering s (s\<lparr>ws_copy := SayingGoodbye\<rparr>)"
| goodbye: "ws_copy s = SayingGoodbye \<Longrightarrow> session_step answering s (s\<lparr>ws_copy := AwaitingPings, ws_cancelled := True\<rparr>)"
| returned: "ws_copy s = AwaitingPings \<Longrightarrow> \<not> ws_pinging s
    \<Longrightarrow> session_step answering s (s\<lparr>ws_copy := HandlerReturned, ws_open := False\<rparr>)"

inductive_cases session_step_cases: "session_step answering s s'"

section \<open>No goroutine outlives the handler for long\<close>

definition session_ok :: "ws_session \<Rightarrow> bool" where
  "session_ok s \<longleftrightarrow> (ws_reading s \<longrightarrow> ws_now s \<le> ws_deadline s) \<and> (\<not> ws_reading s \<longrightarrow> ws_cancelled s)
     \<and> (ws_copy s \<in> {AwaitingPings, HandlerReturned} \<longrightarrow> ws_cancelled s) \<and> (ws_copy s = HandlerReturned \<longrightarrow> \<not> ws_pinging s)
     \<and> (ws_open s \<longleftrightarrow> ws_copy s \<noteq> HandlerReturned)"

lemma session_step_ok: "session_step answering s s' \<Longrightarrow> session_ok s \<Longrightarrow> session_ok s'"
  by (elim session_step_cases) (auto simp: session_ok_def wsPingInterval_def)

lemma new_session_ok: "session_ok (new_session t)"
  by (simp add: session_ok_def new_session_def wsPingInterval_def)

lemma session_run_ok: "(session_step answering)\<^sup>*\<^sup>* s s' \<Longrightarrow> session_ok s \<Longrightarrow> session_ok s'"
  by (induction rule: rtranclp_induct) (auto intro: session_step_ok)

text \<open>When the handler returns, the pings have ended and the connection is closed.\<close>

lemma handler_leaves_no_pings:
  "(session_step answering)\<^sup>*\<^sup>* (new_session t) s \<Longrightarrow> ws_copy s = HandlerReturned \<Longrightarrow> \<not> ws_pinging s \<and> \<not> ws_open s \<and> ws_cancelled s"
  using session_run_ok[OF _ new_session_ok] by (auto simp: session_ok_def)

section \<open>A silent client\<close>

text \<open>Of a client that answers no more pings the session is rid at the latest two ping intervals after its last answer: the
  context is cancelled before more time than that has passed.\<close>

lemma silent_client_dropped:
  assumes "(session_step False)\<^sup>*\<^sup>* s s'" "session_ok s"
  shows "ws_deadline s' = ws_deadline s \<and> (ws_now s' > ws_deadline s \<longrightarrow> ws_cancelled s')"
proof -
  have "ws_deadline s' = ws_deadline s"
    using assms(1) by (induction rule: rtranclp_induct) (auto elim: session_step_cases)
  then show ?thesis using session_run_ok[OF assms] by (auto simp: session_ok_def)
qed

text \<open>Nothing is left to do in a session only when every goroutine has ended; each step but the passing of time and a pong
  brings it nearer.\<close>

fun copy_rank :: "copy_phase \<Rightarrow> nat" where
  "copy_rank Copying = 3" | "copy_rank SayingGoodbye = 2" | "copy_rank AwaitingPings = 1" | "copy_rank HandlerReturned = 0"

definition session_rank :: "ws_session \<Rightarrow> nat" where
  "session_rank s = copy_rank (ws_copy s) + (if ws_reading s then 1 else 0) + (if ws_pinging s then 1 else 0)"

lemma session_rank_step:
  "session_step answering s s' \<Longrightarrow> session_rank s' < session_rank s \<or> s' = s\<lparr>ws_now := ws_now s'\<rparr> \<or> s' = s\<lparr>ws_deadline := ws_deadline s'\<rparr>"
  by (elim session_step_cases) (auto simp: session_rank_def)

lemma session_goes_on:
  assumes "session_ok s" "0 < session_rank s"
  shows "\<exists>s'. session_step answering s s' \<and> session_rank s' < session_rank s"
proof (cases "ws_copy s")
  case Copying
  then show ?thesis
    by (intro exI[of _ "s\<lparr>ws_copy := SayingGoodbye\<rparr>"] conjI session_step.copy_over) (simp_all add: session_rank_def)
next
  case SayingGoodbye
  then show ?thesis
    by (intro exI[of _ "s\<lparr>ws_copy := AwaitingPings, ws_cancelled := True\<rparr>"] conjI session_step.goodbye) (simp_all add: session_rank_def)
next
  case AwaitingPings
  then have "ws_cancelled s" using assms(1) by (simp add: session_ok_def)
  then show ?thesis
  proof (cases "ws_pinging s")
    case True
    then show ?thesis using \<open>ws_cancelled s\<close>
      by (intro exI[of _ "s\<lparr>ws_pinging := False\<rparr>"] conjI session_step.pings_over) (simp_all add: session_rank_def)
  next
    case False
    then show ?thesis using AwaitingPings
      by (intro exI[of _ "s\<lparr>ws_copy := HandlerReturned, ws_open := False\<rparr>"] conjI session_step.returned) (simp_all add: session_rank_def)
  qed
next
  case HandlerReturned
  then have "\<not> ws_pinging s" using assms(1) by (simp add: session_ok_def)
  then have "ws_reading s" using assms(2) HandlerReturned by (simp add: session_rank_def split: if_splits)
  then show ?thesis
    by (intro exI[of _ "s\<lparr>ws_reading := False, ws_cancelled := True\<rparr>"] conjI session_step.read_fails) (simp_all add: session_rank_def)
qed

end
