(* ===== verification/Shutdown.thy ===== *)
theory Shutdown
  imports Admin_Api
begin

text \<open>
  How the process ends: the end of main in cmd/main.go, its goroutine that waits for a signal, the listener, requests in
  flight, the background goroutines and the reconciler's loops, as a transition system. What a request starts, a
  deployment or a loop, is counted when the request ends. Shutdown of net/http closes the listener, which makes
  ListenAndServe return at once, and waits for the requests up to its timeout, as documented; an error of the listener itself
  ends the process without any of this.
\<close>

section \<open>The process\<close>

datatype signal_phase = SigWait | SigDraining | SigCancelled | SigClosing | SigOver
datatype main_phase = Serving | StoppingLoops | Joining | Exited | Aborted

record process =
  pr_signal :: signal_phase
  pr_main :: main_phase
  pr_draining :: bool \<comment> \<open>what /readyz sees\<close>
  pr_cancelled :: bool \<comment> \<open>the root context\<close>
  pr_listening :: bool
  pr_requests :: nat
  pr_jobs :: nat \<comment> \<open>deployments handlers started\<close>
  pr_loops :: nat
  pr_background :: nat \<comment> \<open>goroutines of the wait group\<close>
  pr_db_open :: bool

definition serving :: "nat \<Rightarrow> nat \<Rightarrow> process" where
  "serving loops background =
     \<lparr>pr_signal = SigWait, pr_main = Serving, pr_draining = False, pr_cancelled = False, pr_listening = True, pr_requests = 0,
      pr_jobs = 0, pr_loops = loops, pr_background = background, pr_db_open = True\<rparr>"

definition alive :: "process \<Rightarrow> bool" where
  "alive s \<longleftrightarrow> pr_main s \<notin> {Exited, Aborted}"

inductive process_step :: "process \<Rightarrow> process \<Rightarrow> bool" where
  arrive: "pr_listening s \<Longrightarrow> process_step s (s\<lparr>pr_requests := Suc (pr_requests s)\<rparr>)"
| answer: "pr_requests s = Suc n \<Longrightarrow> process_step s (s\<lparr>pr_requests := n\<rparr>)"
| answer_job: "pr_requests s = Suc n \<Longrightarrow> process_step s (s\<lparr>pr_requests := n, pr_jobs := Suc (pr_jobs s)\<rparr>)"
| answer_loop: "pr_requests s = Suc n \<Longrightarrow> process_step s (s\<lparr>pr_requests := n, pr_loops := Suc (pr_loops s)\<rparr>)"
| job_over: "pr_jobs s = Suc n \<Longrightarrow> process_step s (s\<lparr>pr_jobs := n\<rparr>)"
| signal: "pr_signal s = SigWait \<Longrightarrow> process_step s (s\<lparr>pr_signal := SigDraining, pr_draining := True\<rparr>)"
| cancel: "pr_signal s = SigDraining \<Longrightarrow> process_step s (s\<lparr>pr_signal := SigCancelled, pr_cancelled := True\<rparr>)"
| close: "pr_signal s = SigCancelled \<Longrightarrow> process_step s (s\<lparr>pr_signal := SigClosing, pr_listening := False\<rparr>)"
| drained: "pr_signal s = SigClosing \<Longrightarrow> pr_requests s = 0 \<Longrightarrow> process_step s (s\<lparr>pr_signal := SigOver\<rparr>)"
| timeout: "pr_signal s = SigClosing \<Longrightarrow> process_step s (s\<lparr>pr_signal := SigOver\<rparr>)"
| serve_returns: "pr_main s = Serving \<Longrightarrow> \<not> pr_listening s \<Longrightarrow> process_step s (s\<lparr>pr_main := StoppingLoops\<rparr>)"
| serve_fails: "pr_main s = Serving \<Longrightarrow> pr_listening s \<Longrightarrow> process_step s (s\<lparr>pr_main := Aborted\<rparr>)"
| loop_over: "pr_loops s = Suc n \<Longrightarrow> pr_cancelled s \<Longrightarrow> process_step s (s\<lparr>pr_loops := n\<rparr>)"
| loops_over: "pr_main s = StoppingLoops \<Longrightarrow> pr_loops s = 0 \<Longrightarrow> process_step s (s\<lparr>pr_main := Joining\<rparr>)"
| background_over: "pr_background s = Suc n \<Longrightarrow> pr_cancelled s \<Longrightarrow> process_step s (s\<lparr>pr_background := n\<rparr>)"
| join_over: "pr_main s = Joining \<Longrightarrow> pr_background s = 0 \<Longrightarrow> process_step s (s\<lparr>pr_main := Exited, pr_db_open := False\<rparr>)"

inductive_cases process_step_cases: "process_step s s'"

definition live_process :: "process \<Rightarrow> process \<Rightarrow> bool" where
  "live_process s s' \<longleftrightarrow> alive s \<and> process_step s s'"

section \<open>The order of a shutdown\<close>

definition orderly :: "process \<Rightarrow> bool" where
  "orderly s \<longleftrightarrow>
     (pr_draining s \<longleftrightarrow> pr_signal s \<noteq> SigWait) \<and> (pr_cancelled s \<longleftrightarrow> pr_signal s \<notin> {SigWait, SigDraining})
     \<and> (pr_listening s \<longleftrightarrow> pr_signal s \<notin> {SigClosing, SigOver}) \<and> (pr_main s \<in> {StoppingLoops, Joining, Exited} \<longrightarrow> \<not> pr_listening s)
     \<and> (pr_main s = Aborted \<longrightarrow> pr_listening s) \<and> (pr_main s = Exited \<longrightarrow> pr_background s = 0) \<and> (pr_db_open s \<longleftrightarrow> pr_main s \<noteq> Exited)"

lemma step_orderly: "live_process s s' \<Longrightarrow> orderly s \<Longrightarrow> orderly s'"
  unfolding live_process_def alive_def
  by (elim conjE process_step_cases; clarsimp simp: orderly_def; auto)

lemma reach_orderly: "live_process\<^sup>*\<^sup>* (serving l b) s \<Longrightarrow> orderly s"
  by (induction rule: rtranclp_induct) (simp add: orderly_def serving_def, rule step_orderly)

section \<open>A shutdown ends\<close>

fun signal_rank :: "signal_phase \<Rightarrow> nat" where
  "signal_rank SigWait = 4" | "signal_rank SigDraining = 3" | "signal_rank SigCancelled = 2" | "signal_rank SigClosing = 1"
| "signal_rank SigOver = 0"

fun main_rank :: "main_phase \<Rightarrow> nat" where
  "main_rank Serving = 3" | "main_rank StoppingLoops = 2" | "main_rank Joining = 1" | "main_rank Exited = 0" | "main_rank Aborted = 0"

definition work_left :: "process \<Rightarrow> nat" where
  "work_left s = 2 * pr_requests s + pr_jobs s + pr_loops s + pr_background s + signal_rank (pr_signal s) + main_rank (pr_main s)"

lemma closed_step:
  "live_process s s' \<Longrightarrow> \<not> pr_listening s \<Longrightarrow> \<not> pr_listening s' \<and> work_left s' < work_left s"
  unfolding live_process_def
  by (elim conjE process_step_cases; clarsimp simp: work_left_def)

lemma closed_run: "(live_process ^^ n) s s' \<Longrightarrow> \<not> pr_listening s \<Longrightarrow> \<not> pr_listening s' \<and> n + work_left s' \<le> work_left s"
proof (induction n arbitrary: s')
  case (Suc n)
  then obtain u where "(live_process ^^ n) s u" "live_process u s'" by (auto elim: relpowp_Suc_E)
  with Suc.IH[of u] closed_step[of u s'] Suc.prems show ?case by simp
qed simp

lemma closed_goes_on:
  assumes "orderly s" "\<not> pr_listening s" "alive s"
  obtains s' where "live_process s s'"
proof -
  have c: "pr_cancelled s" using assms by (auto simp: orderly_def)
  have "\<exists>s'. process_step s s'"
  proof (cases "pr_main s")
    case Serving
    then show ?thesis using process_step.serve_returns assms(2) by blast
  next
    case StoppingLoops
    then show ?thesis using process_step.loops_over process_step.loop_over[OF _ c] by (cases "pr_loops s") blast+
  next
    case Joining
    then show ?thesis using process_step.join_over process_step.background_over[OF _ c] by (cases "pr_background s") blast+
  qed (use assms(3) in \<open>auto simp: alive_def\<close>)
  then show thesis using that assms(3) by (auto simp: live_process_def)
qed

lemma closed_exits:
  assumes "orderly s" "\<not> pr_listening s"
  shows "\<exists>s'. live_process\<^sup>*\<^sup>* s s' \<and> pr_main s' = Exited"
  using assms
proof (induction "work_left s" arbitrary: s rule: less_induct)
  case less
  show ?case
  proof (cases "alive s")
    case True
    obtain u where u: "live_process s u" by (rule closed_goes_on[OF less.prems(1,2) True])
    obtain s' where "live_process\<^sup>*\<^sup>* u s'" "pr_main s' = Exited"
      using less.hyps[of u] closed_step[OF u less.prems(2)] step_orderly[OF u less.prems(1)] by blast
    then show ?thesis using u by (meson converse_rtranclp_into_rtranclp)
  next
    case False
    then show ?thesis using less.prems by (auto simp: alive_def orderly_def)
  qed
qed


text \<open>C30. Once the listener is closed, the readiness probe has been answering that the server is draining and the root
  context is cancelled; from then on every run of the process ends after a bounded number of steps and can end only in a
  clean exit, and at that exit the wait group is empty and the database is closed, not before.\<close>

theorem shutdown_completes:
  assumes "live_process\<^sup>*\<^sup>* (serving loops background) s" "\<not> pr_listening s"
  shows "pr_draining s \<and> pr_cancelled s
    \<and> (\<forall>n s'. (live_process ^^ n) s s' \<longrightarrow>
         n \<le> work_left s \<and> (pr_db_open s' \<longleftrightarrow> pr_main s' \<noteq> Exited) \<and> (pr_main s' = Exited \<longrightarrow> pr_background s' = 0)
         \<and> ((\<exists>u. live_process s' u) \<or> pr_main s' = Exited))"
proof -
  have ok: "orderly s" by (rule reach_orderly[OF assms(1)])
  have "n \<le> work_left s \<and> orderly s' \<and> ((\<exists>u. live_process s' u) \<or> pr_main s' = Exited)" if run: "(live_process ^^ n) s s'" for n s'
  proof -
    have closed: "\<not> pr_listening s'" "n \<le> work_left s" using closed_run[OF run assms(2)] by simp_all
    have "live_process\<^sup>*\<^sup>* (serving loops background) s'"
      using assms(1) relpowp_imp_rtranclp[OF run] by (rule rtranclp_trans)
    then have "orderly s'" by (rule reach_orderly)
    moreover have "(\<exists>u. live_process s' u) \<or> pr_main s' = Exited"
    proof (cases "alive s'")
      case True
      then show ?thesis using closed_goes_on[OF \<open>orderly s'\<close> closed(1)] by blast
    next
      case False
      then show ?thesis using \<open>orderly s'\<close> closed(1) by (simp add: alive_def orderly_def)
    qed
    ultimately show ?thesis using closed(2) by blast
  qed
  moreover have "orderly u \<Longrightarrow> (pr_db_open u \<longleftrightarrow> pr_main u \<noteq> Exited) \<and> (pr_main u = Exited \<longrightarrow> pr_background u = 0)" for u
    by (simp add: orderly_def)
  moreover have "pr_draining s \<and> pr_cancelled s" using ok assms(2) by (auto simp: orderly_def)
  ultimately show ?thesis by blast
qed

lemma then_step: "process_step s u \<Longrightarrow> alive s \<Longrightarrow> live_process\<^sup>*\<^sup>* u v \<Longrightarrow> live_process\<^sup>*\<^sup>* s v"
  by (rule converse_rtranclp_into_rtranclp) (simp_all add: live_process_def)

text \<open>A server with one background goroutine whose listener was just closed.\<close>

definition closed_process :: process where
  "closed_process = (serving 0 1)\<lparr>pr_signal := SigClosing, pr_draining := True, pr_cancelled := True, pr_listening := False\<rparr>"

lemma closed_reached: "live_process\<^sup>*\<^sup>* (serving 0 1) closed_process"
  by (rule then_step[OF process_step.signal], simp add: serving_def, simp add: serving_def alive_def,
      rule then_step[OF process_step.cancel], simp, simp add: serving_def alive_def,
      rule then_step[OF process_step.close], simp, simp add: serving_def alive_def)
    (simp add: closed_process_def serving_def)

theorem shutdown_completes_witness:
  "pr_draining closed_process \<and> pr_cancelled closed_process \<and> 1 \<le> work_left closed_process
   \<and> pr_db_open (closed_process\<lparr>pr_main := StoppingLoops\<rparr>)"
proof -
  let ?next = "closed_process\<lparr>pr_main := StoppingLoops\<rparr>"
  have "live_process closed_process ?next"
    unfolding live_process_def by (intro conjI process_step.serve_returns) (simp_all add: alive_def closed_process_def serving_def)
  then have run: "(live_process ^^ 1) closed_process ?next" by (simp only: relpowp_1)
  have "\<not> pr_listening closed_process" by (simp add: closed_process_def)
  note ends = shutdown_completes[OF closed_reached this]
  have "1 \<le> work_left closed_process \<and> (pr_db_open ?next \<longleftrightarrow> pr_main ?next \<noteq> Exited)" using ends run by blast
  then show ?thesis using ends by simp
qed

section \<open>What a shutdown does not wait for\<close>

lemma loaded:
  "live_process\<^sup>*\<^sup>* (serving 0 0) ((serving 0 0)\<lparr>pr_requests := 1, pr_jobs := 1\<rparr>)"
  by (rule then_step[OF process_step.arrive], simp add: serving_def, simp add: serving_def alive_def,
      rule then_step[OF process_step.arrive], simp add: serving_def, simp add: serving_def alive_def,
      rule then_step[OF process_step.answer_job[where n = 1]], simp add: serving_def, simp add: serving_def alive_def)
    (simp add: serving_def)

definition cut_off :: process where
  "cut_off = (serving 0 0)\<lparr>pr_requests := 1, pr_jobs := 1, pr_signal := SigClosing, pr_draining := True, pr_cancelled := True,
     pr_listening := False, pr_main := Exited, pr_db_open := False\<rparr>"

text \<open>ListenAndServe returns as soon as Shutdown begins, and main does not wait for Shutdown: the process can exit, with the
  database closed, while Shutdown is still waiting for a request, and while a deployment runs.\<close>

lemma exit_cuts_requests:
  "live_process\<^sup>*\<^sup>* (serving 0 0) cut_off"
proof -
  have "live_process\<^sup>*\<^sup>* ((serving 0 0)\<lparr>pr_requests := 1, pr_jobs := 1\<rparr>) cut_off"
    by (rule then_step[OF process_step.signal], simp add: serving_def, simp add: serving_def alive_def,
        rule then_step[OF process_step.cancel], simp, simp add: serving_def alive_def,
        rule then_step[OF process_step.close], simp, simp add: serving_def alive_def,
        rule then_step[OF process_step.serve_returns], simp add: serving_def, simp, simp add: serving_def alive_def,
        rule then_step[OF process_step.loops_over], simp, simp add: serving_def, simp add: alive_def,
        rule then_step[OF process_step.join_over], simp, simp add: serving_def, simp add: alive_def)
      (simp add: cut_off_def serving_def)
  with loaded show ?thesis by (rule rtranclp_trans)
qed

end
