(* ===== verification/Hazards.thy ===== *)
theory Hazards
  imports Deployments
begin

text \<open>
  What the deployer does not protect itself against. Approving is a check followed by a run, in goroutines of their own
  requests, with nothing that holds between them: the lemmas show the order in which a rejection and an approval, or two
  approvals, meet. And the files a service names under env_file are joined to the clone without the check that the compose
  file itself goes through.
\<close>

section \<open>Approvals that overlap\<close>

definition approve_check :: "deployer \<Rightarrow> string \<Rightarrow> (stack \<times> deployment) res act" where
  "approve_check D deploymentID =
     try_with id (get_held D deploymentID) (\<lambda>p.
       try_with id (store_call (d_cli D) ''GetStack'' (reading (GetStack (dp_stack p)))) (\<lambda>s.
         case s of
           None \<Rightarrow> fail (ErrText (''stack '' @ dp_stack p @ '' not found for deployment '' @ deploymentID))
         | Some st \<Rightarrow> ok (st, p)))"

definition approve_run :: "deployer \<Rightarrow> stack \<Rightarrow> deployment \<Rightarrow> (deployment option \<times> gerr option) act" where
  "approve_run D st p = do { (r, _) \<leftarrow> runDeployment D st p; State_Monad.return r }"

lemma approve_is_check_then_run:
  "ApproveDeployment D i = do {
     r \<leftarrow> approve_check D i;
     case r of Inl e \<Rightarrow> State_Monad.return (None, Some e) | Inr (st, p) \<Rightarrow> approve_run D st p }"
  unfolding ApproveDeployment_def approve_check_def approve_run_def by (rule refl)

lemma check_reads:
  assumes "reliable D" "run_state (approve_check D i) w = (Inr (st, p), w')"
  shows "w_db w' = w_db w" "dp_id p = i" "GetDeployment i (w_db w) = Some p" "dp_status p = DeploymentPendingApproval"
  using assms
  by (auto simp: approve_check_def get_held_def try_with_def run_state_bind store_call_reliable reliable_def reading_def ok_def fail_def
      GetDeployment_def tbl_find_def find_Some_iff split: sum.splits option.splits if_splits)


text \<open>A rejection that comes between the two parts of an approval is recorded, and the deployment runs all the same: the
  record the rejection finished ends completed or failed.\<close>

lemma rejected_yet_run:
  assumes "reliable D" "run_state (approve_check D i) w = (Inr (st, p), w1)"
    and "run_state (RejectDeployment D i reason) w1 = (Inr q, w2)" "ListStackSecrets (st_id st) (w_db w2) = Inr secs"
    and "run_state (approve_run D st p) w2 = ((rp, err), w3)"
  shows "\<exists>row. GetDeployment i (w_db w2) = Some row \<and> dp_status row = DeploymentRejected"
    and "\<exists>row. GetDeployment i (w_db w3) = Some row \<and> dp_status row = (if err = None then DeploymentCompleted else DeploymentFailed)"
proof -
  note p = check_reads[OF assms(1,2)]
  have fault: "o_fault (d_cli D) l op = None" for l op using assms(1) by (simp add: reliable_def)
  have rej: "\<exists>q'. w_db w2 = UpdateDeployment q' (w_db w1) \<and> dp_id q' = i \<and> dp_status q' = DeploymentRejected"
    using assms(3)
    by (auto simp: RejectDeployment_def get_held_def try_with_def run_state_bind store_call_reliable[OF fault] reading_def writing_def
        ok_def fail_def now_def emit_def save_deployment_def Let_def GetDeployment_def tbl_find_def find_Some_iff
        split: sum.splits option.splits if_splits prod.splits)
  have stored: "GetDeployment i (w_db w1) = Some p" using p by simp
  from rej obtain q' where q': "w_db w2 = UpdateDeployment q' (w_db w1)" "dp_id q' = i" "dp_status q' = DeploymentRejected" by blast
  have found: "\<exists>row. GetDeployment i (UpdateDeployment q' (w_db w1)) = Some row \<and> dp_status row = dp_status q'"
    using stored q'(2) by (auto simp: GetDeployment_update)
  then show "\<exists>row. GetDeployment i (w_db w2) = Some row \<and> dp_status row = DeploymentRejected" using q' by simp
  have "running (dp_id p) (st_id st) (Inr secs) w2" using found q'(1) p(2) assms(4) by (auto simp: running_def)
  moreover obtain st' where "run_state (runDeployment D st p) w2 = (((rp, err), st'), w3)"
    using assms(5) by (auto simp: approve_run_def run_state_bind split: prod.splits)
  ultimately have "settled_answer i ((rp, err), st') w3"
    using validD[OF runDeployment_settles[OF assms(1)]] p(2) by (fastforce simp: ended_def)
  then show "\<exists>row. GetDeployment i (w_db w3) = Some row \<and> dp_status row = (if err = None then DeploymentCompleted else DeploymentFailed)"
    by (auto simp: settled_answer_def settled_as_def)
qed

text \<open>Two approvals that both check before either runs both pass: the deployment runs twice.\<close>

lemma both_approvals_pass:
  assumes "reliable D" "run_state (approve_check D i) w = (Inr (st, p), w1)"
  shows "fst (run_state (approve_check D i) w1) = Inr (st, p)"
proof -
  have fault: "o_fault (d_cli D) l op = None" for l op using assms(1) by (simp add: reliable_def)
  have "w_db w1 = w_db w" by (rule check_reads(1)[OF assms])
  then show ?thesis using assms(2)
    by (auto simp: approve_check_def get_held_def try_with_def run_state_bind store_call_reliable[OF fault] reading_def ok_def fail_def
        split: sum.splits option.splits if_splits)
qed

section \<open>Files of the environment\<close>

text \<open>A file named under env_file is read from the root of the clone, although the documentation says from the directory of
  the compose file; the compose path is not even an argument. An entry may lead out of the clone, to a file of the host.\<close>

lemma env_file_paths:
  "Join ''/tmp/clone-1'' ''app.env'' = ''/tmp/clone-1/app.env''"
  "Join ''/tmp/clone-1'' ''../../etc/accelero.env'' = ''/etc/accelero.env''"
  by code_simp+

lemma env_file_from_root:
  "run_state (LoadEnvFiles \<Omega> ''/tmp/clone-1'' [''app.env''] []) w =
     (case o_read \<Omega> (w_log w) ''/tmp/clone-1/app.env'' of
        Inl e \<Rightarrow> (Inl (ErrWrap (''failed to read env file /tmp/clone-1/app.env: '') e),
                 w\<lparr>w_log := w_log w @ [EReadEnv ''/tmp/clone-1/app.env'' (Inl e)]\<rparr>)
      | Inr data \<Rightarrow> (Inr (env_lines data), w\<lparr>w_log := w_log w @ [EReadEnv ''/tmp/clone-1/app.env'' (Inr data)]\<rparr>))"
  by (simp add: env_file_paths try_with_def run_state_bind emit_def ok_def Let_def split: sum.split)

end
