(* ===== verification/Overlaps.thy ===== *)
theory Overlaps
  imports Hazards
begin

text \<open>
  The operations of the deployer on the deployments table as they overlap: deploys, approvals, rejections, expiries and the
  retention run in goroutines of their own, and between them stand single calls of the database, with no lock and no
  transaction. A step of the system is one such call of one thread. The last sections show that the operations of
  Lifecycle take such steps.
\<close>

section \<open>Threads on the deployments table\<close>

text \<open>What a thread remembers between two calls: the stack for which it has seen no open approval and is about to insert
  one (requestApproval), or the ids of the records it has inserted or has seen waiting and may go on to write
  (Deploy, ApproveDeployment, RejectDeployment, ExpirePendingApprovals).\<close>

datatype task = NoTask | Asked string | Holds "string set"

record overlap_state =
  ov_db :: db
  ov_task :: "nat \<Rightarrow> task"

abbreviation set_task :: "nat \<Rightarrow> task \<Rightarrow> overlap_state \<Rightarrow> overlap_state" where
  "set_task t k s \<equiv> s\<lparr>ov_task := (ov_task s)(t := k)\<rparr>"

text \<open>With \<open>serial\<close> no two requests for an approval of the same stack overlap; the code does not see to that.\<close>

inductive overlap_step :: "bool \<Rightarrow> overlap_state \<Rightarrow> overlap_state \<Rightarrow> bool" for serial where
  ask: "ov_task s t = NoTask \<Longrightarrow> GetPendingApproval k (ov_db s) = None \<Longrightarrow> serial \<longrightarrow> (\<forall>u. ov_task s u \<noteq> Asked k)
    \<Longrightarrow> overlap_step serial s (set_task t (Asked k) s)"
| hold: "ov_task s t = Asked k \<Longrightarrow> dp_stack p = k \<Longrightarrow> dp_status p = DeploymentPendingApproval
    \<Longrightarrow> CreateDeployment p (ov_db s) = (None, d) \<Longrightarrow> overlap_step serial s (set_task t NoTask (s\<lparr>ov_db := d\<rparr>))"
| create: "ov_task s t = NoTask \<Longrightarrow> dp_status p = DeploymentPending \<Longrightarrow> CreateDeployment p (ov_db s) = (None, d)
    \<Longrightarrow> overlap_step serial s (set_task t (Holds {dp_id p}) (s\<lparr>ov_db := d\<rparr>))"
| look: "ov_task s t = NoTask \<Longrightarrow> GetDeployment i (ov_db s) = Some p \<Longrightarrow> dp_status p = DeploymentPendingApproval
    \<Longrightarrow> overlap_step serial s (set_task t (Holds {i}) s)"
| list_open: "ov_task s t = NoTask \<Longrightarrow> overlap_step serial s (set_task t (Holds (dp_id ` set (ListPendingApprovals (ov_db s)))) s)"
| save: "ov_task s t = Holds ids \<Longrightarrow> dp_id p \<in> ids \<Longrightarrow> dp_status p \<noteq> DeploymentPendingApproval
    \<Longrightarrow> overlap_step serial s (s\<lparr>ov_db := UpdateDeployment p (ov_db s)\<rparr>)"
| leave: "overlap_step serial s (set_task t NoTask s)"
| retain: "overlap_step serial s (s\<lparr>ov_db := snd (CleanupOldDeployments tm age (ov_db s))\<rparr>)"
| other: "t_deployments d = t_deployments (ov_db s) \<Longrightarrow> overlap_step serial s (s\<lparr>ov_db := d\<rparr>)"

inductive_cases overlap_stepE: "overlap_step serial s s'"

abbreviation overlap_runs :: "bool \<Rightarrow> overlap_state \<Rightarrow> overlap_state \<Rightarrow> bool" where
  "overlap_runs serial \<equiv> (overlap_step serial)\<^sup>*\<^sup>*"

text \<open>A record that no thread holds.\<close>

definition unheld :: "overlap_state \<Rightarrow> string \<Rightarrow> bool" where
  "unheld s i \<longleftrightarrow> (\<forall>t ids. ov_task s t = Holds ids \<longrightarrow> i \<notin> ids)"

text \<open>Retention takes a record out of the table.\<close>

definition retired :: "deployment \<Rightarrow> overlap_state \<Rightarrow> overlap_state \<Rightarrow> bool" where
  "retired p s s' \<longleftrightarrow> (\<exists>tm age. s' = s\<lparr>ov_db := snd (CleanupOldDeployments tm age (ov_db s))\<rparr>
     \<and> p \<in> set (t_deployments (ov_db s)) \<and> p \<notin> set (t_deployments (ov_db s')))"

lemma overlap_keys:
  assumes "overlap_step serial s s'" "keys_ok (ov_db s)"
  shows "keys_ok (ov_db s')"
  using assms(1)
proof (cases rule: overlap_step.cases)
  case (retain tm age)
  then show ?thesis using assms(2) by (simp add: keys_ok_def CleanupOldDeployments_def Let_def distinct_map_filter)
next
  case (other d)
  then show ?thesis using assms(2) by (simp add: keys_ok_def)
qed (use assms(2) in \<open>auto simp: keys_update dest: keys_create\<close>)

lemma overlap_runs_keys: "overlap_runs serial s s' \<Longrightarrow> keys_ok (ov_db s) \<Longrightarrow> keys_ok (ov_db s')"
  by (induction rule: rtranclp_induct) (auto dest: overlap_keys)

text \<open>One step leaves a finished record that no thread holds as it is, unless it is the one that retires it.\<close>

definition settled_row :: "deployment \<Rightarrow> overlap_state \<Rightarrow> bool" where
  "settled_row p s \<longleftrightarrow> keys_ok (ov_db s) \<and> p \<in> set (t_deployments (ov_db s)) \<and> unheld s (dp_id p)"

lemma update_other: "dp_id q \<noteq> dp_id p \<Longrightarrow> p \<in> set (t_deployments d) \<Longrightarrow> p \<in> set (t_deployments (UpdateDeployment q d))"
  by (auto simp: UpdateDeployment_rows tbl_update_def image_iff)

lemma settled_step:
  assumes "overlap_step serial s s'" "settled_row p s" "finished_status (dp_status p)"
  shows "settled_row p s' \<or> retired p s s'"
proof -
  have p: "keys_ok (ov_db s)" "p \<in> set (t_deployments (ov_db s))" "unheld s (dp_id p)" using assms(2) by (auto simp: settled_row_def)
  have keys: "keys_ok (ov_db s')" by (rule overlap_keys[OF assms(1) p(1)])
  have waits: "dp_id q \<noteq> dp_id p" if "q \<in> set (t_deployments (ov_db s))" "dp_status q = DeploymentPendingApproval" for q
    using keys_unique[OF p(1) that(1) p(2)] that(2) assms(3) by (auto simp: finished_status_def status_defs)
  from assms(1) show ?thesis
  proof (cases rule: overlap_step.cases)
    case (hold t k q d)
    then show ?thesis using p keys CreateDeployment_rows[OF hold(5)] by (auto simp: settled_row_def unheld_def)
  next
    case (create t q d)
    then show ?thesis using p keys CreateDeployment_rows[OF create(4)] by (auto simp: settled_row_def unheld_def)
  next
    case (look t i q)
    then have "i \<noteq> dp_id p" using waits[of q] GetDeployment_id[of i "ov_db s" q] by auto
    then show ?thesis using look p keys by (auto simp: settled_row_def unheld_def)
  next
    case (list_open t)
    then have "dp_id p \<notin> dp_id ` set (ListPendingApprovals (ov_db s))" using waits by (fastforce simp: ListPendingApprovals_def)
    then show ?thesis using list_open p keys by (auto simp: settled_row_def unheld_def)
  next
    case (save t ids q)
    then have "dp_id q \<noteq> dp_id p" using p(3) by (auto simp: unheld_def)
    then show ?thesis using save p keys update_other by (auto simp: settled_row_def unheld_def)
  next
    case (retain tm age)
    then show ?thesis using p keys by (auto simp: settled_row_def unheld_def retired_def)
  qed (use p keys in \<open>auto simp: settled_row_def unheld_def\<close>)
qed

lemma settled_runs:
  assumes "overlap_runs serial s s'" "settled_row p s" "finished_status (dp_status p)"
  shows "settled_row p s' \<or> (\<exists>u v. overlap_runs serial s u \<and> retired p u v \<and> overlap_runs serial v s')"
  using assms(1)
proof (induction rule: rtranclp_induct)
  case (step u v)
  then show ?case
  proof (elim disjE)
    assume "settled_row p u"
    from settled_step[OF step(2) this assms(3)] show ?thesis using step(1) by blast
  qed (blast intro: rtranclp.rtrancl_into_rtrancl)
qed (use assms(2) in simp)

text \<open>C13. A finished deployment is history: once a record is completed, failed, rolled back or rejected, and no goroutine is
  left that had read it while it was waiting, or created it, and may still write to it, then no interleaving of the
  database calls of any number of deployments, requests for approval, approvals, rejections, expiries and retention runs
  changes any of its columns. It leaves the table only in a retention run, when it is old enough and was not rejected.
  That no such goroutine is left matters: a lemma of Hazards shows a rejected record that an overlapping approval
  runs all the same.\<close>

theorem finished_is_final:
  assumes "overlap_runs serial s s'" "keys_ok (ov_db s)" "p \<in> set (t_deployments (ov_db s))"
    and "finished_status (dp_status p)" "unheld s (dp_id p)"
  shows "p \<in> set (t_deployments (ov_db s')) \<or>
    (\<exists>u v tm age. overlap_runs serial s u \<and> overlap_runs serial v s' \<and> p \<in> set (t_deployments (ov_db u))
       \<and> v = u\<lparr>ov_db := snd (CleanupOldDeployments tm age (ov_db u))\<rparr>
       \<and> dp_started p < tm - age \<and> dp_status p \<noteq> ''rejected'')"
proof -
  have "settled_row p s" using assms by (simp add: settled_row_def)
  from settled_runs[OF assms(1) this assms(4)] show ?thesis
  proof
    assume "\<exists>u v. overlap_runs serial s u \<and> retired p u v \<and> overlap_runs serial v s'"
    then obtain u v tm age where r: "overlap_runs serial s u" "overlap_runs serial v s'" "p \<in> set (t_deployments (ov_db u))"
      "v = u\<lparr>ov_db := snd (CleanupOldDeployments tm age (ov_db u))\<rparr>" "p \<notin> set (t_deployments (ov_db v))"
      by (auto simp: retired_def)
    then have "cleanable (tm - age) p" by (auto simp: CleanupOldDeployments_def Let_def)
    then have "dp_started p < tm - age \<and> dp_status p \<noteq> ''rejected''" by (auto simp: cleanable_def status_defs)
    then show ?thesis using r by blast
  qed (simp add: settled_row_def)
qed

section \<open>Open approvals\<close>

text \<open>With serial requests: one open approval per stack at most, and none while a thread is about to insert one.\<close>

definition one_open :: "overlap_state \<Rightarrow> bool" where
  "one_open s \<longleftrightarrow> (\<forall>k. length (open_rows k (ov_db s)) \<le> 1)
     \<and> (\<forall>t k. ov_task s t = Asked k \<longrightarrow> open_rows k (ov_db s) = [])
     \<and> (\<forall>t u k. ov_task s t = Asked k \<longrightarrow> ov_task s u = Asked k \<longrightarrow> t = u)"

lemma open_rows_create:
  "CreateDeployment p d = (None, d') \<Longrightarrow>
     open_rows k d' = open_rows k d @ (if dp_stack p = k \<and> dp_status p = DeploymentPendingApproval then [p] else [])"
  by (simp add: open_rows_def CreateDeployment_rows)

lemma open_rows_cleanup: "open_rows k (snd (CleanupOldDeployments tm age d)) = open_rows k d"
proof -
  have "\<not> cleanable c p" if "dp_status p = DeploymentPendingApproval" for c p
    using that by (auto simp: cleanable_def status_defs)
  then show ?thesis by (auto simp: open_rows_def CleanupOldDeployments_def Let_def intro!: filter_cong)
qed

lemma open_rows_same: "t_deployments d = t_deployments d' \<Longrightarrow> open_rows k d = open_rows k d'"
  by (simp add: open_rows_def)

lemma one_open_db:
  assumes "one_open s" "\<And>k. length (open_rows k d) \<le> length (open_rows k (ov_db s))"
  shows "one_open (s\<lparr>ov_db := d\<rparr>)"
proof -
  have "length (open_rows k d) \<le> 1" for k using assms(1) order_trans[OF assms(2)[of k]] by (simp add: one_open_def)
  moreover have "open_rows k d = []" if "ov_task s t = Asked k" for t k
    using assms(1) assms(2)[of k] that by (auto simp: one_open_def)
  ultimately show ?thesis using assms(1) by (auto simp: one_open_def)
qed

lemma one_open_free: "one_open s \<Longrightarrow> (\<And>k. x \<noteq> Asked k) \<Longrightarrow> one_open (set_task t x s)"
  unfolding one_open_def by auto

lemma one_open_step:
  assumes "overlap_step True s s'" "one_open s"
  shows "one_open s'"
  using assms(1)
proof (cases rule: overlap_step.cases)
  case (ask t k)
  then show ?thesis using assms(2) by (auto simp: one_open_def GetPendingApproval_open)
next
  case (hold t k p d)
  have "open_rows j d = open_rows j (ov_db s) @ (if k = j then [p] else [])" for j
    using open_rows_create[OF hold(5), of j] hold(3,4) by simp
  moreover have "open_rows k (ov_db s) = []" "\<And>u. ov_task s u = Asked k \<Longrightarrow> u = t" using assms(2) hold(2) by (auto simp: one_open_def)
  ultimately show ?thesis using assms(2) hold(1) by (auto simp: one_open_def)
next
  case (create t p d)
  have "open_rows j d = open_rows j (ov_db s)" for j
    using open_rows_create[OF create(4), of j] create(3) by (simp add: status_defs)
  then have "one_open (s\<lparr>ov_db := d\<rparr>)" by (intro one_open_db[OF assms(2)]) simp
  from one_open_free[OF this, of "Holds {dp_id p}" t] show ?thesis using create(1) by simp
next
  case (save t ids p)
  then show ?thesis using one_open_db[OF assms(2) open_rows_update] by simp
next
  case (retain tm age)
  then show ?thesis using one_open_db[OF assms(2)] open_rows_cleanup by simp
next
  case (other d)
  then show ?thesis using one_open_db[OF assms(2)] open_rows_same[of d "ov_db s"] by simp
qed (use assms(2) one_open_free in auto)

text \<open>C14. One open approval per stack, as long as the requests for it do not overlap: if no two goroutines are, for the same
  stack, between seeing that no approval is open and inserting one, then at most one record of a stack waits for
  approval, however deployments are triggered, approved, rejected, expired and cleaned up, and however the database
  calls of all that interleave. The code does not see to the condition; the next lemma has two open approvals without it.\<close>

theorem one_open_approval:
  assumes "overlap_runs True s s'" "\<forall>k. length (open_rows k (ov_db s)) \<le> 1" "\<forall>t k. ov_task s t \<noteq> Asked k"
  shows "length (open_rows k (ov_db s')) \<le> 1"
proof -
  have "one_open s" using assms(2,3) by (auto simp: one_open_def)
  with assms(1) have "one_open s'" by (induction rule: rtranclp_induct) (auto intro: one_open_step)
  then show ?thesis by (simp add: one_open_def)
qed

text \<open>Two requests that both look before either inserts leave the stack with two open approvals.\<close>

definition demo_waiting :: "string \<Rightarrow> deployment" where
  "demo_waiting i = new_deployment i demo_stack DeploymentPendingApproval TriggerManual 5"

definition demo_refused :: deployment where
  "demo_refused = (new_deployment ''d0'' demo_stack DeploymentRejected TriggerManual 1)\<lparr>dp_completed := Some 2\<rparr>"

definition demo_quiet :: overlap_state where
  "demo_quiet = \<lparr>ov_db = (empty_db None)\<lparr>t_deployments := [demo_refused]\<rparr>, ov_task = (\<lambda>_. NoTask)\<rparr>"

definition demo_insert :: "nat \<Rightarrow> deployment \<Rightarrow> overlap_state \<Rightarrow> overlap_state" where
  "demo_insert t p s = set_task t NoTask (s\<lparr>ov_db := snd (CreateDeployment p (ov_db s))\<rparr>)"

lemmas demo_rows = demo_quiet_def demo_insert_def demo_waiting_def demo_refused_def new_deployment_def CreateDeployment_def
  demo_stack_def open_rows_def status_defs

lemma demo_insert_step:
  assumes "ov_task s t = Asked (dp_stack p)" "dp_status p = DeploymentPendingApproval"
    and "\<forall>q \<in> set (t_deployments (ov_db s)). dp_id q \<noteq> dp_id p"
  shows "overlap_step serial s (demo_insert t p s)"
  unfolding demo_insert_def
  by (rule overlap_step.hold[OF assms(1) refl assms(2)]) (use assms(3) in \<open>simp add: CreateDeployment_def\<close>)

lemma demo_none_open: "GetPendingApproval k (ov_db demo_quiet) = None"
  by (simp add: GetPendingApproval_open demo_rows)

lemma two_open_approvals:
  "\<exists>s. overlap_runs False demo_quiet s \<and> length (open_rows (st_id demo_stack) (ov_db s)) = 2"
proof -
  let ?k = "st_id demo_stack"
  let ?s1 = "set_task 0 (Asked ?k) demo_quiet"
  let ?s2 = "set_task 1 (Asked ?k) ?s1"
  let ?s3 = "demo_insert 0 (demo_waiting ''d1'') ?s2"
  let ?s4 = "demo_insert 1 (demo_waiting ''d2'') ?s3"
  have a: "overlap_step False demo_quiet ?s1"
    by (rule overlap_step.ask) (simp_all add: demo_none_open, simp add: demo_quiet_def)
  have b: "overlap_step False ?s1 ?s2"
    by (rule overlap_step.ask) (simp_all add: demo_none_open, simp add: demo_quiet_def)
  have c: "overlap_step False ?s2 ?s3" by (rule demo_insert_step) (simp_all add: demo_rows)
  have d: "overlap_step False ?s3 ?s4" by (rule demo_insert_step) (simp_all add: demo_rows)
  have "overlap_runs False demo_quiet ?s4" using a b c d by (meson rtranclp.intros)
  moreover have "length (open_rows ?k (ov_db ?s4)) = 2" by (simp add: demo_rows)
  ultimately show ?thesis by blast
qed

lemma demo_one_request:
  "overlap_runs True demo_quiet (demo_insert 0 (demo_waiting ''d1'') (set_task 0 (Asked (st_id demo_stack)) demo_quiet))"
  (is "overlap_runs True _ ?s")
proof -
  have a: "overlap_step True demo_quiet (set_task 0 (Asked (st_id demo_stack)) demo_quiet)"
    by (rule overlap_step.ask) (simp_all add: demo_none_open, simp_all add: demo_quiet_def)
  have "overlap_step True (set_task 0 (Asked (st_id demo_stack)) demo_quiet) ?s"
    by (rule demo_insert_step) (simp_all add: demo_rows)
  with a show ?thesis by (meson rtranclp.intros)
qed

theorem finished_is_final_witness:
  "demo_refused \<in> set (t_deployments (ov_db (demo_insert 0 (demo_waiting ''d1'') (set_task 0 (Asked (st_id demo_stack)) demo_quiet))))"
proof -
  have "keys_ok (ov_db demo_quiet)" "demo_refused \<in> set (t_deployments (ov_db demo_quiet))" "unheld demo_quiet (dp_id demo_refused)"
    by (simp_all add: keys_ok_def demo_quiet_def unheld_def)
  moreover have "dp_status demo_refused = ''rejected''" "finished_status (dp_status demo_refused)"
    by (simp_all add: demo_refused_def new_deployment_def finished_status_def status_defs)
  ultimately show ?thesis using finished_is_final[OF demo_one_request] by blast
qed

theorem one_open_approval_witness:
  "length (open_rows (st_id demo_stack)
     (ov_db (demo_insert 0 (demo_waiting ''d1'') (set_task 0 (Asked (st_id demo_stack)) demo_quiet)))) \<le> 1"
  by (rule one_open_approval[OF demo_one_request]) (simp_all add: demo_rows)

section \<open>The operations take these steps\<close>

text \<open>A world is a state of the system with the tasks of a given one; what a thread does is a walk from one state to
  another. Other threads may walk in between the parts the lemmas are about: each part starts from any world.\<close>

definition in_world :: "overlap_state \<Rightarrow> world \<Rightarrow> overlap_state" where
  "in_world s w = s\<lparr>ov_db := w_db w\<rparr>"

definition walked :: "bool \<Rightarrow> overlap_state \<Rightarrow> overlap_state \<Rightarrow> world \<Rightarrow> bool" where
  "walked serial s0 s w \<longleftrightarrow> overlap_runs serial s0 (in_world s w)"

lemma in_world_task [simp]: "ov_task (in_world s w) = ov_task s" "ov_db (in_world s w) = w_db w"
  by (simp_all add: in_world_def)

lemma task_db: "(s\<lparr>ov_task := f\<rparr>)\<lparr>ov_db := d\<rparr> = (s\<lparr>ov_db := d\<rparr>)\<lparr>ov_task := f\<rparr>" for s :: overlap_state
  by simp

lemma walked_step: "walked serial s0 s w \<Longrightarrow> overlap_step serial (in_world s w) (in_world s' w') \<Longrightarrow> walked serial s0 s' w'"
  unfolding walked_def by (rule rtranclp.rtrancl_into_rtrancl)

lemma walked_table: "table_only (walked serial s0 s)"
  unfolding table_only_def
proof (intro allI impI)
  fix w w' :: world assume "t_deployments (w_db w') = t_deployments (w_db w)" "walked serial s0 s w"
  moreover from this(1) have "overlap_step serial (in_world s w) ((in_world s w)\<lparr>ov_db := w_db w'\<rparr>)" by (intro overlap_step.other) simp
  ultimately show "walked serial s0 s w'" by (auto simp: in_world_def intro: walked_step)
qed

lemma walked_same: "walked serial s0 s w \<Longrightarrow> t_deployments (w_db w') = t_deployments (w_db w) \<Longrightarrow> walked serial s0 s w'"
  using walked_table unfolding table_only_def by blast

lemma walked_tolerates: "tolerates P (walked serial s0 s)"
  by (auto simp: tolerates_def intro: walked_same)

lemmas walked_ops = table_ops[OF walked_table]
lemmas walked_audit [keep] = recordAudit_frame[OF table_only_audit[OF walked_table]]

text \<open>A thread that holds an id may write the record to any status but the waiting one: so runDeployment, whichever part
  of it is reached.\<close>

lemma walked_save:
  assumes "ov_task s t = Holds ids" "i \<in> ids"
  shows "deploy_free {x. x \<noteq> DeploymentPendingApproval} i (walked serial s0 s)"
proof (rule table_only_free[OF walked_table])
  fix w :: world and p :: deployment assume w: "walked serial s0 s w" and p: "dp_id p = i" "dp_status p \<in> {x. x \<noteq> DeploymentPendingApproval}"
  have "overlap_step serial (in_world s w) ((in_world s w)\<lparr>ov_db := UpdateDeployment p (w_db w)\<rparr>)"
    using overlap_step.save[of "in_world s w" t ids p serial] assms p by simp
  with w show "walked serial s0 s (w\<lparr>w_db := UpdateDeployment p (w_db w)\<rparr>)" by (auto simp: in_world_def intro: walked_step)
qed

lemma run_walks:
  assumes "ov_task s t = Holds ids" "dp_id p \<in> ids"
  shows "keeps (walked serial s0 s) (runDeployment D st p)"
  by (rule runDeployment_frame[OF walked_save[OF assms]]) (auto simp: status_defs)

lemma save_walks:
  assumes "ov_task s t = Holds ids" "dp_id p \<in> ids" "dp_status p \<noteq> DeploymentPendingApproval"
  shows "keeps (walked serial s0 s) (save_deployment D p)"
  by (rule save_deployment_frame[OF walked_save[OF assms(1,2)]]) (use assms(3) in auto)

text \<open>An insertion of a record is a step of its own.\<close>

lemma create_walks:
  assumes "\<And>w d. CreateDeployment p (w_db w) = (None, d) \<Longrightarrow> overlap_step serial (in_world s w) (s'\<lparr>ov_db := d\<rparr>)"
  shows "valid (walked serial s0 s) (create_deployment D p)
     (\<lambda>r w. case r of Inl e \<Rightarrow> walked serial s0 s w | Inr _ \<Rightarrow> walked serial s0 s' w)"
proof (rule validI)
  fix w r w' assume w: "walked serial s0 s w" and r: "run_state (create_deployment D p) w = (r, w')"
  show "case r of Inl e \<Rightarrow> walked serial s0 s w' | Inr _ \<Rightarrow> walked serial s0 s' w'"
    using store_call_result[OF r[unfolded create_deployment_def]]
  proof (elim disjE exE conjE)
    fix e assume "r = Inl e" "w' = w\<lparr>w_log := w_log w @ [EStore ''CreateDeployment'' (Some e)]\<rparr>"
    then show ?thesis using walked_same[OF w] by simp
  next
    assume a: "r = fst (writing (CreateDeployment p) (w_db w))"
      "w' = w\<lparr>w_log := w_log w @ [EStore ''CreateDeployment'' None], w_db := snd (writing (CreateDeployment p) (w_db w))\<rparr>"
    show ?thesis
    proof (cases "CreateDeployment p (w_db w)")
      case (Pair e d)
      show ?thesis
      proof (cases e)
        case None
        then have "walked serial s0 s' (w\<lparr>w_db := d\<rparr>)"
          using walked_step[OF w, of s' "w\<lparr>w_db := d\<rparr>"] assms[of w d] Pair by (simp add: in_world_def)
        from walked_same[OF this, of w'] show ?thesis using a Pair None by (simp add: writing_def)
      next
        case (Some er)
        then have "d = w_db w" using Pair by (simp add: CreateDeployment_def split: if_splits)
        then show ?thesis using a Pair Some walked_same[OF w, of w'] by (simp add: writing_def)
      qed
    qed
  qed
qed

text \<open>A thread that has not begun, or that has left, is free.\<close>

lemma walked_leave: "walked serial s0 (set_task t k s) w \<Longrightarrow> ov_task s t = NoTask \<Longrightarrow> walked serial s0 s w"
proof (rule walked_step)
  assume "ov_task s t = NoTask"
  then have "in_world s w = set_task t NoTask (in_world (set_task t k s) w)"
    by (simp add: in_world_def fun_upd_idem)
  then show "overlap_step serial (in_world (set_task t k s) w) (in_world s w)" using overlap_step.leave by metis
qed

lemma walked_set:
  "walked serial s0 s w \<Longrightarrow> overlap_step serial (in_world s w) (set_task t k (in_world s w)) \<Longrightarrow> walked serial s0 (set_task t k s) w"
  by (erule walked_step) (simp add: in_world_def task_db)

text \<open>requestApproval: the check, and the insertion from whatever world it then finds.\<close>

lemma ask_walks:
  assumes "ov_task s t = NoTask" "serial \<longrightarrow> (\<forall>u. ov_task s u \<noteq> Asked k)"
  shows "valid (walked serial s0 s) (store_call \<Omega> op (reading (\<lambda>d. Inr (GetPendingApproval k d))))
     (\<lambda>r w. walked serial s0 (if r = Inr None then set_task t (Asked k) s else s) w)"
proof (rule validI)
  fix w r w' assume w: "walked serial s0 s w" and r: "run_state (store_call \<Omega> op (reading (\<lambda>d. Inr (GetPendingApproval k d)))) w = (r, w')"
  have d: "w_db w' = w_db w" "r = Inr None \<longrightarrow> GetPendingApproval k (w_db w) = None"
    using store_call_result[OF r] by (auto simp: reading_def)
  have w': "walked serial s0 s w'" by (rule walked_same[OF w]) (simp add: d)
  have "walked serial s0 (set_task t (Asked k) s) w'" if "r = Inr None"
    by (rule walked_set[OF w' overlap_step.ask]) (use assms d that in auto)
  then show "walked serial s0 (if r = Inr None then set_task t (Asked k) s else s) w'" using w' by simp
qed

lemma hold_walks:
  assumes "ov_task s t = NoTask"
  shows "valid (walked serial s0 (set_task t (Asked (st_id st)) s)) (hold_deployment D st trigger) (\<lambda>_. walked serial s0 s)"
  (is "valid ?A _ _")
proof -
  have insert: "valid ?A (create_deployment D p) (\<lambda>r w. case r of Inl e \<Rightarrow> ?A w | Inr _ \<Rightarrow> walked serial s0 s w)"
    if p: "dp_stack p = st_id st" "dp_status p = DeploymentPendingApproval" for p
  proof (rule create_walks)
    fix w :: world and d assume c: "CreateDeployment p (w_db w) = (None, d)"
    have "s\<lparr>ov_db := d\<rparr> = set_task t NoTask ((in_world (set_task t (Asked (st_id st)) s) w)\<lparr>ov_db := d\<rparr>)"
      using assms by (simp add: in_world_def fun_upd_idem)
    then show "overlap_step serial (in_world (set_task t (Asked (st_id st)) s) w) (s\<lparr>ov_db := d\<rparr>)"
      using overlap_step.hold[of "in_world (set_task t (Asked (st_id st)) s) w" t "st_id st" p d serial] p c by simp
  qed
  have tail: "valid (\<lambda>w. case c of Inl e \<Rightarrow> ?A w | Inr _ \<Rightarrow> walked serial s0 s w) (case c of Inl e \<Rightarrow> State_Monad.return (f e)
      | Inr _ \<Rightarrow> do { _ \<leftarrow> recordAudit \<Omega> a e; State_Monad.return y }) (\<lambda>_. walked serial s0 s)" for c :: "unit res" and f \<Omega> a e y
    using walked_audit[of serial s0 s \<Omega> a e] walked_leave[OF _ assms]
    by (cases c) (auto simp: valid_def keeps_def run_state_bind case_prod_beta)
  have made: "valid ?A (do { t \<leftarrow> now \<Omega>; let p = new_deployment i st DeploymentPendingApproval trigger t in do {
      c \<leftarrow> create_deployment D p; case c of Inl e \<Rightarrow> State_Monad.return (f e)
      | Inr _ \<Rightarrow> do { _ \<leftarrow> recordAudit \<Omega>' (a p) (e p); State_Monad.return (y p) } } }) (\<lambda>_. walked serial s0 s)" for \<Omega> i f \<Omega>' a e y
    unfolding Let_def
    by (rule valid_bind[OF walked_ops(2)[unfolded keeps_def] valid_bind[OF insert tail]]) (simp_all add: new_deployment_def)
  show ?thesis
    unfolding hold_deployment_def
    by (rule valid_bind[OF walked_ops(1)[unfolded keeps_def]])
       (auto split: sum.split intro!: made simp: walked_leave[OF _ assms])
qed

lemma request_walks:
  assumes "ov_task s t = NoTask" "serial \<longrightarrow> (\<forall>u. ov_task s u \<noteq> Asked (st_id st))"
  shows "keeps (walked serial s0 s) (requestApproval D st trigger)"
  unfolding keeps_def requestApproval_def
proof (rule valid_bind[OF ask_walks[OF assms]])
  show "valid (walked serial s0 (if r = Inr None then set_task t (Asked (st_id st)) s else s)) (case r of
      Inl e \<Rightarrow> State_Monad.return (None, Some (ErrWrap ''check pending approval: '' e))
    | Inr (Some existing) \<Rightarrow> State_Monad.return (Some existing, None)
    | Inr None \<Rightarrow> hold_deployment D st trigger) (\<lambda>_. walked serial s0 s)" for r
    using hold_walks[OF assms(1)] by (auto split: sum.split option.split)
qed

text \<open>Deploy: the gate, or a record of its own and the run.\<close>

lemma run_then_leave:
  assumes "ov_task s t = NoTask" "dp_id p \<in> ids"
  shows "valid (walked serial s0 (set_task t (Holds ids) s)) (runDeployment D st p) (\<lambda>_. walked serial s0 s)"
  by (rule valid_conseq[OF valid_keeps[OF run_walks[of "set_task t (Holds ids) s" t ids p serial s0 D st]]])
     (use assms walked_leave in auto)

lemma new_walks:
  assumes "ov_task s t = NoTask" "dp_status p = DeploymentPending"
  shows "keeps (walked serial s0 s) (do { c \<leftarrow> create_deployment D p; case c of Inl e \<Rightarrow> State_Monad.return (f e)
     | Inr _ \<Rightarrow> runDeployment D st p })"
  unfolding keeps_def
proof (rule valid_bind)
  let ?H = "set_task t (Holds {dp_id p}) s"
  show "valid (walked serial s0 s) (create_deployment D p)
      (\<lambda>r w. case r of Inl e \<Rightarrow> walked serial s0 s w | Inr _ \<Rightarrow> walked serial s0 ?H w)"
  proof (rule create_walks)
    fix w :: world and d assume "CreateDeployment p (w_db w) = (None, d)"
    from overlap_step.create[of "in_world s w" t p d serial] this assms
    show "overlap_step serial (in_world s w) (?H\<lparr>ov_db := d\<rparr>)" by (simp add: in_world_def task_db)
  qed
  show "valid (\<lambda>w. case r of Inl e \<Rightarrow> walked serial s0 s w | Inr _ \<Rightarrow> walked serial s0 ?H w)
      (case r of Inl e \<Rightarrow> State_Monad.return (f e) | Inr _ \<Rightarrow> runDeployment D st p) (\<lambda>_. walked serial s0 s)" for r
    using run_then_leave[OF assms(1), of p "{dp_id p}"] by (cases r) simp_all
qed

lemma deploy_walks:
  assumes "ov_task s t = NoTask" "serial \<longrightarrow> (\<forall>u. ov_task s u \<noteq> Asked (st_id st))"
  shows "keeps (walked serial s0 s) (Deploy D st trigger)"
  unfolding Deploy_def Let_def
  by (intro keep request_walks[OF assms] walked_ops(1,2) new_walks[OF assms(1)]) (simp_all add: new_deployment_def)

text \<open>Approval, rejection and expiry: what was seen waiting is held, and written later.\<close>

lemma look_walks:
  assumes "ov_task s t = NoTask"
  shows "valid (walked serial s0 s) (get_held D i)
     (\<lambda>r w. case r of Inl e \<Rightarrow> walked serial s0 s w | Inr p \<Rightarrow> dp_id p = i \<and> walked serial s0 (set_task t (Holds {i}) s) w)"
proof (rule valid_conseq[OF get_held_valid[OF walked_table]])
  fix r w assume a: "walked serial s0 s w \<and> (\<forall>p. r = Inr p \<longrightarrow> GetDeployment i (w_db w) = Some p \<and> dp_status p = DeploymentPendingApproval)"
  show "case r of Inl e \<Rightarrow> walked serial s0 s w | Inr p \<Rightarrow> dp_id p = i \<and> walked serial s0 (set_task t (Holds {i}) s) w"
  proof (cases r)
    case (Inr p)
    then have g: "GetDeployment i (w_db w) = Some p" "dp_status p = DeploymentPendingApproval" using a by auto
    have "overlap_step serial (in_world s w) (set_task t (Holds {i}) (in_world s w))"
      by (rule overlap_step.look) (use assms g in auto)
    then show ?thesis using Inr a GetDeployment_id[OF g(1)] walked_set by auto
  qed (use a in simp)
qed

lemma approve_check_walks:
  assumes "ov_task s t = NoTask"
  shows "valid (walked serial s0 s) (approve_check D i)
     (\<lambda>r w. case r of Inl e \<Rightarrow> walked serial s0 s w | Inr (st, p) \<Rightarrow> walked serial s0 (set_task t (Holds {dp_id p}) s) w)"
  unfolding approve_check_def
proof (rule valid_try[OF valid_conseq[OF look_walks[OF assms]]])
  fix p
  let ?H = "walked serial s0 (set_task t (Holds {dp_id p}) s)"
  have "valid ?H (try_with id (store_call (d_cli D) ''GetStack'' (reading (GetStack (dp_stack p)))) (\<lambda>s'.
      case s' of None \<Rightarrow> fail (ErrText (''stack '' @ dp_stack p @ '' not found for deployment '' @ i)) | Some st \<Rightarrow> ok (st, p)))
      (\<lambda>r w. ?H w \<and> (\<forall>st q. r = Inr (st, q) \<longrightarrow> q = p))"
    unfolding try_with_def
    by (rule valid_bind[OF walked_ops(3)[unfolded keeps_def]]) (auto simp: fail_def ok_def split: sum.split option.split)
  then show "valid (\<lambda>w. dp_id p = i \<and> ?H w) (try_with id (store_call (d_cli D) ''GetStack'' (reading (GetStack (dp_stack p)))) (\<lambda>s'.
      case s' of None \<Rightarrow> fail (ErrText (''stack '' @ dp_stack p @ '' not found for deployment '' @ i)) | Some st \<Rightarrow> ok (st, p)))
      (\<lambda>r w. case r of Inl e \<Rightarrow> walked serial s0 s w | Inr (st, p) \<Rightarrow> walked serial s0 (set_task t (Holds {dp_id p}) s) w)"
    by (rule valid_conseq) (auto split: sum.split intro: walked_leave[OF _ assms])
qed (auto split: sum.splits)

lemma approve_walks:
  assumes "ov_task s t = NoTask"
  shows "keeps (walked serial s0 s) (ApproveDeployment D i)"
  unfolding keeps_def approve_is_check_then_run
proof (rule valid_bind[OF approve_check_walks[OF assms]])
  fix r :: "gerr + stack \<times> deployment"
  show "valid (\<lambda>w. case r of Inl e \<Rightarrow> walked serial s0 s w | Inr (st, p) \<Rightarrow> walked serial s0 (set_task t (Holds {dp_id p}) s) w)
      (case r of Inl e \<Rightarrow> State_Monad.return (None, Some e) | Inr (st, p) \<Rightarrow> approve_run D st p) (\<lambda>_. walked serial s0 s)"
  proof (cases r)
    case (Inr sp)
    have "valid (walked serial s0 (set_task t (Holds {dp_id p}) s)) (approve_run D st p) (\<lambda>_. walked serial s0 s)" for st p
      unfolding approve_run_def by (rule valid_bind[OF run_then_leave[OF assms]]) (auto split: prod.split)
    then show ?thesis using Inr by (simp add: case_prod_beta)
  qed simp
qed

lemma reject_walks:
  assumes "ov_task s t = NoTask"
  shows "keeps (walked serial s0 s) (RejectDeployment D i reason)"
  unfolding keeps_def RejectDeployment_def
proof (rule valid_try[OF valid_conseq[OF look_walks[OF assms]]])
  fix p :: deployment
  let ?H = "walked serial s0 (set_task t (Holds {dp_id p}) s)"
  let ?m = "do { c \<leftarrow> now (d_cli D);
      let p1 = p\<lparr>dp_status := DeploymentRejected, dp_completed := Some c\<rparr>;
          p = (if reason \<noteq> [] then p1\<lparr>dp_error := reason\<rparr> else p1)
      in try_with id (save_deployment D p) (\<lambda>_. ok p) }"
  have "keeps ?H (save_deployment D q)" if "dp_id q = dp_id p" "dp_status q = DeploymentRejected" for q
    by (rule save_walks[of _ t "{dp_id p}"]) (use that in \<open>auto simp: status_defs\<close>)
  then have "keeps ?H ?m" unfolding Let_def by (intro keep walked_ops(2)) simp_all
  then have "valid ?H ?m (\<lambda>_. ?H)" by (rule valid_keeps)
  then show "valid (\<lambda>w. dp_id p = i \<and> ?H w) ?m (\<lambda>_. walked serial s0 s)"
    by (rule valid_conseq) (auto intro: walked_leave[OF _ assms])
qed (auto split: sum.splits)

lemma expire_loop_walks:
  "ov_task s t = Holds ids \<Longrightarrow> dp_id ` set ps \<subseteq> ids \<Longrightarrow> keeps (walked serial s0 s) (expire_loop D a c ps n)"
proof (induction ps arbitrary: n)
  case (Cons p ps)
  then have IH: "keeps (walked serial s0 s) (expire_loop D a c ps n)" for n by simp
  have "keeps (walked serial s0 s) (save_deployment D q)" if "dp_id q = dp_id p" "dp_status q = DeploymentRejected" for q
    by (rule save_walks[OF Cons.prems(1)]) (use Cons.prems that in \<open>auto simp: status_defs\<close>)
  then show ?case unfolding expire_loop.simps Let_def by (intro keep IH walked_ops(2)) simp_all
qed (simp add: keep)

lemma expire_walks:
  assumes "ov_task s t = NoTask"
  shows "keeps (walked serial s0 s) (ExpirePendingApprovals D maxAge)"
proof (cases "maxAge \<le> 0")
  case False
  let ?Q = "\<lambda>r w. case r of Inl e \<Rightarrow> walked serial s0 s w | Inr ps \<Rightarrow> walked serial s0 (set_task t (Holds (dp_id ` set ps)) s) w"
  have l: "valid (walked serial s0 s) (store_call (d_cli D) ''ListPendingApprovals'' (reading (\<lambda>d. Inr (ListPendingApprovals d)))) ?Q"
  proof (rule validI)
    fix w r w' assume w: "walked serial s0 s w"
      and r: "run_state (store_call (d_cli D) ''ListPendingApprovals'' (reading (\<lambda>d. Inr (ListPendingApprovals d)))) w = (r, w')"
    have d: "w_db w' = w_db w" "\<forall>ps. r = Inr ps \<longrightarrow> ps = ListPendingApprovals (w_db w)"
      using store_call_result[OF r] by (auto simp: reading_def)
    have w': "walked serial s0 s w'" by (rule walked_same[OF w]) (simp add: d)
    have "walked serial s0 (set_task t (Holds (dp_id ` set (ListPendingApprovals (w_db w)))) s) w'"
      using walked_set[OF w', of t "Holds (dp_id ` set (ListPendingApprovals (w_db w)))"]
        overlap_step.list_open[of "in_world s w'" t serial] assms d(1) by simp
    then show "?Q r w'" using w' d(2) by (auto split: sum.split)
  qed
  show ?thesis
    unfolding keeps_def ExpirePendingApprovals_def if_not_P[OF False]
  proof (rule valid_try[OF valid_conseq[OF l]])
    fix ps :: "deployment list"
    let ?H = "set_task t (Holds (dp_id ` set ps)) s"
    have "keeps (walked serial s0 ?H) (do { c \<leftarrow> now (d_cli D); n \<leftarrow> expire_loop D maxAge (c - maxAge) ps 0; ok n })"
      by (intro keep walked_ops(2) expire_loop_walks[of ?H t "dp_id ` set ps"] walked_tolerates) simp_all
    then show "valid (walked serial s0 ?H) (do { c \<leftarrow> now (d_cli D); n \<leftarrow> expire_loop D maxAge (c - maxAge) ps 0; ok n }) (\<lambda>_. walked serial s0 s)"
      by (rule valid_conseq[OF valid_keeps]) (auto intro: walked_leave[OF _ assms])
  qed (auto split: sum.splits)
qed (simp add: ExpirePendingApprovals_def keep)

text \<open>A thread that is free can run any of the operations, in whatever world it finds, by steps of the system: the four
  operations of the code, run without interruption, are walks of one thread, and the parts they consist of are walks
  wherever they begin.\<close>

lemma operations_walk:
  assumes "ov_task s t = NoTask" "serial \<longrightarrow> (\<forall>u. ov_task s u \<noteq> Asked (st_id st))"
  shows "overlap_runs serial (in_world s w) (in_world s (snd (run_state (Deploy D st trigger) w)))"
    "overlap_runs serial (in_world s w) (in_world s (snd (run_state (ApproveDeployment D i) w)))"
    "overlap_runs serial (in_world s w) (in_world s (snd (run_state (RejectDeployment D i reason) w)))"
    "overlap_runs serial (in_world s w) (in_world s (snd (run_state (ExpirePendingApprovals D maxAge) w)))"
proof -
  have start: "walked serial (in_world s w) s w" by (simp add: walked_def)
  show "overlap_runs serial (in_world s w) (in_world s (snd (run_state (Deploy D st trigger) w)))"
    "overlap_runs serial (in_world s w) (in_world s (snd (run_state (ApproveDeployment D i) w)))"
    "overlap_runs serial (in_world s w) (in_world s (snd (run_state (RejectDeployment D i reason) w)))"
    "overlap_runs serial (in_world s w) (in_world s (snd (run_state (ExpirePendingApprovals D maxAge) w)))"
    using keepsD[OF deploy_walks[OF assms(1,2)] start] keepsD[OF approve_walks[OF assms(1)] start]
      keepsD[OF reject_walks[OF assms(1)] start] keepsD[OF expire_walks[OF assms(1)] start]
    unfolding walked_def by blast+
qed

end
