(* ===== verification/Stored.thy ===== *)
theory Stored
  imports Startup
begin

text \<open>
  Properties of the database that every method of the store keeps are kept by the whole program: by deployments and
  approvals, reconcile cycles, every handler of the API and the background work. The locale \<open>stored_ops\<close> is the contract
  for all but the methods that change API keys and hosts, \<open>stored_invariant\<close> extends it to those; the lemmas follow the
  code from the store upwards, and Server.thy composes them.
\<close>

definition stored :: "(db \<Rightarrow> bool) \<Rightarrow> world \<Rightarrow> bool" where
  "stored P w \<longleftrightarrow> P (w_db w)"

named_theorems holds \<open>steps that keep what the database satisfies\<close>

lemma keeps_case_prod [keep]: "(\<And>a b. keeps I (f a b)) \<Longrightarrow> keeps I (case p of (a, b) \<Rightarrow> f a b)"
  by (cases p) simp

lemma keeps_case_prod_applied [keep]: "(\<And>a b. keeps I (f a b x)) \<Longrightarrow> keeps I ((case p of (a, b) \<Rightarrow> f a b) x)"
  by (cases p) simp

text \<open>The methods that change keys and hosts.\<close>

fun admin_op :: "db_op \<Rightarrow> bool" where
  "admin_op (OpCreateHost n h) = True"
| "admin_op (OpDeleteHost i) = True"
| "admin_op (OpCreateKey k) = True"
| "admin_op (OpDeleteKey i) = True"
| "admin_op _ = False"

locale stored_ops =
  fixes P :: "db \<Rightarrow> bool"
  assumes step: "\<not> admin_op op \<Longrightarrow> P d \<Longrightarrow> P (db_step op d)"
begin

lemma writes:
  "P d \<Longrightarrow> P (snd (CreateStack n1 n2 s d))" "P d \<Longrightarrow> P (snd (UpdateStack t n1 n2 s d))" "P d \<Longrightarrow> P (snd (DeleteStack i d))"
  "P d \<Longrightarrow> P (snd (CreateDeployment p d))" "P d \<Longrightarrow> P (UpdateDeployment p d)" "P d \<Longrightarrow> P (snd (CleanupOldDeployments t a d))"
  "P d \<Longrightarrow> P (TouchAPIKey i t d)" "P d \<Longrightarrow> P (TrackContainer c d)" "P d \<Longrightarrow> P (RemoveContainersByStack i d)"
  "P d \<Longrightarrow> P (snd (UpsertStackSecret t n sec d))" "P d \<Longrightarrow> P (snd (DeleteStackSecret i x d))"
  "P d \<Longrightarrow> P (snd (UpsertStackRegistry t n r d))" "P d \<Longrightarrow> P (snd (DeleteStackRegistry i x d))"
  "P d \<Longrightarrow> P (snd (CreateAuditEntry e d))" "P d \<Longrightarrow> P (snd (CleanupOldAuditEntries t a d))"
  using step[of "OpCreateStack n1 n2 s" d] step[of "OpUpdateStack t n1 n2 s" d] step[of "OpDeleteStack i" d]
    step[of "OpCreateDeployment p" d] step[of "OpUpdateDeployment p" d] step[of "OpCleanupDeployments t a" d]
    step[of "OpTouchKey i t" d] step[of "OpTrackContainer c" d] step[of "OpRemoveContainersByStack i" d]
    step[of "OpUpsertSecret t n sec" d] step[of "OpDeleteSecret i x" d] step[of "OpUpsertRegistry t n r" d]
    step[of "OpDeleteRegistry i x" d] step[of "OpCreateAudit e" d] step[of "OpCleanupAudit t a" d] by simp_all

lemma any: "tolerates (\<lambda>_. True) (stored P)"
  by (simp add: tolerates_def stored_def)

lemma emits [holds]: "keeps (stored P) (emit ans ev)"
  by (rule tolerates_emit[OF any]) simp

lemma holds_write: "(\<And>d. P d \<Longrightarrow> P (snd (f d))) \<Longrightarrow> keeps (stored P) (store_call \<Omega> op (writing f))"
  by (rule keeps_store_call) (auto simp: stored_def writing_def case_prod_beta split: option.split)

lemma holds_read [holds]: "keeps (stored P) (store_call \<Omega> op (reading f))"
  by (rule keeps_store_call) (auto simp: stored_def reading_def)

lemma free: "deploy_free UNIV i (stored P)"
  by (simp add: deploy_free_def any stored_def writes)

lemmas audits [holds] = deploy_free_audit[OF free]

lemma simple_ops [holds]:
  "keeps (stored P) (now \<Omega>)" "keeps (stored P) (generateID \<Omega>)" "keeps (stored P) (recordAudit \<Omega> r e)"
  "keeps (stored P) (h_nonce H)" "keeps (stored P) (record_entry H e)" "keeps (stored P) (h_store H op f)"
  "keeps (stored P) (docker_call op args ans)"
  using bookkeeping_ops[OF audit_freeD[OF audits]] recordAudit_frame[OF audits]
  by (simp_all add: h_nonce_def record_entry_def h_store_def emits holds_read docker_call_def)

lemma retries [holds]: "keeps (stored P) m \<Longrightarrow> keeps (stored P) (retry_step \<Omega> p m)"
  by (rule retry_frame[OF tolerates_all[OF any]])

section \<open>Deployments\<close>

lemma runs [holds]: "keeps (stored P) (runDeployment D st p)"
  by (rule runDeployment_frame[OF free]) simp_all

lemma saves [holds]: "keeps (stored P) (save_deployment D p)"
  by (rule save_deployment_frame[OF free]) simp_all

lemma saves_stack [holds]: "keeps (stored P) (save_stack D st)"
  by (rule save_stack_frame[OF free])

lemma creates [holds]: "keeps (stored P) (create_deployment D p)"
  unfolding create_deployment_def by (rule holds_write) (rule writes)

lemma deploys [holds]: "keeps (stored P) (Deploy D st trigger)"
  by (simp add: Deploy_def requestApproval_def hold_deployment_def keep holds Let_def)

lemma held [holds]: "keeps (stored P) (get_held D i)"
  by (simp add: get_held_def keep holds)

lemma approves [holds]: "keeps (stored P) (ApproveDeployment D i)"
  by (simp add: ApproveDeployment_def keep holds split: prod.split)

lemma rejects [holds]: "keeps (stored P) (RejectDeployment D i reason)"
  by (simp add: RejectDeployment_def keep holds Let_def)

lemma expires [holds]: "keeps (stored P) (ExpirePendingApprovals D maxAge)"
proof -
  have "keeps (stored P) (expire_loop D a c ps n)" for a c ps n
    by (induction ps arbitrary: n) (simp_all add: keep holds Let_def)
  then show ?thesis by (simp add: ExpirePendingApprovals_def keep holds)
qed

section \<open>Reconciling\<close>

lemma lists [holds]: "keeps (stored P) (ContainerList \<Omega> n)" "keeps (stored P) (ContainerInspect \<Omega> c)"
  using quiet_ops_frame[OF tolerates_all[OF any]] by simp_all

lemma gathers [holds]: "keeps (stored P) (gather_actual \<Omega> cs acc)"
  by (induction cs arbitrary: acc) (simp_all add: keep holds Let_def)

lemma fetches [holds]: "keeps (stored P) (fetchDesiredState R st)"
  by (simp add: fetchDesiredState_def secureTempDir_def drift_clone_attempt_def RemoveAll_def MkdirAll_def PlainClone_def
      Let_def keep holds)

lemma checks [holds]: "keeps (stored P) (checkDrift R st)"
  by (simp add: checkDrift_def dockerFor_def listStackContainers_def observe_def Let_def keep holds split: option.split)

lemma stamps [holds]: "keeps (stored P) (stamp_reconciled R st)"
  by (simp add: stamp_reconciled_def keep holds)

lemma auto_deploys [holds]: "keeps (stored P) (auto_deploy R st ds b)"
  unfolding auto_deploy_def Let_def by (intro keep holds)

lemma reacts [holds]: "keeps (stored P) (react R st ds b)"
  unfolding react_def Let_def by (intro keep holds)

lemma reconciles [holds]: "keeps (stored P) (reconcileOnce R i b)"
  by (simp add: reconcileOnce_def reconcile_stack_def keep holds)

lemma loops_start [holds]: "keeps (stored P) (Start R ls)"
  by (simp add: Start_def keep holds)

lemma refreshes [holds]: "keeps (stored P) (refresh H i ls)"
  by (simp add: refresh_def RefreshStack_def keep holds Let_def)

section \<open>The handlers of stacks and deployments\<close>

lemma h_writes [holds]: "(\<And>d. P d \<Longrightarrow> P (snd (f d))) \<Longrightarrow> keeps (stored P) (h_write H op f)"
  unfolding h_write_def by (rule holds_write)

lemma lookups [holds]:
  "keeps (stored P) (stack_by_name H n)" "keeps (stored P) (resolveStack_handler H r)" "keeps (stored P) (lookup_stack H r)"
  "keeps (stored P) (docker_host_by H t)" "keeps (stored P) (resolveHostID H t)" "keeps (stored P) (with_loops ls resp)"
  by (simp_all add: stack_by_name_def resolveStack_handler_def lookup_stack_def docker_host_by_def resolveHostID_def
      with_loops_def keep holds Let_def)

lemma saves_h [holds]: "keeps (stored P) (h_save_stack H st)"
  by (simp add: h_save_stack_def keep holds writes)

lemma stack_dones [holds]: "keeps (stored P) (stack_done H r op st resp ls)"
  by (simp add: stack_done_def keep holds)

lemma inserts [holds]: "keeps (stored P) (insert_stack H r input h ls)"
  by (simp add: insert_stack_def keep holds writes Let_def)

lemma cleans [holds]: "keeps (stored P) (cleanup_data H i)"
  by (simp add: cleanup_data_def RemoveAll_def keep holds)

lemma stack_handlers [holds]:
  "keeps (stored P) (CreateStack_handler H r sb ls)" "keeps (stored P) (UpdateStack_handler H r pb ls)"
  "keeps (stored P) (DeleteStack_handler H r ls)" "keeps (stored P) (ListStacks_handler H)" "keeps (stored P) (GetStack_handler H r)"
  by (simp_all add: CreateStack_handler_def UpdateStack_handler_def patch_host_def save_patch_def DeleteStack_handler_def
      ListStacks_handler_def GetStack_handler_def keep holds writes)

lemma starts_deploy [holds]: "keeps (stored P) (start_deploy H r st trigger msg)"
  by (simp add: start_deploy_def accepted_def keep holds)

lemma pendings [holds]: "keeps (stored P) (pendingApprovalFor H st i)"
  by (simp add: pendingApprovalFor_def keep holds)

lemma deployment_handlers [holds]:
  "keeps (stored P) (DeployStack_handler H r)" "keeps (stored P) (ApproveDeployment_handler H r)"
  "keeps (stored P) (RejectDeployment_handler H r rb)" "keeps (stored P) (ListApprovals_handler H)"
  "keeps (stored P) (ListDeployments_handler H r)" "keeps (stored P) (CheckDrift_handler H r)" "keeps (stored P) (PreviewDeploy_handler H r)"
  by (simp_all add: DeployStack_handler_def ApproveDeployment_handler_def accepted_def RejectDeployment_handler_def
      ListApprovals_handler_def ListDeployments_handler_def CheckDrift_handler_def PreviewDeploy_handler_def with_drift_def
      keep holds Let_def)

lemma webhooks [holds]: "keeps (stored P) (LegacyWebhook_handler H r ct sf body)"
  by (simp add: LegacyWebhook_handler_def webhook_stack_def default_stack_def keep holds)

section \<open>The other handlers\<close>

lemma h_deletes [holds]: "(\<And>d. P d \<Longrightarrow> P (snd (f d))) \<Longrightarrow> keeps (stored P) (h_delete H op f)"
  unfolding h_delete_def by (rule keeps_store_call) (auto simp: stored_def case_prod_beta)

lemma deleted_answers [holds]: "keeps (stored P) (deleted_answer H e msg b)"
  by (simp add: deleted_answer_def keep holds)

lemma secret_handlers [holds]:
  "keeps (stored P) (SetStackSecret_handler H r sb)" "keeps (stored P) (ListStackSecrets_handler H r)"
  "keeps (stored P) (DeleteStackSecret_handler H r)"
  by (simp_all add: SetStackSecret_handler_def store_secret_def ListStackSecrets_handler_def DeleteStackSecret_handler_def
      keep holds writes Let_def)

lemma registry_handlers [holds]:
  "keeps (stored P) (SetStackRegistry_handler H r rb)" "keeps (stored P) (ListStackRegistries_handler H r)"
  "keeps (stored P) (DeleteStackRegistry_handler H r)"
  by (simp_all add: SetStackRegistry_handler_def store_registry_def ListStackRegistries_handler_def
      DeleteStackRegistry_handler_def keep holds writes Let_def)

lemma migrates [holds]: "keeps (stored P) (migrate_all H ids n failed)"
  by (induction ids arbitrary: n failed) (simp_all add: migrate_one_def keep holds)

lemma admin_handlers [holds]:
  "keeps (stored P) (EncryptExistingStacks_handler H r)" "keeps (stored P) (ListAuditEntries_handler H r)"
  "keeps (stored P) Health_handler" "keeps (stored P) (Readyz_handler H)" "keeps (stored P) (Status_handler H)"
  by (simp_all add: EncryptExistingStacks_handler_def ListAuditEntries_handler_def audit_stack_def audit_since_def
      Health_handler_def Readyz_handler_def Status_handler_def keep holds Let_def)

section \<open>Containers, images, volumes and networks\<close>

lemma clients [holds]: "keeps (stored P) (dockerForStack H st docker)" "keeps (stored P) (hostClients H docker)"
  by (simp_all add: dockerForStack_def hostClients_def keep holds split: option.split)

lemma container_lookups [holds]: "keeps (stored P) (resolveStackContainer dkr n c)" "keeps (stored P) (log_since H raw)"
  by (simp_all add: resolveStackContainer_def log_since_def keep holds)

lemma withs [holds]:
  "(\<And>st dkr. keeps (stored P) (f st dkr)) \<Longrightarrow> keeps (stored P) (with_docker H r f)"
  "(\<And>st dkr c. keeps (stored P) (g st dkr c)) \<Longrightarrow> keeps (stored P) (with_container H r g)"
  "(\<And>args. keeps (stored P) (k args)) \<Longrightarrow> keeps (stored P) (log_args H r c k)"
  "keeps (stored P) m \<Longrightarrow> keeps (stored P) (upgraded H m)"
  unfolding with_docker_def with_container_def log_args_def upgraded_def by (intro keep holds; assumption?)+

lemma container_handlers [holds]:
  "keeps (stored P) (ListStackContainers_handler H r)" "keeps (stored P) (GetStackContainer_handler H r)"
  "keeps (stored P) (GetStackContainerLogs_handler H r)" "keeps (stored P) (StreamStackContainerLogs_handler H r)"
  "keeps (stored P) (GetStackContainerStats_handler H r)" "keeps (stored P) (StreamStackContainerStats_handler H r)"
  "keeps (stored P) (RestartStackContainer_handler H r)" "keeps (stored P) (StreamStackEvents_handler H r)"
  unfolding ListStackContainers_handler_def GetStackContainer_handler_def GetStackContainerLogs_handler_def
    StreamStackContainerLogs_handler_def GetStackContainerStats_handler_def StreamStackContainerStats_handler_def
    RestartStackContainer_handler_def StreamStackEvents_handler_def
  by (intro keep holds)+

lemma execs [holds]: "keeps (stored P) (ExecStackContainer_handler H r)"
  unfolding ExecStackContainer_handler_def exec_session_def recordExecEnd_def Let_def by (intro keep holds)

lemma browses [holds]: "keeps (stored P) (browse vh f)"
  by (simp add: browse_def keep holds)

lemma fans [holds]: "(\<And>h. keeps (stored P) (f h)) \<Longrightarrow> keeps (stored P) (fan_out f hs out n)"
  by (induction hs arbitrary: out n) (simp_all add: keep)

lemma listings [holds]: "(\<And>h. keeps (stored P) (f h)) \<Longrightarrow> keeps (stored P) (list_managed H what f view)"
  unfolding list_managed_def by (intro keep holds)

lemma volume_lookups [holds]: "keeps (stored P) (resolveVolumeHost H r docker br)" "keeps (stored P) (volumeIsManaged dkr n)"
  by (simp_all add: resolveVolumeHost_def volume_host_of_def volumeIsManaged_def keep holds Let_def split: option.split)

lemma with_volumes [holds]: "(\<And>vh n. keeps (stored P) (f vh n)) \<Longrightarrow> keeps (stored P) (with_volume H r f)"
  unfolding with_volume_def by (intro keep holds)

lemma resource_handlers [holds]:
  "keeps (stored P) (ListManagedImages_handler H r)" "keeps (stored P) (ListManagedVolumes_handler H r)"
  "keeps (stored P) (ListManagedNetworks_handler H r)" "keeps (stored P) (BrowseVolume_handler H r)"
  "keeps (stored P) (WriteVolumeFile_handler H r buf)"
  unfolding ListManagedImages_handler_def ListManagedVolumes_handler_def ListManagedNetworks_handler_def managedImagesOnHost_def
    volumes_on_host_def networks_on_host_def BrowseVolume_handler_def downloadVolumeFile_def listVolumePath_def
    WriteVolumeFile_handler_def write_file_def Let_def
  by (intro keep holds)+

section \<open>Backups, keys and background work\<close>

lemma backup_handlers [holds]:
  "keeps (stored P) (AdminBackup_handler H E pass r)" "keeps (stored P) (AdminRestore_handler H E c header body fs r)"
  unfolding AdminBackup_handler_def AdminRestore_handler_def Let_def by (intro keep holds)+

lemma jobs [holds]: "keeps (stored P) (run_job H j)"
  by (cases j) (simp_all add: run_job_def keep holds)

lemma retention [holds]: "keeps (stored P) (deployment_cleanup \<Omega> c)"
proof -
  have "keeps (stored P) (cleanup_call \<Omega> op f)" if "\<And>t d. P d \<Longrightarrow> P (snd (f t d))" for op f
    unfolding cleanup_call_def by (intro keep holds keeps_store_call) (use that in \<open>auto simp: stored_def case_prod_beta\<close>)
  then show ?thesis by (simp add: deployment_cleanup_def keep writes)
qed

lemma sweeps [holds]: "keeps (stored P) (approval_sweep D c)"
  by (simp add: approval_sweep_def keep holds)

lemma prunes [holds]: "keeps (stored P) (cleanup_sweep hosts)"
  by (induction hosts rule: cleanup_sweep.induct) (simp_all add: CleanupResources_def prune_call_def Let_def keep holds)

lemma legacy [holds]: "keeps (stored P) (migrateLegacyConfig \<Omega> c)"
  unfolding migrateLegacyConfig_def by (intro keep holds holds_write writes)

lemma lists_hosts [holds]: "keeps (stored P) (ListDockerHosts_handler H)"
  by (simp add: ListDockerHosts_handler_def keep holds)

end

section \<open>Keys and hosts\<close>

locale stored_invariant = stored_ops +
  assumes admin_step: "admin_op op \<Longrightarrow> P d \<Longrightarrow> P (db_step op d)"
begin

lemma admin_writes:
  "P d \<Longrightarrow> P (snd (CreateDockerHost n h d))" "P d \<Longrightarrow> P (snd (DeleteDockerHost i d))"
  "P d \<Longrightarrow> P (snd (CreateAPIKey k d))" "P d \<Longrightarrow> P (snd (DeleteAPIKey i d))"
  using admin_step[of "OpCreateHost n h" d] admin_step[of "OpDeleteHost i" d] admin_step[of "OpCreateKey k" d]
    admin_step[of "OpDeleteKey i" d] by simp_all

lemma host_handlers [holds]:
  "keeps (stored P) (CreateDockerHost_handler H r hb)"
  "keeps (stored P) (DeleteDockerHost_handler H r)"
  by (simp_all add: CreateDockerHost_handler_def probe_host_def insert_host_def 
      DeleteDockerHost_handler_def delete_host_def keep holds admin_writes Let_def)

lemma key_row: "CreateAPIKey k d = (x, d') \<Longrightarrow> P d \<Longrightarrow> P d'"
  using admin_writes(3)[of d k] by simp

lemma new_keys: "P d \<Longrightarrow> P (fst (snd (CreateAPIKey_handler sha t gid raw input d)))"
  by (auto simp: CreateAPIKey_handler_def Let_def dest: key_row split: option.splits sum.splits prod.split)

lemma gone_keys: "P d \<Longrightarrow> P (fst (snd (DeleteAPIKey_handler e i d)))"
  by (simp add: DeleteAPIKey_handler_def Let_def case_prod_beta admin_writes split: option.splits)

end

end
