(* ===== verification/Viewers.thy ===== *)
theory Viewers
  imports Stored
begin

text \<open>
  What the handlers that only read leave alone: every table but the audit log, and everything outside. Their calls to
  Docker list, inspect and read; the helper of the volume browser mounts the volume read-only; and they start no job.
\<close>

definition read_calls :: "string list" where
  "read_calls = [''ContainerList'', ''ContainerInspect'', ''ContainerLogs'', ''ContainerStats'', ''Events'', ''ImageList'',
     ''VolumeList'', ''NetworkList'', ''DockerHosts'', ''Upgrade'', ''Ping'']"

fun reading_call :: "vol_call \<Rightarrow> bool" where
  "reading_call (VCreate v ro) = ro"
| "reading_call (VCopyTo c p hs) = False"
| "reading_call _ = True"

fun viewing :: "event \<Rightarrow> bool" where
  "viewing (ECall op args e) = (op \<in> set read_calls)"
| "viewing (EVolume h calls) = list_all reading_call calls"
| "viewing e = observing e"

lemma bookkeeping_viewing: "bookkeeping e \<Longrightarrow> viewing e"
  by (cases e) simp_all

text \<open>The database without its audit log, and the world that grew only by such events.\<close>

definition tables :: "db \<Rightarrow> db" where
  "tables d = d\<lparr>t_audit := []\<rparr>"

definition seen :: "db \<Rightarrow> log \<Rightarrow> world \<Rightarrow> bool" where
  "seen d l w \<longleftrightarrow> tables (w_db w) = tables d \<and> (\<exists>t. w_log w = l @ t \<and> list_all viewing t)"

lemma seen_start: "seen (w_db w) (w_log w) w"
  by (simp add: seen_def)

lemma seen_tolerates: "tolerates viewing (seen d l)"
  by (auto simp: seen_def tolerates_def)

lemma seen_emit: "(\<And>a. viewing (ev a)) \<Longrightarrow> keeps (seen d l) (emit ans ev)"
  by (rule tolerates_emit[OF seen_tolerates])

lemma seen_audit: "audit_free (seen d l)"
proof (rule audit_freeI)
  show "tolerates bookkeeping (seen d l)"
    using seen_tolerates by (rule tolerates_mono) (rule bookkeeping_viewing)
qed (simp add: seen_def tables_def)

named_theorems views \<open>steps that only read\<close>

lemma seen_ops [views]:
  "keeps (seen d l) (now \<Omega>)" "keeps (seen d l) (generateID \<Omega>)" "keeps (seen d l) (recordAudit \<Omega> r e)"
  "keeps (seen d l) (record_entry H e)" "keeps (seen d l) (store_call \<Omega> op (reading f))" "keeps (seen d l) (h_store H op f)"
  "audit_free (seen d l)"
  using bookkeeping_ops[OF audit_freeD[OF seen_audit]] recordAudit_frame[OF seen_audit] seen_audit
  by (simp_all add: record_entry_def h_store_def)

lemma seen_call [views]: "op \<in> set read_calls \<Longrightarrow> keeps (seen d l) (docker_call op args ans)"
  unfolding docker_call_def by (rule seen_emit) simp

section \<open>The drift check\<close>

lemma seen_retry [views]: "keeps (seen d l) m \<Longrightarrow> keeps (seen d l) (retry_step \<Omega> p m)"
  by (rule keeps_retry) (auto simp: seen_tolerates[unfolded tolerates_def, rule_format])

lemma seen_gather [views]: "keeps (seen d l) (gather_actual \<Omega> cs acc)"
  by (induction cs arbitrary: acc) (simp_all add: keep Let_def ContainerInspect_def seen_emit)

lemma seen_fetch [views]: "keeps (seen d l) (fetchDesiredState R st)"
  by (simp add: fetchDesiredState_def secureTempDir_def drift_clone_attempt_def RemoveAll_def MkdirAll_def PlainClone_def
      Let_def keep views seen_emit)

lemma seen_checkDrift [views]: "keeps (seen d l) (checkDrift R st)"
  by (simp add: checkDrift_def dockerFor_def listStackContainers_def observe_def Let_def keep views seen_emit split: option.split)

section \<open>Answers without jobs\<close>

definition answers :: "(world \<Rightarrow> bool) \<Rightarrow> answer act \<Rightarrow> bool" where
  "answers I m \<longleftrightarrow> valid I m (\<lambda>a w. I w \<and> snd a = [])"

lemma answers_respond [views]: "answers I (respond resp)" "answers I (respond_error msg s)"
  by (simp_all add: answers_def respond_def respond_error_def)

lemma answers_bind [views]: "keeps I m \<Longrightarrow> (\<And>a. answers I (f a)) \<Longrightarrow> answers I (State_Monad.bind m f)"
  unfolding answers_def keeps_def by (rule valid_bind)

lemma answers_cases [views]:
  "answers I m \<Longrightarrow> answers I n \<Longrightarrow> answers I (if b then m else n)"
  "answers I m \<Longrightarrow> (\<And>x. answers I (f x)) \<Longrightarrow> answers I (case opt of None \<Rightarrow> m | Some x \<Rightarrow> f x)"
  "(\<And>x. answers I (h x)) \<Longrightarrow> (\<And>x. answers I (k x)) \<Longrightarrow> answers I (case s of Inl x \<Rightarrow> h x | Inr x \<Rightarrow> k x)"
  "(\<And>a b. answers I (g a b)) \<Longrightarrow> answers I (case p of (a, b) \<Rightarrow> g a b)"
  by (simp_all split: option.split sum.split prod.split)

lemma answers_or [views]:
  "keeps I m \<Longrightarrow> (\<And>x. answers I (f x)) \<Longrightarrow> answers I (or_answer m f)"
  "keeps I n \<Longrightarrow> (\<And>x. answers I (g x)) \<Longrightarrow> answers I (or_error msg s n g)"
  unfolding or_answer_def or_error_def by (intro views; assumption)+

section \<open>The handlers that read\<close>

lemma seen_lookups [views]:
  "keeps (seen d l) (stack_by_name H n)" "keeps (seen d l) (resolveStack_handler H r)" "keeps (seen d l) (lookup_stack H r)"
  "keeps (seen d l) (docker_host_by H t)"
  by (simp_all add: stack_by_name_def resolveStack_handler_def lookup_stack_def docker_host_by_def keep views)

lemma seen_clients [views]: "keeps (seen d l) (dockerForStack H st docker)" "keeps (seen d l) (hostClients H docker)"
  by (simp_all add: dockerForStack_def hostClients_def keep seen_emit read_calls_def split: option.split)

lemma seen_container [views]: "keeps (seen d l) (resolveStackContainer dkr n c)" "keeps (seen d l) (log_since H raw)"
  by (simp_all add: resolveStackContainer_def log_since_def keep views read_calls_def)

lemma seen_withs [views]:
  "(\<And>st dkr. answers (seen d l) (f st dkr)) \<Longrightarrow> answers (seen d l) (with_docker H r f)"
  "(\<And>st dkr c. answers (seen d l) (g st dkr c)) \<Longrightarrow> answers (seen d l) (with_container H r g)"
  "(\<And>args. answers (seen d l) (k args)) \<Longrightarrow> answers (seen d l) (log_args H r c k)"
  "answers (seen d l) m \<Longrightarrow> answers (seen d l) (upgraded H m)"
  unfolding with_docker_def with_container_def log_args_def upgraded_def
  by (intro views seen_emit keeps_return; (assumption | simp add: read_calls_def)?)+

lemma seen_plain [views]:
  "answers (seen d l) (ListStacks_handler H)" "answers (seen d l) (GetStack_handler H r)"
  "answers (seen d l) (ListDeployments_handler H r)" "answers (seen d l) (ListApprovals_handler H)"
  "answers (seen d l) (CheckDrift_handler H r)" "answers (seen d l) (ListStackSecrets_handler H r)"
  "answers (seen d l) (ListStackRegistries_handler H r)" "answers (seen d l) (Status_handler H)"
  unfolding ListStacks_handler_def GetStack_handler_def ListDeployments_handler_def ListApprovals_handler_def
    CheckDrift_handler_def with_drift_def ListStackSecrets_handler_def ListStackRegistries_handler_def Status_handler_def Let_def
  by (intro views)+

lemma calls_read [views]:
  "keeps (seen d l) (docker_call ''ContainerList'' args a)" "keeps (seen d l) (docker_call ''ContainerLogs'' args b)"
  "keeps (seen d l) (docker_call ''ContainerStats'' args c)" "keeps (seen d l) (docker_call ''ImageList'' args e)"
  "keeps (seen d l) (docker_call ''VolumeList'' args f)" "keeps (seen d l) (docker_call ''NetworkList'' args g)"
  by (rule seen_call, simp add: read_calls_def)+

lemma events_read [views]: "keeps (seen d l) (emit (\<lambda>_. ()) (\<lambda>_. ECall ''Events'' args None))"
  by (rule seen_emit) (simp add: read_calls_def)

lemma seen_containers [views]:
  "answers (seen d l) (ListStackContainers_handler H r)" "answers (seen d l) (GetStackContainer_handler H r)"
  "answers (seen d l) (GetStackContainerLogs_handler H r)" "answers (seen d l) (StreamStackContainerLogs_handler H r)"
  "answers (seen d l) (GetStackContainerStats_handler H r)" "answers (seen d l) (StreamStackContainerStats_handler H r)"
  "answers (seen d l) (StreamStackEvents_handler H r)"
  unfolding ListStackContainers_handler_def GetStackContainer_handler_def GetStackContainerLogs_handler_def
    StreamStackContainerLogs_handler_def GetStackContainerStats_handler_def StreamStackContainerStats_handler_def
    StreamStackEvents_handler_def
  by (intro views)+

lemma seen_audit_list [views]: "answers (seen d l) (ListAuditEntries_handler H r)"
  unfolding ListAuditEntries_handler_def audit_stack_def audit_since_def by (intro views keep)

lemma seen_fan [views]: "(\<And>h. keeps (seen d l) (f h)) \<Longrightarrow> keeps (seen d l) (fan_out f hs out n)"
  by (induction hs arbitrary: out n) (simp_all add: keep)

lemma seen_listing [views]: "(\<And>h. keeps (seen d l) (f h)) \<Longrightarrow> answers (seen d l) (list_managed H what f view)"
  unfolding list_managed_def by (intro views) assumption

lemma seen_resources [views]:
  "answers (seen d l) (ListManagedImages_handler H r)" "answers (seen d l) (ListManagedVolumes_handler H r)"
  "answers (seen d l) (ListManagedNetworks_handler H r)"
  unfolding ListManagedImages_handler_def ListManagedVolumes_handler_def ListManagedNetworks_handler_def managedImagesOnHost_def
    volumes_on_host_def networks_on_host_def
  by (intro views keep)+

section \<open>The volume browser\<close>

lemma reading_calls:
  assumes "\<And>v ro. VCreate v ro \<in> set cs \<Longrightarrow> ro" "\<And>c p hs. VCopyTo c p hs \<notin> set cs"
  shows "list_all reading_call cs"
  unfolding list_all_iff
proof
  fix x assume x: "x \<in> set cs"
  show "reading_call x"
  proof (cases x)
    case (VCreate v ro)
    then show ?thesis using assms(1) x by simp
  next
    case (VCopyTo c p hs)
    then show ?thesis using assms(2) x by simp
  qed simp_all
qed

lemma helper_no_copy: "createHelperWithMode k vol m = (x, tr) \<Longrightarrow> VCopyTo c p hs \<notin> set tr"
  by (auto simp: createHelperWithMode_def ensureHelperImage_def Let_def split: sum.splits prod.splits if_splits)

lemma reads_no_copy: "VCopyTo c q hs \<notin> set (snd (ListPath k vol p))" "VCopyTo c q hs \<notin> set (snd (ReadFile k vol p n))"
  by (auto simp: ListPath_def ReadFile_def Let_def split: sum.splits prod.splits dest!: helper_no_copy[where c = c and p = q and hs = hs])

lemma browser_reads: "list_all reading_call (snd (ListPath k vol p))" "list_all reading_call (snd (ReadFile k vol p n))"
  by (rule reading_calls; auto dest: list_creates read_creates simp: reads_no_copy)+

lemma close_reads: "fst (ReadFile k vol p n) = Inr (h, onClose) \<Longrightarrow> list_all reading_call onClose"
  by (rule reading_calls) (auto dest: read_closes simp: ReadFile_def Let_def split: sum.splits prod.splits if_splits)

lemma seen_browse:
  assumes "\<And>k. list_all reading_call (snd (f k))"
  shows "valid (seen d l) (browse vh f) (\<lambda>x w. seen d l w \<and> (\<exists>k. x = fst (f k)))"
  unfolding browse_def
proof (rule valid_bind[where R = "\<lambda>a w. seen d l w \<and> (\<exists>k. a = f k)"])
  show "valid (seen d l) (emit (\<lambda>l. f (vh_browse vh l)) (\<lambda>(x, calls). EVolume (vh_id vh) calls)) (\<lambda>a w. seen d l w \<and> (\<exists>k. a = f k))"
    using assms seen_tolerates by (auto simp: tolerates_def case_prod_beta)
qed (auto simp: case_prod_beta)

lemma seen_list_path [views]: "answers (seen d l) (listVolumePath H r vh name path)"
  unfolding listVolumePath_def Let_def
proof (intro views)
  show "keeps (seen d l) (browse vh (\<lambda>k. ListPath k name path))"
    using seen_browse[OF browser_reads(1)] unfolding keeps_def by (rule valid_conseq) auto
qed

lemma seen_download [views]: "answers (seen d l) (downloadVolumeFile H r vh name path)"
proof -
  let ?f = "\<lambda>k. ReadFile k name path maxVolumeFileDownload"
  have close: "keeps (seen d l) (emit (\<lambda>_. ()) (\<lambda>_. EVolume (vh_id vh) (fst (close_reader onClose False))))"
    if "fst (?f k) = Inr (h, onClose)" for k h onClose
    by (rule seen_emit) (use close_reads[OF that] in \<open>simp add: close_reader_def\<close>)
  have "answers (seen d l) (case x of
      Inl err \<Rightarrow> do {
        _ \<leftarrow> record_entry H (failed_entry err (volume_entry r AuditOpVolumeRead name [(''path'', path), (''host'', vh_name vh)]));
        respond_error (err_msg err) 400 }
    | Inr (h, onClose) \<Rightarrow> do {
        _ \<leftarrow> record_entry H (volume_entry r AuditOpVolumeRead name
               ([(''path'', path), (''host'', vh_name vh)] @ [(''size_bytes'', dec_nat (th_size h))]));
        _ \<leftarrow> emit (\<lambda>_. ()) (\<lambda>_. EVolume (vh_id vh) (fst (close_reader onClose False)));
        respond \<lparr>rs_status = 200, rs_body = BRaw (th_name h) (th_size h)\<rparr> })" if "x = fst (?f k)" for x k
  proof (cases x)
    case (Inr y)
    obtain h c where y: "y = (h, c)" by fastforce
    have "keeps (seen d l) (emit (\<lambda>_. ()) (\<lambda>_. EVolume (vh_id vh) (fst (close_reader c False))))"
      using that by (intro close[of k h c]) (simp add: Inr y)
    then show ?thesis unfolding Inr y sum.case prod.case by (intro views)
  qed (simp add: views)
  then show ?thesis
    unfolding downloadVolumeFile_def Let_def answers_def
    by (intro valid_bind[OF seen_browse[of ?f, OF browser_reads(2)]]) (auto simp: valid_def)
qed

lemma seen_volume_host [views]: "keeps (seen d l) (resolveVolumeHost H r docker br)" "keeps (seen d l) (volumeIsManaged dkr n)"
  by (simp_all add: resolveVolumeHost_def volume_host_of_def volumeIsManaged_def keep views seen_emit Let_def split: option.split)

lemma seen_volumes [views]: "answers (seen d l) (BrowseVolume_handler H r)"
  unfolding BrowseVolume_handler_def with_volume_def Let_def by (intro views)

end
