(* ===== verification/Server.thy ===== *)
theory Server
  imports Viewers
begin

text \<open>
  The running server: requests that pass the router and the authentication of internal/handler/handler.go and
  cmd/main.go, the jobs their handlers start, the reconcile cycles and the background work, over the database, the loops,
  the breaker and the files. A step runs from its start to its end; what it does to the database it does by methods of
  the store, each of which keeps the invariants by itself, so that they do not depend on how steps interleave.
\<close>

section \<open>Calls\<close>

text \<open>The endpoints with their decoded bodies; the API keys have their own steps below.\<close>

datatype api_call =
    CallCreateStack "stack_input res" | CallListStacks | CallGetStack | CallUpdateStack "stack_patch res" | CallDeleteStack
  | CallDeployStack | CallListDeployments | CallCheckDrift | CallPreviewDeploy | CallApprove | CallReject "string res"
  | CallListApprovals | CallCreateHost "host_input res" | CallListHosts | CallDeleteHost
  | CallSetSecret "(string \<times> string) res" | CallListSecrets | CallDeleteSecret
  | CallSetRegistry "(string \<times> string \<times> string) res" | CallListRegistries | CallDeleteRegistry
  | CallListContainers | CallGetContainer | CallContainerLogs | CallStreamLogs | CallContainerStats | CallStreamStats
  | CallRestart | CallExec | CallEvents | CallImages | CallVolumes | CallBrowse | CallWriteFile "string option" | CallNetworks
  | CallAudit | CallEncrypt | CallBackup | CallRestore string "string res" | CallStatus
  | CallWebhook string "string \<Rightarrow> string" "string option" | CallHealth | CallReadyz

primrec call_handler :: "api_call \<Rightarrow> string" where
  "call_handler (CallCreateStack _) = ''CreateStack''"
| "call_handler CallListStacks = ''ListStacks''"
| "call_handler CallGetStack = ''GetStack''"
| "call_handler (CallUpdateStack _) = ''UpdateStack''"
| "call_handler CallDeleteStack = ''DeleteStack''"
| "call_handler CallDeployStack = ''DeployStack''"
| "call_handler CallListDeployments = ''ListDeployments''"
| "call_handler CallCheckDrift = ''CheckDrift''"
| "call_handler CallPreviewDeploy = ''PreviewDeploy''"
| "call_handler CallApprove = ''ApproveDeployment''"
| "call_handler (CallReject _) = ''RejectDeployment''"
| "call_handler CallListApprovals = ''ListApprovals''"
| "call_handler (CallCreateHost _) = ''CreateDockerHost''"
| "call_handler CallListHosts = ''ListDockerHosts''"
| "call_handler CallDeleteHost = ''DeleteDockerHost''"
| "call_handler (CallSetSecret _) = ''SetStackSecret''"
| "call_handler CallListSecrets = ''ListStackSecrets''"
| "call_handler CallDeleteSecret = ''DeleteStackSecret''"
| "call_handler (CallSetRegistry _) = ''SetStackRegistry''"
| "call_handler CallListRegistries = ''ListStackRegistries''"
| "call_handler CallDeleteRegistry = ''DeleteStackRegistry''"
| "call_handler CallListContainers = ''ListStackContainers''"
| "call_handler CallGetContainer = ''GetStackContainer''"
| "call_handler CallContainerLogs = ''GetStackContainerLogs''"
| "call_handler CallStreamLogs = ''StreamStackContainerLogs''"
| "call_handler CallContainerStats = ''GetStackContainerStats''"
| "call_handler CallStreamStats = ''StreamStackContainerStats''"
| "call_handler CallRestart = ''RestartStackContainer''"
| "call_handler CallExec = ''ExecStackContainer''"
| "call_handler CallEvents = ''StreamStackEvents''"
| "call_handler CallImages = ''ListManagedImages''"
| "call_handler CallVolumes = ''ListManagedVolumes''"
| "call_handler CallBrowse = ''BrowseVolume''"
| "call_handler (CallWriteFile _) = ''WriteVolumeFile''"
| "call_handler CallNetworks = ''ListManagedNetworks''"
| "call_handler CallAudit = ''ListAuditEntries''"
| "call_handler CallEncrypt = ''EncryptExistingStacks''"
| "call_handler CallBackup = ''AdminBackup''"
| "call_handler (CallRestore _ _) = ''AdminRestore''"
| "call_handler CallStatus = ''Status''"
| "call_handler (CallWebhook _ _ _) = ''LegacyWebhook''"
| "call_handler CallHealth = ''Health''"
| "call_handler CallReadyz = ''Readyz''"

record server_env =
  se_handler :: handler
  se_config :: config
  se_backup :: backup_env
  se_sha :: "string \<Rightarrow> string" \<comment> \<open>SHA-256\<close>
  se_prune :: "(string \<times> string \<times> (log \<Rightarrow> string \<Rightarrow> unit res)) list" \<comment> \<open>the hosts of the resource cleanup\<close>

text \<open>The loops and the files a handler leaves, along with its answer.\<close>

definition leaves :: "answer act \<Rightarrow> loops \<Rightarrow> files \<Rightarrow> (answer \<times> loops \<times> files) act" where
  "leaves m ls fs = do { a \<leftarrow> m; State_Monad.return (a, ls, fs) }"

definition leaves_files :: "(answer \<times> loops) act \<Rightarrow> files \<Rightarrow> (answer \<times> loops \<times> files) act" where
  "leaves_files m fs = do { (a, ls) \<leftarrow> m; State_Monad.return (a, ls, fs) }"

definition leaves_loops :: "(answer \<times> files) act \<Rightarrow> loops \<Rightarrow> (answer \<times> loops \<times> files) act" where
  "leaves_loops m ls = do { (a, fs) \<leftarrow> m; State_Monad.return (a, ls, fs) }"

primrec serve :: "server_env \<Rightarrow> api_call \<Rightarrow> request \<Rightarrow> loops \<Rightarrow> files \<Rightarrow> (answer \<times> loops \<times> files) act" where
  "serve E (CallCreateStack b) r ls fs = leaves_files (CreateStack_handler (se_handler E) r b ls) fs"
| "serve E (CallUpdateStack b) r ls fs = leaves_files (UpdateStack_handler (se_handler E) r b ls) fs"
| "serve E CallDeleteStack r ls fs = leaves_files (DeleteStack_handler (se_handler E) r ls) fs"
| "serve E (CallRestore header b) r ls fs =
     leaves_loops (AdminRestore_handler (se_handler E) (se_backup E) (se_config E) header b fs r) ls"
| "serve E CallListStacks r ls fs = leaves (ListStacks_handler (se_handler E)) ls fs"
| "serve E CallGetStack r ls fs = leaves (GetStack_handler (se_handler E) r) ls fs"
| "serve E CallDeployStack r ls fs = leaves (DeployStack_handler (se_handler E) r) ls fs"
| "serve E CallListDeployments r ls fs = leaves (ListDeployments_handler (se_handler E) r) ls fs"
| "serve E CallCheckDrift r ls fs = leaves (CheckDrift_handler (se_handler E) r) ls fs"
| "serve E CallPreviewDeploy r ls fs = leaves (PreviewDeploy_handler (se_handler E) r) ls fs"
| "serve E CallApprove r ls fs = leaves (ApproveDeployment_handler (se_handler E) r) ls fs"
| "serve E (CallReject b) r ls fs = leaves (RejectDeployment_handler (se_handler E) r b) ls fs"
| "serve E CallListApprovals r ls fs = leaves (ListApprovals_handler (se_handler E)) ls fs"
| "serve E (CallCreateHost b) r ls fs = leaves (CreateDockerHost_handler (se_handler E) r b) ls fs"
| "serve E CallListHosts r ls fs = leaves (ListDockerHosts_handler (se_handler E)) ls fs"
| "serve E CallDeleteHost r ls fs = leaves (DeleteDockerHost_handler (se_handler E) r) ls fs"
| "serve E (CallSetSecret b) r ls fs = leaves (SetStackSecret_handler (se_handler E) r b) ls fs"
| "serve E CallListSecrets r ls fs = leaves (ListStackSecrets_handler (se_handler E) r) ls fs"
| "serve E CallDeleteSecret r ls fs = leaves (DeleteStackSecret_handler (se_handler E) r) ls fs"
| "serve E (CallSetRegistry b) r ls fs = leaves (SetStackRegistry_handler (se_handler E) r b) ls fs"
| "serve E CallListRegistries r ls fs = leaves (ListStackRegistries_handler (se_handler E) r) ls fs"
| "serve E CallDeleteRegistry r ls fs = leaves (DeleteStackRegistry_handler (se_handler E) r) ls fs"
| "serve E CallListContainers r ls fs = leaves (ListStackContainers_handler (se_handler E) r) ls fs"
| "serve E CallGetContainer r ls fs = leaves (GetStackContainer_handler (se_handler E) r) ls fs"
| "serve E CallContainerLogs r ls fs = leaves (GetStackContainerLogs_handler (se_handler E) r) ls fs"
| "serve E CallStreamLogs r ls fs = leaves (StreamStackContainerLogs_handler (se_handler E) r) ls fs"
| "serve E CallContainerStats r ls fs = leaves (GetStackContainerStats_handler (se_handler E) r) ls fs"
| "serve E CallStreamStats r ls fs = leaves (StreamStackContainerStats_handler (se_handler E) r) ls fs"
| "serve E CallRestart r ls fs = leaves (RestartStackContainer_handler (se_handler E) r) ls fs"
| "serve E CallExec r ls fs = leaves (ExecStackContainer_handler (se_handler E) r) ls fs"
| "serve E CallEvents r ls fs = leaves (StreamStackEvents_handler (se_handler E) r) ls fs"
| "serve E CallImages r ls fs = leaves (ListManagedImages_handler (se_handler E) r) ls fs"
| "serve E CallVolumes r ls fs = leaves (ListManagedVolumes_handler (se_handler E) r) ls fs"
| "serve E CallBrowse r ls fs = leaves (BrowseVolume_handler (se_handler E) r) ls fs"
| "serve E (CallWriteFile b) r ls fs = leaves (WriteVolumeFile_handler (se_handler E) r b) ls fs"
| "serve E CallNetworks r ls fs = leaves (ListManagedNetworks_handler (se_handler E) r) ls fs"
| "serve E CallAudit r ls fs = leaves (ListAuditEntries_handler (se_handler E) r) ls fs"
| "serve E CallEncrypt r ls fs = leaves (EncryptExistingStacks_handler (se_handler E) r) ls fs"
| "serve E CallBackup r ls fs =
     leaves (AdminBackup_handler (se_handler E) (se_backup E) (cfg_BackupEncryptionPassphrase (se_config E)) r) ls fs"
| "serve E CallStatus r ls fs = leaves (Status_handler (se_handler E)) ls fs"
| "serve E (CallWebhook ct sf b) r ls fs = leaves (LegacyWebhook_handler (se_handler E) r ct sf b) ls fs"
| "serve E CallHealth r ls fs = leaves Health_handler ls fs"
| "serve E CallReadyz r ls fs = leaves (Readyz_handler (se_handler E)) ls fs"

section \<open>Steps\<close>

record server =
  sv_world :: world
  sv_loops :: loops
  sv_jobs :: "job list" \<comment> \<open>goroutines that handlers started and that have not run yet\<close>
  sv_breaker :: "breaker option"
  sv_files :: files
  sv_touches :: "string list" \<comment> \<open>the ids of the keys whose use is still to be recorded\<close>

text \<open>On whose behalf a step is: a caller with the access it has on the stack its path names, the sender of a signed
  webhook, anyone, or the server itself.\<close>

datatype actor = Caller access | WebhookSender | Anyone | ServerItself

definition caller_access :: "server_env \<Rightarrow> gerr option \<times> gerr option \<times> gerr option \<Rightarrow> auth_request \<Rightarrow> db \<Rightarrow> access option" where
  "caller_access E errs a d =
     (case errs of (err, e1, e2) \<Rightarrow>
        (case api_key_auth (cfg_APIKey (se_config E)) (keyLookup (se_sha E) err d) (Some (resolveStack e1 e2 d)) a of
           AuthPass i \<Rightarrow> Some (access_of (EffectiveRole i (target_stack (Some (resolveStack e1 e2 d)) (rq_path a))))
         | AuthReject _ _ \<Rightarrow> None))"

text \<open>keyLookup starts a goroutine that records the use of the key it has found; the bootstrap key is not looked up.\<close>

definition key_touches :: "server_env \<Rightarrow> gerr option \<Rightarrow> auth_request \<Rightarrow> db \<Rightarrow> string list" where
  "key_touches E err a d =
     (let raw = rq_api_key a in
      if raw = [] \<or> raw = cfg_APIKey (se_config E) then []
      else (case keyLookup (se_sha E) err d raw of
              Inr (Some i) \<Rightarrow> (case GetAPIKeyByHash (HashAPIKey (se_sha E) raw) d of None \<Rightarrow> [] | Some k \<Rightarrow> [ak_id k])
            | _ \<Rightarrow> []))"

text \<open>A request that the router gives to a handler behind the authentication, under the errors the queries of the
  authentication may meet.\<close>

definition routed :: "server_env \<Rightarrow> auth_request \<Rightarrow> string \<Rightarrow> bool" where
  "routed E a name \<longleftrightarrow>
     (\<exists>rt. rt \<in> set (RegisterRoutes (cfg_WebhookSecret (se_config E) \<noteq> [])) \<and> rt_chain rt = ApiKey \<and> rt_handler rt = name
        \<and> rq_method a = rt_method rt \<and> instance_of (rt_pattern rt) (rq_path a))"

definition admitted :: "server_env \<Rightarrow> auth_request \<Rightarrow> string \<Rightarrow> db \<Rightarrow> access \<Rightarrow> string list \<Rightarrow> bool" where
  "admitted E a name d acc touches \<longleftrightarrow>
     routed E a name \<and> (\<exists>errs. caller_access E errs a d = Some acc \<and> touches = key_touches E (fst errs) a d)"

fun record_entries :: "handler \<Rightarrow> audit_entry list \<Rightarrow> unit act" where
  "record_entries H [] = State_Monad.return ()"
| "record_entries H (e # es) = do { _ \<leftarrow> record_entry H e; record_entries H es }"

text \<open>A request that the authentication or the rate limiter turns away leaves only the goroutine for its key behind.\<close>

inductive server_step :: "server_env \<Rightarrow> actor \<Rightarrow> server \<Rightarrow> server \<Rightarrow> bool" for E where
  request: "admitted E a (call_handler c) (w_db (sv_world s)) acc ts
    \<Longrightarrow> run_state (serve E c r (sv_loops s) (sv_files s)) (sv_world s) = (((resp, js), ls, fs), w)
    \<Longrightarrow> server_step E (Caller acc) s (s\<lparr>sv_world := w, sv_loops := ls, sv_files := fs, sv_jobs := sv_jobs s @ js,
          sv_touches := sv_touches s @ ts\<rparr>)"
| webhook: "cfg_WebhookSecret (se_config E) \<noteq> [] \<Longrightarrow> webhook_signature hmac (cfg_WebhookSecret (se_config E)) sig data = HookPass data'
    \<Longrightarrow> run_state (serve E (CallWebhook ct sf (Some data')) r (sv_loops s) (sv_files s)) (sv_world s) = (((resp, js), ls, fs), w)
    \<Longrightarrow> server_step E WebhookSender s (s\<lparr>sv_world := w, sv_loops := ls, sv_files := fs, sv_jobs := sv_jobs s @ js\<rparr>)"
| probe: "c \<in> {CallHealth, CallReadyz}
    \<Longrightarrow> run_state (serve E c r (sv_loops s) (sv_files s)) (sv_world s) = (((resp, js), ls, fs), w)
    \<Longrightarrow> server_step E Anyone s (s\<lparr>sv_world := w, sv_loops := ls, sv_files := fs, sv_jobs := sv_jobs s @ js\<rparr>)"
| create_key: "admitted E a ''CreateAPIKey'' (w_db (sv_world s)) acc ts
    \<Longrightarrow> CreateAPIKey_handler (se_sha E) t rnd g input (w_db (sv_world s)) = (ans, d, ops) \<Longrightarrow> List.map ae_operation es = ops
    \<Longrightarrow> run_state (record_entries (se_handler E) es) ((sv_world s)\<lparr>w_db := d\<rparr>) = ((), w)
    \<Longrightarrow> server_step E (Caller acc) s (s\<lparr>sv_world := w, sv_touches := sv_touches s @ ts\<rparr>)"
| delete_key: "admitted E a ''DeleteAPIKey'' (w_db (sv_world s)) acc ts
    \<Longrightarrow> DeleteAPIKey_handler err i (w_db (sv_world s)) = (ans, d, ops) \<Longrightarrow> List.map ae_operation es = ops
    \<Longrightarrow> run_state (record_entries (se_handler E) es) ((sv_world s)\<lparr>w_db := d\<rparr>) = ((), w)
    \<Longrightarrow> server_step E (Caller acc) s (s\<lparr>sv_world := w, sv_touches := sv_touches s @ ts\<rparr>)"
| turned_away: "routed E a name \<Longrightarrow> server_step E Anyone s (s\<lparr>sv_touches := sv_touches s @ key_touches E err a (w_db (sv_world s))\<rparr>)"
| touch_key: "sv_touches s = us @ i # us' \<Longrightarrow> server_step E ServerItself s
    (s\<lparr>sv_world := (sv_world s)\<lparr>w_db := TouchAPIKey i t (w_db (sv_world s))\<rparr>, sv_touches := us @ us'\<rparr>)"
| touch_fails: "sv_touches s = us @ i # us' \<Longrightarrow> server_step E ServerItself s (s\<lparr>sv_touches := us @ us'\<rparr>)"
| work: "sv_jobs s = js @ j # js' \<Longrightarrow> run_state (run_job (se_handler E) j) (sv_world s) = ((), w)
    \<Longrightarrow> server_step E ServerItself s (s\<lparr>sv_world := w, sv_jobs := js @ js'\<rparr>)"
| cycle: "h_reconciler (se_handler E) = Some R \<Longrightarrow> sv_loops s i \<noteq> None
    \<Longrightarrow> run_state (reconcileOnce R i (sv_breaker s)) (sv_world s) = (b, w)
    \<Longrightarrow> server_step E ServerItself s (s\<lparr>sv_world := w, sv_breaker := b\<rparr>)"
| retain: "run_state (deployment_cleanup (h_env (se_handler E)) (se_config E)) (sv_world s) = ((), w)
    \<Longrightarrow> server_step E ServerItself s (s\<lparr>sv_world := w\<rparr>)"
| sweep: "cfg_ApprovalTimeout (se_config E) > 0
    \<Longrightarrow> run_state (approval_sweep (h_deployer (se_handler E)) (se_config E)) (sv_world s) = ((), w)
    \<Longrightarrow> server_step E ServerItself s (s\<lparr>sv_world := w\<rparr>)"
| prune: "run_state (cleanup_sweep (se_prune E)) (sv_world s) = ((), w) \<Longrightarrow> server_step E ServerItself s (s\<lparr>sv_world := w\<rparr>)"

text \<open>After the migration of the legacy variables the loops are started, and then the server runs.\<close>

definition booted :: "server_env \<Rightarrow> breaker option \<Rightarrow> files \<Rightarrow> world \<Rightarrow> server" where
  "booted E b fs w0 =
     (let w1 = snd (run_state (migrateLegacyConfig (h_env (se_handler E)) (se_config E)) w0) in
      case h_reconciler (se_handler E) of
        None \<Rightarrow> \<lparr>sv_world = w1, sv_loops = Map.empty, sv_jobs = [], sv_breaker = b, sv_files = fs, sv_touches = []\<rparr>
      | Some R \<Rightarrow> (case run_state (Start R Map.empty) w1 of
          (ls, w2) \<Rightarrow> \<lparr>sv_world = w2, sv_loops = ls, sv_jobs = [], sv_breaker = b, sv_files = fs, sv_touches = []\<rparr>))"

definition any_step :: "server_env \<Rightarrow> server \<Rightarrow> server \<Rightarrow> bool" where
  "any_step E s s' \<longleftrightarrow> (\<exists>who. server_step E who s s')"

definition server_runs :: "server_env \<Rightarrow> world \<Rightarrow> server \<Rightarrow> bool" where
  "server_runs E w0 s \<longleftrightarrow> (\<exists>b fs. (any_step E)\<^sup>*\<^sup>* (booted E b fs w0) s)"

section \<open>What the database satisfies at every moment\<close>

context stored_ops
begin

lemma keeps_leaves [holds]:
  "keeps (stored P) m \<Longrightarrow> keeps (stored P) (leaves m ls fs)" "keeps (stored P) k \<Longrightarrow> keeps (stored P) (leaves_files k fs)"
  "keeps (stored P) n \<Longrightarrow> keeps (stored P) (leaves_loops n ls)"
  unfolding leaves_def leaves_files_def leaves_loops_def by (intro keep; assumption)+

lemma serves_ops: "(\<forall>b. c \<noteq> CallCreateHost b) \<Longrightarrow> c \<noteq> CallDeleteHost \<Longrightarrow> keeps (stored P) (serve E c r ls fs)"
  by (cases c) (simp_all add: holds)

lemma after: "keeps (stored P) m \<Longrightarrow> P (w_db w) \<Longrightarrow> run_state m w = (x, w') \<Longrightarrow> P (w_db w')"
  using keepsD[of "stored P" m w] by (simp add: stored_def)

lemma records: "keeps (stored P) (record_entries H es)"
  by (induction es) (simp_all add: keep holds)

end

context stored_invariant
begin

lemma serves: "keeps (stored P) (serve E c r ls fs)"
  by (cases c) (simp_all add: holds)

lemma server_steps: "server_step E who s s' \<Longrightarrow> P (w_db (sv_world s)) \<Longrightarrow> P (w_db (sv_world s'))"
proof (induction rule: server_step.induct)
  case (create_key a s acc ts t rnd g input ans d ops es w)
  then have "P d" using new_keys[of "w_db (sv_world s)" "se_sha E" t rnd g input] by simp
  then show ?case using after[OF records _ create_key(4)] by simp
next
  case (delete_key a s acc ts err i ans d ops es w)
  then have "P d" using gone_keys[of "w_db (sv_world s)" err i] by simp
  then show ?case using after[OF records _ delete_key(4)] by simp
qed (auto simp: writes dest: after[rotated 2] intro!: serves holds)

lemma boots: "P (w_db w0) \<Longrightarrow> P (w_db (sv_world (booted E b fs w0)))"
proof -
  assume p: "P (w_db w0)"
  let ?w = "snd (run_state (migrateLegacyConfig (h_env (se_handler E)) (se_config E)) w0)"
  have "P (w_db ?w)" using keepsD[OF legacy, of w0] p by (simp add: stored_def)
  then have "P (w_db (snd (run_state (Start R Map.empty) ?w)))" for R
    using keepsD[OF loops_start, of ?w] by (simp add: stored_def)
  then show ?thesis using \<open>P (w_db ?w)\<close> by (simp add: booted_def Let_def case_prod_beta split: option.split)
qed

lemma always: "server_runs E w0 s \<Longrightarrow> P (w_db w0) \<Longrightarrow> P (w_db (sv_world s))"
proof -
  assume "server_runs E w0 s" and p: "P (w_db w0)"
  then obtain b fs where "(any_step E)\<^sup>*\<^sup>* (booted E b fs w0) s" by (auto simp: server_runs_def)
  then show ?thesis
    by (induction rule: rtranclp_induct) (auto simp: any_step_def boots[OF p] intro: server_steps)
qed

end

section \<open>Credentials stay sealed and rows keep their keys\<close>

definition sealed_by :: "aead \<Rightarrow> db \<Rightarrow> bool" where
  "sealed_by a d \<longleftrightarrow> cipher d = Some a \<and> all_sensitive sealed d"

lemma encrypted_sealed: "cipher d = Some a \<Longrightarrow> encryptField d n p = Inr s \<Longrightarrow> sealed s"
  by (auto simp: encryptField_def Encrypt_def sealed_def IsPlaintext_def v1_defs split: option.splits if_splits)

lemma sealed_step: "sealed_by a d \<Longrightarrow> sealed_by a (db_step op d)"
  unfolding sealed_by_def db_step_cipher by (intro conjI db_step_sensitive) (auto dest: encrypted_sealed)

interpretation sealed_state: stored_invariant "sealed_by a" for a
  by unfold_locales (rule sealed_step, assumption)+

definition well_keyed :: "db \<Rightarrow> bool" where
  "well_keyed d \<longleftrightarrow> distinct (List.map st_id (t_stacks d)) \<and> distinct (List.map st_name (t_stacks d))
     \<and> distinct (List.map dp_id (t_deployments d)) \<and> distinct (List.map mc_id (t_containers d))
     \<and> distinct (List.map sec_key (t_secrets d)) \<and> distinct (List.map reg_key (t_registries d))
     \<and> distinct (List.map dh_id (t_hosts d)) \<and> distinct (List.map dh_name (t_hosts d))
     \<and> distinct (List.map ak_id (t_keys d)) \<and> distinct (List.map ak_hash (t_keys d)) \<and> distinct (List.map ae_id (t_audit d))"

lemma distinct_filter_map: "distinct (List.map f xs) \<Longrightarrow> distinct (List.map f (filter p xs))"
  by (induction xs) auto

lemma map_update: "(\<And>r. key r = k \<Longrightarrow> g (f r) = g r) \<Longrightarrow> List.map g (tbl_update key k f rows) = List.map g rows"
  by (simp add: tbl_update_def)

lemma distinct_delete: "distinct (List.map g rows) \<Longrightarrow> distinct (List.map g (tbl_delete key k rows))"
  by (simp add: tbl_delete_def distinct_filter_map)

lemma map_upsert:
  "(\<And>old. key (merge old new) = key new) \<Longrightarrow> distinct (List.map key rows) \<Longrightarrow> distinct (List.map key (tbl_upsert key merge new rows))"
  by (auto simp: tbl_upsert_def tbl_find_None map_update)

lemma encrypt_stack_names: "encrypt_stack d n1 n2 st = Inr row \<Longrightarrow> st_id row = st_id st \<and> st_name row = st_name st"
  by (auto simp: encrypt_stack_def split: sum.splits)

lemma names_updated:
  assumes "distinct (List.map st_id rows)" "distinct (List.map st_name rows)"
    and "(\<exists>r \<in> set rows. st_id r = k) \<longrightarrow> (\<forall>r \<in> set rows. st_id r \<noteq> k \<longrightarrow> st_name r \<noteq> n)" "\<And>old. st_name (f old) = n"
  shows "distinct (List.map st_name (tbl_update st_id k f rows))"
  using assms(1-3)
proof (induction rows)
  case (Cons r rows)
  have same: "tbl_update st_id k f rows = rows" if "st_id r = k"
  proof -
    have "\<forall>x \<in> set rows. st_id x \<noteq> k" using Cons.prems(1) that by (auto simp: image_iff)
    then show ?thesis unfolding tbl_update_def by (intro map_idI) simp
  qed
  show ?case
  proof (cases "st_id r = k")
    case True
    have "\<forall>x \<in> set rows. st_id x \<noteq> k" using Cons.prems(1) True by (auto simp: image_iff)
    then have "\<forall>x \<in> set rows. st_name x \<noteq> n" using Cons.prems(3) True by auto
    then have "n \<notin> st_name ` set rows" by auto
    then show ?thesis using Cons.prems same[OF True] assms(4) True by (simp add: tbl_update_def)
  next
    case False
    have "st_name r \<notin> st_name ` set (tbl_update st_id k f rows)"
      using Cons.prems(2,3) False assms(4) by (auto simp: tbl_update_def)
    then show ?thesis using Cons False by (auto simp: tbl_update_def)
  qed
qed (simp add: tbl_update_def)

lemma keyed_stacks:
  assumes "distinct (List.map st_id (t_stacks d))" "distinct (List.map st_name (t_stacks d))"
  shows "distinct (List.map st_id (t_stacks (db_step op d))) \<and> distinct (List.map st_name (t_stacks (db_step op d)))"
proof (cases op)
  case (OpCreateStack n1 n2 st)
  show ?thesis
  proof (cases "encrypt_stack d n1 n2 st")
    case (Inr row)
    have n: "st_id row = st_id st" "st_name row = st_name st" using encrypt_stack_names[OF Inr] by simp_all
    show ?thesis using assms by (auto simp: OpCreateStack CreateStack_def Inr n)
  qed (simp add: OpCreateStack CreateStack_def assms)
next
  case (OpUpdateStack t n1 n2 st)
  show ?thesis
  proof (cases "encrypt_stack d n1 n2 (st\<lparr>st_updated := t\<rparr>)")
    case (Inr row)
    have n: "st_id row = st_id st" "st_name row = st_name st" using encrypt_stack_names[OF Inr] by simp_all
    have "distinct (List.map st_name (tbl_update st_id (st_id st) (\<lambda>old. row\<lparr>st_created := st_created old\<rparr>) (t_stacks d)))"
      if "\<not> ((\<exists>r \<in> set (t_stacks d). st_id r = st_id st) \<and> (\<exists>r \<in> set (t_stacks d). st_id r \<noteq> st_id st \<and> st_name r = st_name st))"
      using that by (intro names_updated[OF assms, where n = "st_name st"]) (auto simp: n)
    then show ?thesis
      using assms by (auto simp: OpUpdateStack UpdateStack_def Inr n map_update)
  qed (simp add: OpUpdateStack UpdateStack_def assms)
next
  case (OpDeleteStack i)
  then show ?thesis using assms by (simp add: DeleteStack_def distinct_delete)
qed (use assms in \<open>simp_all add: CreateDeployment_def UpdateDeployment_def
      CleanupOldDeployments_def CreateDockerHost_def DeleteDockerHost_def CreateAPIKey_def DeleteAPIKey_def TouchAPIKey_def
      TrackContainer_def RemoveContainer_def RemoveContainersByStack_def UpsertStackSecret_def DeleteStackSecret_def
      UpsertStackRegistry_def DeleteStackRegistry_def CreateAuditEntry_def CleanupOldAuditEntries_def Let_def split: sum.split\<close>)

lemma keyed_rest:
  assumes "well_keyed d"
  shows "distinct (List.map dp_id (t_deployments (db_step op d)))" "distinct (List.map mc_id (t_containers (db_step op d)))"
    "distinct (List.map sec_key (t_secrets (db_step op d)))" "distinct (List.map reg_key (t_registries (db_step op d)))"
    "distinct (List.map dh_id (t_hosts (db_step op d)))" "distinct (List.map dh_name (t_hosts (db_step op d)))"
    "distinct (List.map ak_id (t_keys (db_step op d)))" "distinct (List.map ak_hash (t_keys (db_step op d)))"
    "distinct (List.map ae_id (t_audit (db_step op d)))"
  using assms unfolding well_keyed_def
  by (cases op; auto simp: CreateStack_def UpdateStack_def DeleteStack_def CreateDeployment_def UpdateDeployment_def
      CleanupOldDeployments_def CreateDockerHost_def DeleteDockerHost_def CreateAPIKey_def DeleteAPIKey_def TouchAPIKey_def
      TrackContainer_def RemoveContainer_def RemoveContainersByStack_def UpsertStackSecret_def DeleteStackSecret_def
      UpsertStackRegistry_def DeleteStackRegistry_def CreateAuditEntry_def CleanupOldAuditEntries_def Let_def
      map_update distinct_delete distinct_filter_map split: sum.split intro!: map_upsert
      simp: sec_key_def merge_secret_def reg_key_def merge_registry_def tbl_delete_def)+

lemma keyed_step: "well_keyed d \<Longrightarrow> well_keyed (db_step op d)"
  using keyed_stacks[of d op] keyed_rest[of d op] by (simp add: well_keyed_def)

interpretation keyed_state: stored_invariant well_keyed
  by unfold_locales (rule keyed_step, assumption)+

text \<open>C2. In every state the server reaches, from a database that does, the credentials are sealed and every row is found
  by its key: whatever requests, jobs, reconcile cycles and background work have run, with whatever failures of the
  database, of Docker and of git, no stored token, password, secret or TLS key is in plaintext, and no two stacks have
  one id or name, no two hosts, keys, deployments, secrets of a stack or registries of a stack one key.\<close>

theorem server_invariants:
  assumes "server_runs E w0 s" "cipher (w_db w0) = Some a" "all_sensitive sealed (w_db w0)" "well_keyed (w_db w0)"
  shows "all_sensitive sealed (w_db (sv_world s)) \<and> cipher (w_db (sv_world s)) = Some a \<and> well_keyed (w_db (sv_world s))"
  using sealed_state.always[OF assms(1), of a] keyed_state.always[OF assms(1)] assms(2-4) by (simp add: sealed_by_def)

section \<open>Only administrators change keys and hosts\<close>

definition admin_tables :: "db \<Rightarrow> api_key list \<times> docker_host list" where
  "admin_tables d = (List.map (\<lambda>k. k\<lparr>ak_last_used := None\<rparr>) (t_keys d), t_hosts d)"

lemma admin_tables_step: "\<not> admin_op op \<Longrightarrow> admin_tables (db_step op d) = admin_tables d"
  by (cases op; simp add: admin_tables_def CreateStack_def UpdateStack_def DeleteStack_def CreateDeployment_def UpdateDeployment_def
      CleanupOldDeployments_def TouchAPIKey_def TrackContainer_def RemoveContainer_def RemoveContainersByStack_def
      UpsertStackSecret_def DeleteStackSecret_def UpsertStackRegistry_def DeleteStackRegistry_def CreateAuditEntry_def
      CleanupOldAuditEntries_def Let_def map_update split: sum.split)

interpretation admin_state: stored_ops "\<lambda>d. admin_tables d = T" for T
  by unfold_locales (simp add: admin_tables_step)

text \<open>The access a caller needs to get to a handler.\<close>

lemma admitted_access:
  assumes "admitted E a name d acc ts"
  obtains rt where "rt \<in> set (RegisterRoutes (cfg_WebhookSecret (se_config E) \<noteq> []))" "rt_chain rt = ApiKey"
    "rt_handler rt = name" "route_access rt \<le> acc"
proof -
  obtain rt errs where rt: "rt \<in> set (RegisterRoutes (cfg_WebhookSecret (se_config E) \<noteq> []))" "rt_chain rt = ApiKey"
    "rt_handler rt = name" "rq_method a = rt_method rt" "instance_of (rt_pattern rt) (rq_path a)"
    "caller_access E errs a d = Some acc"
    using assms by (auto simp: admitted_def routed_def)
  have "access_of (RequiredRole (rq_method a) (rq_path a)) \<le> acc"
    using rt(6) by (cases errs) (auto simp: caller_access_def api_key_auth_def satisfies_access Let_def split: sum.splits option.splits if_splits)
  moreover have "route_access rt \<le> access_of (RequiredRole (rt_method rt) (rq_path a))"
    using rt(1,5) routes_ok route_ok_access by blast
  ultimately show ?thesis using that[of rt] rt(1-4) by simp
qed

lemma access_top: "Administer \<le> (acc :: access) \<longleftrightarrow> acc = Administer"
  by (cases acc) (simp_all add: less_eq_access_def)

lemma admin_handler: "admitted E a name d acc ts \<Longrightarrow> name \<in> set admin_handlers \<Longrightarrow> acc = Administer"
  by (erule admitted_access) (simp add: route_access_def access_top)

text \<open>C18. Only administrators change the API keys and the Docker hosts: a step of the server that is not a request of a
  caller with the admin role leaves both tables as they are, but for the time a key was last used, whatever other
  requests, webhooks, jobs and cycles do.\<close>

theorem only_admins_change_keys:
  assumes "server_step E who s s'" "who \<noteq> Caller Administer"
  shows "admin_tables (w_db (sv_world s')) = admin_tables (w_db (sv_world s))"
  using assms
proof (cases rule: server_step.cases)
  case (request a c acc ts r resp js ls fs w)
  then have "acc \<noteq> Administer" using assms(2) by simp
  then have "call_handler c \<notin> set admin_handlers" using admin_handler[OF request(3)] by blast
  then have "(\<forall>b. c \<noteq> CallCreateHost b) \<and> c \<noteq> CallDeleteHost" by (auto simp: admin_handlers_def)
  then show ?thesis
    using keepsD[OF admin_state.serves_ops[of c "admin_tables (w_db (sv_world s))" E r "sv_loops s" "sv_files s"], of "sv_world s"] request
    by (simp add: stored_def)
next
  case (create_key a acc ts t rnd g input ans d ops es w)
  then show ?thesis using admin_handler[OF create_key(3)] assms(2) by (simp add: admin_handlers_def)
next
  case (delete_key a acc ts err i ans d ops es w)
  then show ?thesis using admin_handler[OF delete_key(3)] assms(2) by (simp add: admin_handlers_def)
next
  case (turned_away a name err)
  then show ?thesis by simp
next
  case (touch_key us i us' t)
  then show ?thesis using admin_state.writes(7) by simp
next
  case (touch_fails us i us')
  then show ?thesis by simp
next
  case (webhook hmac sig data data' ct sf r resp js ls fs w)
  then show ?thesis using admin_state.after[OF admin_state.serves_ops _ webhook(5)] by simp
next
  case (probe c r resp js ls fs w)
  then have "(\<forall>b. c \<noteq> CallCreateHost b) \<and> c \<noteq> CallDeleteHost" by auto
  then show ?thesis using admin_state.after[OF admin_state.serves_ops refl probe(4)] probe(2) by simp
next
  case (work js j js' w)
  then show ?thesis using admin_state.after[OF admin_state.jobs _ work(4)] by simp
next
  case (cycle R i b w)
  then show ?thesis using admin_state.after[OF admin_state.reconciles _ cycle(5)] by simp
next
  case (retain w)
  then show ?thesis using admin_state.after[OF admin_state.retention _ retain(3)] by simp
next
  case (sweep w)
  then show ?thesis using admin_state.after[OF admin_state.sweeps _ sweep(4)] by simp
next
  case (prune w)
  then show ?thesis using admin_state.after[OF admin_state.prunes _ prune(3)] by simp
qed

section \<open>Viewers change nothing\<close>

definition reading_handlers :: "string list" where
  "reading_handlers = [''ListStacks'', ''GetStack'', ''ListDeployments'', ''CheckDrift'', ''ListApprovals'', ''ListStackSecrets'',
     ''ListStackRegistries'', ''ListStackContainers'', ''GetStackContainer'', ''GetStackContainerLogs'', ''StreamStackContainerLogs'',
     ''GetStackContainerStats'', ''StreamStackContainerStats'', ''StreamStackEvents'', ''ListManagedImages'', ''ListManagedVolumes'',
     ''BrowseVolume'', ''ListManagedNetworks'', ''ListAuditEntries'', ''Status'']"

lemma routes_reading: "list_all (\<lambda>rt. rt_chain rt = ApiKey \<and> route_access rt \<le> ReadOnly \<longrightarrow> rt_handler rt \<in> set reading_handlers) (RegisterRoutes wa)"
  by (cases wa) (simp_all add: RegisterRoutes_def route_defs route_access_def admin_handlers_def reading_handlers_def less_eq_access_def)

lemma viewer_handler: "admitted E a name d acc ts \<Longrightarrow> acc \<le> ReadOnly \<Longrightarrow> name \<in> set reading_handlers"
  by (erule admitted_access) (use routes_reading in \<open>auto simp: list_all_iff\<close>)

lemma answers_leaves:
  "answers I m \<Longrightarrow> valid I (leaves m ls fs) (\<lambda>x w. I w \<and> snd (fst x) = [] \<and> snd x = (ls, fs))"
  unfolding leaves_def answers_def by (rule valid_bind[where R = "\<lambda>a w. I w \<and> snd a = []"]) auto

lemma reading_serves:
  "call_handler c \<in> set reading_handlers
    \<Longrightarrow> valid (seen d l) (serve E c r ls fs) (\<lambda>x w. seen d l w \<and> snd (fst x) = [] \<and> snd x = (ls, fs))"
  by (cases c) (auto simp: reading_handlers_def intro!: answers_leaves views)

text \<open>What recording the use of a key does to the database: one column of one row.\<close>

definition used_at :: "string \<Rightarrow> gotime \<Rightarrow> db \<Rightarrow> db" where
  "used_at i t d = d\<lparr>t_keys := List.map (\<lambda>k. if ak_id k = i then k\<lparr>ak_last_used := Some t\<rparr> else k) (t_keys d)\<rparr>"

lemma touch_is_use: "TouchAPIKey i t d = used_at i t d"
  by (simp add: TouchAPIKey_def used_at_def tbl_update_def)

lemma key_touches_own:
  "key_touches E err a d = [] \<or> (\<exists>k \<in> set (t_keys d). key_touches E err a d = [ak_id k] \<and> ak_hash k = HashAPIKey (se_sha E) (rq_api_key a))"
proof (cases "GetAPIKeyByHash (HashAPIKey (se_sha E) (rq_api_key a)) d")
  case (Some k)
  then have "k \<in> set (t_keys d) \<and> ak_hash k = HashAPIKey (se_sha E) (rq_api_key a)"
    by (auto simp: GetAPIKeyByHash_def dest!: tbl_find_Some)
  then show ?thesis using Some by (auto simp: key_touches_def Let_def split: sum.split option.split)
qed (auto simp: key_touches_def Let_def split: sum.split option.split)


section \<open>For instance\<close>

text \<open>The holder of the bootstrap key creates a stack with a token; a viewer asks for the status.\<close>

definition demo_viewer :: api_key where
  "demo_viewer = \<lparr>ak_id = ''k1'', ak_name = ''dash'', ak_role = ''viewer'', ak_hash = HashAPIKey demo_sha ''vk'', ak_grants = [],
     ak_created = 1, ak_last_used = None, ak_disabled = False\<rparr>"

definition demo_start :: world where
  "demo_start = \<lparr>w_log = [], w_db = (empty_db (Some demo_aead))\<lparr>t_keys := [demo_viewer]\<rparr>\<rparr>"

definition demo_site :: server_env where
  "demo_site = \<lparr>se_handler = demo_handler, se_config = Backups.demo_config,
     se_backup = \<lparr>be_fault = (\<lambda>_ _. None), be_encrypt = (\<lambda>_ x. Inr x), be_decrypt = (\<lambda>_ x. Inr x), be_integrity = (\<lambda>_. Inr ''ok''),
       be_stacks = (\<lambda>_. None), be_snapshot = Inr [], be_tmp = ''/tmp'', be_glob = (\<lambda>_. [])\<rparr>,
     se_sha = demo_sha, se_prune = []\<rparr>"

definition demo_input :: stack_input where
  "demo_input = \<lparr>si_name = ''web'', si_repo_url = ''https://git/x'', si_repo_username = ''u'', si_repo_token = ''t0ken'', si_repo_branch = [],
     si_compose_path = ''c.yml'', si_service_filter = [], si_auto_deploy = False, si_interval = 60, si_requires_approval = False,
     si_host = [], si_docker_username = [], si_docker_password = [], si_docker_registry = []\<rparr>"

definition demo_served :: "api_call \<Rightarrow> string list \<Rightarrow> server \<Rightarrow> server" where
  "demo_served c ts s = (case run_state (serve demo_site c demo_request (sv_loops s) (sv_files s)) (sv_world s) of
     (((resp, js), ls, fs), w) \<Rightarrow> s\<lparr>sv_world := w, sv_loops := ls, sv_files := fs, sv_jobs := sv_jobs s @ js,
       sv_touches := sv_touches s @ ts\<rparr>)"

lemma demo_step:
  "admitted demo_site a (call_handler c) (w_db (sv_world s)) acc ts \<Longrightarrow> server_step demo_site (Caller acc) s (demo_served c ts s)"
  unfolding demo_served_def by (auto intro: server_step.request split: prod.split)

lemma demo_key: "cfg_APIKey (se_config demo_site) = ''k''"
proof -
  have "cfg_APIKey (se_config demo_site) = cfg_APIKey (read_config demo_lib [''API_KEY'' \<mapsto> ''k''])"
    by (simp add: demo_site_def Backups.demo_config_def)
  also have "\<dots> = ''k''" by (simp only: read_config_fields) (simp add: Getenv_def)
  finally show ?thesis .
qed

lemma demo_admin:
  "admitted demo_site \<lparr>rq_method = ''POST'', rq_path = ''/api/v1/stacks'', rq_api_key = ''k''\<rparr> ''CreateStack'' d Administer []"
proof -
  let ?a = "\<lparr>rq_method = ''POST'', rq_path = ''/api/v1/stacks'', rq_api_key = ''k''\<rparr>"
  have "caller_access demo_site (None, None, None) ?a d = Some Administer"
    unfolding caller_access_def api_key_auth_def demo_key
    by (simp add: env_admin_def target_stack_def StackTokenFromPath_def EffectiveRole_def satisfies_access RequiredRole_def
        access_of_def role_defs less_eq_access_def has_prefix_def has_suffix_def)
  moreover have "key_touches demo_site None ?a d = []" by (simp add: key_touches_def demo_key)
  moreover have "routed demo_site ?a ''CreateStack''"
    unfolding routed_def
    by (intro exI[of _ "api ''POST'' [Lit ''stacks''] ''CreateStack''"]) (simp add: RegisterRoutes_def route_defs)
  ultimately show ?thesis unfolding admitted_def by (metis fst_conv)
qed

lemma demo_view:
  assumes "t_keys d = [demo_viewer]"
  shows "admitted demo_site \<lparr>rq_method = ''GET'', rq_path = ''/status'', rq_api_key = ''vk''\<rparr> ''Status'' d ReadOnly [''k1'']"
proof -
  let ?a = "\<lparr>rq_method = ''GET'', rq_path = ''/status'', rq_api_key = ''vk''\<rparr>"
  have viewer: "ParseRole ''viewer'' = Some RoleViewer" by code_simp
  have key: "GetAPIKeyByHash (HashAPIKey (se_sha demo_site) ''vk'') d = Some demo_viewer"
    using assms by (simp add: demo_site_def GetAPIKeyByHash_def tbl_find_def demo_viewer_def)
  have found: "keyLookup (se_sha demo_site) None d ''vk'' = Inr (Some \<lparr>id_name = ''dash'', id_role = RoleViewer, StackGrants = None\<rparr>)"
    using viewer by (simp add: keyLookup_def key) (simp add: demo_viewer_def parsed_grants_def viewer)
  have "caller_access demo_site (None, None, None) ?a d = Some ReadOnly"
    using found unfolding caller_access_def api_key_auth_def demo_key
    by (simp add: target_stack_def StackTokenFromPath_def EffectiveRole_def satisfies_access RequiredRole_def
        access_of_def role_defs less_eq_access_def has_prefix_def has_suffix_def)
  moreover have "key_touches demo_site None ?a d = [''k1'']"
    using found key by (simp add: key_touches_def demo_key) (simp add: demo_viewer_def)
  moreover have "routed demo_site ?a ''Status''"
    unfolding routed_def
    by (intro exI[of _ "root_route ''GET'' ''status'' ''Status'' ApiKey"]) (simp add: RegisterRoutes_def route_defs)
  ultimately show ?thesis unfolding admitted_def by (metis fst_conv)
qed

definition demo_booted :: server where
  "demo_booted = booted demo_site None [] demo_start"

theorem server_invariants_witness:
  "all_sensitive sealed (w_db (sv_world (demo_served (CallCreateStack (Inr demo_input)) [] demo_booted)))"
proof -
  have "any_step demo_site demo_booted (demo_served (CallCreateStack (Inr demo_input)) [] demo_booted)"
    unfolding any_step_def using demo_step[where c = "CallCreateStack (Inr demo_input)" and s = demo_booted, unfolded call_handler.simps, OF demo_admin] by blast
  then have "server_runs demo_site demo_start (demo_served (CallCreateStack (Inr demo_input)) [] demo_booted)"
    unfolding server_runs_def demo_booted_def by blast
  moreover have "cipher (w_db demo_start) = Some demo_aead" "all_sensitive sealed (w_db demo_start)" "well_keyed (w_db demo_start)"
    by (simp_all add: demo_start_def empty_db_def all_sensitive_iff well_keyed_def)
  ultimately show ?thesis using server_invariants[of demo_site demo_start _ demo_aead] by simp
qed

definition demo_idle :: server where
  "demo_idle = \<lparr>sv_world = demo_start, sv_loops = Map.empty, sv_jobs = [], sv_breaker = None, sv_files = [], sv_touches = []\<rparr>"

lemma demo_viewed: "server_step demo_site (Caller ReadOnly) demo_idle (demo_served CallStatus [''k1''] demo_idle)"
  by (rule demo_step, unfold call_handler.simps, rule demo_view) (simp add: demo_idle_def demo_start_def empty_db_def)

theorem only_admins_change_keys_witness:
  "admin_tables (w_db (sv_world (demo_served CallStatus [''k1''] demo_idle))) = admin_tables (w_db (sv_world demo_idle))"
  using only_admins_change_keys[OF demo_viewed] by simp


end
