(* ===== verification/Spec2Isabelle.thy ===== *)
theory Spec2Isabelle
  imports Middleware Interpolate Dotenv Waits Startup Streams Mail Locks Loops Pipeline Rows Routines Sessions Shutdown Overlaps Server
begin

text \<open>
  Accelero is a GitOps controller for docker-compose stacks, a single Go program: it keeps stacks (a Git repository, a
  branch, a compose file, secrets and registry credentials) in a SQLite database, deploys their services to one or
  more Docker daemons by a rolling replacement of containers, compares in regular cycles what runs with what the
  repository says, and serves all of it by an HTTP API with API keys and roles. This development models the Go code
  under src/cmd and src/internal and proves what makes its parts correct, alone and together.

  \<^bold>\<open>How the program fits together.\<close> cmd/main.go reads the configuration, opens the store, wires the parts and starts
  the background loops. A request passes the middleware (identifier, headers, metrics, rate limit, API key and role) and
  reaches a handler of internal/handler, which reads and writes the store, asks Docker, refreshes the reconciler's loops
  or starts a job. A job is a deployment of internal/stack: clone, compose file, networks and volumes, and service by
  service the rollout, with a rollback of the services already deployed when one fails. The reconciler has a loop per
  stack; its cycle checks for drift and deploys when the stack says so and the breaker of the stack allows it.

  \<^bold>\<open>Theories, from the bottom up.\<close>

  \<^item> Prelude: Go's strings (a list of bytes), maps, errors as values and the collections of rules all parts share; the
    locales \<open>invariant_machine\<close> and \<open>refinement\<close>. Utf8: the range loop over runes. Codec: hexadecimal and base64
    behind the locale \<open>codec\<close>, which both interpret.
  \<^item> Breaker (internal/breaker), Retry (internal/retry, internal/gitutil), Rbac (internal/rbac, middleware/auth.go and
    the routes of RegisterRoutes), Dotenv and Interpolate (internal/compose), Middleware (the rest of internal/middleware
    but for its metrics), Metrics (internal/metrics, middleware/metrics.go), Ciphers (internal/secrets), Config
    (internal/config), Mail (the delivery in internal/notify).
  \<^item> Models, Schema, Rows, Store and Auth_Store (internal/store): the structs, the tables and their migrations, the rows as
    cells that are written by name and scanned by position, each method as its SQL statement on lists of structs, and API
    keys. The locale \<open>scanned_table\<close> in Rows is the contract between a struct and its table; stacks and deployments
    interpret it, and it is a sublocale of \<open>refinement\<close>. The locale \<open>keyed_table\<close> in Models is the contract of a table
    with a key; the secrets and registries of a stack interpret it.
  \<^item> Compose_Types, Toposort, Ports, Paths, Registry, Volume_Browser: the pure parts of a deployment in
    internal/service, internal/utils, internal/stack and internal/volume.
  \<^item> World: the outside as answers to questions. Every call of Docker, Git, the clock or the file system is an event of a
    log; the record \<open>outside\<close> gives the answer as a function of the log so far, so it stands for any daemon, one whose
    containers change between two calls included. A step is a function of the state monad over the log and the
    database; \<open>keeps\<close> and \<open>valid\<close> are its rules.
  \<^item> Containers, Rollout, Waits, Deployment, Lifecycle, Deployments, Hazards, Overlaps, Locks, Audit_Log (internal/stack,
    internal/network, internal/audit, internal/notify): waiting for health, the rolling replacement and its undoing, what
    a deployment does from its trigger to its end, what it leaves in the deployments table, how the database calls of the
    operations on that table interleave (\<open>overlap_step\<close>), the locks of services, and who is told.
  \<^item> Drift, Reconciler, Loops (internal/reconciler): what is reported as drift, one cycle, and the goroutines.
  \<^item> Projections, Api, Stacks_Api, Admin_Api, Hosts_Api, Introspection, Browsers, Streams, Sessions
    (internal/handler, internal/dockerhost): every endpoint, with its answer on every path, what the streams carry, and
    the goroutines and deadlines of a websocket.
  \<^item> Backups (internal/backup and the restore in main.go), Startup, Routines and Shutdown (cmd/main.go): the start, the
    background loops and the end of the process.
  \<^item> Pipeline: a request from the wire to a handler, through the middleware of main.go and the chains of RegisterRoutes.
  \<^item> Stored, Viewers, Server: the program as one transition system. \<open>server_step\<close> is a request that the routes and the
    authentication admit, a signed webhook, a probe, the work of a job, a cycle, or the background work.

  Definitions have the names of the code's functions; a handler has the suffix \<open>_handler\<close> where the name is taken. A
  struct is a record, an error a value of \<open>gerr\<close>, a fallible result a sum with the error on the left. A Go map that a
  loop ranges over comes with the order of that iteration as an argument, any permutation.

  \<^bold>\<open>What is proved.\<close>

  \<^item> \<^emph>\<open>Secrets at rest and on the way.\<close> Every sequence of operations of the store leaves each credential column empty or
    sealed; decryption inverts encryption; secrets are a map; a registry's password goes to that registry only, and the
    mail password only over TLS or to the local host.
  \<^item> \<^emph>\<open>Who may do what.\<close> The authentication passes exactly the requests whose effective role suffices; every route
    requires what its handler needs; the stack that was authorised is the stack that is used, when the queries of the
    authentication succeed (when one fails it goes by the base role, a lemma of Auth_Store); a restart, an exec and a
    volume are of the stack and host they were checked on; callers with read access change nothing but the time their
    key was last used, and only administrators change keys and hosts, as steps of the whole server; per key, handlers
    run at the configured rate.
  \<^item> \<^emph>\<open>Deployments.\<close> No container is asked to stop before a well one stands in; success leaves the declared replicas alone
    and has asked for the removal of every other one; foreign containers are not touched, waits are bounded; held
    deployments do nothing. Over all interleavings of the database calls, one approval is open at a time as long as
    requests of one stack do not overlap, and a finished record stays once nobody is left who had read it before: what
    happens without these conditions, which the code does not see to, are lemmas of Overlaps and Hazards. With a working
    database a deployment ends, completed or failed when the secrets can be read and in progress when they cannot;
    services are deployed by one thread at a time, dependencies first.
  \<^item> \<^emph>\<open>Reconciling.\<close> Drift is reported exactly when the host is out of step with what the compose file means, outside the
    image references and service filters that the check misreads (lemmas of Drift); a cycle only looks unless the stack
    deploys by itself and its breaker lets it; the breaker is closed exactly below its threshold; and there is one loop
    per stack as long as refreshes of a stack do not overlap; that they may overlap, with two loops as the result, is a
    lemma of Loops.
  \<^item> \<^emph>\<open>Input and files.\<close> Compose paths, bind mounts and volume paths stay inside; substitution in a compose file means
    what it documents where the arguments are literal text; a backup restores byte by byte and only what passed the validation is staged; migrations
    complete from any interrupted start, and rows of every version are read as what was written; the configuration is
    within its bounds or refused, the cleanup interval apart; streams lose no whole line or byte.
  \<^item> \<^emph>\<open>The server.\<close> A shutdown ends after a bounded number of steps; that it may cut requests
    short is a lemma. The invariants of the database hold in every state the server reaches. The locale
    \<open>stored_ops\<close> has
    the laws a property of the database must satisfy for each method of the store, and proves once, for every handler,
    job and cycle, that it is kept; it is interpreted for the sealed columns, the unique keys and the tables of
    administrators. A step of the server runs alone from start to end, which is coarser than the goroutines of the
    program, but for the goroutine that records the use of a key, which waits for a step of its own; as each single
    method of the store keeps these properties and nothing else changes the database, they do not depend on the order in
    which the calls of different steps interleave. Where the order matters, the systems of Loops, Locks, Overlaps,
    Sessions, Streams and Shutdown have steps as small as the calls.

  \<^bold>\<open>Bounds and arguments.\<close> A wait is a counter of ticks: 45 of two seconds in the 90 seconds of a health check and 60 in the
    two minutes of a dependency, as the constants of the code have them, so no fuel is needed; the other loops are
    recursive on their data, or with a measure. Durations are integers in nanoseconds, and 64-bit words where they can
    overflow (the interval of a loop). float64 is exact rational arithmetic. Upper and lower case is that of ASCII.
    Cryptography (AES-GCM, HMAC, SHA-256, age), the parsers of Go and of the Docker client (durations, sizes, addresses,
    ports, YAML, JSON) and random bytes are arguments; where a property needs a law of theirs it is a hypothesis, with a
    witness that satisfies it.

  \<^bold>\<open>Not modelled.\<close> The libraries themselves: the Docker client, git, SQLite, the HTTP exchange with Vault and S3, age,
    Prometheus, websockets, and the TCP server. The path matching of the router is an argument with its documented law.
    internal/logctx and all logging have no effect on what is modelled. The hijacking
    of connections is not modelled; which read or write of a stream fails is an argument. The helpers
    GetAllServices, SplitServiceNames, ContainsServiceName and WaitForHealthCheck of internal/utils have no caller. Symbolic
    links and permissions of files, constraints of SQL columns other than keys and the order of rows that tie are left out.
\<close>

end
